(* ===== verification/Tos_Prelude.thy ===== *)
theory Tos_Prelude
  imports Complex_Main
begin

text \<open>
  Shared vocabulary and automation of the development: the type of Python strings, the result
  type of operations that may raise, the generic lemmas on lists, options and association lists
  that the components use, and the named collections of facts.

  A Python \<^verbatim>\<open>str\<close> is a list of characters; identifiers, digests and reason texts are
  such strings.  A value that may be \<^verbatim>\<open>None\<close> is an option.  A Python dict whose insertion order
  is observable (the code iterates over it) is an association list with distinct keys, updated
  in place (\<open>dict_put\<close>) as Python does; a dict that is only looked up is a map.
\<close>

section \<open>Collections of facts\<close>

named_theorems dec_defs \<open>definitions of the decimal operations, for evaluation\<close>
named_theorems rcl_defs \<open>definitions of the capacity ledger, for evaluation\<close>
named_theorems log_defs \<open>definitions of the commit log, for evaluation\<close>
named_theorems eng_defs \<open>definitions of the engine, for evaluation\<close>

section \<open>Types\<close>

type_synonym pystr = string
type_synonym ('e, 'a) result = "'e + 'a"

section \<open>Blank strings\<close>

text \<open>\<^verbatim>\<open>not s.strip()\<close>: nothing but white space, among the 8-bit characters.\<close>

definition white_space :: "char list" where
  "white_space =
    [CHR '' '', CHR 0x09, CHR 0x0A, CHR 0x0B, CHR 0x0C, CHR 0x0D, CHR 0x1C, CHR 0x1D, CHR 0x1E, CHR 0x1F,
     CHR 0x85, CHR 0xA0]"

definition blank :: "pystr \<Rightarrow> bool" where
  "blank s = list_all (\<lambda>c. c \<in> set white_space) s"

lemma blank_Nil [simp]: "blank []"
  by (simp add: blank_def)

lemma not_blank_D: "\<not> blank s \<Longrightarrow> s \<noteq> []"
  by auto

section \<open>Early returns\<close>

text \<open>A chain of \<^verbatim>\<open>if b: return False\<close> is a conjunction.\<close>

lemma if_return_False: "(if b then False else c) \<longleftrightarrow> \<not> b \<and> c"
  by simp

section \<open>Insertion-ordered dictionaries\<close>

text \<open>
  \<^verbatim>\<open>d[k] = v\<close> on a Python dict: an existing key keeps its position, a new key is appended.
\<close>

fun dict_put :: "'k \<Rightarrow> 'v \<Rightarrow> ('k \<times> 'v) list \<Rightarrow> ('k \<times> 'v) list" where
  "dict_put k v [] = [(k, v)]"
| "dict_put k v ((k', v') # d) = (if k' = k then (k, v) # d else (k', v') # dict_put k v d)"

lemma map_of_dict_put [simp]: "map_of (dict_put k v d) = (map_of d)(k \<mapsto> v)"
  by (induction d) (auto simp: fun_eq_iff)

lemma keys_dict_put [simp]:
  "map fst (dict_put k v d) =
    (if k \<in> fst ` set d then map fst d else map fst d @ [k])"
  by (induction d) force+

lemma distinct_dict_put [intro]:
  "distinct (map fst d) \<Longrightarrow> distinct (map fst (dict_put k v d))"
  by (simp add: image_iff)

lemma set_dict_put:
  "distinct (map fst d) \<Longrightarrow>
    set (dict_put k v d) = insert (k, v) {p \<in> set d. fst p \<noteq> k}"
proof (induction d)
  case (Cons p d)
  then show ?case
    by (cases p; cases "fst p = k") (force simp: insert_commute)+
qed simp

lemma dict_put_same [simp]: "map_of d k = Some v \<Longrightarrow> dict_put k v d = d"
  by (induction d) auto

section \<open>First match of a loop\<close>

text \<open>
  \<^verbatim>\<open>for x in xs: if p(x): return f(x)\<close> is \<^const>\<open>find\<close>; these facts describe what it returns.
\<close>

lemma find_Some_D: "find P xs = Some x \<Longrightarrow> P x \<and> x \<in> set xs"
  by (induction xs) (auto split: if_splits)

lemma find_None_D: "find P xs = None \<Longrightarrow> x \<in> set xs \<Longrightarrow> \<not> P x"
  by (induction xs) (auto split: if_splits)

lemma find_append:
  "find P (xs @ ys) = (case find P xs of None \<Rightarrow> find P ys | Some x \<Rightarrow> Some x)"
  by (induction xs) auto

lemma find_unique:
  assumes "x \<in> set xs" "P x" "\<And>y. y \<in> set xs \<Longrightarrow> P y \<Longrightarrow> y = x"
  shows "find P xs = Some x"
proof (cases "find P xs")
  case None
  then show ?thesis using assms(1,2) find_None_D by metis
next
  case (Some y)
  then show ?thesis using assms(3) find_Some_D by metis
qed

section \<open>Order-preserving removal of duplicates\<close>

text \<open>
  \<^verbatim>\<open>if d not in order: order.append(d)\<close> over a sequence: the first occurrences, in order.
\<close>

fun first_seen_from :: "'a list \<Rightarrow> 'a list \<Rightarrow> 'a list" where
  "first_seen_from acc [] = acc"
| "first_seen_from acc (x # xs) =
    first_seen_from (if x \<in> set acc then acc else acc @ [x]) xs"

abbreviation first_seen :: "'a list \<Rightarrow> 'a list" where
  "first_seen xs \<equiv> first_seen_from [] xs"

lemma set_first_seen_from [simp]: "set (first_seen_from acc xs) = set acc \<union> set xs"
  by (induction xs arbitrary: acc) auto

lemma distinct_first_seen_from [intro]:
  "distinct acc \<Longrightarrow> distinct (first_seen_from acc xs)"
proof (induction xs arbitrary: acc)
  case (Cons x xs)
  then show ?case by (cases "x \<in> set acc") simp_all
qed simp

end
