(* ===== verification/Py_Decimal.thy ===== *)
theory Py_Decimal
  imports Tos_Prelude
begin

text \<open>
  The part of Python's \<^verbatim>\<open>decimal\<close> module the kernel uses: finite decimals as a signed coefficient
  and an exponent, the context of the interpreter (28 digits, ROUND_HALF_EVEN), addition,
  subtraction, comparison and \<^verbatim>\<open>normalize\<close>, and \<^verbatim>\<open>_normalize_decimal\<close> of
  \<^verbatim>\<open>tos/canonical/canonicalization.py\<close>.  Infinities and NaNs cannot occur: every model pins
  \<^verbatim>\<open>allow_inf_nan=False\<close>.  The sign of a zero is not kept (it never survives
  \<^verbatim>\<open>_normalize_decimal\<close> and no comparison sees it).  The exponent limits of the context
  (plus and minus 999999) are not modelled.

  The lemmas relate each operation to the rational value of its arguments: comparison is exact,
  a sum is exact as long as its coefficient has at most 28 digits, and rounding keeps the sign.
\<close>

section \<open>Decimals and their value\<close>

datatype pydec = Dec (dcoeff: int) (dexp: int)

definition dval :: "pydec \<Rightarrow> rat" where
  "dval d = of_int (dcoeff d) * 10 powi dexp d"

definition dzero :: pydec where
  "dzero = Dec 0 0"

text \<open>The coefficient of \<open>d\<close> when it is written with the exponent \<open>e \<le> dexp d\<close>.\<close>

definition dscale :: "pydec \<Rightarrow> int \<Rightarrow> int" where
  "dscale d e = dcoeff d * 10 ^ nat (dexp d - e)"

definition dle :: "pydec \<Rightarrow> pydec \<Rightarrow> bool" where
  "dle a b = (let e = min (dexp a) (dexp b) in dscale a e \<le> dscale b e)"

definition dlt :: "pydec \<Rightarrow> pydec \<Rightarrow> bool" where
  "dlt a b = (\<not> dle b a)"

definition deq :: "pydec \<Rightarrow> pydec \<Rightarrow> bool" where
  "deq a b = (dle a b \<and> dle b a)"

section \<open>Rounding to the context\<close>

definition dec_prec :: nat where
  "dec_prec = 28"

function excess :: "nat \<Rightarrow> nat" where
  "excess n = (if n < 10 ^ dec_prec then 0 else Suc (excess (n div 10)))"
  by pat_completeness auto
termination
proof (relation "measure id")
  fix n :: nat
  assume "\<not> n < 10 ^ dec_prec"
  then have "0 < n" by (metis gr0I zero_less_power zero_less_numeral)
  then show "(n div 10, n) \<in> measure id" by simp
qed simp

declare excess.simps [simp del]

definition half_even :: "nat \<Rightarrow> nat \<Rightarrow> nat" where
  "half_even n k =
    (let p = 10 ^ k; q = n div p; r = n mod p
     in if p < 2 * r \<or> (2 * r = p \<and> odd q) then q + 1 else q)"

definition dround :: "pydec \<Rightarrow> pydec" where
  "dround d =
    (let n = nat \<bar>dcoeff d\<bar>; k = excess n
     in if k = 0 then d
        else let q = half_even n k
             in if q = 10 ^ dec_prec
                then Dec (sgn (dcoeff d) * 10 ^ (dec_prec - 1)) (dexp d + int k + 1)
                else Dec (sgn (dcoeff d) * int q) (dexp d + int k))"

section \<open>Arithmetic\<close>

definition dadd :: "pydec \<Rightarrow> pydec \<Rightarrow> pydec" where
  "dadd a b = (let e = min (dexp a) (dexp b) in dround (Dec (dscale a e + dscale b e) e))"

definition dneg :: "pydec \<Rightarrow> pydec" where
  "dneg a = Dec (- dcoeff a) (dexp a)"

definition dsub :: "pydec \<Rightarrow> pydec \<Rightarrow> pydec" where
  "dsub a b = dadd a (dneg b)"

definition dmin :: "pydec \<Rightarrow> pydec \<Rightarrow> pydec" where
  "dmin a b = (if dlt b a then b else a)"

text \<open>\<^verbatim>\<open>max(xs)\<close> on a non-empty list keeps the first maximal element.\<close>

fun dmax_from :: "pydec \<Rightarrow> pydec list \<Rightarrow> pydec" where
  "dmax_from m [] = m"
| "dmax_from m (x # xs) = dmax_from (if dlt m x then x else m) xs"

function strip_zeros :: "int \<Rightarrow> int \<Rightarrow> pydec" where
  "strip_zeros c e =
    (if c = 0 then Dec 0 0
     else if c mod 10 = 0 then strip_zeros (c div 10) (e + 1) else Dec c e)"
  by pat_completeness auto
termination
proof (relation "measure (\<lambda>(c, e). nat \<bar>c\<bar>)")
  fix c e :: int
  assume "c \<noteq> 0" "c mod 10 = 0"
  then obtain k where "c = 10 * k" by (auto simp: mod_eq_0_iff_dvd)
  then show "((c div 10, e + 1), (c, e)) \<in> measure (\<lambda>(c, e). nat \<bar>c\<bar>)"
    using \<open>c \<noteq> 0\<close> by simp
qed simp

declare strip_zeros.simps [simp del]

definition dnormalize :: "pydec \<Rightarrow> pydec" where
  "dnormalize d = (let r = dround d in strip_zeros (dcoeff r) (dexp r))"

text \<open>\<^verbatim>\<open>_normalize_decimal\<close>: normalise, and collapse every zero to \<^verbatim>\<open>Decimal(0)\<close>.\<close>

definition normalize_decimal :: "pydec \<Rightarrow> pydec" where
  "normalize_decimal d = (let n = dnormalize d in if deq n dzero then dzero else n)"

lemmas dec_eval [dec_defs] =
  dzero_def dscale_def dle_def dlt_def deq_def dec_prec_def excess.simps half_even_def dround_def
  dadd_def dneg_def dsub_def dmin_def strip_zeros.simps dnormalize_def normalize_decimal_def


section \<open>Values and comparison\<close>

lemma powi_shift: "e \<le> f \<Longrightarrow> (10::rat) powi f = 10 ^ nat (f - e) * 10 powi e"
proof -
  assume le: "e \<le> f"
  have "(10::rat) powi f = 10 powi ((f - e) + e)" by simp
  also have "\<dots> = 10 powi (f - e) * 10 powi e" by (rule power_int_add) simp
  also have "(10::rat) powi (f - e) = 10 ^ nat (f - e)" using le by (simp add: power_int_def)
  finally show ?thesis .
qed

lemma dval_dscale: "e \<le> dexp d \<Longrightarrow> dval d = of_int (dscale d e) * 10 powi e"
  by (simp add: dval_def dscale_def powi_shift)

lemma powi_pos [simp]: "0 < (10::rat) powi e"
  by simp

lemma dle_iff: "dle a b \<longleftrightarrow> dval a \<le> dval b"
proof -
  let ?e = "min (dexp a) (dexp b)"
  have "dval a = of_int (dscale a ?e) * 10 powi ?e" "dval b = of_int (dscale b ?e) * 10 powi ?e"
    by (rule dval_dscale, simp)+
  then show ?thesis by (simp add: dle_def Let_def del: of_int_mult)
qed

lemma dlt_iff: "dlt a b \<longleftrightarrow> dval a < dval b"
  by (auto simp: dlt_def dle_iff)

lemma deq_iff: "deq a b \<longleftrightarrow> dval a = dval b"
  by (auto simp: deq_def dle_iff)

lemmas dcompare = dle_iff dlt_iff deq_iff

lemma dval_dzero [simp]: "dval dzero = 0"
  by (simp add: dval_def dzero_def)

lemma dval_dneg [simp]: "dval (dneg a) = - dval a"
  by (simp add: dval_def dneg_def)

lemma dval_dmin: "dval (dmin a b) = min (dval a) (dval b)"
  by (simp add: dmin_def dcompare min_def)

lemma dmax_from_mem: "dmax_from m xs \<in> set (m # xs)"
  by (induction xs arbitrary: m) (auto split: if_splits)

lemma dmax_from_ge: "x \<in> set (m # xs) \<Longrightarrow> dval x \<le> dval (dmax_from m xs)"
proof (induction xs arbitrary: m x)
  case (Cons y xs)
  have "dval m \<le> dval (if dlt m y then y else m)" "dval y \<le> dval (if dlt m y then y else m)"
    by (auto simp: dcompare)
  with Cons.prems Cons.IH[of "if dlt m y then y else m" "if dlt m y then y else m"]
    Cons.IH[of x "if dlt m y then y else m"] show ?case
    by (auto intro: order_trans)
qed simp

section \<open>Rounding\<close>

lemma excess_0_iff: "excess n = 0 \<longleftrightarrow> n < 10 ^ dec_prec"
  by (subst excess.simps) simp

lemma dround_exact: "\<bar>dcoeff d\<bar> < 10 ^ dec_prec \<Longrightarrow> dround d = d"
proof -
  assume "\<bar>dcoeff d\<bar> < 10 ^ dec_prec"
  then have "nat \<bar>dcoeff d\<bar> < 10 ^ dec_prec" by (simp add: nat_less_iff)
  then show ?thesis by (simp add: dround_def Let_def excess_0_iff[symmetric])
qed

lemma excess_div: "n div 10 ^ excess n < 10 ^ dec_prec"
proof (induction n rule: excess.induct)
  case (1 n)
  show ?case
  proof (cases "n < 10 ^ dec_prec")
    case True
    then show ?thesis by (simp add: excess_0_iff[symmetric])
  next
    case False
    then have "excess n = Suc (excess (n div 10))" by (subst excess.simps) simp
    then show ?thesis using 1[OF False] by (simp add: div_mult2_eq)
  qed
qed

lemma half_even_le: "half_even n k \<le> n div 10 ^ k + 1"
  by (simp add: half_even_def Let_def)

lemma dround_coeff: "\<bar>dcoeff (dround d)\<bar> < 10 ^ dec_prec"
proof (cases "excess (nat \<bar>dcoeff d\<bar>) = 0")
  case True
  then have "\<bar>dcoeff d\<bar> < 10 ^ dec_prec" by (simp add: excess_0_iff nat_less_iff)
  then show ?thesis by (simp add: dround_exact)
next
  case False
  let ?n = "nat \<bar>dcoeff d\<bar>"
  let ?q = "half_even ?n (excess ?n)"
  have le: "?q \<le> 10 ^ dec_prec"
    using half_even_le[of ?n "excess ?n"] excess_div[of ?n] by linarith
  show ?thesis
  proof (cases "?q = 10 ^ dec_prec")
    case True
    then show ?thesis using False
      by (auto simp: dround_def Let_def dec_prec_def abs_mult sgn_if)
  next
    case neq: False
    with le have "int ?q < 10 ^ dec_prec" by (simp flip: of_nat_power_less_of_nat_cancel_iff)
    with False neq show ?thesis
      by (auto simp: dround_def Let_def abs_mult sgn_if)
  qed
qed

lemma dround_sign: "0 \<le> dval d \<Longrightarrow> 0 \<le> dval (dround d)"
proof -
  assume "0 \<le> dval d"
  then have "0 \<le> dcoeff d" using powi_pos[of "dexp d"]
    by (simp add: dval_def zero_le_mult_iff not_le)
  then have "0 \<le> dcoeff (dround d)" by (simp add: dround_def Let_def sgn_if)
  then show ?thesis by (simp add: dval_def)
qed

section \<open>Rounding is monotone\<close>

text \<open>
  Rounding never jumps over a representable number: an argument below (above) a decimal of at
  most 28 digits is rounded to a value below (above) it.
\<close>

lemma dec_prec_Suc: "(10::'a::comm_semiring_1) ^ dec_prec = 10 * 10 ^ (dec_prec - 1)"
  by (simp add: dec_prec_def flip: power_Suc)

lemma excess_low: "0 < excess n \<Longrightarrow> 10 ^ (dec_prec - 1) \<le> n div 10 ^ excess n"
proof (induction n rule: excess.induct)
  case (1 n)
  then have big: "\<not> n < 10 ^ dec_prec" by (metis excess_0_iff less_irrefl)
  then have ex: "excess n = Suc (excess (n div 10))" by (subst excess.simps) simp
  show ?case
  proof (cases "excess (n div 10) = 0")
    case True
    have "10 * 10 ^ (dec_prec - 1) \<le> n" using big by (simp add: dec_prec_Suc)
    then have "10 ^ (dec_prec - 1) \<le> n div 10" by linarith
    with True ex show ?thesis by simp
  next
    case False
    then show ?thesis using 1(1)[OF big] ex by (simp add: div_mult2_eq)
  qed
qed

lemma half_even_ge: "n div 10 ^ k \<le> half_even n k"
  by (simp add: half_even_def Let_def)

lemma half_even_upper: "n \<le> m * 10 ^ k \<Longrightarrow> half_even n k \<le> m"
proof -
  assume le: "n \<le> m * 10 ^ k"
  have n: "n = n div 10 ^ k * 10 ^ k + n mod 10 ^ k" by (rule div_mult_mod_eq[symmetric])
  show ?thesis
  proof (cases "n mod 10 ^ k = 0")
    case True
    then have "half_even n k = n div 10 ^ k" by (simp add: half_even_def Let_def)
    moreover have "n div 10 ^ k * 10 ^ k \<le> m * 10 ^ k" using le n True by linarith
    then have "n div 10 ^ k \<le> m" by (simp only: mult_le_cancel2) simp
    ultimately show ?thesis by simp
  next
    case False
    then have "n div 10 ^ k * 10 ^ k < m * 10 ^ k" using le n by linarith
    then have "n div 10 ^ k < m" by simp
    then show ?thesis using half_even_le[of n k] by linarith
  qed
qed

lemma half_even_lower: "m * 10 ^ k \<le> n \<Longrightarrow> m \<le> half_even n k"
  using half_even_ge[of n k] by (simp add: less_eq_div_iff_mult_less_eq[symmetric])

lemma dval_dround_inexact:
  assumes "n = nat \<bar>dcoeff d\<bar>" "k = excess n" "0 < k"
  shows "dval (dround d) =
    of_int (sgn (dcoeff d)) * of_nat (half_even n k) * 10 powi (dexp d + int k)"
proof (cases "half_even n k = 10 ^ dec_prec")
  case True
  have "(10::rat) powi (dexp d + int k + 1) = 10 * 10 powi (dexp d + int k)"
    by (simp add: power_int_add)
  with assms True show ?thesis
    by (simp add: dround_def dval_def dec_prec_Suc Let_def)
next
  case False
  with assms show ?thesis by (simp add: dround_def dval_def Let_def)
qed

lemma coarse_exponent:
  assumes "\<bar>dcoeff y\<bar> < 10 ^ dec_prec" "10 ^ (dec_prec - 1) * 10 powi f \<le> \<bar>dval y\<bar>"
  shows "f \<le> dexp y"
proof (rule ccontr)
  assume "\<not> f \<le> dexp y"
  then have le: "dexp y \<le> f" and pos: "0 < nat (f - dexp y)" by simp_all
  have "(10::rat) ^ 1 \<le> 10 ^ nat (f - dexp y)" by (rule power_increasing) (use pos in simp_all)
  then have "(10::rat) ^ (dec_prec - 1) * 10 \<le> 10 ^ (dec_prec - 1) * 10 ^ nat (f - dexp y)" by simp
  then have "10 ^ dec_prec * (10::rat) powi dexp y \<le> 10 ^ (dec_prec - 1) * 10 powi f"
    by (simp add: powi_shift[OF le] dec_prec_Suc)
  also have "\<dots> \<le> of_int \<bar>dcoeff y\<bar> * 10 powi dexp y"
    using assms(2) by (simp add: dval_def abs_mult)
  finally have "(of_int (10 ^ dec_prec) :: rat) \<le> of_int \<bar>dcoeff y\<bar>" by simp
  then show False using assms(1) by (simp only: of_int_le_iff)
qed

lemma dround_le:
  assumes "dval a \<le> dval y" "\<bar>dcoeff y\<bar> < 10 ^ dec_prec"
  shows "dval (dround a) \<le> dval y"
proof (cases "excess (nat \<bar>dcoeff a\<bar>) = 0")
  case True
  then show ?thesis using assms(1) by (simp add: dround_def)
next
  case False
  define n k f where "n = nat \<bar>dcoeff a\<bar>" and "k = excess n" and "f = dexp a + int k"
  have k: "0 < k" using False by (simp add: n_def k_def)
  have low: "10 ^ (dec_prec - 1) \<le> n div 10 ^ k" using excess_low k by (simp add: k_def)
  have val: "dval (dround a) = of_int (sgn (dcoeff a)) * of_nat (half_even n k) * 10 powi f"
    using dval_dround_inexact[OF n_def k_def k] by (simp add: f_def)
  have U: "(10::rat) powi f = 10 ^ k * 10 powi dexp a"
    using powi_shift[of "dexp a" f] by (simp add: f_def)
  have "(of_nat (10 ^ (dec_prec - 1)) :: rat) \<le> of_nat (n div 10 ^ k)"
    using low by (simp only: of_nat_le_iff)
  then have q: "(10::rat) ^ (dec_prec - 1) \<le> of_nat (n div 10 ^ k)" by simp
  have h: "(of_nat (n div 10 ^ k) :: rat) \<le> of_nat (half_even n k)" using half_even_ge by simp
  have n0: "n \<noteq> 0"
  proof
    assume "n = 0"
    then have "excess n = 0" by (simp add: excess_0_iff)
    with k show False by (simp add: k_def)
  qed
  then have "dcoeff a \<noteq> 0" by (simp add: n_def)
  then consider (pos) "dcoeff a > 0" | (neg) "dcoeff a < 0" by linarith
  then show ?thesis
  proof cases
    case pos
    then have c: "dcoeff a = int n" by (simp add: n_def)
    have "(of_nat (n div 10 ^ k * 10 ^ k) :: rat) \<le> of_nat n"
      by (simp only: of_nat_le_iff div_times_less_eq_dividend)
    then have "of_nat (n div 10 ^ k) * (10::rat) ^ k \<le> of_nat n" by simp
    then have "of_nat (n div 10 ^ k) * (10::rat) powi f \<le> dval a"
      by (simp add: U dval_def c flip: mult.assoc)
    moreover have "10 ^ (dec_prec - 1) * (10::rat) powi f \<le> of_nat (n div 10 ^ k) * 10 powi f"
      using q by simp
    ultimately have "10 ^ (dec_prec - 1) * (10::rat) powi f \<le> \<bar>dval y\<bar>" using assms(1) by linarith
    then have "f \<le> dexp y" by (rule coarse_exponent[OF assms(2)])
    then have y: "dval y = of_int (dscale y f) * 10 powi f" by (rule dval_dscale)
    with assms(1) have "of_int (int n) * (10::rat) powi dexp a \<le> of_int (dscale y f * 10 ^ k) * 10 powi dexp a"
      by (simp add: dval_def[of a] c U)
    then have "int n \<le> dscale y f * 10 ^ k" by (simp del: of_int_mult of_int_of_nat_eq)
    then have "0 < dscale y f * 10 ^ k" using n0 by linarith
    then have Y: "0 < dscale y f" by (simp add: zero_less_mult_iff)
    with \<open>int n \<le> dscale y f * 10 ^ k\<close> have "int n \<le> int (nat (dscale y f) * 10 ^ k)" by simp
    then have "n \<le> nat (dscale y f) * 10 ^ k" by (simp only: of_nat_le_iff)
    from half_even_upper[OF this] Y have "int (half_even n k) \<le> dscale y f" by linarith
    then have "(of_nat (half_even n k) :: rat) \<le> of_int (dscale y f)"
      by (metis of_int_le_iff of_int_of_nat_eq)
    with pos y val show ?thesis by simp
  next
    case neg
    then have c: "dcoeff a = - int n" by (simp add: n_def)
    have v: "dval (dround a) = - (of_nat (half_even n k) * 10 powi f)" using val neg by simp
    show ?thesis
    proof (cases "10 ^ (dec_prec - 1) * 10 powi f \<le> \<bar>dval y\<bar>")
      case False
      have "10 ^ (dec_prec - 1) * (10::rat) powi f \<le> of_nat (half_even n k) * 10 powi f"
        using q h by simp
      with False v show ?thesis by linarith
    next
      case True
      then have "f \<le> dexp y" by (rule coarse_exponent[OF assms(2)])
      then have y: "dval y = of_int (dscale y f) * 10 powi f" by (rule dval_dscale)
      have "of_int (- int n) * (10::rat) powi dexp a \<le> of_int (dscale y f * 10 ^ k) * 10 powi dexp a"
        using assms(1) y by (simp add: dval_def[of a] c U)
      then have le: "- int n \<le> dscale y f * 10 ^ k"
        by (simp del: of_int_mult of_int_of_nat_eq of_int_minus)
      have "- dscale y f \<le> int (half_even n k)"
      proof (cases "0 \<le> dscale y f")
        case False
        then have "int (nat (- dscale y f) * 10 ^ k) \<le> int n" using le by simp
        then have "nat (- dscale y f) * 10 ^ k \<le> n" by (simp only: of_nat_le_iff)
        then show ?thesis using half_even_lower by fastforce
      qed simp
      then have "- (of_nat (half_even n k) :: rat) \<le> of_int (dscale y f)"
        by (metis minus_le_iff of_int_le_iff of_int_minus of_int_of_nat_eq)
      then have "- of_nat (half_even n k) * (10::rat) powi f \<le> of_int (dscale y f) * 10 powi f"
        by (rule mult_right_mono) simp
      with v y show ?thesis by simp
    qed
  qed
qed

lemma dround_dneg: "dround (dneg d) = dneg (dround d)"
  by (simp add: dround_def dneg_def Let_def sgn_if)

lemma dround_ge:
  assumes "dval y \<le> dval a" "\<bar>dcoeff y\<bar> < 10 ^ dec_prec"
  shows "dval y \<le> dval (dround a)"
  using dround_le[of "dneg a" "dneg y"] assms by (simp add: dround_dneg) (simp add: dneg_def)

section \<open>Addition\<close>

definition dsum_fits :: "pydec \<Rightarrow> pydec \<Rightarrow> bool" where
  "dsum_fits a b =
    (let e = min (dexp a) (dexp b) in \<bar>dscale a e + dscale b e\<bar> < 10 ^ dec_prec)"

lemma dval_exact_sum:
  "dval (Dec (dscale a (min (dexp a) (dexp b)) + dscale b (min (dexp a) (dexp b)))
      (min (dexp a) (dexp b))) = dval a + dval b"
  using dval_dscale[of "min (dexp a) (dexp b)" a] dval_dscale[of "min (dexp a) (dexp b)" b]
  by (simp add: dval_def distrib_right)

lemma dval_dadd_exact: "dsum_fits a b \<Longrightarrow> dval (dadd a b) = dval a + dval b"
  by (simp add: dsum_fits_def dadd_def Let_def dround_exact dval_exact_sum)

lemma dadd_nonneg: "0 \<le> dval a \<Longrightarrow> 0 \<le> dval b \<Longrightarrow> 0 \<le> dval (dadd a b)"
  by (simp add: dadd_def Let_def dround_sign dval_exact_sum)

section \<open>Normalisation\<close>

lemma dval_strip_zeros: "dval (strip_zeros c e) = of_int c * 10 powi e"
proof (induction c e rule: strip_zeros.induct)
  case (1 c e)
  consider "c = 0" | "c \<noteq> 0" "c mod 10 = 0" | "c \<noteq> 0" "c mod 10 \<noteq> 0" by blast
  then show ?case
  proof cases
    case 2
    then obtain k where k: "c = 10 * k" by (auto simp: mod_eq_0_iff_dvd)
    have "strip_zeros c e = strip_zeros (c div 10) (e + 1)"
      using 2 by (subst strip_zeros.simps) simp
    with 1[OF 2] k show ?thesis by (simp add: power_int_add)
  qed (subst strip_zeros.simps, simp add: dval_def)+
qed

definition dnormal :: "pydec \<Rightarrow> bool" where
  "dnormal d = (d = Dec 0 0 \<or> dcoeff d mod 10 \<noteq> 0)"

lemma dnormal_strip_zeros: "dnormal (strip_zeros c e)"
proof (induction c e rule: strip_zeros.induct)
  case (1 c e)
  then show ?case
    by (subst strip_zeros.simps) (simp add: dnormal_def)
qed

lemma strip_zeros_coeff_le: "\<bar>dcoeff (strip_zeros c e)\<bar> \<le> \<bar>c\<bar>"
proof (induction c e rule: strip_zeros.induct)
  case (1 c e)
  then show ?case
    by (subst strip_zeros.simps) (auto simp: mod_eq_0_iff_dvd elim!: dvdE)
qed

lemma strip_zeros_normal: "dnormal d \<Longrightarrow> strip_zeros (dcoeff d) (dexp d) = d"
  by (subst strip_zeros.simps) (cases d, auto simp: dnormal_def)

lemma dnormal_unique_le:
  assumes "dnormal a" "dnormal b" "dval a = dval b" "dexp a \<le> dexp b"
  shows "a = b"
proof (cases "dcoeff b = 0")
  case True
  then have "dcoeff a = 0" using assms(3) by (simp add: dval_def)
  with True assms(1,2) show ?thesis by (auto simp: dnormal_def)
next
  case False
  have "of_int (dcoeff a) * (10::rat) powi dexp a = of_int (dscale b (dexp a)) * 10 powi dexp a"
    using assms(3) dval_dscale[OF assms(4)] by (simp add: dval_def)
  then have eq: "dcoeff a = dcoeff b * 10 ^ nat (dexp b - dexp a)"
    by (simp add: dscale_def del: of_int_mult)
  have "nat (dexp b - dexp a) = 0"
  proof (rule ccontr)
    assume "nat (dexp b - dexp a) \<noteq> 0"
    then obtain k where "nat (dexp b - dexp a) = Suc k" by (metis not0_implies_Suc)
    then have "dcoeff a mod 10 = 0" using eq by simp
    with assms(1) have "a = Dec 0 0" by (simp add: dnormal_def)
    with eq False show False by simp
  qed
  with eq assms(4) show ?thesis by (cases a; cases b) simp
qed

lemma dnormal_unique: "dnormal a \<Longrightarrow> dnormal b \<Longrightarrow> dval a = dval b \<Longrightarrow> a = b"
  by (metis dnormal_unique_le linear)

text \<open>A decimal in canonical form: stripped, and within the context's 28 digits.\<close>

definition dcanon :: "pydec \<Rightarrow> bool" where
  "dcanon d = (dnormal d \<and> \<bar>dcoeff d\<bar> < 10 ^ dec_prec)"

lemma dcanon_dnormalize: "dcanon (dnormalize d)"
  unfolding dcanon_def dnormalize_def Let_def
  using strip_zeros_coeff_le[of "dcoeff (dround d)" "dexp (dround d)"] dround_coeff[of d]
  by (auto simp: dnormal_strip_zeros)

lemma dcanon_dzero [simp]: "dcanon dzero"
  by (simp add: dcanon_def dnormal_def dzero_def)

lemma dcanon_normalize_decimal [simp]: "dcanon (normalize_decimal d)"
  by (simp add: normalize_decimal_def Let_def dcanon_dnormalize)

lemma dcanon_unique: "dcanon a \<Longrightarrow> dcanon b \<Longrightarrow> dval a = dval b \<Longrightarrow> a = b"
  by (simp add: dcanon_def dnormal_unique)

lemma dval_normalize_decimal: "dval (normalize_decimal d) = dval (dround d)"
proof -
  have "dval (dnormalize d) = dval (dround d)"
    by (simp add: dnormalize_def Let_def dval_strip_zeros) (simp add: dval_def)
  then show ?thesis by (auto simp: normalize_decimal_def Let_def deq_iff)
qed

lemma normalize_decimal_canon: "dcanon d \<Longrightarrow> normalize_decimal d = d"
  by (rule dcanon_unique[OF dcanon_normalize_decimal])
    (simp_all add: dval_normalize_decimal dround_exact dcanon_def)

text \<open>
  Numerically equal decimals of at most 28 digits share one canonical form, and distinct ones do
  not: the claim of \<^verbatim>\<open>_normalize_decimal\<close>'s documentation, on the decimals for which it holds.
\<close>

lemma normalize_decimal_eq_iff:
  assumes "\<bar>dcoeff a\<bar> < 10 ^ dec_prec" "\<bar>dcoeff b\<bar> < 10 ^ dec_prec"
  shows "normalize_decimal a = normalize_decimal b \<longleftrightarrow> dval a = dval b"
  using assms dcanon_unique[of "normalize_decimal a" "normalize_decimal b"]
  by (metis dcanon_normalize_decimal dround_exact dval_normalize_decimal)

end
