(* ===== verification/Rcl_Vector.thy ===== *)
theory Rcl_Vector
  imports Py_Decimal
begin

text \<open>
  Capacity vectors: \<^verbatim>\<open>tos/src/tos/rcl/vector.py\<close>.  A vector is an ordered tuple of components,
  one dimension each; a declared dimension whose magnitude is \<^verbatim>\<open>None\<close> is unknown and makes every
  aggregate over it unknown.  The lemmas read each operation through the two questions the rest
  of the ledger asks of a vector, \<open>declares\<close> and \<open>magnitude\<close>, and give the exact rational value
  of an aggregate when its digits fit the decimal context.
\<close>

section \<open>Data\<close>

record dimension_descriptor =
  dd_unit :: "pystr option"
  dd_sign_convention :: "pystr option"
  dd_aggregation_scope :: "pystr option"
  dd_limit_source :: "pystr option"
  dd_conservative_valuation_rule :: "pystr option"
  dd_uncertainty_treatment :: "pystr option"
  dd_evidence_freshness_requirement :: "pystr option"

definition empty_descriptor :: dimension_descriptor where
  "empty_descriptor =
    \<lparr>dd_unit = None, dd_sign_convention = None, dd_aggregation_scope = None,
     dd_limit_source = None, dd_conservative_valuation_rule = None,
     dd_uncertainty_treatment = None, dd_evidence_freshness_requirement = None\<rparr>"

record capacity_component =
  cc_dimension_id :: "pystr option"
  cc_magnitude :: "pydec option"
  cc_unit :: "pystr option"
  cc_scale :: "pystr option"
  cc_descriptor :: dimension_descriptor

text \<open>
  The constructor: the \<^verbatim>\<open>CanonicalDecimal\<close> validator normalises the magnitude.
\<close>

definition make_component ::
  "pystr option \<Rightarrow> pydec option \<Rightarrow> pystr option \<Rightarrow> pystr option \<Rightarrow> dimension_descriptor \<Rightarrow>
    capacity_component" where
  "make_component dm mag unit scl descr =
    \<lparr>cc_dimension_id = dm, cc_magnitude = map_option normalize_decimal mag,
     cc_unit = unit, cc_scale = scl, cc_descriptor = descr\<rparr>"

abbreviation component :: "pystr \<Rightarrow> pydec option \<Rightarrow> capacity_component" where
  "component dm mag \<equiv> make_component (Some dm) mag None None empty_descriptor"

datatype capacity_vector = CapacityVector (components: "capacity_component list")

section \<open>Operations\<close>

fun first_magnitude :: "capacity_component list \<Rightarrow> pystr \<Rightarrow> pydec option" where
  "first_magnitude [] dm = None"
| "first_magnitude (c # cs) dm =
    (if cc_dimension_id c = Some dm then cc_magnitude c else first_magnitude cs dm)"

definition magnitude :: "capacity_vector \<Rightarrow> pystr \<Rightarrow> pydec option" where
  "magnitude v dm = first_magnitude (components v) dm"

definition declares :: "capacity_vector \<Rightarrow> pystr \<Rightarrow> bool" where
  "declares v dm = list_ex (\<lambda>c. cc_dimension_id c = Some dm) (components v)"

definition dimension_ids :: "capacity_vector \<Rightarrow> pystr list" where
  "dimension_ids v = List.map_filter cc_dimension_id (components v)"

text \<open>
  The inner loop of \<^verbatim>\<open>aggregate_usage\<close> for one dimension; an unknown magnitude breaks out of it.
\<close>

fun total_from :: "pydec \<Rightarrow> pystr \<Rightarrow> capacity_vector list \<Rightarrow> pydec option" where
  "total_from t dm [] = Some t"
| "total_from t dm (v # vs) =
    (if \<not> declares v dm then total_from t dm vs
     else case magnitude v dm of
            None \<Rightarrow> None
          | Some m \<Rightarrow> total_from (dadd t m) dm vs)"

definition aggregate_usage :: "capacity_vector list \<Rightarrow> capacity_vector" where
  "aggregate_usage vs =
    CapacityVector
      (map (\<lambda>dm. component dm (total_from dzero dm vs))
        (first_seen (concat (map dimension_ids vs))))"

definition effective_limit :: "capacity_vector \<Rightarrow> capacity_vector \<Rightarrow> capacity_vector" where
  "effective_limit hard runtime =
    CapacityVector
      (map (\<lambda>dm. component dm
          (case (magnitude hard dm, magnitude runtime dm) of
            (Some h, Some r) \<Rightarrow> Some (dmin h r)
          | _ \<Rightarrow> None))
        (first_seen (dimension_ids hard @ dimension_ids runtime)))"

record benefit_claim =
  bc_kind :: "pystr option"
  bc_reduction :: capacity_vector

record benefit_proof =
  bp_broker_profile_proven :: bool
  bp_scope_proven :: bool
  bp_proof_reference :: "pystr option"

definition is_positive :: "benefit_proof \<Rightarrow> bool" where
  "is_positive p = (bp_broker_profile_proven p \<and> bp_scope_proven p)"

lemmas vector_eval [rcl_defs] =
  empty_descriptor_def make_component_def magnitude_def declares_def dimension_ids_def
  aggregate_usage_def effective_limit_def is_positive_def

section \<open>Reading a vector\<close>

text \<open>Every magnitude of a constructed vector is canonical.\<close>

definition vector_ok :: "capacity_vector \<Rightarrow> bool" where
  "vector_ok v =
    list_all (\<lambda>c. case cc_magnitude c of None \<Rightarrow> True | Some m \<Rightarrow> dcanon m) (components v)"

lemma set_dimension_ids [simp]: "dm \<in> set (dimension_ids v) \<longleftrightarrow> declares v dm"
  by (cases v) (force simp: dimension_ids_def declares_def list_ex_iff List.map_filter_def)

lemma magnitude_undeclared: "\<not> declares v dm \<Longrightarrow> magnitude v dm = None"
proof -
  have "\<not> list_ex (\<lambda>c. cc_dimension_id c = Some dm) cs \<Longrightarrow> first_magnitude cs dm = None" for cs
    by (induction cs) auto
  then show "\<not> declares v dm \<Longrightarrow> magnitude v dm = None"
    by (simp add: declares_def magnitude_def)
qed

lemma magnitude_declared: "magnitude v dm = Some m \<Longrightarrow> declares v dm"
  using magnitude_undeclared by fastforce

lemma magnitude_ok: "vector_ok v \<Longrightarrow> magnitude v dm = Some m \<Longrightarrow> dcanon m"
proof -
  have "list_all (\<lambda>c. case cc_magnitude c of None \<Rightarrow> True | Some m \<Rightarrow> dcanon m) cs \<Longrightarrow>
      first_magnitude cs dm = Some m \<Longrightarrow> dcanon m" for cs
    by (induction cs) (auto split: if_splits)
  then show "vector_ok v \<Longrightarrow> magnitude v dm = Some m \<Longrightarrow> dcanon m"
    by (simp add: vector_ok_def magnitude_def)
qed

text \<open>Vectors built by mapping a function over a list of dimensions.\<close>

lemma magnitude_map_component:
  "magnitude (CapacityVector (map (\<lambda>d. component d (f d)) ds)) dm =
    (if dm \<in> set ds then map_option normalize_decimal (f dm) else None)"
  by (induction ds) (auto simp: magnitude_def make_component_def)

lemma declares_map_component [simp]:
  "declares (CapacityVector (map (\<lambda>d. component d (f d)) ds)) dm \<longleftrightarrow> dm \<in> set ds"
  by (auto simp: declares_def list_ex_iff make_component_def)

lemma vector_ok_map_component [simp]:
  "vector_ok (CapacityVector (map (\<lambda>d. component d (f d)) ds))"
  by (auto simp: vector_ok_def list_all_iff make_component_def split: option.splits)

section \<open>Aggregation\<close>

lemma declares_aggregate_usage [simp]:
  "declares (aggregate_usage vs) dm \<longleftrightarrow> (\<exists>v \<in> set vs. declares v dm)"
  by (simp add: aggregate_usage_def)

lemma magnitude_aggregate_usage:
  "magnitude (aggregate_usage vs) dm =
    (if \<exists>v \<in> set vs. declares v dm
     then map_option normalize_decimal (total_from dzero dm vs) else None)"
  by (simp add: aggregate_usage_def magnitude_map_component)

lemma vector_ok_aggregate_usage [simp]: "vector_ok (aggregate_usage vs)"
  by (simp add: aggregate_usage_def)

lemma total_from_None_iff:
  "total_from t dm vs = None \<longleftrightarrow> (\<exists>v \<in> set vs. declares v dm \<and> magnitude v dm = None)"
  by (induction vs arbitrary: t) (auto split: option.splits)

lemma total_from_filter:
  "total_from t dm (filter (\<lambda>v. declares v dm) vs) = total_from t dm vs"
  by (induction vs arbitrary: t) (auto split: option.splits)

lemma total_from_append:
  "total_from t dm (vs @ ws) =
    (case total_from t dm vs of None \<Rightarrow> None | Some u \<Rightarrow> total_from u dm ws)"
  by (induction vs arbitrary: t) (auto split: option.splits)

text \<open>The rational value a vector contributes to a dimension, and digits that fit.\<close>

definition mag_val :: "capacity_vector \<Rightarrow> pystr \<Rightarrow> rat" where
  "mag_val v dm = (case magnitude v dm of None \<Rightarrow> 0 | Some m \<Rightarrow> dval m)"

definition fine_scale :: "nat \<Rightarrow> pystr \<Rightarrow> capacity_vector \<Rightarrow> bool" where
  "fine_scale k dm v =
    (case magnitude v dm of None \<Rightarrow> True | Some m \<Rightarrow> - int k \<le> dexp m)"

definition usage_fits :: "nat \<Rightarrow> pystr \<Rightarrow> capacity_vector list \<Rightarrow> bool" where
  "usage_fits k dm vs =
    (list_all (fine_scale k dm) vs \<and>
     (\<Sum>v\<leftarrow>vs. \<bar>mag_val v dm\<bar>) * 10 ^ k < 10 ^ dec_prec)"

lemma dscale_bound:
  fixes r :: rat
  assumes "- int k \<le> e" "\<bar>r\<bar> * 10 ^ k < 10 ^ dec_prec" "r = of_int c * 10 powi e"
  shows "\<bar>c\<bar> < 10 ^ dec_prec"
proof -
  have "\<bar>r\<bar> = of_int \<bar>c\<bar> * 10 powi e" using assms(3)
    by (simp add: abs_mult del: zero_less_power_int)
  moreover have "(10::rat) powi e * 10 ^ k = 10 ^ nat (e + int k)"
    using powi_shift[of "- int k" e] assms(1) by (simp add: power_int_minus)
  ultimately have "\<bar>r\<bar> * 10 ^ k = of_int (\<bar>c\<bar> * 10 ^ nat (e + int k))"
    by (simp add: mult.assoc)
  with assms(2) have "of_int (\<bar>c\<bar> * 10 ^ nat (e + int k)) < (of_int (10 ^ dec_prec) :: rat)"
    by simp
  then have "\<bar>c\<bar> * 10 ^ nat (e + int k) < 10 ^ dec_prec" by (simp only: of_int_less_iff)
  moreover have "\<bar>c\<bar> * 1 \<le> \<bar>c\<bar> * 10 ^ nat (e + int k)" by (rule mult_left_mono) simp_all
  ultimately show ?thesis by simp
qed

lemma dadd_fits:
  assumes "- int k \<le> dexp a" "- int k \<le> dexp b" "\<bar>dval a + dval b\<bar> * 10 ^ k < 10 ^ dec_prec"
  shows "dval (dadd a b) = dval a + dval b" "- int k \<le> dexp (dadd a b)"
proof -
  let ?e = "min (dexp a) (dexp b)"
  have "dval a + dval b = of_int (dscale a ?e + dscale b ?e) * 10 powi ?e"
    using dval_exact_sum[of a b] by (simp add: dval_def)
  with assms have "\<bar>dscale a ?e + dscale b ?e\<bar> < 10 ^ dec_prec"
    by (intro dscale_bound[of k ?e "dval a + dval b"]) auto
  then have fits: "dsum_fits a b" by (simp add: dsum_fits_def Let_def)
  then show "dval (dadd a b) = dval a + dval b" by (rule dval_dadd_exact)
  from fits show "- int k \<le> dexp (dadd a b)"
    using assms(1,2) by (simp add: dadd_def Let_def dround_exact dsum_fits_def)
qed

lemma total_from_exact:
  assumes "- int k \<le> dexp t" "list_all (fine_scale k dm) vs"
    "(\<bar>dval t\<bar> + (\<Sum>v\<leftarrow>vs. \<bar>mag_val v dm\<bar>)) * 10 ^ k < 10 ^ dec_prec"
    "total_from t dm vs = Some u"
  shows "dval u = dval t + (\<Sum>v\<leftarrow>vs. mag_val v dm)"
  using assms
proof (induction vs arbitrary: t)
  case (Cons v vs)
  show ?case
  proof (cases "declares v dm")
    case False
    then have "mag_val v dm = 0" by (simp add: mag_val_def magnitude_undeclared)
    with Cons False show ?thesis by simp
  next
    case True
    with Cons.prems(4) obtain m where m: "magnitude v dm = Some m"
      "total_from (dadd t m) dm vs = Some u"
      by (auto split: option.splits)
    have val: "mag_val v dm = dval m" by (simp add: mag_val_def m)
    have fine: "- int k \<le> dexp m" using Cons.prems(2) m by (simp add: fine_scale_def)
    have rest: "0 \<le> (\<Sum>v\<leftarrow>vs. \<bar>mag_val v dm\<bar>)" by (rule sum_list_nonneg) auto
    have "\<bar>dval t + dval m\<bar> \<le> \<bar>dval t\<bar> + (\<Sum>v\<leftarrow>(v # vs). \<bar>mag_val v dm\<bar>)"
      using rest val by simp
    then have "\<bar>dval t + dval m\<bar> * 10 ^ k < 10 ^ dec_prec"
      using Cons.prems(3) by (meson le_less_trans mult_right_mono zero_le_numeral zero_le_power)
    note add = dadd_fits[OF Cons.prems(1) fine this]
    have "\<bar>dval (dadd t m)\<bar> + (\<Sum>v\<leftarrow>vs. \<bar>mag_val v dm\<bar>)
        \<le> \<bar>dval t\<bar> + (\<Sum>v\<leftarrow>(v # vs). \<bar>mag_val v dm\<bar>)"
      using add(1) val by simp
    then have "(\<bar>dval (dadd t m)\<bar> + (\<Sum>v\<leftarrow>vs. \<bar>mag_val v dm\<bar>)) * 10 ^ k < 10 ^ dec_prec"
      using Cons.prems(3) by (meson le_less_trans mult_right_mono zero_le_numeral zero_le_power)
    with Cons.IH[OF add(2) _ this m(2)] Cons.prems(2) add(1) val show ?thesis by simp
  qed
qed simp

lemma dval_dround_dadd: "dval (normalize_decimal (dadd a b)) = dval (dadd a b)"
  by (simp add: dval_normalize_decimal dround_exact dround_coeff dadd_def Let_def)

lemma total_from_coeff:
  "\<bar>dcoeff t\<bar> < 10 ^ dec_prec \<Longrightarrow> total_from t dm vs = Some u \<Longrightarrow> \<bar>dcoeff u\<bar> < 10 ^ dec_prec"
proof (induction vs arbitrary: t)
  case (Cons v vs)
  have "\<bar>dcoeff (dadd t m)\<bar> < 10 ^ dec_prec" for m
    by (simp add: dadd_def Let_def dround_coeff)
  with Cons show ?case by (auto split: if_splits option.splits)
qed simp

lemma dval_normalize_total:
  "total_from dzero dm vs = Some u \<Longrightarrow> dval (normalize_decimal u) = dval u"
  using total_from_coeff[of dzero dm vs u]
  by (simp add: dval_normalize_decimal dround_exact dzero_def)

text \<open>
  The aggregate is the exact sum of what the vectors contribute, as long as the digits fit.
\<close>

lemma aggregate_usage_exact:
  assumes "usage_fits k dm vs" "magnitude (aggregate_usage vs) dm = Some u"
  shows "dval u = (\<Sum>v\<leftarrow>vs. mag_val v dm)"
proof -
  from assms(2) obtain w where w: "total_from dzero dm vs = Some w" "u = normalize_decimal w"
    by (auto simp: magnitude_aggregate_usage split: if_splits)
  have "dval w = dval dzero + (\<Sum>v\<leftarrow>vs. mag_val v dm)"
    using assms(1) w(1) by (intro total_from_exact) (auto simp: usage_fits_def dzero_def dval_def)
  with w show ?thesis by (simp add: dval_normalize_total)
qed

lemma total_from_nonneg:
  assumes "\<And>v. v \<in> set vs \<Longrightarrow> 0 \<le> mag_val v dm" "0 \<le> dval t" "total_from t dm vs = Some u"
  shows "0 \<le> dval u"
  using assms
proof (induction vs arbitrary: t)
  case (Cons v vs)
  show ?case
  proof (cases "declares v dm")
    case True
    then obtain m where m: "magnitude v dm = Some m" "total_from (dadd t m) dm vs = Some u"
      using Cons.prems(3) by (auto split: option.splits)
    then have "0 \<le> dval m" using Cons.prems(1)[of v] by (simp add: mag_val_def)
    then have "0 \<le> dval (dadd t m)" using Cons.prems(2) by (rule dadd_nonneg[rotated])
    with Cons.IH[OF _ this m(2)] Cons.prems(1) show ?thesis by simp
  qed (use Cons in simp)
qed simp

text \<open>
  With no negative contribution the aggregate dominates each of its parts, whatever the rounding
  of the context does: rounding never goes below a representable number.
\<close>

lemma dadd_ge:
  assumes "0 \<le> dval b" "\<bar>dcoeff a\<bar> < 10 ^ dec_prec"
  shows "dval a \<le> dval (dadd a b)"
  using assms by (simp add: dadd_def Let_def dround_ge dval_exact_sum)

lemma dadd_coeff: "\<bar>dcoeff (dadd a b)\<bar> < 10 ^ dec_prec"
  by (simp add: dadd_def Let_def dround_coeff)

lemma dadd_comm: "dadd a b = dadd b a"
  by (simp add: dadd_def Let_def min.commute add.commute)

lemma total_from_ge:
  assumes "\<And>v. v \<in> set vs \<Longrightarrow> 0 \<le> mag_val v dm" "\<bar>dcoeff t\<bar> < 10 ^ dec_prec"
    "total_from t dm vs = Some u"
  shows "dval t \<le> dval u"
  using assms
proof (induction vs arbitrary: t)
  case (Cons v vs)
  show ?case
  proof (cases "declares v dm")
    case True
    then obtain m where m: "magnitude v dm = Some m" "total_from (dadd t m) dm vs = Some u"
      using Cons.prems(3) by (auto split: option.splits)
    have "0 \<le> dval m" using Cons.prems(1)[of v] m by (simp add: mag_val_def)
    then have "dval t \<le> dval (dadd t m)" using Cons.prems(2) by (rule dadd_ge)
    also have "\<dots> \<le> dval u"
      using Cons.IH[OF _ dadd_coeff m(2)] Cons.prems(1) by simp
    finally show ?thesis .
  qed (use Cons in simp)
qed simp

lemma total_from_member:
  assumes "\<And>v. v \<in> set vs \<Longrightarrow> 0 \<le> mag_val v dm" "0 \<le> dval t" "total_from t dm vs = Some u"
    "v \<in> set vs" "vector_ok v" "magnitude v dm = Some m"
  shows "dval m \<le> dval u"
  using assms
proof (induction vs arbitrary: t)
  case (Cons w vs)
  have nonneg: "v \<in> set vs \<Longrightarrow> 0 \<le> mag_val v dm" for v using Cons.prems(1) by simp
  show ?case
  proof (cases "v = w")
    case True
    have "\<bar>dcoeff m\<bar> < 10 ^ dec_prec" using magnitude_ok[OF Cons.prems(5,6)] by (simp add: dcanon_def)
    then have "dval m \<le> dval (dadd t m)" using Cons.prems(2) by (simp add: dadd_comm[of t] dadd_ge)
    also have "\<dots> \<le> dval u"
      using Cons.prems(3,6) True magnitude_declared[OF Cons.prems(6)]
      by (intro total_from_ge[OF nonneg dadd_coeff]) auto
    finally show ?thesis .
  next
    case False
    then have v: "v \<in> set vs" using Cons.prems(4) by simp
    show ?thesis
    proof (cases "declares w dm")
      case True
      then obtain l where l: "magnitude w dm = Some l" "total_from (dadd t l) dm vs = Some u"
        using Cons.prems(3) by (auto split: option.splits)
      have "0 \<le> dval l" using Cons.prems(1)[of w] l by (simp add: mag_val_def)
      then have "0 \<le> dval (dadd t l)" using Cons.prems(2) by (simp add: dadd_nonneg)
      from Cons.IH[OF nonneg this l(2) v Cons.prems(5,6)] show ?thesis by simp
    qed (use Cons nonneg v in simp)
  qed
qed simp

lemma aggregate_usage_dominates:
  assumes "\<And>v. v \<in> set vs \<Longrightarrow> 0 \<le> mag_val v dm" "v \<in> set vs" "vector_ok v"
    "magnitude v dm = Some m" "magnitude (aggregate_usage vs) dm = Some u"
  shows "dval m \<le> dval u"
proof -
  from assms(5) obtain w where w: "total_from dzero dm vs = Some w" "u = normalize_decimal w"
    by (auto simp: magnitude_aggregate_usage split: if_splits)
  with assms have "dval m \<le> dval w"
    by (intro total_from_member[of vs dm dzero w v m]) auto
  with w show ?thesis by (simp add: dval_normalize_total)
qed

section \<open>Effective limits\<close>

lemma magnitude_effective_limit:
  "magnitude (effective_limit hard runtime) dm =
    (case (magnitude hard dm, magnitude runtime dm) of
      (Some h, Some r) \<Rightarrow> Some (normalize_decimal (dmin h r))
    | _ \<Rightarrow> None)"
proof -
  have "dm \<notin> set (first_seen (dimension_ids hard @ dimension_ids runtime)) \<Longrightarrow>
      magnitude hard dm = None"
    by (simp add: magnitude_undeclared)
  then show ?thesis
    by (auto simp: effective_limit_def magnitude_map_component split: option.splits)
qed

lemma effective_limit_value:
  assumes "vector_ok hard" "vector_ok runtime"
    "magnitude hard dm = Some h" "magnitude runtime dm = Some r"
  shows "\<exists>m. magnitude (effective_limit hard runtime) dm = Some m \<and>
    dval m = min (dval h) (dval r)"
proof -
  have "dcanon (dmin h r)" using assms magnitude_ok by (auto simp: dmin_def)
  then show ?thesis using assms by (simp add: magnitude_effective_limit normalize_decimal_canon dval_dmin)
qed

end
