(* ===== verification/Ordering.thy ===== *)
theory Ordering
  imports Tos_Prelude
begin

text \<open>
  The two pairwise classifiers of the kernel: \<^verbatim>\<open>classify_record_pair\<close> of
  \<^verbatim>\<open>tos/src/tos/canonical/record_pair.py\<close>, which decides whether two ledger records are a
  duplicate or a conflict, and \<^verbatim>\<open>compare_order\<close> of \<^verbatim>\<open>tos/src/tos/ordering/_ordering.py\<close>, the
  causal order of two events.  The lemmas show the symmetry of the first, and of the second the
  exact condition under which swapping the arguments swaps the answer.
\<close>

section \<open>Record pairs\<close>

datatype record_pair_kind =
  IDEMPOTENT_DUP | CRITICAL_CONFLICT | DIVERGENT_EMISSION | DISTINCT | NOT_COMPARABLE

definition classify_record_pair ::
  "pystr option \<Rightarrow> pystr option \<Rightarrow> pystr option \<Rightarrow> pystr option \<Rightarrow>
    pystr option \<Rightarrow> pystr option \<Rightarrow> record_pair_kind" where
  "classify_record_pair a_identity a_digest b_identity b_digest a_idem b_idem =
    (if a_digest = None \<or> b_digest = None then NOT_COMPARABLE
     else let same_bytes = (a_digest = b_digest);
              same_identity = (a_identity \<noteq> None \<and> a_identity = b_identity);
              same_idem = (a_idem \<noteq> None \<and> a_idem = b_idem)
          in if same_identity then (if same_bytes then IDEMPOTENT_DUP else CRITICAL_CONFLICT)
             else if same_idem then (if same_bytes then IDEMPOTENT_DUP else DIVERGENT_EMISSION)
             else DISTINCT)"

lemma classify_record_pair_sym:
  "classify_record_pair a d b e i j = classify_record_pair b e a d j i"
  by (auto simp: classify_record_pair_def Let_def)

lemma classify_same_identity:
  "classify_record_pair (Some a) (Some d) (Some a) (Some e) i j =
    (if d = e then IDEMPOTENT_DUP else CRITICAL_CONFLICT)"
  by (simp add: classify_record_pair_def)

section \<open>Causal order\<close>

datatype ordering = BEFORE | AFTER | AMBIGUOUS

record ordering_event =
  oe_event_id :: "pystr option"
  oe_quorum_commit_index :: "int option"
  oe_egress_journal_sequence :: "int option"
  oe_source_continuity_id :: "pystr option"
  oe_source_native_sequence :: "int option"
  oe_local_monotonic_value :: "int option"
  oe_causal_predecessor_ids :: "pystr list"
  oe_time_lo :: "int option"
  oe_time_hi :: "int option"

definition cmp :: "int \<Rightarrow> int \<Rightarrow> ordering option" where
  "cmp a b = (if a < b then Some BEFORE else if b < a then Some AFTER else None)"

text \<open>One rung of the ladder: both coordinates present and strictly different.\<close>

definition cmp_opt :: "int option \<Rightarrow> int option \<Rightarrow> ordering option" where
  "cmp_opt a b = (case (a, b) of (Some x, Some y) \<Rightarrow> cmp x y | _ \<Rightarrow> None)"

definition same_continuity :: "ordering_event \<Rightarrow> ordering_event \<Rightarrow> bool" where
  "same_continuity a b =
    (oe_source_continuity_id a \<noteq> None \<and> oe_source_continuity_id a = oe_source_continuity_id b)"

definition names_predecessor :: "ordering_event \<Rightarrow> ordering_event \<Rightarrow> bool" where
  "names_predecessor a b =
    (case oe_event_id b of None \<Rightarrow> False | Some i \<Rightarrow> i \<in> set (oe_causal_predecessor_ids a))"

definition interval_order :: "ordering_event \<Rightarrow> ordering_event \<Rightarrow> ordering" where
  "interval_order a b =
    (case (oe_time_lo a, oe_time_hi a, oe_time_lo b, oe_time_hi b) of
      (Some alo, Some ahi, Some blo, Some bhi) \<Rightarrow>
        (if ahi < blo then BEFORE else if bhi < alo then AFTER else AMBIGUOUS)
    | _ \<Rightarrow> AMBIGUOUS)"

definition compare_order :: "ordering_event \<Rightarrow> ordering_event \<Rightarrow> ordering" where
  "compare_order a b =
    (case cmp_opt (oe_quorum_commit_index a) (oe_quorum_commit_index b) of
      Some r \<Rightarrow> r
    | None \<Rightarrow>
    (case cmp_opt (oe_egress_journal_sequence a) (oe_egress_journal_sequence b) of
      Some r \<Rightarrow> r
    | None \<Rightarrow>
    (case (if same_continuity a b
           then cmp_opt (oe_source_native_sequence a) (oe_source_native_sequence b)
           else None) of
      Some r \<Rightarrow> r
    | None \<Rightarrow>
    (case (if same_continuity a b
           then cmp_opt (oe_local_monotonic_value a) (oe_local_monotonic_value b)
           else None) of
      Some r \<Rightarrow> r
    | None \<Rightarrow>
      (if names_predecessor a b then AFTER
       else if names_predecessor b a then BEFORE
       else interval_order a b)))))"

section \<open>Swapping the arguments\<close>

definition reverse_order :: "ordering \<Rightarrow> ordering" where
  "reverse_order r = (case r of BEFORE \<Rightarrow> AFTER | AFTER \<Rightarrow> BEFORE | AMBIGUOUS \<Rightarrow> AMBIGUOUS)"

text \<open>An event whose interval is empty (upper end below lower end) is malformed.\<close>

definition interval_ok :: "ordering_event \<Rightarrow> bool" where
  "interval_ok a =
    (case (oe_time_lo a, oe_time_hi a) of (Some lo, Some hi) \<Rightarrow> lo \<le> hi | _ \<Rightarrow> True)"

lemma cmp_opt_swap: "cmp_opt b a = map_option reverse_order (cmp_opt a b)"
  by (auto simp: cmp_opt_def cmp_def reverse_order_def split: option.splits)

lemma same_continuity_sym: "same_continuity b a = same_continuity a b"
  unfolding same_continuity_def by metis

lemma interval_order_swap:
  "interval_ok a \<Longrightarrow> interval_ok b \<Longrightarrow> interval_order b a = reverse_order (interval_order a b)"
  by (auto simp: interval_order_def interval_ok_def reverse_order_def split: option.splits)

text \<open>The four numeric rungs decide the pair.\<close>

definition ladder :: "ordering_event \<Rightarrow> ordering_event \<Rightarrow> ordering option" where
  "ladder a b =
    (case cmp_opt (oe_quorum_commit_index a) (oe_quorum_commit_index b) of
      Some r \<Rightarrow> Some r
    | None \<Rightarrow>
    (case cmp_opt (oe_egress_journal_sequence a) (oe_egress_journal_sequence b) of
      Some r \<Rightarrow> Some r
    | None \<Rightarrow>
      (if same_continuity a b
       then case cmp_opt (oe_source_native_sequence a) (oe_source_native_sequence b) of
              Some r \<Rightarrow> Some r
            | None \<Rightarrow> cmp_opt (oe_local_monotonic_value a) (oe_local_monotonic_value b)
       else None)))"

lemma compare_order_ladder:
  "compare_order a b =
    (case ladder a b of
      Some r \<Rightarrow> r
    | None \<Rightarrow> if names_predecessor a b then AFTER
              else if names_predecessor b a then BEFORE else interval_order a b)"
  by (simp add: compare_order_def ladder_def split: option.split)

lemma ladder_swap: "ladder b a = map_option reverse_order (ladder a b)"
  by (simp add: ladder_def same_continuity_sym[of b a]
      cmp_opt_swap[of "oe_quorum_commit_index b"] cmp_opt_swap[of "oe_egress_journal_sequence b"]
      cmp_opt_swap[of "oe_source_native_sequence b"] cmp_opt_swap[of "oe_local_monotonic_value b"]
      split: option.split)

text \<open>
  Swapping the two events swaps the answer, except that two events which name each other as
  causal predecessor (and which no numeric rung separates) are each reported as after the other.
\<close>

theorem compare_order_swap:
  assumes "interval_ok a" "interval_ok b"
  shows "compare_order b a =
    (if ladder a b = None \<and> names_predecessor a b \<and> names_predecessor b a
     then compare_order a b else reverse_order (compare_order a b))"
  using interval_order_swap[OF assms]
  by (auto simp: compare_order_ladder ladder_swap[of b a] reverse_order_def split: option.splits)

definition cyclic_a :: ordering_event where
  "cyclic_a =
    \<lparr>oe_event_id = Some ''a'', oe_quorum_commit_index = None,
     oe_egress_journal_sequence = None, oe_source_continuity_id = Some ''c'',
     oe_source_native_sequence = None, oe_local_monotonic_value = Some 3,
     oe_causal_predecessor_ids = [''b''], oe_time_lo = Some 1, oe_time_hi = Some 2\<rparr>"

definition cyclic_b :: ordering_event where
  "cyclic_b = cyclic_a\<lparr>oe_event_id := Some ''b'', oe_causal_predecessor_ids := [''a'']\<rparr>"

theorem compare_order_swap_witness:
  "interval_ok cyclic_a \<and> interval_ok cyclic_b \<and>
   compare_order cyclic_a cyclic_b = AFTER \<and> compare_order cyclic_b cyclic_a = AFTER"
proof -
  note eval = cyclic_a_def cyclic_b_def interval_ok_def ladder_def cmp_opt_def cmp_def
    same_continuity_def names_predecessor_def compare_order_ladder
  have ok: "interval_ok cyclic_a" "interval_ok cyclic_b" by (simp_all add: eval)
  have "compare_order cyclic_a cyclic_b = AFTER" by (simp add: eval)
  moreover have "ladder cyclic_a cyclic_b = None" "names_predecessor cyclic_a cyclic_b"
    "names_predecessor cyclic_b cyclic_a" by (simp_all add: eval)
  ultimately show ?thesis using ok compare_order_swap[OF ok] by simp
qed

end
