(* ===== verification/Rcl_Ledger.thy ===== *)
theory Rcl_Ledger
  imports Rcl_Vector Ordering
begin

text \<open>
  The capacity ledger and its deterministic reducer: \<^verbatim>\<open>tos/src/tos/rcl/vocabulary.py\<close>, the
  reducer state of \<^verbatim>\<open>tos/src/tos/rcl/state.py\<close>, the command record of
  \<^verbatim>\<open>tos/src/tos/rcl/records.py\<close> and section 5 of \<^verbatim>\<open>tos/src/tos/rcl/predicates.py\<close>.

  \<open>apply_committed\<close> folds one committed command onto the ledger; \<open>fold_commands\<close> folds a sequence.
  The lemmas give its behaviour branch by branch, an invariant of every reachable ledger, and the
  promises that rest on it: the aggregate envelope is never overspent, a command has one stable
  result, one revision has one winner.
\<close>

section \<open>Vocabulary\<close>

datatype capacity_state =
  COMMITTED_UNBOUND | ATTEMPT_BOUND | POTENTIALLY_LIVE | PARTIALLY_CONSUMED | POSITION_CONSUMED
| RELEASE_PENDING_PROOF | QUARANTINED_UNKNOWN | TRAPPED_CONSUMED | RELEASED

fun capacity_state_value :: "capacity_state \<Rightarrow> pystr" where
  "capacity_state_value COMMITTED_UNBOUND = ''COMMITTED_UNBOUND''"
| "capacity_state_value ATTEMPT_BOUND = ''ATTEMPT_BOUND''"
| "capacity_state_value POTENTIALLY_LIVE = ''POTENTIALLY_LIVE''"
| "capacity_state_value PARTIALLY_CONSUMED = ''PARTIALLY_CONSUMED''"
| "capacity_state_value POSITION_CONSUMED = ''POSITION_CONSUMED''"
| "capacity_state_value RELEASE_PENDING_PROOF = ''RELEASE_PENDING_PROOF''"
| "capacity_state_value QUARANTINED_UNKNOWN = ''QUARANTINED_UNKNOWN''"
| "capacity_state_value TRAPPED_CONSUMED = ''TRAPPED_CONSUMED''"
| "capacity_state_value RELEASED = ''RELEASED''"

datatype command_type =
  ACTIVATE_WRITER_EPOCH | COMMIT_RESERVATION | RESIZE_RESERVATION | BIND_ATTEMPT
| AUTHORIZE_TRANSMISSION_CAPABILITY | INVALIDATE_CAPABILITIES
| CLAIM_CAPABILITY_AND_MARK_SEND_STARTED | RECORD_FILL_AND_TRANSFER_USAGE | QUARANTINE_UNKNOWN
| APPLY_FINAL_QUANTITY_PROOF | RELEASE_RESERVATION | COMMIT_PROTECTIVE_POOL
| ISSUE_PROTECTIVE_LEASE | RECONCILE_PROTECTIVE_LEASE | ADVANCE_RESTORE_GENERATION
| CHANGE_MEMBERSHIP | CONSUME_TRANSMISSION_CAPABILITY | MARK_SEND_STARTED
| RECORD_BROKER_ACKNOWLEDGEMENT | RECORD_BROKER_REJECTION | RECORD_FILL | REQUEST_CANCEL
| RECORD_FINAL_QUANTITY_PROOF | TRANSFER_ORDER_TO_POSITION_USAGE | CREATE_EXTERNAL_QUARANTINE
| MARK_TRAPPED_EXPOSURE | CONSUME_PROTECTIVE_LEASE | ADVANCE_AUTHORITY_EPOCH
| CONSUME_APPROVAL_DECISION | ISSUE_ACTION_FLOW_PERMIT | ISSUE_EGRESS_CURRENTNESS_PROOF

datatype apply_reason =
  ADMITTED | IDEMPOTENT_REPLAY | REJECTED_UNIDENTIFIED | REJECTED_CRITICAL_CONFLICT
| REJECTED_STALE_REVISION | REJECTED_LIMIT_EXCEEDED | REJECTED_UNKNOWN_DIMENSION
| REJECTED_TERMINAL

section \<open>State\<close>

record fence_coordinates =
  fc_expected_writer_epoch :: "int option"
  fc_membership_generation :: "int option"
  fc_restore_generation :: "int option"
  fc_expected_revision :: "int option"

definition empty_fence :: fence_coordinates where
  "empty_fence =
    \<lparr>fc_expected_writer_epoch = None, fc_membership_generation = None,
     fc_restore_generation = None, fc_expected_revision = None\<rparr>"

record ledger_command =
  lc_command_identity :: "pystr option"
  lc_canonical_digest :: "pystr option"
  lc_command_type :: "command_type option"
  lc_canonical_schema_version :: "pystr option"
  lc_capacity_domain :: "pystr option"
  lc_cluster_identity :: "pystr option"
  lc_fence :: fence_coordinates
  lc_actor_identity :: "pystr option"
  lc_permitted_command_role :: "pystr option"
  lc_causation_identity :: "pystr option"
  lc_intent_identity :: "pystr option"
  lc_attempt_identity :: "pystr option"
  lc_reservation_identity :: "pystr option"
  lc_evidence_identity :: "pystr option"
  lc_profile_identity :: "pystr option"
  lc_requested_transition :: "pystr option"
  lc_trustworthy_time_snapshot_id :: "pystr option"
  lc_proposed_reservation_id :: "pystr option"
  lc_proposed_adverse_increment :: capacity_vector
  lc_proposed_capacity_state :: capacity_state
  lc_producer_local_counter :: "int option"
  lc_scheduler_priority :: "int option"

text \<open>A command with the field defaults of the class.\<close>

definition default_command :: ledger_command where
  "default_command =
    \<lparr>lc_command_identity = None, lc_canonical_digest = None, lc_command_type = None,
     lc_canonical_schema_version = None, lc_capacity_domain = None, lc_cluster_identity = None,
     lc_fence = empty_fence, lc_actor_identity = None, lc_permitted_command_role = None,
     lc_causation_identity = None, lc_intent_identity = None, lc_attempt_identity = None,
     lc_reservation_identity = None, lc_evidence_identity = None, lc_profile_identity = None,
     lc_requested_transition = None, lc_trustworthy_time_snapshot_id = None,
     lc_proposed_reservation_id = None, lc_proposed_adverse_increment = CapacityVector [],
     lc_proposed_capacity_state = COMMITTED_UNBOUND, lc_producer_local_counter = None,
     lc_scheduler_priority = None\<rparr>"

record committed_reservation =
  cr_reservation_id :: "pystr option"
  cr_current_reservation_revision :: "int option"
  cr_canonical_record_digest :: "pystr option"
  cr_adverse_increment :: capacity_vector
  cr_capacity_state :: capacity_state
  cr_attempt_bound :: bool
  cr_attempt_unused :: bool

record applied_command =
  ac_command_identity :: "pystr option"
  ac_canonical_command_digest :: "pystr option"
  ac_admitted :: bool
  ac_resulting_revision :: "int option"

record ledger_state =
  ls_revision :: int
  ls_committed :: "committed_reservation list"
  ls_applied_commands :: "applied_command list"

definition empty_ledger :: ledger_state where
  "empty_ledger = \<lparr>ls_revision = 0, ls_committed = [], ls_applied_commands = []\<rparr>"

record apply_outcome =
  ao_state :: ledger_state
  ao_admitted :: bool
  ao_reason :: apply_reason

section \<open>Limits, benefits, usage\<close>

definition within_limits :: "capacity_vector \<Rightarrow> capacity_vector \<Rightarrow> pystr list \<Rightarrow> bool" where
  "within_limits effect limits dims =
    (dims \<noteq> [] \<and>
     list_all
      (\<lambda>dm. case (magnitude effect dm, magnitude limits dm) of
              (Some e, Some l) \<Rightarrow> \<not> dlt l e
            | _ \<Rightarrow> False) dims)"

definition apply_benefit ::
  "capacity_vector \<Rightarrow> benefit_claim \<Rightarrow> benefit_proof option \<Rightarrow> capacity_vector" where
  "apply_benefit base claim prf =
    (case prf of
      None \<Rightarrow> base
    | Some p \<Rightarrow>
      if \<not> is_positive p then base
      else CapacityVector
        (map (\<lambda>c.
          let reduction =
                (case cc_dimension_id c of
                  None \<Rightarrow> None | Some dm \<Rightarrow> magnitude (bc_reduction claim) dm);
              new_magnitude =
                (case (cc_magnitude c, reduction) of
                  (Some b, Some r) \<Rightarrow>
                    (let n = dsub b r in Some (if dlt n dzero then dzero else n))
                | _ \<Rightarrow> cc_magnitude c)
          in make_component (cc_dimension_id c) new_magnitude (cc_unit c) (cc_scale c)
               (cc_descriptor c))
          (components base)))"

definition live_increments :: "ledger_state \<Rightarrow> capacity_vector list" where
  "live_increments st =
    map cr_adverse_increment
      (filter (\<lambda>r. cr_capacity_state r \<noteq> RELEASED) (ls_committed st))"

definition committed_usage :: "ledger_state \<Rightarrow> capacity_vector" where
  "committed_usage st = aggregate_usage (live_increments st)"

fun headroom_components ::
  "capacity_vector \<Rightarrow> capacity_vector \<Rightarrow> pystr list \<Rightarrow> capacity_component list option" where
  "headroom_components usage limits [] = Some []"
| "headroom_components usage limits (dm # dms) =
    (case magnitude limits dm of
      None \<Rightarrow> None
    | Some l \<Rightarrow>
      (case (if declares usage dm then magnitude usage dm else Some dzero) of
        None \<Rightarrow> None
      | Some used \<Rightarrow>
        map_option (\<lambda>cs. component dm (Some (dsub l used)) # cs)
          (headroom_components usage limits dms)))"

definition available_headroom ::
  "ledger_state \<Rightarrow> capacity_vector \<Rightarrow> pystr list \<Rightarrow> capacity_vector option" where
  "available_headroom st limits dims =
    (if dims = [] then None
     else map_option CapacityVector (headroom_components (committed_usage st) limits dims))"

section \<open>The reducer\<close>

definition reject :: "ledger_state \<Rightarrow> ledger_command \<Rightarrow> apply_reason \<Rightarrow> apply_outcome" where
  "reject st c reason =
    \<lparr>ao_state =
       \<lparr>ls_revision = ls_revision st, ls_committed = ls_committed st,
        ls_applied_commands = ls_applied_commands st @
          [\<lparr>ac_command_identity = lc_command_identity c,
            ac_canonical_command_digest = lc_canonical_digest c,
            ac_admitted = False, ac_resulting_revision = Some (ls_revision st)\<rparr>]\<rparr>,
     ao_admitted = False, ao_reason = reason\<rparr>"

definition admitted_record :: "ledger_command \<Rightarrow> int \<Rightarrow> applied_command" where
  "admitted_record c revn =
    \<lparr>ac_command_identity = lc_command_identity c,
     ac_canonical_command_digest = lc_canonical_digest c,
     ac_admitted = True, ac_resulting_revision = Some revn\<rparr>"

definition new_reservation :: "ledger_command \<Rightarrow> int \<Rightarrow> committed_reservation" where
  "new_reservation c revn =
    \<lparr>cr_reservation_id = lc_proposed_reservation_id c,
     cr_current_reservation_revision = Some revn,
     cr_canonical_record_digest = lc_canonical_digest c,
     cr_adverse_increment = lc_proposed_adverse_increment c,
     cr_capacity_state = lc_proposed_capacity_state c,
     cr_attempt_bound = False, cr_attempt_unused = True\<rparr>"

definition apply_commit_reservation ::
  "ledger_state \<Rightarrow> ledger_command \<Rightarrow> capacity_vector \<Rightarrow> pystr list \<Rightarrow> apply_outcome" where
  "apply_commit_reservation st c limits dims =
    (let prospective = aggregate_usage (live_increments st @ [lc_proposed_adverse_increment c])
     in if \<not> within_limits prospective limits dims then reject st c REJECTED_LIMIT_EXCEEDED
        else let revn = ls_revision st + 1
             in \<lparr>ao_state =
                   \<lparr>ls_revision = revn,
                    ls_committed = ls_committed st @ [new_reservation c revn],
                    ls_applied_commands = ls_applied_commands st @ [admitted_record c revn]\<rparr>,
                 ao_admitted = True, ao_reason = ADMITTED\<rparr>)"

definition apply_committed ::
  "ledger_state \<Rightarrow> ledger_command \<Rightarrow> capacity_vector \<Rightarrow> pystr list \<Rightarrow> apply_outcome" where
  "apply_committed st c limits dims =
    (if lc_command_identity c = None \<or> lc_canonical_digest c = None then
       \<lparr>ao_state = st, ao_admitted = False, ao_reason = REJECTED_UNIDENTIFIED\<rparr>
     else case find (\<lambda>p. ac_command_identity p = lc_command_identity c) (ls_applied_commands st) of
       Some prior \<Rightarrow>
         if classify_record_pair (lc_command_identity c) (lc_canonical_digest c)
              (ac_command_identity prior) (ac_canonical_command_digest prior) None None
              = IDEMPOTENT_DUP
         then \<lparr>ao_state = st, ao_admitted = ac_admitted prior, ao_reason = IDEMPOTENT_REPLAY\<rparr>
         else \<lparr>ao_state = st, ao_admitted = False, ao_reason = REJECTED_CRITICAL_CONFLICT\<rparr>
     | None \<Rightarrow>
         if fc_expected_revision (lc_fence c) \<noteq> Some (ls_revision st) then
           reject st c REJECTED_STALE_REVISION
         else if lc_command_type c = Some COMMIT_RESERVATION then
           apply_commit_reservation st c limits dims
         else let revn = ls_revision st + 1
              in \<lparr>ao_state =
                    \<lparr>ls_revision = revn, ls_committed = ls_committed st,
                     ls_applied_commands = ls_applied_commands st @ [admitted_record c revn]\<rparr>,
                  ao_admitted = True, ao_reason = ADMITTED\<rparr>)"

definition fold_commands ::
  "ledger_state \<Rightarrow> ledger_command list \<Rightarrow> capacity_vector \<Rightarrow> pystr list \<Rightarrow> ledger_state" where
  "fold_commands st cs limits dims =
    foldl (\<lambda>s c. ao_state (apply_committed s c limits dims)) st cs"

lemmas reducer_eval [rcl_defs] =
  empty_fence_def default_command_def empty_ledger_def within_limits_def apply_benefit_def
  live_increments_def committed_usage_def available_headroom_def reject_def admitted_record_def
  new_reservation_def apply_commit_reservation_def apply_committed_def fold_commands_def
  classify_record_pair_def

section \<open>Reading the limits check\<close>

lemma within_limits_iff:
  "within_limits effect limits dims \<longleftrightarrow>
    dims \<noteq> [] \<and> (\<forall>dm \<in> set dims. \<exists>e l. magnitude effect dm = Some e \<and>
      magnitude limits dm = Some l \<and> dval e \<le> dval l)"
  by (fastforce simp: within_limits_def list_all_iff dlt_iff not_less split: option.splits)

section \<open>The branches of the reducer\<close>

definition identified :: "ledger_command \<Rightarrow> bool" where
  "identified c = (lc_command_identity c \<noteq> None \<and> lc_canonical_digest c \<noteq> None)"

definition seen :: "ledger_state \<Rightarrow> ledger_command \<Rightarrow> bool" where
  "seen st c = (lc_command_identity c \<in> ac_command_identity ` set (ls_applied_commands st))"

lemma find_seen:
  "find (\<lambda>p. ac_command_identity p = i) ps = None \<longleftrightarrow> i \<notin> ac_command_identity ` set ps"
  by (auto simp: find_None_iff)

lemma apply_committed_cases [case_names unchanged rejected reserved advanced]:
  obtains
    (unchanged) "ao_state (apply_committed st c limits dims) = st"
      "ao_reason (apply_committed st c limits dims) \<noteq> ADMITTED"
      "\<not> identified c \<or> seen st c"
  | (rejected) r where "apply_committed st c limits dims = reject st c r"
      "r \<in> {REJECTED_STALE_REVISION, REJECTED_LIMIT_EXCEEDED}"
      "identified c" "\<not> seen st c"
  | (reserved) "apply_committed st c limits dims =
        \<lparr>ao_state =
           \<lparr>ls_revision = ls_revision st + 1,
            ls_committed = ls_committed st @ [new_reservation c (ls_revision st + 1)],
            ls_applied_commands =
              ls_applied_commands st @ [admitted_record c (ls_revision st + 1)]\<rparr>,
         ao_admitted = True, ao_reason = ADMITTED\<rparr>"
      "identified c" "\<not> seen st c" "fc_expected_revision (lc_fence c) = Some (ls_revision st)"
      "lc_command_type c = Some COMMIT_RESERVATION"
      "within_limits (aggregate_usage (live_increments st @ [lc_proposed_adverse_increment c]))
        limits dims"
  | (advanced) "apply_committed st c limits dims =
        \<lparr>ao_state =
           \<lparr>ls_revision = ls_revision st + 1, ls_committed = ls_committed st,
            ls_applied_commands =
              ls_applied_commands st @ [admitted_record c (ls_revision st + 1)]\<rparr>,
         ao_admitted = True, ao_reason = ADMITTED\<rparr>"
      "identified c" "\<not> seen st c" "fc_expected_revision (lc_fence c) = Some (ls_revision st)"
      "lc_command_type c \<noteq> Some COMMIT_RESERVATION"
proof (cases "identified c \<and> \<not> seen st c")
  case False
  then show thesis
    by (intro unchanged)
      (auto simp: apply_committed_def identified_def seen_def find_seen[symmetric] split: option.splits)
next
  case True
  then have id: "identified c" "\<not> seen st c"
    and none: "find (\<lambda>p. ac_command_identity p = lc_command_identity c) (ls_applied_commands st) = None"
    by (auto simp: find_seen seen_def)
  consider (stale) "fc_expected_revision (lc_fence c) \<noteq> Some (ls_revision st)"
    | (limit) "fc_expected_revision (lc_fence c) = Some (ls_revision st)"
        "lc_command_type c = Some COMMIT_RESERVATION"
        "\<not> within_limits (aggregate_usage (live_increments st @ [lc_proposed_adverse_increment c]))
          limits dims"
    | (commit) "fc_expected_revision (lc_fence c) = Some (ls_revision st)"
        "lc_command_type c = Some COMMIT_RESERVATION"
        "within_limits (aggregate_usage (live_increments st @ [lc_proposed_adverse_increment c]))
          limits dims"
    | (other) "fc_expected_revision (lc_fence c) = Some (ls_revision st)"
        "lc_command_type c \<noteq> Some COMMIT_RESERVATION"
    by blast
  then show thesis
  proof cases
    case stale
    then show thesis using id none
      by (intro rejected[of REJECTED_STALE_REVISION]) (auto simp: apply_committed_def identified_def)
  next
    case limit
    then show thesis using id none
      by (intro rejected[of REJECTED_LIMIT_EXCEEDED])
        (auto simp: apply_committed_def identified_def apply_commit_reservation_def Let_def)
  next
    case commit
    then show thesis using id none
      by (intro reserved)
        (auto simp: apply_committed_def identified_def apply_commit_reservation_def Let_def)
  next
    case other
    then show thesis using id none
      by (intro advanced) (auto simp: apply_committed_def identified_def Let_def)
  qed
qed


lemmas outcome_sel = reject_def admitted_record_def new_reservation_def

lemma fold_commands_Nil [simp]: "fold_commands st [] limits dims = st"
  by (simp add: fold_commands_def)

lemma fold_commands_Cons [simp]:
  "fold_commands st (c # cs) limits dims =
    fold_commands (ao_state (apply_committed st c limits dims)) cs limits dims"
  by (simp add: fold_commands_def)

lemma fold_commands_append:
  "fold_commands st (cs @ ds) limits dims =
    fold_commands (fold_commands st cs limits dims) ds limits dims"
  by (simp add: fold_commands_def)

section \<open>The invariant of a reachable ledger\<close>

definition admitted_count :: "ledger_state \<Rightarrow> nat" where
  "admitted_count st = length (filter ac_admitted (ls_applied_commands st))"

definition envelope_ok :: "capacity_vector \<Rightarrow> pystr list \<Rightarrow> ledger_state \<Rightarrow> bool" where
  "envelope_ok limits dims st =
    (live_increments st = [] \<or> within_limits (committed_usage st) limits dims)"

definition ids_ok :: "ledger_state \<Rightarrow> bool" where
  "ids_ok st =
    (distinct (map ac_command_identity (ls_applied_commands st)) \<and>
     (\<forall>a \<in> set (ls_applied_commands st).
        ac_command_identity a \<noteq> None \<and> ac_canonical_command_digest a \<noteq> None))"

definition revisions_ok :: "ledger_state \<Rightarrow> bool" where
  "revisions_ok st =
    (ls_revision st = int (admitted_count st) \<and>
     sorted_wrt (\<lambda>r s. the (cr_current_reservation_revision r) < the (cr_current_reservation_revision s))
       (ls_committed st) \<and>
     (\<forall>r \<in> set (ls_committed st). \<exists>n. cr_current_reservation_revision r = Some n \<and>
        0 < n \<and> n \<le> ls_revision st))"

definition ledger_inv :: "capacity_vector \<Rightarrow> pystr list \<Rightarrow> ledger_state \<Rightarrow> bool" where
  "ledger_inv limits dims st = (envelope_ok limits dims st \<and> ids_ok st \<and> revisions_ok st)"

lemma live_increments_append:
  "live_increments
     \<lparr>ls_revision = r, ls_committed = ls_committed st @ [new_reservation c n],
      ls_applied_commands = a\<rparr> =
    (if lc_proposed_capacity_state c = RELEASED then live_increments st
     else live_increments st @ [lc_proposed_adverse_increment c])"
  by (simp add: live_increments_def new_reservation_def)

lemma envelope_ok_apply:
  assumes "envelope_ok limits dims st"
  shows "envelope_ok limits dims (ao_state (apply_committed st c limits dims))"
proof (cases rule: apply_committed_cases[where st = st and c = c and limits = limits and dims = dims])
  case reserved
  then show ?thesis using assms
    by (simp add: envelope_ok_def committed_usage_def live_increments_append)
next
  case (rejected r)
  then show ?thesis using assms
    by (simp add: envelope_ok_def committed_usage_def live_increments_def reject_def)
next
  case advanced
  then show ?thesis using assms
    by (simp add: envelope_ok_def committed_usage_def live_increments_def)
qed (use assms in simp)

lemma ids_ok_apply:
  assumes "ids_ok st"
  shows "ids_ok (ao_state (apply_committed st c limits dims))"
  using assms
  by (cases rule: apply_committed_cases[where st = st and c = c and limits = limits and dims = dims])
    (auto simp: ids_ok_def outcome_sel identified_def seen_def)

lemma revisions_ok_apply:
  assumes "revisions_ok st"
  shows "revisions_ok (ao_state (apply_committed st c limits dims))"
proof (cases rule: apply_committed_cases[where st = st and c = c and limits = limits and dims = dims])
  case reserved
  then show ?thesis using assms
    by (fastforce simp: revisions_ok_def admitted_count_def outcome_sel sorted_wrt_append)
next
  case advanced
  then show ?thesis using assms
    by (fastforce simp: revisions_ok_def admitted_count_def outcome_sel)
next
  case (rejected r)
  then show ?thesis using assms
    by (auto simp: revisions_ok_def admitted_count_def reject_def)
qed (use assms in simp)

lemma ledger_inv_apply:
  "ledger_inv limits dims st \<Longrightarrow> ledger_inv limits dims (ao_state (apply_committed st c limits dims))"
  by (simp add: ledger_inv_def envelope_ok_apply ids_ok_apply revisions_ok_apply)

lemma ledger_inv_fold:
  "ledger_inv limits dims st \<Longrightarrow> ledger_inv limits dims (fold_commands st cs limits dims)"
  by (induction cs arbitrary: st) (simp_all add: ledger_inv_apply)

lemma ledger_inv_empty [simp]: "ledger_inv limits dims empty_ledger"
  by (simp add: ledger_inv_def envelope_ok_def ids_ok_def revisions_ok_def empty_ledger_def
      live_increments_def admitted_count_def)

lemma ledger_inv_reachable: "ledger_inv limits dims (fold_commands empty_ledger cs limits dims)"
  by (simp add: ledger_inv_fold)

section \<open>No double spend\<close>

lemma envelope_usage:
  assumes "envelope_ok limits dims st" "live_increments st \<noteq> []" "dm \<in> set dims"
  obtains u l where "magnitude (committed_usage st) dm = Some u" "magnitude limits dm = Some l"
    "dval u \<le> dval l"
  using assms by (auto simp: envelope_ok_def within_limits_iff)

text \<open>
  C9: in every ledger reached from the empty one, on every applicable dimension the aggregate
  usage of the reservations still held is known and at most the limit; no reservation held has an
  unknown magnitude there; when the digits fit the decimal context, the exact sum of the
  increments is at most the limit; and when no increment is negative, each single increment is,
  with no condition on the digits.
\<close>

theorem no_double_spend:
  assumes "st = fold_commands empty_ledger cs limits dims"
    "live_increments st \<noteq> []" "dm \<in> set dims"
  shows "\<exists>u l. magnitude (committed_usage st) dm = Some u \<and> magnitude limits dm = Some l \<and>
    dval u \<le> dval l \<and>
    (\<forall>v \<in> set (live_increments st). declares v dm \<longrightarrow> magnitude v dm \<noteq> None) \<and>
    (\<forall>k. usage_fits k dm (live_increments st) \<longrightarrow>
      (\<Sum>v\<leftarrow>live_increments st. mag_val v dm) \<le> dval l) \<and>
    ((\<forall>v \<in> set (live_increments st). vector_ok v \<and> 0 \<le> mag_val v dm) \<longrightarrow>
      (\<forall>v \<in> set (live_increments st). mag_val v dm \<le> dval l))"
proof -
  have "envelope_ok limits dims st"
    using ledger_inv_reachable assms(1) by (simp add: ledger_inv_def)
  then obtain u l where ul: "magnitude (committed_usage st) dm = Some u"
    "magnitude limits dm = Some l" "dval u \<le> dval l"
    using assms(2,3) by (rule envelope_usage)
  from ul(1) have "total_from dzero dm (live_increments st) \<noteq> None"
    by (auto simp: committed_usage_def magnitude_aggregate_usage split: if_splits)
  then have known: "\<forall>v \<in> set (live_increments st). declares v dm \<longrightarrow> magnitude v dm \<noteq> None"
    by (auto simp: total_from_None_iff)
  have exact: "usage_fits k dm (live_increments st) \<Longrightarrow>
      (\<Sum>v\<leftarrow>live_increments st. mag_val v dm) \<le> dval l" for k
    using aggregate_usage_exact[of k dm "live_increments st" u] ul
    by (simp add: committed_usage_def)
  have single: "mag_val v dm \<le> dval l"
    if "\<forall>v \<in> set (live_increments st). vector_ok v \<and> 0 \<le> mag_val v dm"
      "v \<in> set (live_increments st)" for v
  proof (cases "magnitude v dm")
    case None
    have "0 \<le> dval u"
      using ul(1) that(1) total_from_nonneg[of "live_increments st" dm dzero]
      by (auto simp: committed_usage_def magnitude_aggregate_usage dval_normalize_total split: if_splits)
    with None ul(3) show ?thesis by (simp add: mag_val_def)
  next
    case (Some m)
    then have "dval m \<le> dval u"
      using that ul(1) by (intro aggregate_usage_dominates[of "live_increments st" dm v m u])
        (auto simp: committed_usage_def)
    with Some ul(3) show ?thesis by (simp add: mag_val_def)
  qed
  show ?thesis using ul known exact single by blast
qed


text \<open>Concrete commands for the witnesses: one dimension, limit 10.\<close>

definition risk_vector :: "int \<Rightarrow> capacity_vector" where
  "risk_vector n = CapacityVector [component ''RISK'' (Some (Dec n 0))]"

definition commit_command :: "pystr \<Rightarrow> int \<Rightarrow> int \<Rightarrow> ledger_command" where
  "commit_command i expected n = default_command
    \<lparr>lc_command_identity := Some i, lc_canonical_digest := Some (''digest-'' @ i),
     lc_command_type := Some COMMIT_RESERVATION,
     lc_fence := empty_fence\<lparr>fc_expected_revision := Some expected\<rparr>,
     lc_proposed_reservation_id := Some (''res-'' @ i),
     lc_proposed_adverse_increment := risk_vector n\<rparr>"

lemmas witness_eval = risk_vector_def commit_command_def

lemma magnitude_risk_vector [simp]:
  "magnitude (risk_vector n) ''RISK'' = Some (normalize_decimal (Dec n 0))"
  by (simp add: risk_vector_def magnitude_def make_component_def)

theorem no_double_spend_witness:
  "let st = fold_commands empty_ledger [commit_command ''a'' 0 6, commit_command ''b'' 1 5]
        (risk_vector 10) [''RISK'']
   in ls_revision st = 1 \<and> length (ls_committed st) = 1 \<and>
      (\<exists>u. magnitude (committed_usage st) ''RISK'' = Some u \<and> dval u \<le> 10)"
proof -
  let ?st = "fold_commands empty_ledger [commit_command ''a'' 0 6, commit_command ''b'' 1 5]
        (risk_vector 10) [''RISK'']"
  have st: "ls_revision ?st = 1" "length (ls_committed ?st) = 1" "live_increments ?st \<noteq> []"
    by (simp_all add: rcl_defs dec_defs witness_eval)
  have "magnitude (risk_vector 10) ''RISK'' = Some (Dec 1 1)" by (simp add: dec_defs)
  with no_double_spend[OF refl st(3), of "''RISK''"] st(1,2) show ?thesis
    by (auto simp: dval_def Let_def)
qed

section \<open>One command, one result\<close>

lemma find_fold_commands:
  "find P (ls_applied_commands st) = Some a \<Longrightarrow>
    find P (ls_applied_commands (fold_commands st cs limits dims)) = Some a"
proof (induction cs arbitrary: st)
  case (Cons c cs)
  have "find P (ls_applied_commands (ao_state (apply_committed st c limits dims))) = Some a"
    using Cons.prems
    by (cases rule: apply_committed_cases[where st = st and c = c and limits = limits and dims = dims])
      (simp_all add: reject_def find_append)
  then show ?case by (simp add: Cons.IH)
qed simp

lemma apply_committed_records:
  assumes "identified c" "\<not> seen st c"
  shows "\<exists>n. find (\<lambda>p. ac_command_identity p = lc_command_identity c)
      (ls_applied_commands (ao_state (apply_committed st c limits dims))) =
    Some \<lparr>ac_command_identity = lc_command_identity c,
          ac_canonical_command_digest = lc_canonical_digest c,
          ac_admitted = ao_admitted (apply_committed st c limits dims),
          ac_resulting_revision = n\<rparr>"
proof -
  have none: "find (\<lambda>p. ac_command_identity p = lc_command_identity c) (ls_applied_commands st) = None"
    using assms(2) by (simp add: find_seen seen_def)
  show ?thesis using assms
    by (cases rule: apply_committed_cases[where st = st and c = c and limits = limits and dims = dims])
      (simp_all add: reject_def admitted_record_def find_append none)
qed

lemma apply_committed_seen:
  assumes "find (\<lambda>p. ac_command_identity p = lc_command_identity c) (ls_applied_commands st) =
    Some prior" "identified c"
  shows "apply_committed st c limits dims =
    (if ac_canonical_command_digest prior = lc_canonical_digest c
     then \<lparr>ao_state = st, ao_admitted = ac_admitted prior, ao_reason = IDEMPOTENT_REPLAY\<rparr>
     else \<lparr>ao_state = st, ao_admitted = False, ao_reason = REJECTED_CRITICAL_CONFLICT\<rparr>)"
proof -
  have "ac_command_identity prior = lc_command_identity c" using find_Some_D[OF assms(1)] by simp
  then show ?thesis using assms
    by (auto simp: apply_committed_def identified_def classify_record_pair_def Let_def)
qed

lemma folded_command_found:
  assumes "identified c" "\<not> seen st c"
    "later = fold_commands (ao_state (apply_committed st c limits dims)) cs limits dims"
  obtains prior where
    "find (\<lambda>p. ac_command_identity p = lc_command_identity c) (ls_applied_commands later) = Some prior"
    "ac_canonical_command_digest prior = lc_canonical_digest c"
    "ac_admitted prior = ao_admitted (apply_committed st c limits dims)"
  using apply_committed_records[OF assms(1,2), of limits dims] find_fold_commands assms(3) by force

text \<open>
  Once a command has been folded, whatever is folded after it, folding the same command again
  returns its first result and changes nothing, and a command of the same identity with other
  content is refused as a critical conflict and changes nothing.
\<close>

theorem command_has_one_result:
  assumes "identified c" "\<not> seen st c"
    "later = fold_commands (ao_state (apply_committed st c limits dims)) cs limits dims"
  shows "apply_committed later c limits' dims' =
      \<lparr>ao_state = later, ao_admitted = ao_admitted (apply_committed st c limits dims),
       ao_reason = IDEMPOTENT_REPLAY\<rparr> \<and>
    (\<forall>c'. lc_command_identity c' = lc_command_identity c \<and> lc_canonical_digest c' \<noteq> None \<and>
      lc_canonical_digest c' \<noteq> lc_canonical_digest c \<longrightarrow>
      apply_committed later c' limits' dims' =
        \<lparr>ao_state = later, ao_admitted = False, ao_reason = REJECTED_CRITICAL_CONFLICT\<rparr>)"
proof (intro conjI allI impI)
  from assms obtain prior where f:
    "find (\<lambda>p. ac_command_identity p = lc_command_identity c) (ls_applied_commands later) = Some prior"
    "ac_canonical_command_digest prior = lc_canonical_digest c"
    "ac_admitted prior = ao_admitted (apply_committed st c limits dims)"
    by (rule folded_command_found)
  then show "apply_committed later c limits' dims' =
      \<lparr>ao_state = later, ao_admitted = ao_admitted (apply_committed st c limits dims),
       ao_reason = IDEMPOTENT_REPLAY\<rparr>"
    using assms(1) by (simp add: apply_committed_seen)
next
  fix c' :: ledger_command
  assume c': "lc_command_identity c' = lc_command_identity c \<and> lc_canonical_digest c' \<noteq> None \<and>
    lc_canonical_digest c' \<noteq> lc_canonical_digest c"
  from assms obtain prior where
    "find (\<lambda>p. ac_command_identity p = lc_command_identity c) (ls_applied_commands later) = Some prior"
    "ac_canonical_command_digest prior = lc_canonical_digest c"
    by (rule folded_command_found)
  with c' assms(1) show "apply_committed later c' limits' dims' =
      \<lparr>ao_state = later, ao_admitted = False, ao_reason = REJECTED_CRITICAL_CONFLICT\<rparr>"
    by (auto simp: apply_committed_seen identified_def)
qed

theorem command_has_one_result_witness:
  "let st = ao_state (apply_committed empty_ledger (commit_command ''a'' 0 6) (risk_vector 10) [''RISK'']);
       later = fold_commands st [commit_command ''b'' 1 3] (risk_vector 10) [''RISK'']
   in apply_committed later (commit_command ''a'' 0 6) (risk_vector 10) [''RISK''] =
        \<lparr>ao_state = later, ao_admitted = True, ao_reason = IDEMPOTENT_REPLAY\<rparr>"
proof -
  have "identified (commit_command ''a'' 0 6)" "\<not> seen empty_ledger (commit_command ''a'' 0 6)"
    by (simp_all add: identified_def seen_def witness_eval empty_ledger_def)
  note result = command_has_one_result[OF this refl, of "risk_vector 10" "[''RISK'']"
      "[commit_command ''b'' 1 3]" "risk_vector 10" "[''RISK'']"]
  have "ao_admitted (apply_committed empty_ledger (commit_command ''a'' 0 6) (risk_vector 10) [''RISK''])"
    by (simp add: rcl_defs dec_defs witness_eval)
  with result show ?thesis by (simp only: Let_def)
qed

section \<open>One revision, one winner\<close>

lemma ls_revision_apply:
  "ls_revision (ao_state (apply_committed st c limits dims)) =
    ls_revision st + (if ao_reason (apply_committed st c limits dims) = ADMITTED then 1 else 0)"
  by (cases rule: apply_committed_cases[where st = st and c = c and limits = limits and dims = dims])
    (auto simp: reject_def)

lemma ls_revision_fold: "ls_revision st \<le> ls_revision (fold_commands st cs limits dims)"
proof (induction cs arbitrary: st)
  case (Cons c cs)
  have "ls_revision st \<le> ls_revision (ao_state (apply_committed st c limits dims))"
    by (simp add: ls_revision_apply)
  also have "\<dots> \<le> ls_revision (fold_commands st (c # cs) limits dims)" by (simp add: Cons.IH)
  finally show ?case .
qed simp

lemma admitted_expected:
  "ao_reason (apply_committed st c limits dims) = ADMITTED \<Longrightarrow>
    fc_expected_revision (lc_fence c) = Some (ls_revision st)"
  by (cases rule: apply_committed_cases[where st = st and c = c and limits = limits and dims = dims])
    (auto simp: reject_def)

lemma not_admitted_unchanged:
  "ao_reason (apply_committed st c limits dims) \<noteq> ADMITTED \<Longrightarrow>
    ls_committed (ao_state (apply_committed st c limits dims)) = ls_committed st \<and>
    ls_revision (ao_state (apply_committed st c limits dims)) = ls_revision st"
  by (cases rule: apply_committed_cases[where st = st and c = c and limits = limits and dims = dims])
    (auto simp: reject_def)

text \<open>
  Of all the commands that expect one revision, at most one is ever admitted: once one is,
  any later command expecting the same revision changes neither the committed reservations nor
  the revision, whatever was folded in between; and an admission advances the revision by one.
\<close>

theorem one_winner_per_revision:
  assumes "ao_reason (apply_committed st c limits dims) = ADMITTED"
    "fc_expected_revision (lc_fence c') = fc_expected_revision (lc_fence c)"
    "later = fold_commands (ao_state (apply_committed st c limits dims)) cs limits dims"
  shows "ls_revision (ao_state (apply_committed st c limits dims)) = ls_revision st + 1 \<and>
    ao_reason (apply_committed later c' limits' dims') \<noteq> ADMITTED \<and>
    ls_committed (ao_state (apply_committed later c' limits' dims')) = ls_committed later \<and>
    ls_revision (ao_state (apply_committed later c' limits' dims')) = ls_revision later"
proof -
  have r: "ls_revision (ao_state (apply_committed st c limits dims)) = ls_revision st + 1"
    using assms(1) by (simp add: ls_revision_apply)
  then have "ls_revision st < ls_revision later"
    using ls_revision_fold[of "ao_state (apply_committed st c limits dims)" cs limits dims]
    by (simp add: assms(3))
  moreover have "fc_expected_revision (lc_fence c') = Some (ls_revision st)"
    using admitted_expected[OF assms(1)] assms(2) by simp
  ultimately have "ao_reason (apply_committed later c' limits' dims') \<noteq> ADMITTED"
    using admitted_expected by fastforce
  with r not_admitted_unchanged show ?thesis by blast
qed

theorem one_winner_per_revision_witness:
  "ao_reason (apply_committed
      (ao_state (apply_committed empty_ledger (commit_command ''a'' 0 6) (risk_vector 10) [''RISK'']))
      (commit_command ''b'' 0 1) (risk_vector 10) [''RISK'']) \<noteq> ADMITTED"
proof -
  have "ao_reason (apply_committed empty_ledger (commit_command ''a'' 0 6) (risk_vector 10) [''RISK''])
      = ADMITTED"
    by (simp add: rcl_defs dec_defs witness_eval)
  from one_winner_per_revision[OF this, of "commit_command ''b'' 0 1" _ "[]"]
  show ?thesis by (simp add: commit_command_def)
qed

section \<open>Bookkeeping of a reachable ledger\<close>

text \<open>
  In every ledger reached from the empty one the revision is the number of admitted commands,
  every command identity occurs once, and the committed reservations carry strictly increasing
  revisions between 1 and the current one.
\<close>

theorem ledger_bookkeeping:
  "let st = fold_commands empty_ledger cs limits dims
   in ls_revision st = int (length (filter ac_admitted (ls_applied_commands st))) \<and>
      distinct (map ac_command_identity (ls_applied_commands st)) \<and>
      sorted_wrt (<) (map (the \<circ> cr_current_reservation_revision) (ls_committed st)) \<and>
      list_all (\<lambda>r. case cr_current_reservation_revision r of
          None \<Rightarrow> False | Some n \<Rightarrow> 1 \<le> n \<and> n \<le> ls_revision st) (ls_committed st)"
proof -
  have "ledger_inv limits dims (fold_commands empty_ledger cs limits dims)"
    by (rule ledger_inv_reachable)
  then show ?thesis
    by (fastforce simp: ledger_inv_def ids_ok_def revisions_ok_def admitted_count_def Let_def
        sorted_wrt_map list_all_iff)
qed

section \<open>What the envelope does not exclude\<close>

text \<open>
  The reducer puts no sign condition on an increment, and none on the identity of the
  reservation it commits.  With a limit of 10 already used up, a reservation with increment -5 is
  admitted, and then two more reservations under one reservation identity: the increments that
  are not negative add up to 15.
\<close>

theorem negative_increment_opens_headroom:
  "let cs = [commit_command ''a'' 0 10, commit_command ''b'' 1 (- 5),
             (commit_command ''c'' 2 2)\<lparr>lc_proposed_reservation_id := Some ''res-a''\<rparr>,
             (commit_command ''d'' 3 3)\<lparr>lc_proposed_reservation_id := Some ''res-a''\<rparr>];
       st = fold_commands empty_ledger cs (risk_vector 10) [''RISK'']
   in map cr_reservation_id (ls_committed st) =
        [Some ''res-a'', Some ''res-b'', Some ''res-a'', Some ''res-a''] \<and>
      map (\<lambda>v. mag_val v ''RISK'') (live_increments st) = [10, - 5, 2, 3]"
  by (simp add: rcl_defs dec_defs witness_eval mag_val_def dval_def)


section \<open>Benefits\<close>

text \<open>The magnitude a positively proven claim leaves of one dimension.\<close>

definition reduced_magnitude :: "benefit_claim \<Rightarrow> pystr \<Rightarrow> pydec \<Rightarrow> pydec" where
  "reduced_magnitude claim dm b =
    (case magnitude (bc_reduction claim) dm of
      None \<Rightarrow> b
    | Some r \<Rightarrow> if dlt (dsub b r) dzero then dzero else dsub b r)"

lemma magnitude_apply_benefit:
  assumes "is_positive p"
  shows "magnitude (apply_benefit base claim (Some p)) dm =
    map_option (\<lambda>b. normalize_decimal (reduced_magnitude claim dm b)) (magnitude base dm)"
proof -
  have "first_magnitude
      (map (\<lambda>c.
          let reduction =
                (case cc_dimension_id c of
                  None \<Rightarrow> None | Some dm \<Rightarrow> magnitude (bc_reduction claim) dm);
              new_magnitude =
                (case (cc_magnitude c, reduction) of
                  (Some b, Some r) \<Rightarrow>
                    (let n = dsub b r in Some (if dlt n dzero then dzero else n))
                | _ \<Rightarrow> cc_magnitude c)
          in make_component (cc_dimension_id c) new_magnitude (cc_unit c) (cc_scale c)
               (cc_descriptor c)) cs) dm =
    map_option (\<lambda>b. normalize_decimal (reduced_magnitude claim dm b)) (first_magnitude cs dm)" for cs
    by (induction cs)
      (auto simp: Let_def make_component_def reduced_magnitude_def split: option.splits)
  then show ?thesis using assms by (simp add: apply_benefit_def magnitude_def)
qed

lemma dsub_le: "0 \<le> dval r \<Longrightarrow> \<bar>dcoeff b\<bar> < 10 ^ dec_prec \<Longrightarrow> dval (dsub b r) \<le> dval b"
  using dval_exact_sum[of b "dneg r"] by (simp add: dsub_def dadd_def Let_def dround_le)

lemma dval_normalize_dsub [simp]: "dval (normalize_decimal (dsub a b)) = dval (dsub a b)"
  by (simp add: dsub_def dval_dround_dadd)

lemma dcanon_coeff: "dcanon d \<Longrightarrow> \<bar>dcoeff d\<bar> < 10 ^ dec_prec"
  by (simp add: dcanon_def)

lemma reduced_magnitude_bounds:
  assumes "dcanon b" "0 \<le> mag_val (bc_reduction claim) dm" "0 \<le> dval b"
  shows "0 \<le> dval (normalize_decimal (reduced_magnitude claim dm b))"
    "dval (normalize_decimal (reduced_magnitude claim dm b)) \<le> dval b"
  using assms dsub_le[of _ b]
  by (auto simp: reduced_magnitude_def mag_val_def dlt_iff normalize_decimal_canon
      dest: dcanon_coeff split: option.splits)

text \<open>
  A benefit claim without a positive proof (no proof, or one that proves only the profile or
  only the scope) changes nothing.  With a positive proof a dimension that was unknown stays
  unknown, a known one stays known, and if neither the magnitude nor the claimed reduction is
  negative the result lies between zero and the magnitude before.
\<close>

theorem benefit_needs_positive_proof:
  assumes "vector_ok base"
  shows "((case prf of None \<Rightarrow> True | Some p \<Rightarrow> \<not> (bp_broker_profile_proven p \<and> bp_scope_proven p))
      \<longrightarrow> apply_benefit base claim prf = base) \<and>
    (case (magnitude base dm, magnitude (apply_benefit base claim prf) dm) of
      (None, None) \<Rightarrow> True
    | (Some b, Some n) \<Rightarrow>
        0 \<le> dval b \<and> 0 \<le> mag_val (bc_reduction claim) dm \<longrightarrow> 0 \<le> dval n \<and> dval n \<le> dval b
    | _ \<Rightarrow> False)"
proof (cases "\<exists>p. prf = Some p \<and> is_positive p")
  case False
  then have "apply_benefit base claim prf = base"
    by (auto simp: apply_benefit_def split: option.splits)
  then show ?thesis by (simp split: option.splits)
next
  case True
  then obtain p where p: "prf = Some p" "is_positive p" by blast
  show ?thesis
  proof (cases "magnitude base dm")
    case None
    then show ?thesis using p by (simp add: magnitude_apply_benefit is_positive_def)
  next
    case (Some b)
    then have "dcanon b" using assms magnitude_ok by blast
    with Some p reduced_magnitude_bounds[of b claim dm] show ?thesis
      by (simp add: magnitude_apply_benefit is_positive_def)
  qed
qed

theorem benefit_needs_positive_proof_witness:
  "apply_benefit (risk_vector 7) \<lparr>bc_kind = Some ''HEDGE'', bc_reduction = risk_vector 5\<rparr>
     (Some \<lparr>bp_broker_profile_proven = True, bp_scope_proven = False, bp_proof_reference = None\<rparr>) =
   risk_vector 7"
proof -
  have ok: "vector_ok (risk_vector 7)"
    by (simp add: risk_vector_def vector_ok_def make_component_def)
  show ?thesis
    using benefit_needs_positive_proof[OF ok,
        of "Some \<lparr>bp_broker_profile_proven = True, bp_scope_proven = False, bp_proof_reference = None\<rparr>"
          "\<lparr>bc_kind = Some ''HEDGE'', bc_reduction = risk_vector 5\<rparr>" "''RISK''"]
    by simp
qed

section \<open>Headroom\<close>












end
