(* ===== verification/Rcl_Guards.thy ===== *)
theory Rcl_Guards
  imports Rcl_Ledger
begin

text \<open>
  The guards of the capacity ledger, sections 4 to 6 of \<^verbatim>\<open>tos/src/tos/rcl/predicates.py\<close>: the
  conservatism order of the capacity states and the transitions it allows, writer fencing, the
  binding of grants and transmission capabilities to a committed reservation, the single use of a
  nonce, the deny table under loss of quorum, the worst credible union of histories, and snapshot
  admissibility.  The records are those of \<^verbatim>\<open>rcl/state.py\<close>, \<^verbatim>\<open>rcl/records.py\<close> and
  \<^verbatim>\<open>rcl/authority.py\<close>.
\<close>

section \<open>The conservatism order\<close>

datatype transition_cause =
  STRONGLY_AUTHORIZED_COMMAND | BROKER_EVIDENCE_UNDER_PROFILE | RECONCILIATION_PROOF
| RECOGNIZED_EXTERNAL_CHANGE | CONTAINMENT | FINAL_QUANTITY_PROOF
| TIMEOUT | ABSENCE | OPERATOR_ASSUMPTION

definition weak_causes :: "transition_cause set" where
  "weak_causes = {TIMEOUT, ABSENCE, OPERATOR_ASSUMPTION}"

fun conservatism_rank :: "capacity_state \<Rightarrow> nat" where
  "conservatism_rank RELEASED = 0"
| "conservatism_rank COMMITTED_UNBOUND = 1"
| "conservatism_rank ATTEMPT_BOUND = 2"
| "conservatism_rank POTENTIALLY_LIVE = 3"
| "conservatism_rank PARTIALLY_CONSUMED = 4"
| "conservatism_rank POSITION_CONSUMED = 5"
| "conservatism_rank RELEASE_PENDING_PROOF = 6"
| "conservatism_rank TRAPPED_CONSUMED = 7"
| "conservatism_rank QUARANTINED_UNKNOWN = 8"

definition transition_allowed :: "capacity_state \<Rightarrow> capacity_state \<Rightarrow> transition_cause \<Rightarrow> bool" where
  "transition_allowed from_state to_state cause =
    (if from_state = RELEASED then False
     else if to_state = RELEASED then cause = FINAL_QUANTITY_PROOF
     else if conservatism_rank to_state \<ge> conservatism_rank from_state then True
     else cause \<notin> weak_causes)"

definition capacity_at_least_as_conservative :: "capacity_state \<Rightarrow> capacity_state \<Rightarrow> bool" where
  "capacity_at_least_as_conservative a b = (conservatism_rank a \<ge> conservatism_rank b)"

text \<open>The ranks identify the states, so the states are linearly ordered by conservatism.\<close>

lemma conservatism_rank_inj: "conservatism_rank a = conservatism_rank b \<Longrightarrow> a = b"
  by (cases a; cases b) simp_all

instantiation capacity_state :: linorder
begin

definition less_eq_capacity_state :: "capacity_state \<Rightarrow> capacity_state \<Rightarrow> bool" where
  "less_eq_capacity_state a b = (conservatism_rank a \<le> conservatism_rank b)"

definition less_capacity_state :: "capacity_state \<Rightarrow> capacity_state \<Rightarrow> bool" where
  "less_capacity_state a b = (conservatism_rank a < conservatism_rank b)"

instance
  by standard
    (auto simp: less_eq_capacity_state_def less_capacity_state_def intro: conservatism_rank_inj)

end

lemma at_least_as_conservative_le [simp]: "capacity_at_least_as_conservative a b \<longleftrightarrow> b \<le> a"
  by (simp add: capacity_at_least_as_conservative_def less_eq_capacity_state_def)

lemma RELEASED_least [simp]: "RELEASED \<le> s"
  by (simp add: less_eq_capacity_state_def)

section \<open>Runs of allowed transitions\<close>

text \<open>A run: the causes, in order, of a chain of transitions each allowed under its cause.\<close>

inductive cap_run :: "capacity_state \<Rightarrow> transition_cause list \<Rightarrow> capacity_state \<Rightarrow> bool" where
  cap_run_Nil: "cap_run s [] s"
| cap_run_Cons: "transition_allowed s t cause \<Longrightarrow> cap_run t causes u \<Longrightarrow> cap_run s (cause # causes) u"

inductive_cases cap_run_NilE: "cap_run s [] u"
inductive_cases cap_run_ConsE: "cap_run s (cause # causes) u"

lemma cap_run_RELEASED: "cap_run s causes u \<Longrightarrow> s = RELEASED \<Longrightarrow> causes = [] \<and> u = RELEASED"
  by (induction rule: cap_run.induct) (auto simp: transition_allowed_def)

lemma cap_run_last_proof:
  "cap_run s causes u \<Longrightarrow> s \<noteq> RELEASED \<Longrightarrow> u = RELEASED \<Longrightarrow>
    causes \<noteq> [] \<and> last causes = FINAL_QUANTITY_PROOF"
proof (induction rule: cap_run.induct)
  case (cap_run_Cons s t cause causes u)
  show ?case
  proof (cases "t = RELEASED")
    case True
    then have "causes = []" using cap_run_RELEASED cap_run_Cons by blast
    with True cap_run_Cons show ?thesis by (auto simp: transition_allowed_def)
  next
    case False
    with cap_run_Cons show ?thesis by simp
  qed
qed simp

lemma weak_step_le:
  "transition_allowed s t cause \<Longrightarrow> cause \<in> weak_causes \<Longrightarrow> s \<le> t \<and> t \<noteq> RELEASED"
  by (auto simp: transition_allowed_def weak_causes_def less_eq_capacity_state_def split: if_splits)

lemma weak_run_le:
  "cap_run s causes u \<Longrightarrow> set causes \<subseteq> weak_causes \<Longrightarrow> s \<le> u \<and> (s \<noteq> RELEASED \<longrightarrow> u \<noteq> RELEASED)"
proof (induction rule: cap_run.induct)
  case (cap_run_Cons s t cause causes u)
  then have "s \<le> t" "t \<noteq> RELEASED" using weak_step_le by auto
  with cap_run_Cons show ?case by auto
qed simp

text \<open>
  C11: along any chain of allowed transitions: a released reservation never moves again; a
  reservation reaches the released state only by a final-quantity proof, as the last cause of the
  chain; and if every cause is a timeout, an absence or an operator's assumption, the chain never
  ends less conservative than it began.
\<close>

theorem capacity_runs_are_conservative:
  assumes "cap_run s causes u"
  shows "(s = RELEASED \<longrightarrow> causes = [] \<and> u = RELEASED) \<and>
    (s \<noteq> RELEASED \<and> u = RELEASED \<longrightarrow> causes \<noteq> [] \<and> last causes = FINAL_QUANTITY_PROOF) \<and>
    (set causes \<subseteq> weak_causes \<longrightarrow> capacity_at_least_as_conservative u s)"
  using cap_run_RELEASED[OF assms] cap_run_last_proof[OF assms] weak_run_le[OF assms] by auto

theorem capacity_runs_are_conservative_witness:
  "cap_run POTENTIALLY_LIVE [TIMEOUT, RECONCILIATION_PROOF, FINAL_QUANTITY_PROOF] RELEASED \<and>
   last [TIMEOUT, RECONCILIATION_PROOF, FINAL_QUANTITY_PROOF] = FINAL_QUANTITY_PROOF"
proof -
  have run: "cap_run POTENTIALLY_LIVE [TIMEOUT, RECONCILIATION_PROOF, FINAL_QUANTITY_PROOF] RELEASED"
    by (rule cap_run_Cons[of _ QUARANTINED_UNKNOWN], simp add: transition_allowed_def,
        rule cap_run_Cons[of _ PARTIALLY_CONSUMED], simp add: transition_allowed_def weak_causes_def,
        rule cap_run_Cons[of _ RELEASED], simp add: transition_allowed_def, rule cap_run_Nil)
  with capacity_runs_are_conservative[OF run] show ?thesis by blast
qed

section \<open>Writer fencing\<close>

record writer_fence_state =
  wf_writer_epoch_floor :: "int option"
  wf_membership_generation :: "int option"
  wf_restore_generation :: "int option"
  wf_revision :: "int option"

definition writer_fenced :: "fence_coordinates \<Rightarrow> writer_fence_state \<Rightarrow> bool" where
  "writer_fenced coords fs =
    (case (fc_expected_writer_epoch coords, fc_membership_generation coords,
           fc_restore_generation coords, fc_expected_revision coords) of
      (Some e, Some m, Some g, Some r) \<Rightarrow>
        (case (wf_writer_epoch_floor fs, wf_membership_generation fs,
               wf_restore_generation fs, wf_revision fs) of
          (Some e', Some m', Some g', Some r') \<Rightarrow>
            if e < e' then True else if m \<noteq> m' then True else if g \<noteq> g' then True else r \<noteq> r'
        | _ \<Rightarrow> True)
    | _ \<Rightarrow> True)"

lemma not_writer_fenced_iff:
  "\<not> writer_fenced coords fs \<longleftrightarrow>
    (\<exists>e e' m g r. fc_expected_writer_epoch coords = Some e \<and> wf_writer_epoch_floor fs = Some e' \<and>
      e' \<le> e \<and> fc_membership_generation coords = Some m \<and> wf_membership_generation fs = Some m \<and>
      fc_restore_generation coords = Some g \<and> wf_restore_generation fs = Some g \<and>
      fc_expected_revision coords = Some r \<and> wf_revision fs = Some r)"
  by (auto simp: writer_fenced_def split: option.splits)

section \<open>Capacity is not authority\<close>

record rcl_authority_effect =
  ra_creates_capacity :: bool
  ra_may_mutate_live_state :: bool
  ra_may_release_capacity :: bool
  ra_permits_broker_transmission :: bool
  ra_may_rearm :: bool

definition grants_no_authority :: "rcl_authority_effect \<Rightarrow> bool" where
  "grants_no_authority b =
    (\<not> list_ex id [ra_creates_capacity b, ra_may_mutate_live_state b, ra_may_release_capacity b,
      ra_permits_broker_transmission b, ra_may_rearm b])"

text \<open>The validator of an authority block: any flag that is set makes it unconstructable.\<close>

definition construct_authority :: "rcl_authority_effect \<Rightarrow> (pystr, rcl_authority_effect) result" where
  "construct_authority b =
    (if grants_no_authority b then Inr b else Inl ''ArtifactIntegrityError'')"

definition no_authority :: rcl_authority_effect where
  "no_authority =
    \<lparr>ra_creates_capacity = False, ra_may_mutate_live_state = False,
     ra_may_release_capacity = False, ra_permits_broker_transmission = False,
     ra_may_rearm = False\<rparr>"

record grant_decision_ref =
  gd_decision_id :: "pystr option"
  gd_decision_generation :: "int option"
  gd_canonical_decision_digest :: "pystr option"
  gd_bound_reservation_revision :: "int option"
  gd_bound_reservation_digest :: "pystr option"
  gd_bound_generation :: "int option"
  gd_authority_effect :: rcl_authority_effect

definition grant_authorizes_exact_request ::
  "grant_decision_ref \<Rightarrow> committed_reservation \<Rightarrow> int option \<Rightarrow> bool" where
  "grant_authorizes_exact_request grant r current_generation =
    (if gd_bound_reservation_revision grant = None \<or> cr_current_reservation_revision r = None \<or>
        gd_bound_reservation_revision grant \<noteq> cr_current_reservation_revision r then False
     else if gd_bound_reservation_digest grant = None \<or> cr_canonical_record_digest r = None \<or>
        gd_bound_reservation_digest grant \<noteq> cr_canonical_record_digest r then False
     else if gd_bound_generation grant = None \<or> current_generation = None then False
     else gd_bound_generation grant = current_generation)"

section \<open>Transmission capabilities\<close>

record transmission_capability =
  tc_capability_id :: "pystr option"
  tc_nonce :: "pystr option"
  tc_single_use :: bool
  tc_reservation_identity :: "pystr option"
  tc_attempt_identity :: "pystr option"
  tc_account_scope :: "pystr option"
  tc_instrument_scope :: "pystr option"
  tc_side_action_scope :: "pystr option"
  tc_maximum_quantity :: "pydec option"
  tc_ledger_epoch :: "int option"
  tc_live_authorization_binding :: "pystr option"
  tc_protective_lease_binding :: "pystr option"
  tc_hard_safety_envelope_version :: "pystr option"
  tc_runtime_safety_profile_version :: "pystr option"
  tc_worst_case_effect :: capacity_vector
  tc_bound_reservation_revision :: "int option"
  tc_fence :: fence_coordinates
  tc_dominating_restriction :: bool
  tc_authority_effect :: rcl_authority_effect

definition capability_active_states :: "capacity_state set" where
  "capability_active_states = {COMMITTED_UNBOUND, ATTEMPT_BOUND}"

definition capability_authorization_valid ::
  "transmission_capability \<Rightarrow> committed_reservation \<Rightarrow> writer_fence_state \<Rightarrow> pystr list \<Rightarrow> bool" where
  "capability_authorization_valid auth r fs dims =
    (if tc_bound_reservation_revision auth = None \<or> cr_current_reservation_revision r = None \<or>
        tc_bound_reservation_revision auth \<noteq> cr_current_reservation_revision r then False
     else if cr_capacity_state r \<notin> capability_active_states then False
     else if \<not> (cr_attempt_bound r \<and> cr_attempt_unused r) then False
     else if tc_dominating_restriction auth then False
     else if \<not> within_limits (tc_worst_case_effect auth) (cr_adverse_increment r) dims then False
     else \<not> writer_fenced (tc_fence auth) fs)"

text \<open>
  An authorization is valid exactly when it is bound to the committed revision of an active
  reservation whose attempt is bound and unused, no restriction dominates, the worst-case effect is
  known and covered by the reserved increment on every applicable dimension (of which there is at
  least one), and every currentness coordinate is known and current, the writer epoch being at
  least the floor.
\<close>

theorem capability_valid_iff:
  "capability_authorization_valid auth r fs dims \<longleftrightarrow>
    (\<exists>revn. tc_bound_reservation_revision auth = Some revn \<and>
      cr_current_reservation_revision r = Some revn) \<and>
    cr_capacity_state r \<in> {COMMITTED_UNBOUND, ATTEMPT_BOUND} \<and>
    cr_attempt_bound r \<and> cr_attempt_unused r \<and> \<not> tc_dominating_restriction auth \<and>
    dims \<noteq> [] \<and>
    list_all (\<lambda>dm. \<exists>e l. magnitude (tc_worst_case_effect auth) dm = Some e \<and>
      magnitude (cr_adverse_increment r) dm = Some l \<and> dval e \<le> dval l) dims \<and>
    (\<exists>e e' m g n. fc_expected_writer_epoch (tc_fence auth) = Some e \<and>
      wf_writer_epoch_floor fs = Some e' \<and> e' \<le> e \<and>
      fc_membership_generation (tc_fence auth) = Some m \<and> wf_membership_generation fs = Some m \<and>
      fc_restore_generation (tc_fence auth) = Some g \<and> wf_restore_generation fs = Some g \<and>
      fc_expected_revision (tc_fence auth) = Some n \<and> wf_revision fs = Some n)"
proof -
  have bound: "tc_bound_reservation_revision auth = None \<or> cr_current_reservation_revision r = None \<or>
      tc_bound_reservation_revision auth \<noteq> cr_current_reservation_revision r \<longleftrightarrow>
      \<not> (\<exists>revn. tc_bound_reservation_revision auth = Some revn \<and>
        cr_current_reservation_revision r = Some revn)"
    by (cases "tc_bound_reservation_revision auth"; cases "cr_current_reservation_revision r") auto
  show ?thesis
    unfolding capability_authorization_valid_def bound capability_active_states_def
      within_limits_iff not_writer_fenced_iff list_all_iff if_return_False
    by blast
qed

record claim_record =
  cl_nonce :: "pystr option"
  cl_capability_id :: "pystr option"
  cl_result :: "pystr option"

record claim_outcome =
  co_consumed_now :: bool
  co_replay :: bool
  co_result :: "pystr option"

definition claim_capability ::
  "pystr option \<Rightarrow> claim_record list \<Rightarrow> pystr \<Rightarrow> claim_outcome" where
  "claim_capability nonce prior_claims res =
    (case nonce of
      None \<Rightarrow> \<lparr>co_consumed_now = False, co_replay = False, co_result = None\<rparr>
    | Some n \<Rightarrow>
      (case find (\<lambda>p. cl_nonce p = Some n) prior_claims of
        Some prior \<Rightarrow> \<lparr>co_consumed_now = False, co_replay = True, co_result = cl_result prior\<rparr>
      | None \<Rightarrow> \<lparr>co_consumed_now = True, co_replay = False, co_result = Some res\<rparr>))"

text \<open>
  A nonce is consumed once: when a claim consumes it and the claim is recorded with its result,
  then, whatever else is recorded later, every further claim of it is a replay that returns the
  first result; and a claim with no nonce is never a consumption.
\<close>

theorem nonce_consumed_once:
  assumes "co_consumed_now (claim_capability nonce prior res)"
    "cl_nonce claim = nonce" "cl_result claim = co_result (claim_capability nonce prior res)"
  shows "nonce \<noteq> None \<and>
    claim_capability nonce (prior @ claim # rest) res' =
      \<lparr>co_consumed_now = False, co_replay = True, co_result = Some res\<rparr>"
  using assms by (auto simp: claim_capability_def find_append split: option.splits)

theorem nonce_consumed_once_witness:
  "co_replay (claim_capability (Some ''n'')
     [\<lparr>cl_nonce = Some ''m'', cl_capability_id = None, cl_result = None\<rparr>,
      \<lparr>cl_nonce = Some ''n'', cl_capability_id = None, cl_result = Some ''SENT''\<rparr>] ''AGAIN'')"
proof -
  let ?prior = "[\<lparr>cl_nonce = Some ''m'', cl_capability_id = None, cl_result = None\<rparr>]"
  let ?claim = "\<lparr>cl_nonce = Some ''n'', cl_capability_id = None, cl_result = Some ''SENT''\<rparr>"
  have "co_consumed_now (claim_capability (Some ''n'') ?prior ''SENT'')"
    "cl_nonce ?claim = Some ''n''"
    "cl_result ?claim = co_result (claim_capability (Some ''n'') ?prior ''SENT'')"
    by (simp_all add: claim_capability_def)
  from nonce_consumed_once[OF this, of "[]" "''AGAIN''"] show ?thesis by simp
qed


section \<open>Loss of quorum\<close>

record partition_verdict =
  pv_new_mutation_denied :: bool
  pv_capability_authorization_denied :: bool
  pv_capability_claim_denied :: bool
  pv_transmission_denied :: bool
  pv_capacity_release_denied :: bool
  pv_membership_change_denied :: bool
  pv_automatic_rearm_denied :: bool
  pv_committed_effects_preserved :: bool
  pv_potentially_live_preserved :: bool
  pv_unknown_preserved :: bool
  pv_trapped_preserved :: bool
  pv_protective_preserved :: bool

definition compute_partition_verdict :: "bool option \<Rightarrow> partition_verdict" where
  "compute_partition_verdict quorum_available =
    (let denied = (quorum_available = None \<or> quorum_available = Some False)
     in \<lparr>pv_new_mutation_denied = denied, pv_capability_authorization_denied = denied,
         pv_capability_claim_denied = denied, pv_transmission_denied = denied,
         pv_capacity_release_denied = denied, pv_membership_change_denied = denied,
         pv_automatic_rearm_denied = True,
         pv_committed_effects_preserved = True, pv_potentially_live_preserved = True,
         pv_unknown_preserved = True, pv_trapped_preserved = True,
         pv_protective_preserved = True\<rparr>)"

section \<open>Worst credible union\<close>

record credible_history =
  ch_history_id :: "pystr option"
  ch_capacity :: capacity_vector
  ch_bounded :: bool

definition union_magnitude :: "credible_history list \<Rightarrow> pystr \<Rightarrow> pydec option" where
  "union_magnitude hs dm =
    (if list_ex (\<lambda>h. \<not> ch_bounded h) hs then None
     else let declared = map (\<lambda>h. magnitude (ch_capacity h) dm)
                (filter (\<lambda>h. declares (ch_capacity h) dm) hs);
              concrete = List.map_filter id declared
          in if length concrete = length declared then
               (case concrete of [] \<Rightarrow> None | m # ms \<Rightarrow> Some (dmax_from m ms))
             else None)"

definition credible_union_capacity ::
  "credible_history list \<Rightarrow> (pystr, capacity_vector) result" where
  "credible_union_capacity hs =
    (if hs = [] then Inl ''ValueError''
     else Inr (CapacityVector
       (map (\<lambda>dm. component dm (union_magnitude hs dm))
         (first_seen (concat (map (dimension_ids \<circ> ch_capacity) hs))))))"

lemma map_filter_id_length:
  "length (List.map_filter id xs) = length xs \<longleftrightarrow> None \<notin> set xs"
proof (induction xs)
  case (Cons x xs)
  have "length (List.map_filter id xs) \<le> length xs"
    by (simp add: List.map_filter_def)
  then show ?case using Cons.IH
    by (cases x) (auto simp: List.map_filter_simps id_def)
qed (simp add: List.map_filter_simps)

lemma set_map_filter_id: "set (List.map_filter id xs) = {m. Some m \<in> set xs}"
  by (force simp: List.map_filter_def image_iff)

lemma union_magnitude_covers:
  assumes "union_magnitude hs dm = Some u" "h \<in> set hs" "declares (ch_capacity h) dm"
  shows "ch_bounded h \<and> (\<exists>m. magnitude (ch_capacity h) dm = Some m \<and> dval m \<le> dval u)"
proof -
  let ?declared = "map (\<lambda>h. magnitude (ch_capacity h) dm)
      (filter (\<lambda>h. declares (ch_capacity h) dm) hs)"
  from assms(1) obtain m ms where ms: "List.map_filter id ?declared = m # ms"
    "u = dmax_from m ms" "None \<notin> set ?declared" "\<not> list_ex (\<lambda>h. \<not> ch_bounded h) hs"
    by (auto simp: union_magnitude_def Let_def map_filter_id_length split: if_splits list.splits)
  have "magnitude (ch_capacity h) dm \<in> set ?declared" using assms(2,3) by auto
  then obtain n where n: "magnitude (ch_capacity h) dm = Some n" "Some n \<in> set ?declared"
    using ms(3) by (metis not_Some_eq)
  then have "n \<in> set (m # ms)" using ms(1) set_map_filter_id[of ?declared] by simp
  with ms(2) have "dval n \<le> dval u" using dmax_from_ge by blast
  moreover have "ch_bounded h" using ms(4) assms(2) by (auto simp: list_ex_iff)
  ultimately show ?thesis using n(1) by blast
qed

lemma union_magnitude_attained:
  assumes "union_magnitude hs dm = Some u"
  shows "\<exists>h \<in> set hs. magnitude (ch_capacity h) dm = Some u"
proof -
  let ?declared = "map (\<lambda>h. magnitude (ch_capacity h) dm)
      (filter (\<lambda>h. declares (ch_capacity h) dm) hs)"
  from assms obtain m ms where ms: "List.map_filter id ?declared = m # ms" "u = dmax_from m ms"
    by (auto simp: union_magnitude_def Let_def split: if_splits list.splits)
  then have "u \<in> set (List.map_filter id ?declared)" using dmax_from_mem[of m ms] by simp
  then have "Some u \<in> set ?declared" by (simp only: set_map_filter_id) simp
  then show ?thesis by fastforce
qed

text \<open>
  The union of a non-empty set of histories never drops a branch: it declares every dimension
  some history declares, and where it gives a magnitude, every history is bounded, every history
  that declares the dimension gives a known magnitude of at most that, and one of them gives
  exactly that.  The union of no history is an error, not the empty vector.
\<close>

theorem union_covers_every_history:
  assumes "\<forall>h \<in> set hs. vector_ok (ch_capacity h)"
  shows "case credible_union_capacity hs of
      Inl e \<Rightarrow> hs = []
    | Inr u \<Rightarrow> hs \<noteq> [] \<and>
        (\<forall>dm. (declares u dm \<longleftrightarrow> (\<exists>h \<in> set hs. declares (ch_capacity h) dm)) \<and>
          (\<forall>m. magnitude u dm = Some m \<longrightarrow>
            (\<forall>h \<in> set hs. ch_bounded h \<and> (declares (ch_capacity h) dm \<longrightarrow>
              (\<exists>n. magnitude (ch_capacity h) dm = Some n \<and> dval n \<le> dval m))) \<and>
            (\<exists>h \<in> set hs. magnitude (ch_capacity h) dm = Some m)))"
proof (cases "hs = []")
  case True
  then show ?thesis by (simp add: credible_union_capacity_def)
next
  case False
  define u where "u = CapacityVector
    (map (\<lambda>dm. component dm (union_magnitude hs dm))
      (first_seen (concat (map (dimension_ids \<circ> ch_capacity) hs))))"
  have decl: "declares u dm \<longleftrightarrow> (\<exists>h \<in> set hs. declares (ch_capacity h) dm)" for dm
    by (simp add: u_def)
  have mag: "union_magnitude hs dm = Some m" if m: "magnitude u dm = Some m" for dm m
  proof -
    from m obtain w where w: "union_magnitude hs dm = Some w" "m = normalize_decimal w"
      by (auto simp: u_def magnitude_map_component split: if_splits)
    then have "dcanon w" using union_magnitude_attained assms magnitude_ok by blast
    with w show ?thesis by (simp add: normalize_decimal_canon)
  qed
  have bounded: "union_magnitude hs dm = Some m \<Longrightarrow> h \<in> set hs \<Longrightarrow> ch_bounded h" for dm m h
    by (auto simp: union_magnitude_def list_ex_iff split: if_splits)
  have "credible_union_capacity hs = Inr u"
    using False by (simp add: credible_union_capacity_def u_def)
  with False decl show ?thesis
    using mag bounded union_magnitude_covers union_magnitude_attained by fastforce
qed

definition bounded_history :: "pystr \<Rightarrow> int \<Rightarrow> bool \<Rightarrow> credible_history" where
  "bounded_history i n b = \<lparr>ch_history_id = Some i, ch_capacity = risk_vector n, ch_bounded = b\<rparr>"

theorem union_covers_every_history_witness:
  "(\<exists>u. credible_union_capacity [bounded_history ''a'' 3 True, bounded_history ''b'' 8 True] = Inr u \<and>
      magnitude u ''RISK'' = Some (Dec 8 0) \<and> declares u ''RISK'') \<and>
   (\<exists>u. credible_union_capacity [bounded_history ''a'' 3 True, bounded_history ''b'' 8 False] = Inr u \<and>
      magnitude u ''RISK'' = None)"
proof -
  have ok: "\<forall>h \<in> set [bounded_history ''a'' 3 True, bounded_history ''b'' 8 True].
      vector_ok (ch_capacity h)"
    by (simp add: bounded_history_def risk_vector_def vector_ok_def make_component_def)
  let ?u = "CapacityVector [component ''RISK'' (Some (Dec 8 0))]"
  have u: "credible_union_capacity [bounded_history ''a'' 3 True, bounded_history ''b'' 8 True] = Inr ?u"
    by (simp add: credible_union_capacity_def bounded_history_def union_magnitude_def rcl_defs dec_defs
        risk_vector_def List.map_filter_simps)
  have "declares ?u ''RISK''"
    using union_covers_every_history[OF ok] u
    by (auto simp: bounded_history_def risk_vector_def rcl_defs)
  moreover have "magnitude ?u ''RISK'' = Some (Dec 8 0)" by (simp add: rcl_defs dec_defs)
  moreover have "\<exists>u. credible_union_capacity [bounded_history ''a'' 3 True, bounded_history ''b'' 8 False]
      = Inr u \<and> magnitude u ''RISK'' = None"
    by (simp add: credible_union_capacity_def bounded_history_def union_magnitude_def rcl_defs dec_defs
        risk_vector_def List.map_filter_simps)
  ultimately show ?thesis using u by blast
qed

section \<open>Restores\<close>

definition recovery_generation_revives_nothing :: "int option \<Rightarrow> int option \<Rightarrow> bool" where
  "recovery_generation_revives_nothing invalidated_under new_generation = True"

record snapshot_completeness =
  sc_non_terminal_reservations :: "pystr list option"
  sc_command_idempotency_keys :: "pystr list option"
  sc_generation_fences :: "fence_coordinates option"
  sc_capability_use_state :: "pystr list option"
  sc_proof_gated_release_state :: "pystr list option"
  sc_history_commitment :: "pystr option"

definition missing_elements :: "snapshot_completeness \<Rightarrow> pystr list" where
  "missing_elements s =
    map fst (filter (\<lambda>(name, missing). missing)
      [(''non_terminal_reservations'', sc_non_terminal_reservations s = None),
       (''command_idempotency_keys'', sc_command_idempotency_keys s = None),
       (''generation_fences'', sc_generation_fences s = None),
       (''capability_use_state'', sc_capability_use_state s = None),
       (''proof_gated_release_state'', sc_proof_gated_release_state s = None),
       (''history_commitment'', sc_history_commitment s = None)])"

record authoritative_snapshot =
  as_snapshot_id :: "pystr option"
  as_cluster_identity :: "pystr option"
  as_capacity_domain :: "pystr option"
  as_membership_generation :: "int option"
  as_restore_generation :: "int option"
  as_writer_epoch :: "int option"
  as_last_included_revision :: "int option"
  as_completeness :: snapshot_completeness
  as_profile_generation :: "int option"
  as_hard_safety_envelope_generation :: "int option"
  as_integrity_commitment :: "pystr option"
  as_authority_effect :: rcl_authority_effect

definition snapshot_admissible_for_restore :: "authoritative_snapshot \<Rightarrow> bool" where
  "snapshot_admissible_for_restore s = (missing_elements (as_completeness s) = [])"

lemma snapshot_admissible_iff:
  "snapshot_admissible_for_restore s \<longleftrightarrow>
    (let c = as_completeness s
     in sc_non_terminal_reservations c \<noteq> None \<and> sc_command_idempotency_keys c \<noteq> None \<and>
        sc_generation_fences c \<noteq> None \<and> sc_capability_use_state c \<noteq> None \<and>
        sc_proof_gated_release_state c \<noteq> None \<and> sc_history_commitment c \<noteq> None)"
  by (simp add: snapshot_admissible_for_restore_def missing_elements_def Let_def)

end
