(* ===== verification/Canonical.thy ===== *)
theory Canonical
  imports Py_Decimal "HOL-Library.List_Lexorder" "HOL-Library.Char_ord"
begin

text \<open>
  The canonical serialisation \<^verbatim>\<open>tos/src/tos/canonical/canonicalization.py\<close> and the digest-bound
  artifacts of \<^verbatim>\<open>tos/src/tos/canonical/_base.py\<close>.  A covered content is a JSON value; a number
  leaf is the decimal \<^verbatim>\<open>Decimal(str(value))\<close> of an \<^verbatim>\<open>int\<close> or \<^verbatim>\<open>Decimal\<close>; a \<^verbatim>\<open>float\<close> leaf
  enters as the decimal of its shortest representation.  Strings are over 8-bit characters, on which
  the order of keys is the order of code points.  The digest function is a parameter.

  The main result is that the token string of \<open>encode\<close> determines the value up to the order of keys
  and up to the rounding of numbers to the decimal context.
\<close>

section \<open>JSON values\<close>

datatype json =
  JNull
| JBool bool
| JNum pydec
| JStr pystr
| JArr "json list"
| JObj "(pystr \<times> json) list"

section \<open>Number tokens\<close>

definition digit_char :: "nat \<Rightarrow> char" where
  "digit_char n = char_of (48 + n)"

fun nat_str :: "nat \<Rightarrow> pystr" where
  "nat_str n = (if n < 10 then [digit_char n] else nat_str (n div 10) @ [digit_char (n mod 10)])"

declare nat_str.simps [simp del]

definition int_str :: "int \<Rightarrow> pystr" where
  "int_str i = (if i < 0 then ''-'' @ nat_str (nat (- i)) else nat_str (nat i))"

text \<open>\<^verbatim>\<open>format(dec, "f")\<close>: no exponent, as many fraction digits as the exponent asks for.\<close>

definition format_f :: "pydec \<Rightarrow> pystr" where
  "format_f d =
    (let sign = (if dcoeff d < 0 then ''-'' else '''');
         ds = nat_str (nat \<bar>dcoeff d\<bar>);
         k = nat (- dexp d)
     in if 0 \<le> dexp d then sign @ ds @ replicate (nat (dexp d)) CHR ''0''
        else if k < length ds
             then sign @ take (length ds - k) ds @ ''.'' @ drop (length ds - k) ds
             else sign @ ''0.'' @ replicate (k - length ds) CHR ''0'' @ ds)"

definition num_token :: "pydec \<Rightarrow> pystr" where
  "num_token d = (let n = dnormalize d in if deq n dzero then ''0'' else format_f n)"

section \<open>Encoding\<close>

fun join :: "'a list \<Rightarrow> 'a list list \<Rightarrow> 'a list" where
  "join sep [] = []"
| "join sep [x] = x"
| "join sep (x # y # xs) = x @ sep @ join sep (y # xs)"

definition str_token :: "pystr \<Rightarrow> pystr" where
  "str_token s = ''S'' @ nat_str (length s) @ '':'' @ s"

definition item_token :: "pystr \<times> pystr \<Rightarrow> pystr" where
  "item_token kv = str_token (fst kv) @ ''='' @ snd kv"

definition obj_token :: "(pystr \<times> pystr) list \<Rightarrow> pystr" where
  "obj_token items = ''M{'' @ join '';'' (map item_token (sort_key fst items)) @ ''}''"

definition arr_token :: "pystr list \<Rightarrow> pystr" where
  "arr_token ts = ''L['' @ join '','' ts @ '']''"

primrec encode :: "json \<Rightarrow> pystr" where
  "encode JNull = ''N''"
| "encode (JBool b) = (if b then ''B1'' else ''B0'')"
| "encode (JNum d) = ''D:'' @ num_token d"
| "encode (JStr s) = str_token s"
| "encode (JObj items) = obj_token (map (map_prod id encode) items)"
| "encode (JArr vs) = arr_token (map encode vs)"

text \<open>What \<open>encode\<close> retains of a value: numbers normalised, keys sorted.\<close>

primrec canon :: "json \<Rightarrow> json" where
  "canon JNull = JNull"
| "canon (JBool b) = JBool b"
| "canon (JNum d) = JNum (normalize_decimal d)"
| "canon (JStr s) = JStr s"
| "canon (JObj items) = JObj (sort_key fst (map (map_prod id canon) items))"
| "canon (JArr vs) = JArr (map canon vs)"

section \<open>Digits\<close>

definition digits_val :: "pystr \<Rightarrow> nat" where
  "digits_val s = foldl (\<lambda>a c. 10 * a + (of_char c - 48)) 0 s"

lemma of_digit_char: "n < 10 \<Longrightarrow> of_char (digit_char n) = 48 + n"
  by (simp add: digit_char_def of_char_of)

lemma digit_char_eqI: "n < 10 \<Longrightarrow> of_char c = 48 + n \<Longrightarrow> digit_char n = c"
  using of_digit_char[of n] by (metis of_char_eq_iff)

lemma digit_char_eval:
  "digit_char 0 = CHR ''0''" "digit_char 1 = CHR ''1''" "digit_char (Suc 0) = CHR ''1''"
  "digit_char 2 = CHR ''2''" "digit_char 3 = CHR ''3''" "digit_char 4 = CHR ''4''"
  "digit_char 5 = CHR ''5''" "digit_char 6 = CHR ''6''" "digit_char 7 = CHR ''7''"
  "digit_char 8 = CHR ''8''" "digit_char 9 = CHR ''9''"
  by (rule digit_char_eqI; simp)+

lemmas digit_char_0 = digit_char_eval(1)

lemma digits_val_append1:
  "n < 10 \<Longrightarrow> digits_val (s @ [digit_char n]) = 10 * digits_val s + n"
  by (simp add: digits_val_def of_digit_char)

lemma digits_val_nat_str [simp]: "digits_val (nat_str n) = n"
proof (induction n rule: nat_str.induct)
  case (1 n)
  show ?case
  proof (cases "n < 10")
    case True
    then show ?thesis
      using digits_val_append1[of n "[]"] by (subst nat_str.simps) (simp add: digits_val_def)
  next
    case False
    then show ?thesis
      using 1 by (subst nat_str.simps) (simp add: digits_val_append1)
  qed
qed

lemma nat_str_inj: "nat_str m = nat_str n \<Longrightarrow> m = n"
  by (metis digits_val_nat_str)

lemma digits_val_zeros: "digits_val (s @ replicate k CHR ''0'') = digits_val s * 10 ^ k"
proof (induction k)
  case (Suc k)
  have "s @ replicate (Suc k) CHR ''0'' = (s @ replicate k CHR ''0'') @ [digit_char 0]"
    by (simp add: digit_char_0 replicate_append_same)
  then show ?case using Suc by (simp only: digits_val_append1) simp
qed simp

lemma digits_val_lead: "digits_val (CHR ''0'' # s) = digits_val s"
  by (simp add: digits_val_def)

lemma digits_val_leads: "digits_val (replicate k CHR ''0'' @ s) = digits_val s"
  by (induction k) (simp_all add: digits_val_lead)

definition is_digit :: "char \<Rightarrow> bool" where
  "is_digit c = (48 \<le> (of_char c :: nat) \<and> (of_char c :: nat) \<le> 57)"

lemma is_digit_digit_char [simp]: "n < 10 \<Longrightarrow> is_digit (digit_char n)"
  by (simp add: is_digit_def of_digit_char)

lemma is_digit_zero [simp]: "is_digit CHR ''0''"
  by (simp add: is_digit_def)

lemma nat_str_digits: "\<forall>c \<in> set (nat_str n). is_digit c"
proof (induction n rule: nat_str.induct)
  case (1 n)
  then show ?case by (subst nat_str.simps) auto
qed

lemma nat_str_nonempty [simp]: "nat_str n \<noteq> []"
  by (subst nat_str.simps) simp

text \<open>A prefix that ends where the characters stop satisfying a predicate is unique.\<close>

lemma prefix_unique:
  assumes "xs @ us = ys @ vs" "\<forall>c \<in> set xs. P c" "\<forall>c \<in> set ys. P c"
    "us = [] \<or> \<not> P (hd us)" "vs = [] \<or> \<not> P (hd vs)"
  shows "xs = ys \<and> us = vs"
proof -
  have "takeWhile P (xs @ us) = xs" "takeWhile P (ys @ vs) = ys"
    using assms(2-5) by (cases us; cases vs; simp add: takeWhile_append)+
  with assms(1) show ?thesis by auto
qed

section \<open>The value of a number token\<close>

definition unsigned_val :: "pystr \<Rightarrow> rat" where
  "unsigned_val s =
    (let ip = takeWhile is_digit s; fp = drop 1 (dropWhile is_digit s)
     in of_nat (digits_val (ip @ fp)) / 10 ^ length fp)"

definition token_val :: "pystr \<Rightarrow> rat" where
  "token_val s =
    (case s of [] \<Rightarrow> 0
     | c # r \<Rightarrow> if c = CHR ''-'' then - unsigned_val r else unsigned_val s)"

lemma unsigned_val_int: "\<forall>c \<in> set s. is_digit c \<Longrightarrow> unsigned_val s = of_nat (digits_val s)"
  by (simp add: unsigned_val_def takeWhile_eq_all_conv[THEN iffD2]
      dropWhile_eq_Nil_conv[THEN iffD2])

lemma unsigned_val_frac:
  assumes "\<forall>c \<in> set a. is_digit c"
  shows "unsigned_val (a @ ''.'' @ b) = of_nat (digits_val (a @ b)) / 10 ^ length b"
proof -
  have "\<not> is_digit CHR ''.''" by (simp add: is_digit_def)
  then have "takeWhile is_digit (a @ ''.'' @ b) = a" "dropWhile is_digit (a @ ''.'' @ b) = ''.'' @ b"
    using assms by (simp_all add: takeWhile_append dropWhile_append)
  then show ?thesis by (simp add: unsigned_val_def)
qed

lemma token_val_signed:
  assumes "s \<noteq> []" "is_digit (hd s)"
  shows "token_val ((if neg then ''-'' else '''') @ s) = (if neg then - unsigned_val s else unsigned_val s)"
proof -
  have "hd s \<noteq> CHR ''-''" using assms(2) by (auto simp: is_digit_def)
  with assms(1) show ?thesis by (cases s) (simp_all add: token_val_def)
qed

lemma hd_digits: "\<forall>c \<in> set s. is_digit c \<Longrightarrow> s \<noteq> [] \<Longrightarrow> is_digit (hd s)"
  by (cases s) simp_all

lemma token_val_format_f: "token_val (format_f d) = dval d"
proof -
  define ds where "ds = nat_str (nat \<bar>dcoeff d\<bar>)"
  define k where "k = nat (- dexp d)"
  have ds: "\<forall>c \<in> set ds. is_digit c" "ds \<noteq> []" "digits_val ds = nat \<bar>dcoeff d\<bar>"
    unfolding ds_def by (simp_all add: nat_str_digits)
  have c: "(if dcoeff d < 0 then - (of_nat (digits_val ds) * x) else of_nat (digits_val ds) * x) =
      of_int (dcoeff d) * (x::rat)" for x
    by (simp add: ds(3))
  have signed: "token_val (format_f d) = dval d"
    if "format_f d = (if dcoeff d < 0 then ''-'' else '''') @ s" "s \<noteq> []" "is_digit (hd s)"
      "unsigned_val s = of_nat (digits_val ds) * 10 powi dexp d" for s
    unfolding that(1) token_val_signed[OF that(2,3)] that(4) c dval_def ..
  have pw: "(10::rat) powi dexp d = inverse (10 ^ k)" if "dexp d < 0"
    using that by (simp add: power_int_def k_def flip: power_inverse)
  consider (int) "0 \<le> dexp d" | (frac) "dexp d < 0" "k < length ds" | (lead) "dexp d < 0" "length ds \<le> k"
    by linarith
  then show ?thesis
  proof cases
    case int
    let ?s = "ds @ replicate (nat (dexp d)) CHR ''0''"
    have form: "format_f d = (if dcoeff d < 0 then ''-'' else '''') @ ?s"
      using int by (simp add: format_f_def ds_def[symmetric] Let_def)
    have s: "\<forall>c \<in> set ?s. is_digit c" "?s \<noteq> []" using ds by auto
    have "unsigned_val ?s = of_nat (digits_val ds) * 10 powi dexp d"
      using int by (simp add: unsigned_val_int[OF s(1)] digits_val_zeros power_int_def)
    then show ?thesis by (rule signed[OF form s(2) hd_digits[OF s]])
  next
    case frac
    let ?a = "take (length ds - k) ds" and ?b = "drop (length ds - k) ds"
    have form: "format_f d = (if dcoeff d < 0 then ''-'' else '''') @ ?a @ ''.'' @ ?b"
      using frac by (simp add: format_f_def ds_def[symmetric] k_def[symmetric] Let_def)
    have a: "\<forall>c \<in> set ?a. is_digit c" "?a \<noteq> []"
      using ds(1,2) frac(2) by (auto dest: in_set_takeD)
    have "unsigned_val (?a @ ''.'' @ ?b) = of_nat (digits_val ds) * 10 powi dexp d"
      using frac(2) pw[OF frac(1)] unfolding unsigned_val_frac[OF a(1)]
      by (simp only: append_take_drop_id length_drop diff_diff_cancel less_imp_le divide_inverse)
    moreover have "hd (?a @ ''.'' @ ?b) = hd ?a" using a(2) by (rule hd_append2)
    ultimately show ?thesis using signed[OF form] hd_digits[OF a] a(2) by simp
  next
    case lead
    let ?b = "replicate (k - length ds) CHR ''0'' @ ds"
    have form: "format_f d = (if dcoeff d < 0 then ''-'' else '''') @ ''0'' @ ''.'' @ ?b"
      using lead by (simp add: format_f_def ds_def[symmetric] k_def[symmetric] Let_def)
    have "\<forall>c \<in> set ''0''. is_digit c" by simp
    from unsigned_val_frac[OF this, of ?b]
    have "unsigned_val (''0'' @ ''.'' @ ?b) = of_nat (digits_val ds) * 10 powi dexp d"
      using lead(2) pw[OF lead(1)] by (simp add: digits_val_lead digits_val_leads divide_inverse)
    then show ?thesis using signed[OF form] by simp
  qed
qed

lemma token_val_num_token: "token_val (num_token d) = dval (normalize_decimal d)"
proof (cases "deq (dnormalize d) dzero")
  case True
  have "token_val ''0'' = 0" by (simp add: token_val_def unsigned_val_def digits_val_def is_digit_def)
  with True show ?thesis by (simp add: num_token_def normalize_decimal_def)
next
  case False
  then show ?thesis by (simp add: num_token_def normalize_decimal_def token_val_format_f)
qed

lemma num_token_inj: "num_token a = num_token b \<Longrightarrow> normalize_decimal a = normalize_decimal b"
  by (rule dcanon_unique) (simp_all flip: token_val_num_token)

lemma num_token_normalize: "num_token (normalize_decimal d) = num_token d"
proof -
  have same: "dnormalize r = r" if "dcanon r" for r
    using that by (intro dcanon_unique[OF dcanon_dnormalize])
      (simp_all add: dnormalize_def Let_def dround_exact dcanon_def strip_zeros_normal)
  show ?thesis
    using same[OF dcanon_dnormalize[of d]] same[OF dcanon_dzero]
    by (simp add: num_token_def normalize_decimal_def Let_def) (simp add: deq_iff)
qed

section \<open>The encoding is a prefix code\<close>

definition token_char :: "char \<Rightarrow> bool" where
  "token_char c = (is_digit c \<or> c = CHR ''-'' \<or> c = CHR ''.'')"

lemma num_token_chars: "\<forall>c \<in> set (num_token d). token_char c"
  using nat_str_digits
  by (auto simp: num_token_def format_f_def token_char_def Let_def dest: in_set_takeD in_set_dropD)

definition stop :: "pystr \<Rightarrow> bool" where
  "stop s = (s = [] \<or> hd s \<in> {CHR '','', CHR '']'', CHR '';'', CHR ''}''})"

lemma stop_not_token: "stop s \<Longrightarrow> s = [] \<or> \<not> token_char (hd s)"
  by (auto simp: stop_def token_char_def is_digit_def)

lemma stop_simps [simp]:
  "stop []" "stop (CHR '','' # s)" "stop (CHR '']'' # s)" "stop (CHR '';'' # s)" "stop (CHR ''}'' # s)"
  by (simp_all add: stop_def)

lemma str_token_prefix:
  assumes "str_token s @ x = str_token t @ y"
  shows "s = t \<and> x = y"
proof -
  have "nat_str (length s) @ '':'' @ s @ x = nat_str (length t) @ '':'' @ t @ y"
    using assms by (simp add: str_token_def)
  then have "nat_str (length s) = nat_str (length t) \<and> '':'' @ s @ x = '':'' @ t @ y"
    by (rule prefix_unique[where P = is_digit]) (simp_all add: nat_str_digits, simp_all add: is_digit_def)
  then show ?thesis using nat_str_inj by auto
qed

lemma sort_key_map_prod:
  "sort_key fst (map (map_prod id f) items) = map (map_prod id f) (sort_key fst items)"
proof -
  have ins: "insort_key fst (map_prod id f x) (map (map_prod id f) xs) =
      map (map_prod id f) (insort_key fst x xs)" for x xs
    by (induction xs) auto
  show ?thesis
  proof (induction items)
    case (Cons x items)
    then show ?case by (simp only: list.map sort_key_simps ins)
  qed simp
qed

text \<open>The first character of a token is never a separator.\<close>

lemma encode_first:
  "\<exists>c r. encode v = c # r \<and> c \<in> {CHR ''N'', CHR ''B'', CHR ''D'', CHR ''S'', CHR ''M'', CHR ''L''}"
  by (cases v) (simp_all add: str_token_def obj_token_def arr_token_def)

lemma join_map_prefix:
  assumes step: "\<And>a b x y. a \<in> set as \<Longrightarrow> stop x \<Longrightarrow> stop y \<Longrightarrow> tok a @ x = tok b @ y \<Longrightarrow>
      f a = f b \<and> x = y"
    and first: "\<And>a. \<exists>c r. tok a = c # r \<and> c \<noteq> e"
    and seps: "sep \<in> {CHR '','', CHR '';''}" "e \<in> {CHR '']'', CHR ''}''}"
    and eq: "join [sep] (map tok as) @ [e] @ x = join [sep] (map tok bs) @ [e] @ y"
  shows "map f as = map f bs \<and> x = y"
  using step eq
proof (induction as arbitrary: bs)
  case Nil
  show ?case
  proof (cases bs)
    case (Cons b bs')
    obtain c r where "tok b = c # r" "c \<noteq> e" using first by blast
    with Nil Cons show ?thesis by (cases bs') auto
  qed (use Nil in simp)
next
  case (Cons a as)
  obtain c r where ca: "tok a = c # r" "c \<noteq> e" using first by blast
  obtain b bs' where bs: "bs = b # bs'"
    using Cons.prems(2) ca by (cases bs; cases as) auto
  define u where "u = (if as = [] then [e] @ x else [sep] @ join [sep] (map tok as) @ [e] @ x)"
  define v where "v = (if bs' = [] then [e] @ y else [sep] @ join [sep] (map tok bs') @ [e] @ y)"
  have split: "tok a @ u = tok b @ v"
    using Cons.prems(2) unfolding bs u_def v_def by (cases as; cases bs') simp_all
  have stops: "stop u" "stop v" using seps by (auto simp: u_def v_def stop_def)
  have ab: "f a = f b" "u = v" using Cons.prems(1)[OF _ stops split] by auto
  have "sep \<noteq> e" using seps by auto
  show ?case
  proof (cases "as = []")
    case True
    with ab(2) \<open>sep \<noteq> e\<close> have "bs' = [] \<and> x = y" by (auto simp: u_def v_def split: if_splits)
    with True ab(1) bs show ?thesis by simp
  next
    case False
    with ab(2) \<open>sep \<noteq> e\<close> have "bs' \<noteq> []" by (auto simp: u_def v_def split: if_splits)
    with False ab(2) have "join [sep] (map tok as) @ [e] @ x = join [sep] (map tok bs') @ [e] @ y"
      by (simp add: u_def v_def)
    with Cons.IH[of bs'] Cons.prems(1) have "map f as = map f bs' \<and> x = y" by auto
    with ab(1) bs show ?thesis by simp
  qed
qed

lemma item_token_prefix:
  assumes "item_token (k, t) @ x = item_token (k', t') @ y"
  shows "k = k' \<and> t @ x = t' @ y"
proof -
  have "str_token k @ ''='' @ t @ x = str_token k' @ ''='' @ t' @ y"
    using assms by (simp add: item_token_def)
  from str_token_prefix[OF this] show ?thesis by simp
qed

lemma encode_prefix:
  "stop x \<Longrightarrow> stop y \<Longrightarrow> encode a @ x = encode b @ y \<Longrightarrow> canon a = canon b \<and> x = y"
proof (induction a arbitrary: b x y)
  case JNull
  then show ?case by (cases b) (auto simp: str_token_def obj_token_def arr_token_def split: if_splits)
next
  case (JBool c)
  then show ?case by (cases b) (auto simp: str_token_def obj_token_def arr_token_def split: if_splits)
next
  case (JNum d)
  then obtain d' where b: "b = JNum d'"
    by (cases b) (auto simp: str_token_def obj_token_def arr_token_def split: if_splits)
  with JNum.prems(3) have "num_token d @ x = num_token d' @ y" by simp
  then have "num_token d = num_token d' \<and> x = y"
    by (rule prefix_unique[where P = token_char])
      (rule num_token_chars stop_not_token[OF JNum.prems(1)] stop_not_token[OF JNum.prems(2)])+
  then show ?case using b num_token_inj[of d d'] by simp
next
  case (JStr s)
  then obtain t where b: "b = JStr t"
    by (cases b) (auto simp: str_token_def obj_token_def arr_token_def split: if_splits)
  with JStr.prems(3) show ?case using str_token_prefix[of s x t y] by simp
next
  case (JArr vs)
  then obtain ws where b: "b = JArr ws"
    by (cases b) (auto simp: str_token_def obj_token_def arr_token_def split: if_splits)
  have "map canon vs = map canon ws \<and> x = y"
  proof (rule join_map_prefix[where sep = "CHR '',''" and e = "CHR '']''" and tok = encode])
    show "\<And>a b x y. a \<in> set vs \<Longrightarrow> stop x \<Longrightarrow> stop y \<Longrightarrow> encode a @ x = encode b @ y \<Longrightarrow>
        canon a = canon b \<and> x = y"
      using JArr.IH by blast
    show "\<And>a. \<exists>c r. encode a = c # r \<and> c \<noteq> CHR '']''" using encode_first by fastforce
    show "join [CHR '',''] (map encode vs) @ [CHR '']''] @ x = join [CHR '',''] (map encode ws) @ [CHR '']''] @ y"
      using JArr.prems(3) b by (simp add: arr_token_def)
  qed simp_all
  then show ?case using b by simp
next
  case (JObj items)
  then obtain items' where b: "b = JObj items'"
    by (cases b) (auto simp: str_token_def obj_token_def arr_token_def split: if_splits)
  let ?tok = "\<lambda>kv. item_token (map_prod id encode kv)"
  have "map (map_prod id canon) (sort_key fst items) = map (map_prod id canon) (sort_key fst items') \<and> x = y"
  proof (rule join_map_prefix[where sep = "CHR '';''" and e = "CHR ''}''" and tok = ?tok])
    fix kv kv' :: "pystr \<times> json" and x y
    assume "kv \<in> set (sort_key fst items)" "stop x" "stop y" "?tok kv @ x = ?tok kv' @ y"
    moreover obtain k v k' v' where kv: "kv = (k, v)" "kv' = (k', v')" by (cases kv; cases kv')
    ultimately have "k = k'" "encode v @ x = encode v' @ y" "(k, v) \<in> set items"
      using item_token_prefix[of k "encode v" x k' "encode v'" y] by simp_all
    then show "map_prod id canon kv = map_prod id canon kv' \<and> x = y"
      using JObj.IH[of "(k, v)" v x y v'] \<open>stop x\<close> \<open>stop y\<close> kv by simp
  next
    show "\<And>kv. \<exists>c r. ?tok kv = c # r \<and> c \<noteq> CHR ''}''" by (simp add: item_token_def str_token_def)
    show "join [CHR '';''] (map ?tok (sort_key fst items)) @ [CHR ''}''] @ x =
        join [CHR '';''] (map ?tok (sort_key fst items')) @ [CHR ''}''] @ y"
      using JObj.prems(3) b by (simp add: obj_token_def sort_key_map_prod comp_def)
  qed simp_all
  then show ?case using b by (simp add: sort_key_map_prod)
qed

lemma obj_token_sorted: "obj_token (sort_key fst items) = obj_token items"
  by (simp add: obj_token_def sort_key_id_if_sorted)

lemma encode_canon: "encode (canon v) = encode v"
proof (induction v)
  case (JNum d)
  then show ?case by (simp add: num_token_normalize)
next
  case (JArr vs)
  then have same: "map (encode \<circ> canon) vs = map encode vs" by simp
  show ?case by (simp only: canon.simps encode.simps map_map same)
next
  case (JObj items)
  have "encode (canon (JObj items)) =
      obj_token (sort_key fst (map (map_prod id encode) (map (map_prod id canon) items)))"
    by (simp only: canon.simps encode.simps sort_key_map_prod)
  also have "\<dots> = obj_token (map (map_prod id (encode \<circ> canon)) items)"
    by (simp only: obj_token_sorted) (simp add: map_prod.comp)
  also have "map (map_prod id (encode \<circ> canon)) items = map (map_prod id encode) items"
    using JObj by auto
  finally show ?case by simp
qed simp_all

lemma encode_eq_iff: "encode a = encode b \<longleftrightarrow> canon a = canon b"
  using encode_prefix[of "[]" "[]" a b] encode_canon by (metis append_Nil2 stop_simps(1))

text \<open>
  C12: two values have one canonical encoding exactly when they are equal up to the order of the
  keys of their objects and up to the rounding of each number to 28 digits; on numbers of at most
  28 digits, equal encodings mean equal rational values.
\<close>

theorem encoding_determines_value:
  "(encode a = encode b \<longleftrightarrow> canon a = canon b) \<and>
   (\<forall>d e. \<bar>dcoeff d\<bar> < 10 ^ dec_prec \<and> \<bar>dcoeff e\<bar> < 10 ^ dec_prec \<longrightarrow>
     (encode (JNum d) = encode (JNum e) \<longleftrightarrow> dval d = dval e))"
  by (simp add: encode_eq_iff normalize_decimal_eq_iff del: encode.simps)

theorem encoding_determines_value_witness:
  "encode (JObj [(''b'', JNum (Dec 150 (- 2))), (''a'', JArr [JNull, JBool True])]) =
   encode (JObj [(''a'', JArr [JNull, JBool True]), (''b'', JNum (Dec 15 (- 1)))]) \<and>
   encode (JNum (Dec 15 0)) \<noteq> encode (JNum (Dec 15 1))"
proof -
  have "canon (JObj [(''b'', JNum (Dec 150 (- 2))), (''a'', JArr [JNull, JBool True])]) =
      canon (JObj [(''a'', JArr [JNull, JBool True]), (''b'', JNum (Dec 15 (- 1)))])"
    by (simp add: dec_defs less_eq_list_code)
  moreover have "\<bar>dcoeff (Dec 15 0)\<bar> < 10 ^ dec_prec" "\<bar>dcoeff (Dec 15 1)\<bar> < 10 ^ dec_prec"
    "dval (Dec 15 0) \<noteq> dval (Dec 15 1)"
    by (simp_all add: dec_prec_def dval_def)
  ultimately show ?thesis using encoding_determines_value by blast
qed

text \<open>
  Numbers that differ after the 28th digit are not kept apart: the objects with 10 ^ 28 and
  with 10 ^ 28 + 1 under one key have the same encoding, hence the same digest.
\<close>

theorem encode_collapses_long_integers:
  "dval (Dec (10 ^ 28 + 1) 0) \<noteq> dval (Dec (10 ^ 28) 0) \<and>
   encode (JObj [(''n'', JNum (Dec (10 ^ 28 + 1) 0))]) = encode (JObj [(''n'', JNum (Dec (10 ^ 28) 0))])"
proof -
  have "normalize_decimal (Dec (10 ^ 28 + 1) 0) = normalize_decimal (Dec (10 ^ 28) 0)"
    by (simp add: dec_defs)
  then have "canon (JObj [(''n'', JNum (Dec (10 ^ 28 + 1) 0))]) =
      canon (JObj [(''n'', JNum (Dec (10 ^ 28) 0))])"
    by (simp only: canon.simps list.map map_prod_simp)
  then show ?thesis by (simp only: encode_eq_iff) (simp add: dval_def)
qed

section \<open>Schemes\<close>

type_synonym scheme = "json \<Rightarrow> pystr"
type_synonym registry = "pystr \<rightharpoonup> scheme"

datatype artifact_error = ArtifactIntegrityError pystr

text \<open>\<^verbatim>\<open>EVL1ProvisionalCanonicalizer.compute_digest\<close>, with the digest function \<open>H\<close> injected.\<close>

definition compute_digest :: "(pystr \<Rightarrow> pystr) \<Rightarrow> scheme" where
  "compute_digest H covered = H (encode covered)"

definition ev_l1_provisional_version :: pystr where
  "ev_l1_provisional_version = ''ev-l1-provisional-0''"

definition register_scheme :: "pystr \<Rightarrow> scheme \<Rightarrow> registry \<Rightarrow> registry" where
  "register_scheme version s reg = reg(version \<mapsto> s)"

definition get_scheme :: "registry \<Rightarrow> pystr option \<Rightarrow> (artifact_error, scheme) result" where
  "get_scheme reg version =
    (case version of
      None \<Rightarrow> Inl (ArtifactIntegrityError ''no canonicalization scheme registered'')
    | Some v \<Rightarrow>
      (case reg v of
        None \<Rightarrow> Inl (ArtifactIntegrityError ''no canonicalization scheme registered'')
      | Some s \<Rightarrow> Inr s))"

section \<open>Digest-bound artifacts\<close>

datatype artifact_status = DRAFT | ISSUED | SUPERSEDED | INVALIDATED

text \<open>
  The three id strategies: \<^verbatim>\<open>DigestBoundArtifact\<close>, \<^verbatim>\<open>IdDerivedArtifact\<close> with its prefix,
  \<^verbatim>\<open>IndependentIdArtifact\<close>.
\<close>

datatype id_rule = NoId | DerivedId pystr | IndependentId

text \<open>
  A class of artifacts over contents \<open>'c\<close>: its id strategy, the covered content (the dump of
  \<^verbatim>\<open>_COVERED_FIELDS\<close>) and the value at each path of \<^verbatim>\<open>_REQUIRED_COVERED\<close>.
\<close>

record 'c artifact_class =
  acl_id_rule :: id_rule
  acl_covered :: "'c \<Rightarrow> json"
  acl_required :: "'c \<Rightarrow> (pystr \<times> json) list"

record 'c artifact =
  ar_content :: 'c
  ar_id :: "pystr option"
  ar_canonical_digest :: "pystr option"
  ar_status :: artifact_status
  ar_canonicalization_version :: "pystr option"

definition derive_id :: "pystr \<Rightarrow> pystr \<Rightarrow> pystr" where
  "derive_id prefix digest = prefix @ ''-'' @ digest"

definition missing_required_fields :: "'c artifact_class \<Rightarrow> 'c \<Rightarrow> pystr list" where
  "missing_required_fields cls c =
    map fst (filter (\<lambda>(path, v). v = JNull \<or> v = JStr ''TBD'') (acl_required cls c))"

definition verify_id_binding ::
  "id_rule \<Rightarrow> pystr option \<Rightarrow> pystr \<Rightarrow> (artifact_error, unit) result" where
  "verify_id_binding r i expected_digest =
    (case r of
      DerivedId prefix \<Rightarrow>
        if i \<noteq> Some (derive_id prefix expected_digest)
        then Inl (ArtifactIntegrityError ''id must equal f(digest)'') else Inr ()
    | _ \<Rightarrow> Inr ())"

definition verify_draft_id_null :: "id_rule \<Rightarrow> pystr option \<Rightarrow> (artifact_error, unit) result" where
  "verify_draft_id_null r i =
    (case r of
      DerivedId prefix \<Rightarrow>
        if i \<noteq> None then Inl (ArtifactIntegrityError ''DRAFT artifact must have null id'') else Inr ()
    | _ \<Rightarrow> Inr ())"

definition verify_digest_identity ::
  "registry \<Rightarrow> 'c artifact_class \<Rightarrow> 'c artifact \<Rightarrow> (artifact_error, unit) result" where
  "verify_digest_identity reg cls a =
    (if ar_status a = DRAFT then
       (if ar_canonical_digest a \<noteq> None
        then Inl (ArtifactIntegrityError ''DRAFT artifact must have null canonical_digest'')
        else verify_draft_id_null (acl_id_rule cls) (ar_id a))
     else case ar_canonical_digest a of
       None \<Rightarrow> Inl (ArtifactIntegrityError ''issued artifact requires a concrete canonical_digest'')
     | Some digest \<Rightarrow>
       (case get_scheme reg (ar_canonicalization_version a) of
         Inl e \<Rightarrow> Inl e
       | Inr scheme \<Rightarrow>
         (let expected = scheme (acl_covered cls (ar_content a))
          in if digest \<noteq> expected
             then Inl (ArtifactIntegrityError ''canonical_digest does not match'')
             else case verify_id_binding (acl_id_rule cls) (ar_id a) expected of
               Inl e \<Rightarrow> Inl e
             | Inr _ \<Rightarrow>
               if missing_required_fields cls (ar_content a) \<noteq> []
               then Inl (ArtifactIntegrityError ''issued artifact is missing required fields'')
               else Inr ())))"

definition require_independent_id_when_issued ::
  "'c artifact_class \<Rightarrow> 'c artifact \<Rightarrow> (artifact_error, unit) result" where
  "require_independent_id_when_issued cls a =
    (if acl_id_rule cls = IndependentId \<and> ar_status a \<noteq> DRAFT \<and>
        (ar_id a = None \<or> ar_id a = Some ''TBD'')
     then Inl (ArtifactIntegrityError ''issued artifact requires a concrete id'') else Inr ())"

text \<open>Construction: the validators in the order pydantic runs them.\<close>

definition construct ::
  "registry \<Rightarrow> 'c artifact_class \<Rightarrow> 'c artifact \<Rightarrow> (artifact_error, 'c artifact) result" where
  "construct reg cls a =
    (case verify_digest_identity reg cls a of
      Inl e \<Rightarrow> Inl e
    | Inr _ \<Rightarrow>
      (case require_independent_id_when_issued cls a of Inl e \<Rightarrow> Inl e | Inr _ \<Rightarrow> Inr a))"

text \<open>
  \<^verbatim>\<open>issue\<close>: build a draft, digest its covered content, construct the issued artifact.  The id of
  a derived-id artifact is computed; the others take the given one.
\<close>

definition issue ::
  "registry \<Rightarrow> 'c artifact_class \<Rightarrow> pystr \<Rightarrow> scheme \<Rightarrow> artifact_status \<Rightarrow> 'c \<Rightarrow> pystr option \<Rightarrow>
    (artifact_error, 'c artifact) result" where
  "issue reg cls version s status c i =
    (let given = (case acl_id_rule cls of DerivedId _ \<Rightarrow> None | _ \<Rightarrow> i)
     in case construct reg cls
          \<lparr>ar_content = c, ar_id = given, ar_canonical_digest = None, ar_status = DRAFT,
           ar_canonicalization_version = Some version\<rparr> of
          Inl e \<Rightarrow> Inl e
        | Inr draft \<Rightarrow>
          (let digest = s (acl_covered cls (ar_content draft));
               issued = (case acl_id_rule cls of
                  DerivedId prefix \<Rightarrow> Some (derive_id prefix digest) | _ \<Rightarrow> i)
           in construct reg cls
                \<lparr>ar_content = c, ar_id = issued, ar_canonical_digest = Some digest,
                 ar_status = status, ar_canonicalization_version = Some version\<rparr>))"

lemma construct_issued_iff:
  assumes "ar_status a \<noteq> DRAFT"
  shows "construct reg cls a = Inr b \<longleftrightarrow>
    b = a \<and>
    (\<exists>d v s. ar_canonical_digest a = Some d \<and> ar_canonicalization_version a = Some v \<and>
      reg v = Some s \<and> d = s (acl_covered cls (ar_content a)) \<and>
      (case acl_id_rule cls of
         NoId \<Rightarrow> True
       | DerivedId prefix \<Rightarrow> ar_id a = Some (derive_id prefix d)
       | IndependentId \<Rightarrow> ar_id a \<noteq> None \<and> ar_id a \<noteq> Some ''TBD'')) \<and>
    missing_required_fields cls (ar_content a) = []"
  using assms
  by (auto simp: construct_def verify_digest_identity_def get_scheme_def verify_id_binding_def
      require_independent_id_when_issued_def Let_def
      split: option.splits sum.splits id_rule.splits if_splits)

lemma construct_draft:
  "ar_status a = DRAFT \<Longrightarrow> ar_canonical_digest a = None \<Longrightarrow>
    (case acl_id_rule cls of DerivedId p \<Rightarrow> ar_id a = None | _ \<Rightarrow> True) \<Longrightarrow>
    construct reg cls a = Inr a"
  by (simp add: construct_def verify_digest_identity_def verify_draft_id_null_def
      require_independent_id_when_issued_def split: id_rule.splits)

definition issued_artifact ::
  "'c artifact_class \<Rightarrow> pystr \<Rightarrow> scheme \<Rightarrow> artifact_status \<Rightarrow> 'c \<Rightarrow> pystr option \<Rightarrow> 'c artifact" where
  "issued_artifact cls version s status c i =
    \<lparr>ar_content = c,
     ar_id = (case acl_id_rule cls of
        DerivedId prefix \<Rightarrow> Some (derive_id prefix (s (acl_covered cls c))) | _ \<Rightarrow> i),
     ar_canonical_digest = Some (s (acl_covered cls c)), ar_status = status,
     ar_canonicalization_version = Some version\<rparr>"

lemma issue_construct:
  "issue reg cls version s status c i = construct reg cls (issued_artifact cls version s status c i)"
  unfolding issue_def Let_def issued_artifact_def
  by (subst construct_draft) (simp_all split: id_rule.splits)

text \<open>
  Issuing succeeds exactly when the requested status is not a draft, no required field is
  missing and, for an independent id, a concrete id is given (the version being registered); the
  issued artifact then carries the digest of its covered content and the id its class prescribes,
  and constructing it again from its own fields succeeds.
\<close>

theorem issue_characterised:
  assumes "reg version = Some s"
  shows "case issue reg cls version s status c i of
      Inl e \<Rightarrow> status = DRAFT \<or> missing_required_fields cls c \<noteq> [] \<or>
        acl_id_rule cls = IndependentId \<and> (i = None \<or> i = Some ''TBD'')
    | Inr a \<Rightarrow> status \<noteq> DRAFT \<and> missing_required_fields cls c = [] \<and>
        ar_content a = c \<and> ar_status a = status \<and>
        ar_canonical_digest a = Some (s (acl_covered cls c)) \<and>
        (case acl_id_rule cls of
           NoId \<Rightarrow> ar_id a = i
         | DerivedId prefix \<Rightarrow> ar_id a = Some (derive_id prefix (s (acl_covered cls c)))
         | IndependentId \<Rightarrow> ar_id a = i \<and> i \<noteq> None \<and> i \<noteq> Some ''TBD'') \<and>
        construct reg cls a = Inr a"
proof -
  define a where "a = issued_artifact cls version s status c i"
  have issue: "issue reg cls version s status c i = construct reg cls a"
    unfolding a_def by (rule issue_construct)
  note a_def = a_def[unfolded issued_artifact_def]
  show ?thesis
  proof (cases "status = DRAFT")
    case True
    then have "construct reg cls a =
        Inl (ArtifactIntegrityError ''DRAFT artifact must have null canonical_digest'')"
      by (simp add: construct_def verify_digest_identity_def a_def)
    with issue True show ?thesis by simp
  next
    case False
    then have status: "ar_status a \<noteq> DRAFT" by (simp add: a_def)
    show ?thesis
    proof (cases "construct reg cls a")
      case (Inr b)
      with issue construct_issued_iff[OF status, of reg cls b] False show ?thesis
        by (auto simp: a_def split: id_rule.splits)
    next
      case (Inl e)
      then have "\<not> construct reg cls a = Inr a" by simp
      with issue Inl False assms show ?thesis
        unfolding construct_issued_iff[OF status]
        by (auto simp: a_def split: id_rule.splits)
    qed
  qed
qed

definition demo_class :: "pystr artifact_class" where
  "demo_class =
    \<lparr>acl_id_rule = DerivedId ''dcc'', acl_covered = (\<lambda>c. JObj [(''k'', JStr c)]),
     acl_required = (\<lambda>c. [(''k'', JStr c)])\<rparr>"

theorem issue_characterised_witness:
  "(\<exists>a. issue [''v'' \<mapsto> compute_digest id] demo_class ''v'' (compute_digest id) ISSUED ''x'' None = Inr a \<and>
      ar_id a = Some ''dcc-M{S1:k=S1:x}'') \<and>
   (\<exists>e. issue [''v'' \<mapsto> compute_digest id] demo_class ''v'' (compute_digest id) ISSUED ''TBD'' None = Inl e)"
proof -
  have reg: "[''v'' \<mapsto> compute_digest id] ''v'' = Some (compute_digest id)" by simp
  have digest: "compute_digest id (JObj [(''k'', JStr ''x'')]) = ''M{S1:k=S1:x}''"
    by (simp add: compute_digest_def obj_token_def item_token_def str_token_def nat_str.simps
        digit_char_eval)
  show ?thesis
    using issue_characterised[where reg = "[''v'' \<mapsto> compute_digest id]" and cls = demo_class and
        status = ISSUED and c = "''x''" and i = None, OF reg]
      issue_characterised[where reg = "[''v'' \<mapsto> compute_digest id]" and cls = demo_class and
        status = ISSUED and c = "''TBD''" and i = None, OF reg]
    by (auto simp: demo_class_def missing_required_fields_def derive_id_def digest split: sum.splits)
qed

text \<open>Two strings a digest function does not tell apart.\<close>

definition collision :: "(pystr \<Rightarrow> 'd) \<Rightarrow> pystr \<Rightarrow> pystr \<Rightarrow> bool" where
  "collision H x y = (x \<noteq> y \<and> H x = H y)"

lemma no_collision: "\<not> collision H (encode v) (encode w) \<Longrightarrow> H (encode v) = H (encode w) \<longleftrightarrow> canon v = canon w"
  using encode_eq_iff[of v w] by (auto simp: collision_def)

text \<open>
  C13: a digest stands for one content: of two artifacts of a class that both construct, neither a draft,
  under one version whose scheme applies a digest function H to the canonical encoding, the digests are
  equal exactly when the covered contents agree up to key order and the 28-digit rounding of numbers, or
  the two encodings are different strings on which H collides; under a derived-id class the ids are equal
  exactly then too; and each carries the digest of its own content, whatever digest and id it was
  presented with.  Nothing is assumed of H.
\<close>

theorem digest_binds_content:
  assumes "reg version = Some (compute_digest H)"
    "construct reg cls a = Inr a'" "construct reg cls b = Inr b'"
    "ar_status a \<noteq> DRAFT" "ar_status b \<noteq> DRAFT"
    "ar_canonicalization_version a = Some version" "ar_canonicalization_version b = Some version"
  defines "x \<equiv> acl_covered cls (ar_content a)" and "y \<equiv> acl_covered cls (ar_content b)"
  shows "ar_canonical_digest a' = Some (H (encode x)) \<and> ar_canonical_digest b' = Some (H (encode y)) \<and>
    (ar_canonical_digest a' = ar_canonical_digest b' \<longleftrightarrow> canon x = canon y \<or> collision H (encode x) (encode y)) \<and>
    (\<forall>p. acl_id_rule cls = DerivedId p \<longrightarrow>
      (ar_id a' = ar_id b' \<longleftrightarrow> canon x = canon y \<or> collision H (encode x) (encode y)))"
proof -
  have same: "a' = a" "b' = b" using assms(2,3) by (auto simp: construct_def split: sum.splits option.splits if_splits)
  have digests: "ar_canonical_digest a = Some (H (encode x))" "ar_canonical_digest b = Some (H (encode y))"
    and ids: "\<And>p. acl_id_rule cls = DerivedId p \<Longrightarrow>
      ar_id a = Some (derive_id p (H (encode x))) \<and> ar_id b = Some (derive_id p (H (encode y)))"
    using assms(1,2,3,6,7) unfolding same
    by (auto simp: construct_issued_iff[OF assms(4)] construct_issued_iff[OF assms(5)] compute_digest_def x_def y_def)
  have "H (encode x) = H (encode y) \<longleftrightarrow> canon x = canon y \<or> collision H (encode x) (encode y)"
    using encode_eq_iff[of x y] by (auto simp: collision_def)
  with digests ids show ?thesis by (auto simp: same derive_id_def)
qed

definition demo_hash :: "pystr \<Rightarrow> pystr" where
  "demo_hash s = [if length s < 14 then CHR ''0'' else CHR ''1'']"

definition demo_artifact :: "pystr \<Rightarrow> pystr artifact" where
  "demo_artifact c =
    (let d = compute_digest demo_hash (JObj [(''k'', JStr c)])
     in \<lparr>ar_content = c, ar_id = Some (derive_id ''dcc'' d), ar_canonical_digest = Some d, ar_status = ISSUED,
         ar_canonicalization_version = Some ''v''\<rparr>)"

theorem digest_binds_content_witness:
  "ar_canonical_digest (demo_artifact ''x'') \<noteq> ar_canonical_digest (demo_artifact ''xyz'') \<and>
    ar_id (demo_artifact ''x'') \<noteq> ar_id (demo_artifact ''xyz'') \<and>
    ar_id (demo_artifact ''x'') = ar_id (demo_artifact ''y'') \<and>
    collision demo_hash (encode (JObj [(''k'', JStr ''x'')])) (encode (JObj [(''k'', JStr ''y'')]))"
proof -
  let ?reg = "[''v'' \<mapsto> compute_digest demo_hash]"
  have made: "construct ?reg demo_class (demo_artifact c) = Inr (demo_artifact c)" "ar_status (demo_artifact c) \<noteq> DRAFT"
    "ar_canonicalization_version (demo_artifact c) = Some ''v''" "ar_content (demo_artifact c) = c"
    if "c \<noteq> ''TBD''" "c \<noteq> []" for c
    using that by (simp_all add: demo_artifact_def construct_issued_iff Let_def)
      (simp add: demo_class_def missing_required_fields_def)
  have token: "encode (JObj [(''k'', JStr c)]) = ''M{S1:k='' @ str_token c @ ''}''" for c
    by (simp add: obj_token_def item_token_def str_token_def nat_str.simps digit_char_eval)
  have sizes: "str_token ''x'' = ''S1:x''" "str_token ''y'' = ''S1:y''" "str_token ''xyz'' = ''S3:xyz''"
    by (simp_all add: str_token_def nat_str.simps digit_char_eval flip: numeral_3_eq_3)
  have rule: "acl_id_rule demo_class = DerivedId ''dcc''" "acl_covered demo_class c = JObj [(''k'', JStr c)]" for c
    by (simp_all add: demo_class_def)
  note binds = digest_binds_content[where reg = ?reg and version = "''v''" and H = demo_hash and cls = demo_class,
      OF _ made(1) made(1) made(2) made(2) made(3) made(3)]
  have "collision demo_hash (encode (JObj [(''k'', JStr ''x'')])) (encode (JObj [(''k'', JStr ''y'')]))"
    "\<not> collision demo_hash (encode (JObj [(''k'', JStr ''x'')])) (encode (JObj [(''k'', JStr ''xyz'')]))"
    unfolding collision_def token by (simp_all add: sizes demo_hash_def)
  moreover have "canon (JObj [(''k'', JStr ''x'')]) \<noteq> canon (JObj [(''k'', JStr ''xyz'')])" by simp
  ultimately show ?thesis
    using binds[of "''x''" "''xyz''"] binds[of "''x''" "''y''"] by (auto simp: made(4) rule)
qed

end
