(* ===== verification/Commit_Log.thy ===== *)
theory Commit_Log
  imports Rcl_Guards
begin

text \<open>
  The kernel half of the Safety Commit Log, \<^verbatim>\<open>tos/src/tos/rcl/commitlog.py\<close>: its records, the
  pure fault-contract predicates, and the port itself as a locale.  The locale states what a client
  of the port may rely on; the runtime's log interprets it in the theory \<^verbatim>\<open>Sqlite_Log\<close>.  The
  free-text details of refusals are not modelled.
\<close>

section \<open>Records\<close>

datatype append_refusal_reason =
  STALE_EPOCH | SEQ_MISMATCH | DUPLICATE_COMMAND_ID | COMMAND_BYTES_MISMATCH
| STORE_UNAVAILABLE | PARTIAL_COMMIT_SUSPECTED | INTEGRITY_VIOLATION

record commit_entry =
  ce_seq :: "int option"
  ce_writer_epoch :: "int option"
  ce_command_id :: "pystr option"
  ce_command_digest :: "pystr option"
  ce_kind :: "command_type option"
  ce_payload_digest :: "pystr option"

text \<open>
  What an append returns: a receipt (sequence number, writer epoch), a refusal, or, when the
  injected crash hook fires, no value at all.
\<close>

datatype append_result =
  AppendReceipt int int
| AppendRefusal append_refusal_reason
| AppendCrashed

record log_view =
  lv_epoch :: int
  lv_last_seq :: "int option"
  lv_entries :: "commit_entry list"

record reservation_scope =
  rs_account :: pystr
  rs_instrument :: pystr

record capacity_reservation_transition =
  ct_reservation_id :: "pystr option"
  ct_seq :: "int option"
  ct_writer_epoch :: "int option"
  ct_from_state :: "capacity_state option"
  ct_to_state :: "capacity_state option"
  ct_scope :: "reservation_scope option"
  ct_committed_vector :: "capacity_vector option"

section \<open>Fault-contract predicates\<close>

definition stale_writer_epoch :: "int option \<Rightarrow> int option \<Rightarrow> append_refusal_reason option" where
  "stale_writer_epoch current attempted =
    (if current = None \<or> attempted = None then Some STALE_EPOCH
     else if attempted \<noteq> current then Some STALE_EPOCH else None)"

definition duplicate_command :: "pystr option \<Rightarrow> pystr option \<Rightarrow> append_refusal_reason option" where
  "duplicate_command existing_digest attempted_digest =
    (if existing_digest = None then None
     else if classify_record_pair (Some ''_same_command_id'') existing_digest
            (Some ''_same_command_id'') attempted_digest None None = IDEMPOTENT_DUP
     then Some DUPLICATE_COMMAND_ID else Some COMMAND_BYTES_MISMATCH)"

definition replay_reproduces_state :: "pystr option \<Rightarrow> pystr option \<Rightarrow> append_refusal_reason option" where
  "replay_reproduces_state replayed_digest held_digest =
    (if replayed_digest = None \<or> held_digest = None then Some INTEGRITY_VIOLATION
     else if replayed_digest \<noteq> held_digest then Some INTEGRITY_VIOLATION else None)"

definition witness_required_destinations :: "capacity_state set" where
  "witness_required_destinations = {RELEASED, POSITION_CONSUMED}"

definition release_admissible :: "capacity_reservation_transition \<Rightarrow> bool option \<Rightarrow> bool" where
  "release_admissible t finality_witness =
    (case ct_to_state t of
      None \<Rightarrow> False
    | Some to_state \<Rightarrow>
        if to_state \<notin> witness_required_destinations then True else finality_witness = Some True)"

definition all_causes :: "transition_cause list" where
  "all_causes =
    [STRONGLY_AUTHORIZED_COMMAND, BROKER_EVIDENCE_UNDER_PROFILE, RECONCILIATION_PROOF,
     RECOGNIZED_EXTERNAL_CHANGE, CONTAINMENT, FINAL_QUANTITY_PROOF, TIMEOUT, ABSENCE,
     OPERATOR_ASSUMPTION]"

definition all_states :: "capacity_state list" where
  "all_states =
    [COMMITTED_UNBOUND, ATTEMPT_BOUND, POTENTIALLY_LIVE, PARTIALLY_CONSUMED, POSITION_CONSUMED,
     RELEASE_PENDING_PROOF, QUARANTINED_UNKNOWN, TRAPPED_CONSUMED, RELEASED]"

definition legal_reservation_transitions :: "(capacity_state \<times> capacity_state) list" where
  "legal_reservation_transitions =
    filter (\<lambda>(f, t). list_ex (transition_allowed f t) all_causes) (List.product all_states all_states)"

definition reservation_transition_structurally_legal ::
  "capacity_state option \<Rightarrow> capacity_state option \<Rightarrow> bool" where
  "reservation_transition_structurally_legal from_state to_state =
    (case (from_state, to_state) of
      (Some f, Some t) \<Rightarrow> (f, t) \<in> set legal_reservation_transitions
    | _ \<Rightarrow> False)"

lemmas commit_log_eval [log_defs] =
  stale_writer_epoch_def duplicate_command_def replay_reproduces_state_def
  witness_required_destinations_def release_admissible_def

section \<open>What the predicates decide\<close>

lemma all_causes_complete [simp]: "c \<in> set all_causes"
  by (cases c) (simp_all add: all_causes_def)

lemma all_states_complete [simp]: "s \<in> set all_states"
  by (cases s) (simp_all add: all_states_def)

lemma legal_iff: "(f, t) \<in> set legal_reservation_transitions \<longleftrightarrow> f \<noteq> RELEASED"
proof -
  have "(\<exists>c. transition_allowed f t c) \<longleftrightarrow> f \<noteq> RELEASED"
    by (auto simp: transition_allowed_def weak_causes_def intro: exI[of _ FINAL_QUANTITY_PROOF])
  then show ?thesis by (auto simp: legal_reservation_transitions_def list_ex_iff)
qed

lemma structurally_legal_iff:
  "reservation_transition_structurally_legal f t \<longleftrightarrow>
    f \<noteq> None \<and> t \<noteq> None \<and> f \<noteq> Some RELEASED"
  by (auto simp: reservation_transition_structurally_legal_def legal_iff split: option.splits)

text \<open>
  The derived whitelist has exactly 72 of the 81 pairs of states: a known pair is legal unless
  it leaves the released state.  A destination that ends a reservation or records its consumption
  is admissible only with a witness that is literally true.
\<close>

theorem structural_gates:
  "length legal_reservation_transitions = 72 \<and>
   (reservation_transition_structurally_legal (ct_from_state t) (ct_to_state t) \<longleftrightarrow>
     ct_from_state t \<noteq> None \<and> ct_to_state t \<noteq> None \<and> ct_from_state t \<noteq> Some RELEASED) \<and>
   (release_admissible t w \<longleftrightarrow>
     ct_to_state t \<noteq> None \<and>
     \<not> (ct_to_state t \<in> {Some RELEASED, Some POSITION_CONSUMED} \<and> w \<noteq> Some True))"
proof -
  have "length legal_reservation_transitions = 72"
    by (simp add: legal_reservation_transitions_def all_states_def all_causes_def
        transition_allowed_def weak_causes_def)
  then show ?thesis
    by (auto simp: structurally_legal_iff release_admissible_def witness_required_destinations_def
        split: option.splits)
qed

section \<open>The port\<close>

text \<open>
  The port over an abstract log \<open>'s\<close>: the current epoch, the replayed entries, and the
  compare-and-set append, which also takes the faults \<open>'f\<close> that strike it.  \<open>ok\<close> is the provider's
  invariant.  A receipt means the entry is the new last one; a refusal leaves the entries alone; a
  crash leaves either.
\<close>

definition stamped :: "commit_entry \<Rightarrow> int \<Rightarrow> int \<Rightarrow> commit_entry" where
  "stamped e n w = e\<lparr>ce_seq := Some n, ce_writer_epoch := Some w\<rparr>"

locale commit_log =
  fixes ok :: "'s \<Rightarrow> bool"
    and current_epoch :: "'s \<Rightarrow> int"
    and replay :: "'s \<Rightarrow> commit_entry list"
    and append_cas :: "'f \<Rightarrow> 's \<Rightarrow> commit_entry \<Rightarrow> int \<Rightarrow> int \<Rightarrow> 's \<times> append_result"
  assumes append_ok: "ok s \<Longrightarrow> ok (fst (append_cas f s e k w))"
    and append_epoch: "current_epoch (fst (append_cas f s e k w)) = current_epoch s"
    and append_receipt: "ok s \<Longrightarrow> append_cas f s e k w = (s', AppendReceipt n w') \<Longrightarrow>
      w = current_epoch s \<and> w' = w \<and> k = int (length (replay s)) - 1 \<and> n = k + 1 \<and>
      ce_command_id e \<noteq> None \<and> ce_command_id e \<notin> ce_command_id ` set (replay s) \<and>
      replay s' = replay s @ [stamped e n w]"
    and append_refusal: "ok s \<Longrightarrow> append_cas f s e k w = (s', AppendRefusal r) \<Longrightarrow>
      replay s' = replay s"
    and append_crash: "ok s \<Longrightarrow> append_cas f s e k w = (s', AppendCrashed) \<Longrightarrow>
      replay s' = replay s \<or> (\<exists>n. replay s' = replay s @ [stamped e n w])"
begin

text \<open>Whatever happens, an append only extends the log.\<close>

lemma append_extends: "ok s \<Longrightarrow> \<exists>xs. replay (fst (append_cas f s e k w)) = replay s @ xs"
proof -
  assume ok: "ok s"
  obtain s' r where a: "append_cas f s e k w = (s', r)" by (cases "append_cas f s e k w")
  show ?thesis
  proof (cases r)
    case (AppendReceipt n w')
    with append_receipt[OF ok] a show ?thesis by fastforce
  next
    case (AppendRefusal x)
    with append_refusal[OF ok] a show ?thesis by fastforce
  next
    case AppendCrashed
    with append_crash[OF ok] a show ?thesis by fastforce
  qed
qed

text \<open>One tip, one winner: after a receipt, no longer log gives a receipt for the same tip.\<close>

lemma one_receipt_per_tip:
  assumes "ok s" "append_cas f s e k w = (s', AppendReceipt n w')"
    "ok t" "replay t = replay s' @ xs"
  shows "\<forall>t' n2 w2. append_cas g t e2 k v \<noteq> (t', AppendReceipt n2 w2)"
proof (intro allI notI)
  fix t' n2 w2
  assume "append_cas g t e2 k v = (t', AppendReceipt n2 w2)"
  then have "k = int (length (replay t)) - 1" using append_receipt[OF assms(3)] by blast
  moreover have "k = int (length (replay s)) - 1" "replay s' = replay s @ [stamped e n w]"
    using append_receipt[OF assms(1,2)] by simp_all
  ultimately show False using assms(4) by simp
qed

text \<open>One command identity, one receipt.\<close>

lemma one_receipt_per_command:
  assumes "ok s" "append_cas f s e k w = (s', AppendReceipt n w')"
    "ok t" "replay t = replay s' @ xs" "ce_command_id e2 = ce_command_id e"
  shows "\<forall>t' n2 w2. append_cas g t e2 k2 v \<noteq> (t', AppendReceipt n2 w2)"
proof (intro allI notI)
  fix t' n2 w2
  assume "append_cas g t e2 k2 v = (t', AppendReceipt n2 w2)"
  then have "ce_command_id e2 \<notin> ce_command_id ` set (replay t)"
    using append_receipt[OF assms(3)] by blast
  moreover have "stamped e n w \<in> set (replay t)"
    using append_receipt[OF assms(1,2)] assms(4) by simp
  moreover have "ce_command_id (stamped e n w) = ce_command_id e" by (simp add: stamped_def)
  ultimately show False using assms(5) by (metis image_eqI)
qed

end

text \<open>A log whose writers are fenced by epochs.\<close>

locale fenced_commit_log = commit_log ok current_epoch replay append_cas
  for ok :: "'s \<Rightarrow> bool" and current_epoch :: "'s \<Rightarrow> int"
    and replay :: "'s \<Rightarrow> commit_entry list"
    and append_cas :: "'f \<Rightarrow> 's \<Rightarrow> commit_entry \<Rightarrow> int \<Rightarrow> int \<Rightarrow> 's \<times> append_result" +
  fixes acquire_epoch :: "'i \<Rightarrow> 's \<Rightarrow> 's \<times> int option"
  assumes acquire_ok: "ok s \<Longrightarrow> ok (fst (acquire_epoch i s))"
    and acquire_greater: "ok s \<Longrightarrow> acquire_epoch i s = (s', Some n) \<Longrightarrow>
      current_epoch s < n \<and> current_epoch s' = n"
    and acquire_replay: "replay (fst (acquire_epoch i s)) = replay s"
begin

text \<open>After another writer acquires an epoch, no append under an earlier one is receipted.\<close>

lemma fenced_writer_never_receipted:
  assumes "ok s" "acquire_epoch i s = (s', Some n)" "ok t" "current_epoch s' \<le> current_epoch t"
    "w \<le> current_epoch s"
  shows "\<forall>t' m v. append_cas f t e k w \<noteq> (t', AppendReceipt m v)"
  using append_receipt[OF assms(3)] acquire_greater[OF assms(1,2)] assms(4,5) by fastforce

end

end
