(* ===== verification/Sqlite_Log.thy ===== *)
theory Sqlite_Log
  imports Commit_Log Canonical
begin

text \<open>
  The runtime's Safety Commit Log: \<^verbatim>\<open>tos_runtime/rcl/log.py\<close> with its gates and replay fold in
  \<^verbatim>\<open>gates.py\<close> and its tables in \<^verbatim>\<open>schema.py\<close>.

  The three tables are lists of rows in insertion order (\<open>reservations\<close> is a dictionary by
  reservation id, updated by UPSERT); the evidence store is the list of what the evidence port has
  recorded.  One operation is one transaction: it yields the new tables, or the old ones when it
  rolls back.  What can go wrong around a transaction (SQLite cannot begin it, a statement fails,
  the evidence port raises, the crash hook fires before or after the commit) is an input of the
  operation, a \<open>fault\<close>.

  A stored JSON payload is represented by what reading it back yields: the fields of a transition, or
  another object, or text that is not a JSON object.  pydantic's JSON dump of a vector is a
  parameter.
\<close>

section \<open>Tables\<close>

record epoch_row =
  ep_epoch :: int
  ep_issued_at_monotonic_ns :: int
  ep_runtime_generation :: "int option"
  ep_runtime_identity_json :: pystr

text \<open>
  The payload of a transition as stored; \<open>tp_committed_vector\<close> is \<open>None\<close> when the key is absent
  (a row written before the key existed) and \<open>Some None\<close> when its value is null.
\<close>

record transition_payload =
  tp_reservation_id :: "pystr option"
  tp_from_state :: "capacity_state option"
  tp_to_state :: "capacity_state option"
  tp_cause :: "transition_cause option"
  tp_finality_witness :: "bool option"
  tp_committed_vector :: "capacity_vector option option"
  tp_scope :: "reservation_scope option"

datatype payload =
  TransitionJson transition_payload
| ObjectJson pystr
| TextJson pystr

record entry_row =
  er_seq :: int
  er_writer_epoch :: int
  er_command_id :: pystr
  er_command_digest :: "pystr option"
  er_kind :: "command_type option"
  er_payload_digest :: "pystr option"
  er_payload :: "payload option"
  er_is_reservation_transition :: bool

record reservation_row =
  rr_state :: capacity_state
  rr_last_seq :: int
  rr_scope :: reservation_scope
  rr_committed_vector :: "capacity_vector option"

text \<open>What the evidence port is given for one append, with its kind and record class.\<close>

record rcl_evidence =
  re_seq :: int
  re_writer_epoch :: int
  re_command_id :: pystr
  re_command_digest :: "pystr option"
  re_command_kind :: "command_type option"
  re_evidence_kind :: pystr
  re_record_class :: pystr

record rcl_log =
  rl_epochs :: "epoch_row list"
  rl_entries :: "entry_row list"
  rl_reservations :: "(pystr \<times> reservation_row) list"
  rl_evidence :: "rcl_evidence list"

definition fresh_log :: rcl_log where
  "fresh_log = \<lparr>rl_epochs = [], rl_entries = [], rl_reservations = [], rl_evidence = []\<rparr>"

datatype fault =
  NoFault
| CannotBegin
| InsertFails
| EvidenceFails
| CrashBeforeCommit
| CommitFails
| CrashAfterCommit

section \<open>Writer epochs\<close>

definition current_epoch :: "rcl_log \<Rightarrow> int" where
  "current_epoch l = fold max (map ep_epoch (rl_epochs l)) 0"

definition latest_runtime_generation :: "rcl_log \<Rightarrow> int option" where
  "latest_runtime_generation l =
    (case filter (\<lambda>r. list_all (\<lambda>q. ep_epoch q \<le> ep_epoch r) (rl_epochs l)) (rl_epochs l) of
      [] \<Rightarrow> None | r # _ \<Rightarrow> ep_runtime_generation r)"

record acquisition =
  aq_identity_json :: pystr
  aq_runtime_generation :: "int option"
  aq_now_ns :: int
  aq_fails :: bool

text \<open>\<open>None\<close>: the statement failed and the error propagates after the rollback.\<close>

definition acquire_epoch :: "acquisition \<Rightarrow> rcl_log \<Rightarrow> rcl_log \<times> int option" where
  "acquire_epoch q l =
    (if aq_fails q then (l, None)
     else let new_epoch = current_epoch l + 1
          in (l\<lparr>rl_epochs := rl_epochs l @
                [\<lparr>ep_epoch = new_epoch, ep_issued_at_monotonic_ns = aq_now_ns q,
                  ep_runtime_generation = aq_runtime_generation q,
                  ep_runtime_identity_json = aq_identity_json q\<rparr>]\<rparr>,
              Some new_epoch))"

section \<open>Pre-insert gates\<close>

definition current_seq_tip :: "rcl_log \<Rightarrow> int" where
  "current_seq_tip l = fold max (map er_seq (rl_entries l)) (- 1)"

definition existing_command_row :: "rcl_log \<Rightarrow> pystr \<Rightarrow> bool \<times> pystr option" where
  "existing_command_row l command_id =
    (case find (\<lambda>r. er_command_id r = command_id) (rl_entries l) of
      None \<Rightarrow> (False, None)
    | Some r \<Rightarrow> (True, er_command_digest r))"

definition classify_duplicate_command ::
  "bool \<Rightarrow> pystr option \<Rightarrow> pystr option \<Rightarrow> append_refusal_reason option" where
  "classify_duplicate_command row_exists existing_digest attempted_digest =
    (if \<not> row_exists then None
     else if existing_digest = None \<and> attempted_digest = None then Some DUPLICATE_COMMAND_ID
     else if existing_digest = None \<or> attempted_digest = None then Some COMMAND_BYTES_MISMATCH
     else duplicate_command existing_digest attempted_digest)"

definition initial_reservation_states :: "capacity_state set" where
  "initial_reservation_states = {COMMITTED_UNBOUND}"

definition check_reservation_from_state ::
  "rcl_log \<Rightarrow> pystr \<Rightarrow> capacity_state \<Rightarrow> append_refusal_reason option" where
  "check_reservation_from_state l reservation_id claimed_from_state =
    (case map_of (rl_reservations l) reservation_id of
      None \<Rightarrow>
        if claimed_from_state \<in> initial_reservation_states then None else Some INTEGRITY_VIOLATION
    | Some row \<Rightarrow>
        if rr_state row \<noteq> claimed_from_state then Some INTEGRITY_VIOLATION else None)"

text \<open>\<^verbatim>\<open>_ReservationUpdate\<close>.\<close>

record reservation_update =
  ru_reservation_id :: pystr
  ru_claimed_from_state :: capacity_state
  ru_to_state :: capacity_state
  ru_scope :: reservation_scope
  ru_committed_vector :: "capacity_vector option"

definition pre_insert_checks ::
  "rcl_log \<Rightarrow> int \<Rightarrow> int \<Rightarrow> pystr \<Rightarrow> pystr option \<Rightarrow> reservation_update option \<Rightarrow>
    append_refusal_reason option" where
  "pre_insert_checks l writer_epoch expected_seq command_id command_digest update =
    (case stale_writer_epoch (Some (current_epoch l)) (Some writer_epoch) of
      Some r \<Rightarrow> Some r
    | None \<Rightarrow>
      if expected_seq \<noteq> current_seq_tip l then Some SEQ_MISMATCH
      else case classify_duplicate_command (fst (existing_command_row l command_id))
                  (snd (existing_command_row l command_id)) command_digest of
        Some r \<Rightarrow> Some r
      | None \<Rightarrow>
        (case update of
          None \<Rightarrow> None
        | Some u \<Rightarrow> check_reservation_from_state l (ru_reservation_id u) (ru_claimed_from_state u)))"

section \<open>Appending\<close>

definition upsert_reservation_projection ::
  "int \<Rightarrow> reservation_update option \<Rightarrow> (pystr \<times> reservation_row) list \<Rightarrow>
    (pystr \<times> reservation_row) list" where
  "upsert_reservation_projection next_seq update rows =
    (case update of
      None \<Rightarrow> rows
    | Some u \<Rightarrow>
        dict_put (ru_reservation_id u)
          \<lparr>rr_state = ru_to_state u, rr_last_seq = next_seq, rr_scope = ru_scope u,
           rr_committed_vector =
             (case ru_committed_vector u of
               Some v \<Rightarrow> Some v
             | None \<Rightarrow>
               (case map_of rows (ru_reservation_id u) of
                 None \<Rightarrow> None | Some row \<Rightarrow> rr_committed_vector row))\<rparr> rows)"

record append_request =
  ap_expected_seq :: int
  ap_writer_epoch :: int
  ap_command_id :: pystr
  ap_command_digest :: "pystr option"
  ap_kind :: "command_type option"
  ap_payload_digest :: "pystr option"
  ap_payload :: "payload option"
  ap_evidence_kind :: pystr
  ap_evidence_record_class :: pystr
  ap_update :: "reservation_update option"

definition insert_entry_and_reservation :: "rcl_log \<Rightarrow> int \<Rightarrow> append_request \<Rightarrow> rcl_log" where
  "insert_entry_and_reservation l next_seq r =
    l\<lparr>rl_entries := rl_entries l @
        [\<lparr>er_seq = next_seq, er_writer_epoch = ap_writer_epoch r,
          er_command_id = ap_command_id r, er_command_digest = ap_command_digest r,
          er_kind = ap_kind r, er_payload_digest = ap_payload_digest r,
          er_payload = ap_payload r,
          er_is_reservation_transition = (ap_update r \<noteq> None)\<rparr>],
      rl_reservations := upsert_reservation_projection next_seq (ap_update r) (rl_reservations l)\<rparr>"

definition evidence_of :: "int \<Rightarrow> append_request \<Rightarrow> rcl_evidence" where
  "evidence_of next_seq r =
    \<lparr>re_seq = next_seq, re_writer_epoch = ap_writer_epoch r, re_command_id = ap_command_id r,
     re_command_digest = ap_command_digest r, re_command_kind = ap_kind r,
     re_evidence_kind = ap_evidence_kind r, re_record_class = ap_evidence_record_class r\<rparr>"

text \<open>
  The whole durable append.  The evidence lives in another file: a rollback after it was recorded
  restores the log's tables but not the evidence.
\<close>

definition commit_entry_row :: "fault \<Rightarrow> rcl_log \<Rightarrow> append_request \<Rightarrow> rcl_log \<times> append_result" where
  "commit_entry_row f l r =
    (if f = CannotBegin then (l, AppendRefusal STORE_UNAVAILABLE)
     else case pre_insert_checks l (ap_writer_epoch r) (ap_expected_seq r) (ap_command_id r)
                 (ap_command_digest r) (ap_update r) of
       Some reason \<Rightarrow> (l, AppendRefusal reason)
     | None \<Rightarrow>
       if f = InsertFails then (l, AppendRefusal PARTIAL_COMMIT_SUSPECTED)
       else let next_seq = current_seq_tip l + 1;
                inserted = insert_entry_and_reservation l next_seq r
            in if f = EvidenceFails then (l, AppendRefusal STORE_UNAVAILABLE)
               else let evidence = rl_evidence l @ [evidence_of next_seq r]
                    in if f = CrashBeforeCommit then (l\<lparr>rl_evidence := evidence\<rparr>, AppendCrashed)
                       else if f = CommitFails
                         then (l\<lparr>rl_evidence := evidence\<rparr>, AppendRefusal PARTIAL_COMMIT_SUSPECTED)
                       else if f = CrashAfterCommit
                         then (inserted\<lparr>rl_evidence := evidence\<rparr>, AppendCrashed)
                       else (inserted\<lparr>rl_evidence := evidence\<rparr>,
                             AppendReceipt next_seq (ap_writer_epoch r)))"

definition append_cas ::
  "fault \<times> payload option \<Rightarrow> rcl_log \<Rightarrow> commit_entry \<Rightarrow> int \<Rightarrow> int \<Rightarrow> rcl_log \<times> append_result" where
  "append_cas fp l entry expected_seq writer_epoch =
    (case ce_command_id entry of
      None \<Rightarrow> (l, AppendRefusal COMMAND_BYTES_MISMATCH)
    | Some command_id \<Rightarrow>
        commit_entry_row (fst fp) l
          \<lparr>ap_expected_seq = expected_seq, ap_writer_epoch = writer_epoch,
           ap_command_id = command_id, ap_command_digest = ce_command_digest entry,
           ap_kind = ce_kind entry, ap_payload_digest = ce_payload_digest entry,
           ap_payload = snd fp, ap_evidence_kind = ''RCL_APPEND'',
           ap_evidence_record_class = ''RCL_ENTRY'', ap_update = None\<rparr>)"

section \<open>Reservation transitions\<close>

datatype reservation_refusal_reason =
  NOT_STRUCTURALLY_LEGAL | CAUSE_NOT_ADMISSIBLE | FINALITY_WITNESS_REQUIRED

definition reservation_lifecycle_refusal ::
  "capacity_reservation_transition \<Rightarrow> transition_cause \<Rightarrow> bool option \<Rightarrow>
    reservation_refusal_reason option" where
  "reservation_lifecycle_refusal t cause finality_witness =
    (if \<not> reservation_transition_structurally_legal (ct_from_state t) (ct_to_state t)
     then Some NOT_STRUCTURALLY_LEGAL
     else if (case (ct_from_state t, ct_to_state t) of
                (Some from_state, Some to_state) \<Rightarrow> \<not> transition_allowed from_state to_state cause
              | _ \<Rightarrow> True)
     then Some CAUSE_NOT_ADMISSIBLE
     else if \<not> release_admissible t finality_witness then Some FINALITY_WITNESS_REQUIRED
     else None)"

definition reservation_transition_payload ::
  "capacity_reservation_transition \<Rightarrow> transition_cause \<Rightarrow> bool option \<Rightarrow> payload" where
  "reservation_transition_payload t cause finality_witness =
    TransitionJson
      \<lparr>tp_reservation_id = ct_reservation_id t, tp_from_state = ct_from_state t,
       tp_to_state = ct_to_state t, tp_cause = Some cause,
       tp_finality_witness = finality_witness,
       tp_committed_vector = Some (ct_committed_vector t), tp_scope = ct_scope t\<rparr>"

record transition_request =
  tr_transition :: capacity_reservation_transition
  tr_cause :: transition_cause
  tr_command_type :: command_type
  tr_command_id :: pystr
  tr_command_digest :: "pystr option"
  tr_expected_seq :: int
  tr_finality_witness :: "bool option"

text \<open>\<open>Inl\<close>: the exception of a lifecycle gate; \<open>Inr\<close>: what the append returned.\<close>

definition apply_reservation_transition ::
  "fault \<Rightarrow> rcl_log \<Rightarrow> transition_request \<Rightarrow>
    rcl_log \<times> (reservation_refusal_reason, append_result) result" where
  "apply_reservation_transition f l q =
    (let t = tr_transition q
     in case reservation_lifecycle_refusal t (tr_cause q) (tr_finality_witness q) of
       Some reason \<Rightarrow> (l, Inl reason)
     | None \<Rightarrow>
       (case (ct_reservation_id t, ct_writer_epoch t, ct_scope t, ct_from_state t, ct_to_state t) of
         (Some reservation_id, Some writer_epoch, Some scope, Some from_state, Some to_state) \<Rightarrow>
           map_prod id Inr
            (commit_entry_row f l
              \<lparr>ap_expected_seq = tr_expected_seq q, ap_writer_epoch = writer_epoch,
               ap_command_id = tr_command_id q, ap_command_digest = tr_command_digest q,
               ap_kind = Some (tr_command_type q), ap_payload_digest = None,
               ap_payload =
                 Some (reservation_transition_payload t (tr_cause q) (tr_finality_witness q)),
               ap_evidence_kind = ''RCL_RESERVATION_TRANSITION'',
               ap_evidence_record_class = ''RCL_RESERVATION'',
               ap_update =
                 Some \<lparr>ru_reservation_id = reservation_id, ru_claimed_from_state = from_state,
                       ru_to_state = to_state, ru_scope = scope,
                       ru_committed_vector = ct_committed_vector t\<rparr>\<rparr>)
       | _ \<Rightarrow> (l, Inr (AppendRefusal COMMAND_BYTES_MISMATCH))))"

section \<open>Reads\<close>

definition row_to_commit_entry :: "entry_row \<Rightarrow> commit_entry" where
  "row_to_commit_entry r =
    \<lparr>ce_seq = Some (er_seq r), ce_writer_epoch = Some (er_writer_epoch r),
     ce_command_id = Some (er_command_id r), ce_command_digest = er_command_digest r,
     ce_kind = er_kind r, ce_payload_digest = er_payload_digest r\<rparr>"

definition replay :: "rcl_log \<Rightarrow> commit_entry list" where
  "replay l = map row_to_commit_entry (rl_entries l)"

definition read_linearizable :: "rcl_log \<Rightarrow> int \<Rightarrow> (append_refusal_reason, log_view) result" where
  "read_linearizable l writer_epoch =
    (case stale_writer_epoch (Some (current_epoch l)) (Some writer_epoch) of
      Some r \<Rightarrow> Inl r
    | None \<Rightarrow> Inr
        \<lparr>lv_epoch = current_epoch l,
         lv_last_seq = (if current_seq_tip l < 0 then None else Some (current_seq_tip l)),
         lv_entries = replay l\<rparr>)"

definition committed_command :: "rcl_log \<Rightarrow> pystr \<Rightarrow> (int \<times> pystr option) option" where
  "committed_command l command_id =
    map_option (\<lambda>r. (er_seq r, er_command_digest r))
      (find (\<lambda>r. er_command_id r = command_id) (rl_entries l))"

definition command_committed :: "rcl_log \<Rightarrow> pystr \<Rightarrow> bool" where
  "command_committed l command_id = fst (existing_command_row l command_id)"

text \<open>\<^verbatim>\<open>SELECT ... ORDER BY reservation_id ASC\<close>.\<close>

definition reservation_rows ::
  "rcl_log \<Rightarrow> (pystr \<times> capacity_state \<times> int \<times> reservation_scope) list" where
  "reservation_rows l =
    map (\<lambda>(i, r). (i, rr_state r, rr_last_seq r, rr_scope r)) (sort_key fst (rl_reservations l))"

definition reservation_committed_vector :: "rcl_log \<Rightarrow> pystr \<Rightarrow> capacity_vector option" where
  "reservation_committed_vector l reservation_id =
    (case map_of (rl_reservations l) reservation_id of
      None \<Rightarrow> None | Some r \<Rightarrow> rr_committed_vector r)"

section \<open>Replay\<close>

text \<open>Re-validating a dumped vector normalises its magnitudes.\<close>

definition normalized_vector :: "capacity_vector \<Rightarrow> capacity_vector" where
  "normalized_vector v =
    CapacityVector
      (map (\<lambda>c. c\<lparr>cc_magnitude := map_option normalize_decimal (cc_magnitude c)\<rparr>) (components v))"

datatype vector_view = NoVector | RecordedVector capacity_vector | UnrecordedVector

record reservation_view =
  rv_state :: capacity_state
  rv_scope :: reservation_scope
  rv_vector :: vector_view

text \<open>
  One step of the fold.  A payload without reservation id, destination or scope is left out.
\<close>

definition fold_step ::
  "transition_payload \<Rightarrow> (pystr \<times> reservation_view) list \<Rightarrow> (pystr \<times> reservation_view) list" where
  "fold_step p folded =
    (case (tp_reservation_id p, tp_to_state p, tp_scope p) of
      (Some reservation_id, Some to_state, Some scope) \<Rightarrow>
        (let vector =
              (case tp_committed_vector p of
                None \<Rightarrow> UnrecordedVector
              | Some None \<Rightarrow>
                  (case map_of folded reservation_id of
                    None \<Rightarrow> NoVector | Some prior \<Rightarrow> rv_vector prior)
              | Some (Some v) \<Rightarrow> RecordedVector (normalized_vector v))
         in dict_put reservation_id
              \<lparr>rv_state = to_state, rv_scope = scope, rv_vector = vector\<rparr> folded)
    | _ \<Rightarrow> folded)"

text \<open>\<open>None\<close>: reading a payload raised (it is missing, or is not a JSON object).\<close>

fun fold_payloads ::
  "(pystr \<times> reservation_view) list \<Rightarrow> payload option list \<Rightarrow> (pystr \<times> reservation_view) list option" where
  "fold_payloads folded [] = Some folded"
| "fold_payloads folded (Some (TransitionJson p) # ps) = fold_payloads (fold_step p folded) ps"
| "fold_payloads folded (Some (ObjectJson s) # ps) = fold_payloads folded ps"
| "fold_payloads folded (Some (TextJson s) # ps) = None"
| "fold_payloads folded (None # ps) = None"

definition fold_reservations_from_entries ::
  "rcl_log \<Rightarrow> (pystr \<times> reservation_view) list option" where
  "fold_reservations_from_entries l =
    fold_payloads [] (map er_payload (filter er_is_reservation_transition (rl_entries l)))"

definition view_of_row :: "reservation_row \<Rightarrow> reservation_view" where
  "view_of_row r =
    \<lparr>rv_state = rr_state r, rv_scope = rr_scope r,
     rv_vector =
       (case rr_committed_vector r of
         None \<Rightarrow> NoVector | Some v \<Rightarrow> RecordedVector (normalized_vector v))\<rparr>"

definition held_reservation_map :: "rcl_log \<Rightarrow> (pystr \<times> reservation_view) list" where
  "held_reservation_map l = map (map_prod id view_of_row) (rl_reservations l)"

definition align_unrecorded_vectors ::
  "(pystr \<times> reservation_view) list \<Rightarrow> (pystr \<times> reservation_view) list \<Rightarrow>
    (pystr \<times> reservation_view) list" where
  "align_unrecorded_vectors held replayed =
    map (\<lambda>(i, v).
      (case map_of replayed i of
        Some w \<Rightarrow> if rv_vector w = UnrecordedVector then (i, v\<lparr>rv_vector := UnrecordedVector\<rparr>) else (i, v)
      | None \<Rightarrow> (i, v))) held"

definition unrecorded_vector :: pystr where
  "unrecorded_vector = ''UNRECORDED_BEFORE_B1''"

definition view_json :: "(capacity_vector \<Rightarrow> pystr) \<Rightarrow> reservation_view \<Rightarrow> json" where
  "view_json dump v =
    JObj
      [(''committed_vector'',
         (case rv_vector v of
           NoVector \<Rightarrow> JNull
         | RecordedVector c \<Rightarrow> JStr (dump c)
         | UnrecordedVector \<Rightarrow> JStr unrecorded_vector)),
       (''scope_account'', JStr (rs_account (rv_scope v))),
       (''scope_instrument'', JStr (rs_instrument (rv_scope v))),
       (''state'', JStr (capacity_state_value (rv_state v)))]"

definition digest_of_reservation_map ::
  "scheme \<Rightarrow> (capacity_vector \<Rightarrow> pystr) \<Rightarrow> (pystr \<times> reservation_view) list \<Rightarrow> pystr" where
  "digest_of_reservation_map s dump m =
    s (JObj [(''reservations'', JObj (map (map_prod id (view_json dump)) (sort_key fst m)))])"

datatype replay_error = CommitLogCorruption append_refusal_reason | UnreadablePayload

definition verify_replay ::
  "scheme \<Rightarrow> (capacity_vector \<Rightarrow> pystr) \<Rightarrow> rcl_log \<Rightarrow> (replay_error, unit) result" where
  "verify_replay s dump l =
    (case fold_reservations_from_entries l of
      None \<Rightarrow> Inl UnreadablePayload
    | Some replayed \<Rightarrow>
      (let held = align_unrecorded_vectors (held_reservation_map l) replayed
       in case replay_reproduces_state (Some (digest_of_reservation_map s dump replayed))
                 (Some (digest_of_reservation_map s dump held)) of
            Some r \<Rightarrow> Inl (CommitLogCorruption r)
          | None \<Rightarrow> Inr ()))"

section \<open>The transition history\<close>

record transition_record =
  th_seq :: int
  th_command_id :: pystr
  th_kind :: command_type
  th_reservation_id :: pystr
  th_from_state :: capacity_state
  th_to_state :: capacity_state
  th_scope :: reservation_scope
  th_cause :: transition_cause
  th_finality_witness :: "bool option"

record transition_history =
  hy_writer_epoch :: int
  hy_last_seq :: "int option"
  hy_transitions :: "transition_record list"

datatype history_error = StaleEpochRead append_refusal_reason | ReplayError replay_error | HistoryCorruption

text \<open>The strict decoding of one discriminated row; \<open>None\<close> is the corruption error.\<close>

definition transition_record_from_row :: "entry_row \<Rightarrow> transition_record option" where
  "transition_record_from_row r =
    (if er_seq r < 0 \<or> er_command_id r = [] then None
     else case (er_kind r, er_payload r) of
       (Some kind, Some (TransitionJson p)) \<Rightarrow>
         (case (tp_reservation_id p, tp_scope p, tp_from_state p, tp_to_state p, tp_cause p) of
           (Some i, Some sc, Some from_state, Some to_state, Some cause) \<Rightarrow>
             if i = [] then None
             else if rs_account sc = [] \<or> rs_instrument sc = [] then None
             else Some \<lparr>th_seq = er_seq r, th_command_id = er_command_id r, th_kind = kind,
                        th_reservation_id = i, th_from_state = from_state, th_to_state = to_state,
                        th_scope = sc, th_cause = cause,
                        th_finality_witness = tp_finality_witness p\<rparr>
         | _ \<Rightarrow> None)
     | _ \<Rightarrow> None)"

definition reservation_transition_history ::
  "scheme \<Rightarrow> (capacity_vector \<Rightarrow> pystr) \<Rightarrow> rcl_log \<Rightarrow> int \<Rightarrow>
    (history_error, transition_history) result" where
  "reservation_transition_history s dump l writer_epoch =
    (case stale_writer_epoch (Some (current_epoch l)) (Some writer_epoch) of
      Some r \<Rightarrow> Inl (StaleEpochRead r)
    | None \<Rightarrow>
      (case verify_replay s dump l of
        Inl e \<Rightarrow> Inl (ReplayError e)
      | Inr _ \<Rightarrow>
        (let tip = current_seq_tip l;
             rows = filter (\<lambda>r. er_is_reservation_transition r \<and> er_seq r \<le> tip) (rl_entries l)
         in case those (map transition_record_from_row rows) of
              None \<Rightarrow> Inl HistoryCorruption
            | Some records \<Rightarrow> Inr
                \<lparr>hy_writer_epoch = current_epoch l,
                 hy_last_seq = (if tip < 0 then None else Some tip),
                 hy_transitions = records\<rparr>)))"

section \<open>The approval-only gap\<close>

text \<open>The rows after the last one a proof covers, if all of them are approval consumptions.\<close>

definition approval_row_ok :: "int \<Rightarrow> int \<Rightarrow> entry_row \<Rightarrow> bool" where
  "approval_row_ok current expected r =
    (er_seq r = expected \<and> er_writer_epoch r = current \<and> er_command_id r \<noteq> [] \<and>
     er_kind r = Some CONSUME_APPROVAL_DECISION \<and>
     (case er_payload r of Some (TransitionJson _) \<Rightarrow> True | Some (ObjectJson _) \<Rightarrow> True | _ \<Rightarrow> False) \<and>
     \<not> er_is_reservation_transition r)"

definition read_approval_only_gap :: "rcl_log \<Rightarrow> int \<Rightarrow> int option \<Rightarrow> log_view option" where
  "read_approval_only_gap l writer_epoch proof_last_seq =
    (if writer_epoch \<le> 0 then None
     else if (case proof_last_seq of None \<Rightarrow> False | Some n \<Rightarrow> n < 0) then None
     else let start = (case proof_last_seq of None \<Rightarrow> - 1 | Some n \<Rightarrow> n);
              current = current_epoch l; tip = current_seq_tip l;
              rows = filter (\<lambda>r. start < er_seq r) (rl_entries l)
          in if current \<noteq> writer_epoch \<or> tip < start then None
             else if int (length rows) \<noteq> tip - start then None
             else if list_all2 (approval_row_ok current) [start + 1..start + int (length rows)] rows
             then Some \<lparr>lv_epoch = current,
                        lv_last_seq = (if tip < 0 then None else Some tip), lv_entries = []\<rparr>
             else None)"

section \<open>The projection reader\<close>

record scope_reservation =
  sr_reservation_id :: pystr
  sr_state :: capacity_state
  sr_last_seq :: int

definition outstanding :: "scope_reservation \<Rightarrow> bool" where
  "outstanding r = (sr_state r \<noteq> RELEASED)"

definition outstanding_reservations :: "scope_reservation list \<Rightarrow> scope_reservation list" where
  "outstanding_reservations rows = filter outstanding rows"

definition reservation_state :: "rcl_log \<Rightarrow> pystr \<Rightarrow> capacity_state option" where
  "reservation_state l i =
    map_option (\<lambda>(_, s, _, _). s) (find (\<lambda>(j, _, _, _). j = i) (reservation_rows l))"

definition reservation_last_seq :: "rcl_log \<Rightarrow> pystr \<Rightarrow> int option" where
  "reservation_last_seq l i =
    map_option (\<lambda>(_, _, n, _). n) (find (\<lambda>(j, _, _, _). j = i) (reservation_rows l))"

definition all_reservations :: "rcl_log \<Rightarrow> (pystr \<times> capacity_state) list" where
  "all_reservations l = map (\<lambda>(i, s, _, _). (i, s)) (reservation_rows l)"

definition scope_reservations :: "rcl_log \<Rightarrow> pystr \<Rightarrow> pystr \<Rightarrow> scope_reservation list" where
  "scope_reservations l account instrument =
    map (\<lambda>(i, s, n, _). \<lparr>sr_reservation_id = i, sr_state = s, sr_last_seq = n\<rparr>)
      (filter (\<lambda>(_, _, _, sc). rs_account sc = account \<and> rs_instrument sc = instrument)
        (reservation_rows l))"

section \<open>One transaction\<close>

lemma commit_entry_row_cases [consumes 1, case_names rolled_back committed]:
  assumes "commit_entry_row f l r = (l', res)"
  obtains
    (rolled_back) xs where "l' = l\<lparr>rl_evidence := rl_evidence l @ xs\<rparr>" "\<forall>n w. res \<noteq> AppendReceipt n w"
  | (committed) "pre_insert_checks l (ap_writer_epoch r) (ap_expected_seq r) (ap_command_id r)
        (ap_command_digest r) (ap_update r) = None"
      "l' = (insert_entry_and_reservation l (current_seq_tip l + 1) r)
        \<lparr>rl_evidence := rl_evidence l @ [evidence_of (current_seq_tip l + 1) r]\<rparr>"
      "res = AppendReceipt (current_seq_tip l + 1) (ap_writer_epoch r) \<or> res = AppendCrashed"
proof -
  have same: "l = l\<lparr>rl_evidence := rl_evidence l @ []\<rparr>" by simp
  show thesis
    using assms rolled_back[of "[]"] rolled_back[of "[evidence_of (current_seq_tip l + 1) r]"] committed
    by (auto simp: commit_entry_row_def Let_def split: option.splits if_splits)
qed

lemma pre_insert_checks_None:
  assumes "pre_insert_checks l w k i d u = None"
  shows "w = current_epoch l" "k = current_seq_tip l" "i \<notin> er_command_id ` set (rl_entries l)"
    "u = Some x \<Longrightarrow> (case map_of (rl_reservations l) (ru_reservation_id x) of
        None \<Rightarrow> ru_claimed_from_state x = COMMITTED_UNBOUND
      | Some row \<Rightarrow> rr_state row = ru_claimed_from_state x)"
proof -
  have stale: "stale_writer_epoch (Some (current_epoch l)) (Some w) = None"
    and seq: "k = current_seq_tip l"
    and dup: "classify_duplicate_command (fst (existing_command_row l i)) (snd (existing_command_row l i)) d = None"
    and upd: "\<And>x. u = Some x \<Longrightarrow>
      check_reservation_from_state l (ru_reservation_id x) (ru_claimed_from_state x) = None"
    using assms by (auto simp: pre_insert_checks_def split: option.splits if_splits)
  show "w = current_epoch l" using stale by (simp add: stale_writer_epoch_def split: if_splits)
  show "k = current_seq_tip l" by (rule seq)
  have "\<not> fst (existing_command_row l i)"
    using dup by (auto simp: classify_duplicate_command_def duplicate_command_def split: if_splits)
  then show "i \<notin> er_command_id ` set (rl_entries l)"
    by (auto simp: existing_command_row_def find_None_iff split: option.splits)
  show "u = Some x \<Longrightarrow> (case map_of (rl_reservations l) (ru_reservation_id x) of
        None \<Rightarrow> ru_claimed_from_state x = COMMITTED_UNBOUND
      | Some row \<Rightarrow> rr_state row = ru_claimed_from_state x)"
    using upd[of x]
    by (auto simp: check_reservation_from_state_def initial_reservation_states_def
        split: option.splits if_splits)
qed

section \<open>Operations and runs\<close>

datatype log_op =
  AcquireOp acquisition
| AppendOp fault "payload option" commit_entry int int
| TransitionOp fault transition_request

primrec log_step :: "rcl_log \<Rightarrow> log_op \<Rightarrow> rcl_log" where
  "log_step l (AcquireOp q) = fst (acquire_epoch q l)"
| "log_step l (AppendOp f p e k w) = fst (append_cas (f, p) l e k w)"
| "log_step l (TransitionOp f q) = fst (apply_reservation_transition f l q)"

definition log_run :: "rcl_log \<Rightarrow> log_op list \<Rightarrow> rcl_log" where
  "log_run l ops = foldl log_step l ops"

lemma log_run_Nil [simp]: "log_run l [] = l"
  by (simp add: log_run_def)

lemma log_run_Cons [simp]: "log_run l (p # ops) = log_run (log_step l p) ops"
  by (simp add: log_run_def)

lemma log_run_append: "log_run l (ops @ ps) = log_run (log_run l ops) ps"
  by (simp add: log_run_def)

text \<open>
  The reservation update a request carries is the one its stored payload describes, and the kind of
  evidence is the one of its operation.
\<close>

definition request_ok :: "append_request \<Rightarrow> bool" where
  "request_ok r =
    (ap_evidence_kind r =
       (if ap_update r = None then ''RCL_APPEND'' else ''RCL_RESERVATION_TRANSITION'') \<and>
     (case ap_update r of
      None \<Rightarrow> True
    | Some u \<Rightarrow> ap_kind r \<noteq> None \<and>
      (\<exists>cause w. ap_payload r = Some (TransitionJson
          \<lparr>tp_reservation_id = Some (ru_reservation_id u),
           tp_from_state = Some (ru_claimed_from_state u), tp_to_state = Some (ru_to_state u),
           tp_cause = Some cause, tp_finality_witness = w,
           tp_committed_vector = Some (ru_committed_vector u), tp_scope = Some (ru_scope u)\<rparr>) \<and>
        transition_allowed (ru_claimed_from_state u) (ru_to_state u) cause \<and>
        (ru_to_state u \<in> {RELEASED, POSITION_CONSUMED} \<longrightarrow> w = Some True))))"

lemma lifecycle_admits:
  assumes "reservation_lifecycle_refusal t cause w = None"
  obtains f g where "ct_from_state t = Some f" "ct_to_state t = Some g" "transition_allowed f g cause"
    "g \<in> {RELEASED, POSITION_CONSUMED} \<longrightarrow> w = Some True" "f \<noteq> RELEASED"
  using assms
  by (auto simp: reservation_lifecycle_refusal_def structurally_legal_iff release_admissible_def
      witness_required_destinations_def split: option.splits if_splits)

text \<open>Every step is an acquisition, or a transaction for a well-formed request, or nothing.\<close>

lemma log_step_cases [case_names nothing acquired transaction]:
  obtains
    (nothing) "log_step l p = l"
  | (acquired) q where "p = AcquireOp q" "\<not> aq_fails q"
      "rl_epochs (log_step l p) = rl_epochs l @
        [\<lparr>ep_epoch = current_epoch l + 1, ep_issued_at_monotonic_ns = aq_now_ns q,
          ep_runtime_generation = aq_runtime_generation q,
          ep_runtime_identity_json = aq_identity_json q\<rparr>]"
      "rl_entries (log_step l p) = rl_entries l" "rl_reservations (log_step l p) = rl_reservations l"
      "rl_evidence (log_step l p) = rl_evidence l"
  | (transaction) f r where "log_step l p = fst (commit_entry_row f l r)" "request_ok r"
proof (cases p)
  case (AcquireOp q)
  show thesis
  proof (cases "aq_fails q")
    case True
    have "log_step l p = l" using True AcquireOp by (simp add: acquire_epoch_def)
    then show thesis by (rule nothing)
  next
    case False
    show thesis by (rule acquired[OF AcquireOp False]) (simp_all add: AcquireOp acquire_epoch_def Let_def False)
  qed
next
  case (AppendOp f y e k w)
  show thesis
  proof (cases "ce_command_id e")
    case None
    have "log_step l p = l" by (simp add: AppendOp append_cas_def None)
    then show thesis by (rule nothing)
  next
    case (Some i)
    show thesis
      by (rule transaction, unfold AppendOp log_step.simps append_cas_def Some option.case prod.sel,
          rule refl, simp add: request_ok_def)
  qed
next
  case (TransitionOp f q)
  show thesis
  proof (cases "reservation_lifecycle_refusal (tr_transition q) (tr_cause q) (tr_finality_witness q)")
    case (Some x)
    have "log_step l p = l" by (simp add: TransitionOp apply_reservation_transition_def Let_def Some)
    then show thesis by (rule nothing)
  next
    case None
    then obtain a b where ab: "ct_from_state (tr_transition q) = Some a" "ct_to_state (tr_transition q) = Some b"
      "transition_allowed a b (tr_cause q)"
      "b \<in> {RELEASED, POSITION_CONSUMED} \<longrightarrow> tr_finality_witness q = Some True"
      by (rule lifecycle_admits)
    show thesis
    proof (cases "ct_reservation_id (tr_transition q) = None \<or> ct_writer_epoch (tr_transition q) = None \<or>
        ct_scope (tr_transition q) = None")
      case True
      then have "log_step l p = l"
        using TransitionOp None by (auto simp: apply_reservation_transition_def Let_def split: option.splits)
      then show thesis by (rule nothing)
    next
      case False
      then obtain i w sc where iws: "ct_reservation_id (tr_transition q) = Some i"
        "ct_writer_epoch (tr_transition q) = Some w" "ct_scope (tr_transition q) = Some sc" by auto
      show thesis
        by (rule transaction)
          (use TransitionOp None iws ab in \<open>simp add: apply_reservation_transition_def Let_def\<close>,
           use ab iws in \<open>auto simp: request_ok_def reservation_transition_payload_def\<close>)
    qed
  qed
qed

end
