(* ===== verification/Sqlite_Invariants.thy ===== *)
theory Sqlite_Invariants
  imports Sqlite_Log
begin

text \<open>
  The invariant of every log reached from a fresh one by any sequence of epoch acquisitions,
  appends and reservation transitions, under any faults, and what follows from it: the log is
  append-only and gap-free, its replay always reproduces the held reservations, every held state is
  the end of a chain of allowed transitions, released reservations never move, and no committed row
  lacks its evidence.  The runtime log interprets the port of \<^verbatim>\<open>Commit_Log\<close>.
\<close>

section \<open>Tips and epochs\<close>

lemma fold_max_mono: "(a::int) \<le> fold max xs a"
  by (induction xs arbitrary: a) (auto intro: order_trans[OF max.cobounded2])

lemma fold_max_upto: "fold max (map int [0..<n]) (- 1) = int n - 1"
proof (induction n)
  case (Suc n)
  then show ?case by simp
qed simp

lemma fold_max_upto1: "fold max (map (\<lambda>i. 1 + int i) [0..<n]) 0 = int n"
proof (induction n)
  case (Suc n)
  then show ?case by simp
qed simp

definition seqs_ok :: "rcl_log \<Rightarrow> bool" where
  "seqs_ok l = (map er_seq (rl_entries l) = map int [0..<length (rl_entries l)])"

definition epochs_ok :: "rcl_log \<Rightarrow> bool" where
  "epochs_ok l =
    (map ep_epoch (rl_epochs l) = map (\<lambda>i. 1 + int i) [0..<length (rl_epochs l)] \<and>
     sorted (map er_writer_epoch (rl_entries l)) \<and>
     (\<forall>r \<in> set (rl_entries l). 0 \<le> er_writer_epoch r \<and> er_writer_epoch r \<le> current_epoch l))"

definition commands_ok :: "rcl_log \<Rightarrow> bool" where
  "commands_ok l = distinct (map er_command_id (rl_entries l))"

definition held_ok :: "rcl_log \<Rightarrow> bool" where
  "held_ok l = (distinct (map fst (rl_reservations l)) \<and>
    fold_reservations_from_entries l = Some (held_reservation_map l) \<and>
    (\<forall>(i, v) \<in> set (held_reservation_map l). rv_vector v \<noteq> UnrecordedVector))"

text \<open>The evidence the port recorded for a committed row.\<close>

definition evidences :: "rcl_evidence \<Rightarrow> entry_row \<Rightarrow> bool" where
  "evidences v r =
    (re_seq v = er_seq r \<and> re_writer_epoch v = er_writer_epoch r \<and>
     re_command_id v = er_command_id r \<and> re_command_digest v = er_command_digest r \<and>
     re_command_kind v = er_kind r \<and>
     re_evidence_kind v =
       (if er_is_reservation_transition r then ''RCL_RESERVATION_TRANSITION'' else ''RCL_APPEND''))"

definition evidence_ok :: "rcl_log \<Rightarrow> bool" where
  "evidence_ok l = (\<forall>r \<in> set (rl_entries l). \<exists>v \<in> set (rl_evidence l). evidences v r)"

text \<open>The transitions the log recorded for one reservation, in order.\<close>

definition recorded_transition :: "pystr \<Rightarrow> entry_row \<Rightarrow> transition_payload option" where
  "recorded_transition i r =
    (if er_is_reservation_transition r
     then case er_payload r of
       Some (TransitionJson p) \<Rightarrow> if tp_reservation_id p = Some i then Some p else None
     | _ \<Rightarrow> None
     else None)"

definition recorded_transitions :: "rcl_log \<Rightarrow> pystr \<Rightarrow> transition_payload list" where
  "recorded_transitions l i = List.map_filter (recorded_transition i) (rl_entries l)"

definition witnessed :: "transition_payload \<Rightarrow> bool" where
  "witnessed p =
    (tp_to_state p \<in> {Some RELEASED, Some POSITION_CONSUMED} \<longrightarrow> tp_finality_witness p = Some True)"

text \<open>
  A chain of recorded transitions: each starts where the one before it ended, is allowed under its own cause,
  and a final destination carries its witness.
\<close>

fun linked :: "capacity_state \<Rightarrow> transition_payload list \<Rightarrow> capacity_state \<Rightarrow> bool" where
  "linked s [] u = (s = u)"
| "linked s (p # ps) u =
    (case (tp_from_state p, tp_to_state p, tp_cause p) of
       (Some a, Some b, Some cause) \<Rightarrow> a = s \<and> transition_allowed a b cause \<and> witnessed p \<and> linked b ps u
     | _ \<Rightarrow> False)"

lemma linked_snoc: "linked s (ps @ [p]) u \<longleftrightarrow> (\<exists>t. linked s ps t \<and> linked t [p] u)"
  by (induction ps arbitrary: s) (auto split: option.split)

lemma linked_run: "linked s ps u \<Longrightarrow> cap_run s (map (the \<circ> tp_cause) ps) u"
  by (induction ps arbitrary: s) (auto intro: cap_run.intros split: option.splits)

lemma linked_last:
  assumes "linked s ps u" "ps \<noteq> []"
  shows "tp_to_state (last ps) = Some u" "witnessed (last ps)" "tp_cause (last ps) \<noteq> None"
proof -
  obtain qs p where ps: "ps = qs @ [p]" using assms(2) by (metis append_butlast_last_id)
  from assms(1) show "tp_to_state (last ps) = Some u" "witnessed (last ps)" "tp_cause (last ps) \<noteq> None"
    unfolding ps linked_snoc by (auto split: option.splits)
qed

lemma linked_released_last: "linked s ps u \<Longrightarrow> RELEASED \<notin> (the \<circ> tp_to_state) ` set (butlast ps)"
proof (induction ps arbitrary: s)
  case (Cons p ps)
  have "ps = []" if "linked RELEASED ps u"
    using cap_run_RELEASED[OF linked_run[OF that]] by simp
  with Cons show ?case by (auto split: option.splits if_splits)
qed simp

definition chain_ok :: "rcl_log \<Rightarrow> pystr \<Rightarrow> bool" where
  "chain_ok l i =
    (case map_of (rl_reservations l) i of
       None \<Rightarrow> recorded_transitions l i = []
     | Some row \<Rightarrow> recorded_transitions l i \<noteq> [] \<and> linked COMMITTED_UNBOUND (recorded_transitions l i) (rr_state row))"

definition log_inv :: "rcl_log \<Rightarrow> bool" where
  "log_inv l = (seqs_ok l \<and> epochs_ok l \<and> commands_ok l \<and> held_ok l \<and> evidence_ok l \<and>
    (\<forall>i. chain_ok l i))"

lemma tip_length: "seqs_ok l \<Longrightarrow> current_seq_tip l = int (length (rl_entries l)) - 1"
  by (simp add: current_seq_tip_def seqs_ok_def fold_max_upto)

lemma epoch_length: "epochs_ok l \<Longrightarrow> current_epoch l = int (length (rl_epochs l))"
  by (simp add: current_epoch_def epochs_ok_def fold_max_upto1)

lemma log_inv_fresh [simp]: "log_inv fresh_log"
  by (simp add: log_inv_def seqs_ok_def epochs_ok_def commands_ok_def held_ok_def evidence_ok_def
      chain_ok_def fresh_log_def fold_reservations_from_entries_def held_reservation_map_def
      recorded_transitions_def List.map_filter_simps)

section \<open>The fold follows the table\<close>

lemma fold_payloads_append:
  "fold_payloads acc (xs @ ys) =
    (case fold_payloads acc xs of None \<Rightarrow> None | Some b \<Rightarrow> fold_payloads b ys)"
  by (induction acc xs rule: fold_payloads.induct) simp_all

lemma map_of_view: "map_of (map (map_prod id view_of_row) rows) i = map_option view_of_row (map_of rows i)"
  by (induction rows) auto

lemma map_dict_put: "map (map_prod id f) (dict_put k v d) = dict_put k (f v) (map (map_prod id f) d)"
  by (induction d) auto

text \<open>One update of the table is one step of the fold.\<close>

lemma fold_step_upsert:
  assumes "p = \<lparr>tp_reservation_id = Some (ru_reservation_id u), tp_from_state = a,
      tp_to_state = Some (ru_to_state u), tp_cause = c, tp_finality_witness = w,
      tp_committed_vector = Some (ru_committed_vector u), tp_scope = Some (ru_scope u)\<rparr>"
  shows "fold_step p (map (map_prod id view_of_row) rows) =
    map (map_prod id view_of_row) (upsert_reservation_projection n (Some u) rows)"
  by (auto simp: assms fold_step_def upsert_reservation_projection_def map_dict_put map_of_view
      view_of_row_def split: option.splits)

lemma unrecorded_upsert: "rv_vector (view_of_row r) \<noteq> UnrecordedVector"
  by (simp add: view_of_row_def split: option.splits)

section \<open>A committed row keeps the invariant\<close>

definition committed_row :: "rcl_log \<Rightarrow> append_request \<Rightarrow> entry_row" where
  "committed_row l r =
    \<lparr>er_seq = current_seq_tip l + 1, er_writer_epoch = ap_writer_epoch r,
     er_command_id = ap_command_id r, er_command_digest = ap_command_digest r,
     er_kind = ap_kind r, er_payload_digest = ap_payload_digest r,
     er_payload = ap_payload r, er_is_reservation_transition = (ap_update r \<noteq> None)\<rparr>"

definition committed_log :: "rcl_log \<Rightarrow> append_request \<Rightarrow> rcl_log" where
  "committed_log l r =
    (insert_entry_and_reservation l (current_seq_tip l + 1) r)
      \<lparr>rl_evidence := rl_evidence l @ [evidence_of (current_seq_tip l + 1) r]\<rparr>"

lemma committed_log_sel [simp]:
  "rl_epochs (committed_log l r) = rl_epochs l"
  "rl_entries (committed_log l r) = rl_entries l @ [committed_row l r]"
  "rl_reservations (committed_log l r) =
    upsert_reservation_projection (current_seq_tip l + 1) (ap_update r) (rl_reservations l)"
  "rl_evidence (committed_log l r) = rl_evidence l @ [evidence_of (current_seq_tip l + 1) r]"
  by (simp_all add: committed_log_def insert_entry_and_reservation_def committed_row_def)

lemma current_epoch_committed [simp]: "current_epoch (committed_log l r) = current_epoch l"
  by (simp add: current_epoch_def)

lemma distinct_upsert:
  "distinct (map fst rows) \<Longrightarrow> distinct (map fst (upsert_reservation_projection n u rows))"
  by (simp add: upsert_reservation_projection_def distinct_dict_put split: option.split)

lemma held_ok_committed:
  assumes "held_ok l" "request_ok r"
  shows "held_ok (committed_log l r)"
proof -
  have fold: "fold_payloads [] (map er_payload (filter er_is_reservation_transition (rl_entries l))) =
      Some (map (map_prod id view_of_row) (rl_reservations l))"
    using assms(1) by (simp add: held_ok_def fold_reservations_from_entries_def held_reservation_map_def)
  have "fold_reservations_from_entries (committed_log l r) = Some (held_reservation_map (committed_log l r))"
  proof (cases "ap_update r")
    case None
    then show ?thesis using fold
      by (simp add: fold_reservations_from_entries_def held_reservation_map_def committed_row_def
          upsert_reservation_projection_def)
  next
    case (Some u)
    then obtain cause w where "ap_payload r = Some (TransitionJson
          \<lparr>tp_reservation_id = Some (ru_reservation_id u),
           tp_from_state = Some (ru_claimed_from_state u), tp_to_state = Some (ru_to_state u),
           tp_cause = Some cause, tp_finality_witness = w,
           tp_committed_vector = Some (ru_committed_vector u), tp_scope = Some (ru_scope u)\<rparr>)"
      using assms(2) by (auto simp: request_ok_def)
    with Some fold show ?thesis
      by (simp add: fold_reservations_from_entries_def held_reservation_map_def committed_row_def
          fold_payloads_append fold_step_upsert[OF refl, where n = "current_seq_tip l + 1"])
  qed
  moreover have "\<forall>(i, v) \<in> set (held_reservation_map (committed_log l r)). rv_vector v \<noteq> UnrecordedVector"
    by (auto simp: held_reservation_map_def unrecorded_upsert)
  ultimately show ?thesis using assms(1) by (simp add: held_ok_def distinct_upsert)
qed

lemma recorded_transitions_committed:
  "recorded_transitions (committed_log l r) i =
    recorded_transitions l i @
      (case recorded_transition i (committed_row l r) of None \<Rightarrow> [] | Some p \<Rightarrow> [p])"
  by (simp add: recorded_transitions_def List.map_filter_def split: option.split)

lemma epochs_ok_same:
  assumes "epochs_ok l" "rl_epochs l' = rl_epochs l" "rl_entries l' = rl_entries l"
  shows "epochs_ok l'"
  using assms(1) unfolding epochs_ok_def current_epoch_def assms(2,3) .

lemma held_ok_same:
  "held_ok l \<Longrightarrow> rl_entries l' = rl_entries l \<Longrightarrow> rl_reservations l' = rl_reservations l \<Longrightarrow> held_ok l'"
  by (simp add: held_ok_def fold_reservations_from_entries_def held_reservation_map_def)

lemma chain_ok_same:
  assumes "chain_ok l i" "recorded_transitions l' i = recorded_transitions l i"
    "map_of (rl_reservations l') i = map_of (rl_reservations l) i"
  shows "chain_ok l' i"
  using assms(1) unfolding chain_ok_def assms(2,3) .

lemma chain_ok_committed:
  assumes "chain_ok l i" "request_ok r"
    "pre_insert_checks l (ap_writer_epoch r) (ap_expected_seq r) (ap_command_id r)
      (ap_command_digest r) (ap_update r) = None"
  shows "chain_ok (committed_log l r) i"
proof (cases "ap_update r")
  case None
  then have "recorded_transition i (committed_row l r) = None"
    by (simp add: recorded_transition_def committed_row_def)
  with None show ?thesis
    by (intro chain_ok_same[OF assms(1)])
      (simp_all add: recorded_transitions_committed upsert_reservation_projection_def)
next
  case (Some u)
  then obtain cause w where p: "ap_payload r = Some (TransitionJson
          \<lparr>tp_reservation_id = Some (ru_reservation_id u),
           tp_from_state = Some (ru_claimed_from_state u), tp_to_state = Some (ru_to_state u),
           tp_cause = Some cause, tp_finality_witness = w,
           tp_committed_vector = Some (ru_committed_vector u), tp_scope = Some (ru_scope u)\<rparr>)"
    "transition_allowed (ru_claimed_from_state u) (ru_to_state u) cause"
    "ru_to_state u \<in> {RELEASED, POSITION_CONSUMED} \<longrightarrow> w = Some True"
    using assms(2) by (auto simp: request_ok_def)
  show ?thesis
  proof (cases "ru_reservation_id u = i")
    case False
    with Some p(1) have "recorded_transition i (committed_row l r) = None"
      by (simp add: recorded_transition_def committed_row_def)
    with False Some show ?thesis
      by (intro chain_ok_same[OF assms(1)])
        (simp_all add: recorded_transitions_committed upsert_reservation_projection_def)
  next
    case True
    let ?p = "\<lparr>tp_reservation_id = Some (ru_reservation_id u),
           tp_from_state = Some (ru_claimed_from_state u), tp_to_state = Some (ru_to_state u),
           tp_cause = Some cause, tp_finality_witness = w,
           tp_committed_vector = Some (ru_committed_vector u), tp_scope = Some (ru_scope u)\<rparr>"
    note held = pre_insert_checks_None(4)[OF assms(3) Some]
    have "linked COMMITTED_UNBOUND (recorded_transitions l i) (ru_claimed_from_state u)"
      using assms(1) held True by (auto simp: chain_ok_def split: option.splits)
    moreover have "linked (ru_claimed_from_state u) [?p] (ru_to_state u)" using p(2,3) by (simp add: witnessed_def)
    ultimately have run: "linked COMMITTED_UNBOUND (recorded_transitions l i @ [?p]) (ru_to_state u)"
      unfolding linked_snoc by blast
    have "recorded_transition i (committed_row l r) = Some ?p"
      using Some p(1) True by (simp add: recorded_transition_def committed_row_def)
    with run True Some show ?thesis
      by (simp add: chain_ok_def recorded_transitions_committed upsert_reservation_projection_def)
  qed
qed


lemma evidence_ok_committed:
  assumes "evidence_ok l" "request_ok r"
  shows "evidence_ok (committed_log l r)"
proof -
  have "evidences (evidence_of (current_seq_tip l + 1) r) (committed_row l r)"
    using assms(2) by (auto simp: evidences_def evidence_of_def committed_row_def request_ok_def)
  with assms(1) show ?thesis by (auto simp: evidence_ok_def)
qed

lemma seqs_ok_committed: "seqs_ok l \<Longrightarrow> seqs_ok (committed_log l r)"
  by (simp add: seqs_ok_def committed_row_def tip_length)

lemma epochs_ok_committed:
  assumes "epochs_ok l" "ap_writer_epoch r = current_epoch l"
  shows "epochs_ok (committed_log l r)"
  using assms epoch_length[OF assms(1)]
  by (auto simp: epochs_ok_def sorted_append committed_row_def)

lemma commands_ok_committed:
  "commands_ok l \<Longrightarrow> ap_command_id r \<notin> er_command_id ` set (rl_entries l) \<Longrightarrow>
    commands_ok (committed_log l r)"
  by (simp add: commands_ok_def committed_row_def)

lemma log_inv_committed:
  assumes "log_inv l" "request_ok r"
    "pre_insert_checks l (ap_writer_epoch r) (ap_expected_seq r) (ap_command_id r)
      (ap_command_digest r) (ap_update r) = None"
  shows "log_inv (committed_log l r)"
  using assms pre_insert_checks_None[OF assms(3)]
  by (simp add: log_inv_def seqs_ok_committed epochs_ok_committed commands_ok_committed
      held_ok_committed evidence_ok_committed chain_ok_committed)

text \<open>Evidence beyond the committed rows breaks nothing.\<close>

lemma log_inv_more_evidence:
  assumes "log_inv l"
  shows "log_inv (l\<lparr>rl_evidence := rl_evidence l @ xs\<rparr>)"
proof -
  let ?m = "l\<lparr>rl_evidence := rl_evidence l @ xs\<rparr>"
  have "\<forall>i. chain_ok ?m i"
  proof
    fix i
    have "recorded_transitions ?m i = recorded_transitions l i" by (simp add: recorded_transitions_def)
    with assms show "chain_ok ?m i" by - (rule chain_ok_same[of l], simp_all add: log_inv_def)
  qed
  moreover have "epochs_ok ?m" using assms by - (rule epochs_ok_same[of l], simp_all add: log_inv_def)
  moreover have "seqs_ok ?m" "commands_ok ?m"
    using assms by (simp_all add: log_inv_def seqs_ok_def commands_ok_def)
  moreover have "held_ok ?m" using assms by - (rule held_ok_same[of l], simp_all add: log_inv_def)
  moreover have "evidence_ok ?m" using assms by (auto simp: log_inv_def evidence_ok_def)
  ultimately show ?thesis by (simp add: log_inv_def)
qed

lemma commit_entry_row_inv:
  assumes "log_inv l" "request_ok r"
  shows "log_inv (fst (commit_entry_row f l r))"
proof -
  obtain l' res where c: "commit_entry_row f l r = (l', res)" by (cases "commit_entry_row f l r")
  from c show ?thesis
  proof (cases rule: commit_entry_row_cases)
    case (rolled_back xs)
    with c assms(1) show ?thesis by (simp add: log_inv_more_evidence)
  next
    case committed
    with c log_inv_committed[OF assms committed(1)] show ?thesis by (simp add: committed_log_def)
  qed
qed

lemma log_inv_acquire:
  assumes "log_inv l"
  shows "log_inv (fst (acquire_epoch q l))"
proof (cases "aq_fails q")
  case False
  let ?m = "fst (acquire_epoch q l)"
  have e: "rl_entries ?m = rl_entries l" "rl_reservations ?m = rl_reservations l"
    "rl_evidence ?m = rl_evidence l"
    "map ep_epoch (rl_epochs ?m) = map ep_epoch (rl_epochs l) @ [current_epoch l + 1]"
    using False by (simp_all add: acquire_epoch_def Let_def)
  have epochs: "epochs_ok l" using assms by (simp add: log_inv_def)
  have tip: "current_epoch l \<le> current_epoch ?m" by (simp add: current_epoch_def e(4))
  have len: "length (rl_epochs ?m) = Suc (length (rl_epochs l))"
    using False by (simp add: acquire_epoch_def Let_def)
  have "epochs_ok ?m"
    using epochs order_trans[OF _ tip]
    by (simp add: epochs_ok_def e len del: map_map) (simp add: epoch_length[OF epochs])
  moreover have "\<forall>i. chain_ok ?m i"
  proof
    fix i
    have "recorded_transitions ?m i = recorded_transitions l i" by (simp add: recorded_transitions_def e)
    with assms show "chain_ok ?m i" by - (rule chain_ok_same[of l], simp_all add: log_inv_def e)
  qed
  moreover have "held_ok ?m" using assms by - (rule held_ok_same[of l], simp_all add: log_inv_def e)
  moreover have "seqs_ok ?m" "commands_ok ?m" "evidence_ok ?m"
    using assms by (simp_all add: log_inv_def seqs_ok_def commands_ok_def evidence_ok_def e)
  ultimately show ?thesis by (simp add: log_inv_def)
qed (use assms in \<open>simp add: acquire_epoch_def\<close>)


theorem log_inv_step: "log_inv l \<Longrightarrow> log_inv (log_step l p)"
proof (cases rule: log_step_cases[where l = l and p = p])
  case (acquired q)
  assume "log_inv l"
  with acquired(1) show ?thesis by (simp add: log_inv_acquire)
next
  case (transaction f r)
  assume "log_inv l"
  with transaction show ?thesis by (simp add: commit_entry_row_inv)
qed simp

lemma log_inv_run: "log_inv l \<Longrightarrow> log_inv (log_run l ops)"
  by (induction ops arbitrary: l) (simp_all add: log_inv_step)

text \<open>The logs the runtime can reach.\<close>

definition reachable_log :: "log_op list \<Rightarrow> rcl_log" where
  "reachable_log ops = log_run fresh_log ops"

lemma log_inv_reachable [simp]: "log_inv (reachable_log ops)"
  by (simp add: reachable_log_def log_inv_run)

section \<open>Entries only grow\<close>

lemma log_step_extends: "\<exists>xs. rl_entries (log_step l p) = rl_entries l @ xs"
proof (cases rule: log_step_cases[where l = l and p = p])
  case (transaction f r)
  obtain l' res where c: "commit_entry_row f l r = (l', res)" by (cases "commit_entry_row f l r")
  from c show ?thesis
  proof (cases rule: commit_entry_row_cases)
    case (rolled_back xs)
    with c transaction show ?thesis by simp
  next
    case committed
    with c transaction committed_log_sel(2)[of l r] show ?thesis by (simp add: committed_log_def)
  qed
qed simp_all

lemma log_run_extends: "\<exists>xs. rl_entries (log_run l ops) = rl_entries l @ xs"
proof (induction ops arbitrary: l)
  case (Cons p ops)
  obtain xs where "rl_entries (log_step l p) = rl_entries l @ xs" using log_step_extends by blast
  moreover obtain ys where "rl_entries (log_run (log_step l p) ops) = rl_entries (log_step l p) @ ys"
    using Cons.IH by blast
  ultimately show ?case by simp
qed simp

text \<open>A released reservation keeps its row.\<close>

lemma released_step:
  assumes "map_of (rl_reservations l) i = Some row" "rr_state row = RELEASED"
  shows "map_of (rl_reservations (log_step l p)) i = Some row"
proof (cases rule: log_step_cases[where l = l and p = p])
  case (transaction f r)
  obtain l' res where c: "commit_entry_row f l r = (l', res)" by (cases "commit_entry_row f l r")
  from c show ?thesis
  proof (cases rule: commit_entry_row_cases)
    case (rolled_back xs)
    with c transaction assms(1) show ?thesis by simp
  next
    case committed
    have new: "rl_reservations (log_step l p) =
        upsert_reservation_projection (current_seq_tip l + 1) (ap_update r) (rl_reservations l)"
      using c transaction committed by (simp add: insert_entry_and_reservation_def)
    show ?thesis
    proof (cases "ap_update r")
      case (Some u)
      have "ru_claimed_from_state u \<noteq> RELEASED"
        using transaction(2) Some by (auto simp: request_ok_def transition_allowed_def split: if_splits)
      then have "ru_reservation_id u \<noteq> i"
        using pre_insert_checks_None(4)[OF committed(1) Some] assms by (auto split: option.splits)
      with new Some assms(1) show ?thesis by (simp add: upsert_reservation_projection_def)
    qed (use new assms(1) in \<open>simp add: upsert_reservation_projection_def\<close>)
  qed
qed (use assms(1) in simp_all)

lemma released_run:
  assumes "map_of (rl_reservations l) i = Some row" "rr_state row = RELEASED"
  shows "map_of (rl_reservations (log_run l ops)) i = Some row"
  using assms by (induction ops arbitrary: l) (simp_all add: released_step)

end
