(* ===== verification/Sqlite_Properties.thy ===== *)
theory Sqlite_Properties
  imports Sqlite_Invariants
begin

text \<open>
  The properties of the runtime's Safety Commit Log, each about every log reachable from a fresh one
  by any operations under any faults.  The runtime log interprets the port of \<^verbatim>\<open>Commit_Log\<close>.
\<close>

section \<open>The runtime log is the port\<close>

lemma acquire_epoch_sel:
  assumes "acquire_epoch q l = (l', Some n)"
  shows "n = current_epoch l + 1" "current_epoch l' = n" "rl_entries l' = rl_entries l"
proof -
  have n: "n = current_epoch l + 1" and ep: "map ep_epoch (rl_epochs l') = map ep_epoch (rl_epochs l) @ [n]"
    using assms by (auto simp: acquire_epoch_def Let_def split: if_splits)
  show "n = current_epoch l + 1" by (rule n)
  show "current_epoch l' = n" using n unfolding current_epoch_def ep by simp
  show "rl_entries l' = rl_entries l" using assms by (auto simp: acquire_epoch_def Let_def split: if_splits)
qed

lemma acquire_epoch_replay: "replay (fst (acquire_epoch q l)) = replay l"
  by (simp add: acquire_epoch_def replay_def Let_def)

definition append_request_of :: "payload option \<Rightarrow> commit_entry \<Rightarrow> pystr \<Rightarrow> int \<Rightarrow> int \<Rightarrow> append_request" where
  "append_request_of p e i k w =
    \<lparr>ap_expected_seq = k, ap_writer_epoch = w, ap_command_id = i,
     ap_command_digest = ce_command_digest e, ap_kind = ce_kind e,
     ap_payload_digest = ce_payload_digest e, ap_payload = p, ap_evidence_kind = ''RCL_APPEND'',
     ap_evidence_record_class = ''RCL_ENTRY'', ap_update = None\<rparr>"

lemma append_cas_Some:
  "ce_command_id e = Some i \<Longrightarrow>
    append_cas fp l e k w = commit_entry_row (fst fp) l (append_request_of (snd fp) e i k w)"
  by (simp add: append_cas_def append_request_of_def)

lemma replay_committed: "replay (committed_log l r) = replay l @ [row_to_commit_entry (committed_row l r)]"
  by (simp add: replay_def)

lemma append_cas_cases [case_names refused committed]:
  assumes "append_cas fp l e k w = (l', res)"
  obtains
    (refused) "replay l' = replay l" "rl_epochs l' = rl_epochs l" "\<forall>n w. res \<noteq> AppendReceipt n w"
  | (committed) i where "ce_command_id e = Some i" "i \<notin> er_command_id ` set (rl_entries l)"
      "w = current_epoch l" "k = current_seq_tip l" "l' = committed_log l (append_request_of (snd fp) e i k w)"
      "replay l' = replay l @ [stamped e (k + 1) w]"
      "res = AppendReceipt (k + 1) w \<or> res = AppendCrashed"
proof (cases "ce_command_id e")
  case None
  show thesis using assms None by (intro refused) (auto simp: append_cas_def)
next
  case (Some i)
  from assms[unfolded append_cas_Some[OF Some]] show thesis
  proof (cases rule: commit_entry_row_cases)
    case (rolled_back xs)
    then show thesis by (intro refused) (simp_all add: replay_def)
  next
    case c: committed
    let ?r = "append_request_of (snd fp) e i k w"
    have ids: "ap_writer_epoch ?r = w" "ap_expected_seq ?r = k" "ap_command_id ?r = i"
      by (simp_all add: append_request_of_def)
    note pre = pre_insert_checks_None[OF c(1), unfolded ids]
    have l': "l' = committed_log l ?r" using c(2) by (simp add: committed_log_def)
    show thesis
    proof (rule committed[OF Some])
      show "i \<notin> er_command_id ` set (rl_entries l)" "w = current_epoch l" "k = current_seq_tip l"
        using pre(1-3) by simp_all
      then show "replay l' = replay l @ [stamped e (k + 1) w]"
        using Some by (simp add: l' replay_committed row_to_commit_entry_def committed_row_def
            append_request_of_def stamped_def)
      show "res = AppendReceipt (k + 1) w \<or> res = AppendCrashed"
        using c(3) pre(2) by (simp add: append_request_of_def)
    qed (rule l')
  qed
qed

lemma append_cas_inv: "log_inv l \<Longrightarrow> log_inv (fst (append_cas fp l e k w))"
  using log_inv_step[of l "AppendOp (fst fp) (snd fp) e k w"] by simp

lemma append_cas_epoch: "current_epoch (fst (append_cas fp l e k w)) = current_epoch l"
proof -
  obtain l' res where a: "append_cas fp l e k w = (l', res)" by (cases "append_cas fp l e k w")
  from a have "rl_epochs l' = rl_epochs l" by (cases rule: append_cas_cases) simp_all
  with a show ?thesis by (simp add: current_epoch_def)
qed

interpretation port: fenced_commit_log log_inv current_epoch replay append_cas acquire_epoch
proof unfold_locales
  fix l l' :: rcl_log and fp e k w w' n x q
  show "log_inv l \<Longrightarrow> log_inv (fst (append_cas fp l e k w))" by (rule append_cas_inv)
  show "current_epoch (fst (append_cas fp l e k w)) = current_epoch l" by (rule append_cas_epoch)
  show "log_inv l \<Longrightarrow> append_cas fp l e k w = (l', AppendReceipt n w') \<Longrightarrow>
      w = current_epoch l \<and> w' = w \<and> k = int (length (replay l)) - 1 \<and> n = k + 1 \<and>
      ce_command_id e \<noteq> None \<and> ce_command_id e \<notin> ce_command_id ` set (replay l) \<and>
      replay l' = replay l @ [stamped e n w]"
    by (erule append_cas_cases)
      (auto simp: log_inv_def tip_length replay_def row_to_commit_entry_def)
  show "append_cas fp l e k w = (l', AppendRefusal x) \<Longrightarrow> replay l' = replay l"
    by (erule append_cas_cases) simp_all
  show "append_cas fp l e k w = (l', AppendCrashed) \<Longrightarrow>
      replay l' = replay l \<or> (\<exists>n. replay l' = replay l @ [stamped e n w])"
    by (erule append_cas_cases) auto
  show "log_inv l \<Longrightarrow> log_inv (fst (acquire_epoch q l))" by (rule log_inv_acquire)
  show "acquire_epoch q l = (l', Some n) \<Longrightarrow> current_epoch l < n \<and> current_epoch l' = n"
    using acquire_epoch_sel[of q l l' n] by simp
  show "replay (fst (acquire_epoch q l)) = replay l" by (rule acquire_epoch_replay)
qed


section \<open>Append-only\<close>

lemma reachable_append: "reachable_log (ops @ ps) = log_run (reachable_log ops) ps"
  by (simp add: reachable_log_def log_run_append)

lemma replay_run_extends: "\<exists>xs. replay (log_run l ops) = replay l @ xs"
  using log_run_extends[of l ops] by (auto simp: replay_def)

lemma current_epoch_step: "current_epoch l \<le> current_epoch (log_step l p)"
proof (cases rule: log_step_cases[where l = l and p = p])
  case (acquired q)
  then show ?thesis unfolding current_epoch_def by simp
next
  case (transaction f r)
  obtain l' res where c: "commit_entry_row f l r = (l', res)" by (cases "commit_entry_row f l r")
  then have "rl_epochs l' = rl_epochs l"
    by (cases rule: commit_entry_row_cases) (simp_all add: insert_entry_and_reservation_def)
  with c transaction show ?thesis unfolding current_epoch_def by simp
qed simp

lemma current_epoch_run: "current_epoch l \<le> current_epoch (log_run l ops)"
proof (induction ops arbitrary: l)
  case (Cons p ops)
  show ?case using current_epoch_step[of l p] Cons.IH[of "log_step l p"] by simp
qed simp

text \<open>
  C14: the log is append-only: whatever operations follow, under whatever faults, the entries already
  there stay a prefix of the replay; the sequence numbers are exactly 0, 1, 2, ...; no command
  identity occurs twice; and the writer epochs never decrease and never exceed the current one.
\<close>

theorem log_is_append_only:
  "(\<exists>xs. replay (reachable_log (ops @ ps)) = replay (reachable_log ops) @ xs) \<and>
   map ce_seq (replay (reachable_log ops)) = map (Some \<circ> int) [0..<length (replay (reachable_log ops))] \<and>
   distinct (map ce_command_id (replay (reachable_log ops))) \<and>
   sorted (map (the \<circ> ce_writer_epoch) (replay (reachable_log ops))) \<and>
   list_all (\<lambda>e. the (ce_writer_epoch e) \<le> current_epoch (reachable_log ops)) (replay (reachable_log ops))"
proof -
  let ?l = "reachable_log ops"
  have inv: "seqs_ok ?l" "epochs_ok ?l" "commands_ok ?l" using log_inv_reachable[of ops] by (simp_all add: log_inv_def)
  have f: "map ce_seq (replay ?l) = map Some (map er_seq (rl_entries ?l))"
    "map ce_command_id (replay ?l) = map Some (map er_command_id (rl_entries ?l))"
    "map (the \<circ> ce_writer_epoch) (replay ?l) = map er_writer_epoch (rl_entries ?l)"
    "length (replay ?l) = length (rl_entries ?l)"
    by (simp_all add: replay_def row_to_commit_entry_def)
  have "distinct (map Some (map er_command_id (rl_entries ?l)))"
    using inv(3) by (simp add: commands_ok_def distinct_map inj_on_def)
  moreover have "list_all (\<lambda>e. the (ce_writer_epoch e) \<le> current_epoch ?l) (replay ?l)"
    using inv(2) by (auto simp: list_all_iff replay_def row_to_commit_entry_def epochs_ok_def)
  moreover have "map Some (map er_seq (rl_entries ?l)) = map (Some \<circ> int) [0..<length (rl_entries ?l)]"
    using inv(1) unfolding seqs_ok_def by simp
  moreover have "\<exists>xs. replay (reachable_log (ops @ ps)) = replay ?l @ xs"
    using replay_run_extends[of ?l ps] by (simp only: reachable_append)
  ultimately show ?thesis using inv(2) unfolding f epochs_ok_def by blast
qed

section \<open>Fencing\<close>

text \<open>
  C15: once a writer has acquired a new epoch, a writer that still holds an earlier one changes nothing,
  whatever happens in between and whatever fault strikes: its append is refused and its reservation transition
  is refused, by a lifecycle gate or by the log, and both leave the log exactly as it was; and each of its
  fenced reads is refused: the linearizable view and the transition history as stale, the approval-only gap
  by returning none.
\<close>

theorem superseded_writer_has_no_effect:
  assumes "acquire_epoch q (reachable_log ops) = (l', Some n)" "w < n"
  shows "(\<exists>x. append_cas fp (log_run l' ps) e k w = (log_run l' ps, AppendRefusal x)) \<and>
    (ct_writer_epoch (tr_transition t) = Some w \<longrightarrow>
      (\<exists>y. apply_reservation_transition f (log_run l' ps) t = (log_run l' ps, y) \<and>
        ((\<exists>x. y = Inl x) \<or> (\<exists>x. y = Inr (AppendRefusal x))))) \<and>
    read_linearizable (log_run l' ps) w = Inl STALE_EPOCH \<and>
    reservation_transition_history s dump (log_run l' ps) w = Inl (StaleEpochRead STALE_EPOCH) \<and>
    read_approval_only_gap (log_run l' ps) w proof_last_seq = None"
proof -
  have "current_epoch (log_run l' ps) \<noteq> w"
    using current_epoch_run[of l' ps] acquire_epoch_sel(2)[OF assms(1)] assms(2) by simp
  then have stale: "stale_writer_epoch (Some (current_epoch (log_run l' ps))) (Some w) = Some STALE_EPOCH"
    and epoch: "current_epoch (log_run l' ps) \<noteq> w"
    by (simp_all add: stale_writer_epoch_def)
  have refused: "\<exists>x. commit_entry_row f (log_run l' ps) r = (log_run l' ps, AppendRefusal x)"
    if "ap_writer_epoch r = w" for f r
    using stale that by (simp add: commit_entry_row_def pre_insert_checks_def)
  have "\<exists>x. append_cas fp (log_run l' ps) e k w = (log_run l' ps, AppendRefusal x)"
    using refused[of "append_request_of (snd fp) e i k w" "fst fp" for i]
    by (cases "ce_command_id e") (simp_all add: append_cas_Some append_cas_def[of _ _ e] append_request_of_def)
  moreover have "\<exists>y. apply_reservation_transition f (log_run l' ps) t = (log_run l' ps, y) \<and>
      ((\<exists>x. y = Inl x) \<or> (\<exists>x. y = Inr (AppendRefusal x)))"
    if "ct_writer_epoch (tr_transition t) = Some w"
    using that stale
    by (auto simp: apply_reservation_transition_def commit_entry_row_def pre_insert_checks_def Let_def split: option.split)
  ultimately show ?thesis
    using stale epoch by (simp add: read_linearizable_def reservation_transition_history_def read_approval_only_gap_def Let_def)
qed

definition demo_acquisition :: acquisition where
  "demo_acquisition =
    \<lparr>aq_identity_json = ''{}'', aq_runtime_generation = Some 1, aq_now_ns = 7, aq_fails = False\<rparr>"

definition demo_entry :: "pystr \<Rightarrow> commit_entry" where
  "demo_entry i =
    \<lparr>ce_seq = None, ce_writer_epoch = None, ce_command_id = Some i, ce_command_digest = Some ''d'',
     ce_kind = None, ce_payload_digest = None\<rparr>"

theorem superseded_writer_has_no_effect_witness:
  "\<exists>l' x. acquire_epoch demo_acquisition (reachable_log [AcquireOp demo_acquisition]) = (l', Some 2) \<and>
    append_cas (NoFault, None) l' (demo_entry ''c'') (- 1) 1 = (l', AppendRefusal x) \<and>
    read_linearizable l' 1 = Inl STALE_EPOCH"
proof -
  have a: "acquire_epoch demo_acquisition (reachable_log [AcquireOp demo_acquisition]) =
      (fst (acquire_epoch demo_acquisition (reachable_log [AcquireOp demo_acquisition])), Some 2)"
    by (simp add: reachable_log_def acquire_epoch_def Let_def demo_acquisition_def fresh_log_def current_epoch_def)
  from superseded_writer_has_no_effect[OF a, of 1 "(NoFault, None)" "[]" "demo_entry ''c''" "- 1"] a
  show ?thesis by auto
qed

text \<open>
  Of all the appends ever tried at one tip, at most one gets a receipt, and so of all those
  under one command identity, whatever happens in between: a later receipt always has another tip,
  another command and a larger sequence number.
\<close>

theorem receipts_are_exclusive:
  assumes "append_cas fp (reachable_log ops) e k w = (l', AppendReceipt n v)"
    and "append_cas fq (log_run l' ps) e2 k2 w2 = (l2, AppendReceipt n2 v2)"
  shows "k2 \<noteq> k \<and> ce_command_id e2 \<noteq> ce_command_id e \<and> n < n2"
proof -
  have ok: "log_inv l'" using append_cas_inv[OF log_inv_reachable[of ops], of fp e k w] assms(1) by simp
  then have ok2: "log_inv (log_run l' ps)" by (rule log_inv_run)
  obtain xs where xs: "replay (log_run l' ps) = replay l' @ xs" using replay_run_extends by blast
  have "k2 \<noteq> k"
    using port.one_receipt_per_tip[OF log_inv_reachable assms(1) ok2 xs] assms(2) by blast
  moreover have "ce_command_id e2 \<noteq> ce_command_id e"
    using port.one_receipt_per_command[OF log_inv_reachable assms(1) ok2 xs] assms(2) by blast
  moreover have "n < n2"
    using port.append_receipt[OF log_inv_reachable assms(1)] port.append_receipt[OF ok2 assms(2)] xs by simp
  ultimately show ?thesis by blast
qed

theorem receipts_are_exclusive_witness:
  "\<exists>l' l2. append_cas (NoFault, None) (reachable_log [AcquireOp demo_acquisition]) (demo_entry ''a'') (- 1) 1 =
      (l', AppendReceipt 0 1) \<and>
    append_cas (NoFault, None) l' (demo_entry ''b'') 0 1 = (l2, AppendReceipt 1 1) \<and> (0::int) \<noteq> - 1"
proof -
  let ?l = "reachable_log [AcquireOp demo_acquisition]"
  let ?l' = "fst (append_cas (NoFault, None) ?l (demo_entry ''a'') (- 1) 1)"
  have a: "append_cas (NoFault, None) ?l (demo_entry ''a'') (- 1) 1 = (?l', AppendReceipt 0 1)"
    and b: "append_cas (NoFault, None) (log_run ?l' []) (demo_entry ''b'') 0 1 =
      (fst (append_cas (NoFault, None) (log_run ?l' []) (demo_entry ''b'') 0 1), AppendReceipt 1 1)"
    by (simp_all add: reachable_log_def acquire_epoch_def Let_def demo_acquisition_def fresh_log_def
        current_epoch_def append_cas_def demo_entry_def commit_entry_row_def pre_insert_checks_def
        stale_writer_epoch_def current_seq_tip_def classify_duplicate_command_def existing_command_row_def
        insert_entry_and_reservation_def upsert_reservation_projection_def)
  from receipts_are_exclusive[OF a b] a b show ?thesis by auto
qed

section \<open>Replay\<close>

lemma held_map_of:
  "map_of (held_reservation_map l) i = map_option view_of_row (map_of (rl_reservations l) i)"
  by (simp add: held_reservation_map_def map_of_view)

lemma align_recorded:
  assumes "\<And>i v. map_of replayed i = Some v \<Longrightarrow> rv_vector v \<noteq> UnrecordedVector"
  shows "align_unrecorded_vectors held replayed = held"
  unfolding align_unrecorded_vectors_def
  by (rule map_idI) (use assms in \<open>auto split: option.splits\<close>)

lemma held_recorded:
  "held_ok l \<Longrightarrow> map_of (held_reservation_map l) i = Some v \<Longrightarrow> rv_vector v \<noteq> UnrecordedVector"
  by (auto simp: held_ok_def dest: map_of_SomeD)

lemma verify_replay_reachable: "verify_replay s dump (reachable_log ops) = Inr ()"
proof -
  have held: "held_ok (reachable_log ops)" using log_inv_reachable[of ops] by (simp add: log_inv_def)
  have "align_unrecorded_vectors (held_reservation_map (reachable_log ops))
      (held_reservation_map (reachable_log ops)) = held_reservation_map (reachable_log ops)"
    by (rule align_recorded) (rule held_recorded[OF held])
  with held show ?thesis by (simp add: verify_replay_def held_ok_def replay_reproduces_state_def)
qed

text \<open>
  C16: replaying the log from its first entry always reproduces the reservations table: whatever
  operations ran, under whatever faults, under any digest scheme, the check of replay never raises.
\<close>

theorem replay_reproduces_reservations:
  "verify_replay s dump (reachable_log ops) = Inr ()"
  by (rule verify_replay_reachable)

text \<open>
  The digest determines the map, if the dump keeps apart the vectors that occur, and the marker.
\<close>

definition recorded_vectors :: "(pystr \<times> reservation_view) list \<Rightarrow> capacity_vector list" where
  "recorded_vectors m =
    List.map_filter (\<lambda>(i, v). case rv_vector v of RecordedVector c \<Rightarrow> Some c | _ \<Rightarrow> None) m"

definition faithful_dump :: "(capacity_vector \<Rightarrow> pystr) \<Rightarrow> capacity_vector set \<Rightarrow> bool" where
  "faithful_dump dump vs = (inj_on dump vs \<and> unrecorded_vector \<notin> dump ` vs)"

lemma capacity_state_value_inj: "capacity_state_value a = capacity_state_value b \<Longrightarrow> a = b"
  by (cases a; cases b) simp_all

lemma view_json_canon [simp]: "canon (view_json dump v) = view_json dump v"
  by (cases "rv_vector v") (simp_all add: view_json_def less_eq_list_code)

lemma recorded_vectors_mem:
  "(i, v) \<in> set m \<Longrightarrow> rv_vector v = RecordedVector c \<Longrightarrow> c \<in> set (recorded_vectors m)"
  by (force simp: recorded_vectors_def List.map_filter_def image_iff)

lemma view_json_inj:
  assumes "faithful_dump dump (set (recorded_vectors m))" "(i, v) \<in> set m" "(j, w) \<in> set m"
    "view_json dump v = view_json dump w"
  shows "v = w"
proof -
  have "rv_state v = rv_state w" "rv_scope v = rv_scope w"
    using assms(4) by (auto simp: view_json_def intro: capacity_state_value_inj reservation_scope.equality)
  moreover have "rv_vector v = rv_vector w"
    using assms(4) recorded_vectors_mem[OF assms(2)] recorded_vectors_mem[OF assms(3)] assms(1)
    by (auto simp: view_json_def faithful_dump_def inj_on_def image_iff split: vector_view.splits)
  ultimately show ?thesis by simp
qed

lemma sort_key_map_values: "sort_key fst (map (map_prod id f) m) = map (map_prod id f) (sort_key fst m)"
  by (rule sort_key_map_prod)

lemma canon_view_items: "map (map_prod id canon) (map (map_prod id (view_json dump)) m) = map (map_prod id (view_json dump)) m"
  by (simp add: map_prod_def case_prod_unfold)

lemma same_map_same_sort:
  assumes "distinct (map fst a)" "distinct (map fst b)"
  shows "sort_key fst a = sort_key fst b \<longleftrightarrow> map_of a = map_of (b :: (pystr \<times> 'v) list)"
proof
  assume "sort_key fst a = sort_key fst b"
  then have "set a = set b" by (metis set_sort)
  with assms show "map_of a = map_of b" by (simp add: map_of_inject_set)
next
  assume "map_of a = map_of b"
  with assms have set: "set a = set b" by (simp add: map_of_inject_set)
  have inj: "inj_on fst (set a)" using assms(1) by (simp add: distinct_map)
  show "sort_key fst a = sort_key fst b"
    by (rule map_sorted_distinct_set_unique[of fst])
      (use assms set inj in \<open>simp_all add: distinct_map distinct_sort\<close>)
qed

definition reservations_json :: "(capacity_vector \<Rightarrow> pystr) \<Rightarrow> (pystr \<times> reservation_view) list \<Rightarrow> json" where
  "reservations_json dump m = JObj [(''reservations'', JObj (map (map_prod id (view_json dump)) (sort_key fst m)))]"

lemma digest_determines_map:
  assumes "\<not> collision H (encode (reservations_json dump a)) (encode (reservations_json dump b))" "faithful_dump dump (set (recorded_vectors (a @ b)))" "distinct (map fst a)" "distinct (map fst b)"
  shows "digest_of_reservation_map (compute_digest H) dump a =
      digest_of_reservation_map (compute_digest H) dump b \<longleftrightarrow> map_of a = map_of b"
proof -
  have inj: "inj_on (map_prod id (view_json dump)) (set (sort_key fst a) \<union> set (sort_key fst b))"
    by (rule inj_onI) (auto intro: view_json_inj[OF assms(2)])
  have "digest_of_reservation_map (compute_digest H) dump a =
      digest_of_reservation_map (compute_digest H) dump b \<longleftrightarrow>
    map (map_prod id (view_json dump)) (sort_key fst a) = map (map_prod id (view_json dump)) (sort_key fst b)"
    using no_collision[OF assms(1)]
    by (simp add: digest_of_reservation_map_def compute_digest_def reservations_json_def
        sort_key_map_values canon_view_items sort_key_id_if_sorted del: map_map encode.simps)
  also have "\<dots> \<longleftrightarrow> sort_key fst a = sort_key fst b" 
    using inj by (rule inj_on_map_eq_map)
  also have "\<dots> \<longleftrightarrow> map_of a = map_of b" by (rule same_map_same_sort[OF assms(3,4)])
  finally show ?thesis .
qed

text \<open>
  After any tampering with the reservations table of a reachable log, the check of replay passes
  exactly when every reservation still has its state, its scope and its vector (up to the spelling
  of the magnitudes), and reports an integrity violation otherwise; the digest function is assumed not
  to collide on the two encodings compared and the dump to be faithful on the vectors that occur.
\<close>

theorem tampering_is_detected:
  assumes "\<not> collision H (encode (reservations_json dump (held_reservation_map (reachable_log ops))))
      (encode (reservations_json dump (held_reservation_map m)))"
    "distinct (map fst rows)" "m = (reachable_log ops)\<lparr>rl_reservations := rows\<rparr>"
    "faithful_dump dump
      (set (recorded_vectors (held_reservation_map (reachable_log ops) @ held_reservation_map m)))"
  shows "verify_replay (compute_digest H) dump m =
    (if map_option view_of_row \<circ> map_of rows =
        map_option view_of_row \<circ> map_of (rl_reservations (reachable_log ops))
     then Inr () else Inl (CommitLogCorruption INTEGRITY_VIOLATION))"
proof -
  let ?l = "reachable_log ops"
  have held: "held_ok ?l" using log_inv_reachable[of ops] by (simp add: log_inv_def)
  have fold: "fold_reservations_from_entries m = Some (held_reservation_map ?l)"
    using held by (simp add: held_ok_def assms(3) fold_reservations_from_entries_def)
  have align: "align_unrecorded_vectors (held_reservation_map m) (held_reservation_map ?l) = held_reservation_map m"
    by (rule align_recorded) (rule held_recorded[OF held])
  have keys: "distinct (map fst (held_reservation_map ?l))" "distinct (map fst (held_reservation_map m))"
    using held assms(2) by (simp_all add: held_ok_def held_reservation_map_def assms(3))
  have views: "map_of (held_reservation_map x) = map_option view_of_row \<circ> map_of (rl_reservations x)" for x
    by (rule ext) (simp add: held_map_of)
  have "digest_of_reservation_map (compute_digest H) dump (held_reservation_map ?l) =
      digest_of_reservation_map (compute_digest H) dump (held_reservation_map m) \<longleftrightarrow>
    map_option view_of_row \<circ> map_of (rl_reservations ?l) = map_option view_of_row \<circ> map_of rows"
    using digest_determines_map[OF assms(1) assms(4) keys] unfolding views by (simp add: assms(3))
  then show ?thesis by (auto simp: verify_replay_def fold align replay_reproduces_state_def)
qed

text \<open>A log with one reservation, committed and then released.\<close>

definition demo_vector :: capacity_vector where
  "demo_vector = CapacityVector
    [make_component (Some ''GROSS_NOTIONAL'') (Some (Dec 5 0)) (Some ''KRW'') None empty_descriptor]"

definition demo_transition ::
  "pystr \<Rightarrow> capacity_state \<Rightarrow> capacity_state \<Rightarrow> transition_cause \<Rightarrow> bool option \<Rightarrow> int \<Rightarrow> log_op" where
  "demo_transition i a b c w k = TransitionOp NoFault
    \<lparr>tr_transition =
       \<lparr>ct_reservation_id = Some i, ct_seq = None, ct_writer_epoch = Some 1, ct_from_state = Some a,
        ct_to_state = Some b, ct_scope = Some \<lparr>rs_account = ''A'', rs_instrument = ''X''\<rparr>,
        ct_committed_vector = Some demo_vector\<rparr>,
     tr_cause = c, tr_command_type = COMMIT_RESERVATION, tr_command_id = nat_str (nat (k + 1)),
     tr_command_digest = None, tr_expected_seq = k, tr_finality_witness = w\<rparr>"

definition demo_ops :: "pystr \<Rightarrow> log_op list" where
  "demo_ops i =
    [AcquireOp demo_acquisition,
     demo_transition i COMMITTED_UNBOUND POTENTIALLY_LIVE STRONGLY_AUTHORIZED_COMMAND None (- 1),
     demo_transition i POTENTIALLY_LIVE RELEASED FINAL_QUANTITY_PROOF (Some True) 0]"

lemmas log_eval =
  reachable_log_def acquire_epoch_def demo_acquisition_def fresh_log_def current_epoch_def
  commit_entry_row_def pre_insert_checks_def stale_writer_epoch_def current_seq_tip_def
  classify_duplicate_command_def existing_command_row_def insert_entry_and_reservation_def
  upsert_reservation_projection_def apply_reservation_transition_def reservation_lifecycle_refusal_def
  structurally_legal_iff release_admissible_def witness_required_destinations_def
  check_reservation_from_state_def initial_reservation_states_def reservation_transition_payload_def
  demo_transition_def demo_ops_def evidence_of_def transition_allowed_def weak_causes_def

lemma nat_str_eq: "nat_str m = nat_str n \<longleftrightarrow> m = n"
  using nat_str_inj by blast

lemma demo_log_reservations:
  "rl_reservations (reachable_log (demo_ops ''p'')) =
    [(''p'', \<lparr>rr_state = RELEASED, rr_last_seq = 1,
              rr_scope = \<lparr>rs_account = ''A'', rs_instrument = ''X''\<rparr>,
              rr_committed_vector = Some demo_vector\<rparr>)]"
  by (simp add: log_eval Let_def nat_str_eq)

theorem tampering_is_detected_witness:
  "verify_replay (compute_digest id) (\<lambda>v. ''v'')
     ((reachable_log (demo_ops ''p''))\<lparr>rl_reservations := []\<rparr>) =
   Inl (CommitLogCorruption INTEGRITY_VIOLATION)"
proof -
  have "held_reservation_map ((reachable_log (demo_ops ''p''))\<lparr>rl_reservations := []\<rparr>) = []"
    by (simp add: held_reservation_map_def)
  then have f: "faithful_dump (\<lambda>v. ''v'')
      (set (recorded_vectors (held_reservation_map (reachable_log (demo_ops ''p'')) @
        held_reservation_map ((reachable_log (demo_ops ''p''))\<lparr>rl_reservations := []\<rparr>))))"
    by (simp add: held_reservation_map_def demo_log_reservations recorded_vectors_def view_of_row_def
        List.map_filter_simps faithful_dump_def unrecorded_vector_def)
  have "(map_option view_of_row \<circ> map_of []) ''p'' \<noteq>
      (map_option view_of_row \<circ> map_of (rl_reservations (reachable_log (demo_ops ''p'')))) ''p''"
    by (simp add: demo_log_reservations)
  then have ne: "map_option view_of_row \<circ> map_of [] \<noteq>
      map_option view_of_row \<circ> map_of (rl_reservations (reachable_log (demo_ops ''p'')))"
    by metis
  show ?thesis
    using tampering_is_detected[OF _ _ refl f, of id] ne by (simp add: collision_def)
qed

section \<open>Reservations\<close>

text \<open>
  C17: every reservation of a reachable log got its state through the transitions the log recorded for it: the
  first starts from the committed state, each of the others starts in the state the one before it recorded as
  its destination, each is allowed under its own recorded cause, one into the released or the consumed state
  carries a literally true finality witness, and the last one ends in the state that is held; so a released
  reservation ended with a final-quantity proof, nothing is recorded after that, and a reservation that is not
  held has no recorded transition.
\<close>

theorem held_states_have_legal_histories:
  "case map_of (rl_reservations (reachable_log ops)) i of
     None \<Rightarrow> recorded_transitions (reachable_log ops) i = []
   | Some row \<Rightarrow>
       recorded_transitions (reachable_log ops) i \<noteq> [] \<and>
       linked COMMITTED_UNBOUND (recorded_transitions (reachable_log ops) i) (rr_state row) \<and>
       (rr_state row = RELEASED \<longrightarrow>
         tp_cause (last (recorded_transitions (reachable_log ops) i)) = Some FINAL_QUANTITY_PROOF \<and>
         tp_finality_witness (last (recorded_transitions (reachable_log ops) i)) = Some True) \<and>
       RELEASED \<notin> (the \<circ> tp_to_state) ` set (butlast (recorded_transitions (reachable_log ops) i))"
proof (cases "map_of (rl_reservations (reachable_log ops)) i")
  case None
  have "chain_ok (reachable_log ops) i" using log_inv_reachable[of ops] by (simp add: log_inv_def)
  with None show ?thesis by (simp add: chain_ok_def)
next
  case (Some row)
  let ?ts = "recorded_transitions (reachable_log ops) i"
  have "chain_ok (reachable_log ops) i" using log_inv_reachable[of ops] by (simp add: log_inv_def)
  then have run: "linked COMMITTED_UNBOUND ?ts (rr_state row)" and ne: "?ts \<noteq> []"
    using Some by (simp_all add: chain_ok_def)
  note last = linked_last[OF run ne]
  have "tp_cause (last ?ts) = Some FINAL_QUANTITY_PROOF \<and> tp_finality_witness (last ?ts) = Some True"
    if "rr_state row = RELEASED"
    using that cap_run_last_proof[OF linked_run[OF run]] ne last by (auto simp: last_map witnessed_def)
  with Some run ne linked_released_last[OF run] show ?thesis by simp
qed

theorem held_states_have_legal_histories_witness:
  "linked COMMITTED_UNBOUND (recorded_transitions (reachable_log (demo_ops ''p'')) ''p'') RELEASED \<and>
   length (recorded_transitions (reachable_log (demo_ops ''p'')) ''p'') = 2 \<and>
   tp_finality_witness (last (recorded_transitions (reachable_log (demo_ops ''p'')) ''p'')) = Some True"
proof -
  have "map_of (rl_reservations (reachable_log (demo_ops ''p''))) ''p'' =
    Some \<lparr>rr_state = RELEASED, rr_last_seq = 1,
          rr_scope = \<lparr>rs_account = ''A'', rs_instrument = ''X''\<rparr>, rr_committed_vector = Some demo_vector\<rparr>"
    by (simp add: demo_log_reservations)
  moreover have "length (recorded_transitions (reachable_log (demo_ops ''p'')) ''p'') = 2"
    by (simp add: recorded_transitions_def recorded_transition_def List.map_filter_def log_eval Let_def nat_str_eq)
  ultimately show ?thesis using held_states_have_legal_histories[of "demo_ops ''p''" "''p''"] by simp
qed

text \<open>
  Release is final: once a reservation's row is released, no operation, under any fault, ever
  changes its state, its scope, its vector or its last sequence number.
\<close>

theorem release_is_final:
  assumes "map_of (rl_reservations (reachable_log ops)) i = Some row" "rr_state row = RELEASED"
  shows "map_of (rl_reservations (reachable_log (ops @ ps))) i = Some row"
  using released_run[OF assms] by (simp only: reachable_append)

theorem release_is_final_witness:
  "map_option rr_state (map_of (rl_reservations (reachable_log (demo_ops ''p'' @
    [demo_transition ''p'' RELEASED POTENTIALLY_LIVE STRONGLY_AUTHORIZED_COMMAND None 1]))) ''p'') = Some RELEASED"
proof -
  have row: "map_of (rl_reservations (reachable_log (demo_ops ''p''))) ''p'' =
    Some \<lparr>rr_state = RELEASED, rr_last_seq = 1,
          rr_scope = \<lparr>rs_account = ''A'', rs_instrument = ''X''\<rparr>, rr_committed_vector = Some demo_vector\<rparr>"
    by (simp add: demo_log_reservations)
  show ?thesis using release_is_final[OF row, of
      "[demo_transition ''p'' RELEASED POTENTIALLY_LIVE STRONGLY_AUTHORIZED_COMMAND None 1]"] by simp
qed

text \<open>
  C18: nothing is committed without its evidence: for every entry of a reachable log, whatever
  crashed or failed, the evidence store holds a record with the entry's sequence number, epoch,
  command, digest and kind, of the evidence kind of the operation that wrote the entry.
\<close>

theorem every_entry_has_evidence:
  "list_all (\<lambda>r. list_ex (\<lambda>v. evidences v r) (rl_evidence (reachable_log ops)))
    (rl_entries (reachable_log ops))"
  using log_inv_reachable[of ops]
  by (simp add: log_inv_def evidence_ok_def list_all_iff list_ex_iff)


section \<open>The transition history\<close>

lemma every_entry:
  assumes "\<And>l r. request_ok r \<Longrightarrow> P (committed_row l r)"
  shows "r \<in> set (rl_entries (reachable_log ops)) \<Longrightarrow> P r"
proof (induction ops arbitrary: r rule: rev_induct)
  case Nil
  then show ?case by (simp add: reachable_log_def fresh_log_def)
next
  case (snoc p ops)
  let ?l = "reachable_log ops"
  have mem: "r \<in> set (rl_entries (log_step ?l p))" using snoc.prems by (simp add: reachable_append)
  show ?case
  proof (cases rule: log_step_cases[where l = ?l and p = p])
    case nothing
    with mem snoc.IH show ?thesis by simp
  next
    case (acquired q)
    with mem snoc.IH show ?thesis by simp
  next
    case (transaction f q)
    obtain l' res where c: "commit_entry_row f ?l q = (l', res)" by (cases "commit_entry_row f ?l q")
    from c show ?thesis
    proof (cases rule: commit_entry_row_cases)
      case (rolled_back xs)
      with c transaction mem snoc.IH show ?thesis by simp
    next
      case committed
      then have "l' = committed_log ?l q" by (simp add: committed_log_def)
      with c transaction mem snoc.IH assms[OF transaction(2), of ?l] show ?thesis by auto
    qed
  qed
qed

definition identified :: "entry_row \<Rightarrow> bool" where
  "identified r =
    (er_command_id r \<noteq> [] \<and>
     (case er_payload r of
       Some (TransitionJson p) \<Rightarrow>
         tp_reservation_id p \<noteq> Some [] \<and>
         map_option rs_account (tp_scope p) \<noteq> Some [] \<and>
         map_option rs_instrument (tp_scope p) \<noteq> Some []
     | _ \<Rightarrow> True))"

definition complete_row :: "entry_row \<Rightarrow> bool" where
  "complete_row r =
    (er_kind r \<noteq> None \<and>
     (case er_payload r of
       Some (TransitionJson p) \<Rightarrow>
         tp_reservation_id p \<noteq> None \<and> tp_scope p \<noteq> None \<and> tp_from_state p \<noteq> None \<and>
         tp_to_state p \<noteq> None \<and> tp_cause p \<noteq> None
     | _ \<Rightarrow> False))"

lemma entries_complete:
  assumes "r \<in> set (rl_entries (reachable_log ops))" "er_is_reservation_transition r"
  shows "complete_row r" "0 \<le> er_seq r" "er_seq r \<le> current_seq_tip (reachable_log ops)"
proof -
  have "er_is_reservation_transition r \<longrightarrow> complete_row r"
    by (rule every_entry[OF _ assms(1)])
      (auto simp: request_ok_def committed_row_def complete_row_def split: option.splits)
  with assms(2) show "complete_row r" by simp
  have seqs: "seqs_ok (reachable_log ops)" using log_inv_reachable[of ops] by (simp add: log_inv_def)
  have "er_seq r \<in> set (map er_seq (rl_entries (reachable_log ops)))" using assms(1) by simp
  then have "er_seq r \<in> set (map int [0..<length (rl_entries (reachable_log ops))])"
    using seqs unfolding seqs_ok_def by (simp only:)
  then show "0 \<le> er_seq r" "er_seq r \<le> current_seq_tip (reachable_log ops)"
    unfolding tip_length[OF seqs] by auto
qed

lemma transition_record_iff:
  "complete_row r \<Longrightarrow> 0 \<le> er_seq r \<Longrightarrow> transition_record_from_row r \<noteq> None \<longleftrightarrow> identified r"
  by (auto simp: complete_row_def transition_record_from_row_def identified_def
      split: option.splits payload.splits)

lemma those_None_iff: "those xs \<noteq> None \<longleftrightarrow> None \<notin> set xs"
  by (induction xs) (auto split: option.splits)

lemma history_readable:
  "(\<exists>h. reservation_transition_history s dump (reachable_log ops) w = Inr h) \<longleftrightarrow>
    w = current_epoch (reachable_log ops) \<and>
    list_all identified (filter er_is_reservation_transition (rl_entries (reachable_log ops)))"
proof -
  let ?l = "reachable_log ops"
  let ?rows = "filter (\<lambda>r. er_is_reservation_transition r \<and> er_seq r \<le> current_seq_tip ?l) (rl_entries ?l)"
  have rows: "?rows = filter er_is_reservation_transition (rl_entries ?l)"
    using entries_complete(3) by (intro filter_cong) auto
  have "those (map transition_record_from_row ?rows) \<noteq> None \<longleftrightarrow> list_all identified ?rows"
    using transition_record_iff entries_complete(1,2) unfolding those_None_iff
    by (fastforce simp: list_all_iff image_iff)
  then show ?thesis
    unfolding rows
    by (auto simp: reservation_transition_history_def stale_writer_epoch_def rows Let_def
        verify_replay_reachable split: option.splits)
qed

text \<open>
  The strict history of reservation transitions is readable from a reachable log exactly by the
  holder of the current epoch and exactly as long as no transition was ever committed with an empty
  command identity, reservation identity, account or instrument.
\<close>

theorem history_readable_iff:
  "(\<exists>h. reservation_transition_history s dump (reachable_log ops) w = Inr h) \<longleftrightarrow>
    w = current_epoch (reachable_log ops) \<and>
    list_all identified (filter er_is_reservation_transition (rl_entries (reachable_log ops)))"
  by (rule history_readable)

text \<open>
  Yet the writer accepts such identities: committing a transition of a reservation named by the
  empty string succeeds, and from then on the history of the whole log can never be read again,
  whatever operations follow.
\<close>

theorem empty_identity_ends_history:
  "map_of (rl_reservations (reachable_log (demo_ops []))) [] \<noteq> None \<and>
   (\<forall>ps w h. reservation_transition_history s dump (reachable_log (demo_ops [] @ ps)) w \<noteq> Inr h)"
proof -
  let ?l = "reachable_log (demo_ops [])"
  have bad: "\<exists>r \<in> set (rl_entries ?l). er_is_reservation_transition r \<and> \<not> identified r"
    by (simp add: log_eval Let_def nat_str_eq identified_def)
  have "\<not> list_all identified (filter er_is_reservation_transition (rl_entries (reachable_log (demo_ops [] @ ps))))"
    for ps
  proof -
    obtain xs where "rl_entries (reachable_log (demo_ops [] @ ps)) = rl_entries ?l @ xs"
      using log_run_extends unfolding reachable_append by blast
    with bad show ?thesis by (auto simp: list_all_iff)
  qed
  then have "\<forall>ps w h. reservation_transition_history s dump (reachable_log (demo_ops [] @ ps)) w \<noteq> Inr h"
    using history_readable by blast
  moreover have "map_of (rl_reservations ?l) [] \<noteq> None" by (simp add: log_eval Let_def nat_str_eq)
  ultimately show ?thesis by blast
qed

end
