(* ===== verification/Reservation_Identity.thy ===== *)
theory Reservation_Identity
  imports Sqlite_Properties
begin

text \<open>
  How the runtime names the reservation of an attempt (\<^verbatim>\<open>reservation_identity.py\<close>), how it
  finds it again from the evidence store (\<^verbatim>\<open>reservation_lookup.py\<close>) and how a finality proof
  becomes the witness of a release (\<^verbatim>\<open>finality_witness.py\<close>).  Python's sets of strings are
  lists without duplicates; the evidence store is the list of its rows; a row's payload is what
  decoding its JSON yields.
\<close>

section \<open>Reservation ids\<close>

definition prefix :: pystr where
  "prefix = ''resv''"

definition scope_reservation_id :: "pystr \<Rightarrow> pystr \<Rightarrow> pystr" where
  "scope_reservation_id account instrument = prefix @ ''-'' @ account @ ''-'' @ instrument"

definition permit_reservation_id :: "pystr \<Rightarrow> pystr \<Rightarrow> pystr \<Rightarrow> pystr" where
  "permit_reservation_id account instrument permit_identity =
    scope_reservation_id account instrument @ ''-'' @ permit_identity"

definition reservation_id_in_scope :: "reservation_scope \<Rightarrow> pystr option \<Rightarrow> pystr option" where
  "reservation_id_in_scope k permit_identity =
    (case permit_identity of
      None \<Rightarrow> None
    | Some p \<Rightarrow>
        if p = [] then None else Some (permit_reservation_id (rs_account k) (rs_instrument k) p))"

definition starts_with :: "pystr \<Rightarrow> pystr \<Rightarrow> bool" where
  "starts_with p s = (take (length p) s = p)"

definition permit_identity_of :: "pystr \<Rightarrow> pystr \<Rightarrow> pystr \<Rightarrow> pystr option" where
  "permit_identity_of reservation_id account instrument =
    (let p = scope_reservation_id account instrument @ ''-''
     in if \<not> starts_with p reservation_id then None
        else let permit_identity = drop (length p) reservation_id
             in if permit_identity = [] then None else Some permit_identity)"

text \<open>
  C19: within one scope, reading back the permit identity inverts writing it, and it is read from
  nothing but an id written in that scope: \<open>permit_identity_of\<close> yields \<open>p\<close> exactly on the id of
  \<open>p\<close>, for non-empty \<open>p\<close>.
\<close>

theorem permit_identity_roundtrip:
  "permit_identity_of i account instrument = Some p \<longleftrightarrow>
    i = permit_reservation_id account instrument p \<and> p \<noteq> []"
proof -
  have "take (length q) i = q \<and> drop (length q) i = p \<longleftrightarrow> i = q @ p" for q
    by (metis append_eq_conv_conj)
  from this[of "scope_reservation_id account instrument @ ''-''"] show ?thesis
    by (auto simp: permit_identity_of_def starts_with_def permit_reservation_id_def Let_def)
qed

text \<open>
  The identity does not say which scope it was written in: two scopes may spell the same
  reservation id, and a reservation of one may be read back under another as a permit identity that
  was never issued.
\<close>

theorem scopes_share_reservation_ids:
  "permit_reservation_id ''88-01'' ''A'' ''p'' = permit_reservation_id ''88'' ''01-A'' ''p'' \<and>
   permit_identity_of (permit_reservation_id ''88-01'' ''A'' ''p'') ''88'' ''01'' = Some ''A-p''"
  by (simp add: permit_reservation_id_def scope_reservation_id_def permit_identity_of_def
      starts_with_def prefix_def)

section \<open>The join\<close>

datatype join_payload =
  NoObject
| JoinFields "pystr option" "pystr option" "pystr option" "pystr option"

text \<open>The fields are the event id, the attempt id, the step and the bound identity, when strings.\<close>

record evidence_row =
  ev_seq :: int
  ev_kind :: pystr
  ev_payload :: "join_payload option"

definition flow_step_admitted :: pystr where "flow_step_admitted = ''FLOW_STEP_ADMITTED''"
definition attempt_request_created :: pystr where "attempt_request_created = ''ATTEMPT_REQUEST_CREATED''"
definition atomic_commit :: pystr where "atomic_commit = ''ATOMIC_COMMIT''"

definition single :: "pystr list \<Rightarrow> pystr option" where
  "single values = (case values of [v] \<Rightarrow> Some v | _ \<Rightarrow> None)"

type_synonym multimap = "pystr \<rightharpoonup> pystr list"

definition members :: "multimap \<Rightarrow> pystr \<Rightarrow> pystr list" where
  "members m k = (case m k of None \<Rightarrow> [] | Some vs \<Rightarrow> vs)"

definition add_member :: "pystr \<Rightarrow> pystr \<Rightarrow> multimap \<Rightarrow> multimap" where
  "add_member k v m = m(k \<mapsto> List.insert v (members m k))"

record join_index =
  ji_last_seq :: int
  ji_events_by_attempt :: multimap
  ji_attempts_by_event :: multimap
  ji_permits_by_event :: multimap
  ji_events_by_permit :: multimap

definition empty_index :: join_index where
  "empty_index =
    \<lparr>ji_last_seq = - 1, ji_events_by_attempt = Map.empty, ji_attempts_by_event = Map.empty,
     ji_permits_by_event = Map.empty, ji_events_by_permit = Map.empty\<rparr>"

definition absorb_row :: "join_index \<Rightarrow> evidence_row \<Rightarrow> join_index" where
  "absorb_row ix r =
    (let jx = ix\<lparr>ji_last_seq := max (ji_last_seq ix) (ev_seq r)\<rparr>
     in case ev_payload r of
       Some (JoinFields (Some event_id) attempt step bound) \<Rightarrow>
         if ev_kind r = attempt_request_created then
           (case attempt of
             None \<Rightarrow> jx
           | Some a \<Rightarrow>
               jx\<lparr>ji_events_by_attempt := add_member a event_id (ji_events_by_attempt jx),
                  ji_attempts_by_event := add_member event_id a (ji_attempts_by_event jx)\<rparr>)
         else if step = Some atomic_commit then
           (case bound of
             None \<Rightarrow> jx
           | Some p \<Rightarrow>
               jx\<lparr>ji_permits_by_event := add_member event_id p (ji_permits_by_event jx),
                  ji_events_by_permit := add_member p event_id (ji_events_by_permit jx)\<rparr>)
         else jx
     | _ \<Rightarrow> jx)"

definition join_row :: "evidence_row \<Rightarrow> bool" where
  "join_row r = (ev_kind r \<in> {attempt_request_created, flow_step_admitted})"

text \<open>\<open>None\<close>: decoding a row raised, and the index stays as it was.\<close>

definition absorb :: "evidence_row list \<Rightarrow> join_index \<Rightarrow> join_index option" where
  "absorb store ix =
    (let rows = filter (\<lambda>r. join_row r \<and> ji_last_seq ix < ev_seq r) (sort_key ev_seq store)
     in if list_ex (\<lambda>r. ev_payload r = None) rows then None else Some (foldl absorb_row ix rows))"

definition max_seq :: "evidence_row list \<Rightarrow> int" where
  "max_seq store = fold max (map ev_seq store) (- 1)"

text \<open>
  The index for one lookup (\<open>None\<close>: it raised) and the cache afterwards.  A cache is replaced before
  the rows are absorbed, so a decoding error leaves the new empty index behind.
\<close>

definition with_index ::
  "bool \<Rightarrow> evidence_row list \<Rightarrow> join_index option \<Rightarrow> join_index option \<times> join_index option" where
  "with_index in_transaction store cache =
    (if in_transaction then (absorb store empty_index, cache)
     else let ix = (case cache of
                None \<Rightarrow> empty_index
              | Some ix \<Rightarrow> if max_seq store < ji_last_seq ix then empty_index else ix)
          in case absorb store ix of
               None \<Rightarrow> (None, Some ix)
             | Some jx \<Rightarrow> (Some jx, Some jx))"

definition permit_identity_for_attempt :: "join_index \<Rightarrow> pystr \<Rightarrow> pystr option" where
  "permit_identity_for_attempt ix attempt_id =
    (let event_ids = members (ji_events_by_attempt ix) attempt_id
     in if event_ids = [] then None
        else single (remdups (concat (map (members (ji_permits_by_event ix)) event_ids))))"

definition attempt_id_for_reservation :: "join_index \<Rightarrow> pystr \<Rightarrow> pystr option" where
  "attempt_id_for_reservation ix permit_identity =
    (let event_ids = members (ji_events_by_permit ix) permit_identity
     in if event_ids = [] then None
        else single (remdups (concat (map (members (ji_attempts_by_event ix)) event_ids))))"

definition reservation_id_for_attempt ::
  "join_index \<Rightarrow> rcl_log \<Rightarrow> pystr \<Rightarrow> pystr \<Rightarrow> pystr \<Rightarrow> pystr option" where
  "reservation_id_for_attempt ix l account instrument attempt_id =
    (case permit_identity_for_attempt ix attempt_id of
      None \<Rightarrow> None
    | Some permit_identity \<Rightarrow>
        (let candidate = permit_reservation_id account instrument permit_identity;
             legacy = scope_reservation_id account instrument
         in if reservation_state l candidate \<noteq> None then Some candidate
            else if reservation_state l legacy \<noteq> None then Some legacy
            else None))"

section \<open>Release\<close>

definition finality_witness_for :: "'proof option \<Rightarrow> bool option" where
  "finality_witness_for pf = (if pf \<noteq> None then Some True else None)"

definition release_reservation ::
  "fault \<Rightarrow> rcl_log \<Rightarrow> capacity_reservation_transition \<Rightarrow> pystr \<Rightarrow> pystr option \<Rightarrow> int \<Rightarrow>
    'proof option \<Rightarrow> rcl_log \<times> (reservation_refusal_reason, append_result) result" where
  "release_reservation f l t command_id command_digest expected_seq pf =
    apply_reservation_transition f l
      \<lparr>tr_transition = t, tr_cause = FINAL_QUANTITY_PROOF, tr_command_type = RELEASE_RESERVATION,
       tr_command_id = command_id, tr_command_digest = command_digest,
       tr_expected_seq = expected_seq, tr_finality_witness = finality_witness_for pf\<rparr>"


section \<open>The cached join is the full one\<close>

definition history_ok :: "evidence_row list \<Rightarrow> bool" where
  "history_ok rows = (sorted_wrt (<) (map ev_seq rows) \<and> list_all (\<lambda>r. 0 \<le> ev_seq r) rows)"

lemma history_ok_take: "history_ok rows \<Longrightarrow> history_ok (take n rows)"
  by (auto simp: history_ok_def list_all_iff take_map[symmetric] sorted_wrt_take dest: in_set_takeD)

lemma history_sorted: "history_ok rows \<Longrightarrow> sort_key ev_seq rows = rows"
  by (simp add: history_ok_def sort_key_id_if_sorted strict_sorted_imp_sorted)

lemma absorb_row_last [simp]: "ji_last_seq (absorb_row ix r) = max (ji_last_seq ix) (ev_seq r)"
  by (simp add: absorb_row_def Let_def split: option.split join_payload.split)

lemma absorb_rows_last:
  "ji_last_seq (foldl absorb_row ix rs) = fold max (map ev_seq rs) (ji_last_seq ix)"
  by (induction rs arbitrary: ix) (simp_all add: max.commute)

lemma fold_max_le_iff: "fold max xs (a::int) \<le> b \<longleftrightarrow> a \<le> b \<and> (\<forall>x \<in> set xs. x \<le> b)"
  by (induction xs arbitrary: a) auto

lemma le_fold_max_iff: "(b::int) \<le> fold max xs a \<longleftrightarrow> b \<le> a \<or> (\<exists>x \<in> set xs. b \<le> x)"
  by (induction xs arbitrary: a) auto

definition join_rows :: "evidence_row list \<Rightarrow> evidence_row list" where
  "join_rows rows = filter join_row rows"

lemma absorb_empty:
  assumes "history_ok rows"
  shows "absorb rows empty_index =
    (if list_ex (\<lambda>r. ev_payload r = None) (join_rows rows) then None
     else Some (foldl absorb_row empty_index (join_rows rows)))"
proof -
  have "filter (\<lambda>r. join_row r \<and> - 1 < ev_seq r) rows = join_rows rows"
    unfolding join_rows_def using assms by (intro filter_cong) (auto simp: history_ok_def list_all_iff)
  then show ?thesis using assms by (simp add: absorb_def history_sorted empty_index_def)
qed

text \<open>Absorbing after a prefix of the same history reads exactly the rows that are missing.\<close>

lemma missing_rows:
  assumes "history_ok rows" "tip = fold max (map ev_seq (join_rows (take k rows))) (- 1)"
    "tip \<le> max_seq (take n rows)"
  shows "join_rows (take n rows) =
    join_rows (take k rows) @ filter (\<lambda>r. join_row r \<and> tip < ev_seq r) (take n rows)"
proof (cases "k \<le> n")
  case True
  define xs where "xs = take (n - k) (drop k rows)"
  have split: "take n rows = take k rows @ xs" using True by (simp add: xs_def flip: take_add)
  have ok: "history_ok (take k rows @ xs)" using history_ok_take[OF assms(1), of n] split by simp
  have "\<not> (join_row r \<and> tip < ev_seq r)" if "r \<in> set (take k rows)" for r
    using that by (auto simp: assms(2) join_rows_def not_less le_fold_max_iff)
  then have a: "filter (\<lambda>r. join_row r \<and> tip < ev_seq r) (take k rows) = []"
    by (simp add: filter_empty_conv)
  have "tip < ev_seq r" if "r \<in> set xs" for r
  proof -
    have "0 \<le> ev_seq r" using ok that by (simp add: history_ok_def list_all_iff)
    then have "tip \<le> ev_seq r - 1" unfolding assms(2) fold_max_le_iff
      using ok that by (auto simp: history_ok_def sorted_wrt_append join_rows_def)
    then show ?thesis by simp
  qed
  then have b: "filter (\<lambda>r. join_row r \<and> tip < ev_seq r) xs = filter join_row xs"
    by (intro filter_cong) auto
  show ?thesis unfolding split filter_append a b by (simp add: join_rows_def)
next
  case False
  define ys where "ys = take (k - n) (drop n rows)"
  have split: "take k rows = take n rows @ ys" using False by (simp add: ys_def flip: take_add)
  have ok: "history_ok (take n rows @ ys)" using history_ok_take[OF assms(1), of k] split by simp
  have "\<not> join_row r" if r: "r \<in> set ys" for r
  proof
    assume "join_row r"
    then have "ev_seq r \<le> tip"
      using r by (auto simp: assms(2) join_rows_def split le_fold_max_iff)
    moreover have "0 \<le> ev_seq r" "\<forall>x \<in> set (take n rows). ev_seq x < ev_seq r"
      using ok r by (simp_all add: history_ok_def sorted_wrt_append list_all_iff)
    then have "max_seq (take n rows) < ev_seq r" by (auto simp: max_seq_def not_le[symmetric] le_fold_max_iff)
    ultimately show False using assms(3) by simp
  qed
  then have ys: "filter join_row ys = []" by (simp add: filter_empty_conv)
  have "\<not> (join_row r \<and> tip < ev_seq r)" if "r \<in> set (take n rows)" for r
    using that by (auto simp: assms(2) join_rows_def split not_less le_fold_max_iff)
  then have "filter (\<lambda>r. join_row r \<and> tip < ev_seq r) (take n rows) = []"
    by (simp add: filter_empty_conv)
  with ys show ?thesis by (simp add: split join_rows_def)
qed

definition cache_ok :: "evidence_row list \<Rightarrow> join_index option \<Rightarrow> bool" where
  "cache_ok rows cache = (\<forall>ix. cache = Some ix \<longrightarrow> (\<exists>k. absorb (take k rows) empty_index = Some ix))"

lemma absorb_take:
  assumes "history_ok rows" "absorb (take k rows) empty_index = Some ix"
    "ji_last_seq ix \<le> max_seq (take n rows)"
  shows "absorb (take n rows) ix = absorb (take n rows) empty_index"
proof -
  let ?P = "join_rows (take k rows)"
  have P: "\<not> list_ex (\<lambda>r. ev_payload r = None) ?P" "ix = foldl absorb_row empty_index ?P"
    using assms(2) absorb_empty[OF history_ok_take[OF assms(1)], of k] by (auto split: if_splits)
  then have last: "ji_last_seq ix = fold max (map ev_seq ?P) (- 1)"
    by (simp add: absorb_rows_last) (simp add: empty_index_def)
  note rows = missing_rows[OF assms(1) last assms(3)]
  show ?thesis
    unfolding absorb_empty[OF history_ok_take[OF assms(1)]] rows
    using P by (simp add: absorb_def history_sorted[OF history_ok_take[OF assms(1)]])
qed

lemma with_index_ok:
  assumes "history_ok rows" "cache_ok rows cache"
  shows "fst (with_index b (take n rows) cache) = absorb (take n rows) empty_index"
    and "cache_ok rows (snd (with_index b (take n rows) cache))"
proof -
  define ix where "ix = (case cache of None \<Rightarrow> empty_index
    | Some ix \<Rightarrow> if max_seq (take n rows) < ji_last_seq ix then empty_index else ix)"
  have empty: "\<exists>k. absorb (take k rows) empty_index = Some empty_index"
    by (rule exI[of _ 0]) (simp add: absorb_def)
  have "absorb (take n rows) ix = absorb (take n rows) empty_index"
    using assms absorb_take[OF assms(1), of _ _ n]
    by (auto simp: ix_def cache_ok_def not_less split: option.split)
  moreover have "\<exists>k. absorb (take k rows) empty_index = Some ix"
    using assms(2) empty by (auto simp: ix_def cache_ok_def split: option.split)
  ultimately show "fst (with_index b (take n rows) cache) = absorb (take n rows) empty_index"
    "cache_ok rows (snd (with_index b (take n rows) cache))"
    using assms(2) by (auto simp: with_index_def Let_def cache_ok_def ix_def[symmetric] split: option.split)
qed

definition cache_after :: "evidence_row list list \<Rightarrow> join_index option" where
  "cache_after stores = foldl (\<lambda>cache store. snd (with_index False store cache)) None stores"

lemma cache_after_ok:
  assumes "history_ok rows"
  shows "cache_ok rows (cache_after (map (\<lambda>k. take k rows) ns))"
  unfolding cache_after_def
proof (induction ns rule: rev_induct)
  case (snoc n ns)
  with with_index_ok(2)[OF assms snoc] show ?case by simp
qed (simp add: cache_ok_def)

text \<open>
  After any sequence of lookups at any points of one growing store, the cached index answers
  exactly as a scan of the whole store would, also when decoding a row raises, inside a transaction
  or not, and also when the store is cut back.
\<close>

theorem cached_join_is_full_scan:
  assumes "history_ok rows"
  shows "fst (with_index b (take n rows) (cache_after (map (\<lambda>k. take k rows) ns))) =
    absorb (take n rows) empty_index"
  using with_index_ok(1)[OF assms cache_after_ok[OF assms]] .

definition demo_rows :: "evidence_row list" where
  "demo_rows =
    [\<lparr>ev_seq = 0, ev_kind = flow_step_admitted,
       ev_payload = Some (JoinFields (Some ''e'') None (Some atomic_commit) (Some ''p''))\<rparr>,
     \<lparr>ev_seq = 3, ev_kind = attempt_request_created,
       ev_payload = Some (JoinFields (Some ''e'') (Some ''a'') None None)\<rparr>]"

theorem cached_join_is_full_scan_witness:
  "map_option (\<lambda>ix. permit_identity_for_attempt ix ''a'')
    (fst (with_index False (take 2 demo_rows) (cache_after (map (\<lambda>k. take k demo_rows) [1, 2, 0])))) =
   Some (Some ''p'')"
proof -
  have "history_ok demo_rows" by (simp add: history_ok_def demo_rows_def)
  from cached_join_is_full_scan[OF this, of False 2 "[1, 2, 0]"] show ?thesis
    by (simp add: absorb_def demo_rows_def join_row_def absorb_row_def empty_index_def Let_def
        permit_identity_for_attempt_def members_def add_member_def single_def flow_step_admitted_def
        attempt_request_created_def atomic_commit_def)
qed


section \<open>What the join means\<close>

definition attempted_row :: "evidence_row \<Rightarrow> pystr \<Rightarrow> pystr \<Rightarrow> bool" where
  "attempted_row r event_id attempt_id =
    (ev_kind r = attempt_request_created \<and>
     (case ev_payload r of
       Some (JoinFields e a _ _) \<Rightarrow> e = Some event_id \<and> a = Some attempt_id | _ \<Rightarrow> False))"

definition permitted_row :: "evidence_row \<Rightarrow> pystr \<Rightarrow> pystr \<Rightarrow> bool" where
  "permitted_row r event_id permit_identity =
    (ev_kind r = flow_step_admitted \<and>
     (case ev_payload r of
       Some (JoinFields e _ step p) \<Rightarrow>
         e = Some event_id \<and> step = Some atomic_commit \<and> p = Some permit_identity
     | _ \<Rightarrow> False))"

definition attempted :: "evidence_row list \<Rightarrow> pystr \<Rightarrow> pystr \<Rightarrow> bool" where
  "attempted rows event_id attempt_id = list_ex (\<lambda>r. attempted_row r event_id attempt_id) rows"

definition permitted :: "evidence_row list \<Rightarrow> pystr \<Rightarrow> pystr \<Rightarrow> bool" where
  "permitted rows event_id permit_identity = list_ex (\<lambda>r. permitted_row r event_id permit_identity) rows"

lemma members_add [simp]:
  "set (members (add_member k v m) j) = (if j = k then insert v (set (members m j)) else set (members m j))"
  by (auto simp: members_def add_member_def split: option.splits)

lemma members_empty [simp]: "members Map.empty k = []"
  by (simp add: members_def)

lemma kinds_differ [simp]:
  "attempt_request_created \<noteq> flow_step_admitted" "flow_step_admitted \<noteq> attempt_request_created"
  by (simp_all add: attempt_request_created_def flow_step_admitted_def)

lemma absorb_row_members:
  assumes "join_row r"
  shows "set (members (ji_events_by_attempt (absorb_row ix r)) a) =
      set (members (ji_events_by_attempt ix) a) \<union> {e. attempted_row r e a}"
    and "set (members (ji_attempts_by_event (absorb_row ix r)) e) =
      set (members (ji_attempts_by_event ix) e) \<union> {a. attempted_row r e a}"
    and "set (members (ji_events_by_permit (absorb_row ix r)) p) =
      set (members (ji_events_by_permit ix) p) \<union> {e. permitted_row r e p}"
    and "set (members (ji_permits_by_event (absorb_row ix r)) e) =
      set (members (ji_permits_by_event ix) e) \<union> {p. permitted_row r e p}"
  using assms
  by (auto simp: absorb_row_def attempted_row_def permitted_row_def join_row_def Let_def
      split: option.splits join_payload.splits)

lemma absorbed_members:
  assumes "list_all join_row rs" "ix = foldl absorb_row empty_index rs"
  shows "set (members (ji_events_by_attempt ix) a) = {e. attempted rs e a} \<and>
    set (members (ji_attempts_by_event ix) e) = {a. attempted rs e a} \<and>
    set (members (ji_events_by_permit ix) p) = {e. permitted rs e p} \<and>
    set (members (ji_permits_by_event ix) e) = {p. permitted rs e p}"
  using assms
proof (induction rs arbitrary: ix rule: rev_induct)
  case Nil
  then show ?case by (simp add: empty_index_def attempted_def permitted_def)
next
  case (snoc r rs)
  then have "join_row r" by simp
  from snoc absorb_row_members[OF this] show ?case
    by (auto simp: attempted_def permitted_def)
qed

lemma single_distinct: "distinct ys \<Longrightarrow> single ys = Some v \<longleftrightarrow> set ys = {v}"
  by (auto simp: single_def split: list.split)

lemma single_remdups: "single (remdups xs) = Some v \<longleftrightarrow> set xs = {v}"
  using single_distinct[OF distinct_remdups[of xs]] by simp

lemma join_rows_same: "attempted (join_rows rows) = attempted rows" "permitted (join_rows rows) = permitted rows"
  by (auto simp: attempted_def permitted_def attempted_row_def permitted_row_def join_rows_def join_row_def
      list_ex_iff fun_eq_iff)

lemma index_members:
  assumes "history_ok rows" "absorb rows empty_index = Some ix"
  shows "set (members (ji_events_by_attempt ix) a) = {e. attempted rows e a}"
    and "set (members (ji_attempts_by_event ix) e) = {a. attempted rows e a}"
    and "set (members (ji_events_by_permit ix) p) = {e. permitted rows e p}"
    and "set (members (ji_permits_by_event ix) e) = {p. permitted rows e p}"
proof -
  have ix: "ix = foldl absorb_row empty_index (join_rows rows)"
    using assms(2) unfolding absorb_empty[OF assms(1)] by (simp split: if_splits)
  have "list_all join_row (join_rows rows)" by (simp add: join_rows_def list_all_iff)
  from absorbed_members[OF this ix]
  show "set (members (ji_events_by_attempt ix) a) = {e. attempted rows e a}"
    "set (members (ji_attempts_by_event ix) e) = {a. attempted rows e a}"
    "set (members (ji_events_by_permit ix) p) = {e. permitted rows e p}"
    "set (members (ji_permits_by_event ix) e) = {p. permitted rows e p}"
    by (simp_all add: join_rows_same)
qed

text \<open>The pairs of an attempt and the permit of a flow that created it.\<close>

definition joined :: "evidence_row list \<Rightarrow> pystr \<Rightarrow> pystr \<Rightarrow> bool" where
  "joined rows attempt_id permit_identity =
    (\<exists>e. attempted rows e attempt_id \<and> permitted rows e permit_identity)"

text \<open>
  The two lookups answer exactly when the durable rows leave one answer: the permit of an
  attempt is the only permit of the flows that created the attempt, the attempt of a permit is the
  only attempt of the flows that committed it; so an attempt resolved to a permit and a permit
  resolved back give the same attempt.
\<close>

theorem join_resolves_the_only_answer:
  assumes "history_ok rows" "absorb rows empty_index = Some ix"
  shows "(permit_identity_for_attempt ix a = Some p \<longleftrightarrow> {q. joined rows a q} = {p}) \<and>
    (attempt_id_for_reservation ix p = Some b \<longleftrightarrow> {c. joined rows c p} = {b}) \<and>
    (permit_identity_for_attempt ix a = Some p \<and> attempt_id_for_reservation ix p = Some b \<longrightarrow> a = b)"
proof -
  note m = index_members[OF assms]
  have "set (concat (map (members (ji_permits_by_event ix)) (members (ji_events_by_attempt ix) a))) =
      {q. joined rows a q}"
    by (auto simp: m joined_def)
  then have 1: "permit_identity_for_attempt ix a = Some p \<longleftrightarrow> {q. joined rows a q} = {p}"
    by (auto simp: permit_identity_for_attempt_def Let_def single_remdups)
  have "set (concat (map (members (ji_attempts_by_event ix)) (members (ji_events_by_permit ix) p))) =
      {c. joined rows c p}"
    by (auto simp: m joined_def)
  then have 2: "attempt_id_for_reservation ix p = Some b \<longleftrightarrow> {c. joined rows c p} = {b}"
    by (auto simp: attempt_id_for_reservation_def Let_def single_remdups)
  show ?thesis unfolding 1 2 by blast
qed

theorem join_resolves_the_only_answer_witness:
  "{q. joined demo_rows ''a'' q} = {''p''}"
proof -
  have ok: "history_ok demo_rows" by (simp add: history_ok_def demo_rows_def)
  let ?ix = "foldl absorb_row empty_index demo_rows"
  have ix: "absorb demo_rows empty_index = Some ?ix"
    by (simp add: absorb_def demo_rows_def join_row_def empty_index_def)
  have "permit_identity_for_attempt ?ix ''a'' = Some ''p''"
    by (simp add: demo_rows_def absorb_row_def empty_index_def Let_def
        permit_identity_for_attempt_def members_def add_member_def single_def flow_step_admitted_def
        attempt_request_created_def atomic_commit_def)
  with join_resolves_the_only_answer[OF ok ix] show ?thesis by blast
qed

lemma release_needs_proof:
  "ct_to_state t = Some RELEASED \<Longrightarrow>
    \<exists>x. release_reservation f l t i d k None = (l, Inl x)"
  by (auto simp: release_reservation_def finality_witness_for_def apply_reservation_transition_def
      reservation_lifecycle_refusal_def release_admissible_def witness_required_destinations_def Let_def
      split: option.split)

end
