(* ===== verification/Evidence_Chain.thy ===== *)
theory Evidence_Chain
  imports Canonical
begin

text \<open>
  The append-only evidence ledger: \<^verbatim>\<open>tos/evidence/ledger.py\<close> (segments, anchors, the
  provisional hash chain) and \<^verbatim>\<open>tos/evidence/chain.py\<close> (the HMAC chain and its verification
  across key rotations).  SHA-256 and HMAC are parameters.  Since no hash is injective, what binds a
  commitment to its segment is stated by extraction: two segments with one commitment either are
  equal or exhibit, among the very messages hashed for them, two different messages with one digest.
\<close>

section \<open>Records\<close>

record integrity_anchor =
  ia_anchor_id :: pystr
  ia_segment_commitment :: pystr
  ia_store_continuity_id :: "pystr option"
  ia_policy_generation :: "int option"
  ia_key_generation :: "int option"
  ia_predecessor_anchor :: "pystr option"
  ia_anchor_cadence_ms :: "int option"

definition chain_genesis :: pystr where
  "chain_genesis = []"

section \<open>The provisional hash chain\<close>

definition hash_link :: "(pystr \<Rightarrow> pystr) \<Rightarrow> pystr \<Rightarrow> pystr \<Rightarrow> pystr" where
  "hash_link H commitment digest = H (commitment @ ''|'' @ digest)"

primrec hash_fold :: "(pystr \<Rightarrow> pystr) \<Rightarrow> pystr \<Rightarrow> pystr list \<Rightarrow> pystr" where
  "hash_fold H commitment [] = commitment"
| "hash_fold H commitment (digest # digests) = hash_fold H (hash_link H commitment digest) digests"

definition hash_commit :: "(pystr \<Rightarrow> pystr) \<Rightarrow> pystr list \<Rightarrow> pystr" where
  "hash_commit H digests = hash_fold H chain_genesis digests"

definition hash_verify_append :: "(pystr \<Rightarrow> pystr) \<Rightarrow> pystr \<Rightarrow> pystr list \<Rightarrow> pystr" where
  "hash_verify_append H prev_commitment appended = hash_fold H prev_commitment appended"

definition hash_verify_membership ::
  "(pystr \<Rightarrow> pystr) \<Rightarrow> pystr \<Rightarrow> int \<Rightarrow> pystr \<Rightarrow> pystr list \<Rightarrow> bool" where
  "hash_verify_membership H record_digest position commitment pf =
    (if position < 0 \<or> position \<ge> int (length pf) then False
     else if pf ! nat position \<noteq> record_digest then False
     else hash_commit H pf = commitment)"

definition anchor_id_of :: "(pystr \<Rightarrow> pystr) \<Rightarrow> pystr option \<Rightarrow> pystr \<Rightarrow> pystr" where
  "anchor_id_of H predecessor_anchor commitment =
    ''anchor-'' @ H ((case predecessor_anchor of None \<Rightarrow> [] | Some a \<Rightarrow> a) @ ''|'' @ commitment)"

definition hash_link_anchor ::
  "(pystr \<Rightarrow> pystr) \<Rightarrow> pystr \<Rightarrow> pystr option \<Rightarrow> int option \<Rightarrow> int option \<Rightarrow> pystr option \<Rightarrow>
    int option \<Rightarrow> integrity_anchor" where
  "hash_link_anchor H commitment store_continuity_id policy_generation key_generation
      predecessor_anchor anchor_cadence_ms =
    \<lparr>ia_anchor_id = anchor_id_of H predecessor_anchor commitment,
     ia_segment_commitment = commitment, ia_store_continuity_id = store_continuity_id,
     ia_policy_generation = policy_generation, ia_key_generation = key_generation,
     ia_predecessor_anchor = predecessor_anchor, ia_anchor_cadence_ms = anchor_cadence_ms\<rparr>"

section \<open>The HMAC chain\<close>

record hmac_scheme =
  hs_key :: pystr
  hs_key_generation :: int
  hs_version :: pystr

definition ev_l2_sha256_hmac_chain_version :: pystr where
  "ev_l2_sha256_hmac_chain_version = ''ev-l2-sha256-hmac-chain-1''"

text \<open>The constructor.\<close>

definition make_hmac_scheme ::
  "pystr \<Rightarrow> int option \<Rightarrow> pystr \<Rightarrow> (artifact_error, hmac_scheme) result" where
  "make_hmac_scheme key key_generation version =
    (if key = [] then Inl (ArtifactIntegrityError ''key'')
     else case key_generation of
       None \<Rightarrow> Inl (ArtifactIntegrityError ''key_generation'')
     | Some g \<Rightarrow>
         if g < 0 then Inl (ArtifactIntegrityError ''key_generation'')
         else Inr \<lparr>hs_key = key, hs_key_generation = g, hs_version = version\<rparr>)"

definition hmac_link :: "(pystr \<Rightarrow> pystr \<Rightarrow> pystr) \<Rightarrow> pystr \<Rightarrow> pystr \<Rightarrow> pystr \<Rightarrow> pystr" where
  "hmac_link mac key prev_chain_digest entry_digest = mac key (prev_chain_digest @ entry_digest)"

primrec hmac_fold :: "(pystr \<Rightarrow> pystr \<Rightarrow> pystr) \<Rightarrow> pystr \<Rightarrow> pystr \<Rightarrow> pystr list \<Rightarrow> pystr" where
  "hmac_fold mac key commitment [] = commitment"
| "hmac_fold mac key commitment (digest # digests) =
    hmac_fold mac key (hmac_link mac key commitment digest) digests"

definition hmac_commit :: "(pystr \<Rightarrow> pystr \<Rightarrow> pystr) \<Rightarrow> hmac_scheme \<Rightarrow> pystr list \<Rightarrow> pystr" where
  "hmac_commit mac s digests = hmac_fold mac (hs_key s) chain_genesis digests"

definition hmac_verify_append ::
  "(pystr \<Rightarrow> pystr \<Rightarrow> pystr) \<Rightarrow> hmac_scheme \<Rightarrow> pystr \<Rightarrow> pystr list \<Rightarrow> pystr" where
  "hmac_verify_append mac s prev_commitment appended = hmac_fold mac (hs_key s) prev_commitment appended"

definition hmac_verify_membership ::
  "(pystr \<Rightarrow> pystr \<Rightarrow> pystr) \<Rightarrow> hmac_scheme \<Rightarrow> pystr \<Rightarrow> int \<Rightarrow> pystr \<Rightarrow> pystr list \<Rightarrow> bool" where
  "hmac_verify_membership mac s record_digest position commitment pf =
    (if position < 0 \<or> position \<ge> int (length pf) then False
     else if pf ! nat position \<noteq> record_digest then False
     else hmac_commit mac s pf = commitment)"

definition hmac_link_anchor ::
  "(pystr \<Rightarrow> pystr) \<Rightarrow> hmac_scheme \<Rightarrow> pystr \<Rightarrow> pystr option \<Rightarrow> int option \<Rightarrow> int option \<Rightarrow>
    pystr option \<Rightarrow> int option \<Rightarrow> integrity_anchor" where
  "hmac_link_anchor H s commitment store_continuity_id policy_generation key_generation
      predecessor_anchor anchor_cadence_ms =
    \<lparr>ia_anchor_id = anchor_id_of H predecessor_anchor commitment,
     ia_segment_commitment = commitment, ia_store_continuity_id = store_continuity_id,
     ia_policy_generation = policy_generation,
     ia_key_generation =
       (case key_generation of None \<Rightarrow> Some (hs_key_generation s) | Some g \<Rightarrow> Some g),
     ia_predecessor_anchor = predecessor_anchor, ia_anchor_cadence_ms = anchor_cadence_ms\<rparr>"

section \<open>Verification across rotations\<close>

record chained_entry =
  en_entry_digest :: "pystr option"
  en_key_generation :: "int option"
  en_chain_digest :: "pystr option"

text \<open>The loop of \<^verbatim>\<open>verify_chain\<close> from a running commitment.\<close>

primrec verify_chain_from ::
  "(pystr \<Rightarrow> pystr \<Rightarrow> pystr) \<Rightarrow> (int \<rightharpoonup> pystr) \<Rightarrow> pystr \<Rightarrow> chained_entry list \<Rightarrow> bool" where
  "verify_chain_from mac keys commitment [] = True"
| "verify_chain_from mac keys commitment (e # es) =
    (case (en_entry_digest e, en_key_generation e, en_chain_digest e) of
      (Some entry_digest, Some g, Some chain_digest) \<Rightarrow>
        (case keys g of
          None \<Rightarrow> False
        | Some key \<Rightarrow>
            if key = [] then False
            else if mac key (commitment @ entry_digest) \<noteq> chain_digest then False
            else verify_chain_from mac keys chain_digest es)
    | _ \<Rightarrow> False)"

definition verify_chain ::
  "(pystr \<Rightarrow> pystr \<Rightarrow> pystr) \<Rightarrow> chained_entry list \<Rightarrow> (int \<rightharpoonup> pystr) \<Rightarrow> bool" where
  "verify_chain mac entries keys = verify_chain_from mac keys chain_genesis entries"

section \<open>The interface\<close>

text \<open>
  A segment commitment scheme.  \<open>valid\<close> says of a segment that its digests have the form the scheme
  relies on; \<open>collide xs ys\<close> that hashing \<open>xs\<close> and \<open>ys\<close> met a collision.
\<close>

locale segment_commitment =
  fixes commit :: "pystr list \<Rightarrow> pystr"
    and verify_append :: "pystr \<Rightarrow> pystr list \<Rightarrow> pystr"
    and verify_membership :: "pystr \<Rightarrow> int \<Rightarrow> pystr \<Rightarrow> pystr list \<Rightarrow> bool"
    and valid :: "pystr list \<Rightarrow> bool"
    and collide :: "pystr list \<Rightarrow> pystr list \<Rightarrow> bool"
  assumes append_law: "verify_append (commit xs) ys = commit (xs @ ys)"
    and membership_law: "verify_membership d i c p \<longleftrightarrow>
      0 \<le> i \<and> i < int (length p) \<and> p ! nat i = d \<and> commit p = c"
    and binding_law: "valid xs \<Longrightarrow> valid ys \<Longrightarrow> commit xs = commit ys \<Longrightarrow> xs = ys \<or> collide xs ys"
begin

text \<open>A proof accepted against a commitment speaks of the committed segment.\<close>

lemma membership_sound:
  assumes "valid xs" "valid p" "verify_membership d i (commit xs) p"
  shows "(0 \<le> i \<and> i < int (length xs) \<and> xs ! nat i = d) \<or> collide p xs"
  using binding_law[of p xs] assms by (auto simp: membership_law)

text \<open>The segment itself is a proof of each of its members, also after an append.\<close>

lemma membership_complete:
  "i < length xs \<Longrightarrow>
    verify_membership (xs ! i) (int i) (verify_append (commit xs) ys) (xs @ ys)"
  by (simp add: membership_law append_law nth_append)

text \<open>Only appending leads from one commitment to another that extends it.\<close>

lemma only_appends:
  assumes "valid zs" "valid (xs @ ys)" "commit zs = verify_append (commit xs) ys"
  shows "zs = xs @ ys \<or> collide zs (xs @ ys)"
  using binding_law[of zs "xs @ ys"] assms by (simp add: append_law)

end

section \<open>Chains of hashes\<close>

text \<open>
  Both schemes fold a link that hashes a message made of the running commitment and the digest.
  \<open>hashed\<close> lists the messages; \<open>msg\<close> makes them; \<open>fine\<close> is what the digests need for \<open>msg\<close> to be
  read back.
\<close>

primrec hashed :: "('m \<Rightarrow> pystr) \<Rightarrow> (pystr \<Rightarrow> 'd \<Rightarrow> 'm) \<Rightarrow> pystr \<Rightarrow> 'd list \<Rightarrow> 'm list" where
  "hashed H msg c [] = []"
| "hashed H msg c (d # ds) = msg c d # hashed H msg (H (msg c d)) ds"

primrec chained :: "('m \<Rightarrow> pystr) \<Rightarrow> (pystr \<Rightarrow> 'd \<Rightarrow> 'm) \<Rightarrow> pystr \<Rightarrow> 'd list \<Rightarrow> pystr" where
  "chained H msg c [] = c"
| "chained H msg c (d # ds) = chained H msg (H (msg c d)) ds"

lemma chained_append: "chained H msg c (xs @ ys) = chained H msg (chained H msg c xs) ys"
  by (induction xs arbitrary: c) simp_all

lemma hashed_append: "hashed H msg c (xs @ ys) = hashed H msg c xs @ hashed H msg (chained H msg c xs) ys"
  by (induction xs arbitrary: c) simp_all

definition collides :: "('m \<Rightarrow> pystr) \<Rightarrow> 'm list \<Rightarrow> 'm list \<Rightarrow> bool" where
  "collides H ms ns = list_ex (\<lambda>m. list_ex (\<lambda>n. m \<noteq> n \<and> H m = H n) ns) ms"

lemma chained_range: "chained H msg chain_genesis xs = chain_genesis \<or> chained H msg chain_genesis xs \<in> range H"
  by (cases xs rule: rev_cases) (simp_all add: chained_append)

text \<open>The argument behind both schemes: peel the chains from their ends.\<close>

lemma chained_binds:
  assumes genesis: "\<And>m. H m \<noteq> chain_genesis"
    and read: "\<And>c d c' d'. fine d \<Longrightarrow> fine d' \<Longrightarrow> c = chain_genesis \<or> c \<in> range H \<Longrightarrow>
      c' = chain_genesis \<or> c' \<in> range H \<Longrightarrow> msg c d = msg c' d' \<Longrightarrow> c = c' \<and> d = d'"
    and fine: "list_all fine xs" "list_all fine ys"
    and same: "chained H msg chain_genesis xs = chained H msg chain_genesis ys"
  shows "xs = ys \<or> collides H (hashed H msg chain_genesis xs) (hashed H msg chain_genesis ys)"
  using fine same
proof (induction xs arbitrary: ys rule: rev_induct)
  case Nil
  then show ?case
    using genesis[symmetric] by (cases ys rule: rev_cases) (simp_all add: chained_append)
next
  case (snoc x xs)
  then obtain y zs where ys: "ys = zs @ [y]"
    using genesis by (cases ys rule: rev_cases) (simp_all add: chained_append)
  let ?m = "msg (chained H msg chain_genesis xs) x" and ?n = "msg (chained H msg chain_genesis zs) y"
  have digest: "H ?m = H ?n" using snoc.prems(3) by (simp add: ys chained_append)
  show ?case
  proof (cases "?m = ?n")
    case True
    have "chained H msg chain_genesis xs = chained H msg chain_genesis zs \<and> x = y"
      by (rule read[OF _ _ chained_range chained_range True]) (use snoc.prems ys in simp_all)
    moreover from this have "xs = zs \<or>
        collides H (hashed H msg chain_genesis xs) (hashed H msg chain_genesis zs)"
      using snoc.IH[of zs] snoc.prems ys by simp
    ultimately show ?thesis by (auto simp: ys hashed_append collides_def list_ex_iff)
  next
    case False
    with digest show ?thesis by (auto simp: ys hashed_append collides_def list_ex_iff)
  qed
qed

section \<open>The two schemes provide the interface\<close>

text \<open>What a hexadecimal digest function promises.\<close>

definition hex_digests :: "(pystr \<Rightarrow> pystr) \<Rightarrow> bool" where
  "hex_digests H = (\<forall>m. length (H m) = 64 \<and> CHR ''|'' \<notin> set (H m))"

definition hex_length :: "pystr \<Rightarrow> bool" where
  "hex_length d = (length d = 64)"

lemma hash_fold_chained: "hash_fold H c ds = chained H (\<lambda>c d. c @ ''|'' @ d) c ds"
  by (induction ds arbitrary: c) (simp_all add: hash_link_def)

lemma hmac_fold_chained: "hmac_fold mac key c ds = chained (mac key) (@) c ds"
  by (induction ds arbitrary: c) (simp_all add: hmac_link_def)

definition hash_messages :: "(pystr \<Rightarrow> pystr) \<Rightarrow> pystr list \<Rightarrow> pystr list" where
  "hash_messages H ds = hashed H (\<lambda>c d. c @ ''|'' @ d) chain_genesis ds"

definition hmac_messages :: "(pystr \<Rightarrow> pystr \<Rightarrow> pystr) \<Rightarrow> hmac_scheme \<Rightarrow> pystr list \<Rightarrow> pystr list" where
  "hmac_messages mac s ds = hashed (mac (hs_key s)) (@) chain_genesis ds"

lemma takeWhile_upto: "b \<notin> set c \<Longrightarrow> takeWhile (\<lambda>x. x \<noteq> b) (c @ b # d) = c"
  by (induction c) auto

lemma hash_commit_binds:
  assumes "hex_digests H" "hash_commit H xs = hash_commit H ys"
  shows "xs = ys \<or> collides H (hash_messages H xs) (hash_messages H ys)"
  unfolding hash_messages_def
proof (rule chained_binds[where fine = "\<lambda>_. True"])
  show "H m \<noteq> chain_genesis" for m
    using assms(1) by (auto simp: hex_digests_def chain_genesis_def dest: spec[of _ m])
  fix c d c' d' assume "c = chain_genesis \<or> c \<in> range H" "c' = chain_genesis \<or> c' \<in> range H"
    and same: "c @ ''|'' @ d = c' @ ''|'' @ d'"
  then have free: "CHR ''|'' \<notin> set c" "CHR ''|'' \<notin> set c'"
    using assms(1) by (auto simp: hex_digests_def chain_genesis_def)
  have "takeWhile (\<lambda>x. x \<noteq> CHR ''|'') (c @ CHR ''|'' # d) = takeWhile (\<lambda>x. x \<noteq> CHR ''|'') (c' @ CHR ''|'' # d')"
    using same by simp
  with free have "c = c'" by (simp add: takeWhile_upto)
  with same show "c = c' \<and> d = d'" by simp
qed (use assms(2) in \<open>simp_all add: hash_commit_def hash_fold_chained list_all_iff\<close>)

lemma hmac_commit_binds:
  assumes "\<forall>k. hex_digests (mac k)" "list_all hex_length xs" "list_all hex_length ys"
    "hmac_commit mac s xs = hmac_commit mac s ys"
  shows "xs = ys \<or> collides (mac (hs_key s)) (hmac_messages mac s xs) (hmac_messages mac s ys)"
  unfolding hmac_messages_def
proof (rule chained_binds[where fine = hex_length])
  show "mac (hs_key s) m \<noteq> chain_genesis" for m
  proof -
    have "length (mac (hs_key s) m) = 64" using assms(1) by (simp add: hex_digests_def)
    then show ?thesis by (auto simp: chain_genesis_def)
  qed
  fix c d c' d' :: pystr assume "hex_length d" "hex_length d'" "c @ d = c' @ d'"
  then show "c = c' \<and> d = d'" by (simp add: hex_length_def append_eq_append_conv)
qed (use assms in \<open>simp_all add: hmac_commit_def hmac_fold_chained\<close>)

interpretation provisional: segment_commitment
  "hash_commit H" "hash_verify_append H" "hash_verify_membership H" "\<lambda>xs. hex_digests H"
  "\<lambda>xs ys. collides H (hash_messages H xs) (hash_messages H ys)" for H
proof unfold_locales
  show "hash_verify_append H (hash_commit H xs) ys = hash_commit H (xs @ ys)" for xs ys
    by (simp add: hash_commit_def hash_verify_append_def hash_fold_chained chained_append)
  show "hash_verify_membership H d i c p \<longleftrightarrow>
      0 \<le> i \<and> i < int (length p) \<and> p ! nat i = d \<and> hash_commit H p = c" for d i c p
    by (auto simp: hash_verify_membership_def not_le)
qed (rule hash_commit_binds)

interpretation hmac: segment_commitment
  "hmac_commit mac s" "hmac_verify_append mac s" "hmac_verify_membership mac s"
  "\<lambda>xs. (\<forall>k. hex_digests (mac k)) \<and> list_all hex_length xs"
  "\<lambda>xs ys. collides (mac (hs_key s)) (hmac_messages mac s xs) (hmac_messages mac s ys)" for mac s
proof unfold_locales
  show "hmac_verify_append mac s (hmac_commit mac s xs) ys = hmac_commit mac s (xs @ ys)" for xs ys
    by (simp add: hmac_commit_def hmac_verify_append_def hmac_fold_chained chained_append)
  show "hmac_verify_membership mac s d i c p \<longleftrightarrow>
      0 \<le> i \<and> i < int (length p) \<and> p ! nat i = d \<and> hmac_commit mac s p = c" for d i c p
    by (auto simp: hmac_verify_membership_def not_le)
qed (elim conjE, rule hmac_commit_binds)

section \<open>Properties\<close>

text \<open>
  A membership proof accepted against the HMAC commitment of a segment speaks the truth: the
  digest stands at that position of the segment, or the proof exhibits a collision of the keyed hash
  among the messages of the two chains.  And the segment with whatever was appended later proves
  each of its members against the appended commitment.
\<close>

theorem membership_proofs_are_sound:
  assumes "\<forall>k. hex_digests (mac k)" "list_all hex_length xs" "list_all hex_length p"
    "hmac_verify_membership mac s d i (hmac_commit mac s xs) p"
  shows "(0 \<le> i \<and> i < int (length xs) \<and> xs ! nat i = d) \<or>
    collides (mac (hs_key s)) (hmac_messages mac s p) (hmac_messages mac s xs)"
  using hmac.membership_sound[of mac xs p s d i] assms by blast

definition demo_mac :: "pystr \<Rightarrow> pystr \<Rightarrow> pystr" where
  "demo_mac key m = replicate 64 CHR ''0''"

lemma hex_digests_demo_mac: "hex_digests (demo_mac k)"
  by (simp add: hex_digests_def demo_mac_def)

theorem membership_proofs_are_sound_witness:
  "hmac_verify_membership demo_mac \<lparr>hs_key = ''k'', hs_key_generation = 0, hs_version = ''v''\<rparr>
      (replicate 64 CHR ''b'') 0 (replicate 64 CHR ''0'') [replicate 64 CHR ''b''] \<and>
   collides (demo_mac ''k'') [replicate 64 CHR ''b''] [replicate 64 CHR ''a'']"
proof -
  let ?s = "\<lparr>hs_key = ''k'', hs_key_generation = 0, hs_version = ''v''\<rparr>"
  let ?a = "replicate 64 CHR ''a''" and ?b = "replicate 64 CHR ''b''"
  have commit: "hmac_commit demo_mac ?s [x] = replicate 64 CHR ''0''" for x
    by (simp add: hmac_commit_def hmac_link_def demo_mac_def)
  have ver: "hmac_verify_membership demo_mac ?s ?b 0 (hmac_commit demo_mac ?s [?a]) [?b]"
    by (simp add: hmac_verify_membership_def commit)
  have "?a \<noteq> ?b" by (simp add: replicate_eq_replicate)
  moreover have "(0 \<le> (0::int) \<and> 0 < int (length [?a]) \<and> [?a] ! nat 0 = ?b) \<or>
      collides (demo_mac (hs_key ?s)) (hmac_messages demo_mac ?s [?b]) (hmac_messages demo_mac ?s [?a])"
    by (rule membership_proofs_are_sound[OF _ _ _ ver]) (simp_all add: hex_digests_demo_mac hex_length_def)
  ultimately show ?thesis
    using ver by (simp add: commit hmac_messages_def chain_genesis_def)
qed

text \<open>
  The links of the HMAC chain have no separator and nothing checks the form of a digest: a
  segment of two entries has the commitment of a segment of one longer entry, whatever the keyed
  hash, and the longer entry passes as a member of the segment.
\<close>

theorem unseparated_links_merge:
  "hmac_commit mac s [a, b] = hmac_commit mac s [hmac_link mac (hs_key s) chain_genesis a @ b] \<and>
   hmac_verify_membership mac s (hmac_link mac (hs_key s) chain_genesis a @ b) 0 (hmac_commit mac s [a, b])
     [hmac_link mac (hs_key s) chain_genesis a @ b]"
  by (simp add: hmac_commit_def hmac_link_def hmac_verify_membership_def chain_genesis_def)

section \<open>Verified chains\<close>

text \<open>Signing a list of generations and digests, under one key per generation.\<close>

primrec signed ::
  "(pystr \<Rightarrow> pystr \<Rightarrow> pystr) \<Rightarrow> (int \<rightharpoonup> pystr) \<Rightarrow> pystr \<Rightarrow> (int \<times> pystr) list \<Rightarrow> chained_entry list" where
  "signed mac keys c [] = []"
| "signed mac keys c (e # es) =
    (let c' = mac (the (keys (fst e))) (c @ snd e)
     in \<lparr>en_entry_digest = Some (snd e), en_key_generation = Some (fst e), en_chain_digest = Some c'\<rparr> #
        signed mac keys c' es)"

definition has_key :: "(int \<rightharpoonup> pystr) \<Rightarrow> int \<times> pystr \<Rightarrow> bool" where
  "has_key keys e = (case keys (fst e) of None \<Rightarrow> False | Some k \<Rightarrow> k \<noteq> [])"

lemma verify_signed: "verify_chain_from mac keys c (signed mac keys c es) \<longleftrightarrow> list_all (has_key keys) es"
  by (induction es arbitrary: c) (auto simp: has_key_def Let_def split: option.splits)

lemma verified_is_signed:
  "verify_chain_from mac keys c es \<Longrightarrow>
    es = signed mac keys c (map (\<lambda>e. (the (en_key_generation e), the (en_entry_digest e))) es)"
  by (induction es arbitrary: c) (auto simp: Let_def split: option.splits if_splits)

text \<open>
  C21: the verification of a chain across key rotations accepts exactly the signed chains: those
  whose links carry, in order, the keyed hash of the previous link and their digest, under a present
  and non-empty key of the generation each link records; in particular it accepts everything signed
  with present keys.
\<close>

theorem verified_chains_are_the_signed_ones:
  "verify_chain mac es keys \<longleftrightarrow>
    (\<exists>ds. list_all (has_key keys) ds \<and> es = signed mac keys chain_genesis ds)"
proof
  assume v: "verify_chain mac es keys"
  let ?ds = "map (\<lambda>e. (the (en_key_generation e), the (en_entry_digest e))) es"
  have es: "es = signed mac keys chain_genesis ?ds"
    using verified_is_signed v unfolding verify_chain_def by blast
  then have "list_all (has_key keys) ?ds"
    using v verify_signed unfolding verify_chain_def by metis
  with es show "\<exists>ds. list_all (has_key keys) ds \<and> es = signed mac keys chain_genesis ds" by blast
qed (auto simp: verify_chain_def verify_signed)

definition keyed :: "(pystr \<Rightarrow> pystr \<Rightarrow> pystr) \<Rightarrow> pystr \<times> pystr \<Rightarrow> pystr" where
  "keyed mac m = mac (fst m) (snd m)"

definition entry_link :: "chained_entry \<Rightarrow> int \<times> pystr" where
  "entry_link e = (the (en_key_generation e), the (en_entry_digest e))"

text \<open>The keys and messages hashed for a chain, and its last chain digest.\<close>

definition chain_messages ::
  "(pystr \<Rightarrow> pystr \<Rightarrow> pystr) \<Rightarrow> (int \<rightharpoonup> pystr) \<Rightarrow> chained_entry list \<Rightarrow> (pystr \<times> pystr) list" where
  "chain_messages mac keys es =
    hashed (keyed mac) (\<lambda>c d. (fst d, c @ snd d)) chain_genesis
      (map (map_prod (the \<circ> keys) id \<circ> entry_link) es)"

definition chain_tip :: "chained_entry list \<Rightarrow> pystr" where
  "chain_tip es = (if es = [] then chain_genesis else the (en_chain_digest (last es)))"

lemma signed_tip:
  "(if signed mac keys c ds = [] then c else the (en_chain_digest (last (signed mac keys c ds)))) =
    chained (keyed mac) (\<lambda>c d. (fst d, c @ snd d)) c (map (map_prod (the \<circ> keys) id) ds)"
proof (induction ds arbitrary: c)
  case (Cons d ds)
  obtain a b where d: "d = (a, b)" by (cases d)
  show ?case using Cons.IH[of "mac (the (keys a)) (c @ b)"]
    by (simp add: d Let_def keyed_def split: if_splits)
qed simp

lemma entry_links_signed: "map entry_link (signed mac keys c ds) = ds"
  by (induction ds arbitrary: c) (simp_all add: entry_link_def Let_def)

text \<open>
  Two verified chains with one last chain digest carry the same entry digests in the same order
  under the same keys, or exhibit two different keyed messages with one hash; so no edit, deletion
  or reordering inside a chain keeps its tip.
\<close>

theorem verified_chains_bind:
  assumes "\<forall>k. hex_digests (mac k)" "verify_chain mac es keys" "verify_chain mac fs keys"
    "list_all (hex_length \<circ> snd \<circ> entry_link) es" "list_all (hex_length \<circ> snd \<circ> entry_link) fs"
    "chain_tip es = chain_tip fs"
  shows "map (map_prod (the \<circ> keys) id \<circ> entry_link) es = map (map_prod (the \<circ> keys) id \<circ> entry_link) fs \<or>
    collides (keyed mac) (chain_messages mac keys es) (chain_messages mac keys fs)"
  unfolding chain_messages_def
proof (rule chained_binds[where fine = "hex_length \<circ> snd"])
  show "keyed mac m \<noteq> chain_genesis" for m
  proof -
    have "length (keyed mac m) = 64" using assms(1) by (simp add: hex_digests_def keyed_def)
    then show ?thesis by (auto simp: chain_genesis_def)
  qed
  fix c c' :: pystr and d d' :: "pystr \<times> pystr"
  assume "(hex_length \<circ> snd) d" "(hex_length \<circ> snd) d'" "(fst d, c @ snd d) = (fst d', c' @ snd d')"
  then show "c = c' \<and> d = d'" by (simp add: hex_length_def append_eq_append_conv prod_eq_iff)
next
  have tip: "chain_tip gs = chained (keyed mac) (\<lambda>c d. (fst d, c @ snd d)) chain_genesis
      (map (map_prod (the \<circ> keys) id \<circ> entry_link) gs)" if "verify_chain mac gs keys" for gs
  proof -
    obtain ds where gs: "gs = signed mac keys chain_genesis ds"
      using verified_is_signed \<open>verify_chain mac gs keys\<close> unfolding verify_chain_def by blast
    have "map (map_prod (the \<circ> keys) id \<circ> entry_link) gs = map (map_prod (the \<circ> keys) id) ds"
      unfolding gs map_map[symmetric] entry_links_signed ..
    then show ?thesis using signed_tip[of mac keys chain_genesis ds] by (simp only: chain_tip_def gs)
  qed
  show "chained (keyed mac) (\<lambda>c d. (fst d, c @ snd d)) chain_genesis
      (map (map_prod (the \<circ> keys) id \<circ> entry_link) es) =
    chained (keyed mac) (\<lambda>c d. (fst d, c @ snd d)) chain_genesis
      (map (map_prod (the \<circ> keys) id \<circ> entry_link) fs)"
    using tip[OF assms(2)] tip[OF assms(3)] assms(6) by simp
qed (use assms in \<open>simp_all add: list_all_iff\<close>)

theorem verified_chains_bind_witness:
  "collides (keyed demo_mac) [(''k'', replicate 64 CHR ''a'')] [(''k'', replicate 64 CHR ''b'')]"
proof -
  let ?k = "\<lambda>g::int. Some ''k''"
  let ?c = "\<lambda>x. signed demo_mac ?k chain_genesis [(1, replicate 64 x)]"
  have "list_all (hex_length \<circ> snd \<circ> entry_link) (?c x)" for x
    by (simp add: hex_length_def entry_link_def)
  moreover have "verify_chain demo_mac (?c x) ?k" for x by (simp add: verify_chain_def demo_mac_def)
  ultimately have "map (map_prod (the \<circ> ?k) id \<circ> entry_link) (?c CHR ''a'') =
      map (map_prod (the \<circ> ?k) id \<circ> entry_link) (?c CHR ''b'') \<or>
    collides (keyed demo_mac) (chain_messages demo_mac ?k (?c CHR ''a'')) (chain_messages demo_mac ?k (?c CHR ''b''))"
    by (intro verified_chains_bind) (simp_all add: hex_digests_demo_mac chain_tip_def demo_mac_def)
  then show ?thesis
    by (simp add: entry_link_def chain_messages_def chain_genesis_def replicate_eq_replicate)
qed

end
