(* ===== verification/Position.thy ===== *)
theory Position
  imports Py_Decimal
begin

text \<open>
  The conservative position observation: \<^verbatim>\<open>tos/position/records.py\<close> and
  \<^verbatim>\<open>tos/position/predicates.py\<close>.  The operations are modelled on decimals with the rounding of
  the context; a reference on integers, which the decimals implement exactly on contract counts,
  carries the properties.
\<close>

section \<open>Decimal operations of this module\<close>

text \<open>\<^verbatim>\<open>sign * d\<close> for an int and a Decimal, \<^verbatim>\<open>abs(d)\<close>, and \<^verbatim>\<open>d or Decimal(0)\<close>.\<close>

definition dscaled :: "int \<Rightarrow> pydec \<Rightarrow> pydec" where
  "dscaled s d = dround (Dec (s * dcoeff d) (dexp d))"

definition dabs :: "pydec \<Rightarrow> pydec" where
  "dabs d = dround (Dec \<bar>dcoeff d\<bar> (dexp d))"

definition or_zero :: "pydec option \<Rightarrow> pydec" where
  "or_zero q = (case q of None \<Rightarrow> dzero | Some d \<Rightarrow> if dcoeff d = 0 then dzero else d)"

section \<open>Records\<close>

record position_observation =
  po_scope_key :: pystr
  po_confirmed_net :: pydec
  po_unknown_buy :: pydec
  po_unknown_sell :: pydec
  po_in_flight_buy :: pydec
  po_in_flight_sell :: pydec
  po_attempts_seen :: int
  po_sources :: "pystr list"

record sealed_send =
  ss_attempt_id :: pystr
  ss_side :: "pystr option"
  ss_quantity :: "pydec option"

record consumed_result =
  cr_result_kind :: "pystr option"
  cr_filled_quantity :: "pydec option"
  cr_remaining_quantity :: "pydec option"

section \<open>Usage\<close>

definition worst_credible_directional_usage :: "position_observation \<Rightarrow> pydec" where
  "worst_credible_directional_usage obs =
    (let long_case = dadd (dadd (po_confirmed_net obs) (po_unknown_buy obs)) (po_in_flight_buy obs);
         short_case = dsub (dsub (po_confirmed_net obs) (po_unknown_sell obs)) (po_in_flight_sell obs)
     in dmax_from (dabs long_case) [dabs short_case])"

definition conservative_current_usage :: "position_observation \<Rightarrow> pydec" where
  "conservative_current_usage obs =
    (let long_case = dadd (po_confirmed_net obs) (po_unknown_buy obs);
         short_case = dsub (po_confirmed_net obs) (po_unknown_sell obs)
     in dmax_from (dabs long_case) [dabs short_case])"

definition in_flight_overlap_effect :: "position_observation \<Rightarrow> pydec" where
  "in_flight_overlap_effect obs = dadd (po_in_flight_buy obs) (po_in_flight_sell obs)"

definition sign_of :: "pystr option \<Rightarrow> pystr \<Rightarrow> pystr \<Rightarrow> int option" where
  "sign_of side buy_side_token sell_side_token =
    (if side = Some buy_side_token then Some 1
     else if side = Some sell_side_token then Some (- 1) else None)"

section \<open>Classification\<close>

definition outstanding_after ::
  "consumed_result \<Rightarrow> pydec \<Rightarrow> pystr list \<Rightarrow> bool \<Rightarrow> pydec" where
  "outstanding_after consumed sealed_quantity terminal_result_kinds reopened =
    (if \<not> reopened \<and>
        (case cr_result_kind consumed of None \<Rightarrow> False | Some k \<Rightarrow> k \<in> set terminal_result_kinds)
     then dzero
     else dmax_from (or_zero (cr_remaining_quantity consumed))
            [dsub sealed_quantity (or_zero (cr_filled_quantity consumed)), dzero])"

text \<open>The five running sums; the code returns them with the number of sends.\<close>

record 'q totals =
  tt_confirmed_net :: 'q
  tt_unknown_buy :: 'q
  tt_unknown_sell :: 'q
  tt_in_flight_buy :: 'q
  tt_in_flight_sell :: 'q

definition zero_totals :: "'q \<Rightarrow> 'q totals" where
  "zero_totals z =
    \<lparr>tt_confirmed_net = z, tt_unknown_buy = z, tt_unknown_sell = z, tt_in_flight_buy = z,
     tt_in_flight_sell = z\<rparr>"

record classification_inputs =
  ci_consumed_by_attempt :: "pystr \<rightharpoonup> consumed_result"
  ci_unmatched_attempts :: "pystr list"
  ci_buy_side_token :: pystr
  ci_sell_side_token :: pystr
  ci_terminal_result_kinds :: "pystr list"

text \<open>The body of the loop.\<close>

definition classify_send ::
  "classification_inputs \<Rightarrow> pydec totals \<Rightarrow> sealed_send \<Rightarrow> pydec totals" where
  "classify_send inp t send =
    (let sign = sign_of (ss_side send) (ci_buy_side_token inp) (ci_sell_side_token inp);
         quantity = (case ss_quantity send of None \<Rightarrow> dzero | Some q \<Rightarrow> q)
     in case ci_consumed_by_attempt inp (ss_attempt_id send) of
       Some consumed \<Rightarrow>
         (let filled = or_zero (cr_filled_quantity consumed);
              outstanding = outstanding_after consumed quantity (ci_terminal_result_kinds inp)
                (ss_attempt_id send \<in> set (ci_unmatched_attempts inp))
          in case sign of
            None \<Rightarrow>
              t\<lparr>tt_unknown_buy := dadd (tt_unknown_buy t) filled,
                tt_unknown_sell := dadd (tt_unknown_sell t) filled,
                tt_in_flight_buy := dadd (tt_in_flight_buy t) outstanding,
                tt_in_flight_sell := dadd (tt_in_flight_sell t) outstanding\<rparr>
          | Some s \<Rightarrow>
              (let t' = t\<lparr>tt_confirmed_net := dadd (tt_confirmed_net t) (dscaled s filled)\<rparr>
               in if s > 0 then t'\<lparr>tt_in_flight_buy := dadd (tt_in_flight_buy t') outstanding\<rparr>
                  else t'\<lparr>tt_in_flight_sell := dadd (tt_in_flight_sell t') outstanding\<rparr>))
     | None \<Rightarrow>
         (case sign of
           None \<Rightarrow>
             t\<lparr>tt_in_flight_buy := dadd (tt_in_flight_buy t) quantity,
               tt_in_flight_sell := dadd (tt_in_flight_sell t) quantity\<rparr>
         | Some s \<Rightarrow>
             if s > 0 then t\<lparr>tt_in_flight_buy := dadd (tt_in_flight_buy t) quantity\<rparr>
             else t\<lparr>tt_in_flight_sell := dadd (tt_in_flight_sell t) quantity\<rparr>))"

definition classify_sealed_sends ::
  "classification_inputs \<Rightarrow> sealed_send list \<Rightarrow> pydec totals \<times> int" where
  "classify_sealed_sends inp sealed =
    (foldl (classify_send inp) (zero_totals dzero) sealed, int (length sealed))"

text \<open>The observation a caller builds from the classification.\<close>

definition observation_of :: "pystr \<Rightarrow> pystr list \<Rightarrow> pydec totals \<times> int \<Rightarrow> position_observation" where
  "observation_of k sources c =
    \<lparr>po_scope_key = k, po_confirmed_net = tt_confirmed_net (fst c),
     po_unknown_buy = tt_unknown_buy (fst c), po_unknown_sell = tt_unknown_sell (fst c),
     po_in_flight_buy = tt_in_flight_buy (fst c), po_in_flight_sell = tt_in_flight_sell (fst c),
     po_attempts_seen = snd c, po_sources = sources\<rparr>"

section \<open>The reference on counts\<close>

text \<open>What a send contributes: how much of it is confirmed, how much may still be filled.\<close>

definition count_of :: "pydec option \<Rightarrow> int" where
  "count_of q = (case q of None \<Rightarrow> 0 | Some d \<Rightarrow> dcoeff d)"

definition filled_count :: "classification_inputs \<Rightarrow> sealed_send \<Rightarrow> int" where
  "filled_count inp send =
    (case ci_consumed_by_attempt inp (ss_attempt_id send) of
      None \<Rightarrow> 0 | Some c \<Rightarrow> count_of (cr_filled_quantity c))"

definition resolved :: "classification_inputs \<Rightarrow> sealed_send \<Rightarrow> bool" where
  "resolved inp send =
    (case ci_consumed_by_attempt inp (ss_attempt_id send) of
      None \<Rightarrow> False
    | Some c \<Rightarrow>
        ss_attempt_id send \<notin> set (ci_unmatched_attempts inp) \<and>
        (case cr_result_kind c of None \<Rightarrow> False | Some k \<Rightarrow> k \<in> set (ci_terminal_result_kinds inp)))"

definition open_count :: "classification_inputs \<Rightarrow> sealed_send \<Rightarrow> int" where
  "open_count inp send =
    (case ci_consumed_by_attempt inp (ss_attempt_id send) of
      None \<Rightarrow> count_of (ss_quantity send)
    | Some c \<Rightarrow>
        if resolved inp send then 0
        else max (count_of (cr_remaining_quantity c))
               (max (count_of (ss_quantity send) - count_of (cr_filled_quantity c)) 0))"

definition send_sign :: "classification_inputs \<Rightarrow> sealed_send \<Rightarrow> int option" where
  "send_sign inp send = sign_of (ss_side send) (ci_buy_side_token inp) (ci_sell_side_token inp)"

definition add_count :: "int option \<Rightarrow> int \<Rightarrow> int \<Rightarrow> int totals \<Rightarrow> int totals" where
  "add_count sign filled outs t =
    (case sign of
      None \<Rightarrow>
        t\<lparr>tt_unknown_buy := tt_unknown_buy t + filled, tt_unknown_sell := tt_unknown_sell t + filled,
          tt_in_flight_buy := tt_in_flight_buy t + outs, tt_in_flight_sell := tt_in_flight_sell t + outs\<rparr>
    | Some s \<Rightarrow>
        t\<lparr>tt_confirmed_net := tt_confirmed_net t + s * filled,
          tt_in_flight_buy := tt_in_flight_buy t + (if s > 0 then outs else 0),
          tt_in_flight_sell := tt_in_flight_sell t + (if s > 0 then 0 else outs)\<rparr>)"

definition counted :: "classification_inputs \<Rightarrow> sealed_send list \<Rightarrow> int totals" where
  "counted inp sealed =
    foldl (\<lambda>t send. add_count (send_sign inp send) (filled_count inp send) (open_count inp send) t)
      (zero_totals 0) sealed"

definition dec_totals :: "int totals \<Rightarrow> pydec totals" where
  "dec_totals t =
    \<lparr>tt_confirmed_net = Dec (tt_confirmed_net t) 0, tt_unknown_buy = Dec (tt_unknown_buy t) 0,
     tt_unknown_sell = Dec (tt_unknown_sell t) 0, tt_in_flight_buy = Dec (tt_in_flight_buy t) 0,
     tt_in_flight_sell = Dec (tt_in_flight_sell t) 0\<rparr>"

text \<open>Contract counts: non-negative whole numbers, in all less than a tenth of the context.\<close>

definition whole :: "pydec option \<Rightarrow> bool" where
  "whole q = (case q of None \<Rightarrow> True | Some d \<Rightarrow> dexp d = 0 \<and> 0 \<le> dcoeff d)"

definition send_weight :: "classification_inputs \<Rightarrow> sealed_send \<Rightarrow> int" where
  "send_weight inp send =
    count_of (ss_quantity send) +
    (case ci_consumed_by_attempt inp (ss_attempt_id send) of
      None \<Rightarrow> 0
    | Some c \<Rightarrow> count_of (cr_filled_quantity c) + count_of (cr_remaining_quantity c))"

definition whole_send :: "classification_inputs \<Rightarrow> sealed_send \<Rightarrow> bool" where
  "whole_send inp send =
    (whole (ss_quantity send) \<and>
     (case ci_consumed_by_attempt inp (ss_attempt_id send) of
       None \<Rightarrow> True
     | Some c \<Rightarrow> whole (cr_filled_quantity c) \<and> whole (cr_remaining_quantity c)))"

definition contract_counts :: "classification_inputs \<Rightarrow> sealed_send list \<Rightarrow> bool" where
  "contract_counts inp sealed =
    (list_all (whole_send inp) sealed \<and>
     sum_list (map (send_weight inp) sealed) < 10 ^ (dec_prec - 1))"

section \<open>Decimals implement the reference\<close>

lemma dadd_int: "\<bar>a + b\<bar> < 10 ^ dec_prec \<Longrightarrow> dadd (Dec a 0) (Dec b 0) = Dec (a + b) 0"
  by (simp add: dadd_def dscale_def dround_exact)

lemma dsub_int: "\<bar>a - b\<bar> < 10 ^ dec_prec \<Longrightarrow> dsub (Dec a 0) (Dec b 0) = Dec (a - b) 0"
  using dadd_int[of a "- b"] by (simp add: dsub_def dneg_def)

lemma dscaled_int: "\<bar>s * a\<bar> < 10 ^ dec_prec \<Longrightarrow> dscaled s (Dec a 0) = Dec (s * a) 0"
  by (simp add: dscaled_def dround_exact)

lemma dabs_int: "\<bar>a\<bar> < 10 ^ dec_prec \<Longrightarrow> dabs (Dec a 0) = Dec \<bar>a\<bar> 0"
  by (simp add: dabs_def dround_exact)

lemma dlt_int: "dlt (Dec a 0) (Dec b 0) \<longleftrightarrow> a < b"
  by (simp add: dlt_iff dval_def)

lemma dmax_int: "dmax_from (Dec a 0) [Dec b 0] = Dec (max a b) 0"
  by (simp add: dlt_int max_def)

lemma dmax3_int: "dmax_from (Dec a 0) [Dec b 0, Dec c 0] = Dec (max a (max b c)) 0"
  by (auto simp: dlt_int max_def)

lemma whole_count: "whole q \<Longrightarrow> 0 \<le> count_of q"
  by (auto simp: whole_def count_of_def split: option.splits)

lemma or_zero_whole: "whole q \<Longrightarrow> or_zero q = Dec (count_of q) 0"
  by (cases q; cases "the q") (auto simp: whole_def count_of_def or_zero_def dzero_def)

lemma quantity_whole: "whole q \<Longrightarrow> (case q of None \<Rightarrow> dzero | Some d \<Rightarrow> d) = Dec (count_of q) 0"
  by (cases q; cases "the q") (auto simp: whole_def count_of_def dzero_def)


definition bounded_by :: "int \<Rightarrow> int totals \<Rightarrow> bool" where
  "bounded_by w t =
    (\<bar>tt_confirmed_net t\<bar> \<le> w \<and> 0 \<le> tt_unknown_buy t \<and> tt_unknown_buy t \<le> w \<and>
     0 \<le> tt_unknown_sell t \<and> tt_unknown_sell t \<le> w \<and> 0 \<le> tt_in_flight_buy t \<and> tt_in_flight_buy t \<le> w \<and>
     0 \<le> tt_in_flight_sell t \<and> tt_in_flight_sell t \<le> w)"

lemma send_counts:
  assumes "whole_send inp send"
  shows "0 \<le> filled_count inp send" "0 \<le> open_count inp send"
    "filled_count inp send + open_count inp send \<le> send_weight inp send"
  using assms whole_count[of "ss_quantity send"]
    whole_count[of "cr_filled_quantity (the (ci_consumed_by_attempt inp (ss_attempt_id send)))"]
    whole_count[of "cr_remaining_quantity (the (ci_consumed_by_attempt inp (ss_attempt_id send)))"]
  by (auto simp: filled_count_def open_count_def send_weight_def whole_send_def split: option.splits)

lemma sign_cases: "send_sign inp send \<in> {None, Some 1, Some (- 1)}"
  by (simp add: send_sign_def sign_of_def)

lemma bounded_by_add:
  assumes "bounded_by w t" "0 \<le> f" "0 \<le> k" "f + k \<le> v" "sign \<in> {None, Some 1, Some (- 1)}"
  shows "bounded_by (w + v) (add_count sign f k t)"
  using assms by (auto simp: bounded_by_def add_count_def)

lemma outstanding_int:
  assumes "whole (cr_filled_quantity c)" "whole (cr_remaining_quantity c)" "0 \<le> q"
    "q + count_of (cr_filled_quantity c) < 10 ^ dec_prec"
  shows "outstanding_after c (Dec q 0) ks reopened =
    (if \<not> reopened \<and> (case cr_result_kind c of None \<Rightarrow> False | Some k \<Rightarrow> k \<in> set ks) then Dec 0 0
     else Dec (max (count_of (cr_remaining_quantity c)) (max (q - count_of (cr_filled_quantity c)) 0)) 0)"
proof -
  have "dsub (Dec q 0) (Dec (count_of (cr_filled_quantity c)) 0) = Dec (q - count_of (cr_filled_quantity c)) 0"
    using assms whole_count[OF assms(1)] by (intro dsub_int) simp
  then show ?thesis
    using assms by (simp add: outstanding_after_def or_zero_whole dmax3_int del: dmax_from.simps)
      (simp add: dzero_def dmax3_int del: dmax_from.simps)
qed

lemma classify_send_int:
  assumes "bounded_by w t" "whole_send inp send" "w + send_weight inp send < 10 ^ dec_prec"
  shows "classify_send inp (dec_totals t) send =
    dec_totals (add_count (send_sign inp send) (filled_count inp send) (open_count inp send) t)"
proof -
  note c = send_counts[OF assms(2)]
  have sums: "x + filled_count inp send < 10 ^ dec_prec" "x + open_count inp send < 10 ^ dec_prec"
    if "x \<le> w" for x
    using that assms(3) c by simp_all
  have q: "whole (ss_quantity send)" using assms(2) by (simp add: whole_send_def)
  have qc: "0 \<le> count_of (ss_quantity send)" using q by (rule whole_count)
  show ?thesis
  proof (cases "ci_consumed_by_attempt inp (ss_attempt_id send)")
    case None
    with sums assms(1) c q show ?thesis
      by (auto simp: classify_send_def Let_def quantity_whole send_sign_def[symmetric] add_count_def
          filled_count_def open_count_def dec_totals_def bounded_by_def dadd_int split: option.split)
  next
    case (Some r)
    have w: "whole (cr_filled_quantity r)" "whole (cr_remaining_quantity r)"
      using assms(2) Some by (simp_all add: whole_send_def)
    have "0 \<le> w" using assms(1) by (auto simp: bounded_by_def)
    then have "outstanding_after r (Dec (count_of (ss_quantity send)) 0) (ci_terminal_result_kinds inp)
        (ss_attempt_id send \<in> set (ci_unmatched_attempts inp)) = Dec (open_count inp send) 0"
      using outstanding_int[OF w qc] assms(3) Some whole_count[OF w(2)]
      by (auto simp: send_weight_def open_count_def resolved_def)
    moreover have f: "or_zero (cr_filled_quantity r) = Dec (filled_count inp send) 0"
      using Some w(1) by (simp add: filled_count_def or_zero_whole)
    moreover have "\<bar>s * filled_count inp send\<bar> < 10 ^ dec_prec \<and>
        \<bar>tt_confirmed_net t + s * filled_count inp send\<bar> < 10 ^ dec_prec" if "send_sign inp send = Some s" for s
      using that sign_cases[of inp send] sums(1)[of w] assms(1) c(1) \<open>0 \<le> w\<close> by (auto simp: bounded_by_def)
    ultimately show ?thesis
      using sums assms(1) c Some q
      by (auto simp: classify_send_def Let_def quantity_whole send_sign_def[symmetric] add_count_def
          dec_totals_def bounded_by_def dadd_int dscaled_int split: option.split)
  qed
qed

lemma fold_int:
  assumes "bounded_by w t" "list_all (whole_send inp) sealed"
    "w + sum_list (map (send_weight inp) sealed) < 10 ^ dec_prec"
  shows "foldl (classify_send inp) (dec_totals t) sealed =
      dec_totals (foldl (\<lambda>t send. add_count (send_sign inp send) (filled_count inp send) (open_count inp send) t) t sealed)
    \<and> bounded_by (w + sum_list (map (send_weight inp) sealed))
      (foldl (\<lambda>t send. add_count (send_sign inp send) (filled_count inp send) (open_count inp send) t) t sealed)"
  using assms
proof (induction sealed arbitrary: w t)
  case (Cons x xs)
  have x: "whole_send inp x" using Cons.prems(2) by simp
  note c = send_counts[OF x]
  have "0 \<le> send_weight inp y" if "y \<in> set xs" for y
    using send_counts[of inp y] Cons.prems(2) that by (simp add: list_all_iff)
  then have rest: "0 \<le> sum_list (map (send_weight inp) xs)" by (intro sum_list_nonneg) auto
  have "classify_send inp (dec_totals t) x =
      dec_totals (add_count (send_sign inp x) (filled_count inp x) (open_count inp x) t)"
    using Cons.prems(1,3) x rest by (intro classify_send_int) auto
  moreover have "bounded_by (w + send_weight inp x)
      (add_count (send_sign inp x) (filled_count inp x) (open_count inp x) t)"
    using bounded_by_add[OF Cons.prems(1) c sign_cases] .
  ultimately show ?case
    using Cons.IH[of "w + send_weight inp x" "add_count (send_sign inp x) (filled_count inp x) (open_count inp x) t"]
      Cons.prems(2,3) by (simp add: add.assoc)
qed simp

lemma dec_prec_le: "n < 10 ^ (dec_prec - 1) \<Longrightarrow> 10 * n < (10::int) ^ dec_prec"
  using dec_prec_Suc[where 'a = int] by simp

lemma classify_counted:
  assumes "contract_counts inp sealed"
  shows "fst (classify_sealed_sends inp sealed) = dec_totals (counted inp sealed)"
    and "bounded_by (10 ^ (dec_prec - 1) - 1) (counted inp sealed)"
proof -
  have z: "bounded_by 0 (zero_totals 0)" "dec_totals (zero_totals 0) = zero_totals dzero"
    by (simp_all add: bounded_by_def zero_totals_def dec_totals_def dzero_def)
  have sum: "0 + sum_list (map (send_weight inp) sealed) < 10 ^ dec_prec"
    using assms unfolding contract_counts_def dec_prec_def by simp
  have "list_all (whole_send inp) sealed" using assms by (simp add: contract_counts_def)
  from fold_int[OF z(1) this sum] show "fst (classify_sealed_sends inp sealed) = dec_totals (counted inp sealed)"
    "bounded_by (10 ^ (dec_prec - 1) - 1) (counted inp sealed)"
    using assms by (auto simp: classify_sealed_sends_def counted_def z(2) contract_counts_def bounded_by_def)
qed


section \<open>The worst case\<close>

text \<open>
  How the outstanding sends may resolve: each ends with a signed fill, in its recognised direction
  or, when its side is not recognised, in either, and with at least what is confirmed and at most
  what is confirmed and outstanding.
\<close>

definition credible :: "classification_inputs \<Rightarrow> sealed_send \<Rightarrow> int \<times> int \<Rightarrow> bool" where
  "credible inp send r =
    ((case send_sign inp send of None \<Rightarrow> fst r \<in> {1, - 1} | Some s \<Rightarrow> fst r = s) \<and>
     filled_count inp send \<le> snd r \<and> snd r \<le> filled_count inp send + open_count inp send)"

definition final_net :: "(int \<times> int) list \<Rightarrow> int" where
  "final_net rs = sum_list (map (\<lambda>(s, f). s * f) rs)"

definition long_of :: "int totals \<Rightarrow> int" where
  "long_of t = tt_confirmed_net t + tt_unknown_buy t + tt_in_flight_buy t"

definition short_of :: "int totals \<Rightarrow> int" where
  "short_of t = tt_confirmed_net t - tt_unknown_sell t - tt_in_flight_sell t"

lemma counted_snoc:
  "counted inp (xs @ [x]) = add_count (send_sign inp x) (filled_count inp x) (open_count inp x) (counted inp xs)"
  by (simp add: counted_def)

lemma final_net_snoc [simp]: "final_net (rs @ [r]) = final_net rs + fst r * snd r"
  by (simp add: final_net_def case_prod_unfold)

lemma credible_bounds:
  assumes "credible inp x r" "whole_send inp x"
  shows "long_of t + fst r * snd r \<le> long_of (add_count (send_sign inp x) (filled_count inp x) (open_count inp x) t)"
    and "short_of (add_count (send_sign inp x) (filled_count inp x) (open_count inp x) t) \<le> short_of t + fst r * snd r"
  using assms(1) sign_cases[of inp x] send_counts[OF assms(2)]
  by (auto simp: credible_def long_of_def short_of_def add_count_def)

lemma credible_extremes:
  assumes "whole_send inp x"
  obtains r where "credible inp x r"
    "long_of (add_count (send_sign inp x) (filled_count inp x) (open_count inp x) t) = long_of t + fst r * snd r"
proof (cases "send_sign inp x = Some (- 1)")
  case True
  then show ?thesis using send_counts[OF assms]
    by (intro that[of "(- 1, filled_count inp x)"]) (simp_all add: credible_def long_of_def add_count_def)
next
  case False
  then have "send_sign inp x = None \<or> send_sign inp x = Some 1" using sign_cases[of inp x] by auto
  then show ?thesis using send_counts[OF assms]
    by (intro that[of "(1, filled_count inp x + open_count inp x)"])
      (auto simp: credible_def long_of_def add_count_def)
qed

lemma credible_extremes_short:
  assumes "whole_send inp x"
  obtains r where "credible inp x r"
    "short_of (add_count (send_sign inp x) (filled_count inp x) (open_count inp x) t) = short_of t + fst r * snd r"
proof (cases "send_sign inp x = Some 1")
  case True
  then show ?thesis using send_counts[OF assms]
    by (intro that[of "(1, filled_count inp x)"]) (simp_all add: credible_def short_of_def add_count_def)
next
  case False
  then have "send_sign inp x = None \<or> send_sign inp x = Some (- 1)" using sign_cases[of inp x] by auto
  then show ?thesis using send_counts[OF assms]
    by (intro that[of "(- 1, filled_count inp x + open_count inp x)"])
      (auto simp: credible_def short_of_def add_count_def)
qed

lemma counted_bounds:
  "list_all (whole_send inp) sealed \<Longrightarrow> list_all2 (credible inp) sealed rs \<Longrightarrow>
    short_of (counted inp sealed) \<le> final_net rs \<and> final_net rs \<le> long_of (counted inp sealed)"
proof (induction sealed arbitrary: rs rule: rev_induct)
  case Nil
  then show ?case by (simp add: counted_def zero_totals_def long_of_def short_of_def final_net_def)
next
  case (snoc x xs)
  then obtain rs' r where rs: "rs = rs' @ [r]" and r: "credible inp x r" "list_all2 (credible inp) xs rs'"
    by (auto simp: list_all2_append1 list_all2_Cons1)
  have "whole_send inp x" "list_all (whole_send inp) xs" using snoc.prems(1) by simp_all
  with snoc.IH[OF _ r(2)] credible_bounds[OF r(1), of "counted inp xs"] show ?case
    by (simp add: rs counted_snoc)
qed

lemma counted_attained:
  assumes "list_all (whole_send inp) sealed"
  shows "(\<exists>rs. list_all2 (credible inp) sealed rs \<and> final_net rs = long_of (counted inp sealed)) \<and>
    (\<exists>rs. list_all2 (credible inp) sealed rs \<and> final_net rs = short_of (counted inp sealed))"
  using assms
proof (induction sealed rule: rev_induct)
  case Nil
  then show ?case by (simp add: counted_def zero_totals_def long_of_def short_of_def final_net_def)
next
  case (snoc x xs)
  have x: "whole_send inp x" using snoc.prems by simp
  from snoc obtain ls ss where ls: "list_all2 (credible inp) xs ls" "final_net ls = long_of (counted inp xs)"
    and ss: "list_all2 (credible inp) xs ss" "final_net ss = short_of (counted inp xs)" by auto
  obtain l where l: "credible inp x l" "long_of (counted inp (xs @ [x])) = long_of (counted inp xs) + fst l * snd l"
    using credible_extremes[OF x, of "counted inp xs"] by (auto simp: counted_snoc)
  obtain s where s: "credible inp x s" "short_of (counted inp (xs @ [x])) = short_of (counted inp xs) + fst s * snd s"
    using credible_extremes_short[OF x, of "counted inp xs"] by (auto simp: counted_snoc)
  have "list_all2 (credible inp) (xs @ [x]) (ls @ [l])" "list_all2 (credible inp) (xs @ [x]) (ss @ [s])"
    using ls(1) ss(1) l(1) s(1) by (simp_all add: list_all2_appendI)
  moreover have "final_net (ls @ [l]) = long_of (counted inp (xs @ [x]))"
    "final_net (ss @ [s]) = short_of (counted inp (xs @ [x]))"
    using ls(2) ss(2) l(2) s(2) by simp_all
  ultimately show ?case by blast
qed

lemma small: "n < 10 ^ (dec_prec - 1) \<Longrightarrow> n * 9 < (10::int) ^ dec_prec"
  by (simp add: dec_prec_def)

lemma usage_int:
  assumes "bounded_by w t" "w < 10 ^ (dec_prec - 1)"
    "obs = observation_of k src (dec_totals t, n)"
  shows "worst_credible_directional_usage obs = Dec (max \<bar>long_of t\<bar> \<bar>short_of t\<bar>) 0"
    and "conservative_current_usage obs =
      Dec (max \<bar>tt_confirmed_net t + tt_unknown_buy t\<bar> \<bar>tt_confirmed_net t - tt_unknown_sell t\<bar>) 0"
    and "in_flight_overlap_effect obs = Dec (tt_in_flight_buy t + tt_in_flight_sell t) 0"
proof -
  define L :: int where "L = 10 ^ dec_prec"
  have lim: "w * 9 < L" using small[OF assms(2)] by (simp add: L_def)
  have b: "\<bar>tt_confirmed_net t\<bar> \<le> w" "0 \<le> tt_unknown_buy t" "tt_unknown_buy t \<le> w"
    "0 \<le> tt_unknown_sell t" "tt_unknown_sell t \<le> w" "0 \<le> tt_in_flight_buy t" "tt_in_flight_buy t \<le> w"
    "0 \<le> tt_in_flight_sell t" "tt_in_flight_sell t \<le> w"
    using assms(1) by (simp_all add: bounded_by_def)
  have sizes: "\<bar>tt_confirmed_net t + tt_unknown_buy t\<bar> < L" "\<bar>tt_confirmed_net t - tt_unknown_sell t\<bar> < L"
    "\<bar>tt_confirmed_net t + tt_unknown_buy t + tt_in_flight_buy t\<bar> < L"
    "\<bar>tt_confirmed_net t - tt_unknown_sell t - tt_in_flight_sell t\<bar> < L"
    "\<bar>tt_in_flight_buy t + tt_in_flight_sell t\<bar> < L"
    using b lim by linarith+
  note sums = sizes[unfolded L_def]
  show "worst_credible_directional_usage obs = Dec (max \<bar>long_of t\<bar> \<bar>short_of t\<bar>) 0"
    by (simp add: assms(3) observation_of_def dec_totals_def worst_credible_directional_usage_def
        long_of_def short_of_def dadd_int dsub_int dabs_int dmax_int sums del: dmax_from.simps)
  show "conservative_current_usage obs =
      Dec (max \<bar>tt_confirmed_net t + tt_unknown_buy t\<bar> \<bar>tt_confirmed_net t - tt_unknown_sell t\<bar>) 0"
    by (simp add: assms(3) observation_of_def dec_totals_def conservative_current_usage_def
        dadd_int dsub_int dabs_int dmax_int sums del: dmax_from.simps)
  show "in_flight_overlap_effect obs = Dec (tt_in_flight_buy t + tt_in_flight_sell t) 0"
    by (simp add: assms(3) observation_of_def dec_totals_def in_flight_overlap_effect_def dadd_int sums)
qed

lemma observed_usage:
  assumes "contract_counts inp sealed" "obs = observation_of k src (classify_sealed_sends inp sealed)"
  shows "worst_credible_directional_usage obs =
      Dec (max \<bar>long_of (counted inp sealed)\<bar> \<bar>short_of (counted inp sealed)\<bar>) 0"
    and "conservative_current_usage obs =
      Dec (max \<bar>tt_confirmed_net (counted inp sealed) + tt_unknown_buy (counted inp sealed)\<bar>
             \<bar>tt_confirmed_net (counted inp sealed) - tt_unknown_sell (counted inp sealed)\<bar>) 0"
    and "in_flight_overlap_effect obs =
      Dec (tt_in_flight_buy (counted inp sealed) + tt_in_flight_sell (counted inp sealed)) 0"
proof -
  note c = classify_counted[OF assms(1)]
  have obs: "obs = observation_of k src (dec_totals (counted inp sealed), snd (classify_sealed_sends inp sealed))"
    using c(1) assms(2) by (metis prod.collapse)
  have lim: "(10::int) ^ (dec_prec - 1) - 1 < 10 ^ (dec_prec - 1)" by simp
  show "worst_credible_directional_usage obs =
      Dec (max \<bar>long_of (counted inp sealed)\<bar> \<bar>short_of (counted inp sealed)\<bar>) 0"
    by (rule usage_int(1)[OF c(2) lim obs])
  show "conservative_current_usage obs =
      Dec (max \<bar>tt_confirmed_net (counted inp sealed) + tt_unknown_buy (counted inp sealed)\<bar>
             \<bar>tt_confirmed_net (counted inp sealed) - tt_unknown_sell (counted inp sealed)\<bar>) 0"
    by (rule usage_int(2)[OF c(2) lim obs])
  show "in_flight_overlap_effect obs =
      Dec (tt_in_flight_buy (counted inp sealed) + tt_in_flight_sell (counted inp sealed)) 0"
    by (rule usage_int(3)[OF c(2) lim obs])
qed

text \<open>
  C20: on contract counts the worst credible usage is exactly the worst: however the sealed sends
  resolve, each between its confirmed fill and its confirmed and outstanding quantity, and in either
  direction where the side is unknown, the final net position is at most the usage in magnitude, and
  some resolution reaches it.
\<close>

theorem worst_credible_is_the_worst:
  assumes "contract_counts inp sealed" "obs = observation_of k src (classify_sealed_sends inp sealed)"
  shows "(\<forall>rs. list_all2 (credible inp) sealed rs \<longrightarrow>
      \<bar>of_int (final_net rs)\<bar> \<le> dval (worst_credible_directional_usage obs)) \<and>
    (\<exists>rs. list_all2 (credible inp) sealed rs \<and>
      \<bar>of_int (final_net rs)\<bar> = dval (worst_credible_directional_usage obs))"
proof -
  have ok: "list_all (whole_send inp) sealed" using assms(1) by (simp add: contract_counts_def)
  let ?l = "long_of (counted inp sealed)" and ?s = "short_of (counted inp sealed)"
  have usage: "dval (worst_credible_directional_usage obs) = of_int (max \<bar>?l\<bar> \<bar>?s\<bar>)"
    by (simp add: observed_usage(1)[OF assms] dval_def)
  have "\<bar>final_net rs\<bar> \<le> max \<bar>?l\<bar> \<bar>?s\<bar>" if "list_all2 (credible inp) sealed rs" for rs
    using counted_bounds[OF ok that] by auto
  moreover have "\<exists>rs. list_all2 (credible inp) sealed rs \<and> \<bar>final_net rs\<bar> = max \<bar>?l\<bar> \<bar>?s\<bar>"
    using counted_attained[OF ok] by (cases "\<bar>?s\<bar> \<le> \<bar>?l\<bar>") (auto simp: max_def)
  ultimately show ?thesis unfolding usage by (metis of_int_abs of_int_le_iff)
qed


definition demo_inputs :: "(pystr \<rightharpoonup> consumed_result) \<Rightarrow> pystr list \<Rightarrow> classification_inputs" where
  "demo_inputs consumed unmatched =
    \<lparr>ci_consumed_by_attempt = consumed, ci_unmatched_attempts = unmatched,
     ci_buy_side_token = ''BUY'', ci_sell_side_token = ''SELL'',
     ci_terminal_result_kinds = [''FULL_FILL'', ''REJECT'', ''CANCEL_ACK'', ''EXPIRED'']\<rparr>"

definition demo_sends :: "sealed_send list" where
  "demo_sends =
    [\<lparr>ss_attempt_id = ''a'', ss_side = Some ''BUY'', ss_quantity = Some (Dec 10 0)\<rparr>,
     \<lparr>ss_attempt_id = ''b'', ss_side = Some ''SELL'', ss_quantity = Some (Dec 5 0)\<rparr>,
     \<lparr>ss_attempt_id = ''c'', ss_side = None, ss_quantity = Some (Dec 2 0)\<rparr>]"

definition demo_partial :: consumed_result where
  "demo_partial =
    \<lparr>cr_result_kind = Some ''PARTIAL_FILL'', cr_filled_quantity = Some (Dec 7 0),
     cr_remaining_quantity = Some (Dec 3 0)\<rparr>"

lemma demo_counts:
  "contract_counts (demo_inputs [''a'' \<mapsto> demo_partial] []) demo_sends"
  "contract_counts (demo_inputs Map.empty []) demo_sends"
  by (simp_all add: contract_counts_def demo_inputs_def demo_sends_def demo_partial_def whole_send_def whole_def
      send_weight_def count_of_def dec_prec_def)

theorem worst_credible_is_the_worst_witness:
  "12 \<le> dval (worst_credible_directional_usage (observation_of ''k'' []
    (classify_sealed_sends (demo_inputs [''a'' \<mapsto> demo_partial] []) demo_sends)))"
proof -
  have "list_all2 (credible (demo_inputs [''a'' \<mapsto> demo_partial] [])) demo_sends [(1, 10), (- 1, 0), (1, 2)]"
    by (simp add: demo_inputs_def demo_sends_def demo_partial_def credible_def send_sign_def sign_of_def
        filled_count_def open_count_def count_of_def resolved_def)
  moreover have "final_net [(1, 10), (- 1, 0), (1, 2)] = 12" by (simp add: final_net_def)
  ultimately show ?thesis
    using worst_credible_is_the_worst[OF demo_counts(1) refl, of "''k''" "[]"] by fastforce
qed

section \<open>The decision sum\<close>

text \<open>What the risk decision adds up: the current usage and the overlap, which is never netted.\<close>

definition decision_sum :: "position_observation \<Rightarrow> rat" where
  "decision_sum obs = dval (conservative_current_usage obs) + dval (in_flight_overlap_effect obs)"

lemma counted_mono:
  assumes "\<And>x. x \<in> set sealed \<Longrightarrow> send_sign inp' x = send_sign inp x \<and>
      filled_count inp' x = filled_count inp x \<and> open_count inp x \<le> open_count inp' x"
  shows "tt_confirmed_net (counted inp' sealed) = tt_confirmed_net (counted inp sealed) \<and>
    tt_unknown_buy (counted inp' sealed) = tt_unknown_buy (counted inp sealed) \<and>
    tt_unknown_sell (counted inp' sealed) = tt_unknown_sell (counted inp sealed) \<and>
    tt_in_flight_buy (counted inp sealed) \<le> tt_in_flight_buy (counted inp' sealed) \<and>
    tt_in_flight_sell (counted inp sealed) \<le> tt_in_flight_sell (counted inp' sealed)"
  using assms
proof (induction sealed rule: rev_induct)
  case (snoc x xs)
  have "send_sign inp' x = send_sign inp x" "filled_count inp' x = filled_count inp x"
    "open_count inp x \<le> open_count inp' x"
    using snoc.prems[of x] by simp_all
  moreover note snoc.IH[OF snoc.prems]
  ultimately show ?case by (simp add: counted_snoc add_count_def split: option.split)
qed (simp add: counted_def zero_totals_def)

text \<open>
  On contract counts no recorded non-event makes the position look safer: when an attempt
  without a result gets a result that fills nothing and is not terminal (or that an unmatched result
  reopens), and when further results are recorded as unmatched, the decision sum never falls.
\<close>

theorem recording_hides_no_usage:
  assumes "contract_counts inp sealed" "contract_counts inp' sealed"
    "inp' = inp\<lparr>ci_consumed_by_attempt := (ci_consumed_by_attempt inp)(a \<mapsto> c), ci_unmatched_attempts := u\<rparr>"
    "ci_consumed_by_attempt inp a = None" "count_of (cr_filled_quantity c) = 0"
    "a \<in> set u \<or> cr_result_kind c \<notin> Some ` set (ci_terminal_result_kinds inp)"
    "set (ci_unmatched_attempts inp) \<subseteq> set u"
  shows "decision_sum (observation_of k src (classify_sealed_sends inp sealed)) \<le>
    decision_sum (observation_of k src (classify_sealed_sends inp' sealed))"
proof -
  have "send_sign inp' x = send_sign inp x \<and> filled_count inp' x = filled_count inp x \<and>
      open_count inp x \<le> open_count inp' x" if "x \<in> set sealed" for x
    using assms(4-7) by (auto simp: assms(3) send_sign_def filled_count_def open_count_def resolved_def
        split: option.split)
  then have m: "tt_confirmed_net (counted inp' sealed) = tt_confirmed_net (counted inp sealed) \<and>
    tt_unknown_buy (counted inp' sealed) = tt_unknown_buy (counted inp sealed) \<and>
    tt_unknown_sell (counted inp' sealed) = tt_unknown_sell (counted inp sealed) \<and>
    tt_in_flight_buy (counted inp sealed) \<le> tt_in_flight_buy (counted inp' sealed) \<and>
    tt_in_flight_sell (counted inp sealed) \<le> tt_in_flight_sell (counted inp' sealed)"
    by (rule counted_mono)
  then have "(of_int (tt_in_flight_buy (counted inp sealed) + tt_in_flight_sell (counted inp sealed)) :: rat) \<le>
      of_int (tt_in_flight_buy (counted inp' sealed) + tt_in_flight_sell (counted inp' sealed))"
    unfolding of_int_le_iff by simp
  with m show ?thesis
    by (simp add: decision_sum_def observed_usage(2,3)[OF assms(1) refl] observed_usage(2,3)[OF assms(2) refl]
        dval_def)
qed

theorem recording_hides_no_usage_witness:
  "decision_sum (observation_of ''k'' [] (classify_sealed_sends (demo_inputs Map.empty []) demo_sends)) \<le>
   decision_sum (observation_of ''k'' [] (classify_sealed_sends (demo_inputs
     [''a'' \<mapsto> \<lparr>cr_result_kind = Some ''TIMEOUT'', cr_filled_quantity = None, cr_remaining_quantity = None\<rparr>] []) demo_sends))"
proof (rule recording_hides_no_usage[OF demo_counts(2)])
  let ?c = "\<lparr>cr_result_kind = Some ''TIMEOUT'', cr_filled_quantity = None, cr_remaining_quantity = None\<rparr>"
  show "contract_counts (demo_inputs [''a'' \<mapsto> ?c] []) demo_sends"
    by (simp add: contract_counts_def demo_inputs_def demo_sends_def whole_send_def whole_def
        send_weight_def count_of_def dec_prec_def)
  show "demo_inputs [''a'' \<mapsto> ?c] [] = (demo_inputs Map.empty [])
      \<lparr>ci_consumed_by_attempt := (ci_consumed_by_attempt (demo_inputs Map.empty []))(''a'' \<mapsto> ?c),
       ci_unmatched_attempts := []\<rparr>"
    by (simp add: demo_inputs_def)
qed (simp_all add: demo_inputs_def count_of_def)

end
