(* ===== verification/Trusted_Time.thy ===== *)
theory Trusted_Time
  imports Tos_Prelude
begin

text \<open>
  The clock-free predicates on trustworthy time: \<^verbatim>\<open>tos/time/predicates.py\<close> with the states and
  elements of \<^verbatim>\<open>tos/time/domains.py\<close>, \<^verbatim>\<open>elements.py\<close> and \<^verbatim>\<open>snapshot.py\<close> it reads.  Every time is an
  injected integer; an unknown coordinate or bound is \<open>None\<close>.  A snapshot is given by the fields its
  consumers check; its digest binding is the one of the digest-bound artifacts.
\<close>

section \<open>States and elements\<close>

datatype health_state = UNINITIALIZED | SYNCHRONIZING | TRUSTED | DEGRADED_HOLDOVER | UNTRUSTED

datatype freshness = FRESH | STALE | UNKNOWN_AGE | CONFLICTED

record monotonic_reading =
  mr_monotonic_continuity_id :: "pystr option"
  mr_local_monotonic_value :: "int option"

record time_continuity_identity =
  tc_host_or_runtime_id :: "pystr option"
  tc_boot_id :: "pystr option"
  tc_process_id :: "pystr option"
  tc_monotonic_anchor_id :: "pystr option"
  tc_monotonic_anchor_value :: "int option"
  tc_tts_generation :: "int option"

record uncertainty_interval =
  ui_lo :: "int option"
  ui_hi :: "int option"

record session_context =
  sc_phase :: "pystr option"
  sc_trading_calendar_version :: "pystr option"
  sc_is_open :: bool
  sc_tz_version_conflict :: bool
  sc_boundary_value :: "int option"

record reference_source =
  rs_common_mode_group :: "pystr option"
  rs_reachable :: bool
  rs_healthy :: bool

record time_authority_effect =
  ta_creates_authority :: bool
  ta_may_mutate_live_state :: bool
  ta_may_release_capacity :: bool
  ta_may_rearm :: bool

record time_health_snapshot =
  th_snapshot_id :: "pystr option"
  th_canonical_digest :: "pystr option"
  th_generation :: "int option"
  th_verification_profile_version :: "pystr option"
  th_safety_profile_version :: "pystr option"
  th_authority_effect :: time_authority_effect

section \<open>Ages and anchors\<close>

definition elapsed_within_continuity :: "monotonic_reading \<Rightarrow> monotonic_reading \<Rightarrow> int option" where
  "elapsed_within_continuity a b =
    (case (mr_monotonic_continuity_id a, mr_monotonic_continuity_id b) of
      (Some x, Some y) \<Rightarrow>
        if x \<noteq> y then None
        else (case (mr_local_monotonic_value a, mr_local_monotonic_value b) of
            (Some u, Some v) \<Rightarrow> Some (v - u)
          | _ \<Rightarrow> None)
    | _ \<Rightarrow> None)"

text \<open>Both present and equal.\<close>

definition same_known :: "'a option \<Rightarrow> 'a option \<Rightarrow> bool" where
  "same_known a b = (a \<noteq> None \<and> b \<noteq> None \<and> a = b)"

definition anchor_valid ::
  "time_continuity_identity \<Rightarrow> time_continuity_identity \<Rightarrow> int option \<Rightarrow> int option \<Rightarrow> bool" where
  "anchor_valid continuity_now anchor suspension_ms max_suspension_ms =
    (if \<not> (same_known (tc_host_or_runtime_id continuity_now) (tc_host_or_runtime_id anchor) \<and>
          same_known (tc_boot_id continuity_now) (tc_boot_id anchor) \<and>
          same_known (tc_process_id continuity_now) (tc_process_id anchor) \<and>
          same_known (tc_monotonic_anchor_id continuity_now) (tc_monotonic_anchor_id anchor)) then False
     else case (tc_monotonic_anchor_value continuity_now, tc_monotonic_anchor_value anchor) of
       (Some now_value, Some anchor_value) \<Rightarrow>
         if now_value < anchor_value then False
         else (case (suspension_ms, max_suspension_ms) of
             (Some s, Some m) \<Rightarrow> s \<le> m
           | _ \<Rightarrow> False)
     | _ \<Rightarrow> False)"

text \<open>The sum of terms none of which is unknown or negative.\<close>

definition known_terms :: "int option list \<Rightarrow> int list option" where
  "known_terms ts =
    (if list_ex (\<lambda>t. t = None) ts then None
     else let vs = map the ts in if list_ex (\<lambda>v. v < 0) vs then None else Some vs)"

definition conservative_usable_lifetime ::
  "int option \<Rightarrow> int option \<Rightarrow> int option \<Rightarrow> int option \<Rightarrow> int option \<Rightarrow> int option \<Rightarrow> int option" where
  "conservative_usable_lifetime issued_lifetime elapsed_monotonic source_transport_uncertainty
     max_drift_error suspension_uncertainty safety_margin =
    (case known_terms [issued_lifetime, elapsed_monotonic, source_transport_uncertainty,
        max_drift_error, suspension_uncertainty, safety_margin] of
      Some (issued # uses) \<Rightarrow>
        let r = foldl (-) issued uses in if r \<le> 0 then None else Some r
    | _ \<Rightarrow> None)"

text \<open>The snapshot of the issuer is not read; the first argument is the id of the receipt anchor.\<close>

definition effective_snapshot_age_bound ::
  "pystr option \<Rightarrow> int option \<Rightarrow> int option \<Rightarrow> int option \<Rightarrow> int option \<Rightarrow> int option \<Rightarrow> int option \<Rightarrow>
    bool \<Rightarrow> int option" where
  "effective_snapshot_age_bound consumer_monotonic_continuity_id issuer_signed_age
     issuer_age_uncertainty transport_bound queue_bound conversion_bound
     consumer_elapsed_since_receipt consumer_anchor_valid =
    (if \<not> consumer_anchor_valid then None
     else if consumer_monotonic_continuity_id = None then None
     else map_option sum_list
       (known_terms [issuer_signed_age, issuer_age_uncertainty, transport_bound, queue_bound,
          conversion_bound, consumer_elapsed_since_receipt]))"

definition snapshot_age_admissible :: "int option \<Rightarrow> int option \<Rightarrow> bool" where
  "snapshot_age_admissible age_bound maximum_consumer_age_ms =
    (case (age_bound, maximum_consumer_age_ms) of (Some a, Some m) \<Rightarrow> a \<le> m | _ \<Rightarrow> False)"

definition effective_snapshot_age_bound_from_continuity ::
  "pystr option \<Rightarrow> time_continuity_identity \<Rightarrow> time_continuity_identity \<Rightarrow> int option \<Rightarrow> int option \<Rightarrow>
    int option \<Rightarrow> int option \<Rightarrow> int option \<Rightarrow> int option \<Rightarrow> int option \<Rightarrow> int option \<Rightarrow> int option" where
  "effective_snapshot_age_bound_from_continuity receipt_continuity consumer_continuity_now consumer_anchor
     suspension_ms max_suspension_ms issuer_signed_age issuer_age_uncertainty transport_bound
     queue_bound conversion_bound consumer_elapsed_since_receipt =
    effective_snapshot_age_bound receipt_continuity issuer_signed_age issuer_age_uncertainty
      transport_bound queue_bound conversion_bound consumer_elapsed_since_receipt
      (anchor_valid consumer_continuity_now consumer_anchor suspension_ms max_suspension_ms)"

section \<open>Freshness\<close>

definition freshness_verdict ::
  "int option \<Rightarrow> int option list \<Rightarrow> int option \<Rightarrow> int option \<Rightarrow> freshness" where
  "freshness_verdict source_age delay_bounds max_age_bound future_tolerance =
    (case source_age of
      None \<Rightarrow> UNKNOWN_AGE
    | Some age \<Rightarrow>
        if (case future_tolerance of Some t \<Rightarrow> t < 0 | None \<Rightarrow> False) then UNKNOWN_AGE
        else if list_ex (\<lambda>b. case b of Some d \<Rightarrow> d < 0 | None \<Rightarrow> False) delay_bounds then UNKNOWN_AGE
        else if (case max_age_bound of Some m \<Rightarrow> m < 0 | None \<Rightarrow> False) then UNKNOWN_AGE
        else if age < 0 \<and> (case future_tolerance of None \<Rightarrow> True | Some t \<Rightarrow> - age > t) then CONFLICTED
        else if list_ex (\<lambda>b. b = None) delay_bounds then UNKNOWN_AGE
        else (case max_age_bound of
            None \<Rightarrow> UNKNOWN_AGE
          | Some m \<Rightarrow>
              if age < 0 then FRESH
              else if age + sum_list (map the delay_bounds) > m then STALE
              else FRESH))"

section \<open>Health\<close>

definition allowed_transitions :: "(health_state \<times> health_state) list" where
  "allowed_transitions =
    [(UNINITIALIZED, SYNCHRONIZING), (SYNCHRONIZING, TRUSTED), (TRUSTED, DEGRADED_HOLDOVER),
     (TRUSTED, UNTRUSTED), (DEGRADED_HOLDOVER, UNTRUSTED), (DEGRADED_HOLDOVER, SYNCHRONIZING),
     (UNTRUSTED, SYNCHRONIZING)]"

definition health_transition_allowed :: "health_state \<Rightarrow> health_state \<Rightarrow> bool" where
  "health_transition_allowed from_state to_state = ((from_state, to_state) \<in> set allowed_transitions)"

definition transition_to_trusted_requires_new_generation :: "int option \<Rightarrow> int option \<Rightarrow> bool" where
  "transition_to_trusted_requires_new_generation from_generation to_generation =
    (case (from_generation, to_generation) of (Some f, Some t) \<Rightarrow> t > f | _ \<Rightarrow> False)"

definition time_recovery_revives_nothing :: "int option \<Rightarrow> int option \<Rightarrow> bool" where
  "time_recovery_revives_nothing invalidated_under_generation new_generation = True"

definition state_permits_new_normal_risk :: "health_state \<Rightarrow> bool" where
  "state_permits_new_normal_risk s = (s = TRUSTED)"

definition snapshot_grants_no_authority :: "time_health_snapshot \<Rightarrow> bool" where
  "snapshot_grants_no_authority s =
    (let a = th_authority_effect s
     in \<not> (ta_creates_authority a \<or> ta_may_mutate_live_state a \<or> ta_may_release_capacity a \<or> ta_may_rearm a))"

definition session_open_positively :: "session_context \<Rightarrow> uncertainty_interval \<Rightarrow> bool" where
  "session_open_positively s u =
    (if \<not> sc_is_open s then False
     else if sc_phase s = None then False
     else if sc_trading_calendar_version s = None then False
     else if sc_tz_version_conflict s then False
     else case (ui_lo u, ui_hi u) of
       (Some lo, Some hi) \<Rightarrow>
         (case sc_boundary_value s of None \<Rightarrow> True | Some b \<Rightarrow> \<not> (lo \<le> b \<and> b \<le> hi))
     | _ \<Rightarrow> False)"

definition snapshot_consumer_binding_ok ::
  "time_health_snapshot \<Rightarrow> pystr \<Rightarrow> pystr \<Rightarrow> int option \<Rightarrow> pystr option \<Rightarrow> pystr option \<Rightarrow> bool" where
  "snapshot_consumer_binding_ok s expected_snapshot_id expected_canonical_digest expected_generation
     expected_verification_profile_version expected_safety_profile_version =
    (if th_snapshot_id s \<noteq> Some expected_snapshot_id then False
     else if th_canonical_digest s \<noteq> Some expected_canonical_digest then False
     else if expected_generation \<noteq> None \<and> th_generation s \<noteq> expected_generation then False
     else if expected_verification_profile_version \<noteq> None \<and>
       th_verification_profile_version s \<noteq> expected_verification_profile_version then False
     else \<not> (expected_safety_profile_version \<noteq> None \<and>
       th_safety_profile_version s \<noteq> expected_safety_profile_version))"

section \<open>Sources\<close>

fun count_references :: "reference_source list \<Rightarrow> pystr set \<Rightarrow> nat \<Rightarrow> nat" where
  "count_references [] seen_groups count = count"
| "count_references (s # ss) seen_groups count =
    (case rs_common_mode_group s of
      None \<Rightarrow> count_references ss seen_groups (count + 1)
    | Some g \<Rightarrow>
        if g \<notin> seen_groups then count_references ss (insert g seen_groups) (count + 1)
        else count_references ss seen_groups count)"

definition independent_reference_count :: "reference_source list \<Rightarrow> nat" where
  "independent_reference_count sources = count_references sources {} 0"

definition source_disagreement_within_bound :: "int option \<Rightarrow> int option \<Rightarrow> bool" where
  "source_disagreement_within_bound disagreement_ms tolerance_ms =
    (case (disagreement_ms, tolerance_ms) of (Some d, Some t) \<Rightarrow> d \<le> t | _ \<Rightarrow> False)"

section \<open>What the predicates establish\<close>

lemma known_terms_Some: "known_terms ts = Some vs \<longleftrightarrow> ts = map Some vs \<and> list_all (\<lambda>v. 0 \<le> v) vs"
proof -
  have "list_ex (\<lambda>t. t = None) ts \<or> (\<exists>vs. ts = map Some vs)"
  proof (induction ts)
    case (Cons t ts)
    then show ?case by (cases t) (auto intro: exI[of _ "_ # _"])
  qed simp
  moreover have "\<not> list_ex (\<lambda>t. t = None) (map Some vs)" for vs :: "int list"
    by (induction vs) auto
  moreover have "map the (map Some vs) = vs" for vs :: "int list" by (simp add: comp_def)
  moreover have "list_ex (\<lambda>v. v < 0) vs \<longleftrightarrow> \<not> list_all (\<lambda>v. 0 \<le> v) vs" for vs :: "int list"
    by (induction vs) auto
  ultimately show ?thesis
    by (auto simp: known_terms_def Let_def inj_map_eq_map split: if_splits)
qed

lemma anchor_valid_iff:
  "anchor_valid now anchor s m \<longleftrightarrow>
    same_known (tc_host_or_runtime_id now) (tc_host_or_runtime_id anchor) \<and>
    same_known (tc_boot_id now) (tc_boot_id anchor) \<and>
    same_known (tc_process_id now) (tc_process_id anchor) \<and>
    same_known (tc_monotonic_anchor_id now) (tc_monotonic_anchor_id anchor) \<and>
    (\<exists>v a d b. tc_monotonic_anchor_value now = Some v \<and> tc_monotonic_anchor_value anchor = Some a \<and>
      a \<le> v \<and> s = Some d \<and> m = Some b \<and> d \<le> b)"
  by (auto simp: anchor_valid_def split: option.split)

text \<open>A lifetime only shrinks by its uncertainties, and an age only grows by them.\<close>

lemma lifetime_bound:
  assumes "conservative_usable_lifetime i a b c d e = Some r"
  shows "\<exists>v. i = Some v \<and> 0 < r \<and>
    (\<forall>t \<in> {a, b, c, d, e}. \<exists>x. t = Some x \<and> 0 \<le> x \<and> r + x \<le> v)"
  using assms
  by (auto simp: conservative_usable_lifetime_def known_terms_Some Let_def split: option.splits list.splits if_splits)

lemma age_bound_covers:
  assumes "effective_snapshot_age_bound k i u t q c e valid = Some age"
  shows "valid \<and> k \<noteq> None \<and> (\<forall>x \<in> {i, u, t, q, c, e}. \<exists>v. x = Some v \<and> 0 \<le> v \<and> v \<le> age)"
  using assms
  by (auto simp: effective_snapshot_age_bound_def known_terms_Some split: if_splits)

lemma sum_known: "list_all (\<lambda>v. 0 \<le> v) ds \<Longrightarrow> (0 :: int) \<le> sum_list ds"
  by (induction ds) auto

lemma delay_bounds_known:
  "\<not> list_ex (\<lambda>b. case b of Some d \<Rightarrow> d < 0 | None \<Rightarrow> False) bs \<and> \<not> list_ex (\<lambda>b. b = None) bs \<longleftrightarrow>
    (\<exists>ds. bs = map Some ds \<and> list_all (\<lambda>d. (0 :: int) \<le> d) ds)"
proof (induction bs)
  case (Cons b bs)
  show ?case
  proof (cases b)
    case (Some d)
    then show ?thesis using Cons by (auto simp: Cons_eq_map_conv)
  qed auto
qed simp

lemma fresh_iff:
  "freshness_verdict source_age delay_bounds max_age_bound future_tolerance = FRESH \<longleftrightarrow>
    (\<exists>age ds m. source_age = Some age \<and> delay_bounds = map Some ds \<and> list_all (\<lambda>d. 0 \<le> d) ds \<and>
      max_age_bound = Some m \<and> 0 \<le> m \<and> (case future_tolerance of Some t \<Rightarrow> 0 \<le> t | None \<Rightarrow> True) \<and>
      (if age < 0 then (\<exists>t. future_tolerance = Some t \<and> - age \<le> t) else age + sum_list ds \<le> m))"
proof -
  have sums: "sum_list (map the (map Some ds)) = sum_list ds" for ds :: "int list"
    by (simp add: comp_def)
  show ?thesis
  proof (cases "\<exists>ds. delay_bounds = map Some ds \<and> list_all (\<lambda>d. 0 \<le> d) ds")
    case True
    then obtain ds where ds: "delay_bounds = map Some ds" "list_all (\<lambda>d. 0 \<le> d) ds" by blast
    then have "\<not> list_ex (\<lambda>b. case b of Some d \<Rightarrow> d < 0 | None \<Rightarrow> False) delay_bounds"
      "\<not> list_ex (\<lambda>b. b = None) delay_bounds"
      using delay_bounds_known[of delay_bounds] by blast+
    then show ?thesis using ds
      by (auto simp: freshness_verdict_def sums not_less inj_map_eq_map split: option.splits if_splits)
  next
    case False
    then have "list_ex (\<lambda>b. case b of Some d \<Rightarrow> d < 0 | None \<Rightarrow> False) delay_bounds \<or>
        list_ex (\<lambda>b. b = None) delay_bounds"
      using delay_bounds_known[of delay_bounds] by blast
    then have "freshness_verdict source_age delay_bounds max_age_bound future_tolerance \<noteq> FRESH"
      by (elim disjE) (simp_all add: freshness_verdict_def split: option.split)
    then show ?thesis using False by blast
  qed
qed

text \<open>
  Freshness is positive: the verdict is fresh exactly when the age, every delay bound and the
  threshold are known, no bound is negative, and either the age with all delays added is within the
  threshold, or the source is dated in the future by no more than a known tolerance.
\<close>

theorem fresh_iff_established:
  "freshness_verdict source_age delay_bounds max_age_bound future_tolerance = FRESH \<longleftrightarrow>
    (\<exists>age ds m. source_age = Some age \<and> delay_bounds = map Some ds \<and> list_all (\<lambda>d. 0 \<le> d) ds \<and>
      max_age_bound = Some m \<and> 0 \<le> m \<and> (case future_tolerance of Some t \<Rightarrow> 0 \<le> t | None \<Rightarrow> True) \<and>
      (if age < 0 then (\<exists>t. future_tolerance = Some t \<and> - age \<le> t) else age + sum_list ds \<le> m))"
  by (rule fresh_iff)

text \<open>Sources of one common-mode group count once, sources without a group each for itself.\<close>

lemma count_references_eq:
  "count_references ss seen n =
    n + length (filter (\<lambda>s. rs_common_mode_group s = None) ss) +
      card ({g. Some g \<in> rs_common_mode_group ` set ss} - seen)"
proof (induction ss arbitrary: seen n)
  case Nil
  then show ?case by simp
next
  case (Cons s ss)
  let ?G = "{g. Some g \<in> rs_common_mode_group ` set ss}"
  have fin: "finite ?G"
  proof -
    have "Some ` ?G \<subseteq> rs_common_mode_group ` set ss" by auto
    then show ?thesis by (meson finite_imageD finite_imageI finite_set finite_subset inj_Some inj_on_subset subset_UNIV)
  qed
  show ?case
  proof (cases "rs_common_mode_group s")
    case None
    then show ?thesis using Cons by simp
  next
    case (Some g)
    have G: "{h. Some h \<in> rs_common_mode_group ` set (s # ss)} = insert g ?G" using Some by auto
    show ?thesis
    proof (cases "g \<in> seen")
      case True
      then have "insert g ?G - seen = ?G - seen" by auto
      then show ?thesis using Some Cons True G by simp
    next
      case False
      then have "insert g ?G - seen = insert g (?G - insert g seen)" by auto
      moreover have "card (insert g (?G - insert g seen)) = Suc (card (?G - insert g seen))"
        using fin by (intro card_insert_disjoint) auto
      ultimately show ?thesis using Some Cons False G by simp
    qed
  qed
qed

lemma independent_reference_count_eq:
  "independent_reference_count ss =
    length (filter (\<lambda>s. rs_common_mode_group s = None) ss) + card {g. Some g \<in> rs_common_mode_group ` set ss}"
  by (simp add: independent_reference_count_def count_references_eq)

lemma single_group_counts_once:
  "ss \<noteq> [] \<Longrightarrow> \<forall>s \<in> set ss. rs_common_mode_group s = Some g \<Longrightarrow> independent_reference_count ss = 1"
proof -
  assume a: "ss \<noteq> []" "\<forall>s \<in> set ss. rs_common_mode_group s = Some g"
  then have "{h. Some h \<in> rs_common_mode_group ` set ss} = {g}"
    by (auto simp: neq_Nil_conv image_iff)
  moreover have "filter (\<lambda>s. rs_common_mode_group s = None) ss = []" using a(2) by (auto simp: filter_empty_conv)
  ultimately show ?thesis by (simp add: independent_reference_count_eq)
qed

end
