(* ===== verification/Time_Service.thy ===== *)
theory Time_Service
  imports Trusted_Time Canonical
begin

text \<open>
  The trustworthy time service of the runtime: \<^verbatim>\<open>tos_runtime/time/service.py\<close> with its generation
  counter (\<^verbatim>\<open>generation.py\<close>) and the observations of \<^verbatim>\<open>sources.py\<close>.  A cycle is given by what it reads,
  the monotonic clock and the observations of the sources, and by the evidence port, which accepts or
  refuses (raises) each append; the accepted rows are kept in order.  An operation yields the raised
  error or its value together with the service after it, because a raise may come after a mutation.
  A snapshot keeps the fields that vary; its digest binding is the one of digest-bound artifacts, and
  it is issued with the configured versions, so it is complete.
\<close>

section \<open>Configuration, observations, snapshots\<close>

record time_config =
  cf_max_source_precision_ms :: int
  cf_max_transport_and_queue_uncertainty_ms :: int
  cf_max_conservative_freshness_age_ms :: int
  cf_max_future_timestamp_tolerance_ms :: int
  cf_max_process_suspension_ms :: int
  cf_max_source_disagreement_ms :: int
  cf_min_independent_reference_count :: int

record runtime_identity =
  ri_cell_id :: pystr
  ri_process_nonce :: pystr

record reference_observation =
  ro_reachable :: bool
  ro_healthy :: bool
  ro_common_mode_group :: "pystr option"
  ro_wall_clock_unix_ms :: "int option"

record health_snapshot =
  hs_snapshot_id :: pystr
  hs_generation :: int
  hs_health_state :: health_state
  hs_anchor :: time_continuity_identity
  hs_issue_monotonic_value :: int
  hs_wall_clock_observation :: "int option"
  hs_suspended :: bool
  hs_suspension_ms :: "int option"

datatype time_evidence =
  StartupRow int int
| SnapshotRow health_snapshot
| WallClockRow pystr int

record time_service =
  sv_generation :: "int option"
  sv_anchor :: "time_continuity_identity option"
  sv_health_state :: health_state
  sv_snapshot :: "health_snapshot option"
  sv_snapshot_seq :: nat
  sv_last_transition_reason :: "pystr option"
  sv_wall_clock_exposed :: bool
  sv_previous_monotonic_ms :: "int option"
  sv_previous_wall_clock_unix_ms :: "int option"
  sv_cycle_previous_monotonic_ms :: "int option"
  sv_cycle_suspension_ms :: "int option"
  sv_evidence :: "time_evidence list"

definition new_service :: time_service where
  "new_service =
    \<lparr>sv_generation = None, sv_anchor = None, sv_health_state = UNINITIALIZED, sv_snapshot = None,
     sv_snapshot_seq = 0, sv_last_transition_reason = None, sv_wall_clock_exposed = False,
     sv_previous_monotonic_ms = None, sv_previous_wall_clock_unix_ms = None,
     sv_cycle_previous_monotonic_ms = None, sv_cycle_suspension_ms = None, sv_evidence = []\<rparr>"

text \<open>The generation counter: its state is the current generation.\<close>

definition counter_start :: "int \<Rightarrow> (pystr, int) result" where
  "counter_start n = (if n < 0 then Inl ''ValueError'' else Inr n)"

definition peek_next :: "int \<Rightarrow> int" where
  "peek_next current = current + 1"

definition next_generation :: "int \<Rightarrow> int" where
  "next_generation current = current + 1"

definition seed_from :: "int option \<Rightarrow> (pystr, int) result" where
  "seed_from durable_generation = counter_start (case durable_generation of None \<Rightarrow> 0 | Some g \<Rightarrow> g)"

text \<open>The evidence port accepts a row or raises.\<close>

type_synonym evidence_port = "time_evidence \<Rightarrow> bool"

definition append_evidence ::
  "evidence_port \<Rightarrow> time_evidence \<Rightarrow> time_service \<Rightarrow> (pystr, unit) result \<times> time_service" where
  "append_evidence port row s =
    (if port row then (Inr (), s\<lparr>sv_evidence := sv_evidence s @ [row]\<rparr>) else (Inl ''EvidenceError'', s))"

section \<open>Startup\<close>

definition build_anchor :: "runtime_identity \<Rightarrow> int \<Rightarrow> int \<Rightarrow> time_continuity_identity" where
  "build_anchor identity monotonic_value tts_generation =
    \<lparr>tc_host_or_runtime_id = Some (ri_cell_id identity), tc_boot_id = Some (ri_process_nonce identity),
     tc_process_id = Some (ri_process_nonce identity),
     tc_monotonic_anchor_id = Some (''mono-'' @ ri_process_nonce identity),
     tc_monotonic_anchor_value = Some monotonic_value, tc_tts_generation = Some tts_generation\<rparr>"

definition start_service ::
  "runtime_identity \<Rightarrow> int \<Rightarrow> evidence_port \<Rightarrow> time_service \<Rightarrow> (pystr, unit) result \<times> time_service" where
  "start_service identity now_ms port s =
    (if sv_generation s \<noteq> None then (Inl ''TimeServiceNotStarted'', s)
     else append_evidence port (StartupRow 0 now_ms)
       (s\<lparr>sv_generation := Some 0, sv_anchor := Some (build_anchor identity now_ms 0)\<rparr>))"

definition current_snapshot :: "time_service \<Rightarrow> (pystr, health_snapshot) result" where
  "current_snapshot s =
    (case (sv_generation s, sv_anchor s) of
      (Some _, Some _) \<Rightarrow>
        (case sv_snapshot s of None \<Rightarrow> Inl ''TimeServiceNotStarted'' | Some t \<Rightarrow> Inr t)
    | _ \<Rightarrow> Inl ''TimeServiceNotStarted'')"

section \<open>One cycle\<close>

definition propose_transition :: "health_state \<Rightarrow> bool \<Rightarrow> bool \<Rightarrow> health_state" where
  "propose_transition from_state anchor_ok required_ok =
    (if from_state = UNINITIALIZED then SYNCHRONIZING
     else if from_state = UNTRUSTED then SYNCHRONIZING
     else if \<not> anchor_ok then UNTRUSTED
     else if from_state = SYNCHRONIZING then (if required_ok then TRUSTED else SYNCHRONIZING)
     else if from_state = TRUSTED then (if required_ok then TRUSTED else DEGRADED_HOLDOVER)
     else (if required_ok then SYNCHRONIZING else DEGRADED_HOLDOVER))"

definition anchor_check :: "time_config \<Rightarrow> time_continuity_identity \<Rightarrow> int \<Rightarrow> int option \<Rightarrow> bool" where
  "anchor_check cfg anchor now_ms suspension_ms =
    anchor_valid (anchor\<lparr>tc_monotonic_anchor_value := Some now_ms\<rparr>) anchor suspension_ms
      (Some (cf_max_process_suspension_ms cfg))"

definition observed_suspension_ms :: "time_service \<Rightarrow> int \<Rightarrow> int option \<Rightarrow> int option" where
  "observed_suspension_ms s now_ms wall_clock_unix_ms =
    (case (sv_previous_monotonic_ms s, sv_previous_wall_clock_unix_ms s, wall_clock_unix_ms) of
      (Some prev_mono, Some prev_wall, Some wall) \<Rightarrow>
        Some (max 0 ((wall - prev_wall) - (now_ms - prev_mono)))
    | _ \<Rightarrow> None)"

definition usable :: "reference_observation \<Rightarrow> bool" where
  "usable r = (ro_reachable r \<and> ro_healthy r)"

text \<open>\<^verbatim>\<open>_read_reference_sources\<close>: the kernel records, the count and the wall clock.\<close>

definition read_reference_sources ::
  "reference_observation list \<Rightarrow> reference_source list \<times> nat \<times> int option" where
  "read_reference_sources observations =
    (map (\<lambda>r. \<lparr>rs_common_mode_group = ro_common_mode_group r, rs_reachable = ro_reachable r,
               rs_healthy = ro_healthy r\<rparr>) observations,
     length (filter usable observations),
     (case find (\<lambda>r. usable r \<and> ro_wall_clock_unix_ms r \<noteq> None) observations of
        None \<Rightarrow> None | Some r \<Rightarrow> ro_wall_clock_unix_ms r))"

definition required_check ::
  "time_config \<Rightarrow> bool \<Rightarrow> reference_source list \<Rightarrow> nat \<Rightarrow> bool" where
  "required_check cfg anchor_ok kernel_sources reachable_count =
    (let reachable = (reachable_count > 0);
         reference_count = (if reachable then independent_reference_count kernel_sources else 0);
         disagreement_ms = (if reachable_count = 1 then Some 0 else None);
         disagreement_ok = source_disagreement_within_bound disagreement_ms
           (Some (cf_max_source_disagreement_ms cfg));
         source_age = (if reachable then Some 0 else None);
         fresh = freshness_verdict source_age
           [Some (cf_max_transport_and_queue_uncertainty_ms cfg), Some (cf_max_source_precision_ms cfg)]
           (Some (cf_max_conservative_freshness_age_ms cfg))
           (Some (cf_max_future_timestamp_tolerance_ms cfg));
         snapshot_admissible = snapshot_age_admissible source_age
           (Some (cf_max_conservative_freshness_age_ms cfg))
     in anchor_ok \<and> reachable \<and> int reference_count \<ge> cf_min_independent_reference_count cfg \<and>
        disagreement_ok \<and> fresh = FRESH \<and> snapshot_admissible)"

text \<open>\<^verbatim>\<open>_decide_transition\<close>: the applied state, the refusal, the generation to commit, the anchor.\<close>

definition decide_transition ::
  "runtime_identity \<Rightarrow> time_service \<Rightarrow> health_state \<Rightarrow> bool \<Rightarrow> bool \<Rightarrow> int \<Rightarrow> time_continuity_identity \<Rightarrow> int \<Rightarrow>
    (pystr, health_state \<times> pystr option \<times> int \<times> time_continuity_identity) result" where
  "decide_transition identity s from_state anchor_ok required_ok generation anchor now_ms =
    (let to_state = propose_transition from_state anchor_ok required_ok
     in if to_state = from_state then Inr (from_state, None, generation, anchor)
        else if \<not> health_transition_allowed from_state to_state
        then Inr (from_state, Some ''health_transition_allowed refused'', generation, anchor)
        else if to_state = TRUSTED then
          (let candidate_generation = peek_next generation
           in if transition_to_trusted_requires_new_generation (Some generation) (Some candidate_generation)
              then Inr (to_state, None, candidate_generation, anchor)
              else Inr (from_state, Some ''transition_to_trusted_requires_new_generation refused'',
                generation, anchor))
        else if to_state = SYNCHRONIZING \<and> from_state = UNTRUSTED then
          (let last_generation = (case sv_snapshot s of Some t \<Rightarrow> hs_generation t | None \<Rightarrow> generation);
               new_generation = peek_next generation
           in if new_generation \<le> last_generation then Inl ''RecoveryGenerationNotAdvanced''
              else Inr (to_state, None, new_generation, build_anchor identity now_ms new_generation))
        else Inr (to_state, None, generation, anchor))"

definition ratchet_anchor ::
  "time_continuity_identity \<Rightarrow> time_continuity_identity \<Rightarrow> bool \<Rightarrow> bool \<Rightarrow> int \<Rightarrow> time_continuity_identity" where
  "ratchet_anchor anchor next_anchor rebuilt anchor_ok now_ms =
    (if rebuilt \<or> \<not> anchor_ok then next_anchor
     else anchor\<lparr>tc_monotonic_anchor_value :=
       Some (max (case tc_monotonic_anchor_value anchor of Some v \<Rightarrow> if v = 0 then now_ms else v | None \<Rightarrow> now_ms)
         now_ms)\<rparr>)"

text \<open>\<^verbatim>\<open>_issue_snapshot\<close>; the sequence number is the one already advanced.\<close>

definition issue_snapshot ::
  "time_config \<Rightarrow> runtime_identity \<Rightarrow> nat \<Rightarrow> int \<Rightarrow> health_state \<Rightarrow> time_continuity_identity \<Rightarrow> int \<Rightarrow>
    int option \<Rightarrow> int option \<Rightarrow> health_snapshot" where
  "issue_snapshot cfg identity seq generation_value health_state anchor now_ms wall suspension_ms =
    \<lparr>hs_snapshot_id = ''ths-'' @ ri_process_nonce identity @ ''-'' @ nat_str seq,
     hs_generation = generation_value, hs_health_state = health_state, hs_anchor = anchor,
     hs_issue_monotonic_value = now_ms, hs_wall_clock_observation = wall,
     hs_suspended = (case suspension_ms of None \<Rightarrow> False | Some d \<Rightarrow> d > cf_max_process_suspension_ms cfg),
     hs_suspension_ms = suspension_ms\<rparr>"

text \<open>The announcement that follows the row of the first trusted snapshot with a wall clock.\<close>

definition announce_wall_clock ::
  "evidence_port \<Rightarrow> health_snapshot \<Rightarrow> time_service \<Rightarrow> (pystr, unit) result \<times> time_service" where
  "announce_wall_clock port t s =
    (case hs_wall_clock_observation t of
      Some w \<Rightarrow>
        if hs_health_state t = TRUSTED \<and> \<not> sv_wall_clock_exposed s then
          (case append_evidence port (WallClockRow (hs_snapshot_id t) w) s of
            (Inl e, s') \<Rightarrow> (Inl e, s')
          | (Inr u, s') \<Rightarrow> (Inr u, s'\<lparr>sv_wall_clock_exposed := True\<rparr>))
        else (Inr (), s)
    | None \<Rightarrow> (Inr (), s))"

text \<open>The mutations after the receipts.\<close>

definition expose_snapshot :: "int \<Rightarrow> pystr option \<Rightarrow> health_snapshot \<Rightarrow> time_service \<Rightarrow> time_service" where
  "expose_snapshot generation reason t s =
    s\<lparr>sv_generation := Some (if hs_generation t \<noteq> generation then next_generation generation else generation),
      sv_anchor := Some (hs_anchor t), sv_health_state := hs_health_state t,
      sv_last_transition_reason := reason, sv_snapshot := Some t,
      sv_previous_monotonic_ms := Some (hs_issue_monotonic_value t),
      sv_previous_wall_clock_unix_ms := hs_wall_clock_observation t,
      sv_cycle_previous_monotonic_ms := sv_previous_monotonic_ms s,
      sv_cycle_suspension_ms := hs_suspension_ms t\<rparr>"

record cycle =
  cy_now_ms :: int
  cy_observations :: "reference_observation list"
  cy_port :: evidence_port

definition evaluate_cycle ::
  "time_config \<Rightarrow> runtime_identity \<Rightarrow> cycle \<Rightarrow> time_service \<Rightarrow>
    (pystr, health_snapshot) result \<times> time_service" where
  "evaluate_cycle cfg identity c s =
    (case (sv_generation s, sv_anchor s) of
      (Some generation, Some anchor) \<Rightarrow>
        (let now_ms = cy_now_ms c;
             (kernel_sources, reachable_count, wall) = read_reference_sources (cy_observations c);
             suspension_ms = observed_suspension_ms s now_ms wall;
             anchor_ok = anchor_check cfg anchor now_ms suspension_ms;
             required_ok = required_check cfg anchor_ok kernel_sources reachable_count
         in case decide_transition identity s (sv_health_state s) anchor_ok required_ok generation anchor now_ms of
           Inl e \<Rightarrow> (Inl e, s)
         | Inr (applied_state, reason, commit_generation, decided_anchor) \<Rightarrow>
             (let rebuilt = (sv_health_state s = UNTRUSTED \<and> applied_state = SYNCHRONIZING);
                  next_anchor = ratchet_anchor anchor decided_anchor rebuilt anchor_ok now_ms;
                  s1 = s\<lparr>sv_snapshot_seq := sv_snapshot_seq s + 1\<rparr>;
                  snapshot = issue_snapshot cfg identity (sv_snapshot_seq s1) commit_generation
                    applied_state next_anchor now_ms wall suspension_ms
              in case append_evidence (cy_port c) (SnapshotRow snapshot) s1 of
                (Inl e, s2) \<Rightarrow> (Inl e, s2)
              | (Inr _, s2) \<Rightarrow>
                  (case announce_wall_clock (cy_port c) snapshot s2 of
                    (Inl e, s3) \<Rightarrow> (Inl e, s3)
                  | (Inr _, s3) \<Rightarrow> (Inr snapshot, expose_snapshot generation reason snapshot s3))))
    | _ \<Rightarrow> (Inl ''TimeServiceNotStarted'', s))"

section \<open>Reading the clock\<close>

definition wall_clock_now :: "time_service \<Rightarrow> int option" where
  "wall_clock_now s =
    (if sv_health_state s \<noteq> TRUSTED then None
     else case sv_snapshot s of None \<Rightarrow> None | Some t \<Rightarrow> hs_wall_clock_observation t)"

definition wall_clock_now_if_fresh :: "time_service \<Rightarrow> int \<Rightarrow> int \<Rightarrow> int option" where
  "wall_clock_now_if_fresh s now_ms max_age_ms =
    (case (wall_clock_now s, sv_snapshot s) of
      (Some observation, Some t) \<Rightarrow>
        (let age_ms = now_ms - hs_issue_monotonic_value t
         in if age_ms < 0 \<or> age_ms > max_age_ms then None else Some observation)
    | _ \<Rightarrow> None)"

definition wall_clock_at_monotonic :: "time_service \<Rightarrow> int \<Rightarrow> int option" where
  "wall_clock_at_monotonic s mono_ms =
    (case (wall_clock_now s, sv_snapshot s) of
      (Some issue_wall_ms, Some t) \<Rightarrow>
        (case (sv_cycle_previous_monotonic_ms s, sv_cycle_suspension_ms s) of
          (Some domain_floor_ms, Some suspension_ms) \<Rightarrow>
            if mono_ms < domain_floor_ms \<or> mono_ms > hs_issue_monotonic_value t then None
            else Some (issue_wall_ms - (hs_issue_monotonic_value t - mono_ms) - suspension_ms)
        | _ \<Rightarrow> None)
    | _ \<Rightarrow> None)"

section \<open>One cycle, taken apart\<close>

lemma required_check_iff:
  "required_check cfg anchor_ok ks n \<longleftrightarrow>
    anchor_ok \<and> n = 1 \<and> cf_min_independent_reference_count cfg \<le> int (independent_reference_count ks) \<and>
    0 \<le> cf_max_source_disagreement_ms cfg \<and> 0 \<le> cf_max_transport_and_queue_uncertainty_ms cfg \<and>
    0 \<le> cf_max_source_precision_ms cfg \<and> 0 \<le> cf_max_future_timestamp_tolerance_ms cfg \<and>
    cf_max_transport_and_queue_uncertainty_ms cfg + cf_max_source_precision_ms cfg \<le>
      cf_max_conservative_freshness_age_ms cfg"
  unfolding required_check_def Let_def fresh_iff
  by (auto simp: source_disagreement_within_bound_def snapshot_age_admissible_def Cons_eq_map_conv)

lemma anchor_check_iff:
  assumes "tc_host_or_runtime_id a \<noteq> None" "tc_boot_id a \<noteq> None" "tc_process_id a \<noteq> None"
    "tc_monotonic_anchor_id a \<noteq> None"
  shows "anchor_check cfg a now_ms sus \<longleftrightarrow>
    (\<exists>v d. tc_monotonic_anchor_value a = Some v \<and> v \<le> now_ms \<and> sus = Some d \<and>
      d \<le> cf_max_process_suspension_ms cfg)"
  using assms by (auto simp: anchor_check_def anchor_valid_iff same_known_def)

lemma decide_cases [consumes 1, case_names stay refused trusted recovered moved]:
  assumes "decide_transition identity s f ok req g a now = Inr (st, r, cg, na)"
  obtains (stay) "propose_transition f ok req = f" "st = f" "cg = g" "na = a"
  | (refused) "st = f" "cg = g" "na = a" "f = SYNCHRONIZING" "\<not> ok"
  | (trusted) "f = SYNCHRONIZING" "st = TRUSTED" "ok" "req" "cg = g + 1" "na = a"
  | (recovered) "f = UNTRUSTED" "st = SYNCHRONIZING" "cg = g + 1" "na = build_anchor identity now (g + 1)"
  | (moved) "st = propose_transition f ok req" "st \<noteq> f" "st \<noteq> TRUSTED" "f \<noteq> UNTRUSTED" "cg = g" "na = a"
proof (cases f)
  case UNINITIALIZED
  then show ?thesis using assms moved
    by (auto simp: decide_transition_def propose_transition_def Let_def health_transition_allowed_def
        allowed_transitions_def split: if_splits)
next
  case SYNCHRONIZING
  then show ?thesis using assms stay refused trusted
    by (auto simp: decide_transition_def propose_transition_def Let_def health_transition_allowed_def
        allowed_transitions_def transition_to_trusted_requires_new_generation_def peek_next_def split: if_splits)
next
  case TRUSTED
  then show ?thesis using assms stay moved
    by (auto simp: decide_transition_def propose_transition_def Let_def health_transition_allowed_def
        allowed_transitions_def split: if_splits)
next
  case DEGRADED_HOLDOVER
  then show ?thesis using assms stay moved
    by (auto simp: decide_transition_def propose_transition_def Let_def health_transition_allowed_def
        allowed_transitions_def split: if_splits)
next
  case UNTRUSTED
  then show ?thesis using assms recovered
    by (auto simp: decide_transition_def propose_transition_def Let_def health_transition_allowed_def
        allowed_transitions_def peek_next_def split: if_splits)
qed

lemma propose_trusted:
  "propose_transition f ok req = TRUSTED \<Longrightarrow> ok \<and> req \<and> f \<in> {SYNCHRONIZING, TRUSTED}"
  by (cases f) (auto simp: propose_transition_def split: if_splits)

lemma decide_trusted:
  assumes "decide_transition identity s f ok req g a now = Inr (TRUSTED, r, cg, na)"
  shows "ok \<and> req \<and> na = a"
  using assms
proof (cases rule: decide_cases)
  case stay
  then show ?thesis using propose_trusted[of f ok req] by simp
qed simp_all

text \<open>The snapshot and the service of a cycle that succeeds, and the service of one that raises.\<close>

lemma append_evidence_cases [consumes 1, case_names accepted refused]:
  assumes "append_evidence port row s = (r, s')"
  obtains (accepted) "port row" "r = Inr ()" "s' = s\<lparr>sv_evidence := sv_evidence s @ [row]\<rparr>"
  | (refused) "\<not> port row" "r = Inl ''EvidenceError''" "s' = s"
  using assms by (auto simp: append_evidence_def split: if_splits)

text \<open>Nothing but the sequence number, the evidence and the announcement flag changes before the receipts.\<close>

definition same_core :: "time_service \<Rightarrow> time_service \<Rightarrow> bool" where
  "same_core s s' \<longleftrightarrow>
    sv_generation s' = sv_generation s \<and> sv_anchor s' = sv_anchor s \<and>
    sv_health_state s' = sv_health_state s \<and> sv_snapshot s' = sv_snapshot s \<and>
    sv_last_transition_reason s' = sv_last_transition_reason s \<and>
    sv_previous_monotonic_ms s' = sv_previous_monotonic_ms s \<and>
    sv_previous_wall_clock_unix_ms s' = sv_previous_wall_clock_unix_ms s \<and>
    sv_cycle_previous_monotonic_ms s' = sv_cycle_previous_monotonic_ms s \<and>
    sv_cycle_suspension_ms s' = sv_cycle_suspension_ms s \<and>
    set (sv_evidence s) \<subseteq> set (sv_evidence s')"

lemma same_core_refl [simp]: "same_core s s"
  by (simp add: same_core_def)

lemma same_core_snapshot: "same_core s s' \<Longrightarrow> current_snapshot s' = current_snapshot s"
  by (simp add: current_snapshot_def same_core_def split: option.split)

lemma append_evidence_core: "append_evidence port row s = (r, s') \<Longrightarrow> same_core s s'"
  by (erule append_evidence_cases) (auto simp: same_core_def)

lemma announce_core: "announce_wall_clock port t s = (r, s') \<Longrightarrow> same_core s s'"
  by (auto simp: announce_wall_clock_def append_evidence_def same_core_def split: option.splits if_splits)

lemma announce_accepted: "\<forall>row. port row \<Longrightarrow> \<exists>s'. announce_wall_clock port t s = (Inr (), s')"
  by (auto simp: announce_wall_clock_def append_evidence_def split: option.splits)

lemma same_core_trans: "same_core s s1 \<Longrightarrow> same_core s1 s2 \<Longrightarrow> same_core s s2"
  by (auto simp: same_core_def)

lemma same_core_seq [simp]: "same_core (s\<lparr>sv_snapshot_seq := q\<rparr>) s' = same_core s s'"
  by (simp add: same_core_def)

lemma evaluate_cases [consumes 3, case_names not_started not_advanced refused exposed]:
  assumes "evaluate_cycle cfg identity c s = (res, s')"
    and "read_reference_sources (cy_observations c) = (ks, n, w)"
    and "sus = observed_suspension_ms s (cy_now_ms c) w"
  obtains (not_started) "sv_generation s = None \<or> sv_anchor s = None" "res = Inl ''TimeServiceNotStarted''" "s' = s"
  | (not_advanced) g a e where "sv_generation s = Some g" "sv_anchor s = Some a"
      "decide_transition identity s (sv_health_state s) (anchor_check cfg a (cy_now_ms c) sus)
        (required_check cfg (anchor_check cfg a (cy_now_ms c) sus) ks n) g a (cy_now_ms c) = Inl e"
      "res = Inl e" "s' = s"
  | (refused) e where "res = Inl e" "same_core s s'" "\<exists>row. \<not> cy_port c row"
  | (exposed) g a st r cg na q s3 where "sv_generation s = Some g" "sv_anchor s = Some a"
      "decide_transition identity s (sv_health_state s) (anchor_check cfg a (cy_now_ms c) sus)
        (required_check cfg (anchor_check cfg a (cy_now_ms c) sus) ks n) g a (cy_now_ms c) = Inr (st, r, cg, na)"
      "res = Inr (issue_snapshot cfg identity q cg st
        (ratchet_anchor a na (sv_health_state s = UNTRUSTED \<and> st = SYNCHRONIZING)
          (anchor_check cfg a (cy_now_ms c) sus) (cy_now_ms c)) (cy_now_ms c) w sus)"
      "same_core s s3" "SnapshotRow (projr res) \<in> set (sv_evidence s3)"
      "s' = expose_snapshot g r (projr res) s3"
proof (cases "sv_generation s = None \<or> sv_anchor s = None")
  case True
  then show thesis using assms(1) by (intro not_started) (auto simp: evaluate_cycle_def split: option.splits)
next
  case False
  then obtain g a where ga: "sv_generation s = Some g" "sv_anchor s = Some a" by auto
  define ok where "ok = anchor_check cfg a (cy_now_ms c) sus"
  define dec where "dec = decide_transition identity s (sv_health_state s) ok
      (required_check cfg ok ks n) g a (cy_now_ms c)"
  show thesis
  proof (cases dec)
    case (Inl e)
    then have e: "decide_transition identity s (sv_health_state s) (anchor_check cfg a (cy_now_ms c) sus)
        (required_check cfg (anchor_check cfg a (cy_now_ms c) sus) ks n) g a (cy_now_ms c) = Inl e"
      by (simp add: dec_def ok_def)
    then have "(res, s') = (Inl e, s)"
      using assms(1) by (simp add: evaluate_cycle_def ga assms(2) assms(3)[symmetric] Let_def)
    then show thesis using not_advanced[OF ga e] by simp
  next
    case (Inr d)
    obtain st r cg na where d: "d = (st, r, cg, na)" by (metis prod_cases4)
    define t where "t = issue_snapshot cfg identity (sv_snapshot_seq s + 1) cg st
        (ratchet_anchor a na (sv_health_state s = UNTRUSTED \<and> st = SYNCHRONIZING) ok (cy_now_ms c))
        (cy_now_ms c) w sus"
    define s1 where "s1 = s\<lparr>sv_snapshot_seq := sv_snapshot_seq s + 1\<rparr>"
    obtain x s2 where app: "append_evidence (cy_port c) (SnapshotRow t) s1 = (x, s2)" by (metis surj_pair)
    obtain y s3 where ann: "announce_wall_clock (cy_port c) t s2 = (y, s3)" by (metis surj_pair)
    have core: "same_core s s2" "same_core s s3"
      using append_evidence_core[OF app] announce_core[OF ann] same_core_trans by (auto simp: s1_def)
    have run: "(res, s') = (case x of Inl e \<Rightarrow> (Inl e, s2) | Inr _ \<Rightarrow>
        (case y of Inl e \<Rightarrow> (Inl e, s3) | Inr _ \<Rightarrow> (Inr t, expose_snapshot g r t s3)))"
      using assms(1) Inr d app ann
      by (simp add: evaluate_cycle_def ga assms(2) assms(3)[symmetric] Let_def dec_def ok_def t_def s1_def
          split: sum.splits)
    show thesis
    proof (cases x)
      case (Inl e)
      then have "\<not> cy_port c (SnapshotRow t)" using app by (auto elim: append_evidence_cases)
      then show thesis using Inl run core refused by auto
    next
      case x: (Inr u)
      have row: "SnapshotRow t \<in> set (sv_evidence s3)"
        using app x announce_core[OF ann] by (auto simp: same_core_def elim!: append_evidence_cases)
      show thesis
      proof (cases y)
        case (Inl e)
        then have "\<exists>row. \<not> cy_port c row" using ann announce_accepted[of "cy_port c" t s2] by auto
        then show thesis using Inl run x core refused by auto
      next
        case (Inr u)
        then have "res = Inr t" "s' = expose_snapshot g r t s3" using run x by simp_all
        then show thesis
          using exposed[OF ga, of st r cg na "sv_snapshot_seq s + 1" s3] \<open>dec = Inr d\<close> d core row
          by (simp add: dec_def ok_def t_def)
      qed
    qed
  qed
qed

section \<open>Runs\<close>

text \<open>
  What a process can do: start once, then any cycles, with any readings and any behaviour of the
  evidence port; the snapshots are those the cycles exposed, in order.
\<close>

inductive service_run :: "time_config \<Rightarrow> runtime_identity \<Rightarrow> health_snapshot list \<Rightarrow> time_service \<Rightarrow> bool"
  for cfg identity where
  started: "start_service identity now_ms port new_service = (r, s) \<Longrightarrow> service_run cfg identity [] s"
| cycled: "service_run cfg identity h s \<Longrightarrow> evaluate_cycle cfg identity c s = (Inr t, s') \<Longrightarrow>
    service_run cfg identity (h @ [t]) s'"
| failed: "service_run cfg identity h s \<Longrightarrow> evaluate_cycle cfg identity c s = (Inl e, s') \<Longrightarrow>
    service_run cfg identity h s'"

definition own_anchor :: "runtime_identity \<Rightarrow> time_continuity_identity \<Rightarrow> bool" where
  "own_anchor identity a =
    (tc_host_or_runtime_id a = Some (ri_cell_id identity) \<and> tc_boot_id a = Some (ri_process_nonce identity) \<and>
     tc_process_id a = Some (ri_process_nonce identity) \<and>
     tc_monotonic_anchor_id a = Some (''mono-'' @ ri_process_nonce identity) \<and>
     tc_monotonic_anchor_value a \<noteq> None)"

definition service_inv :: "runtime_identity \<Rightarrow> health_snapshot list \<Rightarrow> time_service \<Rightarrow> bool" where
  "service_inv identity h s \<longleftrightarrow>
    (\<exists>g a. sv_generation s = Some g \<and> sv_anchor s = Some a \<and> own_anchor identity a \<and>
      (\<forall>t \<in> set h. hs_generation t \<le> g \<and> SnapshotRow t \<in> set (sv_evidence s)) \<and>
      (h \<noteq> [] \<longrightarrow> hs_generation (last h) = g) \<and>
      sv_snapshot s = (if h = [] then None else Some (last h)) \<and>
      sv_health_state s = (if h = [] then UNINITIALIZED else hs_health_state (last h)))"

lemma own_anchor_check:
  assumes "own_anchor identity a"
  shows "anchor_check cfg a now_ms sus \<longleftrightarrow>
    the (tc_monotonic_anchor_value a) \<le> now_ms \<and>
    (\<exists>d. sus = Some d \<and> d \<le> cf_max_process_suspension_ms cfg)"
  using assms anchor_check_iff[of a cfg now_ms sus] by (auto simp: own_anchor_def)

lemma own_anchor_build [simp]: "own_anchor identity (build_anchor identity v g)"
  by (simp add: own_anchor_def build_anchor_def)

lemma own_anchor_ratchet [simp]:
  "own_anchor identity a \<Longrightarrow> own_anchor identity na \<Longrightarrow> own_anchor identity (ratchet_anchor a na b ok now)"
  by (simp add: own_anchor_def ratchet_anchor_def)

lemma service_inv_core: "service_inv identity h s \<Longrightarrow> same_core s s' \<Longrightarrow> service_inv identity h s'"
  by (fastforce simp: service_inv_def same_core_def)

lemma service_inv_start:
  "start_service identity now_ms port new_service = (r, s) \<Longrightarrow> service_inv identity [] s"
  by (auto simp: start_service_def new_service_def append_evidence_def service_inv_def split: if_splits)

lemma decided_generation:
  assumes "decide_transition identity s f ok req g a now = Inr (st, r, cg, na)" "own_anchor identity a"
  shows "cg \<in> {g, g + 1}" "own_anchor identity na"
    "st = TRUSTED \<and> f \<noteq> TRUSTED \<or> f = UNTRUSTED \<Longrightarrow> cg = g + 1"
  using assms by (cases rule: decide_cases; auto simp: propose_transition_def split: if_splits)+

lemma issue_snapshot_sel [simp]:
  "hs_generation (issue_snapshot cfg identity q cg st a now w sus) = cg"
  "hs_health_state (issue_snapshot cfg identity q cg st a now w sus) = st"
  "hs_anchor (issue_snapshot cfg identity q cg st a now w sus) = a"
  "hs_issue_monotonic_value (issue_snapshot cfg identity q cg st a now w sus) = now"
  "hs_wall_clock_observation (issue_snapshot cfg identity q cg st a now w sus) = w"
  "hs_suspension_ms (issue_snapshot cfg identity q cg st a now w sus) = sus"
  by (simp_all add: issue_snapshot_def)

text \<open>In a run a cycle fails only by the port; otherwise it exposes the decided snapshot.\<close>

lemma cycle_in_run [consumes 2, case_names refused exposed]:
  assumes "service_inv identity h s" "evaluate_cycle cfg identity c s = (res, s')"
  obtains (refused) e where "res = Inl e" "same_core s s'" "\<exists>row. \<not> cy_port c row"
  | (exposed) g a ks n w sus ok st r cg na t where
      "sv_generation s = Some g" "sv_anchor s = Some a" "own_anchor identity a"
      "read_reference_sources (cy_observations c) = (ks, n, w)"
      "sus = observed_suspension_ms s (cy_now_ms c) w" "ok = anchor_check cfg a (cy_now_ms c) sus"
      "decide_transition identity s (sv_health_state s) ok (required_check cfg ok ks n) g a (cy_now_ms c) =
        Inr (st, r, cg, na)"
      "res = Inr t" "hs_generation t = cg" "hs_health_state t = st"
      "hs_anchor t = ratchet_anchor a na (sv_health_state s = UNTRUSTED \<and> st = SYNCHRONIZING) ok (cy_now_ms c)"
      "hs_issue_monotonic_value t = cy_now_ms c" "hs_wall_clock_observation t = w" "hs_suspension_ms t = sus"
      "sv_generation s' = Some cg" "sv_anchor s' = Some (hs_anchor t)" "sv_health_state s' = st"
      "sv_snapshot s' = Some t" "sv_previous_monotonic_ms s' = Some (cy_now_ms c)"
      "sv_previous_wall_clock_unix_ms s' = w"
      "sv_cycle_previous_monotonic_ms s' = sv_previous_monotonic_ms s" "sv_cycle_suspension_ms s' = sus"
      "SnapshotRow t \<in> set (sv_evidence s')" "set (sv_evidence s) \<subseteq> set (sv_evidence s')"
proof -
  obtain ks n w where rd: "read_reference_sources (cy_observations c) = (ks, n, w)" by (metis prod_cases3)
  obtain g a where ga: "sv_generation s = Some g" "sv_anchor s = Some a" "own_anchor identity a"
    and snap: "h \<noteq> [] \<longrightarrow> hs_generation (last h) = g" "sv_snapshot s = (if h = [] then None else Some (last h))"
    using assms(1) unfolding service_inv_def by blast
  then have last: "\<And>t. sv_snapshot s = Some t \<Longrightarrow> hs_generation t = g" by (auto split: if_splits)
  from assms(2) rd refl show thesis
  proof (cases rule: evaluate_cases)
    case not_started
    then show thesis using ga by simp
  next
    case (not_advanced g' a' e)
    then show thesis using ga last
      by (auto simp: decide_transition_def Let_def peek_next_def split: if_splits option.splits)
  next
    case refused
    then show thesis using that(1) by blast
  next
    case (exposed g' a' st r cg na q s3)
    have g': "g' = g" "a' = a" using exposed(1,2) ga by simp_all
    have cg: "cg \<noteq> g \<Longrightarrow> g + 1 = cg" using decided_generation(1)[OF exposed(3)] ga g' by auto
    show thesis
      by (rule that(2)[OF ga rd refl refl exposed(3)[unfolded g'] exposed(4)])
        (use exposed(5-) cg g' in \<open>simp_all add: expose_snapshot_def next_generation_def same_core_def exposed(4)\<close>)
  qed
qed

lemma service_inv_step:
  assumes "service_inv identity h s" "evaluate_cycle cfg identity c s = (Inr t, s')"
  shows "service_inv identity (h @ [t]) s'"
  using assms
proof (cases rule: cycle_in_run)
  case (exposed g a ks n w sus ok st r cg na t')
  have "cg \<in> {g, g + 1}" "own_anchor identity na"
    using decided_generation[OF exposed(7)] exposed(3) by simp_all
  then show ?thesis
    using assms(1) exposed by (fastforce simp: service_inv_def)
qed simp

lemma run_inv: "service_run cfg identity h s \<Longrightarrow> service_inv identity h s"
proof (induction rule: service_run.induct)
  case (failed h s c e s')
  then show ?case by (cases rule: cycle_in_run[OF failed.IH failed.hyps(2)]) (auto intro: service_inv_core)
qed (auto intro: service_inv_start service_inv_step)

section \<open>Properties\<close>

lemma read_reference_sources_eq:
  "read_reference_sources obs = (ks, n, w) \<Longrightarrow>
    n = length (filter usable obs) \<and> map rs_common_mode_group ks = map ro_common_mode_group obs"
  by (auto simp: read_reference_sources_def)

text \<open>
  C23: trust is earned in every cycle anew: when a cycle of a running service exposes a trusted
  snapshot, then in this very cycle the monotonic clock was not behind the high-water mark of the
  anchor, the suspension since the last cycle was measured and within its bound, exactly one source
  was reachable and healthy, the configured bounds were established and consistent, and the snapshot
  was durably recorded.  So a clock regression, an unmeasured suspension, an unreachable source or a
  second source that was not compared can never end in, or keep, trust.
\<close>

theorem trusted_is_earned:
  assumes "service_run cfg identity h s" "evaluate_cycle cfg identity c s = (Inr t, s')"
    "hs_health_state t = TRUSTED"
  shows "\<exists>a v d. sv_anchor s = Some a \<and> tc_monotonic_anchor_value a = Some v \<and> v \<le> cy_now_ms c \<and>
    hs_suspension_ms t = Some d \<and> d \<le> cf_max_process_suspension_ms cfg \<and>
    length (filter usable (cy_observations c)) = 1 \<and>
    cf_max_transport_and_queue_uncertainty_ms cfg + cf_max_source_precision_ms cfg \<le>
      cf_max_conservative_freshness_age_ms cfg \<and>
    SnapshotRow t \<in> set (sv_evidence s')"
proof -
  from run_inv[OF assms(1)] assms(2) show ?thesis
  proof (cases rule: cycle_in_run)
    case (exposed g a ks n w sus ok st r cg na t')
    have t: "t' = t" "st = TRUSTED" using exposed(8,10) assms(3) by simp_all
    have "ok \<and> required_check cfg ok ks n" using decide_trusted exposed(7) t by blast
    then show ?thesis
      using exposed t own_anchor_check[OF exposed(3), of cfg "cy_now_ms c" sus] read_reference_sources_eq
      by (auto simp: required_check_iff own_anchor_def)
  qed simp
qed

text \<open>
  C24: no generation is reused: over a whole run the generations of the exposed snapshots never
  decrease, and a snapshot that enters trust, or that leaves the untrusted state, carries a
  generation greater than that of every snapshot exposed before it.
\<close>

theorem generations_are_never_reused:
  assumes "service_run cfg identity h s" "evaluate_cycle cfg identity c s = (Inr t, s')"
  shows "list_all (\<lambda>u. hs_generation u \<le> hs_generation t) h \<and>
    ((hs_health_state t = TRUSTED \<and> sv_health_state s \<noteq> TRUSTED) \<or> sv_health_state s = UNTRUSTED \<longrightarrow>
      list_all (\<lambda>u. hs_generation u < hs_generation t) h)"
proof -
  obtain g where g: "sv_generation s = Some g" "\<forall>u \<in> set h. hs_generation u \<le> g"
    using run_inv[OF assms(1)] unfolding service_inv_def by blast
  from run_inv[OF assms(1)] assms(2) show ?thesis
  proof (cases rule: cycle_in_run)
    case (exposed g' a ks n w sus ok st r cg na t')
    then have "g' = g" "t' = t" using g by simp_all
    then show ?thesis
      using decided_generation(1,3)[OF exposed(7,3)] exposed(8-10) g(2) by (fastforce simp: list_all_iff)
  qed simp
qed

text \<open>
  A cycle without a receipt did not happen: when a cycle raises, the state of health, the anchor,
  the generation, the exposed snapshot, the last transition and the readings kept for the next cycle
  are what they were, and on a running service only the evidence port can make it raise.
\<close>

theorem failed_cycle_moves_nothing:
  assumes "service_run cfg identity h s" "evaluate_cycle cfg identity c s = (Inl e, s')"
  shows "same_core s s' \<and> current_snapshot s' = current_snapshot s \<and> (\<exists>row. \<not> cy_port c row)"
  using run_inv[OF assms(1)] assms(2)
  by (cases rule: cycle_in_run) (simp_all add: same_core_snapshot)

text \<open>
  The mapping to the wall clock is conservative: a past monotonic instant is mapped no later than
  the wall clock of this cycle less the monotonic time since, and no later than the wall clock of the
  previous cycle plus the monotonic time after it; so no age computed from it is too small.
\<close>

theorem mapped_instant_is_never_late:
  assumes "service_run cfg identity h s" "evaluate_cycle cfg identity c s = (Inr t, s')"
    "wall_clock_at_monotonic s' m = Some v"
  shows "\<exists>p q w. sv_previous_monotonic_ms s = Some p \<and> sv_previous_wall_clock_unix_ms s = Some q \<and>
    hs_wall_clock_observation t = Some w \<and> p \<le> m \<and> m \<le> cy_now_ms c \<and>
    v = min (w - (cy_now_ms c - m)) (q + (m - p))"
proof -
  from run_inv[OF assms(1)] assms(2) show ?thesis
  proof (cases rule: cycle_in_run)
    case (exposed g a ks n w sus ok st r cg na t')
    have t: "t' = t" using exposed(8) by simp
    show ?thesis
      using assms(3) exposed(5,12-14,17,18,21,22) t
      by (auto simp: wall_clock_at_monotonic_def wall_clock_now_def observed_suspension_ms_def
          split: if_splits option.splits)
  qed simp
qed

section \<open>Recovery\<close>

definition consistent_config :: "time_config \<Rightarrow> bool" where
  "consistent_config cfg \<longleftrightarrow>
    0 \<le> cf_max_source_disagreement_ms cfg \<and> 0 \<le> cf_max_transport_and_queue_uncertainty_ms cfg \<and>
    0 \<le> cf_max_source_precision_ms cfg \<and> 0 \<le> cf_max_future_timestamp_tolerance_ms cfg \<and>
    0 \<le> cf_max_process_suspension_ms cfg \<and>
    cf_max_transport_and_queue_uncertainty_ms cfg + cf_max_source_precision_ms cfg \<le>
      cf_max_conservative_freshness_age_ms cfg"

text \<open>The port accepts, one source is usable and gives the wall clock, and the sources suffice.\<close>

definition good_cycle :: "time_config \<Rightarrow> cycle \<Rightarrow> int \<Rightarrow> bool" where
  "good_cycle cfg c wall \<longleftrightarrow>
    (\<forall>row. cy_port c row) \<and>
    (\<exists>r ks. filter usable (cy_observations c) = [r] \<and> ro_wall_clock_unix_ms r = Some wall \<and>
      read_reference_sources (cy_observations c) = (ks, 1, Some wall) \<and>
      cf_min_independent_reference_count cfg \<le> int (independent_reference_count ks))"

definition anchor_not_ahead :: "time_service \<Rightarrow> int \<Rightarrow> bool" where
  "anchor_not_ahead s now_ms \<longleftrightarrow>
    (\<forall>a v. sv_anchor s = Some a \<longrightarrow> tc_monotonic_anchor_value a = Some v \<longrightarrow> v \<le> now_ms)"

lemma good_required:
  "consistent_config cfg \<Longrightarrow> good_cycle cfg c wall \<Longrightarrow>
    read_reference_sources (cy_observations c) = (ks, n, w) \<Longrightarrow> w = Some wall \<and> required_check cfg ok ks n = ok"
  by (auto simp: good_cycle_def required_check_iff consistent_config_def)

lemma good_step:
  assumes "service_inv identity h s" "consistent_config cfg" "good_cycle cfg c wall"
    "anchor_not_ahead s (cy_now_ms c)"
  obtains t s' where "evaluate_cycle cfg identity c s = (Inr t, s')" "service_inv identity (h @ [t]) s'"
    "sv_previous_monotonic_ms s' = Some (cy_now_ms c)" "sv_previous_wall_clock_unix_ms s' = Some wall"
    "anchor_not_ahead s' (cy_now_ms c)"
    "sv_health_state s' = hs_health_state t"
    "hs_health_state t \<in> {SYNCHRONIZING, TRUSTED, UNTRUSTED}"
    "(\<exists>d. observed_suspension_ms s (cy_now_ms c) (Some wall) = Some d \<and>
        d \<le> cf_max_process_suspension_ms cfg) \<Longrightarrow>
      hs_health_state t = (if sv_health_state s \<in> {SYNCHRONIZING, TRUSTED} then TRUSTED else SYNCHRONIZING)"
proof -
  obtain res s' where ev: "evaluate_cycle cfg identity c s = (res, s')" by (metis surj_pair)
  from assms(1) ev show thesis
  proof (cases rule: cycle_in_run)
    case refused
    then show thesis using assms(3) by (auto simp: good_cycle_def)
  next
    case (exposed g a ks n w sus ok st r cg na t)
    have req: "w = Some wall" "required_check cfg ok ks n = ok"
      using good_required[OF assms(2,3) exposed(4)] by blast+
    obtain v where v: "tc_monotonic_anchor_value a = Some v" "v \<le> cy_now_ms c"
      using exposed(2,3) assms(4) by (auto simp: own_anchor_def anchor_not_ahead_def)
    have okd: "ok \<longleftrightarrow> (\<exists>d. sus = Some d \<and> d \<le> cf_max_process_suspension_ms cfg)"
      using own_anchor_check[OF exposed(3), of cfg "cy_now_ms c" sus] v exposed(6) by simp
    note dec = exposed(7)[unfolded req(2)]
    have low: "x \<le> cy_now_ms c"
      if "tc_monotonic_anchor_value (hs_anchor t) = Some x" for x
      using that v exposed(11) decided_generation(2)[OF dec exposed(3)] dec
      by (cases rule: decide_cases[OF dec])
        (auto simp: ratchet_anchor_def build_anchor_def split: if_splits)
    have st: "st \<in> {SYNCHRONIZING, TRUSTED, UNTRUSTED}"
      using dec by (cases rule: decide_cases) (auto simp: propose_transition_def split: if_splits)
    have good: "st = (if sv_health_state s \<in> {SYNCHRONIZING, TRUSTED} then TRUSTED else SYNCHRONIZING)" if ok
      using dec that by (cases rule: decide_cases; cases "sv_health_state s")
        (auto simp: propose_transition_def split: if_splits)
    have low': "anchor_not_ahead s' (cy_now_ms c)"
      using low exposed(16) by (simp add: anchor_not_ahead_def)
    show thesis
      by (rule that[of t s'])
        (use ev exposed req low' st good okd service_inv_step[OF assms(1)] in auto)
  qed
qed

definition small_suspension :: "time_config \<Rightarrow> cycle \<Rightarrow> int \<Rightarrow> cycle \<Rightarrow> int \<Rightarrow> bool" where
  "small_suspension cfg c w c' w' \<longleftrightarrow>
    cy_now_ms c \<le> cy_now_ms c' \<and> (w' - w) - (cy_now_ms c' - cy_now_ms c) \<le> cf_max_process_suspension_ms cfg"

lemma next_good_step:
  assumes "service_inv identity h s" "consistent_config cfg" "good_cycle cfg c' w'"
    "small_suspension cfg c w c' w'" "sv_previous_monotonic_ms s = Some (cy_now_ms c)"
    "sv_previous_wall_clock_unix_ms s = Some w"
    "anchor_not_ahead s (cy_now_ms c)"
  obtains t s' where "evaluate_cycle cfg identity c' s = (Inr t, s')" "service_inv identity (h @ [t]) s'"
    "sv_previous_monotonic_ms s' = Some (cy_now_ms c')" "sv_previous_wall_clock_unix_ms s' = Some w'"
    "anchor_not_ahead s' (cy_now_ms c')"
    "sv_health_state s' = hs_health_state t"
    "hs_health_state t = (if sv_health_state s \<in> {SYNCHRONIZING, TRUSTED} then TRUSTED else SYNCHRONIZING)"
proof -
  have low: "anchor_not_ahead s (cy_now_ms c')"
    using assms(4,7) by (fastforce simp: small_suspension_def anchor_not_ahead_def)
  have "\<exists>d. observed_suspension_ms s (cy_now_ms c') (Some w') = Some d \<and> d \<le> cf_max_process_suspension_ms cfg"
    using assms(2,4) by (simp add: observed_suspension_ms_def assms(5,6) small_suspension_def consistent_config_def)
  then show thesis by (rule_tac good_step[OF assms(1-3) low]) (rule that, simp_all)
qed

lemma three_good_cycles:
  assumes "service_run cfg identity h s" "consistent_config cfg"
    "good_cycle cfg c1 w1" "good_cycle cfg c2 w2" "good_cycle cfg c3 w3"
    "anchor_not_ahead s (cy_now_ms c1)"
    "small_suspension cfg c1 w1 c2 w2" "small_suspension cfg c2 w2 c3 w3"
  obtains t1 s1 t2 s2 t3 s3 where
    "evaluate_cycle cfg identity c1 s = (Inr t1, s1)" "evaluate_cycle cfg identity c2 s1 = (Inr t2, s2)"
    "evaluate_cycle cfg identity c3 s2 = (Inr t3, s3)" "hs_health_state t3 = TRUSTED"
    "service_run cfg identity (h @ [t1, t2]) s2" "wall_clock_now s3 = Some w3"
    "wall_clock_at_monotonic s3 (cy_now_ms c3) \<noteq> None"
proof -
  obtain t1 s1 where c1: "evaluate_cycle cfg identity c1 s = (Inr t1, s1)" "service_inv identity (h @ [t1]) s1"
      "sv_previous_monotonic_ms s1 = Some (cy_now_ms c1)" "sv_previous_wall_clock_unix_ms s1 = Some w1"
      "anchor_not_ahead s1 (cy_now_ms c1)"
      "sv_health_state s1 = hs_health_state t1" "hs_health_state t1 \<in> {SYNCHRONIZING, TRUSTED, UNTRUSTED}"
    using good_step[OF run_inv[OF assms(1)] assms(2,3) assms(6)] by metis
  obtain t2 s2 where c2: "evaluate_cycle cfg identity c2 s1 = (Inr t2, s2)" "service_inv identity ((h @ [t1]) @ [t2]) s2"
      "sv_previous_monotonic_ms s2 = Some (cy_now_ms c2)" "sv_previous_wall_clock_unix_ms s2 = Some w2"
      "anchor_not_ahead s2 (cy_now_ms c2)"
      "sv_health_state s2 = hs_health_state t2"
      "hs_health_state t2 = (if sv_health_state s1 \<in> {SYNCHRONIZING, TRUSTED} then TRUSTED else SYNCHRONIZING)"
    using next_good_step[OF c1(2) assms(2,4,7) c1(3-5)] by metis
  obtain t3 s3 where c3: "evaluate_cycle cfg identity c3 s2 = (Inr t3, s3)"
      "service_inv identity (((h @ [t1]) @ [t2]) @ [t3]) s3"
      "sv_previous_wall_clock_unix_ms s3 = Some w3" "sv_health_state s3 = hs_health_state t3"
      "hs_health_state t3 = (if sv_health_state s2 \<in> {SYNCHRONIZING, TRUSTED} then TRUSTED else SYNCHRONIZING)"
    using next_good_step[OF c2(2) assms(2,5,8) c2(3-5)] by metis
  have trusted: "hs_health_state t3 = TRUSTED" using c3(5) c2(6,7) by (simp split: if_splits)
  have wall: "sv_snapshot s3 = Some t3 \<and> hs_wall_clock_observation t3 = Some w3"
    using c2(2) c3(1) by (cases rule: cycle_in_run) (use c3(3) in simp_all)
  have "sv_cycle_previous_monotonic_ms s3 = Some (cy_now_ms c2) \<and> sv_cycle_suspension_ms s3 \<noteq> None \<and>
      hs_issue_monotonic_value t3 = cy_now_ms c3"
    using c2(2) c3(1)
  proof (cases rule: cycle_in_run)
    case (exposed g a ks n w sus ok st r cg na t')
    then have "w = Some w3" using c3(3) by simp
    then show ?thesis using exposed c2(3,4) by (simp add: observed_suspension_ms_def)
  qed simp
  then have at: "wall_clock_at_monotonic s3 (cy_now_ms c3) \<noteq> None"
    using wall trusted c3(4) assms(8)
    by (auto simp: wall_clock_at_monotonic_def wall_clock_now_def small_suspension_def)
  show thesis
    by (rule that[OF c1(1) c2(1) c3(1) trusted _ _ at])
      (use assms(1) c1(1) c2(1) wall trusted c3(4) in
        \<open>auto simp: wall_clock_now_def intro: service_run.cycled[of cfg identity "h @ [t1]", simplified] service_run.cycled\<close>)
qed

text \<open>
  C25: trust is regained: from whatever a running service has been through, three consecutive cycles
  with an accepting port, one usable source that gives the wall clock, a monotonic clock that is not
  behind the anchor and small suspensions end in a trusted snapshot, and the wall clock is exposed.
\<close>

theorem trust_is_regained:
  assumes "service_run cfg identity h s" "consistent_config cfg"
    "good_cycle cfg c1 w1" "good_cycle cfg c2 w2" "good_cycle cfg c3 w3"
    "anchor_not_ahead s (cy_now_ms c1)"
    "small_suspension cfg c1 w1 c2 w2" "small_suspension cfg c2 w2 c3 w3"
  shows "\<exists>t1 s1 t2 s2 t3 s3. evaluate_cycle cfg identity c1 s = (Inr t1, s1) \<and>
    evaluate_cycle cfg identity c2 s1 = (Inr t2, s2) \<and> evaluate_cycle cfg identity c3 s2 = (Inr t3, s3) \<and>
    hs_health_state t3 = TRUSTED \<and> wall_clock_now s3 = Some w3"
  by (rule three_good_cycles[OF assms]) blast+

section \<open>A process\<close>

definition demo_config :: time_config where
  "demo_config =
    \<lparr>cf_max_source_precision_ms = 1, cf_max_transport_and_queue_uncertainty_ms = 1,
     cf_max_conservative_freshness_age_ms = 10, cf_max_future_timestamp_tolerance_ms = 0,
     cf_max_process_suspension_ms = 5, cf_max_source_disagreement_ms = 0,
     cf_min_independent_reference_count = 1\<rparr>"

definition demo_identity :: runtime_identity where
  "demo_identity = \<lparr>ri_cell_id = ''cell'', ri_process_nonce = ''n''\<rparr>"

definition demo_observation :: "pystr \<Rightarrow> bool \<Rightarrow> int \<Rightarrow> reference_observation" where
  "demo_observation grp up wall =
    \<lparr>ro_reachable = up, ro_healthy = up, ro_common_mode_group = Some grp, ro_wall_clock_unix_ms = Some wall\<rparr>"

definition demo_cycle :: "int \<Rightarrow> cycle" where
  "demo_cycle now = \<lparr>cy_now_ms = now, cy_observations = [demo_observation ''os'' True (1000 + now)],
    cy_port = (\<lambda>_. True)\<rparr>"

lemma demo_good: "good_cycle demo_config (demo_cycle now) (1000 + now)"
  by (simp add: good_cycle_def demo_cycle_def demo_observation_def usable_def read_reference_sources_def
      demo_config_def independent_reference_count_def)

lemma demo_consistent: "consistent_config demo_config"
  by (simp add: consistent_config_def demo_config_def)

definition demo_started :: time_service where
  "demo_started = snd (start_service demo_identity 0 (\<lambda>_. True) new_service)"

lemma demo_started_run: "service_run demo_config demo_identity [] demo_started"
  unfolding demo_started_def by (rule service_run.started) (rule prod.collapse[symmetric])

lemma demo_started_anchor: "anchor_not_ahead demo_started (cy_now_ms (demo_cycle 1))"
  by (auto simp: anchor_not_ahead_def demo_started_def start_service_def new_service_def append_evidence_def build_anchor_def demo_cycle_def)

lemma demo_small: "small_suspension demo_config (demo_cycle n) (1000 + n) (demo_cycle (n + 1)) (1000 + (n + 1))"
  by (simp add: small_suspension_def demo_cycle_def demo_config_def)

theorem trust_is_regained_witness:
  "\<exists>t1 s1 t2 s2 t3 s3. evaluate_cycle demo_config demo_identity (demo_cycle 1) demo_started = (Inr t1, s1) \<and>
    evaluate_cycle demo_config demo_identity (demo_cycle (1 + 1)) s1 = (Inr t2, s2) \<and>
    evaluate_cycle demo_config demo_identity (demo_cycle (1 + 1 + 1)) s2 = (Inr t3, s3) \<and>
    hs_health_state t3 = TRUSTED \<and> wall_clock_now s3 = Some (1000 + (1 + 1 + 1))"
  by (rule trust_is_regained[OF demo_started_run demo_consistent demo_good demo_good demo_good
        demo_started_anchor demo_small demo_small])

lemma demo_trusted:
  obtains h s t s' where "service_run demo_config demo_identity h s"
    "evaluate_cycle demo_config demo_identity (demo_cycle (1 + 1 + 1)) s = (Inr t, s')"
    "hs_health_state t = TRUSTED" "h \<noteq> []" "wall_clock_at_monotonic s' (1 + 1 + 1) \<noteq> None"
  by (rule three_good_cycles[OF demo_started_run demo_consistent demo_good[of 1] demo_good demo_good
        demo_started_anchor demo_small demo_small]) (auto simp: demo_cycle_def)

theorem trusted_is_earned_witness:
  "\<exists>s t s'. evaluate_cycle demo_config demo_identity (demo_cycle (1 + 1 + 1)) s = (Inr t, s') \<and>
    (\<exists>d. hs_suspension_ms t = Some d \<and> d \<le> 5) \<and> SnapshotRow t \<in> set (sv_evidence s')"
proof -
  obtain h s t s' where d: "service_run demo_config demo_identity h s"
    "evaluate_cycle demo_config demo_identity (demo_cycle (1 + 1 + 1)) s = (Inr t, s')"
    "hs_health_state t = TRUSTED" "h \<noteq> []"
    by (rule demo_trusted)
  have five: "cf_max_process_suspension_ms demo_config = 5" by (simp add: demo_config_def)
  obtain x where x: "hs_suspension_ms t = Some x" "x \<le> cf_max_process_suspension_ms demo_config"
    "SnapshotRow t \<in> set (sv_evidence s')"
    using trusted_is_earned[OF d(1-3)] by blast
  show ?thesis
    by (rule exI[of _ s], rule exI[of _ t], rule exI[of _ s'], intro conjI exI[of _ x])
      (fact d(2), fact x(1), fact x(2)[unfolded five], fact x(3))
qed

theorem generations_are_never_reused_witness:
  "\<exists>(h :: health_snapshot list) s t s'. h \<noteq> [] \<and> evaluate_cycle demo_config demo_identity (demo_cycle (1 + 1 + 1)) s = (Inr t, s') \<and>
    list_all (\<lambda>u. hs_generation u \<le> hs_generation t) h"
proof -
  obtain h s t s' where d: "service_run demo_config demo_identity h s"
    "evaluate_cycle demo_config demo_identity (demo_cycle (1 + 1 + 1)) s = (Inr t, s')"
    "hs_health_state t = TRUSTED" "h \<noteq> []"
    by (rule demo_trusted)
  have older: "list_all (\<lambda>u :: health_snapshot. hs_generation u \<le> hs_generation t) h"
    using generations_are_never_reused[OF d(1,2)] ..
  show ?thesis
    by (rule exI[of _ h], rule exI[of _ s], rule exI[of _ t], rule exI[of _ s'], intro conjI)
      (fact d(4), fact d(2), fact older)
qed

lemma demo_fails:
  "\<exists>e s'. evaluate_cycle demo_config demo_identity ((demo_cycle 1)\<lparr>cy_port := \<lambda>_. False\<rparr>) demo_started = (Inl e, s')"
  by (simp add: evaluate_cycle_def demo_started_def start_service_def new_service_def append_evidence_def
      demo_cycle_def read_reference_sources_def decide_transition_def propose_transition_def Let_def
      health_transition_allowed_def allowed_transitions_def)

theorem failed_cycle_moves_nothing_witness:
  "\<exists>e s'. evaluate_cycle demo_config demo_identity ((demo_cycle 1)\<lparr>cy_port := \<lambda>_. False\<rparr>) demo_started = (Inl e, s') \<and>
    current_snapshot s' = current_snapshot demo_started"
proof -
  obtain e s' where f: "evaluate_cycle demo_config demo_identity ((demo_cycle 1)\<lparr>cy_port := \<lambda>_. False\<rparr>) demo_started = (Inl e, s')"
    using demo_fails by blast
  show ?thesis
    by (rule exI[of _ e], rule exI[of _ s'], rule conjI, fact f)
      (rule conjunct1[OF conjunct2[OF failed_cycle_moves_nothing[OF demo_started_run f]]])
qed

theorem mapped_instant_is_never_late_witness:
  "\<exists>s t s' p q w v. evaluate_cycle demo_config demo_identity (demo_cycle (1 + 1 + 1)) s = (Inr t, s') \<and>
    wall_clock_at_monotonic s' (1 + 1 + 1) = Some v \<and> v = min (w - 0) (q + (3 - p))"
proof -
  obtain h s t s' where d: "service_run demo_config demo_identity h s"
    "evaluate_cycle demo_config demo_identity (demo_cycle (1 + 1 + 1)) s = (Inr t, s')"
    "hs_health_state t = TRUSTED" "wall_clock_at_monotonic s' (1 + 1 + 1) \<noteq> None"
    by (rule demo_trusted)
  obtain v where v: "wall_clock_at_monotonic s' (1 + 1 + 1) = Some v" using d(4) by blast
  obtain p q w where x: "v = min (w - (cy_now_ms (demo_cycle (1 + 1 + 1)) - (1 + 1 + 1))) (q + (1 + 1 + 1 - p))"
    using mapped_instant_is_never_late[OF d(1,2) v] by blast
  have now: "cy_now_ms (demo_cycle (1 + 1 + 1)) = 1 + 1 + 1" by (simp add: demo_cycle_def)
  show ?thesis
    by (rule exI[of _ s], rule exI[of _ t], rule exI[of _ s'], rule exI[of _ p], rule exI[of _ q],
        rule exI[of _ w], rule exI[of _ v], intro conjI, fact d(2), fact v) (use x now in simp)
qed

section \<open>Where the code departs from its comments\<close>

text \<open>
  The count of independent references is taken over every configured source, dead ones included:
  with two references required, one usable source and one dead source of another group suffice,
  while two usable sources never do, because their disagreement is not measured.
\<close>

definition two_required :: time_config where
  "two_required = demo_config\<lparr>cf_min_independent_reference_count := 2\<rparr>"

lemma dead_source_counts_as_reference:
  "(case read_reference_sources [demo_observation ''os'' True 0, demo_observation ''ntp'' False 0] of
      (ks, n, w) \<Rightarrow> required_check two_required True ks n)"
  "\<not> (case read_reference_sources [demo_observation ''os'' True 0, demo_observation ''ntp'' True 0] of
      (ks, n, w) \<Rightarrow> required_check two_required True ks n)"
  by (simp_all add: read_reference_sources_def demo_observation_def usable_def required_check_iff
      two_required_def demo_config_def independent_reference_count_def)

text \<open>
  When the announcement is refused, the trusted snapshot is durable but never exposed, and the
  next trusted snapshot carries its generation again.
\<close>

lemma durable_trusted_row_without_exposure:
  assumes "service_run cfg identity h s" "evaluate_cycle cfg identity c s = (Inl e, s')"
    "SnapshotRow t \<in> set (sv_evidence s')"
  shows "service_run cfg identity h s' \<and> sv_generation s' = sv_generation s \<and> sv_snapshot s' = sv_snapshot s"
  using run_inv[OF assms(1)] assms(2) service_run.failed[OF assms(1,2)]
  by (cases rule: cycle_in_run) (simp_all add: same_core_def)

end
