(* ===== verification/Strategy_Dsl.thy ===== *)
theory Strategy_Dsl
  imports Tos_Prelude
begin

text \<open>
  The strategy language: the typed authoring algebra with its evaluator
  (\<^verbatim>\<open>tos/dsl/vocabulary.py\<close>), the open candidate trees (\<^verbatim>\<open>tos/dsl/candidate.py\<close>), the lowering of
  the former into the latter (\<^verbatim>\<open>tos/dsl/lowering.py\<close>), the static escape checker
  (\<^verbatim>\<open>tos/dsl/admissibility.py\<close>) and the bounded evaluation (\<^verbatim>\<open>tos/dsl/bounds.py\<close>).

  A class whose validator rejects some field values is a record with the predicate of what the
  validator accepts; an instance built past the validator (\<^verbatim>\<open>model_construct\<close>) is a record that does
  not satisfy it.  A finite float is the rational it denotes: Python compares \<^verbatim>\<open>int\<close> and \<^verbatim>\<open>float\<close>
  exactly, and the language only compares.
\<close>

section \<open>The authoring vocabulary\<close>

definition KIND_CONST :: pystr where "KIND_CONST = ''const''"
definition KIND_CONTEXT_REF :: pystr where "KIND_CONTEXT_REF = ''context_ref''"
definition KIND_COMPARE :: pystr where "KIND_COMPARE = ''compare''"
definition KIND_RULE :: pystr where "KIND_RULE = ''rule''"
definition KIND_POLICY :: pystr where "KIND_POLICY = ''policy''"
definition KIND_TARGET :: pystr where "KIND_TARGET = ''target''"
definition KIND_PROPOSE_ACTION :: pystr where "KIND_PROPOSE_ACTION = ''propose_action''"
definition KIND_PROPOSE_FLAT :: pystr where "KIND_PROPOSE_FLAT = ''propose_flat''"
definition KIND_PROPOSE_VECTOR :: pystr where "KIND_PROPOSE_VECTOR = ''propose_vector''"
definition KIND_NO_ACTION :: pystr where "KIND_NO_ACTION = ''no_action''"

lemmas kind_defs =
  KIND_CONST_def KIND_CONTEXT_REF_def KIND_COMPARE_def KIND_RULE_def KIND_POLICY_def KIND_TARGET_def
  KIND_PROPOSE_ACTION_def KIND_PROPOSE_FLAT_def KIND_PROPOSE_VECTOR_def KIND_NO_ACTION_def

definition admissible_kinds :: "pystr list" where
  "admissible_kinds =
    [KIND_CONST, KIND_CONTEXT_REF, KIND_COMPARE, KIND_RULE, KIND_POLICY, KIND_TARGET,
     KIND_PROPOSE_ACTION, KIND_PROPOSE_FLAT, KIND_PROPOSE_VECTOR, KIND_NO_ACTION]"

definition admissible_context_sources :: "pystr list" where
  "admissible_context_sources = [''capsule'', ''config'']"

datatype pyfloat = FNaN | FInf bool | FFin rat

datatype scalar = SBool bool | SInt int | SFloat pyfloat | SStr pystr

datatype compare_op = EQ | NE | LT | LE | GT | GE

datatype target_kind = TARGET_ACTION | TARGET_FLAT

datatype decision_kind = NO_ACTION | ACTION | FLAT | VECTOR

datatype vector_interdependence = ATOMIC | INDEPENDENT

record operand =
  op_const :: "scalar option"
  op_ref :: "pystr list option"

record compare_node =
  cm_left :: operand
  cm_op :: compare_op
  cm_right :: operand

record target_spec =
  ts_kind :: target_kind
  ts_account :: "pystr option"
  ts_instrument :: "pystr option"
  ts_direction :: "pystr option"
  ts_position_effect :: "pystr option"
  ts_quantity_basis :: "pystr option"
  ts_edge_or_confidence :: "pystr option"
  ts_timing_and_execution_constraints :: "pystr list"
  ts_rationale :: "pystr option"

record decision =
  dn_kind :: decision_kind
  dn_rationale :: pystr
  dn_target :: "target_spec option"
  dn_vector :: "target_spec list"
  dn_interdependence :: "vector_interdependence option"

record rule =
  ru_all_of :: "compare_node list"
  ru_decision :: decision

record decision_policy =
  po_rules :: "rule list"
  po_default :: decision

text \<open>What the validators accept.\<close>

definition operand_ok :: "operand \<Rightarrow> bool" where
  "operand_ok p =
    (let has_const = (op_const p \<noteq> None); has_ref = (op_ref p \<noteq> None)
     in if has_const = has_ref then False
        else if op_ref p = Some [] then False
        else case op_ref p of
          Some (source # _) \<Rightarrow> source \<in> set admissible_context_sources
        | _ \<Rightarrow> True)"

definition compare_ok :: "compare_node \<Rightarrow> bool" where
  "compare_ok c = (operand_ok (cm_left c) \<and> operand_ok (cm_right c))"

definition decision_ok :: "decision \<Rightarrow> bool" where
  "decision_ok d =
    (if dn_rationale d = [] then False
     else if dn_kind d \<in> {ACTION, FLAT} then
       (case dn_target d of
          None \<Rightarrow> False
        | Some t \<Rightarrow>
            if dn_vector d \<noteq> [] then False
            else ts_kind t = (if dn_kind d = ACTION then TARGET_ACTION else TARGET_FLAT))
     else if dn_kind d = VECTOR then dn_vector d \<noteq> [] \<and> dn_target d = None
     else dn_target d = None \<and> dn_vector d = [])"

definition rule_ok :: "rule \<Rightarrow> bool" where
  "rule_ok r = (ru_all_of r \<noteq> [] \<and> list_all compare_ok (ru_all_of r) \<and> decision_ok (ru_decision r))"

definition policy_ok :: "decision_policy \<Rightarrow> bool" where
  "policy_ok p = (list_all rule_ok (po_rules p) \<and> decision_ok (po_default p))"

section \<open>Evaluation\<close>

text \<open>
  The environment is a tree of dictionaries whose leaves are scalars or values no comparison can
  use (\<open>COther\<close>: lists and \<^verbatim>\<open>None\<close>).  \<^verbatim>\<open>UNKNOWN\<close> is \<open>None\<close>.
\<close>

datatype ctx = CScalar scalar | CDict "(pystr \<times> ctx) list" | COther

fun walk :: "ctx \<Rightarrow> pystr list \<Rightarrow> ctx option" where
  "walk v [] = Some v"
| "walk (CDict d) (part # parts) = (case map_of d part of None \<Rightarrow> None | Some v \<Rightarrow> walk v parts)"
| "walk _ (part # parts) = None"

definition resolve_operand :: "operand \<Rightarrow> ctx \<Rightarrow> scalar option" where
  "resolve_operand p env =
    (case op_const p of
      Some c \<Rightarrow> Some c
    | None \<Rightarrow>
        (case walk env (case op_ref p of None \<Rightarrow> [] | Some path \<Rightarrow> path) of
          Some (CScalar s) \<Rightarrow> Some s
        | _ \<Rightarrow> None))"

text \<open>Numeric comparison of Python numbers; a NaN compares false with everything.\<close>

fun number_of :: "scalar \<Rightarrow> pyfloat option" where
  "number_of (SInt i) = Some (FFin (of_int i))"
| "number_of (SFloat f) = Some f"
| "number_of _ = None"

fun flt :: "pyfloat \<Rightarrow> pyfloat \<Rightarrow> bool" where
  "flt FNaN _ = False"
| "flt _ FNaN = False"
| "flt (FInf a) (FInf b) = (\<not> a \<and> b)"
| "flt (FInf a) (FFin _) = (\<not> a)"
| "flt (FFin _) (FInf b) = b"
| "flt (FFin x) (FFin y) = (x < y)"

fun feq :: "pyfloat \<Rightarrow> pyfloat \<Rightarrow> bool" where
  "feq (FInf a) (FInf b) = (a = b)"
| "feq (FFin x) (FFin y) = (x = y)"
| "feq _ _ = False"

definition fle :: "pyfloat \<Rightarrow> pyfloat \<Rightarrow> bool" where
  "fle a b = (flt a b \<or> feq a b)"

text \<open>\<^verbatim>\<open>type(left) is type(right) and left == right\<close>.\<close>

fun same_type_eq :: "scalar \<Rightarrow> scalar \<Rightarrow> bool" where
  "same_type_eq (SBool a) (SBool b) = (a = b)"
| "same_type_eq (SInt a) (SInt b) = (a = b)"
| "same_type_eq (SFloat a) (SFloat b) = feq a b"
| "same_type_eq (SStr a) (SStr b) = (a = b)"
| "same_type_eq _ _ = False"

definition eval_compare :: "compare_node \<Rightarrow> ctx \<Rightarrow> bool" where
  "eval_compare c env =
    (case (resolve_operand (cm_left c) env, resolve_operand (cm_right c) env) of
      (Some left, Some right) \<Rightarrow>
        if cm_op c = EQ then same_type_eq left right
        else if cm_op c = NE then \<not> same_type_eq left right
        else (case (number_of left, number_of right) of
            (Some x, Some y) \<Rightarrow>
              if cm_op c = LT then flt x y
              else if cm_op c = LE then fle x y
              else if cm_op c = GT then flt y x
              else fle y x
          | _ \<Rightarrow> False)
    | _ \<Rightarrow> False)"

definition rule_fires :: "rule \<Rightarrow> ctx \<Rightarrow> bool" where
  "rule_fires r env = list_all (\<lambda>c. eval_compare c env) (ru_all_of r)"

fun evaluate_rules :: "rule list \<Rightarrow> decision \<Rightarrow> ctx \<Rightarrow> decision" where
  "evaluate_rules [] dflt env = dflt"
| "evaluate_rules (r # rs) dflt env =
    (if rule_fires r env then ru_decision r else evaluate_rules rs dflt env)"

definition evaluate_policy :: "decision_policy \<Rightarrow> ctx \<Rightarrow> decision" where
  "evaluate_policy p env = evaluate_rules (po_rules p) (po_default p) env"

section \<open>Candidate trees\<close>

definition AMBIENT_SYMBOLS :: "pystr list" where
  "AMBIENT_SYMBOLS =
    [''clock'', ''time'', ''now'', ''wall_time'', ''random'', ''rand'', ''urandom'', ''socket'',
     ''network'', ''http'', ''url'', ''filesystem'', ''file'', ''open'', ''path'', ''os'', ''environ'',
     ''getenv'', ''env'', ''globals'', ''locals'', ''global'', ''builtin'', ''builtins'',
     ''__builtins__'', ''import'', ''importlib'', ''__import__'', ''eval'', ''exec'', ''compile'',
     ''getattr'', ''setattr'', ''reflection'']"

definition WILDCARD_TOKENS :: "pystr list" where
  "WILDCARD_TOKENS = [''*'', ''latest'', ''LATEST'', ''any'', ''ANY'', ''all'', ''ALL'', ''*/*'', ''?'']"

datatype candidate_node =
  Node (nd_kind: pystr) (nd_source: "pystr option") (nd_symbol: "pystr option")
    (nd_scope: "pystr option") (nd_children: "candidate_node list")

abbreviation plain :: "pystr \<Rightarrow> candidate_node list \<Rightarrow> candidate_node" where
  "plain kind children \<equiv> Node kind None None None children"

text \<open>
  The explicit-stack loop of \<^verbatim>\<open>iter_nodes\<close>.  The stack is kept with its top first, so
  \<^verbatim>\<open>stack.extend(reversed(children))\<close> puts the children in front.  Nothing in the definition says that
  the loop ends.
\<close>

partial_function (option) iter_loop ::
    "candidate_node list \<Rightarrow> candidate_node list \<Rightarrow> candidate_node list option" where
  "iter_loop out stack =
    (case stack of
      [] \<Rightarrow> Some out
    | node # rest \<Rightarrow> iter_loop (out @ [node]) (nd_children node @ rest))"

definition iter_nodes :: "candidate_node list \<Rightarrow> candidate_node list option" where
  "iter_nodes nodes = iter_loop [] nodes"

section \<open>Static admissibility\<close>

datatype admissibility_verdict = ADMISSIBLE | INADMISSIBLE

record admissibility_analysis =
  an_verdict :: admissibility_verdict
  an_reasons :: "pystr list"

text \<open>\<^verbatim>\<open>str.lower\<close>, as far as it can reach the ASCII words of \<open>AMBIENT_SYMBOLS\<close>.\<close>

definition lower_char :: "char \<Rightarrow> char" where
  "lower_char c =
    (let n = (of_char c :: nat) in if 65 \<le> n \<and> n \<le> 90 then char_of (n + 32) else c)"

definition lower_str :: "pystr \<Rightarrow> pystr" where
  "lower_str s = map lower_char s"

definition node_findings :: "candidate_node \<Rightarrow> pystr list" where
  "node_findings n =
    (if nd_kind n \<notin> set admissible_kinds then [''non_vocabulary_kind:'' @ nd_kind n] else []) @
    (case nd_source n of
       Some s \<Rightarrow> if s \<notin> set admissible_context_sources then [''ambient_source:'' @ s] else []
     | None \<Rightarrow> []) @
    (if nd_kind n = KIND_CONTEXT_REF \<and> nd_source n = None
     then [''context_ref_without_declared_source''] else []) @
    (case nd_symbol n of
       Some s \<Rightarrow>
         if s \<in> set AMBIENT_SYMBOLS \<or> lower_str s \<in> set AMBIENT_SYMBOLS then [''ambient_symbol:'' @ s] else []
     | None \<Rightarrow> []) @
    (case nd_scope n of
       Some s \<Rightarrow> if s \<in> set WILDCARD_TOKENS then [''wildcard_scope:'' @ s] else []
     | None \<Rightarrow> [])"

definition analyze :: "candidate_node list \<Rightarrow> admissibility_analysis option" where
  "analyze nodes =
    (case iter_nodes nodes of
      None \<Rightarrow> None
    | Some visited \<Rightarrow>
        let reasons = (if nodes = [] then [''empty_candidate''] else []) @ concat (map node_findings visited)
        in Some (if reasons \<noteq> [] then \<lparr>an_verdict = INADMISSIBLE, an_reasons = reasons\<rparr>
                 else \<lparr>an_verdict = ADMISSIBLE, an_reasons = []\<rparr>))"

definition is_admissible :: "candidate_node list \<Rightarrow> bool option" where
  "is_admissible nodes = map_option (\<lambda>a. an_verdict a = ADMISSIBLE) (analyze nodes)"

section \<open>Lowering\<close>

text \<open>
  \<open>Inl\<close> is the \<^verbatim>\<open>IndexError\<close> of \<^verbatim>\<open>operand.ref[0]\<close> on an empty path; the constructor of an operand excludes
  it.
\<close>

definition lower_operand :: "operand \<Rightarrow> (pystr, candidate_node) result" where
  "lower_operand p =
    (case op_ref p of
      Some [] \<Rightarrow> Inl ''IndexError''
    | Some (source # _) \<Rightarrow> Inr (Node KIND_CONTEXT_REF (Some source) None None [])
    | None \<Rightarrow> Inr (plain KIND_CONST []))"

definition lower_compare :: "compare_node \<Rightarrow> (pystr, candidate_node) result" where
  "lower_compare c =
    (case lower_operand (cm_left c) of
      Inl e \<Rightarrow> Inl e
    | Inr l \<Rightarrow> (case lower_operand (cm_right c) of
        Inl e \<Rightarrow> Inl e
      | Inr r \<Rightarrow> Inr (plain KIND_COMPARE [l, r])))"

definition lower_target :: "target_spec \<Rightarrow> candidate_node" where
  "lower_target t = plain KIND_TARGET []"

definition lower_decision :: "decision \<Rightarrow> candidate_node" where
  "lower_decision d =
    (case dn_kind d of
      NO_ACTION \<Rightarrow> plain KIND_NO_ACTION []
    | ACTION \<Rightarrow>
        (case dn_target d of
          None \<Rightarrow> plain KIND_NO_ACTION []
        | Some t \<Rightarrow> plain KIND_PROPOSE_ACTION [lower_target t])
    | FLAT \<Rightarrow>
        (case dn_target d of
          None \<Rightarrow> plain KIND_NO_ACTION []
        | Some t \<Rightarrow> plain KIND_PROPOSE_FLAT [lower_target t])
    | VECTOR \<Rightarrow> plain KIND_PROPOSE_VECTOR (map lower_target (dn_vector d)))"

text \<open>A generator expression over a step that may raise stops at the first error.\<close>

fun traverse :: "('a \<Rightarrow> ('e, 'b) result) \<Rightarrow> 'a list \<Rightarrow> ('e, 'b list) result" where
  "traverse f [] = Inr []"
| "traverse f (x # xs) =
    (case f x of
      Inl e \<Rightarrow> Inl e
    | Inr y \<Rightarrow> (case traverse f xs of Inl e \<Rightarrow> Inl e | Inr ys \<Rightarrow> Inr (y # ys)))"

definition lower_rule :: "rule \<Rightarrow> (pystr, candidate_node) result" where
  "lower_rule r =
    (case traverse lower_compare (ru_all_of r) of
      Inl e \<Rightarrow> Inl e
    | Inr cs \<Rightarrow> Inr (plain KIND_RULE (cs @ [lower_decision (ru_decision r)])))"

definition lower_policy :: "decision_policy \<Rightarrow> (pystr, candidate_node) result" where
  "lower_policy p =
    (case traverse lower_rule (po_rules p) of
      Inl e \<Rightarrow> Inl e
    | Inr rs \<Rightarrow> Inr (plain KIND_POLICY (rs @ [lower_decision (po_default p)])))"

definition lower_strategy :: "decision_policy option \<Rightarrow> (pystr, candidate_node list) result" where
  "lower_strategy policy =
    (case policy of
      None \<Rightarrow> Inr [plain KIND_NO_ACTION []]
    | Some p \<Rightarrow> (case lower_policy p of Inl e \<Rightarrow> Inl e | Inr n \<Rightarrow> Inr [n]))"

section \<open>Bounded evaluation\<close>

datatype bound_state = EVALUATING | COMPLETED | BOUND_EXHAUSTED

definition resolve_bound :: "int \<Rightarrow> int \<Rightarrow> (pystr, bound_state) result" where
  "resolve_bound work_steps budget_steps =
    (if work_steps < 0 \<or> budget_steps < 0 then Inl ''ArtifactIntegrityError''
     else Inr (if work_steps \<le> budget_steps then COMPLETED else BOUND_EXHAUSTED))"

definition degrades_to_no_action :: "bound_state \<Rightarrow> bool" where
  "degrades_to_no_action s = (s = BOUND_EXHAUSTED)"

definition select_outcome :: "bound_state \<Rightarrow> 'o \<Rightarrow> 'o \<Rightarrow> (pystr, 'o) result" where
  "select_outcome s completed_outcome on_exhaustion =
    (if s = COMPLETED then Inr completed_outcome
     else if s = BOUND_EXHAUSTED then Inr on_exhaustion
     else Inl ''ArtifactIntegrityError'')"

section \<open>The walk over a candidate\<close>

fun preorder :: "candidate_node \<Rightarrow> candidate_node list" where
  "preorder (Node k src symb sc children) = Node k src symb sc children # concat (map preorder children)"

lemma preorder_eq: "preorder n = n # concat (map preorder (nd_children n))"
  by (cases n) simp

lemma length_preorder: "length (concat (map preorder (nd_children n))) < length (preorder n)"
  by (cases n) simp

lemma iter_loop_preorder: "iter_loop out stack = Some (out @ concat (map preorder stack))"
proof (induction "length (concat (map preorder stack))" arbitrary: out stack rule: less_induct)
  case less
  show ?case
  proof (cases stack)
    case Nil
    then show ?thesis by (simp add: iter_loop.simps)
  next
    case (Cons node rest)
    have smaller: "length (concat (map preorder (nd_children node @ rest))) <
        length (concat (map preorder stack))"
      using length_preorder[of node] Cons by (simp del: length_concat)
    have "iter_loop out stack = iter_loop (out @ [node]) (nd_children node @ rest)"
      unfolding Cons by (subst iter_loop.simps) simp
    also have "\<dots> = Some ((out @ [node]) @ concat (map preorder (nd_children node @ rest)))"
      by (rule less[OF smaller])
    finally show ?thesis using preorder_eq[of node] Cons by simp
  qed
qed

lemma iter_nodes_eq: "iter_nodes nodes = Some (concat (map preorder nodes))"
  by (simp add: iter_nodes_def iter_loop_preorder)

lemma analyze_eq:
  "analyze nodes =
    (let reasons = (if nodes = [] then [''empty_candidate''] else []) @
           concat (map node_findings (concat (map preorder nodes)))
     in Some (if reasons \<noteq> [] then \<lparr>an_verdict = INADMISSIBLE, an_reasons = reasons\<rparr>
              else \<lparr>an_verdict = ADMISSIBLE, an_reasons = []\<rparr>))"
  by (simp add: analyze_def iter_nodes_eq)

lemma is_admissible_eq:
  "is_admissible nodes =
    Some (nodes \<noteq> [] \<and> (\<forall>n \<in> set (concat (map preorder nodes)). node_findings n = []))"
  by (auto simp: is_admissible_def analyze_eq Let_def)

section \<open>What the checker sees of a strategy\<close>

definition compare_operands :: "compare_node \<Rightarrow> operand list" where
  "compare_operands c = [cm_left c, cm_right c]"

definition policy_operands :: "decision_policy \<Rightarrow> operand list" where
  "policy_operands p = concat (map compare_operands (concat (map ru_all_of (po_rules p))))"

definition source_admissible :: "operand \<Rightarrow> bool" where
  "source_admissible p =
    (case op_ref p of Some (source # _) \<Rightarrow> source \<in> set admissible_context_sources | _ \<Rightarrow> True)"

text \<open>Nodes below and including one node carry no finding.\<close>

definition clean :: "candidate_node \<Rightarrow> bool" where
  "clean n = (\<forall>m \<in> set (preorder n). node_findings m = [])"

lemma clean_plain [simp]:
  "kind \<in> set admissible_kinds \<Longrightarrow> kind \<noteq> KIND_CONTEXT_REF \<Longrightarrow>
    clean (plain kind children) = list_all clean children"
  by (auto simp: clean_def node_findings_def list_all_iff)

lemma kinds_admissible [simp]:
  "KIND_CONST \<in> set admissible_kinds" "KIND_COMPARE \<in> set admissible_kinds"
  "KIND_RULE \<in> set admissible_kinds" "KIND_POLICY \<in> set admissible_kinds"
  "KIND_TARGET \<in> set admissible_kinds" "KIND_NO_ACTION \<in> set admissible_kinds"
  "KIND_PROPOSE_ACTION \<in> set admissible_kinds" "KIND_PROPOSE_FLAT \<in> set admissible_kinds"
  "KIND_PROPOSE_VECTOR \<in> set admissible_kinds" "KIND_CONTEXT_REF \<in> set admissible_kinds"
  by (simp_all add: admissible_kinds_def)

lemma kinds_not_ref [simp]:
  "KIND_CONST \<noteq> KIND_CONTEXT_REF" "KIND_COMPARE \<noteq> KIND_CONTEXT_REF" "KIND_RULE \<noteq> KIND_CONTEXT_REF"
  "KIND_POLICY \<noteq> KIND_CONTEXT_REF" "KIND_TARGET \<noteq> KIND_CONTEXT_REF" "KIND_NO_ACTION \<noteq> KIND_CONTEXT_REF"
  "KIND_PROPOSE_ACTION \<noteq> KIND_CONTEXT_REF" "KIND_PROPOSE_FLAT \<noteq> KIND_CONTEXT_REF"
  "KIND_PROPOSE_VECTOR \<noteq> KIND_CONTEXT_REF"
  by (simp_all add: kind_defs)

lemma clean_ref [simp]:
  "clean (Node KIND_CONTEXT_REF (Some s) None None []) = (s \<in> set admissible_context_sources)"
  by (simp add: clean_def node_findings_def)

lemma lower_operand_clean: "lower_operand p = Inr n \<Longrightarrow> clean n = source_admissible p"
  by (auto simp: lower_operand_def source_admissible_def split: option.splits list.splits)

lemma lower_compare_clean:
  "lower_compare c = Inr n \<Longrightarrow> clean n = list_all source_admissible (compare_operands c)"
  using lower_operand_clean
  by (auto simp: lower_compare_def compare_operands_def split: sum.splits)

lemma lower_target_clean [simp]: "clean (lower_target t)"
  by (simp add: lower_target_def)

lemma lower_decision_clean [simp]: "clean (lower_decision d)"
  by (simp add: lower_decision_def list_all_iff split: decision_kind.split option.split)

lemma traverse_total: "(\<And>x. x \<in> set xs \<Longrightarrow> \<exists>y. f x = Inr y) \<Longrightarrow> \<exists>ys. traverse f xs = Inr ys"
proof (induction xs)
  case (Cons x xs)
  then obtain y ys where "f x = Inr y" "traverse f xs = Inr ys" by (meson list.set_intros)
  then show ?case by simp
qed simp

lemma traverse_all:
  assumes "traverse f xs = Inr ys" "\<And>x y. x \<in> set xs \<Longrightarrow> f x = Inr y \<Longrightarrow> P y = Q x"
  shows "list_all P ys = list_all Q xs"
  using assms
proof (induction xs arbitrary: ys)
  case (Cons x xs)
  from Cons.prems(1) obtain y zs where "f x = Inr y" "traverse f xs = Inr zs" "ys = y # zs"
    by (auto split: sum.splits)
  moreover have "list_all P zs = list_all Q xs"
    using Cons.IH[OF \<open>traverse f xs = Inr zs\<close>] Cons.prems(2) by simp
  ultimately show ?case using Cons.prems(2)[of x y] by simp
qed simp

lemma lower_rule_clean:
  assumes "lower_rule r = Inr n"
  shows "clean n = list_all source_admissible (concat (map compare_operands (ru_all_of r)))"
proof -
  obtain cs where cs: "traverse lower_compare (ru_all_of r) = Inr cs"
    "n = plain KIND_RULE (cs @ [lower_decision (ru_decision r)])"
    using assms by (auto simp: lower_rule_def split: sum.splits)
  have "list_all clean cs = list_all (\<lambda>c. list_all source_admissible (compare_operands c)) (ru_all_of r)"
    using cs(1) by (rule traverse_all) (rule lower_compare_clean)
  then show ?thesis using cs(2) by (auto simp: list_all_iff)
qed

lemma lower_policy_clean:
  assumes "lower_policy p = Inr n"
  shows "clean n = list_all source_admissible (policy_operands p)"
proof -
  obtain rs where rs: "traverse lower_rule (po_rules p) = Inr rs"
    "n = plain KIND_POLICY (rs @ [lower_decision (po_default p)])"
    using assms by (auto simp: lower_policy_def split: sum.splits)
  have "list_all clean rs = list_all
      (\<lambda>r. list_all source_admissible (concat (map compare_operands (ru_all_of r)))) (po_rules p)"
    using rs(1) by (rule traverse_all) (rule lower_rule_clean)
  then show ?thesis using rs(2) by (auto simp: list_all_iff policy_operands_def)
qed

lemma lower_policy_total:
  assumes "\<And>v. v \<in> set (policy_operands p) \<Longrightarrow> op_ref v \<noteq> Some []"
  shows "\<exists>n. lower_policy p = Inr n"
proof -
  have operand: "\<exists>n. lower_operand v = Inr n" if "op_ref v \<noteq> Some []" for v
    using that by (simp add: lower_operand_def split: option.split list.split)
  have compare: "\<exists>n. lower_compare c = Inr n" if "r \<in> set (po_rules p)" "c \<in> set (ru_all_of r)" for r c
  proof -
    have "op_ref (cm_left c) \<noteq> Some []" "op_ref (cm_right c) \<noteq> Some []"
      using assms that by (auto simp: policy_operands_def compare_operands_def)
    then obtain m n where "lower_operand (cm_left c) = Inr m" "lower_operand (cm_right c) = Inr n"
      using operand by blast
    then show ?thesis by (simp add: lower_compare_def)
  qed
  have "\<exists>n. lower_rule r = Inr n" if "r \<in> set (po_rules p)" for r
    using traverse_total[of "ru_all_of r" lower_compare] compare[OF that] by (auto simp: lower_rule_def)
  then show ?thesis using traverse_total[of "po_rules p" lower_rule] by (auto simp: lower_policy_def)
qed

lemma lowered_policy_checked:
  "lower_strategy (Some p) = Inr prog \<Longrightarrow>
    is_admissible prog = Some (list_all source_admissible (policy_operands p))"
  using lower_policy_clean[of p]
  by (auto simp: lower_strategy_def is_admissible_eq clean_def split: sum.splits)

lemma policy_ok_operands: "policy_ok p \<Longrightarrow> v \<in> set (policy_operands p) \<Longrightarrow> operand_ok v"
  by (auto simp: policy_ok_def rule_ok_def compare_ok_def policy_operands_def compare_operands_def list_all_iff)

lemma operand_ok_source: "operand_ok v \<Longrightarrow> source_admissible v \<and> op_ref v \<noteq> Some []"
  by (auto simp: operand_ok_def source_admissible_def Let_def split: if_splits option.splits list.splits)

section \<open>Properties of the checker\<close>

text \<open>
  C26: the walk over a candidate ends, whatever tree an adversary submits, and visits every node once,
  parents before children and in the order of the source; so the verdict of the checker is always
  produced, and it is admissible exactly when there is a node and no node anywhere has a finding.
\<close>

theorem checker_terminates:
  "iter_nodes nodes = Some (concat (map preorder nodes)) \<and>
   is_admissible nodes = Some (nodes \<noteq> [] \<and> list_all (\<lambda>n. node_findings n = []) (concat (map preorder nodes)))"
  by (simp add: iter_nodes_eq is_admissible_eq list_all_iff)

text \<open>
  C27: a constructed strategy is admissible: every policy whose parts passed their validators can be
  lowered without error, and the escape checker admits the lowered program.
\<close>

theorem constructed_strategies_are_admissible:
  assumes "policy_ok p"
  shows "\<exists>prog. lower_strategy (Some p) = Inr prog \<and> is_admissible prog = Some True"
proof -
  have ok: "\<And>v. v \<in> set (policy_operands p) \<Longrightarrow> source_admissible v \<and> op_ref v \<noteq> Some []"
    using policy_ok_operands[OF assms] operand_ok_source by blast
  then obtain n where "lower_policy p = Inr n" using lower_policy_total by blast
  then have "lower_strategy (Some p) = Inr [n]" by (simp add: lower_strategy_def)
  with lowered_policy_checked[OF this] ok show ?thesis by (simp add: list_all_iff)
qed

definition demo_ref :: "pystr \<Rightarrow> operand" where
  "demo_ref source = \<lparr>op_const = None, op_ref = Some [source, ''price'']\<rparr>"

definition demo_target :: target_spec where
  "demo_target = \<lparr>ts_kind = TARGET_ACTION, ts_account = Some ''A'', ts_instrument = Some ''X'',
    ts_direction = Some ''BUY'', ts_position_effect = Some ''OPEN'', ts_quantity_basis = Some ''UNIT'',
    ts_edge_or_confidence = None, ts_timing_and_execution_constraints = [], ts_rationale = Some ''r''\<rparr>"

definition demo_action :: decision where
  "demo_action = \<lparr>dn_kind = ACTION, dn_rationale = ''r'', dn_target = Some demo_target, dn_vector = [],
    dn_interdependence = None\<rparr>"

definition demo_no_action :: decision where
  "demo_no_action = \<lparr>dn_kind = NO_ACTION, dn_rationale = ''r'', dn_target = None, dn_vector = [],
    dn_interdependence = None\<rparr>"

text \<open>A stop above a price: no action above the threshold, otherwise the action.\<close>

definition demo_policy :: "pystr \<Rightarrow> decision_policy" where
  "demo_policy source =
    \<lparr>po_rules = [\<lparr>ru_all_of = [\<lparr>cm_left = demo_ref source, cm_op = GT,
        cm_right = \<lparr>op_const = Some (SInt 10), op_ref = None\<rparr>\<rparr>], ru_decision = demo_no_action\<rparr>],
     po_default = demo_action\<rparr>"

lemma demo_policy_ok: "policy_ok (demo_policy ''capsule'')"
  by (simp add: demo_policy_def demo_ref_def demo_target_def demo_action_def demo_no_action_def policy_ok_def
      rule_ok_def compare_ok_def operand_ok_def decision_ok_def admissible_context_sources_def)

theorem constructed_strategies_are_admissible_witness:
  "\<exists>prog. lower_strategy (Some (demo_policy ''capsule'')) = Inr prog \<and> is_admissible prog = Some True"
  using constructed_strategies_are_admissible[OF demo_policy_ok] .

text \<open>
  The checker is load-bearing for the sources alone: for a policy built past the validators it
  admits exactly those whose every context reference names the capsule or the configuration; the
  shape of rules and decisions cannot make it refuse, and nothing else can make it accept.
\<close>

theorem checker_decides_the_sources:
  assumes "lower_strategy (Some p) = Inr prog"
  shows "is_admissible prog = Some True \<longleftrightarrow> list_all source_admissible (policy_operands p)"
  using lowered_policy_checked[OF assms] by simp

theorem checker_decides_the_sources_witness:
  "\<exists>prog. lower_strategy (Some (demo_policy ''clock'')) = Inr prog \<and> is_admissible prog \<noteq> Some True"
proof -
  obtain prog where prog: "lower_strategy (Some (demo_policy ''clock'')) = Inr prog"
    by (simp add: demo_policy_def demo_ref_def lower_strategy_def lower_policy_def lower_rule_def
        lower_compare_def lower_operand_def)
  have "\<not> list_all source_admissible (policy_operands (demo_policy ''clock''))"
    by (simp add: demo_policy_def demo_ref_def policy_operands_def compare_operands_def
        source_admissible_def admissible_context_sources_def)
  with checker_decides_the_sources[OF prog] prog show ?thesis by blast
qed

section \<open>Unresolved reads\<close>

text \<open>One environment knows no more than another: every scalar it resolves the other resolves to the same.\<close>

definition knows_less :: "ctx \<Rightarrow> ctx \<Rightarrow> bool" where
  "knows_less e1 e2 =
    (\<forall>path s. walk e1 path = Some (CScalar s) \<longrightarrow> walk e2 path = Some (CScalar s))"

lemma resolve_Some:
  "resolve_operand v env = Some s \<longleftrightarrow>
    op_const v = Some s \<or>
    op_const v = None \<and> walk env (case op_ref v of None \<Rightarrow> [] | Some path \<Rightarrow> path) = Some (CScalar s)"
  by (auto simp: resolve_operand_def split: option.splits ctx.splits)

lemma resolve_mono: "knows_less e1 e2 \<Longrightarrow> resolve_operand v e1 = Some s \<Longrightarrow> resolve_operand v e2 = Some s"
  unfolding resolve_Some knows_less_def by blast

lemma eval_compare_resolved:
  "eval_compare c env \<Longrightarrow>
    \<exists>x y. resolve_operand (cm_left c) env = Some x \<and> resolve_operand (cm_right c) env = Some y"
  by (auto simp: eval_compare_def split: option.splits)

lemma eval_compare_mono:
  assumes "knows_less e1 e2" "eval_compare c e1"
  shows "eval_compare c e2"
proof -
  obtain x y where r: "resolve_operand (cm_left c) e1 = Some x" "resolve_operand (cm_right c) e1 = Some y"
    using eval_compare_resolved[OF assms(2)] by blast
  with resolve_mono[OF assms(1)] show ?thesis
    using assms(2) unfolding eval_compare_def by simp
qed

lemma rule_fires_mono: "knows_less e1 e2 \<Longrightarrow> rule_fires r e1 \<Longrightarrow> rule_fires r e2"
  using eval_compare_mono by (auto simp: rule_fires_def list_all_iff)

text \<open>How many rules are passed over before one fires; the number of rules when none does.\<close>

definition rules_passed :: "decision_policy \<Rightarrow> ctx \<Rightarrow> nat" where
  "rules_passed p env = length (takeWhile (\<lambda>r. \<not> rule_fires r env) (po_rules p))"

lemma evaluate_rules_passed:
  "evaluate_rules rs d env =
    (let i = length (takeWhile (\<lambda>r. \<not> rule_fires r env) rs)
     in if i < length rs then ru_decision (rs ! i) else d)"
  by (induction rs) (auto simp: Let_def)

lemma evaluate_policy_passed:
  "evaluate_policy p env =
    (if rules_passed p env < length (po_rules p)
     then ru_decision (po_rules p ! rules_passed p env) else po_default p)"
  by (simp add: evaluate_policy_def evaluate_rules_passed rules_passed_def Let_def)

lemma takeWhile_antimono:
  "(\<And>x. Q x \<Longrightarrow> P x) \<Longrightarrow> length (takeWhile Q xs) \<le> length (takeWhile P xs)"
  by (induction xs) auto

text \<open>
  An unresolved read only disables: when the context loses values, a rule that still fires fired
  before, so evaluation passes over at least the rules it passed over with the values present, and
  what it then selects is the decision of the first rule that still fires, or the default.  The
  comparisons themselves need both operands resolved, inequality included.
\<close>

theorem unresolved_reads_only_disable:
  assumes "knows_less e1 e2"
  shows "(rule_fires r e1 \<longrightarrow> rule_fires r e2) \<and> rules_passed p e2 \<le> rules_passed p e1 \<and>
    evaluate_policy p e1 =
      (if rules_passed p e1 < length (po_rules p)
       then ru_decision (po_rules p ! rules_passed p e1) else po_default p) \<and>
    (resolve_operand (cm_left c) e1 = None \<or> resolve_operand (cm_right c) e1 = None \<longrightarrow> \<not> eval_compare c e1)"
proof -
  have "rules_passed p e2 \<le> rules_passed p e1"
    unfolding rules_passed_def using rule_fires_mono[OF assms] by (intro takeWhile_antimono) blast
  then show ?thesis
    using rule_fires_mono[OF assms] eval_compare_resolved[of c e1] by (auto simp: evaluate_policy_passed)
qed

definition demo_env :: "int option \<Rightarrow> ctx" where
  "demo_env price =
    CDict [(''capsule'', CDict (case price of None \<Rightarrow> [] | Some n \<Rightarrow> [(''price'', CScalar (SInt n))])),
           (''config'', CDict [])]"

lemma demo_knows_less: "knows_less (demo_env None) (demo_env (Some n))"
  unfolding knows_less_def
proof (intro allI impI)
  fix path s
  assume "walk (demo_env None) path = Some (CScalar s)"
  then have False
    by (cases path; cases "tl path") (auto simp: demo_env_def split: if_splits option.splits)
  then show "walk (demo_env (Some n)) path = Some (CScalar s)" ..
qed

theorem unresolved_reads_only_disable_witness:
  "rules_passed (demo_policy ''capsule'') (demo_env (Some 11)) \<le>
    rules_passed (demo_policy ''capsule'') (demo_env None)"
  using unresolved_reads_only_disable[OF demo_knows_less] by blast

text \<open>
  A missing value can therefore start an action that the value would have prevented: with the price
  present the policy of the example selects no action, without it the default, an action.
\<close>

lemma missing_value_starts_an_action:
  "policy_ok (demo_policy ''capsule'') \<and>
   dn_kind (evaluate_policy (demo_policy ''capsule'') (demo_env (Some 11))) = NO_ACTION \<and>
   dn_kind (evaluate_policy (demo_policy ''capsule'') (demo_env None)) = ACTION"
proof (intro conjI demo_policy_ok)
  show "dn_kind (evaluate_policy (demo_policy ''capsule'') (demo_env (Some 11))) = NO_ACTION"
    by (simp add: evaluate_policy_def demo_policy_def demo_ref_def demo_env_def rule_fires_def
        eval_compare_def resolve_operand_def demo_no_action_def)
  show "dn_kind (evaluate_policy (demo_policy ''capsule'') (demo_env None)) = ACTION"
    by (simp add: evaluate_policy_def demo_policy_def demo_ref_def demo_env_def rule_fires_def
        eval_compare_def resolve_operand_def demo_action_def)
qed

end
