(* ===== verification/Strategy_Outcome.thy ===== *)
theory Strategy_Outcome
  imports Strategy_Dsl Canonical
begin

text \<open>
  What a strategy produces: the authored strategy and its outcomes (\<^verbatim>\<open>tos/dsl/strategy.py\<close>,
  \<^verbatim>\<open>proposal.py\<close>, \<^verbatim>\<open>outcome.py\<close>), the value view (\<^verbatim>\<open>context_value.py\<close>) and the evaluation over a
  decision context capsule (\<^verbatim>\<open>determinism.py\<close>).  Outcomes are digest-bound artifacts of the classes
  below; pydantic turns every error of a validator into \<^verbatim>\<open>ValidationError\<close>.  A strategy, a capsule and
  a value view are inputs: records of the fields that are read, the capsule with its dump.
\<close>

section \<open>Inputs\<close>

record authored_strategy =
  st_strategy_id :: "pystr option"
  st_canonical_digest :: "pystr option"
  st_canonicalization_version :: "pystr option"
  st_status :: artifact_status
  st_dsl_version :: "pystr option"
  st_policy :: "decision_policy option"

record evaluation_config =
  ec_config_version :: pystr
  ec_bindings :: "(pystr \<times> scalar) list"

record decision_context_capsule =
  cp_capsule_id :: "pystr option"
  cp_canonical_digest :: "pystr option"
  cp_status :: artifact_status
  cp_missing_required_fields :: "pystr list"
  cp_scope_account :: "pystr option"
  cp_scope_instrument :: "pystr option"
  cp_critical_input_digest :: "pystr option"
  cp_dump :: "(pystr \<times> ctx) list"

record context_value =
  cv_field_key :: pystr
  cv_value :: scalar
  cv_as_of :: int
  cv_payload_digest :: pystr
  cv_observation_ref :: pystr

record context_value_view =
  vv_snapshot_id :: pystr
  vv_snapshot_canonical_digest :: pystr
  vv_values :: "context_value list"
  vv_canonical_digest :: pystr
  vv_canonicalization_version :: pystr

text \<open>The canonicalization scheme an operation is given: its version and its digest function.\<close>

record canonicalizer =
  cz_version :: pystr
  cz_compute_digest :: scheme

definition is_wildcard :: "pystr \<Rightarrow> bool" where
  "is_wildcard s = (s \<in> set WILDCARD_TOKENS \<or> CHR ''*'' \<in> set s \<or> lower_str s = ''latest'')"

definition context_value_ok :: "context_value \<Rightarrow> bool" where
  "context_value_ok v =
    (if blank (cv_field_key v) \<or> blank (cv_payload_digest v) \<or> blank (cv_observation_ref v) then False
     else \<not> is_wildcard (cv_field_key v))"

definition view_ok :: "context_value_view \<Rightarrow> bool" where
  "view_ok w =
    (if blank (vv_snapshot_id w) \<or> blank (vv_snapshot_canonical_digest w) \<or>
        blank (vv_canonical_digest w) \<or> blank (vv_canonicalization_version w) then False
     else distinct (map cv_field_key (vv_values w)) \<and> list_all context_value_ok (vv_values w))"

definition as_environment_mapping :: "context_value_view \<Rightarrow> (pystr \<times> ctx) list" where
  "as_environment_mapping w =
    foldl (\<lambda>d v. dict_put (cv_field_key v) (CScalar (cv_value v)) d) [] (vv_values w)"

definition VALUE_NAMESPACE :: pystr where
  "VALUE_NAMESPACE = ''resolved_values''"

definition build_environment ::
  "decision_context_capsule \<Rightarrow> evaluation_config \<Rightarrow> context_value_view option \<Rightarrow> (pystr, ctx) result" where
  "build_environment capsule cfg resolved_context =
    (let env = (\<lambda>capsule_view. CDict
           [(''capsule'', CDict capsule_view),
            (''config'', CDict (map (map_prod id CScalar) (ec_bindings cfg)))])
     in case resolved_context of
       None \<Rightarrow> Inr (env (cp_dump capsule))
     | Some w \<Rightarrow>
         if VALUE_NAMESPACE \<in> fst ` set (cp_dump capsule) then Inl ''ArtifactIntegrityError''
         else Inr (env (dict_put VALUE_NAMESPACE (CDict (as_environment_mapping w)) (cp_dump capsule))))"

section \<open>The outcome artifacts\<close>

record capsule_ref =
  cr_capsule_id :: "pystr option"
  cr_canonical_digest :: "pystr option"

record proposal_content =
  pc_strategy_id :: "pystr option"
  pc_strategy_version :: "pystr option"
  pc_target_kind :: target_kind
  pc_account :: "pystr option"
  pc_instrument :: "pystr option"
  pc_direction :: "pystr option"
  pc_position_effect :: "pystr option"
  pc_quantity_basis :: "pystr option"
  pc_edge_or_confidence :: "pystr option"
  pc_timing_and_execution_constraints :: "pystr list"
  pc_rationale :: "pystr option"
  pc_capsule :: capsule_ref
  pc_dsl_version :: "pystr option"
  pc_config_version :: "pystr option"

record no_action_content =
  na_rationale :: "pystr option"
  na_capsule :: capsule_ref
  na_strategy_version :: "pystr option"
  na_dsl_version :: "pystr option"
  na_config_version :: "pystr option"

type_synonym proposal = "proposal_content artifact"
type_synonym no_action_outcome = "no_action_content artifact"

record vector_content =
  vc_components :: "proposal list"
  vc_interdependence :: "vector_interdependence option"
  vc_capsule :: capsule_ref
  vc_dsl_version :: "pystr option"
  vc_config_version :: "pystr option"

type_synonym portfolio_vector = "vector_content artifact"

subsection \<open>Dumps\<close>

fun jopt :: "pystr option \<Rightarrow> json" where
  "jopt None = JNull"
| "jopt (Some s) = JStr s"

definition authority_json :: json where
  "authority_json = JObj (map (\<lambda>f. (f, JBool False))
    [''grants_approval'', ''creates_intent'', ''mutates_capacity'', ''creates_live_authorization'',
     ''creates_protective_classification'', ''creates_transmission_capability'',
     ''permits_broker_transmission'', ''clears_halt'', ''permits_rearm'', ''permits_automatic_rearm''])"

definition capsule_ref_json :: "capsule_ref \<Rightarrow> json" where
  "capsule_ref_json r =
    JObj [(''capsule_id'', jopt (cr_capsule_id r)), (''canonical_digest'', jopt (cr_canonical_digest r))]"

fun target_kind_str :: "target_kind \<Rightarrow> pystr" where
  "target_kind_str TARGET_ACTION = ''ACTION''"
| "target_kind_str TARGET_FLAT = ''FLAT''"

fun status_str :: "artifact_status \<Rightarrow> pystr" where
  "status_str DRAFT = ''DRAFT''"
| "status_str ISSUED = ''ISSUED''"
| "status_str SUPERSEDED = ''SUPERSEDED''"
| "status_str INVALIDATED = ''INVALIDATED''"

definition proposal_covered :: "proposal_content \<Rightarrow> (pystr \<times> json) list" where
  "proposal_covered c =
    [(''artifact_type'', JStr ''STRATEGY_PROPOSAL''), (''schema_version'', JStr ''1.0-DRAFT''),
     (''proposer'', JObj [(''strategy_id'', jopt (pc_strategy_id c)),
       (''strategy_version'', jopt (pc_strategy_version c))]),
     (''target_kind'', JStr (target_kind_str (pc_target_kind c))),
     (''account'', jopt (pc_account c)), (''instrument'', jopt (pc_instrument c)),
     (''direction'', jopt (pc_direction c)), (''position_effect'', jopt (pc_position_effect c)),
     (''quantity_basis'', jopt (pc_quantity_basis c)),
     (''edge_or_confidence'', jopt (pc_edge_or_confidence c)),
     (''timing_and_execution_constraints'', JArr (map JStr (pc_timing_and_execution_constraints c))),
     (''rationale'', jopt (pc_rationale c)),
     (''decision_context_capsule'', capsule_ref_json (pc_capsule c)),
     (''dsl_version'', jopt (pc_dsl_version c)), (''config_version'', jopt (pc_config_version c)),
     (''authority'', authority_json)]"

definition proposal_class :: "proposal_content artifact_class" where
  "proposal_class =
    \<lparr>acl_id_rule = DerivedId ''prop'', acl_covered = (\<lambda>c. JObj (proposal_covered c)),
     acl_required = (\<lambda>c.
       [(''proposer.strategy_id'', jopt (pc_strategy_id c)),
        (''proposer.strategy_version'', jopt (pc_strategy_version c)),
        (''account'', jopt (pc_account c)), (''instrument'', jopt (pc_instrument c)),
        (''direction'', jopt (pc_direction c)), (''position_effect'', jopt (pc_position_effect c)),
        (''quantity_basis'', jopt (pc_quantity_basis c)), (''rationale'', jopt (pc_rationale c)),
        (''decision_context_capsule.capsule_id'', jopt (cr_capsule_id (pc_capsule c))),
        (''decision_context_capsule.canonical_digest'', jopt (cr_canonical_digest (pc_capsule c))),
        (''dsl_version'', jopt (pc_dsl_version c)), (''config_version'', jopt (pc_config_version c))])\<rparr>"

definition no_action_class :: "no_action_content artifact_class" where
  "no_action_class =
    \<lparr>acl_id_rule = IndependentId,
     acl_covered = (\<lambda>c. JObj
       [(''artifact_type'', JStr ''NO_ACTION_OUTCOME''), (''schema_version'', JStr ''1.0-DRAFT''),
        (''rationale'', jopt (na_rationale c)),
        (''decision_context_capsule'', capsule_ref_json (na_capsule c)),
        (''strategy_version'', jopt (na_strategy_version c)), (''dsl_version'', jopt (na_dsl_version c)),
        (''config_version'', jopt (na_config_version c)), (''authority'', authority_json)]),
     acl_required = (\<lambda>c.
       [(''rationale'', jopt (na_rationale c)),
        (''decision_context_capsule.capsule_id'', jopt (cr_capsule_id (na_capsule c))),
        (''decision_context_capsule.canonical_digest'', jopt (cr_canonical_digest (na_capsule c))),
        (''strategy_version'', jopt (na_strategy_version c)), (''dsl_version'', jopt (na_dsl_version c)),
        (''config_version'', jopt (na_config_version c))])\<rparr>"

definition proposal_json :: "proposal \<Rightarrow> json" where
  "proposal_json p = JObj
    (proposal_covered (ar_content p) @
     [(''proposal_id'', jopt (ar_id p)), (''canonical_digest'', jopt (ar_canonical_digest p)),
      (''status'', JStr (status_str (ar_status p))),
      (''canonicalization_version'', jopt (ar_canonicalization_version p))])"

definition vector_class :: "vector_content artifact_class" where
  "vector_class =
    \<lparr>acl_id_rule = IndependentId,
     acl_covered = (\<lambda>c. JObj
       [(''artifact_type'', JStr ''PORTFOLIO_VECTOR''), (''schema_version'', JStr ''1.0-DRAFT''),
        (''components'', JArr (map proposal_json (vc_components c))),
        (''interdependence'', (case vc_interdependence c of None \<Rightarrow> JNull
           | Some ATOMIC \<Rightarrow> JStr ''ATOMIC'' | Some INDEPENDENT \<Rightarrow> JStr ''INDEPENDENT'')),
        (''decision_context_capsule'', capsule_ref_json (vc_capsule c)),
        (''dsl_version'', jopt (vc_dsl_version c)), (''config_version'', jopt (vc_config_version c)),
        (''authority'', authority_json)]),
     acl_required = (\<lambda>c.
       [(''decision_context_capsule.capsule_id'', jopt (cr_capsule_id (vc_capsule c))),
        (''decision_context_capsule.canonical_digest'', jopt (cr_canonical_digest (vc_capsule c))),
        (''dsl_version'', jopt (vc_dsl_version c)), (''config_version'', jopt (vc_config_version c))])\<rparr>"

subsection \<open>Validators\<close>

definition FLAT_QUANTITY_BASIS :: pystr where
  "FLAT_QUANTITY_BASIS = ''ZERO_POSITION''"

definition proposal_ok :: "proposal_content \<Rightarrow> bool" where
  "proposal_ok c =
    (if (case pc_account c of None \<Rightarrow> False | Some s \<Rightarrow> is_wildcard s) then False
     else if (case pc_instrument c of None \<Rightarrow> False | Some s \<Rightarrow> is_wildcard s) then False
     else if (case pc_rationale c of None \<Rightarrow> False | Some r \<Rightarrow> blank r) then False
     else case pc_quantity_basis c of
       None \<Rightarrow> True
     | Some q \<Rightarrow>
         if pc_target_kind c = TARGET_FLAT \<and> q \<noteq> FLAT_QUANTITY_BASIS then False
         else \<not> (pc_target_kind c = TARGET_ACTION \<and> q = FLAT_QUANTITY_BASIS))"

definition no_action_ok :: "no_action_content \<Rightarrow> bool" where
  "no_action_ok c = (case na_rationale c of None \<Rightarrow> True | Some r \<Rightarrow> \<not> blank r)"

definition component_key :: "proposal \<Rightarrow> pystr option \<times> pystr option" where
  "component_key p = (pc_account (ar_content p), pc_instrument (ar_content p))"

definition vector_ok :: "vector_content \<Rightarrow> bool" where
  "vector_ok c =
    (vc_components c \<noteq> [] \<and> list_all (\<lambda>p. ar_status p = ISSUED) (vc_components c) \<and>
     distinct (map component_key (vc_components c)) \<and>
     list_all (\<lambda>p. cr_capsule_id (pc_capsule (ar_content p)) = cr_capsule_id (vc_capsule c)) (vc_components c))"

text \<open>\<^verbatim>\<open>issue\<close> of a class with a validator of its own.\<close>

definition issue_checked ::
  "registry \<Rightarrow> 'c artifact_class \<Rightarrow> ('c \<Rightarrow> bool) \<Rightarrow> canonicalizer \<Rightarrow> 'c \<Rightarrow> pystr option \<Rightarrow>
    (pystr, 'c artifact) result" where
  "issue_checked reg cls valid cz c i =
    (if \<not> valid c then Inl ''ValidationError''
     else case issue reg cls (cz_version cz) (cz_compute_digest cz) ISSUED c i of
       Inl e \<Rightarrow> Inl ''ValidationError''
     | Inr a \<Rightarrow> Inr a)"

definition build_proposal ::
  "registry \<Rightarrow> canonicalizer \<Rightarrow> proposal_content \<Rightarrow> (pystr, proposal) result" where
  "build_proposal reg cz c = issue_checked reg proposal_class proposal_ok cz c None"

definition build_flat ::
  "registry \<Rightarrow> canonicalizer \<Rightarrow> proposal_content \<Rightarrow> (pystr, proposal) result" where
  "build_flat reg cz c =
    build_proposal reg cz
      (c\<lparr>pc_quantity_basis := Some FLAT_QUANTITY_BASIS, pc_target_kind := TARGET_FLAT\<rparr>)"

section \<open>Evaluation\<close>

datatype outcome = NoActionOut no_action_outcome | ProposalOut proposal | VectorOut portfolio_vector

record recorded_input_signature =
  rs_capsule_id :: "pystr option"
  rs_capsule_canonical_digest :: "pystr option"
  rs_authored_strategy_version :: "pystr option"
  rs_dsl_version :: "pystr option"
  rs_config_version :: "pystr option"
  rs_enforcement_mechanism_version :: "pystr option"
  rs_captured_external_value_refs :: "pystr list"

definition capsule_ref_of :: "decision_context_capsule \<Rightarrow> capsule_ref" where
  "capsule_ref_of capsule =
    \<lparr>cr_capsule_id = cp_capsule_id capsule, cr_canonical_digest = cp_canonical_digest capsule\<rparr>"

definition captured_value_refs :: "decision_context_capsule \<Rightarrow> pystr list" where
  "captured_value_refs capsule =
    (case cp_critical_input_digest capsule of None \<Rightarrow> [] | Some d \<Rightarrow> [d])"

text \<open>The content a target proposes, before the flat builder fixes its quantity.\<close>

definition target_content ::
  "target_spec \<Rightarrow> authored_strategy \<Rightarrow> evaluation_config \<Rightarrow> decision_context_capsule \<Rightarrow> proposal_content" where
  "target_content t st cfg capsule =
    \<lparr>pc_strategy_id = st_strategy_id st, pc_strategy_version = st_canonical_digest st,
     pc_target_kind = TARGET_ACTION, pc_account = ts_account t, pc_instrument = ts_instrument t,
     pc_direction = ts_direction t, pc_position_effect = ts_position_effect t,
     pc_quantity_basis = ts_quantity_basis t, pc_edge_or_confidence = ts_edge_or_confidence t,
     pc_timing_and_execution_constraints = ts_timing_and_execution_constraints t,
     pc_rationale = Some (case ts_rationale t of None \<Rightarrow> [] | Some r \<Rightarrow> r),
     pc_capsule = capsule_ref_of capsule, pc_dsl_version = st_dsl_version st,
     pc_config_version = Some (ec_config_version cfg)\<rparr>"

definition build_target_proposal ::
  "registry \<Rightarrow> canonicalizer \<Rightarrow> target_spec \<Rightarrow> authored_strategy \<Rightarrow> evaluation_config \<Rightarrow>
    decision_context_capsule \<Rightarrow> (pystr, proposal) result" where
  "build_target_proposal reg cz t st cfg capsule =
    (let c = target_content t st cfg capsule
     in if ts_kind t = TARGET_FLAT then build_flat reg cz c else build_proposal reg cz c)"

text \<open>The formatted value of an optional string.\<close>

definition fmt :: "pystr option \<Rightarrow> pystr" where
  "fmt s = (case s of None \<Rightarrow> ''None'' | Some x \<Rightarrow> x)"

definition outcome_id ::
  "pystr \<Rightarrow> authored_strategy \<Rightarrow> evaluation_config \<Rightarrow> decision_context_capsule \<Rightarrow> pystr" where
  "outcome_id prefix st cfg capsule =
    prefix @ '':'' @ fmt (st_strategy_id st) @ '':'' @ fmt (cp_capsule_id capsule) @ '':'' @
      ec_config_version cfg"

definition no_action_of ::
  "pystr \<Rightarrow> authored_strategy \<Rightarrow> evaluation_config \<Rightarrow> decision_context_capsule \<Rightarrow> no_action_content" where
  "no_action_of rationale st cfg capsule =
    \<lparr>na_rationale = Some rationale, na_capsule = capsule_ref_of capsule,
     na_strategy_version = st_canonical_digest st, na_dsl_version = st_dsl_version st,
     na_config_version = Some (ec_config_version cfg)\<rparr>"

definition decision_to_outcome ::
  "registry \<Rightarrow> canonicalizer \<Rightarrow> authored_strategy \<Rightarrow> evaluation_config \<Rightarrow> decision_context_capsule \<Rightarrow>
    decision \<Rightarrow> (pystr, outcome) result" where
  "decision_to_outcome reg cz st cfg capsule d =
    (if dn_kind d = NO_ACTION then
       (case issue_checked reg no_action_class no_action_ok cz (no_action_of (dn_rationale d) st cfg capsule)
          (Some (outcome_id ''noact'' st cfg capsule)) of
          Inl e \<Rightarrow> Inl e | Inr a \<Rightarrow> Inr (NoActionOut a))
     else if dn_kind d \<in> {ACTION, FLAT} then
       (case dn_target d of
          None \<Rightarrow> Inl ''AttributeError''
        | Some t \<Rightarrow> (case build_target_proposal reg cz t st cfg capsule of
            Inl e \<Rightarrow> Inl e | Inr a \<Rightarrow> Inr (ProposalOut a)))
     else
       (case traverse (\<lambda>t. build_target_proposal reg cz t st cfg capsule) (dn_vector d) of
          Inl e \<Rightarrow> Inl e
        | Inr components \<Rightarrow>
            (case issue_checked reg vector_class vector_ok cz
               \<lparr>vc_components = components, vc_interdependence = dn_interdependence d,
                vc_capsule = capsule_ref_of capsule, vc_dsl_version = st_dsl_version st,
                vc_config_version = Some (ec_config_version cfg)\<rparr>
               (Some (outcome_id ''vec'' st cfg capsule)) of
               Inl e \<Rightarrow> Inl e | Inr a \<Rightarrow> Inr (VectorOut a))))"

definition evaluate_resolved ::
  "registry \<Rightarrow> canonicalizer \<Rightarrow> pystr \<Rightarrow> authored_strategy \<Rightarrow> decision_context_capsule \<Rightarrow>
    evaluation_config \<Rightarrow> context_value_view option \<Rightarrow>
    (pystr, outcome \<times> recorded_input_signature) result" where
  "evaluate_resolved reg cz enforcement_mechanism_version st capsule cfg resolved_context =
    (case build_environment capsule cfg resolved_context of
      Inl e \<Rightarrow> Inl e
    | Inr env \<Rightarrow>
        (case st_policy st of
          None \<Rightarrow> Inl ''AttributeError''
        | Some policy \<Rightarrow>
            (case decision_to_outcome reg cz st cfg capsule (evaluate_policy policy env) of
              Inl e \<Rightarrow> Inl e
            | Inr oc \<Rightarrow> Inr (oc,
                \<lparr>rs_capsule_id = cp_capsule_id capsule,
                 rs_capsule_canonical_digest = cp_canonical_digest capsule,
                 rs_authored_strategy_version = st_canonical_digest st,
                 rs_dsl_version = st_dsl_version st, rs_config_version = Some (ec_config_version cfg),
                 rs_enforcement_mechanism_version = Some enforcement_mechanism_version,
                 rs_captured_external_value_refs = captured_value_refs capsule @
                   (case resolved_context of None \<Rightarrow> [] | Some w \<Rightarrow> [vv_canonical_digest w])\<rparr>))))"

section \<open>Partial approval of a vector\<close>

datatype vector_realization =
  ALL_COMPONENTS_PROCEED | WHOLE_VECTOR_NON_REALIZATION | NON_REJECTED_COMPONENTS_PROCEED

record vector_resolution =
  vr_realization :: vector_realization
  vr_reevaluation_required :: bool
  vr_proceeding_targets :: "(pystr option \<times> pystr option) list"
  vr_rejected_targets :: "(pystr option \<times> pystr option) list"

definition effective_interdependence :: "vector_content \<Rightarrow> vector_interdependence" where
  "effective_interdependence c = (case vc_interdependence c of None \<Rightarrow> ATOMIC | Some i \<Rightarrow> i)"

definition resolve_vector_realization ::
  "vector_content \<Rightarrow> (pystr option \<times> pystr option) set \<Rightarrow> vector_resolution" where
  "resolve_vector_realization c rejected_targets =
    (let keys = map component_key (vc_components c);
         rejected = filter (\<lambda>k. k \<in> rejected_targets) keys;
         proceeding = filter (\<lambda>k. k \<notin> rejected_targets) keys
     in if rejected = [] then
          \<lparr>vr_realization = ALL_COMPONENTS_PROCEED, vr_reevaluation_required = False,
           vr_proceeding_targets = proceeding, vr_rejected_targets = []\<rparr>
        else if effective_interdependence c = ATOMIC then
          \<lparr>vr_realization = WHOLE_VECTOR_NON_REALIZATION, vr_reevaluation_required = True,
           vr_proceeding_targets = [], vr_rejected_targets = rejected\<rparr>
        else
          \<lparr>vr_realization = NON_REJECTED_COMPONENTS_PROCEED, vr_reevaluation_required = False,
           vr_proceeding_targets = proceeding, vr_rejected_targets = rejected\<rparr>)"

section \<open>Issued outcomes\<close>

text \<open>The scheme in use is the one registered under its version.\<close>

definition bound_scheme :: "registry \<Rightarrow> canonicalizer \<Rightarrow> bool" where
  "bound_scheme reg cz = (reg (cz_version cz) = Some (cz_compute_digest cz))"

lemma issue_checked_Inr:
  assumes "issue_checked reg cls valid cz c i = Inr a"
  shows "valid c" "missing_required_fields cls c = []"
    "a = issued_artifact cls (cz_version cz) (cz_compute_digest cz) ISSUED c i" "construct reg cls a = Inr a"
proof -
  let ?a = "issued_artifact cls (cz_version cz) (cz_compute_digest cz) ISSUED c i"
  have "valid c" and c: "construct reg cls ?a = Inr a"
    using assms by (auto simp: issue_checked_def issue_construct split: if_splits sum.splits)
  then show "valid c" by simp
  have nd: "ar_status ?a \<noteq> DRAFT" by (simp add: issued_artifact_def)
  from c have "a = ?a" "missing_required_fields cls c = []"
    unfolding construct_issued_iff[OF nd] by (auto simp: issued_artifact_def)
  then show "a = ?a" "missing_required_fields cls c = []" "construct reg cls a = Inr a" using c by simp_all
qed

lemma issue_checked_iff:
  assumes "bound_scheme reg cz"
  shows "(\<exists>a. issue_checked reg cls valid cz c i = Inr a) \<longleftrightarrow>
    valid c \<and> missing_required_fields cls c = [] \<and>
    (acl_id_rule cls = IndependentId \<longrightarrow> i \<noteq> None \<and> i \<noteq> Some ''TBD'')"
proof -
  let ?a = "issued_artifact cls (cz_version cz) (cz_compute_digest cz) ISSUED c i"
  have nd: "ar_status ?a \<noteq> DRAFT" by (simp add: issued_artifact_def)
  have "(\<exists>a. issue_checked reg cls valid cz c i = Inr a) \<longleftrightarrow> valid c \<and> (\<exists>a. construct reg cls ?a = Inr a)"
    by (auto simp: issue_checked_def issue_construct split: sum.splits)
  also have "\<dots> \<longleftrightarrow> valid c \<and> missing_required_fields cls c = [] \<and>
      (acl_id_rule cls = IndependentId \<longrightarrow> i \<noteq> None \<and> i \<noteq> Some ''TBD'')"
    unfolding construct_issued_iff[OF nd] using assms
    by (auto simp: issued_artifact_def bound_scheme_def split: id_rule.splits)
  finally show ?thesis .
qed

lemma issued_artifact_sel [simp]:
  "ar_content (issued_artifact cls v s st c i) = c" "ar_status (issued_artifact cls v s st c i) = st"
  "ar_canonical_digest (issued_artifact cls v s st c i) = Some (s (acl_covered cls c))"
  "ar_canonicalization_version (issued_artifact cls v s st c i) = Some v"
  by (simp_all add: issued_artifact_def)

text \<open>A concrete field is one that may stand in a required position.\<close>

definition concrete :: "pystr option \<Rightarrow> bool" where
  "concrete s = (s \<noteq> None \<and> s \<noteq> Some ''TBD'')"

lemma jopt_concrete: "concrete s \<longleftrightarrow> jopt s \<noteq> JNull \<and> jopt s \<noteq> JStr ''TBD''"
  by (cases s) (auto simp: concrete_def)

lemma missing_iff:
  "missing_required_fields cls c = [] \<longleftrightarrow>
    list_all (\<lambda>(path, v). \<not> (v = JNull \<or> v = JStr ''TBD'')) (acl_required cls c)"
  by (auto simp: missing_required_fields_def filter_empty_conv list_all_iff)

definition context_concrete ::
  "authored_strategy \<Rightarrow> evaluation_config \<Rightarrow> decision_context_capsule \<Rightarrow> bool" where
  "context_concrete st cfg capsule =
    (concrete (st_strategy_id st) \<and> concrete (st_canonical_digest st) \<and> concrete (st_dsl_version st) \<and>
     concrete (cp_capsule_id capsule) \<and> concrete (cp_canonical_digest capsule) \<and>
     concrete (Some (ec_config_version cfg)))"

lemma outcome_id_not_TBD [simp]:
  "outcome_id ''noact'' st cfg capsule \<noteq> ''TBD''" "outcome_id ''vec'' st cfg capsule \<noteq> ''TBD''"
  "outcome_id ''degraded'' st cfg capsule \<noteq> ''TBD''"
  by (simp_all add: outcome_id_def)

text \<open>What a target must state to be proposed; a flat target's quantity is fixed by its builder.\<close>

definition scope_concrete :: "pystr option \<Rightarrow> bool" where
  "scope_concrete s = (case s of None \<Rightarrow> False | Some x \<Rightarrow> x \<noteq> ''TBD'' \<and> \<not> is_wildcard x)"

definition rationale_stated :: "pystr option \<Rightarrow> bool" where
  "rationale_stated s = (case s of None \<Rightarrow> False | Some r \<Rightarrow> r \<noteq> ''TBD'' \<and> \<not> blank r)"

definition target_complete :: "target_spec \<Rightarrow> bool" where
  "target_complete t =
    (scope_concrete (ts_account t) \<and> scope_concrete (ts_instrument t) \<and> concrete (ts_direction t) \<and>
     concrete (ts_position_effect t) \<and> rationale_stated (ts_rationale t) \<and>
     (ts_kind t = TARGET_ACTION \<longrightarrow>
       concrete (ts_quantity_basis t) \<and> ts_quantity_basis t \<noteq> Some FLAT_QUANTITY_BASIS))"

definition decision_complete :: "decision \<Rightarrow> bool" where
  "decision_complete d =
    (case dn_kind d of
      NO_ACTION \<Rightarrow> rationale_stated (Some (dn_rationale d))
    | VECTOR \<Rightarrow> list_all target_complete (dn_vector d) \<and>
        distinct (map (\<lambda>t. (ts_account t, ts_instrument t)) (dn_vector d))
    | _ \<Rightarrow> (case dn_target d of None \<Rightarrow> False | Some t \<Rightarrow> target_complete t))"

lemma rationale_stated_or:
  "rationale_stated s \<longleftrightarrow>
    (let r = (case s of None \<Rightarrow> [] | Some r \<Rightarrow> r) in \<not> blank r \<and> concrete (Some r))"
  by (auto simp: rationale_stated_def concrete_def split: option.split)

lemma flat_basis_concrete [simp]: "concrete (Some FLAT_QUANTITY_BASIS)"
  by (simp add: concrete_def FLAT_QUANTITY_BASIS_def)

text \<open>The content issued for a target.\<close>

definition proposed_content ::
  "target_spec \<Rightarrow> authored_strategy \<Rightarrow> evaluation_config \<Rightarrow> decision_context_capsule \<Rightarrow> proposal_content" where
  "proposed_content t st cfg capsule =
    (let c = target_content t st cfg capsule
     in if ts_kind t = TARGET_FLAT
        then c\<lparr>pc_quantity_basis := Some FLAT_QUANTITY_BASIS, pc_target_kind := TARGET_FLAT\<rparr> else c)"

lemma build_target_eq:
  "build_target_proposal reg cz t st cfg capsule =
    issue_checked reg proposal_class proposal_ok cz (proposed_content t st cfg capsule) None"
  by (simp add: build_target_proposal_def build_flat_def build_proposal_def proposed_content_def Let_def)

lemma proposed_sel [simp]:
  "pc_account (proposed_content t st cfg capsule) = ts_account t"
  "pc_instrument (proposed_content t st cfg capsule) = ts_instrument t"
  "pc_direction (proposed_content t st cfg capsule) = ts_direction t"
  "pc_position_effect (proposed_content t st cfg capsule) = ts_position_effect t"
  "pc_capsule (proposed_content t st cfg capsule) = capsule_ref_of capsule"
  "pc_target_kind (proposed_content t st cfg capsule) = ts_kind t"
  "pc_strategy_version (proposed_content t st cfg capsule) = st_canonical_digest st"
  "pc_quantity_basis (proposed_content t st cfg capsule) =
    (if ts_kind t = TARGET_FLAT then Some FLAT_QUANTITY_BASIS else ts_quantity_basis t)"
  by (cases "ts_kind t"; simp add: proposed_content_def target_content_def Let_def)+

lemma proposed_rest:
  "pc_rationale (proposed_content t st cfg capsule) =
    Some (case ts_rationale t of None \<Rightarrow> [] | Some r \<Rightarrow> r)"
  "pc_strategy_id (proposed_content t st cfg capsule) = st_strategy_id st"
  "pc_dsl_version (proposed_content t st cfg capsule) = st_dsl_version st"
  "pc_config_version (proposed_content t st cfg capsule) = Some (ec_config_version cfg)"
  by (cases "ts_kind t"; simp add: proposed_content_def target_content_def Let_def)+

lemma proposal_ok_iff:
  "proposal_ok c \<longleftrightarrow>
    (\<forall>s. pc_account c = Some s \<longrightarrow> \<not> is_wildcard s) \<and> (\<forall>s. pc_instrument c = Some s \<longrightarrow> \<not> is_wildcard s) \<and>
    (\<forall>r. pc_rationale c = Some r \<longrightarrow> \<not> blank r) \<and>
    (\<forall>q. pc_quantity_basis c = Some q \<longrightarrow>
      (pc_target_kind c = TARGET_FLAT) = (q = FLAT_QUANTITY_BASIS))"
  by (cases "pc_target_kind c") (simp_all add: proposal_ok_def split: option.split)

lemma proposal_required:
  "missing_required_fields proposal_class c = [] \<longleftrightarrow>
    concrete (pc_strategy_id c) \<and> concrete (pc_strategy_version c) \<and> concrete (pc_account c) \<and>
    concrete (pc_instrument c) \<and> concrete (pc_direction c) \<and> concrete (pc_position_effect c) \<and>
    concrete (pc_quantity_basis c) \<and> concrete (pc_rationale c) \<and>
    concrete (cr_capsule_id (pc_capsule c)) \<and> concrete (cr_canonical_digest (pc_capsule c)) \<and>
    concrete (pc_dsl_version c) \<and> concrete (pc_config_version c)"
  by (simp add: missing_iff proposal_class_def jopt_concrete)

lemma scope_concrete_iff:
  "scope_concrete s \<longleftrightarrow> concrete s \<and> (\<forall>x. s = Some x \<longrightarrow> \<not> is_wildcard x)"
  by (auto simp: scope_concrete_def concrete_def split: option.split)

lemma proposed_complete:
  assumes "context_concrete st cfg capsule"
  shows "proposal_ok (proposed_content t st cfg capsule) \<and>
      missing_required_fields proposal_class (proposed_content t st cfg capsule) = [] \<longleftrightarrow>
    target_complete t"
proof -
  have "concrete (Some (case ts_rationale t of None \<Rightarrow> [] | Some r \<Rightarrow> r)) \<and>
      \<not> blank (case ts_rationale t of None \<Rightarrow> [] | Some r \<Rightarrow> r) \<longleftrightarrow> rationale_stated (ts_rationale t)"
    by (auto simp: rationale_stated_or Let_def)
  moreover have "ts_kind t = TARGET_ACTION \<longleftrightarrow> ts_kind t \<noteq> TARGET_FLAT" by (cases "ts_kind t") simp_all
  moreover have "concrete (ts_quantity_basis t) \<Longrightarrow>
      (\<forall>q. ts_quantity_basis t = Some q \<longrightarrow> q \<noteq> FLAT_QUANTITY_BASIS) \<longleftrightarrow>
      ts_quantity_basis t \<noteq> Some FLAT_QUANTITY_BASIS"
    by (auto simp: concrete_def)
  ultimately show ?thesis
    using assms
    unfolding proposal_ok_iff proposal_required target_complete_def scope_concrete_iff context_concrete_def
      proposed_sel proposed_rest capsule_ref_of_def capsule_ref.simps
    by (cases "ts_kind t") auto
qed

section \<open>What evaluation yields\<close>

lemma traverse_Inr_iff: "(\<exists>ys. traverse f xs = Inr ys) \<longleftrightarrow> (\<forall>x \<in> set xs. \<exists>y. f x = Inr y)"
  by (induction xs) (auto split: sum.splits)

lemma traverse_map: "traverse f xs = Inr ys \<Longrightarrow> (\<And>x y. f x = Inr y \<Longrightarrow> g y = h x) \<Longrightarrow> map g ys = map h xs"
  by (induction xs arbitrary: ys) (auto split: sum.splits)

lemma build_target_Inr:
  assumes "build_target_proposal reg cz t st cfg capsule = Inr a"
  shows "ar_content a = proposed_content t st cfg capsule" "ar_status a = ISSUED"
    "construct reg proposal_class a = Inr a" "proposal_ok (ar_content a)"
    "missing_required_fields proposal_class (ar_content a) = []"
  using issue_checked_Inr[OF assms[unfolded build_target_eq]] by simp_all

lemma build_target_iff:
  assumes "bound_scheme reg cz" "context_concrete st cfg capsule"
  shows "(\<exists>a. build_target_proposal reg cz t st cfg capsule = Inr a) \<longleftrightarrow> target_complete t"
  unfolding build_target_eq issue_checked_iff[OF assms(1)]
  using proposed_complete[OF assms(2), of t] by (simp add: proposal_class_def)

lemma built_key:
  "build_target_proposal reg cz t st cfg capsule = Inr a \<Longrightarrow>
    component_key a = (ts_account t, ts_instrument t)"
  using build_target_Inr(1)[of reg cz t st cfg capsule a] by (simp add: component_key_def)

lemma no_action_issued_iff:
  assumes "bound_scheme reg cz" "context_concrete st cfg capsule" "i \<noteq> ''TBD''"
  shows "(\<exists>a. issue_checked reg no_action_class no_action_ok cz (no_action_of r st cfg capsule) (Some i) = Inr a) \<longleftrightarrow>
    rationale_stated (Some r)"
  unfolding issue_checked_iff[OF assms(1)]
  using assms(2,3)
  by (simp add: no_action_ok_def no_action_of_def no_action_class_def missing_iff rationale_stated_or
      context_concrete_def capsule_ref_of_def Let_def flip: jopt_concrete) (auto simp: jopt_concrete)

lemmas no_action_issued = iffD2[OF no_action_issued_iff]

lemma map_const_D: "map f ps = map (\<lambda>_. c) ts \<Longrightarrow> p \<in> set ps \<Longrightarrow> f p = c"
  by (induction ps arbitrary: ts) (auto simp: Cons_eq_map_conv)

lemma vector_complete:
  assumes "bound_scheme reg cz" "context_concrete st cfg capsule" "ts \<noteq> []"
    "traverse (\<lambda>t. build_target_proposal reg cz t st cfg capsule) ts = Inr ps"
  shows "(\<exists>a. issue_checked reg vector_class vector_ok cz
      \<lparr>vc_components = ps, vc_interdependence = i, vc_capsule = capsule_ref_of capsule,
       vc_dsl_version = st_dsl_version st, vc_config_version = Some (ec_config_version cfg)\<rparr>
      (Some (outcome_id ''vec'' st cfg capsule)) = Inr a) \<longleftrightarrow>
    distinct (map (\<lambda>t. (ts_account t, ts_instrument t)) ts)"
proof -
  have "map component_key ps = map (\<lambda>t. (ts_account t, ts_instrument t)) ts"
    using assms(4) by (rule traverse_map) (rule built_key)
  moreover have "map ar_status ps = map (\<lambda>_. ISSUED) ts"
    using assms(4) by (rule traverse_map) (rule build_target_Inr)
  moreover have "map (\<lambda>p. cr_capsule_id (pc_capsule (ar_content p))) ps = map (\<lambda>_. cp_capsule_id capsule) ts"
    using assms(4) by (rule traverse_map) (simp add: build_target_Inr(1) capsule_ref_of_def)
  ultimately have ps: "map component_key ps = map (\<lambda>t. (ts_account t, ts_instrument t)) ts" "ps \<noteq> []"
    "\<forall>p \<in> set ps. ar_status p = ISSUED \<and> cr_capsule_id (pc_capsule (ar_content p)) = cp_capsule_id capsule"
    using assms(3) by (auto dest: map_const_D)
  show ?thesis
    unfolding issue_checked_iff[OF assms(1)]
    using assms(2) ps
    by (auto simp: vector_ok_def vector_class_def missing_iff list_all_iff jopt_concrete context_concrete_def
        capsule_ref_of_def)
qed

lemma single_target_outcome:
  "dn_kind d \<in> {ACTION, FLAT} \<Longrightarrow>
    (\<exists>oc. decision_to_outcome reg cz st cfg capsule d = Inr oc) \<longleftrightarrow>
    (\<exists>t. dn_target d = Some t \<and> (\<exists>a. build_target_proposal reg cz t st cfg capsule = Inr a))"
  by (auto simp: decision_to_outcome_def split: option.split sum.split)

lemma decision_outcome_iff:
  assumes "bound_scheme reg cz" "context_concrete st cfg capsule" "decision_ok d"
  shows "(\<exists>oc. decision_to_outcome reg cz st cfg capsule d = Inr oc) \<longleftrightarrow> decision_complete d"
proof (cases "dn_kind d")
  case NO_ACTION
  then show ?thesis using no_action_issued_iff[OF assms(1,2), of "outcome_id ''noact'' st cfg capsule" "dn_rationale d"]
    by (auto simp: decision_to_outcome_def decision_complete_def split: sum.splits)
next
  case VECTOR
  let ?build = "\<lambda>t. build_target_proposal reg cz t st cfg capsule"
  have ne: "dn_vector d \<noteq> []" using assms(3) VECTOR by (simp add: decision_ok_def split: if_splits)
  have all: "(\<exists>ps. traverse ?build (dn_vector d) = Inr ps) \<longleftrightarrow> list_all target_complete (dn_vector d)"
    by (simp add: traverse_Inr_iff build_target_iff[OF assms(1,2)] list_all_iff)
  show ?thesis
  proof (cases "traverse ?build (dn_vector d)")
    case (Inl e)
    then show ?thesis using all VECTOR by (auto simp: decision_to_outcome_def decision_complete_def)
  next
    case (Inr ps)
    then show ?thesis using all VECTOR vector_complete[OF assms(1,2) ne Inr, of "dn_interdependence d"]
      by (auto simp: decision_to_outcome_def decision_complete_def split: sum.splits)
  qed
next
  case ACTION
  then show ?thesis using single_target_outcome[of d] build_target_iff[OF assms(1,2)]
    by (simp add: decision_complete_def split: option.split)
next
  case FLAT
  then show ?thesis using single_target_outcome[of d] build_target_iff[OF assms(1,2)]
    by (simp add: decision_complete_def split: option.split)
qed

lemma evaluated_decision_ok: "policy_ok p \<Longrightarrow> decision_ok (evaluate_policy p env)"
  by (auto simp: evaluate_policy_passed policy_ok_def rule_ok_def list_all_iff)

lemma evaluation_returns_iff:
  assumes "bound_scheme reg cz" "context_concrete st cfg capsule" "st_policy st = Some p" "policy_ok p"
  shows "(\<exists>r. evaluate_resolved reg cz v st capsule cfg view = Inr r) \<longleftrightarrow>
    (\<exists>env. build_environment capsule cfg view = Inr env \<and> decision_complete (evaluate_policy p env))"
proof (cases "build_environment capsule cfg view")
  case (Inr env)
  then show ?thesis
    using decision_outcome_iff[OF assms(1,2) evaluated_decision_ok[OF assms(4)], of env] assms(3)
    by (auto simp: evaluate_resolved_def split: sum.split)
qed (simp add: evaluate_resolved_def)

lemma evaluated_proposal:
  assumes "evaluate_resolved reg cz v st capsule cfg view = Inr (ProposalOut a, sig)"
  shows "\<exists>p env t. st_policy st = Some p \<and> build_environment capsule cfg view = Inr env \<and>
    dn_target (evaluate_policy p env) = Some t \<and>
    (let c = ar_content a in
      ar_status a = ISSUED \<and> construct reg proposal_class a = Inr a \<and>
      pc_account c = ts_account t \<and> pc_instrument c = ts_instrument t \<and> pc_direction c = ts_direction t \<and>
      pc_position_effect c = ts_position_effect t \<and> scope_concrete (pc_account c) \<and>
      scope_concrete (pc_instrument c) \<and> pc_capsule c = capsule_ref_of capsule \<and>
      pc_strategy_version c = st_canonical_digest st \<and>
      (pc_target_kind c = TARGET_FLAT) = (pc_quantity_basis c = Some FLAT_QUANTITY_BASIS) \<and>
      (pc_target_kind c = TARGET_ACTION \<longrightarrow> pc_quantity_basis c = ts_quantity_basis t))"
proof -
  obtain p env where pe: "st_policy st = Some p" "build_environment capsule cfg view = Inr env"
    and d: "decision_to_outcome reg cz st cfg capsule (evaluate_policy p env) = Inr (ProposalOut a)"
    using assms by (auto simp: evaluate_resolved_def split: sum.splits option.splits)
  obtain t where t: "dn_target (evaluate_policy p env) = Some t"
    "build_target_proposal reg cz t st cfg capsule = Inr a"
    using d by (auto simp: decision_to_outcome_def split: if_splits option.splits sum.splits)
  note b = build_target_Inr[OF t(2)]
  have "(pc_target_kind (ar_content a) = TARGET_FLAT) =
      (pc_quantity_basis (ar_content a) = Some FLAT_QUANTITY_BASIS)"
    using b(4,5) unfolding proposal_ok_iff proposal_required by (auto simp: concrete_def)
  moreover have "scope_concrete (ts_account t)" "scope_concrete (ts_instrument t)"
    using b(1,4,5) unfolding proposal_ok_iff proposal_required scope_concrete_iff by simp_all
  ultimately show ?thesis using pe t(1) b(1-3) by (auto simp: Let_def)
qed

text \<open>
  Evaluation raises only for an incomplete decision: with a registered scheme, identified inputs
  and a policy whose parts passed their validators, evaluating returns an outcome exactly when the
  value namespace does not collide with the capsule and the selected decision states what its
  outcome needs: a rationale that is not blank, and for every proposed target a wildcard-free scope,
  a direction, a position effect and, unless it is flat, a quantity.
\<close>

theorem evaluation_raises_only_when_incomplete:
  assumes "bound_scheme reg cz" "context_concrete st cfg capsule" "st_policy st = Some p" "policy_ok p"
  shows "(\<exists>r. evaluate_resolved reg cz v st capsule cfg view = Inr r) \<longleftrightarrow>
    (\<exists>env. build_environment capsule cfg view = Inr env \<and> decision_complete (evaluate_policy p env))"
  by (rule evaluation_returns_iff[OF assms])

text \<open>
  A proposal binds what it came from: an emitted proposal is issued and verifies again, it proposes
  the account, instrument, direction, position effect and quantity of the target of the very decision
  the policy selected in the environment of the capsule, no wildcard among them, it names the capsule
  and the strategy version, and it is flat exactly when its quantity basis is the zero position.
\<close>

theorem proposal_binds_its_inputs:
  assumes "evaluate_resolved reg cz v st capsule cfg view = Inr (ProposalOut a, sig)"
  shows "\<exists>p env t. st_policy st = Some p \<and> build_environment capsule cfg view = Inr env \<and>
    dn_target (evaluate_policy p env) = Some t \<and>
    (let c = ar_content a in
      ar_status a = ISSUED \<and> construct reg proposal_class a = Inr a \<and>
      pc_account c = ts_account t \<and> pc_instrument c = ts_instrument t \<and> pc_direction c = ts_direction t \<and>
      pc_position_effect c = ts_position_effect t \<and> scope_concrete (pc_account c) \<and>
      scope_concrete (pc_instrument c) \<and> pc_capsule c = capsule_ref_of capsule \<and>
      pc_strategy_version c = st_canonical_digest st \<and>
      (pc_target_kind c = TARGET_FLAT) = (pc_quantity_basis c = Some FLAT_QUANTITY_BASIS) \<and>
      (pc_target_kind c = TARGET_ACTION \<longrightarrow> pc_quantity_basis c = ts_quantity_basis t))"
  by (rule evaluated_proposal[OF assms])

section \<open>An evaluation\<close>

definition demo_cz :: canonicalizer where
  "demo_cz = \<lparr>cz_version = ''v'', cz_compute_digest = compute_digest id\<rparr>"

definition demo_registry :: registry where
  "demo_registry = [''v'' \<mapsto> compute_digest id]"

definition demo_strategy :: "decision_policy \<Rightarrow> authored_strategy" where
  "demo_strategy p =
    \<lparr>st_strategy_id = Some ''astrat-d'', st_canonical_digest = Some ''d'',
     st_canonicalization_version = Some ''v'', st_status = ISSUED, st_dsl_version = Some ''1'',
     st_policy = Some p\<rparr>"

definition demo_evaluation_config :: evaluation_config where
  "demo_evaluation_config = \<lparr>ec_config_version = ''c1'', ec_bindings = []\<rparr>"

definition demo_capsule :: "int option \<Rightarrow> decision_context_capsule" where
  "demo_capsule price =
    \<lparr>cp_capsule_id = Some ''dcc-1'', cp_canonical_digest = Some ''1'', cp_status = ISSUED,
     cp_missing_required_fields = [], cp_scope_account = Some ''A'', cp_scope_instrument = Some ''X'',
     cp_critical_input_digest = None,
     cp_dump = (case price of None \<Rightarrow> [] | Some n \<Rightarrow> [(''price'', CScalar (SInt n))])\<rparr>"

lemma demo_bound [simp]: "bound_scheme demo_registry demo_cz"
  by (simp add: bound_scheme_def demo_registry_def demo_cz_def)

lemma demo_concrete [simp]: "context_concrete (demo_strategy p) demo_evaluation_config (demo_capsule n)"
  by (simp add: context_concrete_def concrete_def demo_strategy_def demo_evaluation_config_def demo_capsule_def)

lemma demo_environment: "build_environment (demo_capsule n) demo_evaluation_config None = Inr (demo_env n)"
  by (simp add: build_environment_def demo_capsule_def demo_evaluation_config_def demo_env_def)

lemma demo_target_complete: "target_complete demo_target"
  by (simp add: target_complete_def demo_target_def scope_concrete_def is_wildcard_def WILDCARD_TOKENS_def
      lower_str_def lower_char_def concrete_def rationale_stated_def blank_def white_space_def
      FLAT_QUANTITY_BASIS_def)

lemma demo_default: "evaluate_policy (demo_policy ''capsule'') (demo_env None) = demo_action"
  by (simp add: evaluate_policy_def demo_policy_def demo_ref_def demo_env_def rule_fires_def
      eval_compare_def resolve_operand_def)

theorem evaluation_raises_only_when_incomplete_witness:
  "\<exists>r. evaluate_resolved demo_registry demo_cz ''e'' (demo_strategy (demo_policy ''capsule''))
    (demo_capsule None) demo_evaluation_config None = Inr r"
proof -
  have "decision_complete demo_action"
    using demo_target_complete by (simp add: decision_complete_def demo_action_def)
  then show ?thesis
    using evaluation_raises_only_when_incomplete[OF demo_bound demo_concrete _ demo_policy_ok,
        of "demo_policy ''capsule''" "''e''" None None]
    by (simp add: demo_environment demo_default demo_strategy_def)
qed

lemma demo_proposal:
  obtains a sig where
    "evaluate_resolved demo_registry demo_cz v (demo_strategy (demo_policy ''capsule''))
      (demo_capsule None) demo_evaluation_config None = Inr (ProposalOut a, sig)"
proof -
  obtain a where "build_target_proposal demo_registry demo_cz demo_target
      (demo_strategy (demo_policy ''capsule'')) demo_evaluation_config (demo_capsule None) = Inr a"
    using build_target_iff[OF demo_bound demo_concrete, of demo_target] demo_target_complete by blast
  then have "decision_to_outcome demo_registry demo_cz (demo_strategy (demo_policy ''capsule''))
      demo_evaluation_config (demo_capsule None) demo_action = Inr (ProposalOut a)"
    by (simp add: decision_to_outcome_def demo_action_def)
  then show thesis
    by (intro that) (simp add: evaluate_resolved_def demo_environment demo_default demo_strategy_def)
qed

theorem proposal_binds_its_inputs_witness:
  "\<exists>a sig (t :: target_spec). evaluate_resolved demo_registry demo_cz ''e'' (demo_strategy (demo_policy ''capsule''))
      (demo_capsule None) demo_evaluation_config None = Inr (ProposalOut a, sig) \<and>
    pc_account (ar_content a) = ts_account t \<and> scope_concrete (pc_account (ar_content a))"
proof -
  obtain a sig where e: "evaluate_resolved demo_registry demo_cz ''e'' (demo_strategy (demo_policy ''capsule''))
      (demo_capsule None) demo_evaluation_config None = Inr (ProposalOut a, sig)"
    by (rule demo_proposal)
  from proposal_binds_its_inputs[OF e] show ?thesis using e unfolding Let_def by blast
qed

text \<open>
  The validators do not ask for completeness: a policy they accept may select a target without a
  direction, and then every evaluation that selects it raises.
\<close>

definition undirected_policy :: decision_policy where
  "undirected_policy = (demo_policy ''capsule'')\<lparr>po_default :=
    demo_action\<lparr>dn_target := Some (demo_target\<lparr>ts_direction := None\<rparr>)\<rparr>\<rparr>"

lemma accepted_policy_raises:
  "policy_ok undirected_policy \<and>
   \<not> decision_complete (evaluate_policy undirected_policy (demo_env None))"
proof
  show "policy_ok undirected_policy"
    using demo_policy_ok by (simp add: undirected_policy_def policy_ok_def decision_ok_def demo_action_def
        demo_target_def)
  have "evaluate_policy undirected_policy (demo_env None) =
      demo_action\<lparr>dn_target := Some (demo_target\<lparr>ts_direction := None\<rparr>)\<rparr>"
    by (simp add: undirected_policy_def evaluate_policy_def demo_policy_def demo_ref_def demo_env_def
        rule_fires_def eval_compare_def resolve_operand_def)
  then show "\<not> decision_complete (evaluate_policy undirected_policy (demo_env None))"
    by (simp add: decision_complete_def demo_action_def target_complete_def concrete_def)
qed

section \<open>Vectors\<close>

text \<open>
  The resolution of a partially rejected vector: what proceeds and what is rejected are components,
  nothing rejected proceeds, an atomic vector proceeds as a whole or not at all, and every
  component of an independent one is accounted for.
\<close>

lemma vector_resolution:
  assumes "resolve_vector_realization c rejected = r"
  shows "set (vr_proceeding_targets r) \<inter> rejected = {}"
    "set (vr_rejected_targets r) = component_key ` set (vc_components c) \<inter> rejected"
    "effective_interdependence c = ATOMIC \<Longrightarrow>
      vr_proceeding_targets r = [] \<or>
      vr_proceeding_targets r = map component_key (vc_components c)"
    "effective_interdependence c \<noteq> ATOMIC \<Longrightarrow>
      set (vr_proceeding_targets r) = component_key ` set (vc_components c) - rejected"
    "vr_reevaluation_required r \<longleftrightarrow> vr_realization r = WHOLE_VECTOR_NON_REALIZATION"
  using assms
  by (auto simp: resolve_vector_realization_def Let_def filter_empty_conv filter_id_conv split: if_splits)

end
