(* ===== verification/Engine_Ledger.thy ===== *)
theory Engine_Ledger
  imports Rcl_Guards
begin

text \<open>
  The engine's provisional reservation projection: \<^verbatim>\<open>tos/engine/state.py\<close> with the records and
  vocabulary it uses.  The three dictionaries of the ledger are the fields of a record; a raised
  error leaves the ledger as it was, so an operation yields the error or the new ledger.  The typed
  tokens of release and discard are types here, so the checks of their class disappear.  Quantities
  are canonical decimals (\<^verbatim>\<open>CanonicalDecimal\<close>), for which equality of values is equality.
\<close>

section \<open>Vocabulary\<close>

datatype egress_result_kind =
  ACK | FULL_FILL | PARTIAL_FILL | REJECT | UNKNOWN | TIMEOUT_RESULT | CANCEL_ACK | EXPIRED_RESULT

definition fill_result_kinds :: "egress_result_kind list" where
  "fill_result_kinds = [FULL_FILL, PARTIAL_FILL]"

definition terminal_result_kinds :: "egress_result_kind list" where
  "terminal_result_kinds = [FULL_FILL, REJECT, CANCEL_ACK, EXPIRED_RESULT]"

datatype egress_knowledge =
  NOT_SENT | SENT_UNCONFIRMED | ACKNOWLEDGED | PARTIALLY_FILLED | FILLED | REJECTED
| UNKNOWN_FATE | CANCEL_ACKNOWLEDGED | EXPIRED

datatype result_disposition =
  APPLIED | ORPHAN_NO_RESERVATION | MISMATCHED_ATTEMPT | DUPLICATE | NON_MONOTONIC_PROJECTION
| QUANTITY_REGRESSION

section \<open>Records\<close>

type_synonym scope_key = "pystr \<times> pystr"

record provisional_reservation =
  pv_instrument_key :: scope_key
  pv_capacity_state :: capacity_state
  pv_knowledge :: egress_knowledge
  pv_proposal_id :: "pystr option"
  pv_attempt_id :: "pystr option"
  pv_filled_quantity :: "pydec option"
  pv_remaining_quantity :: "pydec option"
  pv_pre_quarantine_capacity :: "capacity_state option"

record egress_result_payload =
  eg_instrument_key :: scope_key
  eg_attempt_id :: pystr
  eg_kind :: egress_result_kind
  eg_filled_quantity :: "pydec option"
  eg_remaining_quantity :: "pydec option"
  eg_broker_execution_id :: "pystr option"
  eg_resolution_generation :: "int option"

text \<open>What the validator of the payload accepts.\<close>

definition fill_shape_consistent :: "egress_result_payload \<Rightarrow> bool" where
  "fill_shape_consistent p =
    (if blank (eg_attempt_id p) then False
     else if eg_kind p \<notin> set fill_result_kinds then
       eg_filled_quantity p = None \<and> eg_remaining_quantity p = None
     else case (eg_filled_quantity p, eg_remaining_quantity p) of
       (Some f, Some r) \<Rightarrow>
         if dle f dzero then False
         else if dlt r dzero then False
         else dlt dzero r = (eg_kind p = PARTIAL_FILL)
     | _ \<Rightarrow> False)"

type_synonym signature =
  "pystr \<times> egress_result_kind \<times> pydec option \<times> pydec option \<times> pystr option \<times> int option"

record projection_ledger =
  pl_max_unresolved :: int
  pl_reservations :: "(scope_key \<times> provisional_reservation) list"
  pl_applied_result_signatures :: "scope_key \<rightharpoonup> signature list"
  pl_released_attempt_ids :: "scope_key \<rightharpoonup> pystr list"

definition make_ledger :: "int \<Rightarrow> (pystr, projection_ledger) result" where
  "make_ledger n =
    (if n < 0 then Inl ''ArtifactIntegrityError''
     else Inr \<lparr>pl_max_unresolved = n, pl_reservations = [],
               pl_applied_result_signatures = Map.empty, pl_released_attempt_ids = Map.empty\<rparr>)"

section \<open>Ranks and transitions\<close>

definition projection_order :: "capacity_state list" where
  "projection_order =
    [COMMITTED_UNBOUND, ATTEMPT_BOUND, POTENTIALLY_LIVE, PARTIALLY_CONSUMED, POSITION_CONSUMED,
     RELEASE_PENDING_PROOF, QUARANTINED_UNKNOWN, RELEASED]"

text \<open>
  The position in the order.  \<open>TRAPPED_CONSUMED\<close> has none (a lookup would raise \<^verbatim>\<open>KeyError\<close>); no
  operation stores it.
\<close>

definition projection_rank :: "capacity_state \<Rightarrow> nat" where
  "projection_rank s = length (takeWhile (\<lambda>t. t \<noteq> s) projection_order)"

fun result_transitions :: "egress_result_kind \<Rightarrow> egress_knowledge \<times> capacity_state option" where
  "result_transitions ACK = (ACKNOWLEDGED, None)"
| "result_transitions FULL_FILL = (FILLED, Some POSITION_CONSUMED)"
| "result_transitions PARTIAL_FILL = (PARTIALLY_FILLED, Some PARTIALLY_CONSUMED)"
| "result_transitions REJECT = (REJECTED, Some RELEASE_PENDING_PROOF)"
| "result_transitions UNKNOWN = (UNKNOWN_FATE, Some QUARANTINED_UNKNOWN)"
| "result_transitions TIMEOUT_RESULT = (UNKNOWN_FATE, Some QUARANTINED_UNKNOWN)"
| "result_transitions CANCEL_ACK = (CANCEL_ACKNOWLEDGED, Some RELEASE_PENDING_PROOF)"
| "result_transitions EXPIRED_RESULT = (EXPIRED, Some RELEASE_PENDING_PROOF)"

fun quarantine_resolution_edges :: "egress_result_kind \<Rightarrow> capacity_state option" where
  "quarantine_resolution_edges ACK = Some POTENTIALLY_LIVE"
| "quarantine_resolution_edges PARTIAL_FILL = Some PARTIALLY_CONSUMED"
| "quarantine_resolution_edges FULL_FILL = Some POSITION_CONSUMED"
| "quarantine_resolution_edges REJECT = Some RELEASE_PENDING_PROOF"
| "quarantine_resolution_edges CANCEL_ACK = Some RELEASE_PENDING_PROOF"
| "quarantine_resolution_edges EXPIRED_RESULT = Some RELEASE_PENDING_PROOF"
| "quarantine_resolution_edges UNKNOWN = None"
| "quarantine_resolution_edges TIMEOUT_RESULT = None"

definition releasable_knowledge :: "egress_knowledge list" where
  "releasable_knowledge = map (fst \<circ> result_transitions) terminal_result_kinds"

definition discardable_capacity :: "capacity_state list" where
  "discardable_capacity = [COMMITTED_UNBOUND, ATTEMPT_BOUND]"

definition knowledge_for_result :: "egress_result_kind \<Rightarrow> egress_knowledge" where
  "knowledge_for_result k = fst (result_transitions k)"

section \<open>Observation\<close>

definition outstanding :: "projection_ledger \<Rightarrow> scope_key \<Rightarrow> provisional_reservation option" where
  "outstanding l k =
    (case map_of (pl_reservations l) k of
      None \<Rightarrow> None
    | Some r \<Rightarrow> if pv_capacity_state r = RELEASED then None else Some r)"

definition outstanding_count :: "projection_ledger \<Rightarrow> scope_key \<Rightarrow> int" where
  "outstanding_count l k = (case outstanding l k of None \<Rightarrow> 0 | Some _ \<Rightarrow> 1)"

definition outstanding_consumed_magnitude :: "projection_ledger \<Rightarrow> scope_key \<Rightarrow> pydec option" where
  "outstanding_consumed_magnitude l k =
    (case outstanding l k of None \<Rightarrow> None | Some r \<Rightarrow> pv_filled_quantity r)"

definition admits_new_exposure :: "projection_ledger \<Rightarrow> scope_key \<Rightarrow> bool" where
  "admits_new_exposure l k = (outstanding_count l k < pl_max_unresolved l)"

section \<open>Storing\<close>

definition released_ids :: "projection_ledger \<Rightarrow> scope_key \<Rightarrow> pystr list" where
  "released_ids l k = (case pl_released_attempt_ids l k of None \<Rightarrow> [] | Some is \<Rightarrow> is)"

definition applied_signatures :: "projection_ledger \<Rightarrow> scope_key \<Rightarrow> signature list" where
  "applied_signatures l k = (case pl_applied_result_signatures l k of None \<Rightarrow> [] | Some ss \<Rightarrow> ss)"

text \<open>\<^verbatim>\<open>_store\<close>.\<close>

definition store_reservation ::
  "projection_ledger \<Rightarrow> provisional_reservation \<Rightarrow> bool \<Rightarrow> (pystr, projection_ledger) result" where
  "store_reservation l r allow_quarantine_resolution =
    (let k = pv_instrument_key r;
         put = l\<lparr>pl_reservations := dict_put k r (pl_reservations l)\<rparr>
     in if (case pv_attempt_id r of None \<Rightarrow> False | Some a \<Rightarrow> a \<in> set (released_ids l k))
        then Inl ''ArtifactIntegrityError''
        else case map_of (pl_reservations l) k of
          None \<Rightarrow> Inr put
        | Some current \<Rightarrow>
            if pv_capacity_state current = RELEASED then Inr put
            else if projection_rank (pv_capacity_state r) < projection_rank (pv_capacity_state current) \<and>
                \<not> (allow_quarantine_resolution \<and> pv_capacity_state current = QUARANTINED_UNKNOWN)
            then Inl ''ArtifactIntegrityError''
            else Inr put)"

definition commit_unbound ::
  "projection_ledger \<Rightarrow> scope_key \<Rightarrow> pystr option \<Rightarrow> (pystr, projection_ledger) result" where
  "commit_unbound l k proposal_id =
    (if \<not> admits_new_exposure l k then Inl ''ArtifactIntegrityError''
     else store_reservation l
       \<lparr>pv_instrument_key = k, pv_capacity_state = COMMITTED_UNBOUND, pv_knowledge = NOT_SENT,
        pv_proposal_id = proposal_id, pv_attempt_id = None, pv_filled_quantity = None,
        pv_remaining_quantity = None, pv_pre_quarantine_capacity = None\<rparr> False)"

definition bind_attempt ::
  "projection_ledger \<Rightarrow> scope_key \<Rightarrow> pystr \<Rightarrow> (pystr, projection_ledger) result" where
  "bind_attempt l k attempt_id =
    (case outstanding l k of
      None \<Rightarrow> Inl ''ArtifactIntegrityError''
    | Some current \<Rightarrow>
        store_reservation l
          (current\<lparr>pv_capacity_state := ATTEMPT_BOUND, pv_attempt_id := Some attempt_id\<rparr>) False)"

definition mark_potentially_live ::
  "projection_ledger \<Rightarrow> scope_key \<Rightarrow> (pystr, projection_ledger) result" where
  "mark_potentially_live l k =
    (case outstanding l k of
      None \<Rightarrow> Inl ''ArtifactIntegrityError''
    | Some current \<Rightarrow>
        store_reservation l
          (current\<lparr>pv_capacity_state := POTENTIALLY_LIVE, pv_knowledge := SENT_UNCONFIRMED\<rparr>) False)"

section \<open>Egress results\<close>

definition quantity_regressed :: "provisional_reservation \<Rightarrow> egress_result_payload \<Rightarrow> bool" where
  "quantity_regressed current p =
    (if eg_kind p \<notin> {FULL_FILL, PARTIAL_FILL} then False
     else case (pv_filled_quantity current, pv_remaining_quantity current,
                eg_filled_quantity p, eg_remaining_quantity p) of
       (Some cf, Some cr, Some pf, Some pr) \<Rightarrow>
         if dlt pf cf then True
         else if dlt cr pr then True
         else \<not> deq (dadd pf pr) (dadd cf cr)
     | _ \<Rightarrow> False)"

text \<open>\<open>Inr (target, resolving)\<close>, or the refusal of the rank guard.\<close>

definition resolve_capacity_target ::
  "provisional_reservation \<Rightarrow> egress_result_payload \<Rightarrow>
    (result_disposition, capacity_state option \<times> bool) result" where
  "resolve_capacity_target current p =
    (let capacity_state = snd (result_transitions (eg_kind p))
     in case (if pv_capacity_state current = QUARANTINED_UNKNOWN
              then quarantine_resolution_edges (eg_kind p) else None) of
       Some table_target \<Rightarrow>
         (case pv_pre_quarantine_capacity current of
           None \<Rightarrow> Inr (Some table_target, True)
         | Some floor_state \<Rightarrow>
             if projection_rank floor_state > projection_rank table_target
             then Inr (Some floor_state, True) else Inr (Some table_target, True))
     | None \<Rightarrow>
         (case capacity_state of
           None \<Rightarrow> Inr (None, False)
         | Some s \<Rightarrow>
             if projection_rank s < projection_rank (pv_capacity_state current)
             then Inl NON_MONOTONIC_PROJECTION else Inr (Some s, False)))"

definition pre_quarantine_floor_update ::
  "provisional_reservation \<Rightarrow> capacity_state \<Rightarrow> bool \<Rightarrow> capacity_state option" where
  "pre_quarantine_floor_update current s resolving =
    (if s = QUARANTINED_UNKNOWN then
       (if pv_capacity_state current = QUARANTINED_UNKNOWN then pv_pre_quarantine_capacity current
        else Some (pv_capacity_state current))
     else if resolving then None else pv_pre_quarantine_capacity current)"

definition signature_of :: "egress_result_payload \<Rightarrow> signature" where
  "signature_of p =
    (eg_attempt_id p, eg_kind p, eg_filled_quantity p, eg_remaining_quantity p,
     eg_broker_execution_id p, eg_resolution_generation p)"

text \<open>The reservation as a result that passed the guards updates it.\<close>

definition updated_reservation ::
  "provisional_reservation \<Rightarrow> egress_result_payload \<Rightarrow> capacity_state option \<Rightarrow> bool \<Rightarrow>
    provisional_reservation" where
  "updated_reservation current p target resolving =
    (let r1 = current\<lparr>pv_knowledge := fst (result_transitions (eg_kind p))\<rparr>;
         r2 = (case target of
             None \<Rightarrow> r1
           | Some s \<Rightarrow> r1\<lparr>pv_capacity_state := s,
               pv_pre_quarantine_capacity := pre_quarantine_floor_update current s resolving\<rparr>)
     in if eg_kind p \<in> {FULL_FILL, PARTIAL_FILL}
        then r2\<lparr>pv_filled_quantity := eg_filled_quantity p,
                pv_remaining_quantity := eg_remaining_quantity p\<rparr>
        else r2)"

text \<open>The new ledger with the disposition, or the error raised by \<^verbatim>\<open>_store\<close>.\<close>

definition apply_egress_result ::
  "projection_ledger \<Rightarrow> egress_result_payload \<Rightarrow>
    (pystr, projection_ledger \<times> result_disposition) result" where
  "apply_egress_result l p =
    (let k = eg_instrument_key p
     in case outstanding l k of
       None \<Rightarrow> Inr (l, ORPHAN_NO_RESERVATION)
     | Some current \<Rightarrow>
         if pv_attempt_id current \<noteq> Some (eg_attempt_id p) then Inr (l, MISMATCHED_ATTEMPT)
         else if signature_of p \<in> set (applied_signatures l k) then Inr (l, DUPLICATE)
         else case resolve_capacity_target current p of
           Inl d \<Rightarrow> Inr (l, d)
         | Inr (target, resolving) \<Rightarrow>
             if quantity_regressed current p then Inr (l, QUANTITY_REGRESSION)
             else case store_reservation l (updated_reservation current p target resolving) resolving of
               Inl e \<Rightarrow> Inl e
             | Inr l' \<Rightarrow>
                 Inr (l'\<lparr>pl_applied_result_signatures :=
                     (pl_applied_result_signatures l')(k \<mapsto> applied_signatures l k @ [signature_of p])\<rparr>,
                   APPLIED))"

section \<open>Release and discard\<close>

definition release ::
  "projection_ledger \<Rightarrow> pystr \<Rightarrow> (pystr, projection_ledger \<times> bool) result" where
  "release l attempt_id =
    (case find (\<lambda>(k, r). pv_attempt_id r = Some attempt_id) (pl_reservations l) of
      None \<Rightarrow> Inr (l, False)
    | Some (k, r) \<Rightarrow>
        if pv_capacity_state r = RELEASED then Inr (l, False)
        else if pv_knowledge r \<notin> set releasable_knowledge then Inr (l, False)
        else case store_reservation l (r\<lparr>pv_capacity_state := RELEASED\<rparr>) False of
          Inl e \<Rightarrow> Inl e
        | Inr l' \<Rightarrow>
            Inr (l'\<lparr>pl_released_attempt_ids :=
                (pl_released_attempt_ids l')(pv_instrument_key r \<mapsto>
                  List.insert attempt_id (released_ids l' (pv_instrument_key r)))\<rparr>, True))"

definition discard_unsent :: "projection_ledger \<Rightarrow> pystr \<Rightarrow> projection_ledger \<times> bool" where
  "discard_unsent l proposal_id =
    (case find (\<lambda>(k, r). pv_proposal_id r = Some proposal_id) (pl_reservations l) of
      None \<Rightarrow> (l, False)
    | Some (k, r) \<Rightarrow>
        if pv_knowledge r \<noteq> NOT_SENT then (l, False)
        else if pv_capacity_state r \<notin> set discardable_capacity then (l, False)
        else if (case pv_attempt_id r of
                   None \<Rightarrow> False
                 | Some a \<Rightarrow> a \<in> fst ` set (applied_signatures l k)) then (l, False)
        else (l\<lparr>pl_reservations := filter (\<lambda>(j, _). j \<noteq> k) (pl_reservations l)\<rparr>, True))"


section \<open>Operations and runs\<close>

datatype ledger_op =
  CommitUnbound scope_key "pystr option"
| BindAttempt scope_key pystr
| MarkPotentiallyLive scope_key
| EgressResult egress_result_payload
| Release pystr
| DiscardUnsent pystr

text \<open>The ledger after an operation; when the operation raised, the ledger is as it was.\<close>

definition kept :: "projection_ledger \<Rightarrow> (pystr, projection_ledger) result \<Rightarrow> projection_ledger" where
  "kept l r = (case r of Inl _ \<Rightarrow> l | Inr l' \<Rightarrow> l')"

fun ledger_step :: "projection_ledger \<Rightarrow> ledger_op \<Rightarrow> projection_ledger" where
  "ledger_step l (CommitUnbound k p) = kept l (commit_unbound l k p)"
| "ledger_step l (BindAttempt k a) = kept l (bind_attempt l k a)"
| "ledger_step l (MarkPotentiallyLive k) = kept l (mark_potentially_live l k)"
| "ledger_step l (EgressResult p) = kept l (map_sum id fst (apply_egress_result l p))"
| "ledger_step l (Release a) = kept l (map_sum id fst (release l a))"
| "ledger_step l (DiscardUnsent p) = fst (discard_unsent l p)"

definition empty_projection :: "int \<Rightarrow> projection_ledger" where
  "empty_projection n =
    \<lparr>pl_max_unresolved = n, pl_reservations = [], pl_applied_result_signatures = Map.empty,
     pl_released_attempt_ids = Map.empty\<rparr>"

definition projection_run :: "int \<Rightarrow> ledger_op list \<Rightarrow> projection_ledger" where
  "projection_run n ops = foldl ledger_step (empty_projection n) ops"

lemma projection_run_snoc [simp]: "projection_run n (ops @ [p]) = ledger_step (projection_run n ops) p"
  by (simp add: projection_run_def)

lemma projection_run_Nil [simp]: "projection_run n [] = empty_projection n"
  by (simp add: projection_run_def)

section \<open>The invariant\<close>

text \<open>
  A held reservation is stored under its own scope, in a ranked state; it remembers a state before
  quarantine exactly while it is quarantined, its fate is then unknown, and that state is neither
  the quarantine nor the release; a release has settled knowledge; and a scope remembers every
  released attempt it holds and no unreleased one.
\<close>

definition reservation_ok :: "projection_ledger \<Rightarrow> scope_key \<times> provisional_reservation \<Rightarrow> bool" where
  "reservation_ok l e =
    (let r = snd e
     in pv_instrument_key r = fst e \<and>
        pv_capacity_state r \<noteq> TRAPPED_CONSUMED \<and>
        (pv_pre_quarantine_capacity r \<noteq> None) = (pv_capacity_state r = QUARANTINED_UNKNOWN) \<and>
        (pv_capacity_state r = QUARANTINED_UNKNOWN \<longrightarrow> pv_knowledge r = UNKNOWN_FATE) \<and>
        (\<forall>s. pv_pre_quarantine_capacity r = Some s \<longrightarrow>
          s \<notin> {TRAPPED_CONSUMED, QUARANTINED_UNKNOWN, RELEASED}) \<and>
        (pv_capacity_state r = RELEASED \<longrightarrow> pv_knowledge r \<in> set releasable_knowledge) \<and>
        (\<forall>a. pv_attempt_id r = Some a \<longrightarrow>
          (a \<in> set (released_ids l (fst e)) \<longleftrightarrow> pv_capacity_state r = RELEASED)))"

definition projection_inv :: "projection_ledger \<Rightarrow> bool" where
  "projection_inv l =
    (distinct (map fst (pl_reservations l)) \<and> list_all (reservation_ok l) (pl_reservations l))"

lemma rank_eval [simp]:
  "projection_rank COMMITTED_UNBOUND = 0" "projection_rank ATTEMPT_BOUND = 1"
  "projection_rank POTENTIALLY_LIVE = 2" "projection_rank PARTIALLY_CONSUMED = 3"
  "projection_rank POSITION_CONSUMED = 4" "projection_rank RELEASE_PENDING_PROOF = 5"
  "projection_rank QUARANTINED_UNKNOWN = 6" "projection_rank RELEASED = 7"
  by (simp_all add: projection_rank_def projection_order_def)

lemma rank_le: "s \<noteq> TRAPPED_CONSUMED \<Longrightarrow> projection_rank s \<le> 7"
  by (cases s) simp_all

lemma result_target: "snd (result_transitions k) = Some s \<Longrightarrow> s \<notin> {TRAPPED_CONSUMED, RELEASED}"
  by (cases k) auto

lemma edge_target: "quarantine_resolution_edges k = Some s \<Longrightarrow> s \<notin> {TRAPPED_CONSUMED, RELEASED, QUARANTINED_UNKNOWN}"
  by (cases k) auto

lemma quarantine_target:
  "snd (result_transitions k) = Some QUARANTINED_UNKNOWN \<longleftrightarrow> quarantine_resolution_edges k = None"
  by (cases k) auto

lemma releasable_eval [simp]:
  "releasable_knowledge = [FILLED, REJECTED, CANCEL_ACKNOWLEDGED, EXPIRED]"
  by (simp add: releasable_knowledge_def terminal_result_kinds_def)

lemma inv_reservation:
  assumes "projection_inv l" "map_of (pl_reservations l) k = Some r"
  shows "reservation_ok l (k, r)"
  using assms map_of_SomeD[OF assms(2)] by (auto simp: projection_inv_def list_all_iff)

lemma outstanding_Some:
  "outstanding l k = Some r \<longleftrightarrow> map_of (pl_reservations l) k = Some r \<and> pv_capacity_state r \<noteq> RELEASED"
  by (auto simp: outstanding_def split: option.splits)

text \<open>Storing an admissible reservation keeps the invariant.\<close>

lemma store_cases [consumes 1, case_names refused stored]:
  assumes "store_reservation l r b = x"
  obtains (refused) e where "x = Inl e"
  | (stored) "x = Inr (l\<lparr>pl_reservations := dict_put (pv_instrument_key r) r (pl_reservations l)\<rparr>)"
      "\<forall>a. pv_attempt_id r = Some a \<longrightarrow> a \<notin> set (released_ids l (pv_instrument_key r))"
      "\<forall>c. outstanding l (pv_instrument_key r) = Some c \<longrightarrow>
        projection_rank (pv_capacity_state c) \<le> projection_rank (pv_capacity_state r) \<or>
        b \<and> pv_capacity_state c = QUARANTINED_UNKNOWN"
  using assms
  by (auto simp: store_reservation_def Let_def outstanding_Some not_less split: option.splits if_splits)

lemma inv_put:
  assumes "projection_inv l" "reservation_ok l (pv_instrument_key r, r)"
  shows "projection_inv (l\<lparr>pl_reservations := dict_put (pv_instrument_key r) r (pl_reservations l)\<rparr>)"
proof -
  have same: "reservation_ok (l\<lparr>pl_reservations := x\<rparr>) = reservation_ok l" for x
    by (simp add: reservation_ok_def released_ids_def fun_eq_iff)
  show ?thesis
    using assms set_dict_put[of "pl_reservations l" "pv_instrument_key r" r]
    by (auto simp: projection_inv_def same list_all_iff distinct_dict_put)
qed

lemma store_inv:
  assumes "projection_inv l" "store_reservation l r b = Inr l'"
    "reservation_ok l (pv_instrument_key r, r)"
  shows "projection_inv l'"
  using assms(2)
proof (cases rule: store_cases)
  case stored
  then show ?thesis using inv_put[OF assms(1,3)] by simp
qed simp

lemma store_admits:
  assumes "store_reservation l r b = Inr l'"
  shows "pv_attempt_id r = Some a \<Longrightarrow> a \<notin> set (released_ids l (pv_instrument_key r))"
    and "outstanding l (pv_instrument_key r) = Some c \<Longrightarrow> pv_capacity_state c \<noteq> QUARANTINED_UNKNOWN \<or> \<not> b \<Longrightarrow>
      projection_rank (pv_capacity_state c) \<le> projection_rank (pv_capacity_state r)"
  using assms by (cases rule: store_cases; auto)+

lemma store_Inr:
  "store_reservation l r b = Inr l' \<Longrightarrow>
    l' = l\<lparr>pl_reservations := dict_put (pv_instrument_key r) r (pl_reservations l)\<rparr>"
  by (erule store_cases) auto

lemma stored_sel:
  assumes "store_reservation l r b = Inr l'"
  shows "map_of (pl_reservations l') = (map_of (pl_reservations l))(pv_instrument_key r \<mapsto> r)"
    and "outstanding l' j =
      (if j = pv_instrument_key r then if pv_capacity_state r = RELEASED then None else Some r
       else outstanding l j)"
    and "released_ids l' = released_ids l" "pl_released_attempt_ids l' = pl_released_attempt_ids l"
    and "pl_max_unresolved l' = pl_max_unresolved l"
  unfolding store_Inr[OF assms] by (simp_all add: outstanding_def released_ids_def fun_eq_iff)

definition unbound_reservation :: "scope_key \<Rightarrow> pystr option \<Rightarrow> provisional_reservation" where
  "unbound_reservation k proposal_id =
    \<lparr>pv_instrument_key = k, pv_capacity_state = COMMITTED_UNBOUND, pv_knowledge = NOT_SENT,
     pv_proposal_id = proposal_id, pv_attempt_id = None, pv_filled_quantity = None,
     pv_remaining_quantity = None, pv_pre_quarantine_capacity = None\<rparr>"

lemma commit_unbound_store:
  "commit_unbound l k p = Inr l' \<Longrightarrow>
    admits_new_exposure l k \<and> store_reservation l (unbound_reservation k p) False = Inr l'"
  by (simp add: commit_unbound_def unbound_reservation_def split: if_splits)

lemma commit_unbound_inv:
  assumes "projection_inv l" "commit_unbound l k p = Inr l'"
  shows "projection_inv l'"
  using commit_unbound_store[OF assms(2)]
  by (intro store_inv[OF assms(1)]) (auto simp: reservation_ok_def unbound_reservation_def)

text \<open>Advancing a reservation that is not quarantined, within the ranks before release.\<close>

lemma advanced_ok:
  assumes "reservation_ok l (k, c)" "pv_capacity_state c \<noteq> QUARANTINED_UNKNOWN"
    "pv_instrument_key r = k" "pv_pre_quarantine_capacity r = pv_pre_quarantine_capacity c"
    "pv_capacity_state r \<notin> {TRAPPED_CONSUMED, QUARANTINED_UNKNOWN, RELEASED}"
    "\<And>a. pv_attempt_id r = Some a \<Longrightarrow> a \<notin> set (released_ids l k)"
  shows "reservation_ok l (k, r)"
  using assms by (simp add: reservation_ok_def)

lemma bind_attempt_inv:
  assumes "projection_inv l" "bind_attempt l k a = Inr l'"
  shows "projection_inv l'"
proof -
  obtain c where c: "outstanding l k = Some c" and st: "store_reservation l
      (c\<lparr>pv_capacity_state := ATTEMPT_BOUND, pv_attempt_id := Some a\<rparr>) False = Inr l'"
    using assms(2) by (auto simp: bind_attempt_def split: option.splits)
  have ok: "reservation_ok l (k, c)" using c inv_reservation[OF assms(1)] by (simp add: outstanding_Some)
  then have k: "pv_instrument_key c = k" by (simp add: reservation_ok_def)
  have "a \<notin> set (released_ids l k)" using store_admits(1)[OF st, of a] k by simp
  moreover have "pv_capacity_state c \<noteq> QUARANTINED_UNKNOWN"
    using store_admits(2)[OF st, of c] c k by auto
  ultimately show ?thesis
    using advanced_ok[OF ok, of "c\<lparr>pv_capacity_state := ATTEMPT_BOUND, pv_attempt_id := Some a\<rparr>"] k
    by (intro store_inv[OF assms(1) st]) simp
qed

lemma outstanding_attempt_unreleased:
  assumes "projection_inv l" "outstanding l k = Some c" "pv_attempt_id c = Some a"
  shows "a \<notin> set (released_ids l k)"
  using inv_reservation[OF assms(1), of k c] assms(2,3) by (simp add: reservation_ok_def outstanding_Some)

lemma mark_potentially_live_inv:
  assumes "projection_inv l" "mark_potentially_live l k = Inr l'"
  shows "projection_inv l'"
proof -
  obtain c where c: "outstanding l k = Some c" and st: "store_reservation l
      (c\<lparr>pv_capacity_state := POTENTIALLY_LIVE, pv_knowledge := SENT_UNCONFIRMED\<rparr>) False = Inr l'"
    using assms(2) by (auto simp: mark_potentially_live_def split: option.splits)
  have ok: "reservation_ok l (k, c)" using c inv_reservation[OF assms(1)] by (simp add: outstanding_Some)
  then have k: "pv_instrument_key c = k" by (simp add: reservation_ok_def)
  have "pv_capacity_state c \<noteq> QUARANTINED_UNKNOWN"
    using store_admits(2)[OF st, of c] c k by auto
  then show ?thesis
    using advanced_ok[OF ok, of "c\<lparr>pv_capacity_state := POTENTIALLY_LIVE, pv_knowledge := SENT_UNCONFIRMED\<rparr>"] k
      outstanding_attempt_unreleased[OF assms(1) c]
    by (intro store_inv[OF assms(1) st]) simp
qed

section \<open>Results\<close>

text \<open>What the rank guard lets through.\<close>

lemma resolve_cases [consumes 3, case_names quit keep advance]:
  assumes "resolve_capacity_target c p = Inr (t, b)" "reservation_ok l (k, c)" "pv_capacity_state c \<noteq> RELEASED"
  obtains
    (quit) s f where "pv_capacity_state c = QUARANTINED_UNKNOWN" "t = Some s" "b"
      "s \<notin> {TRAPPED_CONSUMED, RELEASED, QUARANTINED_UNKNOWN}"
      "pv_pre_quarantine_capacity c = Some f" "projection_rank f \<le> projection_rank s"
  | (keep) "pv_capacity_state c \<noteq> QUARANTINED_UNKNOWN" "t = None" "\<not> b"
      "snd (result_transitions (eg_kind p)) = None"
  | (advance) s where "t = Some s" "\<not> b" "snd (result_transitions (eg_kind p)) = Some s"
      "projection_rank (pv_capacity_state c) \<le> projection_rank s"
      "pv_capacity_state c = QUARANTINED_UNKNOWN \<Longrightarrow> s = QUARANTINED_UNKNOWN"
proof (cases "if pv_capacity_state c = QUARANTINED_UNKNOWN then quarantine_resolution_edges (eg_kind p) else None")
  case None
  have q: "pv_capacity_state c = QUARANTINED_UNKNOWN \<Longrightarrow>
      snd (result_transitions (eg_kind p)) = Some QUARANTINED_UNKNOWN"
    using None quarantine_target by simp
  show thesis
  proof (cases "snd (result_transitions (eg_kind p))")
    case None': None
    have "t = None" "\<not> b"
      using assms(1) unfolding resolve_capacity_target_def Let_def None None' by simp_all
    moreover have "pv_capacity_state c \<noteq> QUARANTINED_UNKNOWN" using q None' by auto
    ultimately show thesis using keep None' by simp
  next
    case (Some s)
    have "t = Some s" "\<not> b" "projection_rank (pv_capacity_state c) \<le> projection_rank s"
      using assms(1) unfolding resolve_capacity_target_def Let_def None Some
      by (simp_all split: if_splits)
    then show thesis using advance q Some by simp
  qed
next
  case (Some e)
  then have quar: "pv_capacity_state c = QUARANTINED_UNKNOWN" and e: "quarantine_resolution_edges (eg_kind p) = Some e"
    by (simp_all split: if_splits)
  obtain f where f: "pv_pre_quarantine_capacity c = Some f" "f \<notin> {TRAPPED_CONSUMED, QUARANTINED_UNKNOWN, RELEASED}"
    using assms(2) quar by (auto simp: reservation_ok_def)
  have "b" "t = Some (if projection_rank f > projection_rank e then f else e)"
    using assms(1) unfolding resolve_capacity_target_def Let_def Some option.case f(1) by (simp_all split: if_splits)
  then show thesis using quit[OF quar] f edge_target[OF e] by simp
qed

lemma updated_sel [simp]:
  "pv_instrument_key (updated_reservation c p t b) = pv_instrument_key c"
  "pv_attempt_id (updated_reservation c p t b) = pv_attempt_id c"
  "pv_proposal_id (updated_reservation c p t b) = pv_proposal_id c"
  "pv_knowledge (updated_reservation c p t b) = fst (result_transitions (eg_kind p))"
  "pv_capacity_state (updated_reservation c p t b) =
    (case t of None \<Rightarrow> pv_capacity_state c | Some s \<Rightarrow> s)"
  "pv_pre_quarantine_capacity (updated_reservation c p t b) =
    (case t of None \<Rightarrow> pv_pre_quarantine_capacity c | Some s \<Rightarrow> pre_quarantine_floor_update c s b)"
  by (simp_all add: updated_reservation_def Let_def split: option.split)

lemma updated_ok:
  assumes "resolve_capacity_target c p = Inr (t, b)" "reservation_ok l (k, c)" "pv_capacity_state c \<noteq> RELEASED"
  shows "reservation_ok l (k, updated_reservation c p t b)"
  using assms
proof (cases rule: resolve_cases)
  case (quit s f)
  with assms(2) show ?thesis by (simp add: reservation_ok_def pre_quarantine_floor_update_def)
next
  case keep
  with assms show ?thesis by (simp add: reservation_ok_def)
next
  case (advance s)
  show ?thesis
  proof (cases "s = QUARANTINED_UNKNOWN")
    case True
    with advance(3) have "fst (result_transitions (eg_kind p)) = UNKNOWN_FATE" by (cases "eg_kind p") simp_all
    with True advance assms(2,3) show ?thesis by (simp add: reservation_ok_def pre_quarantine_floor_update_def)
  next
    case False
    with advance result_target[OF advance(3)] assms(2,3) show ?thesis
      by (auto simp: reservation_ok_def pre_quarantine_floor_update_def)
  qed
qed

text \<open>An admitted result is stored: \<^verbatim>\<open>_store\<close> does not refuse it.\<close>

lemma updated_stored:
  assumes "projection_inv l" "outstanding l k = Some c" "resolve_capacity_target c p = Inr (t, b)"
  shows "store_reservation l (updated_reservation c p t b) b =
    Inr (l\<lparr>pl_reservations := dict_put k (updated_reservation c p t b) (pl_reservations l)\<rparr>)"
proof -
  have m: "map_of (pl_reservations l) k = Some c" "pv_capacity_state c \<noteq> RELEASED"
    using assms(2) by (simp_all add: outstanding_Some)
  have ok: "reservation_ok l (k, c)" by (rule inv_reservation[OF assms(1) m(1)])
  then have k: "pv_instrument_key c = k" by (simp add: reservation_ok_def)
  have "\<not> (projection_rank (pv_capacity_state (updated_reservation c p t b)) < projection_rank (pv_capacity_state c) \<and>
      \<not> (b \<and> pv_capacity_state c = QUARANTINED_UNKNOWN))"
    using assms(3) ok m(2) by (cases rule: resolve_cases) simp_all
  moreover have "(case pv_attempt_id c of None \<Rightarrow> False | Some a \<Rightarrow> a \<in> set (released_ids l k)) = False"
    using outstanding_attempt_unreleased[OF assms(1,2)] by (simp split: option.split)
  ultimately show ?thesis
    using m by (simp only: store_reservation_def Let_def updated_sel k option.case if_False)
qed

lemma result_step:
  assumes "projection_inv l" "apply_egress_result l p = x"
  obtains (ignored) d where "x = Inr (l, d)" "d \<noteq> APPLIED"
  | (applied) c t b l' where "x = Inr (l', APPLIED)" "outstanding l (eg_instrument_key p) = Some c"
      "pv_attempt_id c = Some (eg_attempt_id p)" "resolve_capacity_target c p = Inr (t, b)"
      "\<not> quantity_regressed c p" "signature_of p \<notin> set (applied_signatures l (eg_instrument_key p))"
      "pl_reservations l' = dict_put (eg_instrument_key p) (updated_reservation c p t b) (pl_reservations l)"
      "pl_released_attempt_ids l' = pl_released_attempt_ids l" "pl_max_unresolved l' = pl_max_unresolved l"
proof (cases "outstanding l (eg_instrument_key p)")
  case None
  then show thesis using assms(2) by (intro ignored[of ORPHAN_NO_RESERVATION]) (simp_all add: apply_egress_result_def Let_def)
next
  case (Some c)
  show thesis
  proof (cases "pv_attempt_id c = Some (eg_attempt_id p) \<and>
      signature_of p \<notin> set (applied_signatures l (eg_instrument_key p))")
    case False
    then show thesis using assms(2) Some ignored[of MISMATCHED_ATTEMPT] ignored[of DUPLICATE]
      by (auto simp: apply_egress_result_def Let_def split: if_splits)
  next
    case True
    show thesis
    proof (cases "resolve_capacity_target c p")
      case (Inl d)
      moreover from this have "d \<noteq> APPLIED"
        by (auto simp: resolve_capacity_target_def Let_def split: option.splits if_splits)
      ultimately show thesis using assms(2) Some True ignored[of d]
        by (simp add: apply_egress_result_def Let_def)
    next
      case (Inr tb)
      obtain t b where tb: "tb = (t, b)" by (cases tb)
      note st = updated_stored[OF assms(1) Some Inr[unfolded tb]]
      show thesis
      proof (cases "quantity_regressed c p")
        case q: True
        then show thesis using assms(2) Some True Inr tb ignored[of QUANTITY_REGRESSION]
          by (simp add: apply_egress_result_def Let_def)
      next
        case q: False
        have "x = Inr ((l\<lparr>pl_reservations :=
              dict_put (eg_instrument_key p) (updated_reservation c p t b) (pl_reservations l)\<rparr>)
            \<lparr>pl_applied_result_signatures := (pl_applied_result_signatures l)(eg_instrument_key p \<mapsto>
              applied_signatures l (eg_instrument_key p) @ [signature_of p])\<rparr>, APPLIED)"
          using assms(2) Some True Inr tb q st by (simp add: apply_egress_result_def Let_def)
        from applied[OF this Some _ Inr[unfolded tb] q] True show thesis by simp
      qed
    qed
  qed
qed

lemma reservation_ok_same:
  "pl_released_attempt_ids l' = pl_released_attempt_ids l \<Longrightarrow> reservation_ok l' = reservation_ok l"
  by (simp add: reservation_ok_def released_ids_def fun_eq_iff)

lemma inv_same:
  "projection_inv l \<Longrightarrow> pl_reservations l' = pl_reservations l \<Longrightarrow>
    pl_released_attempt_ids l' = pl_released_attempt_ids l \<Longrightarrow> projection_inv l'"
  using reservation_ok_same[of l' l] by (simp add: projection_inv_def)

lemma apply_egress_result_inv:
  assumes "projection_inv l" "apply_egress_result l p = Inr (l', d)"
  shows "projection_inv l'"
  using assms
proof (cases rule: result_step)
  case (applied c t b l2)
  have m: "map_of (pl_reservations l) (eg_instrument_key p) = Some c" "pv_capacity_state c \<noteq> RELEASED"
    using applied(2) by (simp_all add: outstanding_Some)
  note ok = inv_reservation[OF assms(1) m(1)]
  then have k: "pv_instrument_key c = eg_instrument_key p" by (simp add: reservation_ok_def)
  have "projection_inv (l\<lparr>pl_reservations := dict_put (eg_instrument_key p) (updated_reservation c p t b) (pl_reservations l)\<rparr>)"
    using inv_put[OF assms(1), of "updated_reservation c p t b"] updated_ok[OF applied(4) ok m(2)] k by simp
  then show ?thesis using applied by (auto elim!: inv_same)
qed (use assms(1) in simp)

section \<open>Releases and discards\<close>

lemma find_reservation:
  assumes "projection_inv l" "find P (pl_reservations l) = Some (k, r)"
  shows "map_of (pl_reservations l) k = Some r" "P (k, r)"
  using assms by (auto simp: projection_inv_def find_Some_iff in_set_conv_nth intro!: map_of_is_SomeI)

lemma release_step:
  assumes "projection_inv l" "release l a = x"
  obtains (refused) "x = Inr (l, False)"
  | (released) k r l' where "x = Inr (l', True)" "outstanding l k = Some r" "pv_attempt_id r = Some a"
      "pv_knowledge r \<in> set releasable_knowledge"
      "pl_reservations l' = dict_put k (r\<lparr>pv_capacity_state := RELEASED\<rparr>) (pl_reservations l)"
      "pl_released_attempt_ids l' = (pl_released_attempt_ids l)(k \<mapsto> List.insert a (released_ids l k))"
      "pl_max_unresolved l' = pl_max_unresolved l"
proof (cases "find (\<lambda>(k, r). pv_attempt_id r = Some a) (pl_reservations l)")
  case None
  then show thesis using assms(2) refused by (simp add: release_def)
next
  case (Some e)
  obtain k r where e: "e = (k, r)" by (cases e)
  note f = find_reservation[OF assms(1) Some[unfolded e]]
  show thesis
  proof (cases "pv_capacity_state r = RELEASED \<or> pv_knowledge r \<notin> set releasable_knowledge")
    case True
    then show thesis using assms(2) refused Some e by (auto simp: release_def split: if_splits)
  next
    case False
    have out: "outstanding l k = Some r" using f False by (simp add: outstanding_Some)
    have k: "pv_instrument_key r = k" using inv_reservation[OF assms(1) f(1)] by (simp add: reservation_ok_def)
    have "pv_capacity_state r \<noteq> TRAPPED_CONSUMED"
      using inv_reservation[OF assms(1) f(1)] by (simp add: reservation_ok_def)
    then have "\<not> projection_rank RELEASED < projection_rank (pv_capacity_state r)"
      using rank_le by (simp add: not_less)
    then have st: "store_reservation l (r\<lparr>pv_capacity_state := RELEASED\<rparr>) False =
        Inr (l\<lparr>pl_reservations := dict_put k (r\<lparr>pv_capacity_state := RELEASED\<rparr>) (pl_reservations l)\<rparr>)"
      using f outstanding_attempt_unreleased[OF assms(1) out] False k by (simp add: store_reservation_def Let_def)
    have "x = Inr ((l\<lparr>pl_reservations := dict_put k (r\<lparr>pv_capacity_state := RELEASED\<rparr>) (pl_reservations l)\<rparr>)
        \<lparr>pl_released_attempt_ids := (pl_released_attempt_ids l)(k \<mapsto> List.insert a (released_ids l k))\<rparr>, True)"
      using assms(2) Some e False st k by (simp add: release_def released_ids_def)
    from released[OF this out] f False show thesis by simp
  qed
qed

lemma discard_step:
  assumes "projection_inv l" "discard_unsent l q = x"
  obtains (refused) "x = (l, False)"
  | (discarded) k r where "x = (l\<lparr>pl_reservations := filter (\<lambda>(j, _). j \<noteq> k) (pl_reservations l)\<rparr>, True)"
      "map_of (pl_reservations l) k = Some r" "pv_proposal_id r = Some q" "pv_knowledge r = NOT_SENT"
      "pv_capacity_state r \<in> {COMMITTED_UNBOUND, ATTEMPT_BOUND}"
proof (cases "find (\<lambda>(k, r). pv_proposal_id r = Some q) (pl_reservations l)")
  case None
  then show thesis using assms(2) refused by (simp add: discard_unsent_def)
next
  case (Some e)
  obtain k r where e: "e = (k, r)" by (cases e)
  note f = find_reservation[OF assms(1) Some[unfolded e]]
  show thesis
    using assms(2) refused discarded[of k r] f Some e
    by (auto simp: discard_unsent_def discardable_capacity_def split: if_splits)
qed

lemma released_ids_add:
  "pl_released_attempt_ids l' = (pl_released_attempt_ids l)(k \<mapsto> List.insert a (released_ids l k)) \<Longrightarrow>
    set (released_ids l' j) = (if j = k then insert a (set (released_ids l k)) else set (released_ids l j))"
  by (auto simp: released_ids_def split: option.splits)

lemma release_inv:
  assumes "projection_inv l" "release l a = Inr (l', d)"
  shows "projection_inv l'"
  using assms
proof (cases rule: release_step)
  case (released k r l2)
  then have l2: "l2 = l'" by simp
  note ids = released_ids_add[OF released(6)]
  have m: "map_of (pl_reservations l) k = Some r" "pv_capacity_state r \<noteq> RELEASED"
    using released(2) by (simp_all add: outstanding_Some)
  have ok: "reservation_ok l (k, r)" by (rule inv_reservation[OF assms(1) m(1)])
  have "pv_capacity_state r \<noteq> QUARANTINED_UNKNOWN" using ok released(4) by (auto simp: reservation_ok_def)
  then have "reservation_ok l' (k, r\<lparr>pv_capacity_state := RELEASED\<rparr>)"
    using ok released(3,4) ids l2 by (simp add: reservation_ok_def)
  moreover have "reservation_ok l' e" if "reservation_ok l e" "fst e \<noteq> k" for e
    using that ids l2 by (simp add: reservation_ok_def)
  moreover have "distinct (map fst (pl_reservations l))" "list_all (reservation_ok l) (pl_reservations l)"
    using assms(1) by (simp_all add: projection_inv_def)
  ultimately show ?thesis
    using released(5) l2 set_dict_put[of "pl_reservations l" k "r\<lparr>pv_capacity_state := RELEASED\<rparr>"]
    by (auto simp: projection_inv_def list_all_iff distinct_dict_put)
qed (use assms(1) in simp)

lemma discard_inv:
  assumes "projection_inv l" "discard_unsent l q = (l', d)"
  shows "projection_inv l'"
  using assms
proof (cases rule: discard_step)
  case (discarded k r)
  then have "l' = l\<lparr>pl_reservations := filter (\<lambda>(j, _). j \<noteq> k) (pl_reservations l)\<rparr>" by simp
  moreover have "reservation_ok (l\<lparr>pl_reservations := filter (\<lambda>(j, _). j \<noteq> k) (pl_reservations l)\<rparr>) = reservation_ok l"
    by (rule reservation_ok_same) simp
  moreover have "distinct (map fst (filter f xs))" if "distinct (map fst xs)"
    for f and xs :: "(scope_key \<times> provisional_reservation) list"
    using that by (rule distinct_map_filter)
  ultimately show ?thesis using assms(1) by (simp add: projection_inv_def list_all_iff)
qed (use assms(1) in simp)

lemma kept_cases: "P l \<Longrightarrow> (\<And>l'. x = Inr l' \<Longrightarrow> P l') \<Longrightarrow> P (kept l x)"
  by (cases x) (simp_all add: kept_def)

lemma ledger_step_inv: "projection_inv l \<Longrightarrow> projection_inv (ledger_step l op)"
proof (cases op)
  case (EgressResult p)
  assume inv: "projection_inv l"
  then show ?thesis using apply_egress_result_inv[OF inv, of p]
    by (cases "apply_egress_result l p") (auto simp: EgressResult kept_def)
next
  case (Release a)
  assume inv: "projection_inv l"
  then show ?thesis using release_inv[OF inv, of a] by (cases "release l a") (auto simp: Release kept_def)
next
  case (DiscardUnsent q)
  assume inv: "projection_inv l"
  then show ?thesis using discard_inv[OF inv, of q] by (cases "discard_unsent l q") (simp add: DiscardUnsent)
next
  case (CommitUnbound k p)
  assume inv: "projection_inv l"
  show ?thesis unfolding CommitUnbound ledger_step.simps
    by (rule kept_cases[of projection_inv, OF inv]) (rule commit_unbound_inv[OF inv])
next
  case (BindAttempt k a)
  assume inv: "projection_inv l"
  show ?thesis unfolding BindAttempt ledger_step.simps
    by (rule kept_cases[of projection_inv, OF inv]) (rule bind_attempt_inv[OF inv])
next
  case (MarkPotentiallyLive k)
  assume inv: "projection_inv l"
  show ?thesis unfolding MarkPotentiallyLive ledger_step.simps
    by (rule kept_cases[of projection_inv, OF inv]) (rule mark_potentially_live_inv[OF inv])
qed

lemma projection_run_inv [simp]: "projection_inv (projection_run n ops)"
proof (induction ops rule: rev_induct)
  case Nil
  show ?case by (simp add: projection_inv_def empty_projection_def)
qed (simp add: ledger_step_inv)

section \<open>How a step changes a scope\<close>

lemma outstanding_eq:
  "pl_reservations l' = dict_put k r (pl_reservations l) \<Longrightarrow>
    outstanding l' j = (if j = k then if pv_capacity_state r = RELEASED then None else Some r else outstanding l j)"
  by (simp add: outstanding_def)

lemma outstanding_filter:
  "outstanding (l\<lparr>pl_reservations := filter (\<lambda>(j, _). j \<noteq> k) (pl_reservations l)\<rparr>) j =
    (if j = k then None else outstanding l j)"
proof -
  have "map_of (filter (\<lambda>(j, _). j \<noteq> k) xs) j = (if j = k then None else map_of xs j)"
    for xs :: "(scope_key \<times> provisional_reservation) list"
    by (induction xs) auto
  then show ?thesis by (simp add: outstanding_def)
qed

text \<open>
  What one operation may do to the outstanding reservation of a scope: nothing; commit a fresh one
  where there was room; advance it; let it out of quarantine to no less than it was before; or end
  it by a release or a discard.
\<close>

inductive scope_change ::
  "projection_ledger \<Rightarrow> ledger_op \<Rightarrow> scope_key \<Rightarrow>
    provisional_reservation option \<Rightarrow> provisional_reservation option \<Rightarrow> bool"
  for l op k where
  same: "scope_change l op k x x"
| fresh: "op = CommitUnbound k p \<Longrightarrow> admits_new_exposure l k \<Longrightarrow>
    (\<And>c. x = Some c \<Longrightarrow> pv_capacity_state c = COMMITTED_UNBOUND) \<Longrightarrow>
    scope_change l op k x (Some (unbound_reservation k p))"
| advance: "projection_rank (pv_capacity_state c) \<le> projection_rank (pv_capacity_state r) \<Longrightarrow>
    pv_proposal_id r = pv_proposal_id c \<Longrightarrow> scope_change l op k (Some c) (Some r)"
| quit: "op = EgressResult p \<Longrightarrow> pv_capacity_state c = QUARANTINED_UNKNOWN \<Longrightarrow>
    pv_pre_quarantine_capacity c = Some f \<Longrightarrow>
    projection_rank f \<le> projection_rank (pv_capacity_state r) \<Longrightarrow>
    pv_proposal_id r = pv_proposal_id c \<Longrightarrow> scope_change l op k (Some c) (Some r)"
| released: "op = Release a \<Longrightarrow> pv_attempt_id c = Some a \<Longrightarrow>
    pv_knowledge c \<in> set releasable_knowledge \<Longrightarrow> scope_change l op k (Some c) None"
| discarded: "op = DiscardUnsent q \<Longrightarrow> pv_proposal_id c = Some q \<Longrightarrow> pv_knowledge c = NOT_SENT \<Longrightarrow>
    pv_capacity_state c \<in> {COMMITTED_UNBOUND, ATTEMPT_BOUND} \<Longrightarrow> scope_change l op k (Some c) None"

inductive_cases scope_ended: "scope_change l op k (Some c) None"
inductive_cases scope_kept: "scope_change l op k (Some c) (Some r)"

lemma own_key: "projection_inv l \<Longrightarrow> outstanding l j = Some c \<Longrightarrow> pv_instrument_key c = j"
  using inv_reservation[of l j c] by (simp add: reservation_ok_def outstanding_Some)

lemma commit_scope:
  assumes "commit_unbound l j p = Inr l'"
  shows "scope_change l (CommitUnbound j p) k (outstanding l k) (outstanding l' k)"
proof -
  note st = commit_unbound_store[OF assms]
  have j: "pv_instrument_key (unbound_reservation j p) = j" "pv_capacity_state (unbound_reservation j p) = COMMITTED_UNBOUND"
    by (simp_all add: unbound_reservation_def)
  have out: "outstanding l' k = (if k = j then Some (unbound_reservation j p) else outstanding l k)"
    using stored_sel(2)[of l "unbound_reservation j p" False l' k] st j by simp
  have unbound: "pv_capacity_state c = COMMITTED_UNBOUND" if "outstanding l j = Some c" for c
  proof -
    have "projection_rank (pv_capacity_state c) \<le> 0"
      using store_admits(2)[of l "unbound_reservation j p" False l' c] st j that by simp
    then show ?thesis by (cases "pv_capacity_state c") (simp_all add: projection_rank_def projection_order_def)
  qed
  show ?thesis
  proof (cases "k = j")
    case True
    have "scope_change l (CommitUnbound j p) j (outstanding l j) (Some (unbound_reservation j p))"
      using st unbound by (intro scope_change.fresh) auto
    with True out show ?thesis by simp
  qed (simp add: out scope_change.same)
qed

lemma advanced_scope:
  assumes "projection_inv l" "outstanding l j = Some c" "store_reservation l r False = Inr l'"
    "pv_instrument_key r = pv_instrument_key c" "pv_proposal_id r = pv_proposal_id c"
    "pv_capacity_state r \<noteq> RELEASED"
  shows "scope_change l op k (outstanding l k) (outstanding l' k)"
  using stored_sel(2)[OF assms(3), of k] store_admits(2)[OF assms(3), of c] own_key[OF assms(1,2)] assms(2,4-)
  by (cases "k = j") (simp_all add: scope_change.same scope_change.advance)

lemma result_scope:
  assumes "projection_inv l" "apply_egress_result l p = Inr (l', d)"
  shows "scope_change l (EgressResult p) k (outstanding l k) (outstanding l' k)"
  using assms
proof (cases rule: result_step)
  case (applied c t b l2)
  note out = outstanding_eq[OF applied(7), of k]
  have l': "l2 = l'" using applied(1) by simp
  have m: "map_of (pl_reservations l) (eg_instrument_key p) = Some c" "pv_capacity_state c \<noteq> RELEASED"
    using applied(2) by (simp_all add: outstanding_Some)
  from applied(4) inv_reservation[OF assms(1) m(1)] m(2)
  have "scope_change l (EgressResult p) k (Some c) (Some (updated_reservation c p t b)) \<and>
      pv_capacity_state (updated_reservation c p t b) \<noteq> RELEASED"
  proof (cases rule: resolve_cases)
    case (quit s f)
    then show ?thesis using scope_change.quit[OF refl quit(1,5)] by simp
  next
    case keep
    then show ?thesis using m(2) by (simp add: scope_change.advance)
  next
    case (advance s)
    then show ?thesis using result_target[OF advance(3)] by (simp add: scope_change.advance)
  qed
  then show ?thesis using out l' applied(2) by (cases "k = eg_instrument_key p") (simp_all add: scope_change.same)
qed (simp add: scope_change.same)

lemma release_scope:
  assumes "projection_inv l" "release l a = Inr (l', d)"
  shows "scope_change l (Release a) k (outstanding l k) (outstanding l' k)"
  using assms
proof (cases rule: release_step)
  case (released j r l2)
  with outstanding_eq[OF released(5), of k] show ?thesis
    using scope_change.released[OF refl released(3,4)] by (cases "k = j") (simp_all add: scope_change.same)
qed (simp add: scope_change.same)

lemma discard_scope:
  assumes "projection_inv l" "discard_unsent l q = (l', d)"
  shows "scope_change l (DiscardUnsent q) k (outstanding l k) (outstanding l' k)"
  using assms
proof (cases rule: discard_step)
  case (discarded j r)
  then have "outstanding l j = Some r" by (auto simp: outstanding_Some)
  with discarded show ?thesis
    using scope_change.discarded[OF refl discarded(3-5)]
    by (cases "k = j") (simp_all add: scope_change.same outstanding_filter)
qed (simp add: scope_change.same)

lemma scope_step:
  assumes "projection_inv l"
  shows "scope_change l op k (outstanding l k) (outstanding (ledger_step l op) k)"
proof (cases op)
  case (CommitUnbound j p)
  show ?thesis unfolding CommitUnbound ledger_step.simps
    by (rule kept_cases, rule scope_change.same, rule commit_scope)
next
  case (BindAttempt j a)
  show ?thesis unfolding BindAttempt ledger_step.simps
    by (rule kept_cases, rule scope_change.same)
      (auto simp: bind_attempt_def split: option.splits intro: advanced_scope[OF assms])
next
  case (MarkPotentiallyLive j)
  show ?thesis unfolding MarkPotentiallyLive ledger_step.simps
    by (rule kept_cases, rule scope_change.same)
      (auto simp: mark_potentially_live_def split: option.splits intro: advanced_scope[OF assms])
next
  case (EgressResult p)
  show ?thesis using result_scope[OF assms, of p _ _ k]
    by (cases "apply_egress_result l p") (auto simp: EgressResult kept_def scope_change.same)
next
  case (Release a)
  show ?thesis using release_scope[OF assms, of a _ _ k]
    by (cases "release l a") (auto simp: Release kept_def scope_change.same)
next
  case (DiscardUnsent q)
  show ?thesis using discard_scope[OF assms, of q _ _ k] by (cases "discard_unsent l q") (simp add: DiscardUnsent)
qed

section \<open>Properties\<close>

lemma released_ids_mono: "set (released_ids l k) \<subseteq> set (released_ids (ledger_step l op) k)"
proof -
  have put: "released_ids (kept l x) = released_ids l"
    if "\<And>l'. x = Inr l' \<Longrightarrow> \<exists>r b. store_reservation l r b = Inr l'" for x
    using that stored_sel(3) by (cases x) (auto simp: kept_def)
  show ?thesis
  proof (cases op)
    case (CommitUnbound j p)
    have "released_ids (kept l (commit_unbound l j p)) = released_ids l"
      by (rule put) (use commit_unbound_store in blast)
    then show ?thesis by (simp add: CommitUnbound)
  next
    case (BindAttempt j a)
    have "released_ids (kept l (bind_attempt l j a)) = released_ids l"
      by (rule put) (auto simp: bind_attempt_def split: option.splits)
    then show ?thesis by (simp add: BindAttempt)
  next
    case (MarkPotentiallyLive j)
    have "released_ids (kept l (mark_potentially_live l j)) = released_ids l"
      by (rule put) (auto simp: mark_potentially_live_def split: option.splits)
    then show ?thesis by (simp add: MarkPotentiallyLive)
  next
    case (EgressResult p)
    have "pl_released_attempt_ids (ledger_step l op) = pl_released_attempt_ids l"
      by (auto simp: EgressResult kept_def apply_egress_result_def Let_def stored_sel(4)
          split: option.split sum.split)
    then show ?thesis by (simp add: released_ids_def)
  next
    case (Release a)
    show ?thesis
      by (auto simp: Release kept_def release_def released_ids_def stored_sel(4) split: option.splits sum.splits)
  next
    case (DiscardUnsent q)
    show ?thesis by (auto simp: DiscardUnsent discard_unsent_def released_ids_def split: option.split)
  qed
qed

text \<open>
  C22: an occupied scope is freed only by proof or by never having been used: when an operation ends
  the outstanding reservation of a scope, it is a release that names its attempt, after a result
  that settled it, or a discard that names its proposal, while nothing was sent.  No commitment,
  binding or egress result, whatever its kind, frees a scope.
\<close>

theorem scope_freed_only_by_proof_or_discard:
  assumes "outstanding (projection_run n ops) k = Some c"
    "outstanding (projection_run n (ops @ [op])) k = None"
  shows "(\<exists>a. op = Release a \<and> pv_attempt_id c = Some a \<and> pv_knowledge c \<in> set releasable_knowledge) \<or>
    (\<exists>q. op = DiscardUnsent q \<and> pv_proposal_id c = Some q \<and> pv_knowledge c = NOT_SENT \<and>
      pv_capacity_state c \<in> {COMMITTED_UNBOUND, ATTEMPT_BOUND})"
  using scope_step[OF projection_run_inv, of n ops op k] assms by (auto elim: scope_ended)

definition demo_scope :: scope_key where
  "demo_scope = (''A'', ''X'')"

definition demo_result :: "egress_result_kind \<Rightarrow> pydec option \<Rightarrow> pydec option \<Rightarrow> egress_result_payload" where
  "demo_result kd f r =
    \<lparr>eg_instrument_key = demo_scope, eg_attempt_id = ''a'', eg_kind = kd, eg_filled_quantity = f,
     eg_remaining_quantity = r, eg_broker_execution_id = None, eg_resolution_generation = None\<rparr>"

definition demo_flow :: "ledger_op list" where
  "demo_flow =
    [CommitUnbound demo_scope (Some ''p''), BindAttempt demo_scope ''a'', MarkPotentiallyLive demo_scope]"

lemmas ledger_eval =
  demo_flow_def demo_scope_def demo_result_def projection_run_def empty_projection_def kept_def
  commit_unbound_def bind_attempt_def mark_potentially_live_def admits_new_exposure_def
  outstanding_count_def outstanding_def store_reservation_def released_ids_def applied_signatures_def
  apply_egress_result_def resolve_capacity_target_def quantity_regressed_def updated_reservation_def
  pre_quarantine_floor_update_def signature_of_def release_def discard_unsent_def discardable_capacity_def

definition demo_held :: "capacity_state \<Rightarrow> egress_knowledge \<Rightarrow> provisional_reservation" where
  "demo_held s w =
    \<lparr>pv_instrument_key = demo_scope, pv_capacity_state = s, pv_knowledge = w,
     pv_proposal_id = Some ''p'', pv_attempt_id = Some ''a'', pv_filled_quantity = None,
     pv_remaining_quantity = None, pv_pre_quarantine_capacity = None\<rparr>"

lemma demo_rejected:
  "outstanding (projection_run 1 (demo_flow @ [EgressResult (demo_result REJECT None None)])) demo_scope =
    Some (demo_held RELEASE_PENDING_PROOF REJECTED)"
  by (simp add: ledger_eval demo_held_def Let_def)

theorem scope_freed_only_by_proof_or_discard_witness:
  "pv_knowledge (demo_held RELEASE_PENDING_PROOF REJECTED) \<in> set releasable_knowledge"
proof -
  have "outstanding (projection_run 1
      ((demo_flow @ [EgressResult (demo_result REJECT None None)]) @ [Release ''a''])) demo_scope = None"
    by (simp add: ledger_eval Let_def)
  from scope_freed_only_by_proof_or_discard[OF demo_rejected this] show ?thesis by auto
qed

text \<open>
  An outstanding reservation never goes back: whatever operation keeps a scope occupied, its
  rank does not fall, except that an egress result may let it out of quarantine, and then not below
  the state it had before the quarantine.
\<close>

theorem projection_never_revives:
  assumes "outstanding (projection_run n ops) k = Some c"
    "outstanding (projection_run n (ops @ [op])) k = Some r"
  shows "projection_rank (pv_capacity_state c) \<le> projection_rank (pv_capacity_state r) \<or>
    (\<exists>p f. op = EgressResult p \<and> pv_capacity_state c = QUARANTINED_UNKNOWN \<and>
      pv_pre_quarantine_capacity c = Some f \<and> projection_rank f \<le> projection_rank (pv_capacity_state r))"
  using scope_step[OF projection_run_inv, of n ops op k] assms
  by (auto elim!: scope_kept simp: unbound_reservation_def)

theorem projection_never_revives_witness:
  "projection_rank RELEASE_PENDING_PROOF \<le> projection_rank QUARANTINED_UNKNOWN"
proof -
  have "outstanding (projection_run 1 ((demo_flow @ [EgressResult (demo_result REJECT None None)]) @
      [EgressResult (demo_result UNKNOWN None None)])) demo_scope =
    Some ((demo_held QUARANTINED_UNKNOWN UNKNOWN_FATE)
      \<lparr>pv_pre_quarantine_capacity := Some RELEASE_PENDING_PROOF\<rparr>)"
    by (simp add: ledger_eval demo_held_def Let_def)
  from projection_never_revives[OF demo_rejected this] show ?thesis by (auto simp: demo_held_def)
qed

text \<open>
  A released attempt never acts again: after a release succeeds, the scope that held the attempt
  never again holds an outstanding reservation of that attempt, whatever operations follow, also
  when the scope is reopened for others.
\<close>

theorem released_attempt_never_returns:
  assumes "release (projection_run n ops) a = Inr (l', True)"
  shows "\<exists>k c. outstanding (projection_run n ops) k = Some c \<and> pv_attempt_id c = Some a \<and>
    (\<forall>ps r. outstanding (projection_run n (ops @ Release a # ps)) k = Some r \<longrightarrow> pv_attempt_id r \<noteq> Some a)"
  using projection_run_inv assms
proof (cases rule: release_step)
  case (released k c l2)
  have ids: "a \<in> set (released_ids (projection_run n (ops @ Release a # ps)) k)" for ps
  proof (induction ps rule: rev_induct)
    case Nil
    have "projection_run n (ops @ [Release a]) = l'" using assms by (simp add: kept_def)
    then show ?case using released_ids_add[OF released(6), of k] released(1) by simp
  next
    case (snoc p ps)
    then show ?case using released_ids_mono projection_run_snoc[of n "ops @ Release a # ps" p] by fastforce
  qed
  have "pv_attempt_id r \<noteq> Some a" if "outstanding (projection_run n (ops @ Release a # ps)) k = Some r" for ps r
    using outstanding_attempt_unreleased[OF projection_run_inv that] ids by blast
  with released show ?thesis by blast
qed simp

theorem released_attempt_never_returns_witness:
  "\<exists>l' k. release (projection_run 1 (demo_flow @ [EgressResult (demo_result REJECT None None)])) ''a'' = Inr (l', True) \<and>
    (\<forall>ps r. outstanding (projection_run 1
      ((demo_flow @ [EgressResult (demo_result REJECT None None)]) @ Release ''a'' # ps)) k = Some r \<longrightarrow>
      pv_attempt_id r \<noteq> Some ''a'')"
proof -
  have "\<exists>l'. release (projection_run 1 (demo_flow @ [EgressResult (demo_result REJECT None None)])) ''a'' = Inr (l', True)"
    by (simp add: ledger_eval Let_def)
  then obtain l' where "release (projection_run 1 (demo_flow @ [EgressResult (demo_result REJECT None None)])) ''a'' = Inr (l', True)"
    by blast
  from this released_attempt_never_returns[OF this] show ?thesis by blast
qed

text \<open>
  Results and releases never crash the core: on every ledger the engine can reach they return,
  with a disposition; and every reservation held there keeps the declared invariant of its fields.
\<close>

theorem results_never_raise:
  "(\<exists>l' d. apply_egress_result (projection_run n ops) p = Inr (l', d)) \<and>
   (\<exists>l' b. release (projection_run n ops) a = Inr (l', b)) \<and>
   list_all (\<lambda>(k, r). pv_instrument_key r = k \<and> pv_capacity_state r \<in> set projection_order \<and>
      (pv_pre_quarantine_capacity r \<noteq> None) = (pv_capacity_state r = QUARANTINED_UNKNOWN))
     (pl_reservations (projection_run n ops))"
proof -
  have "\<exists>l' d. apply_egress_result (projection_run n ops) p = Inr (l', d)"
    using projection_run_inv[of n ops] refl by (rule result_step) blast+
  moreover have "\<exists>l' b. release (projection_run n ops) a = Inr (l', b)"
    using projection_run_inv[of n ops] refl by (rule release_step) blast+
  moreover have "s \<in> set projection_order" if "s \<noteq> TRAPPED_CONSUMED" for s
    using that by (cases s) (simp_all add: projection_order_def)
  ultimately show ?thesis
    using projection_run_inv[of n ops]
    by (auto simp: projection_inv_def reservation_ok_def list_all_iff)
qed

text \<open>
  A late acknowledgement blocks the release: after a full fill the acknowledgement of the same
  attempt is applied and turns the settled knowledge back, so that the finality proof is refused,
  and the same fill reported again is a duplicate that does not restore it.
\<close>

theorem late_ack_blocks_release:
  "let l = projection_run 1 (demo_flow @
      [EgressResult (demo_result FULL_FILL (Some (Dec 1 0)) (Some (Dec 0 0))), EgressResult (demo_result ACK None None)])
   in map_option pv_capacity_state (outstanding l demo_scope) = Some POSITION_CONSUMED \<and>
      map_option pv_knowledge (outstanding l demo_scope) = Some ACKNOWLEDGED \<and>
      release l ''a'' = Inr (l, False) \<and>
      apply_egress_result l (demo_result FULL_FILL (Some (Dec 1 0)) (Some (Dec 0 0))) = Inr (l, DUPLICATE)"
  by (simp add: ledger_eval Let_def)

text \<open>With a bound above one, a second commitment replaces an unbound one instead of joining it.\<close>

lemma second_commitment_replaces:
  "outstanding (projection_run 2 [CommitUnbound demo_scope (Some ''p''), CommitUnbound demo_scope (Some ''q'')]) demo_scope =
    Some (unbound_reservation demo_scope (Some ''q''))"
  by (simp add: ledger_eval unbound_reservation_def Let_def)

end
