(* ===== verification/Strategy_Admission.thy ===== *)
theory Strategy_Admission
  imports Strategy_Outcome Engine_Ledger
begin

text \<open>
  Admission and registration of strategies: \<^verbatim>\<open>tos/engine/admission.py\<close> with the evidence record of the
  escape checker (\<^verbatim>\<open>AdmissibilityResult\<close> of \<^verbatim>\<open>tos/dsl/evidence.py\<close>), and the instrument-keyed registry
  \<^verbatim>\<open>tos/engine/registry.py\<close>.  The checker is a loop, so an operation that runs it yields an option:
  \<open>None\<close> is a run that does not end.  Reasons are kept as short texts; their number and order are the
  code's.  The registry is a Python dict from keys to lists, an association list in insertion order.
\<close>

section \<open>Keys\<close>

text \<open>The validator of \<^verbatim>\<open>InstrumentKey\<close>.\<close>

definition instrument_key_ok :: "scope_key \<Rightarrow> bool" where
  "instrument_key_ok k =
    list_all (\<lambda>v. if blank v then False else \<not> is_wildcard v) [fst k, snd k]"

definition CAPSULE_CONTEXT_SOURCE :: pystr where
  "CAPSULE_CONTEXT_SOURCE = ''capsule''"

definition operand_source :: "operand \<Rightarrow> pystr option" where
  "operand_source p =
    (case op_ref p of None \<Rightarrow> None | Some [] \<Rightarrow> None | Some (s # _) \<Rightarrow> Some s)"

definition iter_outcome_gating_compares :: "decision_policy \<Rightarrow> compare_node list" where
  "iter_outcome_gating_compares p = concat (map ru_all_of (po_rules p))"

definition compare_has_capsule_operand :: "compare_node \<Rightarrow> bool" where
  "compare_has_capsule_operand c =
    list_ex (\<lambda>p. case operand_source p of
        None \<Rightarrow> False
      | Some source \<Rightarrow>
          if source \<notin> set admissible_context_sources then False else source = CAPSULE_CONTEXT_SOURCE)
      [cm_left c, cm_right c]"

definition iter_decisions :: "decision_policy \<Rightarrow> decision list" where
  "iter_decisions p = map ru_decision (po_rules p) @ [po_default p]"

definition decision_targets :: "decision \<Rightarrow> target_spec list" where
  "decision_targets d = (case dn_target d of None \<Rightarrow> [] | Some t \<Rightarrow> [t]) @ dn_vector d"

definition iter_targets :: "decision_policy \<Rightarrow> target_spec list" where
  "iter_targets p = concat (map decision_targets (iter_decisions p))"

definition target_scope :: "target_spec \<Rightarrow> pystr option \<times> pystr option" where
  "target_scope t = (ts_account t, ts_instrument t)"

definition declared_target_scopes :: "authored_strategy \<Rightarrow> (pystr option \<times> pystr option) list" where
  "declared_target_scopes st =
    (case st_policy st of None \<Rightarrow> [] | Some p \<Rightarrow> first_seen (map target_scope (iter_targets p)))"

definition derive_instrument_key :: "authored_strategy \<Rightarrow> scope_key option \<times> pystr list" where
  "derive_instrument_key st =
    (case declared_target_scopes st of
      [] \<Rightarrow> (None, [''strategy declares no TargetSpec scope''])
    | [(Some account, Some instrument)] \<Rightarrow>
        if instrument_key_ok (account, instrument) then (Some (account, instrument), [])
        else (None, [''declared scope is not a usable dispatch key''])
    | [_] \<Rightarrow> (None, [''strategy declares a wildcard (None) scope''])
    | _ \<Rightarrow> (None, [''strategy declares several distinct scopes'']))"

definition policy_work_steps :: "decision_policy \<Rightarrow> int" where
  "policy_work_steps p =
    (let compares = concat (map ru_all_of (po_rules p));
         operands = concat (map (\<lambda>c. [cm_left c, cm_right c]) compares)
     in int (length (po_rules p)) + int (length compares) + int (length operands))"

section \<open>The record of the escape checker\<close>

definition ESCAPE_CHECKER_ENFORCEMENT_VERSION :: pystr where
  "ESCAPE_CHECKER_ENFORCEMENT_VERSION = ''esc-checker-engine-admission-0''"

record admissibility_content =
  ad_candidate :: "candidate_node list"
  ad_verdict :: admissibility_verdict
  ad_reasons :: "pystr list"
  ad_enforcement_mechanism_version :: pystr
  ad_dsl_version :: "pystr option"
  ad_strategy_id :: "pystr option"
  ad_strategy_digest :: "pystr option"

fun candidate_json :: "candidate_node \<Rightarrow> json" where
  "candidate_json (Node k src symb sc children) =
    JObj [(''kind'', JStr k), (''source'', jopt src), (''symbol'', jopt symb), (''scope'', jopt sc),
          (''children'', JArr (map candidate_json children))]"

definition verdict_json :: "admissibility_verdict \<Rightarrow> json" where
  "verdict_json v = JStr (if v = ADMISSIBLE then ''ADMISSIBLE'' else ''INADMISSIBLE'')"

definition admissibility_class :: "admissibility_content artifact_class" where
  "admissibility_class =
    \<lparr>acl_id_rule = IndependentId,
     acl_covered = (\<lambda>c. JObj
       [(''artifact_type'', JStr ''ADMISSIBILITY_RESULT''), (''schema_version'', JStr ''1.0-DRAFT''),
        (''candidate'', JObj [(''nodes'', JArr (map candidate_json (ad_candidate c)))]),
        (''verdict'', verdict_json (ad_verdict c)), (''reasons'', JArr (map JStr (ad_reasons c))),
        (''enforcement_mechanism_version'', JStr (ad_enforcement_mechanism_version c)),
        (''dsl_version'', jopt (ad_dsl_version c)), (''strategy_id'', jopt (ad_strategy_id c)),
        (''strategy_digest'', jopt (ad_strategy_digest c))]),
     acl_required = (\<lambda>c.
       [(''candidate'', JObj [(''nodes'', JArr (map candidate_json (ad_candidate c)))]),
        (''verdict'', verdict_json (ad_verdict c)),
        (''enforcement_mechanism_version'', JStr (ad_enforcement_mechanism_version c)),
        (''dsl_version'', jopt (ad_dsl_version c))])\<rparr>"

text \<open>The validator re-runs the predicate; a candidate with no node cannot be built.\<close>

definition verdict_matches_predicate :: "admissibility_content \<Rightarrow> bool" where
  "verdict_matches_predicate c =
    (ad_candidate c \<noteq> [] \<and>
     (case analyze (ad_candidate c) of
        None \<Rightarrow> False
      | Some computed \<Rightarrow>
          ad_verdict c = an_verdict computed \<and> ad_reasons c = an_reasons computed \<and>
          (ad_verdict c = INADMISSIBLE) = (ad_reasons c \<noteq> [])))"

definition admissibility_result_id :: "authored_strategy \<Rightarrow> pystr" where
  "admissibility_result_id st = ''admres-'' @ fmt (st_strategy_id st)"

type_synonym admissibility_result = "admissibility_content artifact"

definition escape_checker_result ::
  "registry \<Rightarrow> authored_strategy \<Rightarrow> (pystr, admissibility_result) result option" where
  "escape_checker_result reg st =
    (case lower_strategy (st_policy st) of
      Inl e \<Rightarrow> Some (Inl e)
    | Inr program \<Rightarrow>
        (case analyze program of
          None \<Rightarrow> None
        | Some analysis \<Rightarrow>
            Some (case get_scheme reg (st_canonicalization_version st) of
              Inl e \<Rightarrow> Inl ''ArtifactIntegrityError''
            | Inr s \<Rightarrow>
                issue_checked reg admissibility_class verdict_matches_predicate
                  \<lparr>cz_version = fmt (st_canonicalization_version st), cz_compute_digest = s\<rparr>
                  \<lparr>ad_candidate = program, ad_verdict = an_verdict analysis,
                   ad_reasons = an_reasons analysis,
                   ad_enforcement_mechanism_version = ESCAPE_CHECKER_ENFORCEMENT_VERSION,
                   ad_dsl_version = st_dsl_version st, ad_strategy_id = st_strategy_id st,
                   ad_strategy_digest = st_canonical_digest st\<rparr>
                  (Some (admissibility_result_id st)))))"

section \<open>Admission\<close>

datatype admission_verdict = STRATEGY_ADMISSIBLE | STRATEGY_INADMISSIBLE

record admission_result =
  am_verdict :: admission_verdict
  am_reasons :: "pystr list"
  am_instrument_key :: "scope_key option"
  am_admissibility_result :: "admissibility_result option"

definition strategy_admissible ::
  "registry \<Rightarrow> authored_strategy \<Rightarrow> (pystr, admission_result) result option" where
  "strategy_admissible reg st =
    (let status_reasons = (if st_status st \<noteq> ISSUED then [''strategy status is not ISSUED''] else [])
     in case st_policy st of
       None \<Rightarrow> Some (Inr
         \<lparr>am_verdict = STRATEGY_INADMISSIBLE,
          am_reasons = status_reasons @ [''strategy carries no embedded DecisionPolicy''],
          am_instrument_key = None, am_admissibility_result = None\<rparr>)
     | Some policy \<Rightarrow>
         (let compare_reasons = map (\<lambda>c. ''outcome-gating compare has no capsule-sourced operand'')
                (filter (\<lambda>c. \<not> compare_has_capsule_operand c) (iter_outcome_gating_compares policy))
          in case (if st_status st = ISSUED
                   then map_option (map_sum id Some) (escape_checker_result reg st) else Some (Inr None)) of
            None \<Rightarrow> None
          | Some (Inl e) \<Rightarrow> Some (Inl e)
          | Some (Inr checked) \<Rightarrow>
              (let checker_reasons = (case checked of
                     None \<Rightarrow> []
                   | Some a \<Rightarrow>
                       if ad_verdict (ar_content a) = INADMISSIBLE
                       then map (\<lambda>r. ''escape-checker: '' @ r) (ad_reasons (ar_content a)) else []);
                   (key, key_reasons) = derive_instrument_key st;
                   reasons = status_reasons @ compare_reasons @ checker_reasons @ key_reasons
               in Some (Inr (if reasons \<noteq> [] then
                    \<lparr>am_verdict = STRATEGY_INADMISSIBLE, am_reasons = reasons, am_instrument_key = None,
                     am_admissibility_result = checked\<rparr>
                  else
                    \<lparr>am_verdict = STRATEGY_ADMISSIBLE, am_reasons = [], am_instrument_key = key,
                     am_admissibility_result = checked\<rparr>)))))"

section \<open>The registry\<close>

record registered_strategy =
  rg_strategy :: authored_strategy
  rg_config :: evaluation_config
  rg_instrument_key :: scope_key

type_synonym strategy_registry = "(scope_key \<times> registered_strategy list) list"

datatype dispatch = MISSING | EXPLICIT_EMPTY | DISPATCHED "registered_strategy list"

text \<open>\<^verbatim>\<open>setdefault(key, [])\<close>, with the list it returns.\<close>

definition setdefault :: "scope_key \<Rightarrow> strategy_registry \<Rightarrow> strategy_registry" where
  "setdefault k r = (case map_of r k of None \<Rightarrow> r @ [(k, [])] | Some _ \<Rightarrow> r)"

definition declare_key :: "strategy_registry \<Rightarrow> scope_key \<Rightarrow> strategy_registry" where
  "declare_key r k = setdefault k r"

definition register ::
  "registry \<Rightarrow> strategy_registry \<Rightarrow> authored_strategy \<Rightarrow> evaluation_config \<Rightarrow> scope_key option \<Rightarrow>
    ((pystr, registered_strategy) result \<times> strategy_registry) option" where
  "register reg r st cfg asserted =
    (case strategy_admissible reg st of
      None \<Rightarrow> None
    | Some (Inl e) \<Rightarrow> Some (Inl e, r)
    | Some (Inr admission) \<Rightarrow> Some
        (if am_verdict admission \<noteq> STRATEGY_ADMISSIBLE then (Inl ''RegistrationRefused'', r)
         else case am_instrument_key admission of
           None \<Rightarrow> (Inl ''RegistrationRefused'', r)
         | Some derived \<Rightarrow>
             if asserted \<noteq> None \<and> asserted \<noteq> Some derived then (Inl ''RegistrationRefused'', r)
             else
               (let entry = \<lparr>rg_strategy = st, rg_config = cfg, rg_instrument_key = derived\<rparr>;
                    r1 = setdefault derived r
                in (Inr entry, dict_put derived (the (map_of r1 derived) @ [entry]) r1))))"

definition resolve :: "strategy_registry \<Rightarrow> scope_key \<Rightarrow> dispatch" where
  "resolve r k =
    (case map_of r k of
      None \<Rightarrow> MISSING
    | Some entries \<Rightarrow> if entries = [] then EXPLICIT_EMPTY else DISPATCHED entries)"

definition declared_keys :: "strategy_registry \<Rightarrow> scope_key list" where
  "declared_keys r = map fst r"

section \<open>Admission decided\<close>

lemma lowered_nonempty: "lower_strategy policy = Inr prog \<Longrightarrow> prog \<noteq> []"
  by (auto simp: lower_strategy_def split: option.splits sum.splits)

lemma analyze_verdict:
  assumes "analyze prog = Some a" "prog \<noteq> []"
  shows "an_verdict a = INADMISSIBLE \<longleftrightarrow> an_reasons a \<noteq> []"
    and "is_admissible prog = Some (an_reasons a = [])"
  using assms by (auto simp: analyze_eq Let_def is_admissible_def split: if_splits)

text \<open>A strategy as its class constructs it: issued under a registered scheme, with a DSL version.\<close>

definition strategy_issued :: "registry \<Rightarrow> authored_strategy \<Rightarrow> bool" where
  "strategy_issued reg st =
    (st_status st = ISSUED \<and> concrete (st_dsl_version st) \<and>
     (case st_canonicalization_version st of None \<Rightarrow> False | Some v \<Rightarrow> reg v \<noteq> None))"

lemma escape_checker_returns: "\<exists>r. escape_checker_result reg st = Some r"
  by (simp add: escape_checker_result_def analyze_eq Let_def split: sum.split)

lemma strategy_admissible_returns: "\<exists>r. strategy_admissible reg st = Some r"
proof -
  obtain x where "escape_checker_result reg st = Some x" using escape_checker_returns by blast
  then show ?thesis
    by (cases x) (auto simp: strategy_admissible_def Let_def split: option.split prod.split)
qed

lemma escape_checker_Inr:
  assumes "escape_checker_result reg st = Some (Inr a)" "st_policy st = Some p"
  shows "ad_reasons (ar_content a) = [] \<longleftrightarrow> list_all source_admissible (policy_operands p)"
    and "ad_verdict (ar_content a) = INADMISSIBLE \<longleftrightarrow> ad_reasons (ar_content a) \<noteq> []"
proof -
  obtain prog an where prog: "lower_strategy (Some p) = Inr prog" "analyze prog = Some an"
    and a: "ad_verdict (ar_content a) = an_verdict an" "ad_reasons (ar_content a) = an_reasons an"
    using assms by (auto simp: escape_checker_result_def dest!: issue_checked_Inr(3) split: sum.splits option.splits)
  note v = analyze_verdict[OF prog(2) lowered_nonempty[OF prog(1)]]
  show "ad_reasons (ar_content a) = [] \<longleftrightarrow> list_all source_admissible (policy_operands p)"
    using lowered_policy_checked[OF prog(1)] v(2) a by simp
  show "ad_verdict (ar_content a) = INADMISSIBLE \<longleftrightarrow> ad_reasons (ar_content a) \<noteq> []"
    using v(1) a by simp
qed

lemma escape_checker_total:
  assumes "strategy_issued reg st" "lower_strategy (st_policy st) = Inr prog"
  shows "\<exists>a. escape_checker_result reg st = Some (Inr a)"
proof -
  obtain v s where v: "st_canonicalization_version st = Some v" "reg v = Some s"
    using assms(1) by (auto simp: strategy_issued_def split: option.splits)
  obtain an where an: "analyze prog = Some an" by (simp add: analyze_eq Let_def)
  let ?cz = "\<lparr>cz_version = v, cz_compute_digest = s\<rparr>"
  let ?c = "\<lparr>ad_candidate = prog, ad_verdict = an_verdict an, ad_reasons = an_reasons an,
      ad_enforcement_mechanism_version = ESCAPE_CHECKER_ENFORCEMENT_VERSION,
      ad_dsl_version = st_dsl_version st, ad_strategy_id = st_strategy_id st,
      ad_strategy_digest = st_canonical_digest st\<rparr>"
  have ne: "prog \<noteq> []" by (rule lowered_nonempty[OF assms(2)])
  have "bound_scheme reg ?cz" using v by (simp add: bound_scheme_def)
  moreover have "verdict_matches_predicate ?c"
    using ne an analyze_verdict(1)[OF an ne] by (simp add: verdict_matches_predicate_def)
  moreover have "missing_required_fields admissibility_class ?c = []"
    using assms(1) by (simp add: missing_iff admissibility_class_def verdict_json_def strategy_issued_def
        ESCAPE_CHECKER_ENFORCEMENT_VERSION_def flip: jopt_concrete)
  moreover have "admissibility_result_id st \<noteq> ''TBD''" by (simp add: admissibility_result_id_def)
  ultimately show ?thesis
    using issue_checked_iff[of reg ?cz admissibility_class verdict_matches_predicate ?c
        "Some (admissibility_result_id st)"]
    by (simp add: escape_checker_result_def assms(2) an v get_scheme_def fmt_def)
qed

text \<open>All declared targets lie in one usable scope.\<close>

definition targets_in :: "scope_key \<Rightarrow> decision_policy \<Rightarrow> bool" where
  "targets_in k p =
    (iter_targets p \<noteq> [] \<and> list_all (\<lambda>t. target_scope t = (Some (fst k), Some (snd k))) (iter_targets p))"

lemma first_seen_single: "first_seen xs = [x] \<longleftrightarrow> xs \<noteq> [] \<and> (\<forall>y \<in> set xs. y = x)"
proof
  assume s: "first_seen xs = [x]"
  have "set (first_seen xs) = set xs" by simp
  with s show "xs \<noteq> [] \<and> (\<forall>y \<in> set xs. y = x)" by auto
next
  assume "xs \<noteq> [] \<and> (\<forall>y \<in> set xs. y = x)"
  then have "set (first_seen xs) = {x}" "distinct (first_seen xs)"
    by (cases xs) (auto simp del: first_seen_from.simps intro: distinct_first_seen_from)
  then show "first_seen xs = [x]"
    by (cases "first_seen xs"; cases "tl (first_seen xs)") auto
qed

lemma derived_key_iff:
  assumes "st_policy st = Some p"
  shows "derive_instrument_key st = (Some k, []) \<longleftrightarrow> instrument_key_ok k \<and> targets_in k p"
    and "snd (derive_instrument_key st) = [] \<longleftrightarrow> (\<exists>k. instrument_key_ok k \<and> targets_in k p)"
proof -
  have one: "derive_instrument_key st = (Some k, []) \<longleftrightarrow>
      declared_target_scopes st = [(Some (fst k), Some (snd k))] \<and> instrument_key_ok k" for k
    by (cases k) (auto simp: derive_instrument_key_def split: list.splits option.splits)
  have scopes: "declared_target_scopes st = [(Some (fst k), Some (snd k))] \<longleftrightarrow> targets_in k p" for k
    using assms by (simp add: declared_target_scopes_def first_seen_single targets_in_def list_all_iff)
  show "derive_instrument_key st = (Some k, []) \<longleftrightarrow> instrument_key_ok k \<and> targets_in k p"
    using one scopes by blast
  have "snd (derive_instrument_key st) = [] \<longleftrightarrow> (\<exists>k. derive_instrument_key st = (Some k, []))"
    by (auto simp: derive_instrument_key_def split: list.split option.split)
  then show "snd (derive_instrument_key st) = [] \<longleftrightarrow> (\<exists>k. instrument_key_ok k \<and> targets_in k p)"
    using one scopes by blast
qed

text \<open>What the gate asks of a policy, without running anything.\<close>

definition policy_admissible :: "decision_policy \<Rightarrow> scope_key \<Rightarrow> bool" where
  "policy_admissible p k =
    (list_all compare_has_capsule_operand (iter_outcome_gating_compares p) \<and>
     list_all source_admissible (policy_operands p) \<and> instrument_key_ok k \<and> targets_in k p)"

lemma admitted_D:
  assumes "strategy_admissible reg st = Some (Inr am)" "am_verdict am = STRATEGY_ADMISSIBLE"
  shows "st_status st = ISSUED \<and>
    (\<exists>p k. st_policy st = Some p \<and> am_instrument_key am = Some k \<and> policy_admissible p k)"
proof -
  obtain p where p: "st_policy st = Some p"
    using assms by (cases "st_policy st") (auto simp: strategy_admissible_def Let_def)
  obtain key rs where key: "derive_instrument_key st = (key, rs)" by (metis surj_pair)
  have issued: "st_status st = ISSUED"
    using assms p key by (auto simp: strategy_admissible_def Let_def split: if_splits option.splits sum.splits)
  obtain x where x: "escape_checker_result reg st = Some x" using escape_checker_returns by blast
  obtain a where a: "x = Inr a" using assms p issued x by (cases x) (auto simp: strategy_admissible_def Let_def)
  note e = escape_checker_Inr[OF x[unfolded a] p]
  have r: "filter (\<lambda>c. \<not> compare_has_capsule_operand c) (iter_outcome_gating_compares p) = []"
    "ad_reasons (ar_content a) = []" "rs = []" "am_instrument_key am = key"
    using assms p issued x a key e(2)
    by (auto simp: strategy_admissible_def Let_def split: if_splits)
  obtain k where "instrument_key_ok k \<and> targets_in k p"
    using derived_key_iff(2)[OF p] key r(3) by auto
  then have "derive_instrument_key st = (Some k, [])" "instrument_key_ok k \<and> targets_in k p"
    using derived_key_iff(1)[OF p] by blast+
  then show ?thesis
    using issued p r e(1) key by (auto simp: policy_admissible_def filter_empty_conv list_all_iff)
qed

lemma admitted_I:
  assumes "strategy_issued reg st" "st_policy st = Some p" "policy_ok p"
  shows "\<exists>am. strategy_admissible reg st = Some (Inr am) \<and>
    (\<forall>k. policy_admissible p k \<longrightarrow> am_verdict am = STRATEGY_ADMISSIBLE \<and> am_instrument_key am = Some k)"
proof -
  have ok: "\<And>v. v \<in> set (policy_operands p) \<Longrightarrow> source_admissible v \<and> op_ref v \<noteq> Some []"
    using policy_ok_operands[OF assms(3)] operand_ok_source by blast
  then obtain n where "lower_policy p = Inr n" using lower_policy_total by blast
  then have "lower_strategy (st_policy st) = Inr [n]" using assms(2) by (simp add: lower_strategy_def)
  from escape_checker_total[OF assms(1) this] obtain a where a: "escape_checker_result reg st = Some (Inr a)" by blast
  note e = escape_checker_Inr[OF a assms(2)]
  have issued: "st_status st = ISSUED" using assms(1) by (simp add: strategy_issued_def)
  obtain key rs where key: "derive_instrument_key st = (key, rs)" by (metis surj_pair)
  have "\<exists>am. strategy_admissible reg st = Some (Inr am)"
    using assms(2) a issued key by (simp add: strategy_admissible_def Let_def)
  then obtain am where am: "strategy_admissible reg st = Some (Inr am)" by blast
  have "am_verdict am = STRATEGY_ADMISSIBLE \<and> am_instrument_key am = Some k" if "policy_admissible p k" for k
  proof -
    have "derive_instrument_key st = (Some k, [])"
      using derived_key_iff(1)[OF assms(2)] that by (simp add: policy_admissible_def)
    moreover have "filter (\<lambda>c. \<not> compare_has_capsule_operand c) (iter_outcome_gating_compares p) = []"
      using that by (simp add: policy_admissible_def filter_empty_conv list_all_iff)
    moreover have "ad_reasons (ar_content a) = []" using e(1) that by (simp add: policy_admissible_def)
    ultimately show ?thesis using am assms(2) a issued e(2)
      by (auto simp: strategy_admissible_def Let_def)
  qed
  with am show ?thesis by blast
qed

text \<open>
  Admission is decided and means what it says: for an issued strategy whose policy passed its
  validators the gate always returns, without raising, and admits exactly when every comparison of
  every rule reads the capsule and all declared targets lie in one concrete, wildcard-free scope;
  that scope is then the dispatch key.
\<close>

theorem admission_decides:
  assumes "strategy_issued reg st" "st_policy st = Some p" "policy_ok p"
  shows "\<exists>am. strategy_admissible reg st = Some (Inr am) \<and>
    (am_verdict am = STRATEGY_ADMISSIBLE \<longleftrightarrow>
      list_all compare_has_capsule_operand (iter_outcome_gating_compares p) \<and>
      (\<exists>k. instrument_key_ok k \<and> targets_in k p \<and> am_instrument_key am = Some k))"
proof -
  obtain am where am: "strategy_admissible reg st = Some (Inr am)"
    and yes: "\<And>k. policy_admissible p k \<Longrightarrow> am_verdict am = STRATEGY_ADMISSIBLE \<and> am_instrument_key am = Some k"
    using admitted_I[OF assms] by blast
  have src: "list_all source_admissible (policy_operands p)"
    using policy_ok_operands[OF assms(3)] operand_ok_source by (auto simp: list_all_iff)
  show ?thesis
    by (rule exI[of _ am], intro conjI am)
      (use admitted_D[OF am] yes src assms(2) in \<open>auto simp: policy_admissible_def\<close>)
qed

section \<open>The registry keeps strategies in their scope\<close>

inductive registry_run :: "registry \<Rightarrow> strategy_registry \<Rightarrow> bool" for reg where
  empty: "registry_run reg []"
| declared: "registry_run reg r \<Longrightarrow> instrument_key_ok k \<Longrightarrow> registry_run reg (declare_key r k)"
| registered: "registry_run reg r \<Longrightarrow> register reg r st cfg asserted = Some (x, r') \<Longrightarrow> registry_run reg r'"

definition entry_ok :: "scope_key \<Rightarrow> registered_strategy \<Rightarrow> bool" where
  "entry_ok k e =
    (rg_instrument_key e = k \<and> st_status (rg_strategy e) = ISSUED \<and>
     (case st_policy (rg_strategy e) of None \<Rightarrow> False | Some p \<Rightarrow> policy_admissible p k))"

definition registry_ok :: "strategy_registry \<Rightarrow> bool" where
  "registry_ok r =
    (distinct (map fst r) \<and> list_all (\<lambda>(k, es). instrument_key_ok k \<and> list_all (entry_ok k) es) r)"

lemma setdefault_ok: "registry_ok r \<Longrightarrow> instrument_key_ok k \<Longrightarrow> registry_ok (setdefault k r)"
  by (auto simp: registry_ok_def setdefault_def map_of_eq_None_iff split: option.split)

lemma setdefault_lookup: "\<exists>es. map_of (setdefault k r) k = Some es"
  by (auto simp: setdefault_def map_add_def split: option.split)

lemma registry_lookup:
  "registry_ok r \<Longrightarrow> map_of r k = Some es \<Longrightarrow> instrument_key_ok k \<and> list_all (entry_ok k) es"
  unfolding registry_ok_def list_all_iff using map_of_SomeD[of r k es] by fast

lemma register_cases [consumes 1, case_names refused stored]:
  assumes "register reg r st cfg asserted = Some (x, r')"
  obtains (refused) e where "x = Inl e" "r' = r"
  | (stored) k es where "x = Inr \<lparr>rg_strategy = st, rg_config = cfg, rg_instrument_key = k\<rparr>"
      "entry_ok k \<lparr>rg_strategy = st, rg_config = cfg, rg_instrument_key = k\<rparr>" "instrument_key_ok k"
      "map_of (setdefault k r) k = Some es"
      "r' = dict_put k (es @ [\<lparr>rg_strategy = st, rg_config = cfg, rg_instrument_key = k\<rparr>]) (setdefault k r)"
proof -
  obtain y where y: "strategy_admissible reg st = Some y" using strategy_admissible_returns by blast
  show thesis
  proof (cases y)
    case (Inl e)
    then show thesis using assms y refused[of e] by (simp add: register_def)
  next
    case (Inr am)
    show thesis
    proof (cases "am_verdict am = STRATEGY_ADMISSIBLE")
      case False
      then show thesis using assms y Inr refused[of "''RegistrationRefused''"] by (simp add: register_def)
    next
      case True
      obtain p k where a: "st_status st = ISSUED" "st_policy st = Some p" "am_instrument_key am = Some k"
        "policy_admissible p k"
        using admitted_D[OF y[unfolded Inr] True] by blast
      obtain es where es: "map_of (setdefault k r) k = Some es" using setdefault_lookup by blast
      show thesis
      proof (cases "asserted \<noteq> None \<and> asserted \<noteq> Some k")
        case asked: True
        then show thesis using assms y Inr True a refused[of "''RegistrationRefused''"] by (simp add: register_def)
      next
        case False
        then have "x = Inr \<lparr>rg_strategy = st, rg_config = cfg, rg_instrument_key = k\<rparr>"
          "r' = dict_put k (es @ [\<lparr>rg_strategy = st, rg_config = cfg, rg_instrument_key = k\<rparr>]) (setdefault k r)"
          using assms y Inr True a es by (auto simp: register_def Let_def)
        with a es stored show thesis by (simp add: entry_ok_def policy_admissible_def)
      qed
    qed
  qed
qed

lemma registry_run_ok: "registry_run reg r \<Longrightarrow> registry_ok r"
proof (induction rule: registry_run.induct)
  case empty
  show ?case by (simp add: registry_ok_def)
next
  case (declared r k)
  then show ?case by (simp add: declare_key_def setdefault_ok)
next
  case (registered r st cfg asserted x r')
  from registered.hyps(2) show ?case
  proof (cases rule: register_cases)
    case refused
    then show ?thesis using registered.IH by simp
  next
    case (stored k es)
    have ok: "registry_ok (setdefault k r)" using registered.IH stored(3) by (rule setdefault_ok)
    have "list_all (entry_ok k) (es @ [\<lparr>rg_strategy = st, rg_config = cfg, rg_instrument_key = k\<rparr>])"
      using registry_lookup[OF ok stored(4)] stored(2) by simp
    then show ?thesis using ok set_dict_put[of "setdefault k r" k] stored(3,5)
      by (auto simp: registry_ok_def list_all_iff distinct_dict_put)
  qed
qed

lemma evaluate_policy_member: "evaluate_policy p env \<in> set (iter_decisions p)"
  by (simp add: evaluate_policy_passed iter_decisions_def)

lemma selected_targets_in:
  "targets_in k p \<Longrightarrow> t \<in> set (decision_targets (evaluate_policy p env)) \<Longrightarrow>
    target_scope t = (Some (fst k), Some (snd k))"
  using evaluate_policy_member[of p env] by (auto simp: targets_in_def iter_targets_def list_all_iff)

text \<open>
  A dispatched strategy stays in its scope: whatever was declared and registered, accepted or
  refused, every strategy that a lookup dispatches under a key is issued, is filed under the concrete
  key derived from it, reads the capsule in every comparison, refers to no ambient source, and in no
  environment whatsoever selects a target outside that account and instrument.
\<close>

theorem dispatched_strategies_stay_in_scope:
  assumes "registry_run reg r" "resolve r k = DISPATCHED es" "e \<in> set es"
  shows "rg_instrument_key e = k \<and> instrument_key_ok k \<and> st_status (rg_strategy e) = ISSUED \<and>
    (\<exists>p. st_policy (rg_strategy e) = Some p \<and>
      list_all compare_has_capsule_operand (iter_outcome_gating_compares p) \<and>
      list_all source_admissible (policy_operands p) \<and>
      (\<forall>env. list_all (\<lambda>t. ts_account t = Some (fst k) \<and> ts_instrument t = Some (snd k))
        (decision_targets (evaluate_policy p env))))"
proof -
  have "map_of r k = Some es" using assms(2) by (auto simp: resolve_def split: option.splits if_splits)
  from registry_lookup[OF registry_run_ok[OF assms(1)] this] have
    ok: "instrument_key_ok k" "entry_ok k e" using assms(3) by (auto simp: list_all_iff)
  then obtain p where p: "st_policy (rg_strategy e) = Some p" "policy_admissible p k"
    by (auto simp: entry_ok_def split: option.splits)
  have "list_all (\<lambda>t. ts_account t = Some (fst k) \<and> ts_instrument t = Some (snd k))
      (decision_targets (evaluate_policy p env))" for env
    using selected_targets_in[of k p _ env] p(2)
    by (auto simp: policy_admissible_def list_all_iff target_scope_def)
  then show ?thesis using ok p by (auto simp: entry_ok_def policy_admissible_def)
qed

section \<open>A registration\<close>

definition demo_key :: scope_key where
  "demo_key = (''A'', ''X'')"

lemma demo_admissible: "policy_admissible (demo_policy ''capsule'') demo_key"
  by (simp add: policy_admissible_def demo_policy_def demo_ref_def demo_action_def demo_no_action_def
      demo_target_def demo_key_def iter_outcome_gating_compares_def compare_has_capsule_operand_def
      operand_source_def admissible_context_sources_def CAPSULE_CONTEXT_SOURCE_def policy_operands_def
      compare_operands_def source_admissible_def instrument_key_ok_def blank_def white_space_def
      is_wildcard_def WILDCARD_TOKENS_def lower_str_def lower_char_def targets_in_def iter_targets_def
      iter_decisions_def decision_targets_def target_scope_def)

lemma demo_issued: "strategy_issued demo_registry (demo_strategy p)"
  by (simp add: strategy_issued_def demo_strategy_def concrete_def demo_registry_def)

lemma demo_policy_field [simp]: "st_policy (demo_strategy p) = Some p"
  by (simp add: demo_strategy_def)

theorem admission_decides_witness:
  "\<exists>am. strategy_admissible demo_registry (demo_strategy (demo_policy ''capsule'')) = Some (Inr am) \<and>
    am_verdict am = STRATEGY_ADMISSIBLE"
proof -
  obtain am where am: "strategy_admissible demo_registry (demo_strategy (demo_policy ''capsule'')) = Some (Inr am)"
    "am_instrument_key am = Some demo_key"
    using admitted_I[OF demo_issued demo_policy_field demo_policy_ok] demo_admissible by blast
  from admission_decides[OF demo_issued demo_policy_field demo_policy_ok]
  have "am_verdict am = STRATEGY_ADMISSIBLE"
    unfolding am(1) using demo_admissible am(2) by (fastforce simp only: policy_admissible_def sum.inject option.inject)
  with am show ?thesis by blast
qed

lemma demo_registered:
  "\<exists>r e. registry_run demo_registry r \<and> resolve r demo_key = DISPATCHED [e] \<and>
    rg_strategy e = demo_strategy (demo_policy ''capsule'') \<and> rg_config e = demo_evaluation_config"
proof -
  obtain am where am: "strategy_admissible demo_registry (demo_strategy (demo_policy ''capsule'')) = Some (Inr am)"
    "am_verdict am = STRATEGY_ADMISSIBLE" "am_instrument_key am = Some demo_key"
    using admitted_I[OF demo_issued demo_policy_field demo_policy_ok] demo_admissible by blast
  let ?e = "\<lparr>rg_strategy = demo_strategy (demo_policy ''capsule''), rg_config = demo_evaluation_config,
      rg_instrument_key = demo_key\<rparr>"
  have "register demo_registry [] (demo_strategy (demo_policy ''capsule'')) demo_evaluation_config None =
      Some (Inr ?e, [(demo_key, [?e])])"
    by (simp add: register_def am Let_def setdefault_def)
  from registry_run.registered[OF registry_run.empty this] show ?thesis
    by (intro exI[of _ "[(demo_key, [?e])]"] exI[of _ ?e]) (simp add: resolve_def)
qed

theorem dispatched_strategies_stay_in_scope_witness:
  "\<exists>r e. resolve r demo_key = DISPATCHED [e] \<and> rg_instrument_key e = demo_key \<and> instrument_key_ok demo_key"
proof -
  obtain r e where re: "registry_run demo_registry r" "resolve r demo_key = DISPATCHED [e]"
    using demo_registered by blast
  have "e \<in> set [e]" by simp
  from dispatched_strategies_stay_in_scope[OF re this] re(2) show ?thesis by blast
qed

end
