(* ===== verification/Engine_Records.thy ===== *)
theory Engine_Records
  imports Strategy_Admission Trusted_Time Ordering
begin

text \<open>
  The vocabulary and records the engine's pipeline, sequencer and core share:
  \<^verbatim>\<open>tos/engine/vocabulary.py\<close>, \<^verbatim>\<open>tos/engine/records.py\<close> and the evidence sink \<^verbatim>\<open>tos/engine/sink.py\<close>.
  An evidence record keeps every field but the explanatory \<^verbatim>\<open>detail\<close> text and the constant all-false
  authority block; the sink keeps the records in order of arrival.
\<close>

section \<open>The commitment flow\<close>

datatype commitment_step =
  DECISION_PROPOSAL | CANDIDATE_COMMAND_CONSTRUCTION | VENUE_ADMISSIBILITY_DECISION
| INDEPENDENT_APPROVAL | ECONOMIC_EFFECT_ENVELOPE | AGGREGATE_RISK_DECISION | ACTION_FLOW_DECISION
| LEDGER_VERIFICATION | ATOMIC_COMMIT | COMMITMENT_UNAVAILABILITY | ORDER_CONFORMANCE_PROOF
| ATTEMPT_REQUEST | ATTEMPT_BIND_VERIFICATION | TRANSMISSION_CAPABILITY
| SEND_BOUNDARY_VERIFICATION | SEND_STARTED_DURABLE | POTENTIALLY_LIVE_TRANSITION | NETWORK_CALL
| EVIDENCE_RECORD

definition COMMITMENT_FLOW_ORDER :: "commitment_step list" where
  "COMMITMENT_FLOW_ORDER =
    [DECISION_PROPOSAL, CANDIDATE_COMMAND_CONSTRUCTION, VENUE_ADMISSIBILITY_DECISION,
     INDEPENDENT_APPROVAL, ECONOMIC_EFFECT_ENVELOPE, AGGREGATE_RISK_DECISION, ACTION_FLOW_DECISION,
     LEDGER_VERIFICATION, ATOMIC_COMMIT, COMMITMENT_UNAVAILABILITY, ORDER_CONFORMANCE_PROOF,
     ATTEMPT_REQUEST, ATTEMPT_BIND_VERIFICATION, TRANSMISSION_CAPABILITY,
     SEND_BOUNDARY_VERIFICATION, SEND_STARTED_DURABLE, POTENTIALLY_LIVE_TRANSITION, NETWORK_CALL,
     EVIDENCE_RECORD]"

definition SEND_BOUNDARY_STEPS :: "commitment_step list" where
  "SEND_BOUNDARY_STEPS = dropWhile (\<lambda>s. s \<noteq> SEND_BOUNDARY_VERIFICATION) COMMITMENT_FLOW_ORDER"

definition SEQUENCED_STEPS :: "commitment_step list" where
  "SEQUENCED_STEPS = filter (\<lambda>s. s \<notin> set SEND_BOUNDARY_STEPS) COMMITMENT_FLOW_ORDER"

definition COORDINATOR_REALIZED_STEPS :: "commitment_step list" where
  "COORDINATOR_REALIZED_STEPS = [DECISION_PROPOSAL, ATTEMPT_REQUEST]"

definition INJECTED_STAGE_STEPS :: "commitment_step list" where
  "INJECTED_STAGE_STEPS = filter (\<lambda>s. s \<notin> set COORDINATOR_REALIZED_STEPS) SEQUENCED_STEPS"

lemma sequenced_steps:
  "SEQUENCED_STEPS =
    [DECISION_PROPOSAL, CANDIDATE_COMMAND_CONSTRUCTION, VENUE_ADMISSIBILITY_DECISION,
     INDEPENDENT_APPROVAL, ECONOMIC_EFFECT_ENVELOPE, AGGREGATE_RISK_DECISION, ACTION_FLOW_DECISION,
     LEDGER_VERIFICATION, ATOMIC_COMMIT, COMMITMENT_UNAVAILABILITY, ORDER_CONFORMANCE_PROOF,
     ATTEMPT_REQUEST, ATTEMPT_BIND_VERIFICATION, TRANSMISSION_CAPABILITY]"
  by (simp add: SEQUENCED_STEPS_def SEND_BOUNDARY_STEPS_def COMMITMENT_FLOW_ORDER_def)

definition step_number :: "commitment_step \<Rightarrow> nat" where
  "step_number s = length (takeWhile (\<lambda>t. t \<noteq> s) COMMITMENT_FLOW_ORDER) + 1"

datatype stage_outcome = ADMIT | DENY | OUTCOME_UNKNOWN

datatype stage_authority_class =
  AVAILABLE_PURE_PREDICATE | NON_AUTHORITATIVE_PROVISIONAL | DEFERRED_SEND_BOUNDARY

record stage_verdict =
  sv_step :: commitment_step
  sv_outcome :: stage_outcome
  sv_authority_class :: stage_authority_class
  sv_native_verdict_type :: "pystr option"
  sv_native_verdict_value :: "pystr option"
  sv_bound_digest :: "pystr option"
  sv_bound_identity :: "pystr option"
  sv_reason :: "pystr option"

record attempt_request =
  at_attempt_id :: pystr
  at_conformance_proof_digest :: pystr
  at_action_flow_permit_identity :: pystr
  at_reference_coordinate_digest :: pystr

record stage_request =
  sr_step :: commitment_step
  sr_instrument_key :: scope_key
  sr_proposal :: proposal
  sr_reference :: ordering_event
  sr_prior_verdicts :: "stage_verdict list"
  sr_attempt :: "attempt_request option"
  sr_value_view :: "context_value_view option"
  sr_held_position_magnitude :: "pydec option"

record send_handoff =
  so_accepted_for_transmission :: "bool option"
  so_handoff_reference :: "pystr option"

section \<open>Evidence\<close>

datatype halt_reason =
  REGISTRY_MISSING | REGISTRY_EXPLICIT_EMPTY | EVENT_STRATEGY_KEY_MISMATCH | CAPSULE_ABSENT | CAPSULE_NOT_ISSUED
| CAPSULE_INCOMPLETE | CAPSULE_SCOPE_MISMATCH | TIME_NOT_ADMITTED | DEGRADED_BOUND_EXHAUSTED
| NO_ACTION_OUTCOME | VECTOR_OUTCOME_UNSUPPORTED | PROPOSAL_SCOPE_MISMATCH | STAGE_MISSING
| STAGE_VERDICT_ABSENT | STAGE_VERDICT_STEP_MISMATCH | STAGE_DENIED | STAGE_UNKNOWN | STAGE_RAISED
| ATTEMPT_BINDING_INCOMPLETE | AT_MOST_ONE_EXPOSURE_HELD | EVENT_ORDER_REVERSED
| HALT_RESULT_UNMATCHED | TRANSMIT_UNAVAILABLE | TRANSMIT_RAISED | AUTHORITY_NOT_CURRENT
| LIVE_SCOPE_NOT_AUTHORIZED

datatype evidence_kind =
  REGISTRATION_REFUSED | EVENT_REFUSED | DECISION_WITHHELD | DECISION_DEGRADED
| DECISION_OUTCOME_EMITTED | FLOW_STEP_ADMITTED | FLOW_HALTED | ATTEMPT_REQUEST_CREATED
| SEND_HANDED_OFF | EGRESS_RESULT_CONSUMED | RESULT_UNMATCHED | COORDINATOR_PRECONDITION_REFUSED
| CORPORATE_ACTION_CONSUMED

record engine_evidence_record =
  ee_kind :: evidence_kind
  ee_instrument_key :: "scope_key option"
  ee_step :: "commitment_step option"
  ee_event_id :: "pystr option"
  ee_halt_reason :: "halt_reason option"
  ee_stage_outcome :: "stage_outcome option"
  ee_authority_class :: "stage_authority_class option"
  ee_bound_identity :: "pystr option"
  ee_bound_digest :: "pystr option"
  ee_egress_result_kind :: "egress_result_kind option"
  ee_result_disposition :: "result_disposition option"
  ee_nontrade_disposition :: "pystr option"
  ee_capacity_state :: "capacity_state option"
  ee_knowledge :: "egress_knowledge option"
  ee_filled_quantity :: "pydec option"
  ee_remaining_quantity :: "pydec option"
  ee_broker_execution_id :: "pystr option"
  ee_trading_date :: "pystr option"
  ee_outcome_type :: "pystr option"
  ee_outcome_digest :: "pystr option"
  ee_capsule_id :: "pystr option"
  ee_capsule_digest :: "pystr option"
  ee_strategy_version :: "pystr option"
  ee_config_version :: "pystr option"
  ee_attempt_id :: "pystr option"

text \<open>A record of a kind for a scope, its other fields at their defaults.\<close>

definition evidence :: "evidence_kind \<Rightarrow> scope_key \<Rightarrow> engine_evidence_record" where
  "evidence kind key =
    \<lparr>ee_kind = kind, ee_instrument_key = Some key, ee_step = None, ee_event_id = None,
     ee_halt_reason = None, ee_stage_outcome = None, ee_authority_class = None,
     ee_bound_identity = None, ee_bound_digest = None, ee_egress_result_kind = None,
     ee_result_disposition = None, ee_nontrade_disposition = None, ee_capacity_state = None,
     ee_knowledge = None, ee_filled_quantity = None, ee_remaining_quantity = None,
     ee_broker_execution_id = None, ee_trading_date = None, ee_outcome_type = None,
     ee_outcome_digest = None, ee_capsule_id = None, ee_capsule_digest = None,
     ee_strategy_version = None, ee_config_version = None, ee_attempt_id = None\<rparr>"

lemma evidence_sel [simp]: "ee_kind (evidence kind key) = kind" "ee_instrument_key (evidence kind key) = Some key"
  "ee_halt_reason (evidence kind key) = None"
  by (simp_all add: evidence_def)

type_synonym sink = "engine_evidence_record list"

definition record_evidence :: "sink \<Rightarrow> engine_evidence_record \<Rightarrow> sink" where
  "record_evidence sink r = sink @ [r]"

section \<open>Decision ticks\<close>

record time_admission_inputs =
  ti_source_age :: "int option"
  ti_delay_bounds :: "int option list"
  ti_max_age_bound :: "int option"
  ti_future_tolerance :: "int option"
  ti_snapshot_age_bound :: "int option"
  ti_maximum_consumer_age_ms :: "int option"
  ti_session_context :: "session_context option"
  ti_uncertainty_interval :: "uncertainty_interval option"
  ti_health_state :: "health_state option"

record decision_tick_payload =
  dt_instrument_key :: scope_key
  dt_capsule :: decision_context_capsule
  dt_time :: time_admission_inputs
  dt_reference :: ordering_event
  dt_value_view :: "context_value_view option"

record engine_configuration =
  cg_dsl_evaluation_budget_steps :: int
  cg_max_unresolved_send_per_scope :: int
  cg_canonicalization_version :: pystr
  cg_enforcement_mechanism_version :: pystr

definition engine_configuration_ok :: "engine_configuration \<Rightarrow> bool" where
  "engine_configuration_ok c =
    (if cg_dsl_evaluation_budget_steps c < 0 \<or> cg_max_unresolved_send_per_scope c < 0 then False
     else \<not> (blank (cg_canonicalization_version c) \<or> blank (cg_enforcement_mechanism_version c)))"

end
