(* ===== verification/Engine_Pipeline.thy ===== *)
theory Engine_Pipeline
  imports Engine_Records
begin

text \<open>
  The decision pipeline \<^verbatim>\<open>tos/engine/pipeline.py\<close>: the gates of time and capsule, the budget, the
  evaluation, the scope check of the emitted proposal, each stop with its evidence.  A run that
  raises yields the error with the sink as it is then.
\<close>

section \<open>Gates\<close>

definition time_admits :: "time_admission_inputs \<Rightarrow> bool \<times> pystr option" where
  "time_admits inputs =
    (if freshness_verdict (ti_source_age inputs) (ti_delay_bounds inputs) (ti_max_age_bound inputs)
          (ti_future_tolerance inputs) \<noteq> FRESH
     then (False, Some ''freshness verdict is not FRESH'')
     else if \<not> snapshot_age_admissible (ti_snapshot_age_bound inputs) (ti_maximum_consumer_age_ms inputs)
     then (False, Some ''snapshot age bound is inadmissible or unestablished'')
     else case (ti_session_context inputs, ti_uncertainty_interval inputs) of
       (Some session, Some interval) \<Rightarrow>
         if \<not> session_open_positively session interval
         then (False, Some ''the session is not positively, unambiguously open'')
         else (case ti_health_state inputs of
             None \<Rightarrow> (False, Some ''time health state is absent'')
           | Some h \<Rightarrow>
               if \<not> state_permits_new_normal_risk h
               then (False, Some ''time health state does not permit new normal risk'')
               else (True, None))
     | _ \<Rightarrow> (False, Some ''session context / uncertainty interval is absent''))"

definition capsule_admitted :: "decision_tick_payload \<Rightarrow> halt_reason option" where
  "capsule_admitted payload =
    (let capsule = dt_capsule payload; key = dt_instrument_key payload
     in if cp_status capsule \<noteq> ISSUED then Some CAPSULE_NOT_ISSUED
        else if cp_canonical_digest capsule = None \<or> cp_capsule_id capsule = None then Some CAPSULE_INCOMPLETE
        else if cp_missing_required_fields capsule \<noteq> [] then Some CAPSULE_INCOMPLETE
        else if cp_scope_account capsule \<noteq> Some (fst key) \<or> cp_scope_instrument capsule \<noteq> Some (snd key)
        then Some CAPSULE_SCOPE_MISMATCH
        else if \<not> fst (time_admits (dt_time payload)) then Some TIME_NOT_ADMITTED
        else None)"

section \<open>The pipeline\<close>

record pipeline_result =
  pr_instrument_key :: scope_key
  pr_halt_reason :: "halt_reason option"
  pr_proposal :: "proposal option"
  pr_outcome :: "outcome option"
  pr_signature :: "recorded_input_signature option"
  pr_bound_state :: "bound_state option"
  pr_work_steps :: "int option"

definition degraded :: "pipeline_result \<Rightarrow> bool" where
  "degraded r = (pr_halt_reason r = Some DEGRADED_BOUND_EXHAUSTED)"

fun outcome_digest_of :: "outcome \<Rightarrow> pystr option" where
  "outcome_digest_of (NoActionOut a) = ar_canonical_digest a"
| "outcome_digest_of (ProposalOut a) = ar_canonical_digest a"
| "outcome_digest_of (VectorOut a) = ar_canonical_digest a"

fun outcome_type_of :: "outcome \<Rightarrow> pystr" where
  "outcome_type_of (NoActionOut a) = ''NoActionOutcome''"
| "outcome_type_of (ProposalOut a) = ''Proposal''"
| "outcome_type_of (VectorOut a) = ''PortfolioVector''"

definition pipeline_outcome_digest :: "pipeline_result \<Rightarrow> pystr option" where
  "pipeline_outcome_digest r = (case pr_outcome r of None \<Rightarrow> None | Some oc \<Rightarrow> outcome_digest_of oc)"

definition withheld ::
  "sink \<Rightarrow> scope_key \<Rightarrow> halt_reason \<Rightarrow> outcome option \<Rightarrow> recorded_input_signature option \<Rightarrow>
    bound_state option \<Rightarrow> int option \<Rightarrow> pipeline_result \<times> sink" where
  "withheld sink key halt oc sig bs ws =
    (\<lparr>pr_instrument_key = key, pr_halt_reason = Some halt, pr_proposal = None, pr_outcome = oc,
      pr_signature = sig, pr_bound_state = bs, pr_work_steps = ws\<rparr>,
     record_evidence sink ((evidence DECISION_WITHHELD key)
       \<lparr>ee_halt_reason := Some halt, ee_outcome_type := map_option outcome_type_of oc,
        ee_outcome_digest := (case oc of None \<Rightarrow> None | Some x \<Rightarrow> outcome_digest_of x)\<rparr>))"

definition DEGRADED_RATIONALE :: pystr where
  "DEGRADED_RATIONALE = ''bounded evaluation exhausted its injected symbolic budget before evaluation -- degraded to no-action for the strategy scope (DCE-INV-007; design #31 sec. 3.4)''"

definition degraded_no_action ::
  "registry \<Rightarrow> canonicalizer \<Rightarrow> registered_strategy \<Rightarrow> decision_tick_payload \<Rightarrow>
    (pystr, no_action_outcome) result" where
  "degraded_no_action reg cz entry payload =
    issue_checked reg no_action_class no_action_ok cz
      (no_action_of DEGRADED_RATIONALE (rg_strategy entry) (rg_config entry) (dt_capsule payload))
      (Some (outcome_id ''degraded'' (rg_strategy entry) (rg_config entry) (dt_capsule payload)))"

text \<open>An emitted outcome: its evidence carries the provenance of the recorded signature.\<close>

definition emitted ::
  "scope_key \<Rightarrow> halt_reason option \<Rightarrow> outcome \<Rightarrow> recorded_input_signature \<Rightarrow> engine_evidence_record" where
  "emitted key halt oc sig =
    (evidence DECISION_OUTCOME_EMITTED key)
      \<lparr>ee_halt_reason := halt, ee_outcome_type := Some (outcome_type_of oc),
       ee_outcome_digest := outcome_digest_of oc, ee_capsule_id := rs_capsule_id sig,
       ee_capsule_digest := rs_capsule_canonical_digest sig,
       ee_strategy_version := rs_authored_strategy_version sig,
       ee_config_version := rs_config_version sig\<rparr>"

text \<open>The last phase: what is recorded and returned for an evaluated outcome.\<close>

definition emit_outcome ::
  "scope_key \<Rightarrow> bound_state \<Rightarrow> int \<Rightarrow> outcome \<Rightarrow> recorded_input_signature \<Rightarrow> sink \<Rightarrow>
    pipeline_result \<times> sink" where
  "emit_outcome key bs work_steps oc sig sink =
    (let stop = (\<lambda>halt. withheld sink key halt (Some oc) (Some sig) (Some bs) (Some work_steps));
         emit = (\<lambda>halt p.
           (\<lparr>pr_instrument_key = key, pr_halt_reason = halt, pr_proposal = p, pr_outcome = Some oc,
             pr_signature = Some sig, pr_bound_state = Some bs, pr_work_steps = Some work_steps\<rparr>,
            record_evidence sink (emitted key halt oc sig)))
     in case oc of
       VectorOut v \<Rightarrow> stop VECTOR_OUTCOME_UNSUPPORTED
     | NoActionOut a \<Rightarrow> emit (Some NO_ACTION_OUTCOME) None
     | ProposalOut a \<Rightarrow>
         if pc_account (ar_content a) \<noteq> Some (fst key) \<or> pc_instrument (ar_content a) \<noteq> Some (snd key)
         then stop PROPOSAL_SCOPE_MISMATCH
         else emit None (Some a))"

text \<open>The degradation of a policy whose work exceeds the budget.\<close>

definition emit_degraded ::
  "registered_strategy \<Rightarrow> decision_tick_payload \<Rightarrow> bound_state \<Rightarrow> int \<Rightarrow> no_action_outcome \<Rightarrow> sink \<Rightarrow>
    pipeline_result \<times> sink" where
  "emit_degraded entry payload bs work_steps a sink =
    (\<lparr>pr_instrument_key = dt_instrument_key payload, pr_halt_reason = Some DEGRADED_BOUND_EXHAUSTED,
      pr_proposal = None, pr_outcome = Some (NoActionOut a), pr_signature = None,
      pr_bound_state = Some bs, pr_work_steps = Some work_steps\<rparr>,
     record_evidence sink ((evidence DECISION_DEGRADED (dt_instrument_key payload))
       \<lparr>ee_halt_reason := Some DEGRADED_BOUND_EXHAUSTED, ee_outcome_type := Some ''NoActionOutcome'',
        ee_outcome_digest := ar_canonical_digest a, ee_capsule_id := cp_capsule_id (dt_capsule payload),
        ee_capsule_digest := cp_canonical_digest (dt_capsule payload),
        ee_strategy_version := st_canonical_digest (rg_strategy entry),
        ee_config_version := Some (ec_config_version (rg_config entry))\<rparr>))"

text \<open>
  \<^verbatim>\<open>select_outcome\<close> picks the degradation when the bound is exhausted and the evaluated outcome when it
  is not, so it is the case distinction on the bound.
\<close>

definition run_decision_pipeline ::
  "registry \<Rightarrow> canonicalizer \<Rightarrow> engine_configuration \<Rightarrow> registered_strategy \<Rightarrow> decision_tick_payload \<Rightarrow>
    sink \<Rightarrow> (pystr, pipeline_result) result \<times> sink" where
  "run_decision_pipeline reg cz cg entry payload sink =
    (let key = dt_instrument_key payload;
         stop = (\<lambda>halt. map_prod Inr id (withheld sink key halt None None None None))
     in if rg_instrument_key entry \<noteq> key then stop EVENT_STRATEGY_KEY_MISMATCH
        else case capsule_admitted payload of
          Some halt \<Rightarrow> stop halt
        | None \<Rightarrow>
            (case st_policy (rg_strategy entry) of
              None \<Rightarrow> stop CAPSULE_INCOMPLETE
            | Some policy \<Rightarrow>
                (let work_steps = policy_work_steps policy
                 in case resolve_bound work_steps (cg_dsl_evaluation_budget_steps cg) of
                   Inl e \<Rightarrow> (Inl e, sink)
                 | Inr bs \<Rightarrow>
                     if degrades_to_no_action bs then
                       (case degraded_no_action reg cz entry payload of
                          Inl e \<Rightarrow> (Inl e, sink)
                        | Inr a \<Rightarrow> map_prod Inr id (emit_degraded entry payload bs work_steps a sink))
                     else case evaluate_resolved reg cz (cg_enforcement_mechanism_version cg)
                         (rg_strategy entry) (dt_capsule payload) (rg_config entry) (dt_value_view payload) of
                       Inl e \<Rightarrow> (Inl e, sink)
                     | Inr (oc, sig) \<Rightarrow> map_prod Inr id (emit_outcome key bs work_steps oc sig sink))))"

section \<open>What a run establishes\<close>

definition time_established :: "time_admission_inputs \<Rightarrow> bool" where
  "time_established i =
    (freshness_verdict (ti_source_age i) (ti_delay_bounds i) (ti_max_age_bound i) (ti_future_tolerance i) = FRESH \<and>
     snapshot_age_admissible (ti_snapshot_age_bound i) (ti_maximum_consumer_age_ms i) \<and>
     (case (ti_session_context i, ti_uncertainty_interval i) of
        (Some session, Some interval) \<Rightarrow> session_open_positively session interval | _ \<Rightarrow> False) \<and>
     ti_health_state i = Some TRUSTED)"

lemma time_admits_iff: "fst (time_admits i) \<longleftrightarrow> time_established i"
  by (auto simp: time_admits_def time_established_def state_permits_new_normal_risk_def split: option.split)

lemma time_reason_iff: "snd (time_admits i) = None \<longleftrightarrow> fst (time_admits i)"
  by (simp add: time_admits_def split: option.split)

definition capsule_usable :: "decision_tick_payload \<Rightarrow> bool" where
  "capsule_usable payload =
    (let c = dt_capsule payload; key = dt_instrument_key payload
     in cp_status c = ISSUED \<and> cp_canonical_digest c \<noteq> None \<and> cp_capsule_id c \<noteq> None \<and>
        cp_missing_required_fields c = [] \<and> cp_scope_account c = Some (fst key) \<and>
        cp_scope_instrument c = Some (snd key) \<and> time_established (dt_time payload))"

lemma capsule_admitted_iff: "capsule_admitted payload = None \<longleftrightarrow> capsule_usable payload"
  by (auto simp: capsule_admitted_def capsule_usable_def time_admits_iff Let_def)

lemma withheld_sel [simp]:
  "pr_proposal (fst (withheld sink key halt oc sig bs ws)) = None"
  "pr_halt_reason (fst (withheld sink key halt oc sig bs ws)) = Some halt"
  "pr_instrument_key (fst (withheld sink key halt oc sig bs ws)) = key"
  by (simp_all add: withheld_def)

text \<open>Every phase appends one record, which carries the halt reason of the result.\<close>

definition recorded :: "sink \<Rightarrow> pipeline_result \<times> sink \<Rightarrow> bool" where
  "recorded sink rs =
    (\<exists>d. snd rs = sink @ [d] \<and> ee_halt_reason d = pr_halt_reason (fst rs) \<and>
      ee_instrument_key d = Some (pr_instrument_key (fst rs)) \<and>
      (pr_proposal (fst rs) \<noteq> None \<longrightarrow> pr_halt_reason (fst rs) = None \<and> ee_kind d = DECISION_OUTCOME_EMITTED \<and>
        ee_outcome_digest d = ar_canonical_digest (the (pr_proposal (fst rs)))))"

lemma withheld_recorded [simp]: "recorded sink (withheld sink key halt oc sig bs ws)"
  by (simp add: recorded_def withheld_def record_evidence_def)

lemma emit_degraded_recorded [simp]:
  "recorded sink (emit_degraded entry payload bs ws a sink)"
  "pr_proposal (fst (emit_degraded entry payload bs ws a sink)) = None"
  "pr_halt_reason (fst (emit_degraded entry payload bs ws a sink)) = Some DEGRADED_BOUND_EXHAUSTED"
  "pr_instrument_key (fst (emit_degraded entry payload bs ws a sink)) = dt_instrument_key payload"
  by (simp_all add: recorded_def emit_degraded_def record_evidence_def)

lemma emit_outcome_recorded [simp]:
  "recorded sink (emit_outcome key bs ws oc sig sink)"
  "pr_instrument_key (fst (emit_outcome key bs ws oc sig sink)) = key"
  by (cases oc; auto simp: recorded_def emit_outcome_def withheld_def record_evidence_def emitted_def Let_def)+

lemma emit_outcome_proposal:
  "pr_proposal (fst (emit_outcome key bs ws oc sig sink)) = Some a \<longleftrightarrow>
    oc = ProposalOut a \<and> component_key a = (Some (fst key), Some (snd key))"
  by (cases oc) (auto simp: emit_outcome_def component_key_def Let_def)

lemma emit_outcome_mismatch:
  "pr_halt_reason (fst (emit_outcome key bs ws oc sig sink)) = Some PROPOSAL_SCOPE_MISMATCH \<longleftrightarrow>
    (\<exists>a. oc = ProposalOut a \<and> component_key a \<noteq> (Some (fst key), Some (snd key)))"
  by (cases oc) (auto simp: emit_outcome_def component_key_def Let_def)

lemma resolve_bound_cases:
  obtains (negative) e where "resolve_bound w b = Inl e" "w < 0 \<or> b < 0"
  | (exhausted) "resolve_bound w b = Inr BOUND_EXHAUSTED" "b < w"
  | (within) "resolve_bound w b = Inr COMPLETED" "w \<le> b"
  by (cases "w < 0 \<or> b < 0"; cases "w \<le> b") (auto simp: resolve_bound_def)

text \<open>The ways a run goes.\<close>

lemma pipeline_cases [consumes 1, case_names early raised degraded evaluated]:
  assumes "run_decision_pipeline reg cz cg entry payload sink = (x, sink')"
  obtains
    (early) halt where
      "rg_instrument_key entry \<noteq> dt_instrument_key payload \<and> halt = EVENT_STRATEGY_KEY_MISMATCH \<or>
        capsule_admitted payload = Some halt \<or> st_policy (rg_strategy entry) = None \<and> halt = CAPSULE_INCOMPLETE"
      "map_prod Inr id (withheld sink (dt_instrument_key payload) halt None None None None) = (x, sink')"
  | (raised) e where "x = Inl e" "sink' = sink"
      "\<And>p. st_policy (rg_strategy entry) = Some p \<Longrightarrow>
        policy_work_steps p < 0 \<or> cg_dsl_evaluation_budget_steps cg < 0 \<or>
        (\<exists>e. degraded_no_action reg cz entry payload = Inl e) \<or>
        (\<exists>e. evaluate_resolved reg cz (cg_enforcement_mechanism_version cg) (rg_strategy entry)
          (dt_capsule payload) (rg_config entry) (dt_value_view payload) = Inl e)"
  | (degraded) ws a where "map_prod Inr id (emit_degraded entry payload BOUND_EXHAUSTED ws a sink) = (x, sink')"
  | (evaluated) p oc sig where
      "rg_instrument_key entry = dt_instrument_key payload" "capsule_admitted payload = None"
      "st_policy (rg_strategy entry) = Some p" "policy_work_steps p \<le> cg_dsl_evaluation_budget_steps cg"
      "evaluate_resolved reg cz (cg_enforcement_mechanism_version cg) (rg_strategy entry) (dt_capsule payload)
        (rg_config entry) (dt_value_view payload) = Inr (oc, sig)"
      "map_prod Inr id (emit_outcome (dt_instrument_key payload) COMPLETED (policy_work_steps p) oc sig sink) = (x, sink')"
proof (cases "rg_instrument_key entry = dt_instrument_key payload \<and> capsule_admitted payload = None")
  case False
  then show thesis
    using assms early[of EVENT_STRATEGY_KEY_MISMATCH] early[of "the (capsule_admitted payload)"]
    by (auto simp: run_decision_pipeline_def Let_def split: if_splits)
next
  case gates: True
  show thesis
  proof (cases "st_policy (rg_strategy entry)")
    case None
    then show thesis using gates assms early[of CAPSULE_INCOMPLETE] by (simp add: run_decision_pipeline_def Let_def)
  next
    case (Some p)
    show thesis
    proof (cases rule: resolve_bound_cases[of "policy_work_steps p" "cg_dsl_evaluation_budget_steps cg"])
      case (negative e)
      then show thesis using gates Some assms raised[of e] by (auto simp: run_decision_pipeline_def Let_def)
    next
      case exhausted
      then show thesis using gates Some assms raised degraded
        by (cases "degraded_no_action reg cz entry payload")
          (auto simp: run_decision_pipeline_def Let_def degrades_to_no_action_def)
    next
      case within
      then show thesis using gates Some assms raised evaluated
        by (cases "evaluate_resolved reg cz (cg_enforcement_mechanism_version cg) (rg_strategy entry)
            (dt_capsule payload) (rg_config entry) (dt_value_view payload)")
          (auto simp: run_decision_pipeline_def Let_def degrades_to_no_action_def)
    qed
  qed
qed

lemma pipeline_recorded:
  assumes "run_decision_pipeline reg cz cg entry payload sink = (Inr r, sink')"
  shows "recorded sink (r, sink') \<and> pr_instrument_key r = dt_instrument_key payload"
  using assms
proof (cases rule: pipeline_cases)
  case (early halt)
  then have "withheld sink (dt_instrument_key payload) halt None None None None = (r, sink')"
    by (cases "withheld sink (dt_instrument_key payload) halt None None None None") simp
  then show ?thesis by (metis withheld_recorded withheld_sel(3) fst_conv)
next
  case (degraded ws a)
  then have "emit_degraded entry payload BOUND_EXHAUSTED ws a sink = (r, sink')"
    by (cases "emit_degraded entry payload BOUND_EXHAUSTED ws a sink") simp
  then show ?thesis by (metis emit_degraded_recorded(1,4) fst_conv)
next
  case (evaluated p oc sig)
  then have "emit_outcome (dt_instrument_key payload) COMPLETED (policy_work_steps p) oc sig sink = (r, sink')"
    by (cases "emit_outcome (dt_instrument_key payload) COMPLETED (policy_work_steps p) oc sig sink") simp
  then show ?thesis by (metis emit_outcome_recorded fst_conv)
qed simp

lemma pipeline_appends:
  assumes "run_decision_pipeline reg cz cg entry payload sink = (x, sink')"
  shows "\<exists>ds. sink' = sink @ ds \<and>
    list_all (\<lambda>d. ee_kind d \<in> {DECISION_WITHHELD, DECISION_DEGRADED, DECISION_OUTCOME_EMITTED}) ds"
  using assms
proof (cases rule: pipeline_cases)
  case (evaluated p oc sig)
  then show ?thesis
    by (cases oc) (auto simp: emit_outcome_def withheld_def record_evidence_def emitted_def Let_def split: if_splits)
qed (auto simp: withheld_def emit_degraded_def record_evidence_def)

lemma map_Inr_eq [simp]:
  "map_prod Inr id y = (Inr r, s) \<longleftrightarrow> y = (r, s)" "map_prod Inr id y \<noteq> (Inl e, s)"
  by (cases y; simp)+

lemma pipeline_proposed:
  assumes "run_decision_pipeline reg cz cg entry payload sink = (Inr r, sink')" "pr_proposal r = Some a"
  obtains p sig where "rg_instrument_key entry = dt_instrument_key payload" "capsule_admitted payload = None"
    "st_policy (rg_strategy entry) = Some p" "policy_work_steps p \<le> cg_dsl_evaluation_budget_steps cg"
    "evaluate_resolved reg cz (cg_enforcement_mechanism_version cg) (rg_strategy entry) (dt_capsule payload)
      (rg_config entry) (dt_value_view payload) = Inr (ProposalOut a, sig)"
    "component_key a = (Some (fst (dt_instrument_key payload)), Some (snd (dt_instrument_key payload)))"
  using assms(1)
proof (cases rule: pipeline_cases)
  case (early halt)
  then have "withheld sink (dt_instrument_key payload) halt None None None None = (r, sink')" by simp
  then show thesis using assms(2) withheld_sel(1) by (metis fst_conv option.distinct(1))
next
  case (degraded ws b)
  then have "emit_degraded entry payload BOUND_EXHAUSTED ws b sink = (r, sink')" by simp
  then show thesis using assms(2) emit_degraded_recorded(2) by (metis fst_conv option.distinct(1))
next
  case (evaluated p oc sig)
  then have "emit_outcome (dt_instrument_key payload) COMPLETED (policy_work_steps p) oc sig sink = (r, sink')"
    by simp
  then show thesis using assms(2) evaluated(1-5) that
      emit_outcome_proposal[of "dt_instrument_key payload" COMPLETED "policy_work_steps p" oc sig sink a]
    by (metis fst_conv)
qed simp

text \<open>The proposal of a policy whose targets lie in one scope is in that scope.\<close>

lemma proposal_in_scope:
  assumes "evaluate_resolved reg cz v st capsule cfg view = Inr (ProposalOut a, sig)" "st_policy st = Some p"
    "targets_in k p"
  shows "component_key a = (Some (fst k), Some (snd k))"
proof -
  obtain q env t where t: "st_policy st = Some q" "dn_target (evaluate_policy q env) = Some t"
    "pc_account (ar_content a) = ts_account t" "pc_instrument (ar_content a) = ts_instrument t"
    using evaluated_proposal[OF assms(1)] unfolding Let_def by blast
  then have "t \<in> set (decision_targets (evaluate_policy p env))" using assms(2) by (simp add: decision_targets_def)
  from selected_targets_in[OF assms(3) this] t(3,4) show ?thesis
    by (simp add: component_key_def target_scope_def)
qed

lemma proposal_gates:
  assumes "run_decision_pipeline reg cz cg entry payload sink = (Inr r, sink')" "pr_proposal r = Some a"
  shows "rg_instrument_key entry = dt_instrument_key payload \<and> capsule_usable payload \<and>
    (\<exists>p. st_policy (rg_strategy entry) = Some p \<and> policy_work_steps p \<le> cg_dsl_evaluation_budget_steps cg) \<and>
    component_key a = (Some (fst (dt_instrument_key payload)), Some (snd (dt_instrument_key payload))) \<and>
    ar_status a = ISSUED \<and> construct reg proposal_class a = Inr a \<and>
    pc_capsule (ar_content a) = capsule_ref_of (dt_capsule payload) \<and>
    (\<exists>d. sink' = sink @ [d] \<and> ee_kind d = DECISION_OUTCOME_EMITTED \<and>
      ee_outcome_digest d = ar_canonical_digest a \<and> ee_halt_reason d = None)"
proof -
  obtain p sig where p: "rg_instrument_key entry = dt_instrument_key payload" "capsule_admitted payload = None"
    "st_policy (rg_strategy entry) = Some p" "policy_work_steps p \<le> cg_dsl_evaluation_budget_steps cg"
    "component_key a = (Some (fst (dt_instrument_key payload)), Some (snd (dt_instrument_key payload)))"
    and ev: "evaluate_resolved reg cz (cg_enforcement_mechanism_version cg) (rg_strategy entry)
      (dt_capsule payload) (rg_config entry) (dt_value_view payload) = Inr (ProposalOut a, sig)"
    using pipeline_proposed[OF assms] by metis
  have "recorded sink (r, sink')" using pipeline_recorded[OF assms(1)] by simp
  then have "\<exists>d. sink' = sink @ [d] \<and> ee_kind d = DECISION_OUTCOME_EMITTED \<and>
      ee_outcome_digest d = ar_canonical_digest a \<and> ee_halt_reason d = None"
    using assms(2) by (auto simp: recorded_def)
  with p capsule_admitted_iff evaluated_proposal[OF ev] show ?thesis by (auto simp: Let_def)
qed

text \<open>
  C36: a proposal passes every gate: when a run returns a proposal, the entry was registered under the
  key of the tick, the capsule is issued, complete and of that very scope, the time inputs are fresh,
  admissible, inside an open session and trusted, the policy's work fits the budget, and the proposal
  is an issued artifact for exactly this account and instrument, bound to this capsule, whose emission
  is the last record of the sink.
\<close>

theorem proposal_passes_every_gate:
  assumes "run_decision_pipeline reg cz cg entry payload sink = (Inr r, sink')" "pr_proposal r = Some a"
  shows "rg_instrument_key entry = dt_instrument_key payload \<and> capsule_usable payload \<and>
    (\<exists>p. st_policy (rg_strategy entry) = Some p \<and> policy_work_steps p \<le> cg_dsl_evaluation_budget_steps cg) \<and>
    component_key a = (Some (fst (dt_instrument_key payload)), Some (snd (dt_instrument_key payload))) \<and>
    ar_status a = ISSUED \<and> construct reg proposal_class a = Inr a \<and>
    pc_capsule (ar_content a) = capsule_ref_of (dt_capsule payload) \<and>
    (\<exists>d. sink' = sink @ [d] \<and> ee_kind d = DECISION_OUTCOME_EMITTED \<and>
      ee_outcome_digest d = ar_canonical_digest a \<and> ee_halt_reason d = None)"
  by (rule proposal_gates[OF assms])

lemma capsule_admitted_halt:
  "capsule_admitted payload = Some halt \<Longrightarrow> halt \<noteq> EVENT_STRATEGY_KEY_MISMATCH \<and> halt \<noteq> PROPOSAL_SCOPE_MISMATCH"
  by (auto simp: capsule_admitted_def Let_def split: if_splits)

lemma degraded_rationale_stated: "rationale_stated (Some DEGRADED_RATIONALE)"
  by (simp add: rationale_stated_def DEGRADED_RATIONALE_def blank_def white_space_def)

lemma degraded_no_action_returns:
  assumes "bound_scheme reg cz" "context_concrete (rg_strategy entry) (rg_config entry) (dt_capsule payload)"
  shows "\<exists>a. degraded_no_action reg cz entry payload = Inr a"
  unfolding degraded_no_action_def
  by (rule no_action_issued[OF assms]) (simp_all add: degraded_rationale_stated)

lemma work_steps_nonneg: "0 \<le> policy_work_steps p"
  by (simp add: policy_work_steps_def Let_def)

text \<open>A run neither raises nor stops on a mismatch.\<close>

definition runs_clean ::
  "decision_tick_payload \<Rightarrow> sink \<Rightarrow> (pystr, pipeline_result) result \<times> sink \<Rightarrow> bool" where
  "runs_clean payload sink run =
    (\<exists>r d. run = (Inr r, sink @ [d]) \<and> ee_halt_reason d = pr_halt_reason r \<and>
      ee_instrument_key d = Some (dt_instrument_key payload) \<and>
      pr_halt_reason r \<notin> {Some EVENT_STRATEGY_KEY_MISMATCH, Some PROPOSAL_SCOPE_MISMATCH})"

lemma recorded_clean:
  assumes "run_decision_pipeline reg cz cg entry payload sink = (Inr r, sink')"
    "pr_halt_reason r \<notin> {Some EVENT_STRATEGY_KEY_MISMATCH, Some PROPOSAL_SCOPE_MISMATCH}"
  shows "runs_clean payload sink (run_decision_pipeline reg cz cg entry payload sink)"
  using pipeline_recorded[OF assms(1)] assms by (auto simp: runs_clean_def recorded_def)

text \<open>
  A dispatched strategy runs to an end: for an entry that the registry dispatches under the key of
  the tick, with a scheme and inputs that are concrete, a non-negative budget, no name collision and
  decisions that are all complete, the pipeline never raises, leaves exactly one record with the halt
  reason of its result, and never stops on a key mismatch or on a proposal outside the scope.
\<close>

theorem dispatched_pipeline_returns:
  assumes "registry_run sreg sr" "resolve sr (dt_instrument_key payload) = DISPATCHED es" "entry \<in> set es"
    "bound_scheme reg cz" "context_concrete (rg_strategy entry) (rg_config entry) (dt_capsule payload)"
    "engine_configuration_ok cg"
    "build_environment (dt_capsule payload) (rg_config entry) (dt_value_view payload) = Inr env"
    "st_policy (rg_strategy entry) = Some p" "policy_ok p" "list_all decision_complete (iter_decisions p)"
  shows "runs_clean payload sink (run_decision_pipeline reg cz cg entry payload sink)"
proof -
  let ?k = "dt_instrument_key payload"
  have "map_of sr ?k = Some es" using assms(2) by (auto simp: resolve_def split: option.splits if_splits)
  from registry_lookup[OF registry_run_ok[OF assms(1)] this] have
    key: "rg_instrument_key entry = ?k" and adm: "policy_admissible p ?k"
    using assms(3,8) by (auto simp: list_all_iff entry_ok_def)
  have "decision_complete (evaluate_policy p env)"
    using evaluate_policy_member[of p env] assms(10) by (simp add: list_all_iff)
  then have ev: "\<exists>oc. evaluate_resolved reg cz v (rg_strategy entry) (dt_capsule payload) (rg_config entry)
      (dt_value_view payload) = Inr oc" for v
    using evaluation_returns_iff[OF assms(4,5,8,9)] assms(7) by blast
  obtain x sink' where run: "run_decision_pipeline reg cz cg entry payload sink = (x, sink')" by (metis surj_pair)
  from run show ?thesis
  proof (cases rule: pipeline_cases)
    case (early halt)
    then have "x = Inr (fst (withheld sink ?k halt None None None None))"
      by (cases "withheld sink ?k halt None None None None") auto
    moreover have "halt \<noteq> EVENT_STRATEGY_KEY_MISMATCH \<and> halt \<noteq> PROPOSAL_SCOPE_MISMATCH"
      using early(1) key assms(8) capsule_admitted_halt by auto
    ultimately show ?thesis using run withheld_sel(2)[of sink ?k halt None None None None]
      by (intro recorded_clean) (simp_all only:, simp)
  next
    case (raised e)
    have "\<not> (\<exists>e. degraded_no_action reg cz entry payload = Inl e)"
      using degraded_no_action_returns[OF assms(4,5)] by auto
    moreover have "cg_dsl_evaluation_budget_steps cg \<ge> 0"
      using assms(6) by (simp add: engine_configuration_ok_def split: if_splits)
    ultimately show ?thesis using raised(3)[OF assms(8)] work_steps_nonneg[of p]
        ev[of "cg_enforcement_mechanism_version cg"] by auto
  next
    case (degraded ws a)
    then have "x = Inr (fst (emit_degraded entry payload BOUND_EXHAUSTED ws a sink))"
      by (cases "emit_degraded entry payload BOUND_EXHAUSTED ws a sink") auto
    then show ?thesis using run emit_degraded_recorded(3)[of entry payload BOUND_EXHAUSTED ws a sink]
      by (intro recorded_clean) (simp_all only:, simp)
  next
    case (evaluated q oc sig)
    then have x: "x = Inr (fst (emit_outcome ?k COMPLETED (policy_work_steps q) oc sig sink))"
      by (cases "emit_outcome ?k COMPLETED (policy_work_steps q) oc sig sink") auto
    have "component_key a = (Some (fst ?k), Some (snd ?k))" if "oc = ProposalOut a" for a
      using proposal_in_scope[OF evaluated(5)[unfolded that] assms(8)] adm
      by (simp add: policy_admissible_def)
    then have "pr_halt_reason (fst (emit_outcome ?k COMPLETED (policy_work_steps q) oc sig sink)) \<noteq>
        Some PROPOSAL_SCOPE_MISMATCH"
      unfolding emit_outcome_mismatch by blast
    moreover have "pr_halt_reason (fst (emit_outcome ?k COMPLETED (policy_work_steps q) oc sig sink)) \<noteq>
        Some EVENT_STRATEGY_KEY_MISMATCH"
      by (cases oc) (simp_all add: emit_outcome_def Let_def)
    ultimately show ?thesis using run x by (intro recorded_clean) simp_all
  qed
qed


section \<open>A run\<close>

definition demo_time :: time_admission_inputs where
  "demo_time =
    \<lparr>ti_source_age = Some 1, ti_delay_bounds = [Some 1], ti_max_age_bound = Some 5,
     ti_future_tolerance = None, ti_snapshot_age_bound = Some 1, ti_maximum_consumer_age_ms = Some 5,
     ti_session_context = Some \<lparr>sc_phase = Some ''day'', sc_trading_calendar_version = Some ''1'',
       sc_is_open = True, sc_tz_version_conflict = False, sc_boundary_value = None\<rparr>,
     ti_uncertainty_interval = Some \<lparr>ui_lo = Some 0, ui_hi = Some 1\<rparr>, ti_health_state = Some TRUSTED\<rparr>"

definition demo_event :: "int \<Rightarrow> ordering_event" where
  "demo_event n =
    \<lparr>oe_event_id = None, oe_quorum_commit_index = Some n, oe_egress_journal_sequence = None,
     oe_source_continuity_id = None, oe_source_native_sequence = None, oe_local_monotonic_value = None,
     oe_causal_predecessor_ids = [], oe_time_lo = None, oe_time_hi = None\<rparr>"

definition demo_payload :: "int \<Rightarrow> decision_tick_payload" where
  "demo_payload n =
    \<lparr>dt_instrument_key = demo_key, dt_capsule = demo_capsule None, dt_time = demo_time,
     dt_reference = demo_event n, dt_value_view = None\<rparr>"

definition demo_configuration :: engine_configuration where
  "demo_configuration =
    \<lparr>cg_dsl_evaluation_budget_steps = 100, cg_max_unresolved_send_per_scope = 1,
     cg_canonicalization_version = ''v'', cg_enforcement_mechanism_version = ''e''\<rparr>"

lemma demo_configuration_ok: "engine_configuration_ok demo_configuration"
  by (simp add: engine_configuration_ok_def demo_configuration_def blank_def white_space_def)

lemma demo_time_established: "time_established demo_time"
  by (simp add: time_established_def demo_time_def freshness_verdict_def snapshot_age_admissible_def
      session_open_positively_def)

lemma demo_usable: "capsule_admitted (demo_payload n) = None"
  by (simp add: capsule_admitted_iff capsule_usable_def demo_payload_def demo_capsule_def demo_key_def
      demo_time_established)

lemma demo_decisions_complete: "list_all decision_complete (iter_decisions (demo_policy ''capsule''))"
  using demo_target_complete
  by (simp add: iter_decisions_def demo_policy_def decision_complete_def demo_action_def demo_no_action_def
      rationale_stated_def blank_def white_space_def)

lemma demo_work: "policy_work_steps (demo_policy ''capsule'') \<le> 100"
  by (simp add: policy_work_steps_def demo_policy_def demo_action_def demo_no_action_def demo_ref_def)

definition demo_entry :: registered_strategy where
  "demo_entry =
    \<lparr>rg_strategy = demo_strategy (demo_policy ''capsule''), rg_config = demo_evaluation_config,
     rg_instrument_key = demo_key\<rparr>"

lemma demo_run:
  obtains r a sink' where
    "run_decision_pipeline demo_registry demo_cz demo_configuration demo_entry (demo_payload n) sink = (Inr r, sink')"
    "pr_proposal r = Some a"
proof -
  obtain a sig where ev: "evaluate_resolved demo_registry demo_cz ''e'' (demo_strategy (demo_policy ''capsule''))
      (demo_capsule None) demo_evaluation_config None = Inr (ProposalOut a, sig)" by (rule demo_proposal)
  have sel: "rg_strategy demo_entry = demo_strategy (demo_policy ''capsule'')"
    "rg_config demo_entry = demo_evaluation_config" "rg_instrument_key demo_entry = demo_key"
    "dt_instrument_key (demo_payload n) = demo_key" "dt_capsule (demo_payload n) = demo_capsule None"
    "dt_value_view (demo_payload n) = None" "cg_enforcement_mechanism_version demo_configuration = ''e''"
    "cg_dsl_evaluation_budget_steps demo_configuration = 100"
    by (simp_all add: demo_entry_def demo_payload_def demo_configuration_def)
  have "resolve_bound (policy_work_steps (demo_policy ''capsule'')) 100 = Inr COMPLETED"
    using demo_work work_steps_nonneg[of "demo_policy ''capsule''"] by (simp add: resolve_bound_def)
  then have run: "run_decision_pipeline demo_registry demo_cz demo_configuration demo_entry (demo_payload n) sink =
      map_prod Inr id (emit_outcome demo_key COMPLETED (policy_work_steps (demo_policy ''capsule''))
        (ProposalOut a) sig sink)"
    by (simp add: run_decision_pipeline_def sel demo_usable ev degrades_to_no_action_def)
  have "component_key a = (Some (fst demo_key), Some (snd demo_key))"
    by (rule proposal_in_scope[OF ev demo_policy_field]) (use demo_admissible in \<open>simp add: policy_admissible_def\<close>)
  then have "pr_proposal (fst (emit_outcome demo_key COMPLETED (policy_work_steps (demo_policy ''capsule''))
      (ProposalOut a) sig sink)) = Some a"
    unfolding emit_outcome_proposal by simp
  then show thesis using that run by (metis map_Inr_eq(1) prod.collapse)
qed

theorem proposal_passes_every_gate_witness:
  "\<exists>r a sink'. run_decision_pipeline demo_registry demo_cz demo_configuration demo_entry (demo_payload 1) [] =
      (Inr r, sink') \<and> pr_proposal r = Some a \<and> component_key a = (Some ''A'', Some ''X'') \<and> ar_status a = ISSUED"
proof -
  obtain r a sink' where run:
    "run_decision_pipeline demo_registry demo_cz demo_configuration demo_entry (demo_payload 1) [] = (Inr r, sink')"
    "pr_proposal r = Some a" by (rule demo_run)
  from proposal_passes_every_gate[OF run] run show ?thesis
    by (auto simp: demo_payload_def demo_key_def)
qed

theorem dispatched_pipeline_returns_witness:
  "\<exists>e. runs_clean (demo_payload 1) []
    (run_decision_pipeline demo_registry demo_cz demo_configuration e (demo_payload 1) [])"
proof -
  obtain r e where e: "registry_run demo_registry r" "resolve r demo_key = DISPATCHED [e]"
    "rg_strategy e = demo_strategy (demo_policy ''capsule'')" "rg_config e = demo_evaluation_config"
    using demo_registered by blast
  have "resolve r (dt_instrument_key (demo_payload 1)) = DISPATCHED [e]" "e \<in> set [e]"
    "context_concrete (rg_strategy e) (rg_config e) (dt_capsule (demo_payload 1))"
    "build_environment (dt_capsule (demo_payload 1)) (rg_config e) (dt_value_view (demo_payload 1)) = Inr (demo_env None)"
    "st_policy (rg_strategy e) = Some (demo_policy ''capsule'')"
    by (simp_all add: e demo_payload_def demo_environment)
  from dispatched_pipeline_returns[OF e(1) this(1,2) demo_bound this(3) demo_configuration_ok this(4,5)
      demo_policy_ok demo_decisions_complete]
  show ?thesis by blast
qed

end
