(* ===== verification/Engine_Sequencer.thy ===== *)
theory Engine_Sequencer
  imports Engine_Pipeline
begin

text \<open>
  The commitment-flow sequencer \<^verbatim>\<open>tos/engine/sequencer.py\<close>: steps 1 to 14 of the flow, each of the
  injected steps judged by a stage, step 12 realised by the coordinator, then the hand-off to the send
  boundary.  The stages and the transmit are arguments: functions of the request and of a state of
  their own, the world, that yield an error or a verdict.  They share neither ledger nor sink with the
  sequencer.  A raised error yields the error with the ledger, the sink and the world as they are then.
\<close>

section \<open>Attempts\<close>

fun jint :: "int option \<Rightarrow> json" where
  "jint None = JNull"
| "jint (Some n) = JNum (Dec n 0)"

definition ordering_event_json :: "ordering_event \<Rightarrow> json" where
  "ordering_event_json r =
    JObj [(''event_id'', jopt (oe_event_id r)), (''quorum_commit_index'', jint (oe_quorum_commit_index r)),
      (''egress_journal_sequence'', jint (oe_egress_journal_sequence r)),
      (''source_continuity_id'', jopt (oe_source_continuity_id r)),
      (''source_native_sequence'', jint (oe_source_native_sequence r)),
      (''local_monotonic_value'', jint (oe_local_monotonic_value r)),
      (''causal_predecessor_ids'', JArr (map JStr (oe_causal_predecessor_ids r))),
      (''time_lo'', jint (oe_time_lo r)), (''time_hi'', jint (oe_time_hi r))]"

definition reference_coordinate_digest :: "scheme \<Rightarrow> ordering_event \<Rightarrow> pystr" where
  "reference_coordinate_digest s reference = s (ordering_event_json reference)"

text \<open>The validator of an attempt; pydantic raises its failure as \<^verbatim>\<open>ValidationError\<close>.\<close>

definition bindings_concrete :: "attempt_request \<Rightarrow> bool" where
  "bindings_concrete a =
    (\<not> blank (at_attempt_id a) \<and> \<not> blank (at_conformance_proof_digest a) \<and>
     \<not> blank (at_action_flow_permit_identity a) \<and> \<not> blank (at_reference_coordinate_digest a))"

definition attempt_preimage :: "pystr \<Rightarrow> pystr \<Rightarrow> pystr \<Rightarrow> json" where
  "attempt_preimage proof_digest permit coordinate =
    JObj [(''conformance_proof_digest'', JStr proof_digest), (''action_flow_permit_identity'', JStr permit),
      (''reference_coordinate_digest'', JStr coordinate)]"

definition build_attempt_request ::
  "scheme \<Rightarrow> pystr option \<Rightarrow> pystr option \<Rightarrow> ordering_event \<Rightarrow> (pystr, attempt_request) result" where
  "build_attempt_request s proof_digest permit_identity reference =
    (case (proof_digest, permit_identity) of
       (Some d, Some p) \<Rightarrow>
         if d = [] \<or> p = [] then Inl ''ArtifactIntegrityError''
         else
           (let c = reference_coordinate_digest s reference;
                a = \<lparr>at_attempt_id = derive_id ''attempt'' (s (attempt_preimage d p c)),
                  at_conformance_proof_digest = d, at_action_flow_permit_identity = p,
                  at_reference_coordinate_digest = c\<rparr>
            in if bindings_concrete a then Inr a else Inl ''ValidationError'')
     | _ \<Rightarrow> Inl ''ArtifactIntegrityError'')"

text \<open>The bindings of step 12 are read off the verdicts; a later verdict of a step overrides.\<close>

definition bindings_from :: "stage_verdict list \<Rightarrow> pystr option \<times> pystr option" where
  "bindings_from verdicts =
    foldl (\<lambda>(proof_digest, permit) v.
        if sv_step v = ORDER_CONFORMANCE_PROOF then (sv_bound_digest v, permit)
        else if sv_step v = ATOMIC_COMMIT then (proof_digest, sv_bound_identity v)
        else (proof_digest, permit)) (None, None) verdicts"

lemma build_attempt_Inr:
  assumes "build_attempt_request s d p reference = Inr a"
  shows "d = Some (at_conformance_proof_digest a)" "p = Some (at_action_flow_permit_identity a)"
    "at_reference_coordinate_digest a = reference_coordinate_digest s reference"
    "at_attempt_id a = derive_id ''attempt'' (s (attempt_preimage (at_conformance_proof_digest a)
      (at_action_flow_permit_identity a) (at_reference_coordinate_digest a)))"
    "bindings_concrete a"
  using assms by (auto simp: build_attempt_request_def Let_def split: option.splits if_splits)

lemma attempt_preimage_inj:
  "encode (attempt_preimage d p c) = encode (attempt_preimage d' p' c') \<Longrightarrow> d = d' \<and> p = p' \<and> c = c'"
  unfolding encode_eq_iff
  by (simp add: attempt_preimage_def)

text \<open>
  An attempt identity binds the attempt: under the canonical encoding with a digest that does not
  collide on what it is applied to here, two attempts with the same identity are the same attempt, for the same proof, the same permit
  and references with the same canonical content.
\<close>

theorem attempt_identity_binds:
  assumes "inj_on H (encode ` {ordering_event_json reference, ordering_event_json reference',
      attempt_preimage (at_conformance_proof_digest a) (at_action_flow_permit_identity a) (at_reference_coordinate_digest a),
      attempt_preimage (at_conformance_proof_digest b) (at_action_flow_permit_identity b) (at_reference_coordinate_digest b)})"
    "build_attempt_request (compute_digest H) d p reference = Inr a"
    "build_attempt_request (compute_digest H) d' p' reference' = Inr b" "at_attempt_id a = at_attempt_id b"
  shows "a = b \<and> d = d' \<and> p = p' \<and> canon (ordering_event_json reference) = canon (ordering_event_json reference')"
proof -
  note A = build_attempt_Inr[OF assms(2)] and B = build_attempt_Inr[OF assms(3)]
  note eq = inj_onD[OF assms(1)]
  have same: "at_conformance_proof_digest a = at_conformance_proof_digest b"
    "at_action_flow_permit_identity a = at_action_flow_permit_identity b"
    "at_reference_coordinate_digest a = at_reference_coordinate_digest b"
    using assms(4) A(4) B(4) by (auto simp: derive_id_def compute_digest_def dest!: eq dest: attempt_preimage_inj)
  then have "encode (ordering_event_json reference) = encode (ordering_event_json reference')"
    using A(3) B(3) by (auto simp: reference_coordinate_digest_def compute_digest_def dest!: eq)
  then show ?thesis using same A B assms(4) by (simp add: encode_eq_iff)
qed

section \<open>State\<close>

type_synonym 'w stage = "stage_request \<Rightarrow> 'w \<Rightarrow> (pystr, stage_verdict option) result \<times> 'w"
type_synonym 'w transmit = "attempt_request \<Rightarrow> 'w \<Rightarrow> (pystr, send_handoff) result \<times> 'w"
type_synonym 'w stage_map = "(commitment_step \<times> 'w stage) list"

record flow_context =
  fc_proposal_id :: "pystr option"
  fc_proposal :: proposal
  fc_instrument_key :: scope_key
  fc_reference :: ordering_event
  fc_scheme :: scheme
  fc_value_view :: "context_value_view option"
  fc_event_id :: "pystr option"

record flow_result =
  fl_instrument_key :: scope_key
  fl_verdicts :: "stage_verdict list"
  fl_attempt :: "attempt_request option"
  fl_handed_off :: bool
  fl_handoff :: "send_handoff option"
  fl_halt_step :: "commitment_step option"
  fl_halt_reason :: "halt_reason option"

record 'w engine_state =
  es_ledger :: projection_ledger
  es_sink :: sink
  es_world :: 'w

record 'w flow_state =
  fs_verdicts :: "stage_verdict list"
  fs_attempt :: "attempt_request option"
  fs_engine :: "'w engine_state"

datatype 'w progress =
  Going "'w flow_state"
| Halted flow_result "'w engine_state"
| Raised pystr "'w engine_state"

section \<open>Steps\<close>

definition validate_stage_map :: "'w stage_map \<Rightarrow> (pystr, unit) result" where
  "validate_stage_map stages =
    (if list_ex (\<lambda>(s, _). s \<in> set COORDINATOR_REALIZED_STEPS \<or> s \<in> set SEND_BOUNDARY_STEPS) stages
     then Inl ''ArtifactIntegrityError'' else Inr ())"

definition halt_record :: "flow_context \<Rightarrow> commitment_step \<Rightarrow> halt_reason \<Rightarrow> engine_evidence_record" where
  "halt_record fc step reason =
    (evidence FLOW_HALTED (fc_instrument_key fc))
      \<lparr>ee_step := Some step, ee_halt_reason := Some reason, ee_event_id := fc_event_id fc\<rparr>"

text \<open>The record of a stop, and the restrictive result.\<close>

definition stop_flow ::
  "flow_context \<Rightarrow> 'w flow_state \<Rightarrow> commitment_step \<Rightarrow> halt_reason \<Rightarrow> flow_result \<times> 'w engine_state" where
  "stop_flow fc st step reason =
    (\<lparr>fl_instrument_key = fc_instrument_key fc, fl_verdicts = fs_verdicts st, fl_attempt = None,
      fl_handed_off = False, fl_handoff = None, fl_halt_step = Some step, fl_halt_reason = Some reason\<rparr>,
     (fs_engine st)\<lparr>es_sink := record_evidence (es_sink (fs_engine st)) (halt_record fc step reason)\<rparr>)"

definition halt :: "flow_context \<Rightarrow> 'w flow_state \<Rightarrow> commitment_step \<Rightarrow> halt_reason \<Rightarrow> 'w progress" where
  "halt fc st step reason = case_prod Halted (stop_flow fc st step reason)"

definition coordinator_verdict ::
  "commitment_step \<Rightarrow> pystr \<Rightarrow> pystr option \<Rightarrow> pystr option \<Rightarrow> pystr \<Rightarrow> stage_verdict" where
  "coordinator_verdict step native bound identity reason =
    \<lparr>sv_step = step, sv_outcome = ADMIT, sv_authority_class = AVAILABLE_PURE_PREDICATE,
     sv_native_verdict_type = Some native, sv_native_verdict_value = None, sv_bound_digest = bound,
     sv_bound_identity = identity, sv_reason = Some reason\<rparr>"

text \<open>Step 12.\<close>

definition attempt_step :: "flow_context \<Rightarrow> 'w flow_state \<Rightarrow> 'w progress" where
  "attempt_step fc st =
    (let en = fs_engine st; (proof_digest, permit) = bindings_from (fs_verdicts st)
     in case build_attempt_request (fc_scheme fc) proof_digest permit (fc_reference fc) of
       Inl e \<Rightarrow>
         if e = ''ArtifactIntegrityError'' then halt fc st ATTEMPT_REQUEST ATTEMPT_BINDING_INCOMPLETE
         else Raised e en
     | Inr a \<Rightarrow>
         (case bind_attempt (es_ledger en) (fc_instrument_key fc) (at_attempt_id a) of
            Inl e \<Rightarrow> Raised e en
          | Inr l \<Rightarrow>
              Going \<lparr>fs_verdicts = fs_verdicts st @
                  [coordinator_verdict ATTEMPT_REQUEST ''AttemptRequest'' None (Some (at_attempt_id a))
                    ''unique attempt request bound to the exact proof and permit''],
                fs_attempt = Some a,
                fs_engine = en\<lparr>es_ledger := l,
                  es_sink := record_evidence (es_sink en)
                    ((evidence ATTEMPT_REQUEST_CREATED (fc_instrument_key fc))
                      \<lparr>ee_step := Some ATTEMPT_REQUEST, ee_attempt_id := Some (at_attempt_id a),
                       ee_event_id := fc_event_id fc\<rparr>)\<rparr>\<rparr>))"

definition admitted_record :: "flow_context \<Rightarrow> stage_verdict \<Rightarrow> engine_evidence_record" where
  "admitted_record fc v =
    (evidence FLOW_STEP_ADMITTED (fc_instrument_key fc))
      \<lparr>ee_step := Some (sv_step v), ee_stage_outcome := Some (sv_outcome v),
       ee_authority_class := Some (sv_authority_class v), ee_event_id := fc_event_id fc,
       ee_bound_identity := sv_bound_identity v, ee_bound_digest := sv_bound_digest v\<rparr>"

text \<open>The positive-admit gate on a verdict, and the commitment of the capacity at step 9.\<close>

definition judge_verdict ::
  "flow_context \<Rightarrow> commitment_step \<Rightarrow> stage_verdict \<Rightarrow> 'w flow_state \<Rightarrow> 'w progress" where
  "judge_verdict fc step v st0 =
    (if sv_step v \<noteq> step then halt fc st0 step STAGE_VERDICT_STEP_MISMATCH
     else
       (let st = st0\<lparr>fs_verdicts := fs_verdicts st0 @ [v]\<rparr>
        in if sv_outcome v \<noteq> ADMIT
           then halt fc st step (if sv_outcome v = OUTCOME_UNKNOWN then STAGE_UNKNOWN else STAGE_DENIED)
           else
             (let en = fs_engine st;
                  en1 = en\<lparr>es_sink := record_evidence (es_sink en) (admitted_record fc v)\<rparr>;
                  st1 = st\<lparr>fs_engine := en1\<rparr>
              in if step = ATOMIC_COMMIT then
                   (case commit_unbound (es_ledger en1) (fc_instrument_key fc) (fc_proposal_id fc) of
                      Inl e \<Rightarrow> halt fc st1 step AT_MOST_ONE_EXPOSURE_HELD
                    | Inr l \<Rightarrow> Going (st1\<lparr>fs_engine := en1\<lparr>es_ledger := l\<rparr>\<rparr>))
                 else Going st1)))"

definition stage_request_of :: "flow_context \<Rightarrow> commitment_step \<Rightarrow> 'w flow_state \<Rightarrow> stage_request" where
  "stage_request_of fc step st =
    \<lparr>sr_step = step, sr_instrument_key = fc_instrument_key fc, sr_proposal = fc_proposal fc,
     sr_reference = fc_reference fc, sr_prior_verdicts = fs_verdicts st, sr_attempt = fs_attempt st,
     sr_value_view = fc_value_view fc,
     sr_held_position_magnitude =
       outstanding_consumed_magnitude (es_ledger (fs_engine st)) (fc_instrument_key fc)\<rparr>"

definition stage_step ::
  "flow_context \<Rightarrow> 'w stage_map \<Rightarrow> commitment_step \<Rightarrow> 'w flow_state \<Rightarrow> 'w progress" where
  "stage_step fc stages step st =
    (case map_of stages step of
       None \<Rightarrow> halt fc st step STAGE_MISSING
     | Some stage \<Rightarrow>
         (let en = fs_engine st; (r, w) = stage (stage_request_of fc step st) (es_world en);
              st1 = st\<lparr>fs_engine := en\<lparr>es_world := w\<rparr>\<rparr>
          in case r of
            Inl e \<Rightarrow> halt fc st1 step STAGE_RAISED
          | Inr None \<Rightarrow> halt fc st1 step STAGE_VERDICT_ABSENT
          | Inr (Some v) \<Rightarrow> judge_verdict fc step v st1))"

definition flow_step ::
  "flow_context \<Rightarrow> 'w stage_map \<Rightarrow> commitment_step \<Rightarrow> 'w flow_state \<Rightarrow> 'w progress" where
  "flow_step fc stages step st =
    (if step = DECISION_PROPOSAL then
       Going (st\<lparr>fs_verdicts := fs_verdicts st @
         [coordinator_verdict DECISION_PROPOSAL ''Proposal'' (ar_canonical_digest (fc_proposal fc))
           (fc_proposal_id fc) ''immutable Intent proposal emitted by the decision pipeline'']\<rparr>)
     else if step = ATTEMPT_REQUEST then attempt_step fc st
     else if step = LEDGER_VERIFICATION \<and>
         \<not> admits_new_exposure (es_ledger (fs_engine st)) (fc_instrument_key fc)
     then halt fc st step AT_MOST_ONE_EXPOSURE_HELD
     else stage_step fc stages step st)"

fun walk_steps ::
  "flow_context \<Rightarrow> 'w stage_map \<Rightarrow> commitment_step list \<Rightarrow> 'w flow_state \<Rightarrow> 'w progress" where
  "walk_steps fc stages [] st = Going st"
| "walk_steps fc stages (step # steps) st =
    (case flow_step fc stages step st of
       Going st' \<Rightarrow> walk_steps fc stages steps st'
     | stopped \<Rightarrow> stopped)"

section \<open>The flow\<close>

definition handed_off_record :: "flow_context \<Rightarrow> attempt_request \<Rightarrow> engine_evidence_record" where
  "handed_off_record fc a =
    (evidence SEND_HANDED_OFF (fc_instrument_key fc))
      \<lparr>ee_step := Some SEND_BOUNDARY_VERIFICATION, ee_attempt_id := Some (at_attempt_id a),
       ee_event_id := fc_event_id fc\<rparr>"

definition hand_off ::
  "flow_context \<Rightarrow> 'w transmit option \<Rightarrow> 'w flow_state \<Rightarrow> (pystr, flow_result) result \<times> 'w engine_state" where
  "hand_off fc transmit st =
    (let en = fs_engine st;
         stop = (\<lambda>st step reason. map_prod Inr id (stop_flow fc st step reason))
     in case fs_attempt st of
       None \<Rightarrow> stop st ATTEMPT_REQUEST ATTEMPT_BINDING_INCOMPLETE
     | Some a \<Rightarrow>
         (case transmit of
            None \<Rightarrow> stop st SEND_BOUNDARY_VERIFICATION TRANSMIT_UNAVAILABLE
          | Some send \<Rightarrow>
              (case mark_potentially_live (es_ledger en) (fc_instrument_key fc) of
                 Inl e \<Rightarrow> (Inl e, en)
               | Inr l \<Rightarrow>
                   (let (r, w) = send a (es_world en); en1 = en\<lparr>es_ledger := l, es_world := w\<rparr>
                    in case r of
                      Inl e \<Rightarrow> stop (st\<lparr>fs_engine := en1\<rparr>) NETWORK_CALL TRANSMIT_RAISED
                    | Inr h \<Rightarrow>
                        (Inr \<lparr>fl_instrument_key = fc_instrument_key fc, fl_verdicts = fs_verdicts st,
                           fl_attempt = Some a, fl_handed_off = True, fl_handoff = Some h,
                           fl_halt_step = None, fl_halt_reason = None\<rparr>,
                         en1\<lparr>es_sink := record_evidence (es_sink en1) (handed_off_record fc a)\<rparr>)))))"

definition flow_start :: "'w engine_state \<Rightarrow> 'w flow_state" where
  "flow_start en = \<lparr>fs_verdicts = [], fs_attempt = None, fs_engine = en\<rparr>"

definition run_commitment_flow ::
  "flow_context \<Rightarrow> 'w stage_map \<Rightarrow> 'w transmit option \<Rightarrow> 'w engine_state \<Rightarrow>
    (pystr, flow_result) result \<times> 'w engine_state" where
  "run_commitment_flow fc stages transmit en =
    (case validate_stage_map stages of
       Inl e \<Rightarrow> (Inl e, en)
     | Inr _ \<Rightarrow>
         (case walk_steps fc stages SEQUENCED_STEPS (flow_start en) of
            Going st \<Rightarrow> hand_off fc transmit st
          | Halted r en' \<Rightarrow> (Inr r, en')
          | Raised e en' \<Rightarrow> (Inl e, en')))"

section \<open>Steps in order\<close>

lemma sequenced_prefix:
  assumes "past @ s # ss = SEQUENCED_STEPS"
  shows "s \<notin> set past" and "s \<notin> set SEND_BOUNDARY_STEPS"
    and "s = ATTEMPT_REQUEST \<Longrightarrow> ATOMIC_COMMIT \<in> set past \<and> ORDER_CONFORMANCE_PROOF \<in> set past"
    and "ATTEMPT_REQUEST \<in> set past \<Longrightarrow> s \<noteq> ATOMIC_COMMIT \<and> s \<noteq> ORDER_CONFORMANCE_PROOF"
    and "s = ATOMIC_COMMIT \<Longrightarrow> LEDGER_VERIFICATION \<in> set past"
proof -
  obtain n where n: "past = take n SEQUENCED_STEPS" "s = SEQUENCED_STEPS ! n" "n < length SEQUENCED_STEPS"
    using assms by (metis append_eq_conv_conj length_append length_Cons less_add_Suc1 nth_append_length add.commute
        add_Suc_right)
  have "n < 14" using n(3) by (simp add: sequenced_steps)
  then have "n \<in> {0, 1, 2, 3, 4, 5, 6, 7, 8, 9, 10, 11, 12, 13}" by (simp, presburger)
  then show "s \<notin> set past" "s \<notin> set SEND_BOUNDARY_STEPS"
    "s = ATTEMPT_REQUEST \<Longrightarrow> ATOMIC_COMMIT \<in> set past \<and> ORDER_CONFORMANCE_PROOF \<in> set past"
    "ATTEMPT_REQUEST \<in> set past \<Longrightarrow> s \<noteq> ATOMIC_COMMIT \<and> s \<noteq> ORDER_CONFORMANCE_PROOF"
    "s = ATOMIC_COMMIT \<Longrightarrow> LEDGER_VERIFICATION \<in> set past"
    unfolding n(1,2) sequenced_steps
    by (elim insertE emptyE; simp add: SEND_BOUNDARY_STEPS_def COMMITMENT_FLOW_ORDER_def)+
qed

lemma bindings_snoc [simp]:
  "bindings_from (vs @ [v]) =
    (if sv_step v = ORDER_CONFORMANCE_PROOF then (sv_bound_digest v, snd (bindings_from vs))
     else if sv_step v = ATOMIC_COMMIT then (fst (bindings_from vs), sv_bound_identity v)
     else bindings_from vs)"
  by (simp add: bindings_from_def split: prod.split)

text \<open>Records of progress, which neither stop the flow nor hand anything off.\<close>

definition quiet :: "flow_context \<Rightarrow> engine_evidence_record list \<Rightarrow> bool" where
  "quiet fc ds =
    list_all (\<lambda>d. ee_kind d \<in> {FLOW_STEP_ADMITTED, ATTEMPT_REQUEST_CREATED} \<and> ee_halt_reason d = None \<and>
      ee_instrument_key d = Some (fc_instrument_key fc) \<and> ee_event_id d = fc_event_id fc) ds"

lemma quiet_simps [simp]: "quiet fc []" "quiet fc (ds @ es) \<longleftrightarrow> quiet fc ds \<and> quiet fc es"
  by (auto simp: quiet_def)

text \<open>The ledger after a prefix of the steps.\<close>

definition committed :: "flow_context \<Rightarrow> projection_ledger \<Rightarrow> projection_ledger \<Rightarrow> bool" where
  "committed fc l0 l = (commit_unbound l0 (fc_instrument_key fc) (fc_proposal_id fc) = Inr l)"

definition bound_to :: "flow_context \<Rightarrow> projection_ledger \<Rightarrow> attempt_request \<Rightarrow> projection_ledger \<Rightarrow> bool" where
  "bound_to fc l0 a l =
    (\<exists>l1. committed fc l0 l1 \<and> bind_attempt l1 (fc_instrument_key fc) (at_attempt_id a) = Inr l)"

definition prepared :: "flow_context \<Rightarrow> projection_ledger \<Rightarrow> projection_ledger \<Rightarrow> bool" where
  "prepared fc l0 l = (l = l0 \<or> committed fc l0 l \<or> (\<exists>a. bound_to fc l0 a l))"

definition flow_inv ::
  "flow_context \<Rightarrow> 'w engine_state \<Rightarrow> commitment_step list \<Rightarrow> 'w flow_state \<Rightarrow> bool" where
  "flow_inv fc e0 past st =
    (map sv_step (fs_verdicts st) = past \<and> list_all (\<lambda>v. sv_outcome v = ADMIT) (fs_verdicts st) \<and>
     (\<exists>ds. es_sink (fs_engine st) = es_sink e0 @ ds \<and> quiet fc ds) \<and>
     (if ATTEMPT_REQUEST \<in> set past then
        (\<exists>a. fs_attempt st = Some a \<and> bound_to fc (es_ledger e0) a (es_ledger (fs_engine st)) \<and>
          build_attempt_request (fc_scheme fc) (fst (bindings_from (fs_verdicts st)))
            (snd (bindings_from (fs_verdicts st))) (fc_reference fc) = Inr a)
      else fs_attempt st = None \<and>
        (if ATOMIC_COMMIT \<in> set past then committed fc (es_ledger e0) (es_ledger (fs_engine st))
         else es_ledger (fs_engine st) = es_ledger e0)))"

lemma flow_inv_prepared: "flow_inv fc e0 past st \<Longrightarrow> prepared fc (es_ledger e0) (es_ledger (fs_engine st))"
  by (auto simp: flow_inv_def prepared_def split: if_splits)

lemma flow_inv_world [simp]:
  "flow_inv fc e0 past (st\<lparr>fs_engine := (fs_engine st)\<lparr>es_world := w\<rparr>\<rparr>) = flow_inv fc e0 past st"
  by (simp add: flow_inv_def)

text \<open>What a stop leaves.\<close>

definition stopped_ok :: "flow_context \<Rightarrow> 'w engine_state \<Rightarrow> flow_result \<Rightarrow> 'w engine_state \<Rightarrow> bool" where
  "stopped_ok fc e0 r e1 =
    (\<not> fl_handed_off r \<and> fl_attempt r = None \<and>
     (\<exists>ds step reason. es_sink e1 = es_sink e0 @ ds @ [halt_record fc step reason] \<and> quiet fc ds \<and>
       fl_halt_step r = Some step \<and> fl_halt_reason r = Some reason))"

definition walk_ok :: "flow_context \<Rightarrow> 'w engine_state \<Rightarrow> commitment_step list \<Rightarrow> 'w progress \<Rightarrow> bool" where
  "walk_ok fc e0 past p =
    (case p of
       Going st \<Rightarrow> flow_inv fc e0 past st
     | Halted r e1 \<Rightarrow> stopped_ok fc e0 r e1 \<and> prepared fc (es_ledger e0) (es_ledger e1) \<and>
         fl_halt_reason r \<noteq> Some TRANSMIT_RAISED
     | Raised e e1 \<Rightarrow> prepared fc (es_ledger e0) (es_ledger e1) \<and>
         (\<exists>ds. es_sink e1 = es_sink e0 @ ds \<and> quiet fc ds))"

lemma walk_ok_halt:
  assumes "prepared fc (es_ledger e0) (es_ledger (fs_engine st))"
    "es_sink (fs_engine st) = es_sink e0 @ ds" "quiet fc ds" "reason \<noteq> TRANSMIT_RAISED"
  shows "walk_ok fc e0 past (halt fc st step reason)"
  using assms by (auto simp: walk_ok_def halt_def stop_flow_def stopped_ok_def record_evidence_def)

lemma flow_inv_halt:
  assumes "flow_inv fc e0 past st" "reason \<noteq> TRANSMIT_RAISED"
  shows "walk_ok fc e0 past' (halt fc st step reason)"
proof -
  obtain ds where "es_sink (fs_engine st) = es_sink e0 @ ds" "quiet fc ds"
    using assms(1) by (auto simp: flow_inv_def)
  with flow_inv_prepared[OF assms(1)] assms(2) show ?thesis by (intro walk_ok_halt)
qed

text \<open>Each step keeps the invariant or stops.\<close>

lemma attempt_step_ok:
  assumes inv: "flow_inv fc e0 past st" and new: "ATTEMPT_REQUEST \<notin> set past" "ATOMIC_COMMIT \<in> set past"
  shows "walk_ok fc e0 (past @ [ATTEMPT_REQUEST]) (attempt_step fc st)"
proof -
  obtain pd pm where b: "bindings_from (fs_verdicts st) = (pd, pm)" by (cases "bindings_from (fs_verdicts st)")
  obtain ds where ds: "es_sink (fs_engine st) = es_sink e0 @ ds" "quiet fc ds" using inv by (auto simp: flow_inv_def)
  have raised: "walk_ok fc e0 (past @ [ATTEMPT_REQUEST]) (Raised e (fs_engine st))" for e
    using ds flow_inv_prepared[OF inv] by (auto simp: walk_ok_def)
  have committed: "committed fc (es_ledger e0) (es_ledger (fs_engine st))" using inv new by (auto simp: flow_inv_def)
  show ?thesis
  proof (cases "build_attempt_request (fc_scheme fc) pd pm (fc_reference fc)")
    case (Inl e)
    then show ?thesis
      using raised flow_inv_halt[OF inv, of ATTEMPT_BINDING_INCOMPLETE] by (simp add: attempt_step_def Let_def b)
  next
    case (Inr a)
    show ?thesis
    proof (cases "bind_attempt (es_ledger (fs_engine st)) (fc_instrument_key fc) (at_attempt_id a)")
      case (Inl e)
      then show ?thesis using raised Inr by (simp add: attempt_step_def Let_def b)
    next
      case bound: (Inr l)
      then have "bound_to fc (es_ledger e0) a l" using committed by (auto simp: bound_to_def)
      with inv new Inr bound ds show ?thesis
        by (auto simp: attempt_step_def Let_def b walk_ok_def flow_inv_def coordinator_verdict_def
            record_evidence_def quiet_def)
    qed
  qed
qed

lemma judge_verdict_ok:
  assumes inv: "flow_inv fc e0 past st" and s: "step \<notin> set past" "step \<noteq> ATTEMPT_REQUEST"
    "ATTEMPT_REQUEST \<in> set past \<Longrightarrow> step \<noteq> ATOMIC_COMMIT \<and> step \<noteq> ORDER_CONFORMANCE_PROOF"
  shows "walk_ok fc e0 (past @ [step]) (judge_verdict fc step v st)"
proof -
  obtain ds where ds: "es_sink (fs_engine st) = es_sink e0 @ ds" "quiet fc ds" using inv by (auto simp: flow_inv_def)
  note prep = flow_inv_prepared[OF inv]
  show ?thesis
  proof (cases "sv_step v = step \<and> sv_outcome v = ADMIT")
    case False
    then show ?thesis
      using prep ds by (auto simp: judge_verdict_def Let_def intro!: walk_ok_halt)
  next
    case admit: True
    have rec: "quiet fc (ds @ [admitted_record fc v])" using ds(2) by (simp add: quiet_def admitted_record_def)
    show ?thesis
    proof (cases "step = ATOMIC_COMMIT")
      case False
      with admit inv s ds rec show ?thesis
        by (auto simp: judge_verdict_def Let_def walk_ok_def flow_inv_def record_evidence_def)
    next
      case True
      then have l: "es_ledger (fs_engine st) = es_ledger e0" "fs_attempt st = None" "ATTEMPT_REQUEST \<notin> set past"
        using inv s by (auto simp: flow_inv_def split: if_splits)
      show ?thesis
      proof (cases "commit_unbound (es_ledger e0) (fc_instrument_key fc) (fc_proposal_id fc)")
        case (Inl e)
        then show ?thesis using admit True l ds rec prep
          by (auto simp: judge_verdict_def Let_def record_evidence_def intro!: walk_ok_halt[where ds = "ds @ [admitted_record fc v]"])
      next
        case (Inr l1)
        then show ?thesis using admit True l ds rec inv
          by (auto simp: judge_verdict_def Let_def walk_ok_def flow_inv_def record_evidence_def committed_def)
      qed
    qed
  qed
qed

lemma flow_step_ok:
  assumes inv: "flow_inv fc e0 past st" and seq: "past @ step # ss = SEQUENCED_STEPS"
  shows "walk_ok fc e0 (past @ [step]) (flow_step fc stages step st)"
proof -
  note p = sequenced_prefix[OF seq]
  consider "step = DECISION_PROPOSAL" | "step = ATTEMPT_REQUEST"
    | "step \<notin> {DECISION_PROPOSAL, ATTEMPT_REQUEST}" by blast
  then show ?thesis
  proof cases
    case 1
    with inv p show ?thesis
      by (auto simp: flow_step_def walk_ok_def flow_inv_def coordinator_verdict_def)
  next
    case 2
    with inv p show ?thesis by (simp add: flow_step_def attempt_step_ok)
  next
    case 3
    have "walk_ok fc e0 (past @ [step]) (stage_step fc stages step st)"
    proof (cases "map_of stages step")
      case None
      then show ?thesis using flow_inv_halt[OF inv] by (simp add: stage_step_def)
    next
      case (Some stage)
      obtain r w where rw: "stage (stage_request_of fc step st) (es_world (fs_engine st)) = (r, w)"
        by (cases "stage (stage_request_of fc step st) (es_world (fs_engine st))")
      let ?st = "st\<lparr>fs_engine := (fs_engine st)\<lparr>es_world := w\<rparr>\<rparr>"
      have inv': "flow_inv fc e0 past ?st" using inv by simp
      have "stage_step fc stages step st =
          (case r of Inl e \<Rightarrow> halt fc ?st step STAGE_RAISED | Inr None \<Rightarrow> halt fc ?st step STAGE_VERDICT_ABSENT
           | Inr (Some v) \<Rightarrow> judge_verdict fc step v ?st)"
        by (simp add: stage_step_def Some rw Let_def)
      then show ?thesis
        using flow_inv_halt[OF inv'] judge_verdict_ok[OF inv'] p 3
        by (auto split: sum.split option.split)
    qed
    then show ?thesis using 3 flow_inv_halt[OF inv] by (simp add: flow_step_def)
  qed
qed

lemma walk_steps_ok:
  "flow_inv fc e0 past st \<Longrightarrow> past @ steps = SEQUENCED_STEPS \<Longrightarrow>
    walk_ok fc e0 SEQUENCED_STEPS (walk_steps fc stages steps st)"
proof (induction steps arbitrary: past st)
  case Nil
  then show ?case by (simp add: walk_ok_def)
next
  case (Cons step steps)
  have "walk_ok fc e0 (past @ [step]) (flow_step fc stages step st)"
    using flow_step_ok Cons.prems by blast
  moreover have "(past @ [step]) @ steps = SEQUENCED_STEPS" using Cons.prems(2) by simp
  ultimately show ?case
    using Cons.IH by (cases "flow_step fc stages step st") (simp_all add: walk_ok_def)
qed

lemma flow_inv_start: "flow_inv fc en [] (flow_start en)"
  by (simp add: flow_inv_def flow_start_def)

lemma walk_flow_ok: "walk_ok fc en SEQUENCED_STEPS (walk_steps fc stages SEQUENCED_STEPS (flow_start en))"
  by (rule walk_steps_ok[of fc en "[]"]) (simp_all add: flow_inv_start)


section \<open>The reservation of a flow\<close>

abbreviation unbound :: "flow_context \<Rightarrow> provisional_reservation" where
  "unbound fc \<equiv> unbound_reservation (fc_instrument_key fc) (fc_proposal_id fc)"

definition live_reservation :: "flow_context \<Rightarrow> attempt_request \<Rightarrow> provisional_reservation" where
  "live_reservation fc a =
    (unbound fc)\<lparr>pv_capacity_state := POTENTIALLY_LIVE, pv_knowledge := SENT_UNCONFIRMED,
      pv_attempt_id := Some (at_attempt_id a)\<rparr>"

text \<open>A ledger that differs from another at most in the reservation of a scope.\<close>

definition only_scope :: "scope_key \<Rightarrow> projection_ledger \<Rightarrow> projection_ledger \<Rightarrow> bool" where
  "only_scope k l0 l =
    (released_ids l = released_ids l0 \<and> pl_max_unresolved l = pl_max_unresolved l0 \<and>
     (\<forall>j. j \<noteq> k \<longrightarrow> map_of (pl_reservations l) j = map_of (pl_reservations l0) j))"

lemma only_scope_refl [simp]: "only_scope k l l"
  by (simp add: only_scope_def)

lemma only_scope_trans: "only_scope k l0 l1 \<Longrightarrow> only_scope k l1 l2 \<Longrightarrow> only_scope k l0 l2"
  by (simp add: only_scope_def)

lemma only_scope_outstanding:
  assumes "only_scope k l0 l" "j \<noteq> k"
  shows "outstanding l j = outstanding l0 j"
proof -
  have "map_of (pl_reservations l) j = map_of (pl_reservations l0) j"
    using assms unfolding only_scope_def by blast
  then show ?thesis by (simp only: outstanding_def)
qed

lemma stored_only_scope:
  "store_reservation l r b = Inr l' \<Longrightarrow> only_scope (pv_instrument_key r) l l'"
  using stored_sel[of l r b l'] by (simp add: only_scope_def)

lemma committed_ledger:
  assumes "committed fc l0 l"
  shows "outstanding l (fc_instrument_key fc) = Some (unbound fc)" "only_scope (fc_instrument_key fc) l0 l"
    "\<And>c. outstanding l0 (fc_instrument_key fc) = Some c \<Longrightarrow> pv_capacity_state c = COMMITTED_UNBOUND"
    "admits_new_exposure l0 (fc_instrument_key fc)"
proof -
  have st: "store_reservation l0 (unbound fc) False = Inr l" and adm: "admits_new_exposure l0 (fc_instrument_key fc)"
    using commit_unbound_store assms by (auto simp: committed_def)
  have k: "pv_instrument_key (unbound fc) = fc_instrument_key fc" by (simp add: unbound_reservation_def)
  show "outstanding l (fc_instrument_key fc) = Some (unbound fc)"
    using stored_sel(2)[OF st, of "fc_instrument_key fc"] k by (simp add: unbound_reservation_def)
  show "only_scope (fc_instrument_key fc) l0 l" using stored_only_scope[OF st] k by simp
  show "admits_new_exposure l0 (fc_instrument_key fc)" by (rule adm)
  fix c
  assume "outstanding l0 (fc_instrument_key fc) = Some c"
  with store_admits(2)[OF st, of c] k have "projection_rank (pv_capacity_state c) = 0"
    by (simp add: unbound_reservation_def)
  then show "pv_capacity_state c = COMMITTED_UNBOUND"
    by (cases "pv_capacity_state c") (simp_all add: projection_rank_def projection_order_def)
qed

lemma bound_iff:
  assumes "committed fc l0 l"
  shows "(\<exists>l'. bind_attempt l (fc_instrument_key fc) i = Inr l') \<longleftrightarrow>
    i \<notin> set (released_ids l0 (fc_instrument_key fc))"
proof -
  have out: "outstanding l (fc_instrument_key fc) = Some (unbound fc)" by (rule committed_ledger(1)[OF assms])
  have rel: "released_ids l = released_ids l0"
    using committed_ledger(2)[OF assms] by (simp add: only_scope_def)
  have "bind_attempt l (fc_instrument_key fc) i =
      store_reservation l ((unbound fc)\<lparr>pv_capacity_state := ATTEMPT_BOUND, pv_attempt_id := Some i\<rparr>) False"
    by (simp add: bind_attempt_def out)
  with out show ?thesis
    by (auto simp: store_reservation_def Let_def unbound_reservation_def outstanding_Some rel)
qed

lemma bound_ledger:
  assumes "bound_to fc l0 a l"
  shows "outstanding l (fc_instrument_key fc) =
      Some ((unbound fc)\<lparr>pv_capacity_state := ATTEMPT_BOUND, pv_attempt_id := Some (at_attempt_id a)\<rparr>)"
    and "only_scope (fc_instrument_key fc) l0 l"
    and "at_attempt_id a \<notin> set (released_ids l0 (fc_instrument_key fc))"
proof -
  obtain l1 where l1: "committed fc l0 l1" "bind_attempt l1 (fc_instrument_key fc) (at_attempt_id a) = Inr l"
    using assms by (auto simp: bound_to_def)
  let ?r = "(unbound fc)\<lparr>pv_capacity_state := ATTEMPT_BOUND, pv_attempt_id := Some (at_attempt_id a)\<rparr>"
  have st: "store_reservation l1 ?r False = Inr l"
    using l1(2) committed_ledger(1)[OF l1(1)] by (simp add: bind_attempt_def)
  have k: "pv_instrument_key ?r = fc_instrument_key fc" by (simp add: unbound_reservation_def)
  show "outstanding l (fc_instrument_key fc) = Some ?r"
    using stored_sel(2)[OF st, of "fc_instrument_key fc"] k by simp
  show "only_scope (fc_instrument_key fc) l0 l"
    using only_scope_trans[OF committed_ledger(2)[OF l1(1)] stored_only_scope[OF st, unfolded k]] .
  show "at_attempt_id a \<notin> set (released_ids l0 (fc_instrument_key fc))" using bound_iff[OF l1(1)] l1(2) by blast
qed

text \<open>The reservation of a bound attempt is marked before the hand-off, which never fails.\<close>

lemma bound_live:
  assumes "bound_to fc l0 a l"
  obtains l' where "mark_potentially_live l (fc_instrument_key fc) = Inr l'"
    "outstanding l' (fc_instrument_key fc) = Some (live_reservation fc a)" "only_scope (fc_instrument_key fc) l0 l'"
proof -
  note b = bound_ledger[OF assms]
  let ?r = "live_reservation fc a"
  have k: "pv_instrument_key ?r = fc_instrument_key fc" by (simp add: live_reservation_def unbound_reservation_def)
  have rel: "released_ids l = released_ids l0" using b(2) by (simp add: only_scope_def)
  have "mark_potentially_live l (fc_instrument_key fc) = store_reservation l ?r False"
    using b(1) by (simp add: mark_potentially_live_def live_reservation_def unbound_reservation_def)
  moreover obtain l' where st: "store_reservation l ?r False = Inr l'"
    using b(1,3) rel k by (auto simp: store_reservation_def Let_def outstanding_Some live_reservation_def)
  ultimately have "mark_potentially_live l (fc_instrument_key fc) = Inr l'" by simp
  moreover have "outstanding l' (fc_instrument_key fc) = Some ?r"
    using stored_sel(2)[OF st, of "fc_instrument_key fc"] k by (simp add: live_reservation_def)
  moreover have "only_scope (fc_instrument_key fc) l0 l'"
    using only_scope_trans[OF b(2) stored_only_scope[OF st, unfolded k]] .
  ultimately show thesis using that by blast
qed

lemma prepared_only_scope: "prepared fc l0 l \<Longrightarrow> only_scope (fc_instrument_key fc) l0 l"
  using committed_ledger(2) bound_ledger(2) by (auto simp: prepared_def)


section \<open>Runs\<close>

text \<open>The flow reached the send boundary: every step admitted, in order, and the attempt is bound.\<close>

definition all_admitted :: "flow_context \<Rightarrow> stage_verdict list \<Rightarrow> attempt_request \<Rightarrow> bool" where
  "all_admitted fc vs a =
    (map sv_step vs = SEQUENCED_STEPS \<and> list_all (\<lambda>v. sv_outcome v = ADMIT) vs \<and>
     build_attempt_request (fc_scheme fc) (fst (bindings_from vs)) (snd (bindings_from vs)) (fc_reference fc) = Inr a)"

definition sent_state ::
  "flow_context \<Rightarrow> 'w engine_state \<Rightarrow> attempt_request \<Rightarrow> engine_evidence_record \<Rightarrow> 'w engine_state \<Rightarrow> bool" where
  "sent_state fc en a d en' =
    (outstanding (es_ledger en') (fc_instrument_key fc) = Some (live_reservation fc a) \<and>
     only_scope (fc_instrument_key fc) (es_ledger en) (es_ledger en') \<and>
     at_attempt_id a \<notin> set (released_ids (es_ledger en) (fc_instrument_key fc)) \<and>
     (\<forall>c. outstanding (es_ledger en) (fc_instrument_key fc) = Some c \<longrightarrow> pv_capacity_state c = COMMITTED_UNBOUND) \<and>
     admits_new_exposure (es_ledger en) (fc_instrument_key fc) \<and>
     (\<exists>ds. es_sink en' = es_sink en @ ds @ [d] \<and> quiet fc ds))"

lemma flow_cases [consumes 1, case_names refused raised halted unsent sent]:
  assumes "run_commitment_flow fc stages transmit en = (x, en')"
  obtains
    (refused) e where "x = Inl e" "en' = en" "validate_stage_map stages = Inl e"
  | (raised) e ds where "x = Inl e" "walk_steps fc stages SEQUENCED_STEPS (flow_start en) = Raised e en'"
      "prepared fc (es_ledger en) (es_ledger en')" "es_sink en' = es_sink en @ ds" "quiet fc ds"
  | (halted) r where "x = Inr r" "stopped_ok fc en r en'" "prepared fc (es_ledger en) (es_ledger en')"
      "fl_halt_reason r \<noteq> Some TRANSMIT_RAISED"
  | (unsent) r a vs where "x = Inr r" "stopped_ok fc en r en'" "fl_halt_reason r = Some TRANSMIT_RAISED"
      "all_admitted fc vs a" "sent_state fc en a (halt_record fc NETWORK_CALL TRANSMIT_RAISED) en'"
  | (sent) r a where "x = Inr r" "fl_handed_off r" "fl_attempt r = Some a" "fl_halt_reason r = None"
      "all_admitted fc (fl_verdicts r) a" "sent_state fc en a (handed_off_record fc a) en'"
proof (cases "validate_stage_map stages")
  case (Inl e)
  then show thesis using assms refused[of e] by (simp add: run_commitment_flow_def)
next
  case valid: (Inr u)
  have ok: "walk_ok fc en SEQUENCED_STEPS (walk_steps fc stages SEQUENCED_STEPS (flow_start en))" by (rule walk_flow_ok)
  show thesis
  proof (cases "walk_steps fc stages SEQUENCED_STEPS (flow_start en)")
    case (Halted r e1)
    then show thesis using assms valid ok halted[of r] by (simp add: run_commitment_flow_def walk_ok_def)
  next
    case (Raised e e1)
    then show thesis using assms valid ok raised[of e] by (auto simp: run_commitment_flow_def walk_ok_def)
  next
    case (Going st)
    then have inv: "flow_inv fc en SEQUENCED_STEPS st" using ok by (simp add: walk_ok_def)
    have "ATTEMPT_REQUEST \<in> set SEQUENCED_STEPS" by (simp add: sequenced_steps)
    then obtain a where a: "fs_attempt st = Some a" "bound_to fc (es_ledger en) a (es_ledger (fs_engine st))"
      "all_admitted fc (fs_verdicts st) a"
      using inv by (auto simp: flow_inv_def all_admitted_def)
    obtain ds where ds: "es_sink (fs_engine st) = es_sink en @ ds" "quiet fc ds" using inv by (auto simp: flow_inv_def)
    obtain l1 where "committed fc (es_ledger en) l1" using a(2) by (auto simp: bound_to_def)
    note c = committed_ledger(3,4)[OF this]
    obtain l where l: "mark_potentially_live (es_ledger (fs_engine st)) (fc_instrument_key fc) = Inr l"
      "outstanding l (fc_instrument_key fc) = Some (live_reservation fc a)"
      "only_scope (fc_instrument_key fc) (es_ledger en) l"
      using bound_live[OF a(2)] by blast
    have run: "hand_off fc transmit st = (x, en')" using assms valid Going by (simp add: run_commitment_flow_def)
    show thesis
    proof (cases transmit)
      case None
      then have "x = Inr (fst (stop_flow fc st SEND_BOUNDARY_VERIFICATION TRANSMIT_UNAVAILABLE))"
        "en' = snd (stop_flow fc st SEND_BOUNDARY_VERIFICATION TRANSMIT_UNAVAILABLE)"
        using run a(1) by (auto simp: hand_off_def Let_def stop_flow_def)
      then show thesis using ds flow_inv_prepared[OF inv]
        by (intro halted) (auto simp: stop_flow_def stopped_ok_def record_evidence_def)
    next
      case (Some send)
      obtain r w where rw: "send a (es_world (fs_engine st)) = (r, w)" by (cases "send a (es_world (fs_engine st))")
      show thesis
      proof (cases r)
        case (Inl e)
        then show thesis using run a l rw Some ds c bound_ledger(3)[OF a(2)]
          by (intro unsent[OF _ _ _ a(3)])
            (auto simp: hand_off_def Let_def stop_flow_def stopped_ok_def record_evidence_def sent_state_def)
      next
        case (Inr h)
        then show thesis using run a l rw Some ds c bound_ledger(3)[OF a(2)]
          by (intro sent) (auto simp: hand_off_def Let_def record_evidence_def sent_state_def)
      qed
    qed
  qed
qed


lemma flow_scope:
  assumes "run_commitment_flow fc stages transmit en = (x, en')"
  shows "only_scope (fc_instrument_key fc) (es_ledger en) (es_ledger en')"
  using assms by (cases rule: flow_cases) (simp_all add: prepared_only_scope sent_state_def)

text \<open>
  C33: a hand-off needs every admission: when a flow reports that it handed off, the verdicts are one
  \<open>ADMIT\<close> per step 1 to 14 in the normative order, the attempt is the one bound to the proof digest of
  step 11 and the permit of step 9, it was never released before, the scope could take a new exposure
  and held nothing already attempted, its reservation is now potentially live for exactly this attempt,
  no other scope is touched, and the hand-off is the last record.
\<close>

theorem hand_off_needs_every_admission:
  assumes "run_commitment_flow fc stages transmit en = (Inr r, en')" "fl_handed_off r"
  shows "\<exists>a. fl_attempt r = Some a \<and> fl_halt_reason r = None \<and> all_admitted fc (fl_verdicts r) a \<and>
    sent_state fc en a (handed_off_record fc a) en'"
  using assms by (cases rule: flow_cases) (auto simp: stopped_ok_def)

text \<open>A scope whose reservation is potentially live.\<close>

definition scope_live :: "projection_ledger \<Rightarrow> scope_key \<Rightarrow> bool" where
  "scope_live l k = (\<exists>c. outstanding l k = Some c \<and> pv_capacity_state c = POTENTIALLY_LIVE)"

lemma prepared_live: "prepared fc l0 l \<Longrightarrow> scope_live l (fc_instrument_key fc) = scope_live l0 (fc_instrument_key fc)"
proof -
  have commits: "\<not> scope_live l1 (fc_instrument_key fc) \<and> \<not> scope_live l0 (fc_instrument_key fc)" if "committed fc l0 l1" for l1
    using committed_ledger(1,3)[OF that] by (auto simp: scope_live_def unbound_reservation_def)
  have binds: "\<not> scope_live l (fc_instrument_key fc)" if "bound_to fc l0 a l" for a
    using bound_ledger(1)[OF that] by (simp add: scope_live_def)
  assume "prepared fc l0 l"
  then consider "l = l0" | "committed fc l0 l" | a where "bound_to fc l0 a l" by (auto simp: prepared_def)
  then show ?thesis
  proof cases
    case (3 a)
    then obtain l1 where "committed fc l0 l1" by (auto simp: bound_to_def)
    with commits binds[OF 3] show ?thesis by blast
  qed (use commits in blast)+
qed

text \<open>
  C34: every stop is recorded: a flow that returns without a hand-off names its step and reason and has
  appended records of progress and then exactly one halt record with that step and reason; no other
  scope is touched; and the scope becomes potentially live when the transmit raised, never otherwise: at
  any other stop it is potentially live afterwards exactly when it was before the flow, whatever the scope
  held when the flow began.
\<close>

theorem every_stop_is_recorded:
  assumes "run_commitment_flow fc stages transmit en = (Inr r, en')" "\<not> fl_handed_off r"
  shows "stopped_ok fc en r en' \<and> only_scope (fc_instrument_key fc) (es_ledger en) (es_ledger en') \<and>
    (if fl_halt_reason r = Some TRANSMIT_RAISED
     then \<not> scope_live (es_ledger en) (fc_instrument_key fc) \<and> scope_live (es_ledger en') (fc_instrument_key fc)
     else scope_live (es_ledger en') (fc_instrument_key fc) = scope_live (es_ledger en) (fc_instrument_key fc))"
  using assms
proof (cases rule: flow_cases)
  case (halted r')
  with flow_scope[OF assms(1)] prepared_live show ?thesis by simp
next
  case (unsent r' a vs)
  then have "\<not> scope_live (es_ledger en) (fc_instrument_key fc)" "scope_live (es_ledger en') (fc_instrument_key fc)"
    by (auto simp: sent_state_def live_reservation_def scope_live_def)
  with unsent flow_scope[OF assms(1)] show ?thesis by simp
qed (use assms(2) in simp_all)

text \<open>
  A stopped flow sends nothing: when a flow stops at one of the steps, before the send boundary,
  it does so with the same result, evidence, ledger and stage state for every transmit.
\<close>

theorem stopped_flow_sends_nothing:
  assumes "run_commitment_flow fc stages transmit en = (Inr r, en')"
    "fl_halt_reason r \<notin> {None, Some TRANSMIT_UNAVAILABLE, Some TRANSMIT_RAISED}"
  shows "run_commitment_flow fc stages transmit' en = (Inr r, en')"
proof (cases "walk_steps fc stages SEQUENCED_STEPS (flow_start en)")
  case (Going st)
  then have "flow_inv fc en SEQUENCED_STEPS st"
    using walk_flow_ok[of fc en stages] by (simp add: walk_ok_def)
  then obtain a where "fs_attempt st = Some a" by (auto simp: flow_inv_def sequenced_steps)
  with assms Going show ?thesis
    by (auto simp: run_commitment_flow_def hand_off_def stop_flow_def Let_def
        split: sum.splits option.splits prod.splits)
qed (use assms in \<open>auto simp: run_commitment_flow_def split: sum.splits\<close>)

section \<open>Errors that escape\<close>

text \<open>A verdict that binds no blank token where step 12 reads one.\<close>

definition binds_concretely :: "stage_verdict \<Rightarrow> bool" where
  "binds_concretely v =
    ((sv_step v = ORDER_CONFORMANCE_PROOF \<longrightarrow> (case sv_bound_digest v of None \<Rightarrow> True | Some d \<Rightarrow> d = [] \<or> \<not> blank d)) \<and>
     (sv_step v = ATOMIC_COMMIT \<longrightarrow> (case sv_bound_identity v of None \<Rightarrow> True | Some i \<Rightarrow> i = [] \<or> \<not> blank i)))"

lemma bindings_concretely:
  "list_all binds_concretely vs \<Longrightarrow>
    (\<forall>d. fst (bindings_from vs) = Some d \<longrightarrow> d = [] \<or> \<not> blank d) \<and>
    (\<forall>i. snd (bindings_from vs) = Some i \<longrightarrow> i = [] \<or> \<not> blank i)"
  by (induction vs rule: rev_induct) (auto simp: bindings_from_def[of "[]"] binds_concretely_def)

definition stages_bind_concretely :: "'w stage_map \<Rightarrow> bool" where
  "stages_bind_concretely stages =
    (\<forall>(s, stage) \<in> set stages. \<forall>rq w v w'. stage rq w = (Inr (Some v), w') \<longrightarrow> binds_concretely v)"

lemma step_binds_concretely:
  assumes "stages_bind_concretely stages" "list_all binds_concretely (fs_verdicts st)"
    "flow_step fc stages step st = Going st'"
  shows "list_all binds_concretely (fs_verdicts st')"
proof -
  have cv: "binds_concretely (coordinator_verdict DECISION_PROPOSAL n b i t)"
    "binds_concretely (coordinator_verdict ATTEMPT_REQUEST n b i t)" for n b i t
    by (simp_all add: binds_concretely_def coordinator_verdict_def)
  have "binds_concretely v" if "map_of stages step = Some stage" "stage rq w = (Inr (Some v), w')" for stage rq w v w'
    using assms(1) map_of_SomeD[OF that(1)] that(2) unfolding stages_bind_concretely_def by fast
  then show ?thesis
    using assms(2,3) cv
    by (auto simp: flow_step_def attempt_step_def stage_step_def judge_verdict_def halt_def stop_flow_def Let_def
        split: if_splits sum.splits option.splits prod.splits)
qed

lemma build_error:
  assumes "build_attempt_request s d p ref = Inl e" "\<And>j. \<not> blank (s j)"
    "\<And>x. d = Some x \<Longrightarrow> x = [] \<or> \<not> blank x" "\<And>x. p = Some x \<Longrightarrow> x = [] \<or> \<not> blank x"
  shows "e = ''ArtifactIntegrityError''"
proof -
  have "\<not> blank (derive_id x (s j))" for x j
    using assms(2)[of j] by (simp add: derive_id_def blank_def)
  with assms show ?thesis
    by (auto simp: build_attempt_request_def bindings_concrete_def reference_coordinate_digest_def Let_def
        split: option.splits if_splits)
qed


lemma flow_step_raised:
  assumes "flow_step fc stages step st = Raised e en'"
  shows "step = ATTEMPT_REQUEST \<and> attempt_step fc st = Raised e en'"
  using assms
  by (auto simp: flow_step_def stage_step_def judge_verdict_def halt_def stop_flow_def Let_def
      split: if_splits sum.splits option.splits prod.splits)

lemma walk_append:
  "walk_steps fc stages (as @ bs) st =
    (case walk_steps fc stages as st of Going st' \<Rightarrow> walk_steps fc stages bs st' | stopped \<Rightarrow> stopped)"
  by (induction as arbitrary: st) (auto split: progress.split)

text \<open>The attempt step 12 derives: from the bindings of the verdicts the steps before it leave.\<close>

definition steps_before_attempt :: "commitment_step list" where
  "steps_before_attempt = takeWhile (\<lambda>step. step \<noteq> ATTEMPT_REQUEST) SEQUENCED_STEPS"

definition derived_attempt :: "flow_context \<Rightarrow> 'w stage_map \<Rightarrow> 'w engine_state \<Rightarrow> attempt_request option" where
  "derived_attempt fc stages en =
    (case walk_steps fc stages steps_before_attempt (flow_start en) of
       Going st \<Rightarrow>
         (case build_attempt_request (fc_scheme fc) (fst (bindings_from (fs_verdicts st)))
             (snd (bindings_from (fs_verdicts st))) (fc_reference fc) of
            Inr a \<Rightarrow> Some a
          | Inl e \<Rightarrow> None)
     | _ \<Rightarrow> None)"

lemma steps_around_attempt:
  obtains post where "SEQUENCED_STEPS = steps_before_attempt @ ATTEMPT_REQUEST # post"
    "ATTEMPT_REQUEST \<notin> set steps_before_attempt" "ATTEMPT_REQUEST \<notin> set post"
  by (simp add: steps_before_attempt_def sequenced_steps)

lemma walk_without_attempt:
  "ATTEMPT_REQUEST \<notin> set steps \<Longrightarrow> walk_steps fc stages steps st \<noteq> Raised e en"
proof (induction steps arbitrary: st)
  case (Cons step steps)
  then show ?case using flow_step_raised[of fc stages step st] by (auto split: progress.split)
qed simp

lemma walk_keeps_bindings:
  assumes "stages_bind_concretely stages"
  shows "walk_steps fc stages steps st = Going st' \<Longrightarrow> list_all binds_concretely (fs_verdicts st) \<Longrightarrow>
    list_all binds_concretely (fs_verdicts st')"
proof (induction steps arbitrary: st)
  case (Cons step steps)
  then obtain st1 where "flow_step fc stages step st = Going st1" "walk_steps fc stages steps st1 = Going st'"
    by (auto split: progress.splits)
  with Cons step_binds_concretely[OF assms] show ?case by blast
qed simp

lemma walk_before_attempt:
  assumes "walk_steps fc stages steps_before_attempt (flow_start en) = Going st"
  shows "flow_inv fc en steps_before_attempt st"
proof -
  have "past @ steps @ rest = SEQUENCED_STEPS \<Longrightarrow> flow_inv fc en past st0 \<Longrightarrow>
      walk_steps fc stages steps st0 = Going st \<Longrightarrow> flow_inv fc en (past @ steps) st" for past steps rest st0
  proof (induction steps arbitrary: past st0)
    case (Cons step steps)
    then obtain st1 where st1: "flow_step fc stages step st0 = Going st1" "walk_steps fc stages steps st1 = Going st"
      by (auto split: progress.splits)
    have "walk_ok fc en (past @ [step]) (flow_step fc stages step st0)"
      using flow_step_ok[OF Cons.prems(2), of step "steps @ rest"] Cons.prems(1) by simp
    with st1 Cons.IH[of "past @ [step]" st1] Cons.prems(1) show ?case by (simp add: walk_ok_def)
  qed simp
  from this[of "[]" steps_before_attempt _ "flow_start en"] assms show ?thesis
    by (metis steps_around_attempt append_Nil flow_inv_start)
qed

lemma attempt_step_raises:
  assumes "committed fc l0 (es_ledger (fs_engine st))" "list_all binds_concretely (fs_verdicts st)"
    "\<And>j. \<not> blank (fc_scheme fc j)"
  shows "(\<exists>e en'. attempt_step fc st = Raised e en') \<longleftrightarrow>
    (\<exists>a. build_attempt_request (fc_scheme fc) (fst (bindings_from (fs_verdicts st)))
        (snd (bindings_from (fs_verdicts st))) (fc_reference fc) = Inr a \<and>
      at_attempt_id a \<in> set (released_ids l0 (fc_instrument_key fc)))"
proof -
  obtain d p where b: "bindings_from (fs_verdicts st) = (d, p)" by (cases "bindings_from (fs_verdicts st)")
  show ?thesis
  proof (cases "build_attempt_request (fc_scheme fc) d p (fc_reference fc)")
    case (Inl x)
    have "x = ''ArtifactIntegrityError''"
      using build_error[OF Inl assms(3)] bindings_concretely[OF assms(2)] b by simp
    then show ?thesis using Inl by (simp add: attempt_step_def b halt_def stop_flow_def Let_def)
  next
    case (Inr a)
    show ?thesis
      using bound_iff[OF assms(1), of "at_attempt_id a"] Inr
      by (cases "bind_attempt (es_ledger (fs_engine st)) (fc_instrument_key fc) (at_attempt_id a)")
        (auto simp: attempt_step_def b Let_def)
  qed
qed

text \<open>
  C35: a flow raises only on the reuse of an attempt: with a stage map that validates, stages that bind no
  blank token at the steps 9 and 11 and a digest that is never blank, the flow raises, whatever the stages
  and the transmit do, exactly when the attempt that step 12 derives, from the proof digest and the permit
  that the steps 11 and 9 of this very flow bound, was released before in this scope; otherwise it returns
  a result.
\<close>

theorem flow_raises_only_on_reuse:
  assumes "validate_stage_map stages = Inr ()" "stages_bind_concretely stages"
    "\<And>j. \<not> blank (fc_scheme fc j)"
  shows "(\<exists>e en'. run_commitment_flow fc stages transmit en = (Inl e, en')) \<longleftrightarrow>
    (\<exists>a. derived_attempt fc stages en = Some a \<and>
      at_attempt_id a \<in> set (released_ids (es_ledger en) (fc_instrument_key fc)))"
proof -
  obtain post where seq: "SEQUENCED_STEPS = steps_before_attempt @ ATTEMPT_REQUEST # post"
    and new: "ATTEMPT_REQUEST \<notin> set steps_before_attempt" "ATTEMPT_REQUEST \<notin> set post"
    by (rule steps_around_attempt)
  have raises: "(\<exists>e en'. run_commitment_flow fc stages transmit en = (Inl e, en')) \<longleftrightarrow>
      (\<exists>e en'. walk_steps fc stages SEQUENCED_STEPS (flow_start en) = Raised e en')"
  proof
    assume "\<exists>e en'. run_commitment_flow fc stages transmit en = (Inl e, en')"
    then obtain e en' where "run_commitment_flow fc stages transmit en = (Inl e, en')" by blast
    then show "\<exists>e en'. walk_steps fc stages SEQUENCED_STEPS (flow_start en) = Raised e en'"
      by (cases rule: flow_cases) (use assms(1) in auto)
  qed (use assms(1) in \<open>auto simp: run_commitment_flow_def\<close>)
  show ?thesis
  proof (cases "walk_steps fc stages steps_before_attempt (flow_start en)")
    case (Going st)
    have inv: "flow_inv fc en steps_before_attempt st" by (rule walk_before_attempt[OF Going])
    have "ATOMIC_COMMIT \<in> set steps_before_attempt" using sequenced_prefix(3) seq by metis
    with inv new have comm: "committed fc (es_ledger en) (es_ledger (fs_engine st))" by (auto simp: flow_inv_def)
    have binds: "list_all binds_concretely (fs_verdicts st)"
      using walk_keeps_bindings[OF assms(2) Going] by (simp add: flow_start_def)
    have "walk_steps fc stages SEQUENCED_STEPS (flow_start en) =
        (case attempt_step fc st of Going st' \<Rightarrow> walk_steps fc stages post st' | stopped \<Rightarrow> stopped)"
      unfolding seq walk_append Going by (simp add: flow_step_def)
    then have "(\<exists>e en'. walk_steps fc stages SEQUENCED_STEPS (flow_start en) = Raised e en') \<longleftrightarrow>
        (\<exists>e en'. attempt_step fc st = Raised e en')"
      by (simp add: walk_without_attempt[OF new(2)] split: progress.split)
    with raises attempt_step_raises[OF comm binds assms(3)] Going show ?thesis by (simp add: derived_attempt_def split: sum.split)
  next
    case (Halted r en1)
    then show ?thesis unfolding raises seq walk_append by (simp add: derived_attempt_def)
  next
    case (Raised e en1)
    with walk_without_attempt[OF new(1)] show ?thesis by blast
  qed
qed

section \<open>A flow\<close>

text \<open>Stages that admit everything with the given bindings.\<close>

definition admitting :: "pystr \<Rightarrow> pystr \<Rightarrow> 'w stage_map" where
  "admitting digest permit =
    map (\<lambda>s. (s, \<lambda>rq w. (Inr (Some
      \<lparr>sv_step = s, sv_outcome = ADMIT, sv_authority_class = NON_AUTHORITATIVE_PROVISIONAL,
       sv_native_verdict_type = None, sv_native_verdict_value = None, sv_bound_digest = Some digest,
       sv_bound_identity = Some permit, sv_reason = None\<rparr>), w))) INJECTED_STAGE_STEPS"

lemma injected_steps:
  "INJECTED_STAGE_STEPS =
    [CANDIDATE_COMMAND_CONSTRUCTION, VENUE_ADMISSIBILITY_DECISION, INDEPENDENT_APPROVAL,
     ECONOMIC_EFFECT_ENVELOPE, AGGREGATE_RISK_DECISION, ACTION_FLOW_DECISION, LEDGER_VERIFICATION,
     ATOMIC_COMMIT, COMMITMENT_UNAVAILABILITY, ORDER_CONFORMANCE_PROOF, ATTEMPT_BIND_VERIFICATION,
     TRANSMISSION_CAPABILITY]"
  by (simp add: INJECTED_STAGE_STEPS_def sequenced_steps COORDINATOR_REALIZED_STEPS_def)

definition demo_context :: "proposal \<Rightarrow> flow_context" where
  "demo_context a =
    \<lparr>fc_proposal_id = Some ''p'', fc_proposal = a, fc_instrument_key = demo_key,
     fc_reference = demo_event 1, fc_scheme = (\<lambda>_. ''d''), fc_value_view = None, fc_event_id = Some ''ev''\<rparr>"

definition demo_state :: "unit engine_state" where
  "demo_state = \<lparr>es_ledger = empty_projection 1, es_sink = [], es_world = ()\<rparr>"


lemma admitting_valid: "validate_stage_map (admitting d p) = Inr ()"
  by (simp add: validate_stage_map_def admitting_def injected_steps COORDINATOR_REALIZED_STEPS_def
      SEND_BOUNDARY_STEPS_def COMMITMENT_FLOW_ORDER_def)

lemma demo_admits: "admits_new_exposure (empty_projection 1) demo_key"
  by (simp add: admits_new_exposure_def outstanding_count_def outstanding_def empty_projection_def)

text \<open>A step whose stage admits, other than step 9.\<close>

definition admitting_verdict :: "pystr \<Rightarrow> pystr \<Rightarrow> commitment_step \<Rightarrow> stage_verdict" where
  "admitting_verdict d p s =
    \<lparr>sv_step = s, sv_outcome = ADMIT, sv_authority_class = NON_AUTHORITATIVE_PROVISIONAL,
     sv_native_verdict_type = None, sv_native_verdict_value = None, sv_bound_digest = Some d,
     sv_bound_identity = Some p, sv_reason = None\<rparr>"

lemma admitting_lookup:
  "s \<in> set INJECTED_STAGE_STEPS \<Longrightarrow>
    map_of (admitting d p) s = Some (\<lambda>rq w. (Inr (Some (admitting_verdict d p s)), w))"
  by (auto simp: admitting_def injected_steps admitting_verdict_def)

lemma admitting_step:
  assumes "s \<in> set INJECTED_STAGE_STEPS" "s \<noteq> LEDGER_VERIFICATION \<or> admits_new_exposure (es_ledger (fs_engine st)) (fc_instrument_key fc)"
  shows "flow_step fc (admitting d p) s st = judge_verdict fc s (admitting_verdict d p s) st"
  using assms by (auto simp: flow_step_def stage_step_def admitting_lookup injected_steps)


lemmas flow_eval = flow_step_def stage_step_def judge_verdict_def attempt_step_def halt_def stop_flow_def
  Let_def bindings_from_def coordinator_verdict_def commit_unbound_def bind_attempt_def store_reservation_def
  mark_potentially_live_def admits_new_exposure_def outstanding_count_def outstanding_def released_ids_def
  empty_projection_def build_attempt_request_def bindings_concrete_def reference_coordinate_digest_def derive_id_def
  blank_def white_space_def demo_context_def demo_state_def flow_start_def hand_off_def

definition accepting :: "'w transmit" where
  "accepting a w = (Inr \<lparr>so_accepted_for_transmission = Some True, so_handoff_reference = None\<rparr>, w)"

lemmas demo_eval = run_commitment_flow_def admitting_valid sequenced_steps admitting_lookup injected_steps
  admitting_verdict_def flow_eval

lemma demo_flow:
  "\<exists>r en'. run_commitment_flow (demo_context a) (admitting ''d'' ''p'') (Some accepting) demo_state = (Inr r, en') \<and>
    fl_handed_off r"
  by (simp add: demo_eval accepting_def)

theorem hand_off_needs_every_admission_witness:
  "\<exists>a r en'. run_commitment_flow (demo_context a) (admitting ''d'' ''p'') (Some accepting) demo_state = (Inr r, en') \<and>
    map sv_step (fl_verdicts r) = SEQUENCED_STEPS \<and>
    (\<exists>c. outstanding (es_ledger en') demo_key = Some c \<and> pv_capacity_state c = POTENTIALLY_LIVE)"
proof -
  fix a :: proposal
  obtain r en' where r: "run_commitment_flow (demo_context a) (admitting ''d'' ''p'') (Some accepting) demo_state =
      (Inr r, en')" "fl_handed_off r" using demo_flow by blast
  from hand_off_needs_every_admission[OF this]
  have "map sv_step (fl_verdicts r) = SEQUENCED_STEPS \<and>
      (\<exists>c. outstanding (es_ledger en') demo_key = Some c \<and> pv_capacity_state c = POTENTIALLY_LIVE)"
    by (auto simp: all_admitted_def sent_state_def live_reservation_def demo_context_def)
  with r(1) show ?thesis by blast
qed

theorem every_stop_is_recorded_witness:
  "\<exists>a r en'. run_commitment_flow (demo_context a) (admitting ''d'' ''p'') None demo_state = (Inr r, en') \<and>
    stopped_ok (demo_context a) demo_state r en'"
proof -
  fix a :: proposal
  have "\<exists>r en'. run_commitment_flow (demo_context a) (admitting ''d'' ''p'') None demo_state = (Inr r, en') \<and>
      \<not> fl_handed_off r"
    by (simp add: demo_eval)
  then show ?thesis using every_stop_is_recorded by blast
qed

theorem stopped_flow_sends_nothing_witness:
  "\<exists>a r en'. run_commitment_flow (demo_context a) [] None demo_state = (Inr r, en') \<and>
    run_commitment_flow (demo_context a) [] (Some accepting) demo_state = (Inr r, en')"
proof -
  fix a :: proposal
  have "\<exists>r en'. run_commitment_flow (demo_context a) [] None demo_state = (Inr r, en') \<and>
      fl_halt_reason r \<notin> {None, Some TRANSMIT_UNAVAILABLE, Some TRANSMIT_RAISED}"
    by (simp add: demo_eval validate_stage_map_def)
  then show ?thesis using stopped_flow_sends_nothing[where transmit' = "Some accepting"] by blast
qed

lemma admitting_binds: "stages_bind_concretely (admitting ''d'' ''p'')"
  by (auto simp: stages_bind_concretely_def admitting_def binds_concretely_def blank_def white_space_def)

theorem flow_raises_only_on_reuse_witness:
  "\<exists>a r en'. run_commitment_flow (demo_context a) (admitting ''d'' ''p'') None demo_state = (Inr r, en')"
proof -
  fix a :: proposal
  have "\<not> blank (fc_scheme (demo_context a) j)" for j by (simp add: demo_context_def blank_def white_space_def)
  moreover have "released_ids (es_ledger demo_state) k = []" for k
    by (simp add: demo_state_def released_ids_def empty_projection_def)
  ultimately have "\<nexists>e en'. run_commitment_flow (demo_context a) (admitting ''d'' ''p'') None demo_state = (Inl e, en')"
    using flow_raises_only_on_reuse[OF admitting_valid admitting_binds, of "demo_context a" None demo_state] by simp
  then show ?thesis by (metis sum.exhaust surj_pair)
qed

text \<open>
  A permit of blanks only passes the truth test of step 12 and fails the validator of the attempt: the
  error of pydantic is not the one the step catches, so the flow raises after the capacity of step 9
  was committed, with no record of a halt.
\<close>

theorem blank_permit_escapes:
  "\<forall>a. \<exists>en'. run_commitment_flow (demo_context a) (admitting ''d'' '' '') (Some accepting) demo_state =
      (Inl ''ValidationError'', en') \<and>
    (\<exists>c. outstanding (es_ledger en') demo_key = Some c \<and> pv_capacity_state c = COMMITTED_UNBOUND) \<and>
    list_all (\<lambda>d. ee_halt_reason d = None) (es_sink en')"
  by (simp add: demo_eval record_evidence_def admitted_record_def)


theorem attempt_identity_binds_witness:
  "\<exists>a b. build_attempt_request (compute_digest id) (Some ''d'') (Some ''p'') (demo_event 1) = Inr a \<and>
    build_attempt_request (compute_digest id) (Some ''e'') (Some ''p'') (demo_event 1) = Inr b \<and>
    at_attempt_id a \<noteq> at_attempt_id b"
proof -
  have "blank (compute_digest id (ordering_event_json r)) = False" for r
    by (simp add: compute_digest_def ordering_event_json_def obj_token_def blank_def white_space_def)
  then have "\<exists>a. build_attempt_request (compute_digest id) (Some [x]) (Some ''p'') (demo_event 1) = Inr a"
    if "x \<notin> set white_space" for x
    using that
    by (simp add: build_attempt_request_def bindings_concrete_def reference_coordinate_digest_def Let_def)
      (simp add: blank_def white_space_def derive_id_def)
  from this[of "CHR ''d''"] this[of "CHR ''e''"] obtain a b where
    ab: "build_attempt_request (compute_digest id) (Some ''d'') (Some ''p'') (demo_event 1) = Inr a"
      "build_attempt_request (compute_digest id) (Some ''e'') (Some ''p'') (demo_event 1) = Inr b"
    by (auto simp: white_space_def)
  from attempt_identity_binds[OF inj_on_id ab] ab show ?thesis by auto
qed

end
