(* ===== verification/Engine_Core.thy ===== *)
theory Engine_Core
  imports Engine_Sequencer
begin

text \<open>
  The single event core \<^verbatim>\<open>tos/engine/core.py\<close> with the events and the result digest of
  \<^verbatim>\<open>tos/engine/records.py\<close>: the causal admission of an event, the coordinator's preconditions, the
  dispatch of a tick to its registered strategies and on to the commitment flow, the results of the
  send boundary, and the corporate actions.  The preconditions, the stages and the transmit are
  arguments that act on a state of their own; so are the JSON dump of an event, from which its identity
  is derived, and the judgement of a corporate action, whose payload is a type parameter.
\<close>

section \<open>Events\<close>

record egress_event = egress_result_payload +
  eg_reference :: ordering_event
  eg_trading_date :: "pystr option"

record 'c corporate_action_payload =
  ca_instrument_key :: scope_key
  ca_reference :: ordering_event
  ca_facts :: 'c

record nontrade_outcome =
  no_disposition :: pystr
  no_outcome_digest :: pystr

text \<open>The three kinds of event, each with its payload.\<close>

datatype 'c engine_event =
  DECISION_TICK decision_tick_payload
| EGRESS_RESULT egress_event
| CORPORATE_ACTION "'c corporate_action_payload"

datatype event_kind = TICK_KIND | RESULT_KIND | ACTION_KIND

fun kind_of :: "'c engine_event \<Rightarrow> event_kind" where
  "kind_of (DECISION_TICK p) = TICK_KIND"
| "kind_of (EGRESS_RESULT p) = RESULT_KIND"
| "kind_of (CORPORATE_ACTION p) = ACTION_KIND"

fun event_reference :: "'c engine_event \<Rightarrow> ordering_event" where
  "event_reference (DECISION_TICK p) = dt_reference p"
| "event_reference (EGRESS_RESULT p) = eg_reference p"
| "event_reference (CORPORATE_ACTION p) = ca_reference p"

fun event_instrument_key :: "'c engine_event \<Rightarrow> scope_key" where
  "event_instrument_key (DECISION_TICK p) = dt_instrument_key p"
| "event_instrument_key (EGRESS_RESULT p) = eg_instrument_key p"
| "event_instrument_key (CORPORATE_ACTION p) = ca_instrument_key p"

definition event_identity :: "('c engine_event \<Rightarrow> json) \<Rightarrow> scheme \<Rightarrow> 'c engine_event \<Rightarrow> pystr" where
  "event_identity dump s event = derive_id ''event'' (s (dump event))"

datatype order_admission = MONOTONE | ORDER_AMBIGUOUS | REVERSED

definition ordering_admission :: "ordering_event option \<Rightarrow> ordering_event \<Rightarrow> order_admission" where
  "ordering_admission last_reference incoming =
    (case last_reference of
       None \<Rightarrow> MONOTONE
     | Some r \<Rightarrow>
         (case compare_order incoming r of
            BEFORE \<Rightarrow> REVERSED | AFTER \<Rightarrow> MONOTONE | AMBIGUOUS \<Rightarrow> ORDER_AMBIGUOUS))"

section \<open>Digests of results\<close>

text \<open>\<^verbatim>\<open>str\<close> of a decimal: scientific notation for a positive exponent or a small value.\<close>

definition dec_str :: "pydec \<Rightarrow> pystr" where
  "dec_str d =
    (let ds = nat_str (nat \<bar>dcoeff d\<bar>); adjusted = dexp d + int (length ds) - 1
     in if dexp d \<le> 0 \<and> -6 \<le> adjusted then format_f d
        else (if dcoeff d < 0 then ''-'' else []) @ take 1 ds @
          (if 1 < length ds then ''.'' @ drop 1 ds else []) @ ''E'' @
          (if adjusted < 0 then ''-'' @ nat_str (nat (- adjusted)) else ''+'' @ nat_str (nat adjusted)))"

fun knowledge_value :: "egress_knowledge \<Rightarrow> pystr" where
  "knowledge_value NOT_SENT = ''NOT_SENT''"
| "knowledge_value SENT_UNCONFIRMED = ''SENT_UNCONFIRMED''"
| "knowledge_value ACKNOWLEDGED = ''ACKNOWLEDGED''"
| "knowledge_value PARTIALLY_FILLED = ''PARTIALLY_FILLED''"
| "knowledge_value FILLED = ''FILLED''"
| "knowledge_value REJECTED = ''REJECTED''"
| "knowledge_value UNKNOWN_FATE = ''UNKNOWN''"
| "knowledge_value CANCEL_ACKNOWLEDGED = ''CANCEL_ACKNOWLEDGED''"
| "knowledge_value EXPIRED = ''EXPIRED''"

fun disposition_value :: "result_disposition \<Rightarrow> pystr" where
  "disposition_value APPLIED = ''APPLIED''"
| "disposition_value ORPHAN_NO_RESERVATION = ''ORPHAN_NO_RESERVATION''"
| "disposition_value MISMATCHED_ATTEMPT = ''MISMATCHED_ATTEMPT''"
| "disposition_value DUPLICATE = ''DUPLICATE''"
| "disposition_value NON_MONOTONIC_PROJECTION = ''NON_MONOTONIC_PROJECTION''"
| "disposition_value QUANTITY_REGRESSION = ''QUANTITY_REGRESSION''"

definition egress_outcome_json :: "result_disposition \<Rightarrow> provisional_reservation option \<Rightarrow> json" where
  "egress_outcome_json disposition projection =
    JObj [(''disposition'', JStr (disposition_value disposition)),
      (''capacity_state'', jopt (map_option (capacity_state_value \<circ> pv_capacity_state) projection)),
      (''knowledge'', jopt (map_option (knowledge_value \<circ> pv_knowledge) projection)),
      (''filled_quantity'', jopt (Option.bind projection (map_option dec_str \<circ> pv_filled_quantity))),
      (''remaining_quantity'', jopt (Option.bind projection (map_option dec_str \<circ> pv_remaining_quantity))),
      (''pre_quarantine_capacity'',
        jopt (Option.bind projection (map_option capacity_state_value \<circ> pv_pre_quarantine_capacity)))]"

definition egress_result_outcome_digest ::
  "scheme \<Rightarrow> result_disposition \<Rightarrow> provisional_reservation option \<Rightarrow> pystr" where
  "egress_result_outcome_digest s disposition projection = s (egress_outcome_json disposition projection)"

section \<open>The core\<close>

record event_result =
  ev_kind :: event_kind
  ev_instrument_key :: scope_key
  ev_ordering :: order_admission
  ev_halt_reason :: "halt_reason option"
  ev_pipeline :: "pipeline_result option"
  ev_flow :: "flow_result option"
  ev_reservation :: "provisional_reservation option"
  ev_result_disposition :: "result_disposition option"
  ev_result_outcome_digest :: "pystr option"
  ev_nontrade_outcome :: "nontrade_outcome option"

definition event_result :: "event_kind \<Rightarrow> scope_key \<Rightarrow> order_admission \<Rightarrow> event_result" where
  "event_result kind key admission =
    \<lparr>ev_kind = kind, ev_instrument_key = key, ev_ordering = admission, ev_halt_reason = None,
     ev_pipeline = None, ev_flow = None, ev_reservation = None, ev_result_disposition = None,
     ev_result_outcome_digest = None, ev_nontrade_outcome = None\<rparr>"

text \<open>The property \<^verbatim>\<open>EventResult.outcome_digest\<close>.\<close>

definition event_outcome_digest :: "event_result \<Rightarrow> pystr option" where
  "event_outcome_digest r =
    (case ev_pipeline r of
       Some p \<Rightarrow> pipeline_outcome_digest p
     | None \<Rightarrow>
         (case ev_nontrade_outcome r of
            Some n \<Rightarrow> Some (no_outcome_digest n)
          | None \<Rightarrow> ev_result_outcome_digest r))"

text \<open>What a core is wired with; the transport nature is its \<^verbatim>\<open>reaches_broker\<close>, when there is one.\<close>

record ('w, 'c) wiring =
  wi_schemes :: registry
  wi_scheme :: canonicalizer
  wi_registry :: strategy_registry
  wi_stages :: "'w stage_map"
  wi_configuration :: engine_configuration
  wi_authority_epoch_current :: "'w \<Rightarrow> bool option \<times> 'w"
  wi_live_scope_authorized :: "bool option option \<Rightarrow> 'w \<Rightarrow> bool option \<times> 'w"
  wi_transmit :: "'w transmit option"
  wi_transport_nature :: "bool option option"
  wi_event_dump :: "'c engine_event \<Rightarrow> json"
  wi_handle_corporate_action :: "'c corporate_action_payload \<Rightarrow> nontrade_outcome"

record 'w core =
  co_engine :: "'w engine_state"
  co_last_reference :: "ordering_event option"

definition core_record :: "'w core \<Rightarrow> engine_evidence_record \<Rightarrow> 'w core" where
  "core_record co d =
    co\<lparr>co_engine := (co_engine co)\<lparr>es_sink := record_evidence (es_sink (co_engine co)) d\<rparr>\<rparr>"

definition with_world :: "'w core \<Rightarrow> 'w \<Rightarrow> 'w core" where
  "with_world co w = co\<lparr>co_engine := (co_engine co)\<lparr>es_world := w\<rparr>\<rparr>"

section \<open>Decision ticks\<close>

definition coordinator_precondition_refused ::
  "scope_key \<Rightarrow> order_admission \<Rightarrow> halt_reason \<Rightarrow> 'w core \<Rightarrow> event_result option \<times> 'w core" where
  "coordinator_precondition_refused key admission reason co =
    (Some ((event_result TICK_KIND key admission)\<lparr>ev_halt_reason := Some reason\<rparr>),
     core_record co ((evidence COORDINATOR_PRECONDITION_REFUSED key)\<lparr>ee_halt_reason := Some reason\<rparr>))"

definition coordinator_precondition_refusal ::
  "('w, 'c) wiring \<Rightarrow> scope_key \<Rightarrow> order_admission \<Rightarrow> 'w core \<Rightarrow> event_result option \<times> 'w core" where
  "coordinator_precondition_refusal wi key admission co =
    (let (current, w) = wi_authority_epoch_current wi (es_world (co_engine co)); co1 = with_world co w
     in if current = Some True then
          (let (authorized, w2) = wi_live_scope_authorized wi (wi_transport_nature wi) w; co2 = with_world co1 w2
           in if authorized = Some True then (None, co2)
              else coordinator_precondition_refused key admission LIVE_SCOPE_NOT_AUTHORIZED co2)
        else coordinator_precondition_refused key admission AUTHORITY_NOT_CURRENT co1)"

definition flow_context_of ::
  "('w, 'c) wiring \<Rightarrow> decision_tick_payload \<Rightarrow> pystr \<Rightarrow> proposal \<Rightarrow> flow_context" where
  "flow_context_of wi payload event_id a =
    \<lparr>fc_proposal_id = ar_id a, fc_proposal = a, fc_instrument_key = dt_instrument_key payload,
     fc_reference = dt_reference payload, fc_scheme = cz_compute_digest (wi_scheme wi),
     fc_value_view = dt_value_view payload, fc_event_id = Some event_id\<rparr>"

text \<open>The entries of a key in turn; the first proposal starts the flow, and ends the tick.\<close>

fun run_entries ::
  "('w, 'c) wiring \<Rightarrow> decision_tick_payload \<Rightarrow> order_admission \<Rightarrow> pystr \<Rightarrow> registered_strategy list \<Rightarrow>
    pipeline_result option \<Rightarrow> 'w core \<Rightarrow> (pystr, event_result) result \<times> 'w core" where
  "run_entries wi payload admission event_id [] last_pipeline co =
    (let key = dt_instrument_key payload
     in (Inr ((event_result TICK_KIND key admission)
          \<lparr>ev_halt_reason := Option.bind last_pipeline pr_halt_reason, ev_pipeline := last_pipeline,
           ev_reservation := outstanding (es_ledger (co_engine co)) key\<rparr>), co))"
| "run_entries wi payload admission event_id (entry # entries) last_pipeline co =
    (let key = dt_instrument_key payload; en = co_engine co;
         (run, sink) = run_decision_pipeline (wi_schemes wi) (wi_scheme wi) (wi_configuration wi) entry payload
           (es_sink en);
         co1 = co\<lparr>co_engine := en\<lparr>es_sink := sink\<rparr>\<rparr>
     in case run of
       Inl e \<Rightarrow> (Inl e, co1)
     | Inr pipeline \<Rightarrow>
         (case pr_proposal pipeline of
            None \<Rightarrow> run_entries wi payload admission event_id entries (Some pipeline) co1
          | Some a \<Rightarrow>
              (let (flow, en2) = run_commitment_flow (flow_context_of wi payload event_id a) (wi_stages wi)
                     (wi_transmit wi) (co_engine co1);
                   co2 = co1\<lparr>co_engine := en2\<rparr>
               in case flow of
                 Inl e \<Rightarrow> (Inl e, co2)
               | Inr f \<Rightarrow>
                   (Inr ((event_result TICK_KIND key admission)
                      \<lparr>ev_halt_reason := fl_halt_reason f, ev_pipeline := Some pipeline, ev_flow := Some f,
                       ev_reservation := outstanding (es_ledger en2) key\<rparr>), co2))))"

definition withhold ::
  "decision_tick_payload \<Rightarrow> order_admission \<Rightarrow> halt_reason \<Rightarrow> 'w core \<Rightarrow> (pystr, event_result) result \<times> 'w core" where
  "withhold payload admission reason co =
    (let key = dt_instrument_key payload
     in (Inr ((event_result TICK_KIND key admission)\<lparr>ev_halt_reason := Some reason\<rparr>),
         core_record co ((evidence DECISION_WITHHELD key)\<lparr>ee_halt_reason := Some reason\<rparr>)))"

definition handle_decision_tick ::
  "('w, 'c) wiring \<Rightarrow> decision_tick_payload \<Rightarrow> order_admission \<Rightarrow> 'w core \<Rightarrow>
    (pystr, event_result) result \<times> 'w core" where
  "handle_decision_tick wi payload admission co =
    (let key = dt_instrument_key payload;
         event_id = event_identity (wi_event_dump wi) (cz_compute_digest (wi_scheme wi)) (DECISION_TICK payload)
     in case coordinator_precondition_refusal wi key admission co of
       (Some refusal, co1) \<Rightarrow> (Inr refusal, co1)
     | (None, co1) \<Rightarrow>
         (case resolve (wi_registry wi) key of
            MISSING \<Rightarrow> withhold payload admission REGISTRY_MISSING co1
          | EXPLICIT_EMPTY \<Rightarrow> withhold payload admission REGISTRY_EXPLICIT_EMPTY co1
          | DISPATCHED entries \<Rightarrow> run_entries wi payload admission event_id entries None co1))"

section \<open>Results and corporate actions\<close>

text \<open>
  The projection an application reports is what the ledger projects after it.
\<close>

definition handle_egress_result ::
  "('w, 'c) wiring \<Rightarrow> egress_event \<Rightarrow> order_admission \<Rightarrow> 'w core \<Rightarrow> (pystr, event_result) result \<times> 'w core" where
  "handle_egress_result wi payload admission co =
    (let key = eg_instrument_key payload; en = co_engine co
     in case apply_egress_result (es_ledger en) (egress_result_payload.truncate payload) of
       Inl e \<Rightarrow> (Inl e, co)
     | Inr (l, disposition) \<Rightarrow>
         (let projection = outstanding l key;
              digest = egress_result_outcome_digest (cz_compute_digest (wi_scheme wi)) disposition projection;
              co1 = co\<lparr>co_engine := en\<lparr>es_ledger := l\<rparr>\<rparr>;
              result = (event_result RESULT_KIND key admission)
                \<lparr>ev_reservation := projection, ev_result_disposition := Some disposition,
                 ev_result_outcome_digest := Some digest\<rparr>
          in if disposition \<noteq> APPLIED then
               (Inr (result\<lparr>ev_halt_reason := Some HALT_RESULT_UNMATCHED\<rparr>),
                core_record co1 ((evidence RESULT_UNMATCHED key)
                  \<lparr>ee_halt_reason := Some HALT_RESULT_UNMATCHED, ee_egress_result_kind := Some (eg_kind payload),
                   ee_result_disposition := Some disposition, ee_attempt_id := Some (eg_attempt_id payload),
                   ee_filled_quantity := eg_filled_quantity payload,
                   ee_remaining_quantity := eg_remaining_quantity payload,
                   ee_broker_execution_id := eg_broker_execution_id payload,
                   ee_trading_date := eg_trading_date payload\<rparr>))
             else case projection of
               None \<Rightarrow> (Inl ''AssertionError'', co1)
             | Some r \<Rightarrow>
               (Inr result,
                core_record co1 ((evidence EGRESS_RESULT_CONSUMED key)
                  \<lparr>ee_egress_result_kind := Some (eg_kind payload), ee_result_disposition := Some disposition,
                   ee_capacity_state := Some (pv_capacity_state r), ee_knowledge := Some (pv_knowledge r),
                   ee_attempt_id := Some (eg_attempt_id payload), ee_filled_quantity := pv_filled_quantity r,
                   ee_remaining_quantity := pv_remaining_quantity r,
                   ee_broker_execution_id := eg_broker_execution_id payload,
                   ee_trading_date := eg_trading_date payload\<rparr>))))"

definition handle_corporate_action ::
  "('w, 'c) wiring \<Rightarrow> 'c corporate_action_payload \<Rightarrow> order_admission \<Rightarrow> 'w core \<Rightarrow>
    (pystr, event_result) result \<times> 'w core" where
  "handle_corporate_action wi payload admission co =
    (let key = ca_instrument_key payload; oc = wi_handle_corporate_action wi payload
     in (Inr ((event_result ACTION_KIND key admission)\<lparr>ev_nontrade_outcome := Some oc\<rparr>),
         core_record co ((evidence CORPORATE_ACTION_CONSUMED key)
           \<lparr>ee_nontrade_disposition := Some (no_disposition oc), ee_outcome_digest := Some (no_outcome_digest oc)\<rparr>)))"

section \<open>Handling\<close>

definition handle ::
  "('w, 'c) wiring \<Rightarrow> 'c engine_event \<Rightarrow> 'w core \<Rightarrow> (pystr, event_result) result \<times> 'w core" where
  "handle wi event co =
    (let kind = kind_of event; key = event_instrument_key event; reference = event_reference event;
         admission = ordering_admission (co_last_reference co) reference
     in if admission = REVERSED then
          (Inr ((event_result kind key admission)\<lparr>ev_halt_reason := Some EVENT_ORDER_REVERSED\<rparr>),
           core_record co ((evidence EVENT_REFUSED key)\<lparr>ee_halt_reason := Some EVENT_ORDER_REVERSED\<rparr>))
        else
          (let co1 = co\<lparr>co_last_reference := Some reference\<rparr>
           in case event of
             DECISION_TICK p \<Rightarrow> handle_decision_tick wi p admission co1
           | EGRESS_RESULT p \<Rightarrow> handle_egress_result wi p admission co1
           | CORPORATE_ACTION p \<Rightarrow> handle_corporate_action wi p admission co1))"

text \<open>\<^verbatim>\<open>EngineCore.run\<close>: the events one at a time; a raised error ends the run.\<close>

fun run_events ::
  "('w, 'c) wiring \<Rightarrow> 'c engine_event list \<Rightarrow> 'w core \<Rightarrow> (pystr, event_result list) result \<times> 'w core" where
  "run_events wi [] co = (Inr [], co)"
| "run_events wi (event # events) co =
    (case handle wi event co of
       (Inl e, co1) \<Rightarrow> (Inl e, co1)
     | (Inr r, co1) \<Rightarrow>
         (case run_events wi events co1 of
            (Inl e, co2) \<Rightarrow> (Inl e, co2)
          | (Inr rs, co2) \<Rightarrow> (Inr (r # rs), co2)))"

definition make_core ::
  "('w, 'c) wiring \<Rightarrow> projection_ledger option \<Rightarrow> 'w \<Rightarrow> (pystr, 'w core) result" where
  "make_core wi ledger w =
    (case validate_stage_map (wi_stages wi) of
       Inl e \<Rightarrow> Inl e
     | Inr _ \<Rightarrow>
         (case (case ledger of
                  Some l \<Rightarrow> Inr l
                | None \<Rightarrow> make_ledger (cg_max_unresolved_send_per_scope (wi_configuration wi))) of
            Inl e \<Rightarrow> Inl e
          | Inr l \<Rightarrow>
              Inr \<lparr>co_engine = \<lparr>es_ledger = l, es_sink = [], es_world = w\<rparr>, co_last_reference = None\<rparr>))"


section \<open>What every event keeps\<close>

text \<open>Records that report no hand-off and no stopped flow.\<close>

definition harmless :: "engine_evidence_record \<Rightarrow> bool" where
  "harmless d = (ee_kind d \<notin> {SEND_HANDED_OFF, FLOW_HALTED})"

lemma precondition_cases:
  assumes "coordinator_precondition_refusal wi key admission co = (x, co')"
  obtains
    (pass) w w2 where "x = None" "wi_authority_epoch_current wi (es_world (co_engine co)) = (Some True, w)"
      "wi_live_scope_authorized wi (wi_transport_nature wi) w = (Some True, w2)" "co' = with_world co w2"
  | (refused) w reason where
      "x = Some ((event_result TICK_KIND key admission)\<lparr>ev_halt_reason := Some reason\<rparr>)"
      "reason \<in> {AUTHORITY_NOT_CURRENT, LIVE_SCOPE_NOT_AUTHORIZED}"
      "co' = core_record (with_world co w)
        ((evidence COORDINATOR_PRECONDITION_REFUSED key)\<lparr>ee_halt_reason := Some reason\<rparr>)"
proof -
  obtain current w where w: "wi_authority_epoch_current wi (es_world (co_engine co)) = (current, w)"
    by (cases "wi_authority_epoch_current wi (es_world (co_engine co))")
  obtain authorized w2 where w2: "wi_live_scope_authorized wi (wi_transport_nature wi) w = (authorized, w2)"
    by (cases "wi_live_scope_authorized wi (wi_transport_nature wi) w")
  show thesis
  proof (cases "current = Some True \<and> authorized = Some True")
    case True
    then show thesis using assms w w2 pass
      by (simp add: coordinator_precondition_refusal_def with_world_def)
  next
    case False
    then show thesis
      using assms w w2 refused[of AUTHORITY_NOT_CURRENT w] refused[of LIVE_SCOPE_NOT_AUTHORIZED w2]
      by (auto simp: coordinator_precondition_refusal_def coordinator_precondition_refused_def with_world_def
          Let_def split: if_splits)
  qed
qed

text \<open>
  A property of the engine state that harmless records, the world, the flows of a scope and its egress
  results keep is kept by every event of that scope.
\<close>

locale engine_invariant =
  fixes P :: "'w engine_state \<Rightarrow> bool" and k :: scope_key
  assumes recorded: "P en \<Longrightarrow> list_all harmless ds \<Longrightarrow> P (en\<lparr>es_sink := es_sink en @ ds\<rparr>)"
    and moved: "P en \<Longrightarrow> P (en\<lparr>es_world := w\<rparr>)"
    and flowed: "P en \<Longrightarrow> fc_instrument_key fc = k \<Longrightarrow>
      run_commitment_flow fc stages transmit en = (x, en') \<Longrightarrow> P en'"
    and applied: "P en \<Longrightarrow> eg_instrument_key p = k \<Longrightarrow> apply_egress_result (es_ledger en) p = Inr (l, d) \<Longrightarrow>
      P (en\<lparr>es_ledger := l\<rparr>)"
begin

lemma core_recorded: "P (co_engine co) \<Longrightarrow> harmless d \<Longrightarrow> P (co_engine (core_record co d))"
  using recorded[of "co_engine co" "[d]"] by (simp add: core_record_def record_evidence_def)

lemma world_kept: "P (co_engine co) \<Longrightarrow> P (co_engine (with_world co w))"
  by (simp add: with_world_def moved)

lemma run_entries_kept:
  "run_entries wi payload admission i entries last_pipeline co = (x, co') \<Longrightarrow> dt_instrument_key payload = k \<Longrightarrow>
    P (co_engine co) \<Longrightarrow> P (co_engine co')"
proof (induction entries arbitrary: last_pipeline co)
  case (Cons entry entries)
  let ?en = "co_engine co"
  obtain run sink where run: "run_decision_pipeline (wi_schemes wi) (wi_scheme wi) (wi_configuration wi) entry
      payload (es_sink ?en) = (run, sink)" by (metis surj_pair)
  let ?co = "co\<lparr>co_engine := ?en\<lparr>es_sink := sink\<rparr>\<rparr>"
  obtain ds where ds: "sink = es_sink ?en @ ds"
    "list_all (\<lambda>d. ee_kind d \<in> {DECISION_WITHHELD, DECISION_DEGRADED, DECISION_OUTCOME_EMITTED}) ds"
    using pipeline_appends[OF run] by blast
  then have "list_all harmless ds" by (auto simp: list_all_iff harmless_def)
  then have kept: "P (co_engine ?co)" using recorded Cons.prems(3) ds(1) by simp
  note eq = Cons.prems(1)[unfolded run_entries.simps Let_def run prod.case]
  show ?case
  proof (cases "\<exists>r a. run = Inr r \<and> pr_proposal r = Some a")
    case True
    then obtain r a where a: "run = Inr r" "pr_proposal r = Some a" by blast
    obtain f en2 where f: "run_commitment_flow (flow_context_of wi payload i a) (wi_stages wi) (wi_transmit wi)
        (co_engine ?co) = (f, en2)" by (metis surj_pair)
    have "P en2" using flowed[OF kept _ f] Cons.prems(2) by (simp add: flow_context_of_def)
    moreover have "co_engine co' = en2"
      using eq[unfolded a(1) sum.case a(2) option.case f prod.case] by (auto split: sum.splits)
    ultimately show ?thesis by simp
  next
    case False
    show ?thesis
    proof (cases run)
      case (Inl e)
      then show ?thesis using eq kept by auto
    next
      case (Inr r)
      then have "run_entries wi payload admission i entries (Some r) ?co = (x, co')"
        using False eq by (cases "pr_proposal r") auto
      from Cons.IH[OF this Cons.prems(2) kept] show ?thesis .
    qed
  qed
qed (auto simp: Let_def)

lemma tick_kept:
  assumes "handle_decision_tick wi payload admission co = (x, co')" "dt_instrument_key payload = k"
    "P (co_engine co)"
  shows "P (co_engine co')"
proof -
  obtain y co1 where y: "coordinator_precondition_refusal wi (dt_instrument_key payload) admission co = (y, co1)"
    by (metis surj_pair)
  then have kept: "P (co_engine co1)"
    using assms(3) by (cases rule: precondition_cases)
      (simp_all add: world_kept core_recorded harmless_def)
  show ?thesis
  proof (cases y)
    case None
    show ?thesis
    proof (cases "resolve (wi_registry wi) (dt_instrument_key payload)")
      case (DISPATCHED entries)
      then have "run_entries wi payload admission
          (event_identity (wi_event_dump wi) (cz_compute_digest (wi_scheme wi)) (DECISION_TICK payload)) entries None co1 =
        (x, co')" using assms(1) y None by (simp add: handle_decision_tick_def Let_def)
      from run_entries_kept[OF this assms(2) kept] show ?thesis .
    qed (use assms(1) y None kept in \<open>auto simp: handle_decision_tick_def withhold_def Let_def core_recorded harmless_def\<close>)
  qed (use assms(1) y kept in \<open>auto simp: handle_decision_tick_def Let_def\<close>)
qed

lemma result_kept:
  assumes "handle_egress_result wi payload admission co = (x, co')" "eg_instrument_key payload = k"
    "P (co_engine co)"
  shows "P (co_engine co')"
proof (cases "apply_egress_result (es_ledger (co_engine co)) (egress_result_payload.truncate payload)")
  case (Inl e)
  then show ?thesis using assms by (simp add: handle_egress_result_def Let_def)
next
  case (Inr y)
  obtain l d where y: "y = (l, d)" by (cases y)
  have "P ((co_engine co)\<lparr>es_ledger := l\<rparr>)"
    using applied[OF assms(3) _ Inr[unfolded y]] assms(2) by (simp add: egress_result_payload.truncate_def)
  then have "P (co_engine (co\<lparr>co_engine := (co_engine co)\<lparr>es_ledger := l\<rparr>\<rparr>))" by simp
  from core_recorded[OF this] this show ?thesis
    using assms(1) Inr y
    by (auto simp: handle_egress_result_def Let_def harmless_def split: if_splits option.splits)
qed

lemma event_kept:
  assumes "handle wi event co = (x, co')" "event_instrument_key event = k" "P (co_engine co)"
  shows "P (co_engine co')"
proof (cases "ordering_admission (co_last_reference co) (event_reference event) = REVERSED")
  case True
  then show ?thesis using assms by (auto simp: handle_def Let_def core_recorded harmless_def)
next
  case False
  have kept: "P (co_engine (co\<lparr>co_last_reference := r\<rparr>))" for r using assms(3) by simp
  show ?thesis
  proof (cases event)
    case (DECISION_TICK p)
    then have "\<exists>adm. handle_decision_tick wi p adm (co\<lparr>co_last_reference := Some (event_reference event)\<rparr>) = (x, co')"
      using assms(1) False by (auto simp: handle_def Let_def)
    then show ?thesis using tick_kept[OF _ _ kept] assms(2) DECISION_TICK by fastforce
  next
    case (EGRESS_RESULT p)
    then have "\<exists>adm. handle_egress_result wi p adm (co\<lparr>co_last_reference := Some (event_reference event)\<rparr>) = (x, co')"
      using assms(1) False by (auto simp: handle_def Let_def)
    then show ?thesis using result_kept[OF _ _ kept] assms(2) EGRESS_RESULT by fastforce
  next
    case (CORPORATE_ACTION p)
    then show ?thesis using assms False core_recorded[OF kept]
      by (auto simp: handle_def handle_corporate_action_def Let_def harmless_def)
  qed
qed

end


section \<open>The ledger under a flow and a result\<close>

lemma prepared_inv: "projection_inv l0 \<Longrightarrow> prepared fc l0 l \<Longrightarrow> projection_inv l"
  unfolding prepared_def committed_def bound_to_def using commit_unbound_inv bind_attempt_inv by blast

lemma flow_projection_inv:
  assumes "run_commitment_flow fc stages transmit en = (x, en')" "projection_inv (es_ledger en)"
  shows "projection_inv (es_ledger en')"
proof (cases "walk_steps fc stages SEQUENCED_STEPS (flow_start en)")
  case (Going st)
  then have "projection_inv (es_ledger (fs_engine st))"
    using walk_flow_ok[of fc en stages] prepared_inv[OF assms(2) flow_inv_prepared] by (simp add: walk_ok_def)
  then show ?thesis
    using assms(1) Going mark_potentially_live_inv[of "es_ledger (fs_engine st)" "fc_instrument_key fc"] assms(2)
    by (auto simp: run_commitment_flow_def hand_off_def stop_flow_def Let_def
        split: sum.splits option.splits prod.splits)
next
  case (Halted r e1)
  then show ?thesis
    using walk_flow_ok[of fc en stages] prepared_inv[OF assms(2)] assms
    by (auto simp: run_commitment_flow_def walk_ok_def split: sum.splits)
next
  case (Raised e e1)
  then show ?thesis
    using walk_flow_ok[of fc en stages] prepared_inv[OF assms(2)] assms
    by (auto simp: run_commitment_flow_def walk_ok_def split: sum.splits)
qed

lemma result_only_scope:
  assumes "projection_inv l0" "apply_egress_result l0 p = Inr (l, d)"
  shows "only_scope (eg_instrument_key p) l0 l"
  using assms
  by (cases rule: result_step) (auto simp: only_scope_def released_ids_def fun_eq_iff)

text \<open>An exposure that may be at the broker.\<close>

definition in_flight :: "projection_ledger \<Rightarrow> scope_key \<Rightarrow> bool" where
  "in_flight l k = (\<exists>c. outstanding l k = Some c \<and> 2 \<le> projection_rank (pv_capacity_state c))"

lemma resolved_rank:
  assumes "resolve_capacity_target c p = Inr (Some s, b)" "2 \<le> projection_rank (pv_capacity_state c)"
  shows "2 \<le> projection_rank s"
  using assms
  by (cases "eg_kind p") (auto simp: resolve_capacity_target_def Let_def split: if_splits option.splits)

lemma resolved_unreleased:
  assumes "resolve_capacity_target c p = Inr (Some s, b)" "reservation_ok l (k, c)" "pv_capacity_state c \<noteq> RELEASED"
  shows "s \<noteq> RELEASED"
  using assms by (cases rule: resolve_cases) (auto dest: result_target)

lemma result_in_flight:
  assumes "projection_inv l0" "apply_egress_result l0 p = Inr (l, d)" "in_flight l0 k"
  shows "in_flight l k"
  using assms(1,2)
proof (cases rule: result_step)
  case (applied c t b l2)
  then have l: "l = l2" by simp
  obtain e where e: "outstanding l0 k = Some e" "2 \<le> projection_rank (pv_capacity_state e)"
    using assms(3) by (auto simp: in_flight_def)
  show ?thesis
  proof (cases "k = eg_instrument_key p")
    case False
    with e only_scope_outstanding[OF result_only_scope[OF assms(1,2)] False] show ?thesis by (simp add: in_flight_def)
  next
    case True
    with e applied(2) have c: "e = c" by simp
    have "2 \<le> projection_rank (case t of None \<Rightarrow> pv_capacity_state c | Some s \<Rightarrow> s)"
      using resolved_rank[of c p _ b] applied(4) e c by (auto split: option.split)
    moreover have "(case t of None \<Rightarrow> pv_capacity_state c | Some s \<Rightarrow> s) \<noteq> RELEASED"
      using applied(2,4) inv_reservation[OF assms(1), of "eg_instrument_key p" c]
        resolved_unreleased[of c p _ b l0 "eg_instrument_key p"]
      by (auto simp: outstanding_Some split: option.split)
    ultimately show ?thesis using True l applied(7) by (simp add: in_flight_def outstanding_Some)
  qed
qed (use assms(3) in simp)

text \<open>The transmissions a scope's records report: hand-offs, and calls that raised.\<close>

definition reports_send :: "scope_key \<Rightarrow> engine_evidence_record \<Rightarrow> bool" where
  "reports_send k d =
    (ee_instrument_key d = Some k \<and>
     (ee_kind d = SEND_HANDED_OFF \<or> ee_kind d = FLOW_HALTED \<and> ee_halt_reason d = Some TRANSMIT_RAISED))"

definition sends :: "scope_key \<Rightarrow> sink \<Rightarrow> nat" where
  "sends k s = length (filter (reports_send k) s)"

lemma sends_append [simp]: "sends k (s @ t) = sends k s + sends k t"
  by (simp add: sends_def)

lemma sends_harmless: "list_all harmless ds \<Longrightarrow> sends k ds = 0"
  by (auto simp: sends_def filter_empty_conv list_all_iff harmless_def reports_send_def)

lemma sends_quiet: "quiet fc ds \<Longrightarrow> sends k ds = 0"
  by (auto simp: sends_def filter_empty_conv list_all_iff quiet_def reports_send_def)

text \<open>Every transmission but the one in flight was released.\<close>

definition sends_bounded :: "'w engine_state \<Rightarrow> bool" where
  "sends_bounded en =
    (projection_inv (es_ledger en) \<and>
     (\<forall>k. sends k (es_sink en) \<le>
       length (released_ids (es_ledger en) k) + (if in_flight (es_ledger en) k then 1 else 0)))"

lemma sends_bounded_at:
  "sends_bounded en \<Longrightarrow> sends k (es_sink en) \<le>
    length (released_ids (es_ledger en) k) + (if in_flight (es_ledger en) k then 1 else 0)"
  by (cases k) (simp add: sends_bounded_def)

lemma prepared_flight:
  assumes "prepared fc l0 l" "in_flight l0 k"
  shows "in_flight l k"
proof (cases "k = fc_instrument_key fc")
  case True
  then have "\<not> committed fc l0 l1" for l1
    using assms(2) committed_ledger(3)[of fc l0 l1] by (auto simp: in_flight_def)
  then show ?thesis using assms by (auto simp: prepared_def bound_to_def)
next
  case False
  from only_scope_outstanding[OF prepared_only_scope[OF assms(1)] False] assms(2) show ?thesis
    by (simp add: in_flight_def)
qed

lemma sends_bounded_prepared:
  assumes "sends_bounded en" "prepared fc (es_ledger en) (es_ledger en')" "sends k (es_sink en') = sends k (es_sink en)"
  shows "sends k (es_sink en') \<le>
      length (released_ids (es_ledger en') k) + (if in_flight (es_ledger en') k then 1 else 0)"
proof -
  have "released_ids (es_ledger en') = released_ids (es_ledger en)"
    using prepared_only_scope[OF assms(2)] by (simp add: only_scope_def)
  then show ?thesis
    using assms(3) sends_bounded_at[OF assms(1), of k] prepared_flight[OF assms(2), of k] by (auto split: if_splits)
qed


lemma sends_bounded_flow:
  assumes "sends_bounded en" "run_commitment_flow fc stages transmit en = (x, en')"
  shows "sends_bounded en'"
proof -
  have same: "sends k (es_sink en') \<le>
      length (released_ids (es_ledger en') k) + (if in_flight (es_ledger en') k then 1 else 0)"
    if "prepared fc (es_ledger en) (es_ledger en')" "\<And>k. sends k (es_sink en') = sends k (es_sink en)" for k
    by (rule sends_bounded_prepared[OF assms(1) that])
  have grown: "sends k (es_sink en') \<le>
      length (released_ids (es_ledger en') k) + (if in_flight (es_ledger en') k then 1 else 0)"
    if s: "sent_state fc en a d en'" and d: "ee_instrument_key d = Some (fc_instrument_key fc)" for a d k
  proof -
    obtain ds where ds: "es_sink en' = es_sink en @ ds @ [d]" "quiet fc ds" using s by (auto simp: sent_state_def)
    have one: "sends k [d] \<le> (if k = fc_instrument_key fc then 1 else 0)"
      using d by (auto simp: sends_def reports_send_def)
    have scope: "only_scope (fc_instrument_key fc) (es_ledger en) (es_ledger en')" using s by (simp add: sent_state_def)
    then have rel: "released_ids (es_ledger en') = released_ids (es_ledger en)" by (simp add: only_scope_def)
    note old = sends_bounded_at[OF assms(1), of k]
    have "sends k (es_sink en') = sends k (es_sink en) + sends k [d]" by (simp add: ds(1) sends_quiet[OF ds(2)])
    moreover have "k = fc_instrument_key fc \<Longrightarrow> \<not> in_flight (es_ledger en) k \<and> in_flight (es_ledger en') k"
      using s by (auto simp: sent_state_def in_flight_def live_reservation_def)
    moreover have "k \<noteq> fc_instrument_key fc \<Longrightarrow> in_flight (es_ledger en') k = in_flight (es_ledger en) k"
      using only_scope_outstanding[OF scope] by (simp add: in_flight_def)
    ultimately show ?thesis using old one by (auto simp: rel split: if_splits)
  qed
  have "\<forall>k. sends k (es_sink en') \<le>
      length (released_ids (es_ledger en') k) + (if in_flight (es_ledger en') k then 1 else 0)"
    using assms(2)
  proof (cases rule: flow_cases)
    case (refused e)
    then show ?thesis using assms(1) unfolding sends_bounded_def by blast
  next
    case (raised e ds)
    then show ?thesis using same by (simp add: sends_quiet)
  next
    case (halted r)
    then obtain ds step reason where ds: "es_sink en' = es_sink en @ ds @ [halt_record fc step reason]"
      "quiet fc ds" "reason \<noteq> TRANSMIT_RAISED" by (auto simp: stopped_ok_def)
    then have "sends k (es_sink en') = sends k (es_sink en)" for k
      by (simp add: sends_quiet) (simp add: sends_def reports_send_def halt_record_def)
    then show ?thesis using same[OF halted(3)] by blast
  next
    case (unsent r a vs)
    then show ?thesis using grown[OF unsent(5)] by (auto simp: halt_record_def)
  next
    case (sent r a)
    then show ?thesis using grown[OF sent(6)] by (auto simp: handed_off_record_def)
  qed
  with flow_projection_inv[OF assms(2)] assms(1) show ?thesis unfolding sends_bounded_def by blast
qed


lemma sends_bounded_result:
  assumes "sends_bounded en" "apply_egress_result (es_ledger en) p = Inr (l, d)"
  shows "sends_bounded (en\<lparr>es_ledger := l\<rparr>)"
proof -
  have inv: "projection_inv (es_ledger en)" using assms(1) by (simp add: sends_bounded_def)
  have rel: "released_ids l = released_ids (es_ledger en)"
    using result_only_scope[OF inv assms(2)] by (simp add: only_scope_def)
  have "sends k (es_sink en) \<le> length (released_ids l k) + (if in_flight l k then 1 else 0)" for k
    using sends_bounded_at[OF assms(1), of k] result_in_flight[OF inv assms(2), of k] rel by (auto split: if_splits)
  then show ?thesis
    using apply_egress_result_inv[OF inv assms(2)] by (simp add: sends_bounded_def)
qed

lemma sends_bounded_same:
  "sends_bounded en \<Longrightarrow> es_ledger en' = es_ledger en \<Longrightarrow> (\<And>k. sends k (es_sink en') = sends k (es_sink en)) \<Longrightarrow>
    sends_bounded en'"
  by (simp add: sends_bounded_def)

interpretation bounded: engine_invariant "sends_bounded" k for k
proof
  fix en :: "'a engine_state" and ds
  assume "sends_bounded en" "list_all harmless ds"
  then show "sends_bounded (en\<lparr>es_sink := es_sink en @ ds\<rparr>)"
    by (elim sends_bounded_same) (simp_all add: sends_harmless)
next
  fix en :: "'a engine_state" and w
  assume "sends_bounded en"
  then show "sends_bounded (en\<lparr>es_world := w\<rparr>)" by (elim sends_bounded_same) simp_all
qed (auto intro: sends_bounded_flow sends_bounded_result)

text \<open>What an event does to the ledger stays in its scope.\<close>

definition within_scope :: "scope_key \<Rightarrow> projection_ledger \<Rightarrow> 'w engine_state \<Rightarrow> bool" where
  "within_scope k l0 en = (projection_inv (es_ledger en) \<and> only_scope k l0 (es_ledger en))"

interpretation scoped: engine_invariant "within_scope k l0" k for k l0
proof
  fix en en' :: "'a engine_state" and fc stages transmit x
  assume a: "within_scope k l0 en" "fc_instrument_key fc = k" "run_commitment_flow fc stages transmit en = (x, en')"
  have "only_scope k l0 (es_ledger en')"
    using only_scope_trans[of k l0 "es_ledger en"] flow_scope[OF a(3)] a(1,2) by (simp add: within_scope_def)
  then show "within_scope k l0 en'" using flow_projection_inv[OF a(3)] a(1) by (simp add: within_scope_def)
next
  fix en :: "'a engine_state" and p l d
  assume a: "within_scope k l0 en" "eg_instrument_key p = k" "apply_egress_result (es_ledger en) p = Inr (l, d)"
  then have inv: "projection_inv (es_ledger en)" by (simp add: within_scope_def)
  have "only_scope k l0 l"
    using only_scope_trans[of k l0 "es_ledger en"] result_only_scope[OF inv a(3)] a(1,2) by (simp add: within_scope_def)
  then show "within_scope k l0 (en\<lparr>es_ledger := l\<rparr>)"
    using apply_egress_result_inv[OF inv a(3)] by (simp add: within_scope_def)
qed (simp_all add: within_scope_def)


section \<open>Runs of the core\<close>

text \<open>
  A core is made with a ledger of its own; then events are handled, in any order and with any outcome,
  the runtime releases attempts and discards unsent reservations on the ledger, and the state of the
  stages, the transmit and the preconditions moves.
\<close>

inductive core_run :: "('w, 'c) wiring \<Rightarrow> 'w core \<Rightarrow> bool" for wi where
  made: "make_core wi None w = Inr co \<Longrightarrow> core_run wi co"
| handled: "core_run wi co \<Longrightarrow> handle wi event co = (x, co') \<Longrightarrow> core_run wi co'"
| released: "core_run wi co \<Longrightarrow> release (es_ledger (co_engine co)) a = Inr (l, b) \<Longrightarrow>
    core_run wi (co\<lparr>co_engine := (co_engine co)\<lparr>es_ledger := l\<rparr>\<rparr>)"
| discarded: "core_run wi co \<Longrightarrow> discard_unsent (es_ledger (co_engine co)) q = (l, b) \<Longrightarrow>
    core_run wi (co\<lparr>co_engine := (co_engine co)\<lparr>es_ledger := l\<rparr>\<rparr>)"
| moved: "core_run wi co \<Longrightarrow> core_run wi (with_world co w)"

lemma make_core_Inr:
  "make_core wi None w = Inr co \<Longrightarrow>
    es_ledger (co_engine co) = empty_projection (cg_max_unresolved_send_per_scope (wi_configuration wi)) \<and>
    es_sink (co_engine co) = [] \<and> validate_stage_map (wi_stages wi) = Inr () \<and> co_last_reference co = None"
  by (auto simp: make_core_def make_ledger_def empty_projection_def split: sum.splits if_splits)

lemma in_flight_eq: "outstanding l' k = outstanding l k \<Longrightarrow> in_flight l' k = in_flight l k"
  by (simp add: in_flight_def)

lemma sends_bounded_release:
  assumes "sends_bounded en" "release (es_ledger en) a = Inr (l, b)"
  shows "sends_bounded (en\<lparr>es_ledger := l\<rparr>)"
proof -
  have inv: "projection_inv (es_ledger en)" using assms(1) by (simp add: sends_bounded_def)
  have "sends k (es_sink en) \<le> length (released_ids l k) + (if in_flight l k then 1 else 0)" for k
    using inv assms(2)
  proof (cases rule: release_step)
    case refused
    then show ?thesis using sends_bounded_at[OF assms(1), of k] by simp
  next
    case (released j r l2)
    then have l: "l2 = l" by simp
    have "a \<notin> set (released_ids (es_ledger en) j)"
      using outstanding_attempt_unreleased[OF inv released(2,3)] .
    then have "length (released_ids l j) = length (released_ids (es_ledger en) j) + 1"
      using released(6) l by (simp add: released_ids_def)
    moreover have "k \<noteq> j \<Longrightarrow> released_ids l k = released_ids (es_ledger en) k"
      using released(6) l by (simp add: released_ids_def)
    moreover have "k \<noteq> j \<Longrightarrow> in_flight l k = in_flight (es_ledger en) k"
      using outstanding_eq[OF released(5)] l by (intro in_flight_eq) simp
    ultimately show ?thesis using sends_bounded_at[OF assms(1), of k] by (cases "k = j") (auto split: if_splits)
  qed
  then show ?thesis using release_inv[OF inv assms(2)] by (simp add: sends_bounded_def)
qed

lemma sends_bounded_discard:
  assumes "sends_bounded en" "discard_unsent (es_ledger en) q = (l, b)"
  shows "sends_bounded (en\<lparr>es_ledger := l\<rparr>)"
proof -
  have inv: "projection_inv (es_ledger en)" using assms(1) by (simp add: sends_bounded_def)
  have "sends k (es_sink en) \<le> length (released_ids l k) + (if in_flight l k then 1 else 0)" for k
    using inv assms(2)
  proof (cases rule: discard_step)
    case refused
    then show ?thesis using sends_bounded_at[OF assms(1), of k] by simp
  next
    case (discarded j r)
    then have l: "l = (es_ledger en)\<lparr>pl_reservations := filter (\<lambda>(i, _). i \<noteq> j) (pl_reservations (es_ledger en))\<rparr>"
      by simp
    have "released_ids l = released_ids (es_ledger en)" by (simp add: l released_ids_def fun_eq_iff)
    moreover have "\<not> in_flight (es_ledger en) j"
      using discarded(2,5) by (auto simp: in_flight_def outstanding_Some)
    moreover have "k \<noteq> j \<Longrightarrow> in_flight l k = in_flight (es_ledger en) k"
      unfolding l by (intro in_flight_eq) (simp add: outstanding_filter)
    ultimately show ?thesis using sends_bounded_at[OF assms(1), of k] by (cases "k = j") (auto split: if_splits)
  qed
  then show ?thesis using discard_inv[OF inv assms(2)] by (simp add: sends_bounded_def)
qed

lemma core_run_bounded: "core_run wi co \<Longrightarrow> sends_bounded (co_engine co)"
proof (induction rule: core_run.induct)
  case (made w co)
  from make_core_Inr[OF this] show ?case
    by (simp add: sends_bounded_def sends_def projection_inv_def empty_projection_def)
next
  case (handled co event x co')
  then show ?case using bounded.event_kept by blast
qed (simp_all add: sends_bounded_release sends_bounded_discard bounded.world_kept)

text \<open>
  C29: at most one exposure is ever in flight: in every run of the core, whatever the events, the
  strategies, the stages, the transmit and the configured bound, the transmissions a scope's evidence
  reports, handed off or raised, are at most the attempts released in that scope, plus one exactly when
  the scope now holds an exposure that may be at the broker.
\<close>

theorem one_exposure_at_a_time:
  assumes "core_run wi co"
  shows "sends k (es_sink (co_engine co)) \<le>
    length (released_ids (es_ledger (co_engine co)) k) + (if in_flight (es_ledger (co_engine co)) k then 1 else 0)"
  by (rule sends_bounded_at[OF core_run_bounded[OF assms]])

lemma core_run_inv: "core_run wi co \<Longrightarrow> projection_inv (es_ledger (co_engine co))"
  using core_run_bounded by (auto simp: sends_bounded_def)

text \<open>
  C31: an event stays in its scope: in every run, handling an event of one scope, even when it raises,
  leaves the reservation of every other scope as it was, and releases no attempt of any scope.
\<close>

theorem events_stay_in_scope:
  assumes "core_run wi co" "handle wi event co = (x, co')" "j \<noteq> event_instrument_key event"
  shows "outstanding (es_ledger (co_engine co')) j = outstanding (es_ledger (co_engine co)) j \<and>
    released_ids (es_ledger (co_engine co')) = released_ids (es_ledger (co_engine co))"
proof -
  let ?l = "es_ledger (co_engine co)"
  have "within_scope (event_instrument_key event) ?l (co_engine co)"
    using core_run_inv[OF assms(1)] by (simp add: within_scope_def)
  from scoped.event_kept[OF assms(2) refl this]
  have "only_scope (event_instrument_key event) ?l (es_ledger (co_engine co'))" by (simp add: within_scope_def)
  with only_scope_outstanding[OF this assms(3)] show ?thesis by (simp add: only_scope_def)
qed


section \<open>The gates of a tick\<close>

definition preconditions_hold :: "('w, 'c) wiring \<Rightarrow> 'w \<Rightarrow> bool" where
  "preconditions_hold wi w =
    (let (current, w1) = wi_authority_epoch_current wi w; (authorized, w2) = wi_live_scope_authorized wi (wi_transport_nature wi) w1
     in current = Some True \<and> authorized = Some True)"

lemma core_record_sel [simp]:
  "es_ledger (co_engine (core_record co d)) = es_ledger (co_engine co)"
  "es_sink (co_engine (core_record co d)) = es_sink (co_engine co) @ [d]"
  "co_last_reference (core_record co d) = co_last_reference co"
  by (simp_all add: core_record_def record_evidence_def)

lemma with_world_sel [simp]:
  "es_ledger (co_engine (with_world co w)) = es_ledger (co_engine co)"
  "es_sink (co_engine (with_world co w)) = es_sink (co_engine co)"
  "co_last_reference (with_world co w) = co_last_reference co"
  by (simp_all add: with_world_def)

text \<open>
  C30: no tick runs without both preconditions: when the authority epoch or the live scope does not
  answer exactly true, \<open>None\<close> included, a tick returns with neither pipeline nor flow, leaves the ledger
  as it was, and adds one record, of the refusal, with its reason.
\<close>

theorem no_tick_without_preconditions:
  assumes "handle wi (DECISION_TICK p) co = (x, co')" "\<not> preconditions_hold wi (es_world (co_engine co))"
  shows "\<exists>r d. x = Inr r \<and> ev_pipeline r = None \<and> ev_flow r = None \<and>
    es_ledger (co_engine co') = es_ledger (co_engine co) \<and> es_sink (co_engine co') = es_sink (co_engine co) @ [d] \<and>
    ee_kind d \<in> {EVENT_REFUSED, COORDINATOR_PRECONDITION_REFUSED} \<and> ee_halt_reason d = ev_halt_reason r \<and>
    ev_halt_reason r \<in> {Some EVENT_ORDER_REVERSED, Some AUTHORITY_NOT_CURRENT, Some LIVE_SCOPE_NOT_AUTHORIZED}"
proof (cases "ordering_admission (co_last_reference co) (dt_reference p) = REVERSED")
  case True
  then show ?thesis using assms(1) by (auto simp: handle_def event_result_def Let_def)
next
  case False
  let ?adm = "ordering_admission (co_last_reference co) (dt_reference p)"
  let ?co = "co\<lparr>co_last_reference := Some (dt_reference p)\<rparr>"
  obtain y co1 where y: "coordinator_precondition_refusal wi (dt_instrument_key p) ?adm ?co = (y, co1)"
    by (metis surj_pair)
  then show ?thesis
  proof (cases rule: precondition_cases)
    case (pass w w2)
    then show ?thesis using assms(2) by (simp add: preconditions_hold_def)
  next
    case (refused w reason)
    then have "x = Inr (the y)" "co' = co1"
      using assms(1) False y by (auto simp: handle_def handle_decision_tick_def Let_def)
    then show ?thesis using refused by (auto simp: event_result_def)
  qed
qed

text \<open>How a tick whose flow is reported got there.\<close>

lemma run_entries_flow:
  assumes "run_entries wi payload admission i entries last_pipeline co = (Inr r, co')" "ev_flow r = Some f"
  obtains entry sink pr s2 a en where "entry \<in> set entries"
    "run_decision_pipeline (wi_schemes wi) (wi_scheme wi) (wi_configuration wi) entry payload sink = (Inr pr, s2)"
    "pr_proposal pr = Some a" "ev_pipeline r = Some pr" "es_ledger en = es_ledger (co_engine co)"
    "run_commitment_flow (flow_context_of wi payload i a) (wi_stages wi) (wi_transmit wi) en = (Inr f, co_engine co')"
  using assms
proof (induction entries arbitrary: last_pipeline co thesis)
  case Nil
  then show ?case by (auto simp: event_result_def Let_def)
next
  case (Cons entry entries)
  let ?en = "co_engine co"
  obtain run sink where run: "run_decision_pipeline (wi_schemes wi) (wi_scheme wi) (wi_configuration wi) entry
      payload (es_sink ?en) = (run, sink)" by (metis surj_pair)
  let ?co = "co\<lparr>co_engine := ?en\<lparr>es_sink := sink\<rparr>\<rparr>"
  note eq = Cons.prems(2)[unfolded run_entries.simps Let_def run prod.case]
  obtain pr where pr: "run = Inr pr" using eq by (cases run) auto
  show ?case
  proof (cases "pr_proposal pr")
    case (Some a)
    obtain fl en2 where fl: "run_commitment_flow (flow_context_of wi payload i a) (wi_stages wi) (wi_transmit wi)
        (co_engine ?co) = (fl, en2)" by (metis surj_pair)
    note eq = eq[unfolded pr sum.case Some option.case fl prod.case]
    obtain f' where f': "fl = Inr f'" using eq by (cases fl) auto
    have "f' = f" "co_engine co' = en2" "ev_pipeline r = Some pr" using eq f' Cons.prems(3) by auto
    then show ?thesis using Cons.prems(1)[of entry "es_sink ?en" pr sink a "co_engine ?co"] run pr Some fl f' by simp
  next
    case None
    then have "run_entries wi payload admission i entries (Some pr) ?co = (Inr r, co')" using eq pr by simp
    from Cons.IH[OF _ this Cons.prems(3)] Cons.prems(1) show ?thesis by fastforce
  qed
qed

lemma tick_flow:
  assumes "handle wi (DECISION_TICK payload) co = (Inr r, co')" "ev_flow r = Some f"
  obtains es entry sink pr s2 a en where "preconditions_hold wi (es_world (co_engine co))"
    "ordering_admission (co_last_reference co) (dt_reference payload) \<noteq> REVERSED"
    "resolve (wi_registry wi) (dt_instrument_key payload) = DISPATCHED es" "entry \<in> set es"
    "run_decision_pipeline (wi_schemes wi) (wi_scheme wi) (wi_configuration wi) entry payload sink = (Inr pr, s2)"
    "pr_proposal pr = Some a" "ev_pipeline r = Some pr" "es_ledger en = es_ledger (co_engine co)"
    "run_commitment_flow
      (flow_context_of wi payload
        (event_identity (wi_event_dump wi) (cz_compute_digest (wi_scheme wi)) (DECISION_TICK payload)) a)
      (wi_stages wi) (wi_transmit wi) en = (Inr f, co_engine co')"
proof -
  let ?adm = "ordering_admission (co_last_reference co) (dt_reference payload)"
  let ?co = "co\<lparr>co_last_reference := Some (dt_reference payload)\<rparr>"
  let ?i = "event_identity (wi_event_dump wi) (cz_compute_digest (wi_scheme wi)) (DECISION_TICK payload)"
  have adm: "?adm \<noteq> REVERSED" using assms by (auto simp: handle_def event_result_def Let_def split: if_splits)
  then have tick: "handle_decision_tick wi payload ?adm ?co = (Inr r, co')" using assms(1) by (simp add: handle_def Let_def)
  obtain y co1 where y: "coordinator_precondition_refusal wi (dt_instrument_key payload) ?adm ?co = (y, co1)"
    by (metis surj_pair)
  then show thesis
  proof (cases rule: precondition_cases)
    case (pass w w2)
    then have pre: "preconditions_hold wi (es_world (co_engine co))" by (simp add: preconditions_hold_def)
    show thesis
    proof (cases "resolve (wi_registry wi) (dt_instrument_key payload)")
      case (DISPATCHED es)
      then have "run_entries wi payload ?adm ?i es None co1 = (Inr r, co')"
        using tick y pass(1) by (simp add: handle_decision_tick_def Let_def)
      from run_entries_flow[OF this assms(2)] obtain entry sink pr s2 a en where
        "entry \<in> set es"
        "run_decision_pipeline (wi_schemes wi) (wi_scheme wi) (wi_configuration wi) entry payload sink = (Inr pr, s2)"
        "pr_proposal pr = Some a" "ev_pipeline r = Some pr" "es_ledger en = es_ledger (co_engine co1)"
        "run_commitment_flow (flow_context_of wi payload ?i a) (wi_stages wi) (wi_transmit wi) en = (Inr f, co_engine co')"
        by blast
      with pre adm DISPATCHED pass(4) show thesis by (intro that) simp_all
    qed (use tick y pass(1) assms(2) in \<open>auto simp: handle_decision_tick_def withhold_def event_result_def Let_def\<close>)
  next
    case (refused w reason)
    then have "ev_flow r = None" using tick y by (auto simp: handle_decision_tick_def event_result_def Let_def)
    with assms(2) show thesis by simp
  qed
qed


lemma handed_off_flow:
  assumes "run_commitment_flow fc stages transmit en = (Inr r, en')" "fl_handed_off r"
  obtains a where "fl_attempt r = Some a" "all_admitted fc (fl_verdicts r) a"
    "sent_state fc en a (handed_off_record fc a) en'"
  using assms by (cases rule: flow_cases) (auto simp: stopped_ok_def)

text \<open>
  C28: a hand-off end to end: when handling a tick reports a flow that handed off, both preconditions
  held, the event was not reversed, the capsule was issued, complete and of this scope with trusted time
  in an open session, the proposal is an issued artifact for exactly this scope and capsule from a
  strategy registered for it within the budget, all 14 steps admitted in order, the scope was free for a
  new exposure, and its reservation now is potentially live for the very attempt and proposal handed off.
\<close>

theorem hand_off_end_to_end:
  assumes "handle wi (DECISION_TICK payload) co = (Inr r, co')" "ev_flow r = Some f" "fl_handed_off f"
  shows "preconditions_hold wi (es_world (co_engine co)) \<and> capsule_usable payload \<and>
    ordering_admission (co_last_reference co) (dt_reference payload) \<noteq> REVERSED \<and>
    admits_new_exposure (es_ledger (co_engine co)) (dt_instrument_key payload) \<and>
    (\<exists>es entry a t. resolve (wi_registry wi) (dt_instrument_key payload) = DISPATCHED es \<and> entry \<in> set es \<and>
      rg_instrument_key entry = dt_instrument_key payload \<and> ar_status a = ISSUED \<and>
      component_key a = (Some (fst (dt_instrument_key payload)), Some (snd (dt_instrument_key payload))) \<and>
      pc_capsule (ar_content a) = capsule_ref_of (dt_capsule payload) \<and>
      map sv_step (fl_verdicts f) = SEQUENCED_STEPS \<and> list_all (\<lambda>v. sv_outcome v = ADMIT) (fl_verdicts f) \<and>
      fl_attempt f = Some t \<and>
      (\<exists>c. outstanding (es_ledger (co_engine co')) (dt_instrument_key payload) = Some c \<and>
        pv_capacity_state c = POTENTIALLY_LIVE \<and> pv_knowledge c = SENT_UNCONFIRMED \<and>
        pv_attempt_id c = Some (at_attempt_id t) \<and> pv_proposal_id c = ar_id a))"
proof -
  let ?i = "event_identity (wi_event_dump wi) (cz_compute_digest (wi_scheme wi)) (DECISION_TICK payload)"
  obtain es entry sink pr s2 a en where t: "preconditions_hold wi (es_world (co_engine co))"
    "ordering_admission (co_last_reference co) (dt_reference payload) \<noteq> REVERSED"
    "resolve (wi_registry wi) (dt_instrument_key payload) = DISPATCHED es" "entry \<in> set es"
    and pipe: "run_decision_pipeline (wi_schemes wi) (wi_scheme wi) (wi_configuration wi) entry payload sink = (Inr pr, s2)"
      "pr_proposal pr = Some a" "ev_pipeline r = Some pr"
    and en: "es_ledger en = es_ledger (co_engine co)"
    and flow: "run_commitment_flow (flow_context_of wi payload ?i a) (wi_stages wi) (wi_transmit wi) en =
      (Inr f, co_engine co')"
    by (rule tick_flow[OF assms(1,2)])
  obtain at_req where s: "fl_attempt f = Some at_req" "all_admitted (flow_context_of wi payload ?i a) (fl_verdicts f) at_req"
    "sent_state (flow_context_of wi payload ?i a) en at_req (handed_off_record (flow_context_of wi payload ?i a) at_req)
      (co_engine co')"
    by (rule handed_off_flow[OF flow assms(3)])
  have "\<exists>c. outstanding (es_ledger (co_engine co')) (dt_instrument_key payload) = Some c \<and>
      pv_capacity_state c = POTENTIALLY_LIVE \<and> pv_knowledge c = SENT_UNCONFIRMED \<and>
      pv_attempt_id c = Some (at_attempt_id at_req) \<and> pv_proposal_id c = ar_id a"
    using s(3) by (simp add: sent_state_def flow_context_of_def live_reservation_def unbound_reservation_def)
  moreover have "admits_new_exposure (es_ledger (co_engine co)) (dt_instrument_key payload)"
    using s(3) en by (simp add: sent_state_def flow_context_of_def)
  moreover have "map sv_step (fl_verdicts f) = SEQUENCED_STEPS" "list_all (\<lambda>v. sv_outcome v = ADMIT) (fl_verdicts f)"
    using s(2) by (simp_all add: all_admitted_def)
  ultimately show ?thesis using t s(1) proposal_gates[OF pipe(1,2)] by blast
qed

section \<open>Order\<close>

lemma run_entries_order:
  "run_entries wi payload admission i entries last_pipeline co = (y, co') \<Longrightarrow>
    co_last_reference co' = co_last_reference co \<and> (\<forall>r. y = Inr r \<longrightarrow> ev_ordering r = admission)"
  by (induction entries arbitrary: last_pipeline co)
    (fastforce simp: event_result_def Let_def split: prod.splits sum.splits option.splits)+

lemma tick_order:
  assumes "handle_decision_tick wi payload admission co = (y, co')"
  shows "co_last_reference co' = co_last_reference co \<and> (\<forall>r. y = Inr r \<longrightarrow> ev_ordering r = admission)"
proof -
  obtain z co1 where z: "coordinator_precondition_refusal wi (dt_instrument_key payload) admission co = (z, co1)"
    by (metis surj_pair)
  then show ?thesis
  proof (cases rule: precondition_cases)
    case (pass w w2)
    show ?thesis
    proof (cases "resolve (wi_registry wi) (dt_instrument_key payload)")
      case (DISPATCHED es)
      then have "\<exists>i. run_entries wi payload admission i es None co1 = (y, co')"
        using assms z pass(1) by (auto simp: handle_decision_tick_def Let_def)
      then show ?thesis using run_entries_order pass(4) by fastforce
    qed (use assms z pass in \<open>auto simp: handle_decision_tick_def withhold_def event_result_def Let_def\<close>)
  next
    case (refused w reason)
    then show ?thesis using assms z by (auto simp: handle_decision_tick_def event_result_def Let_def)
  qed
qed

lemma handle_order:
  assumes "handle wi event co = (Inr r, co')"
  shows "ev_ordering r = ordering_admission (co_last_reference co) (event_reference event) \<and>
    co_last_reference co' =
      (if ev_ordering r = REVERSED then co_last_reference co else Some (event_reference event))"
proof (cases "ordering_admission (co_last_reference co) (event_reference event) = REVERSED")
  case True
  then show ?thesis using assms by (auto simp: handle_def event_result_def Let_def)
next
  case False
  show ?thesis
  proof (cases event)
    case (DECISION_TICK p)
    then have "handle_decision_tick wi p (ordering_admission (co_last_reference co) (event_reference event))
        (co\<lparr>co_last_reference := Some (event_reference event)\<rparr>) = (Inr r, co')"
      using assms False by (simp add: handle_def Let_def)
    from tick_order[OF this] False show ?thesis by simp
  next
    case (EGRESS_RESULT p)
    then show ?thesis using assms False
      by (auto simp: handle_def handle_egress_result_def event_result_def Let_def
          split: sum.splits prod.splits option.splits if_splits)
  next
    case (CORPORATE_ACTION p)
    then show ?thesis using assms False
      by (auto simp: handle_def handle_corporate_action_def event_result_def Let_def)
  qed
qed


definition consumed :: "'c engine_event list \<Rightarrow> event_result list \<Rightarrow> ordering_event list" where
  "consumed events rs = map (event_reference \<circ> fst) (filter (\<lambda>(e, r). ev_ordering r \<noteq> REVERSED) (zip events rs))"

lemma consumed_Cons [simp]:
  "consumed (e # es) (r # rs) = (if ev_ordering r = REVERSED then [] else [event_reference e]) @ consumed es rs"
  by (simp add: consumed_def)

abbreviation watermark :: "'w core \<Rightarrow> ordering_event list" where
  "watermark co \<equiv> (case co_last_reference co of None \<Rightarrow> [] | Some m \<Rightarrow> [m])"

text \<open>
  Consecutive events are consumed in order: in a run of events that returns, one result per event,
  no consumed event positively precedes the one consumed just before it, the first of them none that
  precedes the watermark the run started from, and the watermark is the last consumed reference.
\<close>

theorem consecutive_events_in_order:
  assumes "run_events wi events co = (Inr rs, co')"
  shows "length rs = length events \<and>
    successively (\<lambda>a b. compare_order b a \<noteq> BEFORE) (watermark co @ consumed events rs) \<and>
    co_last_reference co' =
      (if consumed events rs = [] then co_last_reference co else Some (last (consumed events rs)))"
  using assms
proof (induction events arbitrary: co rs)
  case Nil
  then show ?case by (simp add: consumed_def split: option.split)
next
  case (Cons e events)
  obtain r co1 rs1 where r: "handle wi e co = (Inr r, co1)" "run_events wi events co1 = (Inr rs1, co')" "rs = r # rs1"
    using Cons.prems by (auto split: prod.splits sum.splits)
  note o = handle_order[OF r(1)] and IH = Cons.IH[OF r(2)]
  show ?case
  proof (cases "ev_ordering r = REVERSED")
    case True
    with o IH r(3) show ?thesis by simp
  next
    case False
    then have "co_last_reference co1 = Some (event_reference e)" using o by simp
    moreover have "co_last_reference co = Some m \<Longrightarrow> compare_order (event_reference e) m \<noteq> BEFORE" for m
      using o False by (auto simp: ordering_admission_def)
    ultimately show ?thesis using IH r(3) False
      by (auto simp: successively_Cons split: option.split)
  qed
qed

section \<open>Results\<close>

text \<open>
  C32: results are always consumed: in every run a result event that is not reversed is handled without
  an error and leaves one more record, which is unmatched exactly when the disposition is not \<open>APPLIED\<close>;
  an unmatched result leaves the ledger as it was.
\<close>

theorem results_are_always_consumed:
  assumes "core_run wi co" "ordering_admission (co_last_reference co) (eg_reference p) \<noteq> REVERSED"
  shows "\<exists>r co' d. handle wi (EGRESS_RESULT p) co = (Inr r, co') \<and>
    es_sink (co_engine co') = es_sink (co_engine co) @ [d] \<and>
    ee_kind d = (if ev_result_disposition r = Some APPLIED then EGRESS_RESULT_CONSUMED else RESULT_UNMATCHED) \<and>
    ee_result_disposition d = ev_result_disposition r \<and> event_outcome_digest r \<noteq> None \<and>
    (ev_result_disposition r \<noteq> Some APPLIED \<longrightarrow> es_ledger (co_engine co') = es_ledger (co_engine co))"
proof -
  let ?l = "es_ledger (co_engine co)" and ?p = "egress_result_payload.truncate p"
  note inv = core_run_inv[OF assms(1)]
  from inv refl show ?thesis
  proof (cases rule: result_step[of ?l ?p])
    case (ignored d)
    then show ?thesis using assms(2)
      by (simp add: handle_def handle_egress_result_def event_result_def event_outcome_digest_def Let_def)
  next
    case (applied c t b l)
    have k: "eg_instrument_key ?p = eg_instrument_key p" by (simp add: egress_result_payload.truncate_def)
    have "(case t of None \<Rightarrow> pv_capacity_state c | Some s \<Rightarrow> s) \<noteq> RELEASED"
      using applied(2,4) inv_reservation[OF inv, of "eg_instrument_key ?p" c]
        resolved_unreleased[of c ?p _ b ?l "eg_instrument_key ?p"]
      by (auto simp: outstanding_Some split: option.split)
    then have "outstanding l (eg_instrument_key p) = Some (updated_reservation c ?p t b)"
      using applied(7) k by (simp add: outstanding_Some)
    then show ?thesis using applied(1) assms(2)
      by (simp add: handle_def handle_egress_result_def event_result_def event_outcome_digest_def Let_def)
  qed
qed

lemma value_inj:
  "disposition_value a = disposition_value b \<Longrightarrow> a = b" "knowledge_value c = knowledge_value d \<Longrightarrow> c = d"
  by (cases a; cases b; simp) (cases c; cases d; simp)

lemma jopt_inj: "jopt a = jopt b \<longleftrightarrow> a = b"
  by (cases a; cases b) simp_all

text \<open>
  The digest of a result binds its outcome: under the canonical encoding with a digest that does
  not collide on the two outcomes, results with the same digest have the same disposition, and the same projected
  knowledge; so a duplicate never digests like the application it repeats.
\<close>

theorem result_digest_binds:
  assumes "\<not> collision H (encode (egress_outcome_json d r)) (encode (egress_outcome_json d' r'))"
    "egress_result_outcome_digest (compute_digest H) d r = egress_result_outcome_digest (compute_digest H) d' r'"
  shows "d = d' \<and> map_option pv_knowledge r = map_option pv_knowledge r'"
proof -
  have "canon (egress_outcome_json d r) = canon (egress_outcome_json d' r')"
    using assms(2) no_collision[OF assms(1)] by (simp add: egress_result_outcome_digest_def compute_digest_def)
  moreover have "canon (jopt x) = jopt x" for x by (cases x) simp_all
  ultimately have "disposition_value d = disposition_value d'"
    "map_option (knowledge_value \<circ> pv_knowledge) r = map_option (knowledge_value \<circ> pv_knowledge) r'"
    by (simp_all add: egress_outcome_json_def jopt_inj)
  then show ?thesis using value_inj by (cases r; cases r') auto
qed


section \<open>A run of the core\<close>

definition demo_wiring :: "(unit, unit) wiring" where
  "demo_wiring =
    \<lparr>wi_schemes = demo_registry, wi_scheme = demo_cz, wi_registry = [(demo_key, [demo_entry])],
     wi_stages = admitting ''d'' ''p'', wi_configuration = demo_configuration,
     wi_authority_epoch_current = (\<lambda>w. (Some True, w)),
     wi_live_scope_authorized = (\<lambda>nature w. (if nature = Some (Some True) then None else Some True, w)),
     wi_transmit = Some accepting, wi_transport_nature = Some (Some False), wi_event_dump = (\<lambda>_. JNull),
     wi_handle_corporate_action = (\<lambda>_. \<lparr>no_disposition = ''NONTRADE_ADMISSIBLE'', no_outcome_digest = ''1''\<rparr>)\<rparr>"

definition demo_core :: "unit core" where
  "demo_core = \<lparr>co_engine = demo_state, co_last_reference = None\<rparr>"

lemma demo_made: "make_core demo_wiring None () = Inr demo_core"
  by (simp add: make_core_def demo_wiring_def admitting_valid make_ledger_def demo_configuration_def demo_core_def
      demo_state_def empty_projection_def)

lemma accepted_flow:
  assumes "\<And>j. \<not> blank (fc_scheme fc j)" "es_ledger en = empty_projection 1"
  obtains f en' where "run_commitment_flow fc (admitting ''d'' ''p'') (Some accepting) en = (Inr f, en')" "fl_handed_off f"
proof -
  have "\<not> blank (''attempt-'' @ x)" "\<not> blank ''d''" "\<not> blank ''p''" for x
    by (simp_all add: blank_def white_space_def)
  then have "\<exists>f en'. run_commitment_flow fc (admitting ''d'' ''p'') (Some accepting) en = (Inr f, en') \<and> fl_handed_off f"
    by (simp add: run_commitment_flow_def admitting_valid sequenced_steps admitting_lookup injected_steps
        admitting_verdict_def flow_step_def stage_step_def judge_verdict_def attempt_step_def halt_def stop_flow_def
        Let_def bindings_from_def coordinator_verdict_def commit_unbound_def bind_attempt_def store_reservation_def
        mark_potentially_live_def admits_new_exposure_def outstanding_count_def outstanding_def released_ids_def
        empty_projection_def build_attempt_request_def bindings_concrete_def reference_coordinate_digest_def
        derive_id_def flow_start_def hand_off_def accepting_def assms)
  then show thesis using that by blast
qed


lemma demo_tick:
  obtains r co f where "handle demo_wiring (DECISION_TICK (demo_payload 1)) demo_core = (Inr r, co)"
    "ev_flow r = Some f" "fl_handed_off f"
proof -
  let ?p = "demo_payload 1"
  let ?i = "event_identity (wi_event_dump demo_wiring) (cz_compute_digest (wi_scheme demo_wiring)) (DECISION_TICK ?p)"
  obtain pr a sink where run:
    "run_decision_pipeline demo_registry demo_cz demo_configuration demo_entry ?p [] = (Inr pr, sink)"
    "pr_proposal pr = Some a" by (rule demo_run)
  have "\<not> blank (fc_scheme (flow_context_of demo_wiring ?p ?i a) j)" for j
    by (cases j) (simp_all add: flow_context_of_def demo_wiring_def demo_cz_def compute_digest_def
        num_token_def str_token_def obj_token_def arr_token_def blank_def white_space_def)
  then obtain f en where flow: "run_commitment_flow (flow_context_of demo_wiring ?p ?i a) (admitting ''d'' ''p'')
      (Some accepting) \<lparr>es_ledger = empty_projection 1, es_sink = sink, es_world = ()\<rparr> = (Inr f, en)" "fl_handed_off f"
    by (rule accepted_flow[of "flow_context_of demo_wiring ?p ?i a"
        "\<lparr>es_ledger = empty_projection 1, es_sink = sink, es_world = ()\<rparr>"]) simp_all
  have wiring: "wi_schemes demo_wiring = demo_registry" "wi_scheme demo_wiring = demo_cz"
    "wi_registry demo_wiring = [(demo_key, [demo_entry])]" "wi_stages demo_wiring = admitting ''d'' ''p''"
    "wi_configuration demo_wiring = demo_configuration" "wi_transmit demo_wiring = Some accepting"
    "wi_authority_epoch_current demo_wiring w = (Some True, w)"
    "wi_live_scope_authorized demo_wiring (wi_transport_nature demo_wiring) w = (Some True, w)" for w
    by (simp_all add: demo_wiring_def)
  have payload: "dt_instrument_key ?p = demo_key" "dt_reference ?p = demo_event 1" by (simp_all add: demo_payload_def)
  have "\<exists>r co. handle demo_wiring (DECISION_TICK ?p) demo_core = (Inr r, co) \<and> ev_flow r = Some f"
    using run flow(1)
    by (simp add: handle_def handle_decision_tick_def coordinator_precondition_refusal_def wiring payload
        demo_core_def demo_state_def ordering_admission_def resolve_def event_result_def with_world_def Let_def)
  then show thesis using that flow(2) by blast
qed

theorem hand_off_end_to_end_witness:
  "\<exists>r co f. handle demo_wiring (DECISION_TICK (demo_payload 1)) demo_core = (Inr r, co) \<and> ev_flow r = Some f \<and>
    fl_handed_off f \<and> map sv_step (fl_verdicts f) = SEQUENCED_STEPS \<and>
    (\<exists>c. outstanding (es_ledger (co_engine co)) demo_key = Some c \<and> pv_capacity_state c = POTENTIALLY_LIVE)"
proof -
  obtain r co f where r: "handle demo_wiring (DECISION_TICK (demo_payload 1)) demo_core = (Inr r, co)"
    "ev_flow r = Some f" "fl_handed_off f" by (rule demo_tick)
  have "dt_instrument_key (demo_payload 1) = demo_key" by (simp add: demo_payload_def)
  with hand_off_end_to_end[OF r] r show ?thesis by auto
qed

theorem one_exposure_at_a_time_witness:
  "\<exists>co. core_run demo_wiring co \<and> in_flight (es_ledger (co_engine co)) demo_key \<and>
    sends demo_key (es_sink (co_engine co)) \<le> length (released_ids (es_ledger (co_engine co)) demo_key) + 1"
proof -
  obtain r co f where r: "handle demo_wiring (DECISION_TICK (demo_payload 1)) demo_core = (Inr r, co)"
    "ev_flow r = Some f" "fl_handed_off f" by (rule demo_tick)
  have run: "core_run demo_wiring co" by (rule core_run.handled[OF core_run.made[OF demo_made] r(1)])
  obtain es entry sink pr s2 a en where
    flow: "run_commitment_flow
      (flow_context_of demo_wiring (demo_payload 1)
        (event_identity (wi_event_dump demo_wiring) (cz_compute_digest (wi_scheme demo_wiring))
          (DECISION_TICK (demo_payload 1))) a)
      (wi_stages demo_wiring) (wi_transmit demo_wiring) en = (Inr f, co_engine co)"
    by (rule tick_flow[OF r(1,2)])
  have "in_flight (es_ledger (co_engine co)) demo_key"
    by (rule handed_off_flow[OF flow r(3)])
      (simp add: sent_state_def in_flight_def live_reservation_def flow_context_of_def demo_payload_def)
  with one_exposure_at_a_time[OF run, of demo_key] run show ?thesis by auto
qed

theorem events_stay_in_scope_witness:
  "\<exists>r co. handle demo_wiring (DECISION_TICK (demo_payload 1)) demo_core = (Inr r, co) \<and>
    outstanding (es_ledger (co_engine co)) (''B'', ''Y'') = None"
proof -
  obtain r co f where r: "handle demo_wiring (DECISION_TICK (demo_payload 1)) demo_core = (Inr r, co)"
    by (rule demo_tick)
  have "(''B'', ''Y'') \<noteq> event_instrument_key (DECISION_TICK (demo_payload 1))"
    by (simp add: demo_payload_def demo_key_def)
  from events_stay_in_scope[OF core_run.made[OF demo_made] r this] r show ?thesis
    by (simp add: demo_core_def demo_state_def outstanding_def empty_projection_def)
qed


text \<open>The same core over a transport that reaches the broker has no live scope.\<close>

theorem no_tick_without_preconditions_witness:
  "\<exists>r co. handle (demo_wiring\<lparr>wi_transport_nature := Some (Some True)\<rparr>) (DECISION_TICK (demo_payload 1)) demo_core =
      (Inr r, co) \<and> ev_flow r = None \<and> es_ledger (co_engine co) = empty_projection 1"
proof -
  have "\<not> preconditions_hold (demo_wiring\<lparr>wi_transport_nature := Some (Some True)\<rparr>) (es_world (co_engine demo_core))"
    by (simp add: preconditions_hold_def demo_wiring_def)
  from no_tick_without_preconditions[OF surjective_pairing this] show ?thesis
    by (metis (no_types, lifting) demo_core_def demo_state_def core.select_convs(1) engine_state.select_convs(1) prod.collapse)
qed

definition demo_action_event :: "int \<Rightarrow> unit engine_event" where
  "demo_action_event n =
    CORPORATE_ACTION \<lparr>ca_instrument_key = demo_key, ca_reference = demo_event n, ca_facts = ()\<rparr>"

lemma demo_actions:
  "\<exists>rs co. run_events demo_wiring [demo_action_event 1, demo_action_event 2] demo_core = (Inr rs, co)"
  by (simp add: demo_action_event_def handle_def handle_corporate_action_def demo_core_def ordering_admission_def
      core_record_def compare_order_def cmp_opt_def cmp_def demo_event_def Let_def)

theorem consecutive_events_in_order_witness:
  "\<exists>rs co. run_events demo_wiring [demo_action_event 1, demo_action_event 2] demo_core = (Inr rs, co) \<and>
    length rs = 2"
proof -
  obtain rs co where rs: "run_events demo_wiring [demo_action_event 1, demo_action_event 2] demo_core = (Inr rs, co)"
    using demo_actions by blast
  with consecutive_events_in_order[OF this] show ?thesis by auto
qed

text \<open>A result with the default, empty reference.\<close>

definition demo_stray :: egress_event where
  "demo_stray =
    \<lparr>eg_instrument_key = demo_key, eg_attempt_id = ''a'', eg_kind = ACK, eg_filled_quantity = None,
     eg_remaining_quantity = None, eg_broker_execution_id = None, eg_resolution_generation = None,
     eg_reference = \<lparr>oe_event_id = None, oe_quorum_commit_index = None, oe_egress_journal_sequence = None,
       oe_source_continuity_id = None, oe_source_native_sequence = None, oe_local_monotonic_value = None,
       oe_causal_predecessor_ids = [], oe_time_lo = None, oe_time_hi = None\<rparr>,
     eg_trading_date = None\<rparr>"

theorem results_are_always_consumed_witness:
  "\<exists>r co. handle demo_wiring (EGRESS_RESULT demo_stray) demo_core = (Inr r, co) \<and> event_outcome_digest r \<noteq> None"
proof -
  have "ordering_admission (co_last_reference demo_core) (eg_reference demo_stray) \<noteq> REVERSED"
    by (simp add: demo_core_def ordering_admission_def)
  from results_are_always_consumed[OF core_run.made[OF demo_made] this] show ?thesis by blast
qed

theorem result_digest_binds_witness:
  "\<forall>r. egress_result_outcome_digest (compute_digest id) APPLIED r \<noteq>
    egress_result_outcome_digest (compute_digest id) DUPLICATE r"
  using result_digest_binds[where H = id and d = APPLIED and d' = DUPLICATE] by (auto simp: collision_def)

text \<open>
  The watermark does not keep the order of a whole run: a result with the default reference orders with
  nothing, is admitted as ambiguous and becomes the watermark, after which an event that positively
  precedes one consumed earlier is consumed.
\<close>

theorem default_reference_resets_the_watermark:
  "compare_order (demo_event 1) (demo_event 2) = BEFORE \<and>
   (\<exists>rs co. run_events demo_wiring [demo_action_event 2, EGRESS_RESULT demo_stray, demo_action_event 1] demo_core =
      (Inr rs, co) \<and> list_all (\<lambda>r. ev_ordering r \<noteq> REVERSED) rs \<and> co_last_reference co = Some (demo_event 1))"
  by (simp add: demo_action_event_def demo_stray_def handle_def handle_corporate_action_def handle_egress_result_def
      demo_core_def demo_state_def ordering_admission_def core_record_def compare_order_def cmp_opt_def cmp_def
      demo_event_def event_result_def apply_egress_result_def outstanding_def empty_projection_def
      egress_result_payload.truncate_def same_continuity_def names_predecessor_def interval_order_def Let_def)

end
