(* ===== verification/Py_Division.thy ===== *)
theory Py_Division
  imports Py_Decimal
begin

text \<open>
  Multiplication, division and integer division of Python's \<^verbatim>\<open>decimal\<close> module, in the context of the
  interpreter: a product and a quotient are rounded to 28 digits, the integer quotient is exact and may
  have at most 28 digits, more raise \<^verbatim>\<open>InvalidOperation\<close>; \<^verbatim>\<open>//\<close> and \<^verbatim>\<open>%\<close> truncate.  The lemmas bound the
  relative error of rounding by half a unit of the 28th digit.
\<close>

section \<open>Operations\<close>

definition dmul :: "pydec \<Rightarrow> pydec \<Rightarrow> pydec" where
  "dmul a b = dround (Dec (dcoeff a * dcoeff b) (dexp a + dexp b))"

text \<open>The number of digits of a coefficient, as it is written.\<close>

fun digit_count :: "nat \<Rightarrow> nat" where
  "digit_count n = (if n < 10 then 1 else Suc (digit_count (n div 10)))"

declare digit_count.simps [simp del]

text \<open>Trailing zeros of an exact quotient go, down to the exponent \<open>ideal\<close>.\<close>

function trim_zeros :: "int \<Rightarrow> int \<Rightarrow> int \<Rightarrow> pydec" where
  "trim_zeros ideal c e =
    (if e < ideal \<and> c mod 10 = 0 then trim_zeros ideal (c div 10) (e + 1) else Dec c e)"
  by pat_completeness auto
termination
  by (relation "measure (\<lambda>(ideal, c, e). nat (ideal - e))") auto

declare trim_zeros.simps [simp del]

text \<open>
  A quotient is computed to at least 29 digits; an inexact one that would look exact or half way is
  made to look neither.
\<close>

definition sticky :: "nat \<Rightarrow> nat \<Rightarrow> nat" where
  "sticky q r = (if r \<noteq> 0 \<and> q mod 5 = 0 then q + 1 else q)"

definition ddiv :: "pydec \<Rightarrow> pydec \<Rightarrow> (pystr, pydec) result" where
  "ddiv a b =
    (if dcoeff b = 0 then Inl (if dcoeff a = 0 then ''InvalidOperation'' else ''DivisionByZero'')
     else if dcoeff a = 0 then Inr (Dec 0 (dexp a - dexp b))
     else
       (let x = nat \<bar>dcoeff a\<bar>; y = nat \<bar>dcoeff b\<bar>;
            shift = int (digit_count y) - int (digit_count x) + int dec_prec + 1;
            e = dexp a - dexp b - shift;
            n = x * 10 ^ nat shift; m = y * 10 ^ nat (- shift);
            c = sgn (dcoeff a) * sgn (dcoeff b) * int (sticky (n div m) (n mod m))
        in Inr (dround (if n mod m = 0 then trim_zeros (dexp a - dexp b) c e else Dec c e))))"

text \<open>Both operands at one exponent: the quotient of the coefficients and the rest at that exponent.\<close>

definition ddivmod :: "pydec \<Rightarrow> pydec \<Rightarrow> (pystr, int \<times> pydec) result" where
  "ddivmod a b =
    (let e = min (dexp a) (dexp b); x = dscale a e; y = dscale b e; q = \<bar>x\<bar> div \<bar>y\<bar>
     in if y = 0 then Inl (if x = 0 then ''InvalidOperation'' else ''DivisionByZero'')
        else if 10 ^ dec_prec \<le> q then Inl ''InvalidOperation''
        else Inr (sgn x * sgn y * q, Dec (sgn x * (\<bar>x\<bar> mod \<bar>y\<bar>)) e))"

definition dfloordiv :: "pydec \<Rightarrow> pydec \<Rightarrow> (pystr, pydec) result" where
  "dfloordiv a b = (case ddivmod a b of Inl e \<Rightarrow> Inl e | Inr (q, r) \<Rightarrow> Inr (Dec q 0))"

definition dmodulo :: "pydec \<Rightarrow> pydec \<Rightarrow> (pystr, pydec) result" where
  "dmodulo a b =
    (case ddivmod a b of
       Inl e \<Rightarrow> Inl (if e = ''DivisionByZero'' then ''InvalidOperation'' else e)
     | Inr (q, r) \<Rightarrow> Inr (dround r))"

lemmas division_eval [dec_defs] =
  dmul_def ddiv_def ddivmod_def dfloordiv_def dmodulo_def sticky_def digit_count.simps trim_zeros.simps

section \<open>The error of rounding\<close>

lemma half_even_error: "2 * (half_even n k * 10 ^ k) \<le> 2 * n + 10 ^ k" "2 * n \<le> 2 * (half_even n k * 10 ^ k) + 10 ^ k"
proof -
  define p q r where "p = (10::nat) ^ k" and "q = n div p" and "r = n mod p"
  have n: "n = q * p + r" "r < p" unfolding q_def r_def by (simp only: div_mult_mod_eq, simp add: p_def)
  have h: "half_even n k = (if p < 2 * r \<or> (2 * r = p \<and> odd q) then q + 1 else q)"
    by (simp add: half_even_def Let_def p_def q_def r_def)
  show "2 * (half_even n k * 10 ^ k) \<le> 2 * n + 10 ^ k" "2 * n \<le> 2 * (half_even n k * 10 ^ k) + 10 ^ k"
    unfolding h p_def[symmetric] using n by (auto simp: algebra_simps)
qed

definition dec_ulp :: rat where
  "dec_ulp = 5 / 10 ^ 28"

lemma dec_ulp_pos [simp]: "0 < dec_ulp"
  by (simp add: dec_ulp_def)

lemma rounding_unit:
  assumes "0 < excess n"
  shows "(10::rat) ^ excess n / 2 \<le> of_nat n * dec_ulp"
proof -
  have "10 ^ 27 * 10 ^ excess n \<le> n div 10 ^ excess n * 10 ^ excess n"
    using excess_low[OF assms] by (simp add: dec_prec_def)
  also have "\<dots> \<le> n" by simp
  finally have "(of_nat (10 ^ 27 * 10 ^ excess n)::rat) \<le> of_nat n" by (simp only: of_nat_le_iff)
  then show ?thesis by (simp add: dec_ulp_def)
qed

lemma half_even_relative:
  assumes "0 < excess n"
  shows "of_nat (half_even n (excess n)) * (10::rat) ^ excess n \<le> of_nat n * (1 + dec_ulp)"
    and "of_nat n * (1 - dec_ulp) \<le> of_nat (half_even n (excess n)) * (10::rat) ^ excess n"
proof -
  let ?k = "excess n" and ?h = "half_even n (excess n)"
  have "(of_nat (2 * (?h * 10 ^ ?k))::rat) \<le> of_nat (2 * n + 10 ^ ?k)"
    "(of_nat (2 * n)::rat) \<le> of_nat (2 * (?h * 10 ^ ?k) + 10 ^ ?k)"
    using half_even_error[of n ?k] by (simp_all only: of_nat_le_iff)
  then show "of_nat ?h * (10::rat) ^ ?k \<le> of_nat n * (1 + dec_ulp)"
    "of_nat n * (1 - dec_ulp) \<le> of_nat ?h * (10::rat) ^ ?k"
    using rounding_unit[OF assms] by (simp_all add: algebra_simps)
qed

lemma dround_relative:
  assumes "0 \<le> dval d"
  shows "dval (dround d) \<le> dval d * (1 + dec_ulp)" and "dval d * (1 - dec_ulp) \<le> dval (dround d)"
proof -
  define n where "n = nat \<bar>dcoeff d\<bar>"
  have pos: "0 \<le> dcoeff d" using assms powi_pos[of "dexp d"] by (simp add: dval_def zero_le_mult_iff not_le)
  then have d: "dval d = of_nat n * 10 powi dexp d" by (simp add: dval_def n_def)
  have "dval (dround d) \<le> dval d * (1 + dec_ulp) \<and> dval d * (1 - dec_ulp) \<le> dval (dround d)"
  proof (cases "excess n = 0")
    case True
    then have "dround d = d" using dround_exact[of d] by (simp add: excess_0_iff n_def nat_less_iff)
    moreover have "0 \<le> dval d * dec_ulp" using assms by (simp add: less_imp_le)
    ultimately show ?thesis by (simp add: algebra_simps)
  next
    case False
    then have "n \<noteq> 0" by (metis excess_0_iff power_not_zero zero_neq_numeral gr0I)
    then have r: "dval (dround d) = of_nat (half_even n (excess n)) * 10 ^ excess n * 10 powi dexp d"
      using pos False dval_dround_inexact[OF n_def refl] by (simp add: n_def sgn_if power_int_add)
    have ex: "0 < excess n" using False by simp
    show ?thesis
      using half_even_relative[OF ex] powi_pos[of "dexp d"]
      by (simp add: r d mult.assoc mult.left_commute[of "10 powi dexp d"] mult_right_mono flip: mult.assoc)
  qed
  then show "dval (dround d) \<le> dval d * (1 + dec_ulp)" "dval d * (1 - dec_ulp) \<le> dval (dround d)"
    by simp_all
qed

section \<open>Positive decimals\<close>

lemma dval_pos_iff: "0 < dval d \<longleftrightarrow> 0 < dcoeff d"
  using powi_pos[of "dexp d"] order.asym[OF powi_pos[of "dexp d"]] by (auto simp: dval_def zero_less_mult_iff)

lemma dval_zero_iff: "dval d = 0 \<longleftrightarrow> dcoeff d = 0"
  using powi_pos[of "dexp d"] by (simp add: dval_def)

lemma dval_dround_zero_iff: "dval (dround d) = 0 \<longleftrightarrow> dval d = 0"
proof -
  have "dval (dround e) \<noteq> 0" if "0 < dval e" for e
  proof -
    have "0 < dval e * (1 - dec_ulp)" using that by (simp add: dec_ulp_def)
    also have "\<dots> \<le> dval (dround e)" using dround_relative(2) that by (simp add: less_imp_le)
    finally show ?thesis by simp
  qed
  from this[of d] this[of "dneg d"] have "dval d \<noteq> 0 \<Longrightarrow> dval (dround d) \<noteq> 0"
    by (cases "0 < dval d") (simp_all add: dround_dneg not_less order.order_iff_strict)
  moreover have "dval (dround d) = 0" if "dval d = 0"
  proof -
    have "\<bar>dcoeff d\<bar> < 10 ^ dec_prec" using that by (simp add: dval_zero_iff)
    with that show ?thesis by (simp add: dround_exact)
  qed
  ultimately show ?thesis by blast
qed

lemma dround_pos: "0 < dval d \<Longrightarrow> 0 < dval (dround d)"
  using dround_sign[of d] dval_dround_zero_iff[of d] by (simp add: less_le)

text \<open>A product is at most, and at least, half a unit of the 28th digit away.\<close>

lemma dval_product: "dval (Dec (dcoeff a * dcoeff b) (dexp a + dexp b)) = dval a * dval b"
  by (simp add: dval_def power_int_add)

lemma dmul_relative:
  assumes "0 \<le> dval a" "0 \<le> dval b"
  shows "dval (dmul a b) \<le> dval a * dval b * (1 + dec_ulp)" "dval a * dval b * (1 - dec_ulp) \<le> dval (dmul a b)"
  unfolding dmul_def
  using dround_relative[of "Dec (dcoeff a * dcoeff b) (dexp a + dexp b)"] assms by (simp_all add: dval_product)

lemma dmul_pos: "0 < dval a \<Longrightarrow> 0 < dval b \<Longrightarrow> 0 < dval (dmul a b)"
  unfolding dmul_def by (rule dround_pos) (simp add: dval_product)

section \<open>Integer division of positive decimals\<close>

lemma ddivmod_positive:
  assumes "ddivmod a b = Inr (q, r)" "0 < dval a" "0 < dval b"
  shows "dval a = of_int q * dval b + dval r" "0 \<le> dval r" "dval r < dval b" "0 \<le> q" "q < 10 ^ dec_prec"
proof -
  define e where "e = min (dexp a) (dexp b)"
  have v: "dval a = of_int (dscale a e) * 10 powi e" "dval b = of_int (dscale b e) * 10 powi e"
    by (simp_all add: dval_dscale e_def)
  with assms(2,3) have pos: "0 < dscale a e" "0 < dscale b e"
    using powi_pos[of e] by (simp_all add: zero_less_mult_iff)
  from assms(1) pos have q: "q = dscale a e div dscale b e" "r = Dec (dscale a e mod dscale b e) e"
    "q < 10 ^ dec_prec"
    by (auto simp: ddivmod_def Let_def e_def split: if_splits)
  have "dscale a e = q * dscale b e + dscale a e mod dscale b e"
    unfolding q(1) by (rule div_mult_mod_eq[symmetric])
  then have "(of_int (dscale a e)::rat) = of_int q * of_int (dscale b e) + of_int (dscale a e mod dscale b e)"
    by (metis of_int_add of_int_mult)
  moreover have "dval r = of_int (dscale a e mod dscale b e) * 10 powi e" by (simp add: q(2) dval_def)
  ultimately show "dval a = of_int q * dval b + dval r"
    unfolding v by (simp add: algebra_simps)
  show "0 \<le> dval r" using pos by (simp add: q(2) dval_def)
  have "dscale a e mod dscale b e < dscale b e" using pos by simp
  then have "(of_int (dscale a e mod dscale b e)::rat) < of_int (dscale b e)" by (simp only: of_int_less_iff)
  then show "dval r < dval b" unfolding v(2) q(2) using powi_pos[of e] by (simp add: dval_def)
  show "0 \<le> q" "q < 10 ^ dec_prec" using pos q by (simp_all add: pos_imp_zdiv_nonneg_iff)
qed

lemma dfloordiv_positive:
  assumes "dfloordiv a b = Inr n" "0 < dval a" "0 < dval b"
  shows "\<exists>k::int. 0 \<le> k \<and> k < 10 ^ dec_prec \<and> n = Dec k 0 \<and> of_int k * dval b \<le> dval a \<and>
    dval a < of_int (k + 1) * dval b"
proof -
  obtain q r where d: "ddivmod a b = Inr (q, r)" and n: "n = Dec q 0"
    using assms(1) by (auto simp: dfloordiv_def split: sum.splits)
  note f = ddivmod_positive[OF d assms(2,3)]
  then show ?thesis by (intro exI[of _ q]) (simp add: n algebra_simps)
qed

lemma dmodulo_positive:
  assumes "dmodulo a b = Inr m" "0 < dval a" "0 < dval b"
  shows "dval m = 0 \<longleftrightarrow> (\<exists>k::int. dval a = of_int k * dval b)"
proof -
  obtain q r where d: "ddivmod a b = Inr (q, r)" and m: "m = dround r"
    using assms(1) by (auto simp: dmodulo_def split: sum.splits)
  note f = ddivmod_positive[OF d assms(2,3)]
  have "dval r = 0" if "dval a = of_int k * dval b" for k :: int
  proof -
    have r: "dval r = of_int (k - q) * dval b" using that f(1) by (simp add: algebra_simps)
    have "\<not> k - q \<le> - 1"
    proof
      assume "k - q \<le> - 1"
      then have "(of_int (k - q)::rat) \<le> of_int (- 1)" by (simp only: of_int_le_iff)
      then have "of_int (k - q) * dval b \<le> - dval b"
        using mult_right_mono[of "of_int (k - q)" "-1" "dval b"] assms(3) by simp
      then show False using f(2) r assms(3) by simp
    qed
    moreover have "\<not> 1 \<le> k - q"
    proof
      assume "1 \<le> k - q"
      then have "(of_int 1::rat) \<le> of_int (k - q)" by (simp only: of_int_le_iff)
      then show False
        using f(3) r mult_right_mono[of 1 "of_int (k - q)" "dval b"] assms(3) by simp
    qed
    ultimately have "k - q = 0" by linarith
    then show ?thesis by (simp add: r)
  qed
  then show ?thesis using f(1) by (auto simp: m dval_dround_zero_iff)
qed

section \<open>Quotients of positive decimals\<close>

lemma digit_count_bounds:
  assumes "0 < n"
  shows "10 ^ (digit_count n - 1) \<le> n" "n < 10 ^ digit_count n" "0 < digit_count n"
proof -
  have "0 < n \<Longrightarrow> 10 ^ (digit_count n - 1) \<le> n \<and> n < 10 ^ digit_count n \<and> 0 < digit_count n"
  proof (induction n rule: digit_count.induct)
    case (1 n)
    show ?case
    proof (cases "n < 10")
      case True
      with 1(2) show ?thesis by (subst (1 2 3) digit_count.simps) simp
    next
      case False
      let ?k = "digit_count (n div 10)"
      have IH: "10 ^ (?k - 1) \<le> n div 10" "n div 10 < 10 ^ ?k" "0 < ?k" using 1(1) False by auto
      have k: "digit_count n = Suc ?k" using False by (subst digit_count.simps) simp
      have "10 * 10 ^ (?k - 1) \<le> n" "n < 10 * 10 ^ ?k" using IH(1,2) by linarith+
      moreover have "10 * 10 ^ (?k - 1) = (10::nat) ^ ?k" using IH(3) by (cases ?k) simp_all
      ultimately show ?thesis by (simp add: k)
    qed
  qed
  with assms show "10 ^ (digit_count n - 1) \<le> n" "n < 10 ^ digit_count n" "0 < digit_count n" by blast+
qed

text \<open>The scaled numerator is so large that the quotient has at least 29 digits.\<close>

lemma quotient_digits:
  assumes "0 < x" "0 < y" and s: "s = int (digit_count y) - int (digit_count x) + int dec_prec + 1"
  shows "10 ^ dec_prec * (y * 10 ^ nat (- s)) \<le> x * 10 ^ nat s"
proof -
  note x = digit_count_bounds[OF assms(1)] and y = digit_count_bounds[OF assms(2)]
  have "dec_prec + digit_count y + nat (- s) = digit_count x - 1 + nat s"
    using x(3) by (simp add: s nat_eq_iff)
  have "10 ^ dec_prec * (y * 10 ^ nat (- s)) \<le> 10 ^ dec_prec * (10 ^ digit_count y * 10 ^ nat (- s))"
    using y(2) by simp
  also have "\<dots> = 10 ^ (dec_prec + digit_count y + nat (- s))" by (simp add: power_add)
  also have "\<dots> = 10 ^ (digit_count x - 1 + nat s)" by (simp only: \<open>dec_prec + _ + _ = _\<close>)
  also have "\<dots> = 10 ^ (digit_count x - 1) * 10 ^ nat s" by (simp only: power_add)
  also have "\<dots> \<le> x * 10 ^ nat s" using x(1) by simp
  finally show ?thesis .
qed

lemma dval_trim_zeros: "dval (trim_zeros ideal c e) = dval (Dec c e)"
proof (induction ideal c e rule: trim_zeros.induct)
  case (1 ideal c e)
  show ?case
  proof (cases "e < ideal \<and> c mod 10 = 0")
    case True
    then have "trim_zeros ideal c e = trim_zeros ideal (c div 10) (e + 1)" by (subst trim_zeros.simps) simp
    then have "dval (trim_zeros ideal c e) = dval (Dec (c div 10) (e + 1))" using 1 True by simp
    also have "\<dots> = dval (Dec c e)"
    proof -
      obtain k where "c = 10 * k" using True by (auto simp: mod_eq_0_iff_dvd)
      then show ?thesis by (simp add: dval_def power_int_add)
    qed
    finally show ?thesis .
  next
    case False
    then show ?thesis by (subst trim_zeros.simps) auto
  qed
qed

text \<open>The number that is rounded is at most one unit of its 29th digit above the quotient.\<close>

lemma sticky_bound:
  assumes "10 ^ dec_prec * m \<le> n" "0 < m"
  shows "(of_nat (sticky (n div m) (n mod m)) :: rat) * of_nat m \<le> of_nat n * (1 + 1 / 10 ^ 28)"
    and "0 < sticky (n div m) (n mod m)"
proof -
  have "sticky (n div m) (n mod m) \<le> n div m + 1" by (simp add: sticky_def)
  then have "sticky (n div m) (n mod m) * m \<le> (n div m + 1) * m" by (rule mult_right_mono) simp
  also have "\<dots> \<le> n + m" by simp
  finally have "(of_nat (sticky (n div m) (n mod m) * m)::rat) \<le> of_nat (n + m)" by (simp only: of_nat_le_iff)
  moreover have "(of_nat (10 ^ dec_prec * m)::rat) \<le> of_nat n" using assms(1) by (simp only: of_nat_le_iff)
  ultimately show "(of_nat (sticky (n div m) (n mod m)) :: rat) * of_nat m \<le> of_nat n * (1 + 1 / 10 ^ 28)"
    by (simp add: dec_prec_def algebra_simps)
  have "10 ^ dec_prec \<le> n div m" using assms by (simp add: less_eq_div_iff_mult_less_eq)
  then have "0 < n div m" by (metis gr_zeroI le_zero_eq power_not_zero zero_neq_numeral)
  then show "0 < sticky (n div m) (n mod m)" by (simp add: sticky_def)
qed

lemma powi_nat_parts: "(10::rat) powi s * 10 ^ nat (- s) = 10 ^ nat s"
  by (cases "0 \<le> s") (simp_all add: power_int_def field_simps)

lemma ddiv_relative:
  assumes "ddiv a b = Inr r" "0 < dval a" "0 < dval b"
  shows "dval r * dval b \<le> dval a * ((1 + 1 / 10 ^ 28) * (1 + dec_ulp))" "0 < dval r"
proof -
  define x y where "x = nat \<bar>dcoeff a\<bar>" and "y = nat \<bar>dcoeff b\<bar>"
  define s where "s = int (digit_count y) - int (digit_count x) + int dec_prec + 1"
  define n m where "n = x * 10 ^ nat s" and "m = y * 10 ^ nat (- s)"
  define c e where "c = sticky (n div m) (n mod m)" and "e = dexp a - dexp b - s"
  have pos: "0 < dcoeff a" "0 < dcoeff b" using assms(2,3) by (simp_all add: dval_pos_iff)
  then have xy: "0 < x" "0 < y" "of_int (dcoeff a) = (of_nat x :: rat)" "of_int (dcoeff b) = (of_nat y :: rat)"
    by (simp_all add: x_def y_def)
  have m: "0 < m" "10 ^ dec_prec * m \<le> n"
    using quotient_digits[OF xy(1,2) s_def] xy by (simp_all add: n_def m_def)
  note st = sticky_bound[OF m(2,1), folded c_def]
  have r: "r = dround (if n mod m = 0 then trim_zeros (dexp a - dexp b) (int c) e else Dec (int c) e)"
    using assms(1) pos
    by (auto simp: ddiv_def Let_def n_def m_def c_def e_def s_def x_def y_def split: if_splits)
  define d where "d = (if n mod m = 0 then trim_zeros (dexp a - dexp b) (int c) e else Dec (int c) e)"
  have d: "dval d = of_nat c * 10 powi e" by (simp add: d_def dval_trim_zeros) (simp add: dval_def)
  have dpos: "0 < dval d" using st(2) by (simp add: d)
  then show "0 < dval r" unfolding r d_def[symmetric] by (rule dround_pos)
  have "dval d * dval b \<le> dval a * (1 + 1 / 10 ^ 28)"
  proof -
    have "of_nat c * of_nat y * 10 ^ nat (- s) \<le> of_nat x * 10 ^ nat s * (1 + 1 / 10 ^ 28 :: rat)"
      using st(1) by (simp add: n_def m_def mult.assoc)
    also have "\<dots> = of_nat x * 10 powi s * (1 + 1 / 10 ^ 28) * 10 ^ nat (- s)"
      by (simp add: powi_nat_parts[of s, symmetric] mult_ac)
    finally have "of_nat c * of_nat y \<le> of_nat x * 10 powi s * (1 + 1 / 10 ^ 28 :: rat)"
      by (rule mult_right_le_imp_le) simp
    then have le: "of_nat c * of_nat y * 10 powi (dexp a - s) \<le>
        of_nat x * 10 powi s * (1 + 1 / 10 ^ 28 :: rat) * 10 powi (dexp a - s)"
      by (rule mult_right_mono) (simp add: less_imp_le)
    have "(10::rat) powi (dexp a - s) = 10 powi e * 10 powi dexp b"
      by (simp add: e_def flip: power_int_add)
    then have "dval d * dval b = of_nat c * of_nat y * 10 powi (dexp a - s)"
      unfolding d dval_def[of b] xy(4) by (simp only: mult_ac)
    also note le
    also have "of_nat x * 10 powi s * (1 + 1 / 10 ^ 28 :: rat) * 10 powi (dexp a - s) =
        of_nat x * (10 powi s * 10 powi (dexp a - s)) * (1 + 1 / 10 ^ 28)"
      by (simp only: mult_ac)
    also have "\<dots> = dval a * (1 + 1 / 10 ^ 28)"
      unfolding dval_def[of a] xy(3) by (simp flip: power_int_add)
    finally show ?thesis .
  qed
  then have "dval d * (1 + dec_ulp) * dval b \<le> dval a * (1 + 1 / 10 ^ 28) * (1 + dec_ulp)"
    using mult_right_mono[of "dval d * dval b" "dval a * (1 + 1 / 10 ^ 28)" "1 + dec_ulp"]
    by (simp add: mult_ac dec_ulp_def)
  moreover have "dval r * dval b \<le> dval d * (1 + dec_ulp) * dval b"
    unfolding r d_def[symmetric] using dround_relative(1)[of d] dpos assms(3) by (simp add: mult_right_mono)
  ultimately show "dval r * dval b \<le> dval a * ((1 + 1 / 10 ^ 28) * (1 + dec_ulp))" by (simp add: mult.assoc)
qed

end
