(* ===== verification/Order_Conformance.thy ===== *)
theory Order_Conformance
  imports Engine_Sequencer Rcl_Vector
begin

text \<open>
  Order conformance: the vocabulary, artifacts and predicates of \<^verbatim>\<open>tos/ioc/\<close>.  An intent, an
  authorised envelope, a policy, a command and a conformance proof are digest-bound artifacts with
  independent ids.  \<^verbatim>\<open>authorized_axes\<close> builds a dict, an association list in insertion order.  The
  main lemmas: what the compiler yields is conformant to the intent and the envelope it was compiled
  from, conformance pins the value of every authorised axis, and the compiler is deterministic up to
  the identity it is given.
\<close>

section \<open>Vocabulary\<close>

datatype conformance_result = CONFORMANT | NON_CONFORMANT | CONFORMANCE_UNKNOWN

datatype conformance_axis =
  AX_ENVIRONMENT | AX_LIVE_NONLIVE | AX_BROKER | AX_API_PRODUCT_VERSION | AX_ACCOUNT | AX_SUBACCOUNT
| AX_PORTFOLIO | AX_CUSTODY | AX_VENUE | AX_MARKET_SEGMENT | AX_BOARD | AX_ROUTE | AX_ENDPOINT
| AX_SESSION_FAMILY | AX_INSTRUMENT | AX_BROKER_SYMBOL | AX_CONTRACT_MONTH | AX_OPTION_SERIES
| AX_PRODUCT | AX_SETTLEMENT | AX_ACTION_CLASS | AX_DIRECTION | AX_SIDE | AX_POSITION_EFFECT
| AX_QUANTITY | AX_UNIT | AX_MULTIPLIER | AX_CURRENCY | AX_PRICE_SCALE | AX_SIGN | AX_PRICE
| AX_TRIGGER | AX_ORDER_TYPE | AX_TIF | AX_EXPIRATION | AX_ROUTE_FLAGS | AX_REDUCE_ONLY
| AX_POST_ONLY | AX_MODE

fun axis_str :: "conformance_axis \<Rightarrow> pystr" where
  "axis_str AX_ENVIRONMENT = ''ENVIRONMENT''"
| "axis_str AX_LIVE_NONLIVE = ''LIVE_NONLIVE''"
| "axis_str AX_BROKER = ''BROKER''"
| "axis_str AX_API_PRODUCT_VERSION = ''API_PRODUCT_VERSION''"
| "axis_str AX_ACCOUNT = ''ACCOUNT''"
| "axis_str AX_SUBACCOUNT = ''SUBACCOUNT''"
| "axis_str AX_PORTFOLIO = ''PORTFOLIO''"
| "axis_str AX_CUSTODY = ''CUSTODY''"
| "axis_str AX_VENUE = ''VENUE''"
| "axis_str AX_MARKET_SEGMENT = ''MARKET_SEGMENT''"
| "axis_str AX_BOARD = ''BOARD''"
| "axis_str AX_ROUTE = ''ROUTE''"
| "axis_str AX_ENDPOINT = ''ENDPOINT''"
| "axis_str AX_SESSION_FAMILY = ''SESSION_FAMILY''"
| "axis_str AX_INSTRUMENT = ''INSTRUMENT''"
| "axis_str AX_BROKER_SYMBOL = ''BROKER_SYMBOL''"
| "axis_str AX_CONTRACT_MONTH = ''CONTRACT_MONTH''"
| "axis_str AX_OPTION_SERIES = ''OPTION_SERIES''"
| "axis_str AX_PRODUCT = ''PRODUCT''"
| "axis_str AX_SETTLEMENT = ''SETTLEMENT''"
| "axis_str AX_ACTION_CLASS = ''ACTION_CLASS''"
| "axis_str AX_DIRECTION = ''DIRECTION''"
| "axis_str AX_SIDE = ''SIDE''"
| "axis_str AX_POSITION_EFFECT = ''POSITION_EFFECT''"
| "axis_str AX_QUANTITY = ''QUANTITY''"
| "axis_str AX_UNIT = ''UNIT''"
| "axis_str AX_MULTIPLIER = ''MULTIPLIER''"
| "axis_str AX_CURRENCY = ''CURRENCY''"
| "axis_str AX_PRICE_SCALE = ''PRICE_SCALE''"
| "axis_str AX_SIGN = ''SIGN''"
| "axis_str AX_PRICE = ''PRICE''"
| "axis_str AX_TRIGGER = ''TRIGGER''"
| "axis_str AX_ORDER_TYPE = ''ORDER_TYPE''"
| "axis_str AX_TIF = ''TIF''"
| "axis_str AX_EXPIRATION = ''EXPIRATION''"
| "axis_str AX_ROUTE_FLAGS = ''ROUTE_FLAGS''"
| "axis_str AX_REDUCE_ONLY = ''REDUCE_ONLY''"
| "axis_str AX_POST_ONLY = ''POST_ONLY''"
| "axis_str AX_MODE = ''MODE''"

lemma axis_str_inj: "axis_str a = axis_str b \<Longrightarrow> a = b"
  by (cases a; cases b) simp_all

datatype quantity_unit_kind =
  UNIT_SHARES | UNIT_LOTS | UNIT_CONTRACTS | UNIT_BASE_UNIT | UNIT_QUOTE_UNIT | UNIT_NOMINAL
| UNIT_NOTIONAL | UNIT_FACE_VALUE | UNIT_FRACTIONAL

fun unit_str :: "quantity_unit_kind \<Rightarrow> pystr" where
  "unit_str UNIT_SHARES = ''SHARES''"
| "unit_str UNIT_LOTS = ''LOTS''"
| "unit_str UNIT_CONTRACTS = ''CONTRACTS''"
| "unit_str UNIT_BASE_UNIT = ''BASE_UNIT''"
| "unit_str UNIT_QUOTE_UNIT = ''QUOTE_UNIT''"
| "unit_str UNIT_NOMINAL = ''NOMINAL''"
| "unit_str UNIT_NOTIONAL = ''NOTIONAL''"
| "unit_str UNIT_FACE_VALUE = ''FACE_VALUE''"
| "unit_str UNIT_FRACTIONAL = ''FRACTIONAL''"

datatype mutation_class =
  MUT_NEW | MUT_RETRY | MUT_CANCEL | MUT_AMEND | MUT_REPLACE | MUT_SPLIT_CHILD | MUT_AGGREGATE | MUT_EXERCISE

section \<open>Records\<close>

record construction_authority =
  ca_approves :: bool
  ca_mutates_capacity :: bool
  ca_issues_authority :: bool
  ca_classifies_protection :: bool
  ca_chooses_admissibility :: bool
  ca_transmits :: bool
  ca_clears_halt :: bool
  ca_rearms :: bool

definition no_construction_authority :: construction_authority where
  "no_construction_authority =
    \<lparr>ca_approves = False, ca_mutates_capacity = False, ca_issues_authority = False,
     ca_classifies_protection = False, ca_chooses_admissibility = False, ca_transmits = False,
     ca_clears_halt = False, ca_rearms = False\<rparr>"

record axis_binding =
  ab_axis :: "conformance_axis option"
  ab_value :: "pystr option"

definition resolved_material :: "bool option \<Rightarrow> bool" where
  "resolved_material is_material = (is_material \<noteq> Some False)"

record intent_content =
  ic_intent_generation :: "int option"
  ic_intent_version :: "pystr option"
  ic_proposal_id :: "pystr option"
  ic_proposal_digest :: "pystr option"
  ic_decision_context_capsule_id :: "pystr option"
  ic_decision_context_capsule_digest :: "pystr option"
  ic_critical_input_snapshot_digest :: "pystr option"
  ic_orthostate_intent_identity :: "pystr option"
  ic_authorized_axis_bindings :: "axis_binding list"
  ic_issuer_identity :: "pystr option"
  ic_approval_identity :: "pystr option"
  ic_authority_effect :: construction_authority
  ic_intent_order :: "int option"

record envelope_content =
  en_envelope_generation :: "int option"
  en_authorized_axis_bindings :: "axis_binding list"
  en_policy_binding_id :: "pystr option"
  en_envelope_order :: "int option"

record construction_policy_content =
  oc_policy_generation :: "int option"
  oc_policy_version :: "pystr option"
  oc_signer_identity :: "pystr option"
  oc_approval_identity :: "pystr option"
  oc_evidence_package_ref :: "pystr option"
  oc_policy_order :: "int option"

record command_content =
  cm_command_generation :: "int option"
  cm_proposal_id :: "pystr option"
  cm_proposal_digest :: "pystr option"
  cm_axis_bindings :: "axis_binding list"
  cm_authority_effect :: construction_authority
  cm_command_order :: "int option"

record conformance_proof_content =
  cf_proof_generation :: "int option"
  cf_policy_digest :: "pystr option"
  cf_envelope_digest :: "pystr option"
  cf_command_digest :: "pystr option"
  cf_effect_digest :: "pystr option"
  cf_input_digest :: "pystr option"
  cf_output_digest :: "pystr option"
  cf_aggregate_risk_decision_id :: "pystr option"
  cf_aggregate_risk_decision_generation :: "int option"
  cf_aggregate_risk_decision_digest :: "pystr option"
  cf_venue_admissibility_decision_digest :: "pystr option"
  cf_broker_capability_profile_digest :: "pystr option"
  cf_required_authority_scope :: "pystr list"
  cf_conformance_result :: "conformance_result option"
  cf_authority_effect :: construction_authority
  cf_proof_order :: "int option"

type_synonym approved_intent_contract = "intent_content artifact"
type_synonym authorized_construction_envelope = "envelope_content artifact"
type_synonym order_construction_policy = "construction_policy_content artifact"
type_synonym canonical_broker_command = "command_content artifact"
type_synonym order_conformance_proof = "conformance_proof_content artifact"

subsection \<open>Dumps and classes\<close>

definition axis_binding_json :: "axis_binding \<Rightarrow> json" where
  "axis_binding_json b =
    JObj [(''axis'', jopt (map_option axis_str (ab_axis b))), (''value'', jopt (ab_value b))]"

definition construction_authority_json :: "construction_authority \<Rightarrow> json" where
  "construction_authority_json c =
    JObj [(''approves'', JBool (ca_approves c)), (''mutates_capacity'', JBool (ca_mutates_capacity c)),
      (''issues_authority'', JBool (ca_issues_authority c)),
      (''classifies_protection'', JBool (ca_classifies_protection c)),
      (''chooses_admissibility'', JBool (ca_chooses_admissibility c)), (''transmits'', JBool (ca_transmits c)),
      (''clears_halt'', JBool (ca_clears_halt c)), (''rearms'', JBool (ca_rearms c))]"

definition intent_class :: "intent_content artifact_class" where
  "intent_class =
    \<lparr>acl_id_rule = IndependentId,
     acl_covered = (\<lambda>c. JObj
       [(''intent_generation'', jint (ic_intent_generation c)), (''intent_version'', jopt (ic_intent_version c)),
        (''proposal_id'', jopt (ic_proposal_id c)), (''proposal_digest'', jopt (ic_proposal_digest c)),
        (''decision_context_capsule_id'', jopt (ic_decision_context_capsule_id c)),
        (''decision_context_capsule_digest'', jopt (ic_decision_context_capsule_digest c)),
        (''critical_input_snapshot_digest'', jopt (ic_critical_input_snapshot_digest c)),
        (''orthostate_intent_identity'', jopt (ic_orthostate_intent_identity c)),
        (''authorized_axis_bindings'', JArr (map axis_binding_json (ic_authorized_axis_bindings c))),
        (''issuer_identity'', jopt (ic_issuer_identity c)), (''approval_identity'', jopt (ic_approval_identity c)),
        (''authority_effect'', construction_authority_json (ic_authority_effect c))]),
     acl_required = (\<lambda>c. [(''intent_generation'', jint (ic_intent_generation c)),
       (''intent_version'', jopt (ic_intent_version c))])\<rparr>"

definition envelope_class :: "envelope_content artifact_class" where
  "envelope_class =
    \<lparr>acl_id_rule = IndependentId,
     acl_covered = (\<lambda>c. JObj
       [(''envelope_generation'', jint (en_envelope_generation c)),
        (''authorized_axis_bindings'', JArr (map axis_binding_json (en_authorized_axis_bindings c))),
        (''policy_binding_id'', jopt (en_policy_binding_id c))]),
     acl_required = (\<lambda>c. [(''envelope_generation'', jint (en_envelope_generation c))])\<rparr>"

definition construction_policy_class :: "construction_policy_content artifact_class" where
  "construction_policy_class =
    \<lparr>acl_id_rule = IndependentId,
     acl_covered = (\<lambda>c. JObj
       [(''policy_generation'', jint (oc_policy_generation c)), (''policy_version'', jopt (oc_policy_version c)),
        (''signer_identity'', jopt (oc_signer_identity c)), (''approval_identity'', jopt (oc_approval_identity c)),
        (''evidence_package_ref'', jopt (oc_evidence_package_ref c))]),
     acl_required = (\<lambda>c. [(''policy_generation'', jint (oc_policy_generation c)),
       (''policy_version'', jopt (oc_policy_version c))])\<rparr>"

definition command_class :: "command_content artifact_class" where
  "command_class =
    \<lparr>acl_id_rule = IndependentId,
     acl_covered = (\<lambda>c. JObj
       [(''command_generation'', jint (cm_command_generation c)), (''proposal_id'', jopt (cm_proposal_id c)),
        (''proposal_digest'', jopt (cm_proposal_digest c)),
        (''axis_bindings'', JArr (map axis_binding_json (cm_axis_bindings c))),
        (''authority_effect'', construction_authority_json (cm_authority_effect c))]),
     acl_required = (\<lambda>c. [(''command_generation'', jint (cm_command_generation c))])\<rparr>"

fun conformance_result_str :: "conformance_result \<Rightarrow> pystr" where
  "conformance_result_str CONFORMANT = ''CONFORMANT''"
| "conformance_result_str NON_CONFORMANT = ''NON_CONFORMANT''"
| "conformance_result_str CONFORMANCE_UNKNOWN = ''UNKNOWN''"

definition conformance_proof_class :: "conformance_proof_content artifact_class" where
  "conformance_proof_class =
    \<lparr>acl_id_rule = IndependentId,
     acl_covered = (\<lambda>c. JObj
       [(''proof_generation'', jint (cf_proof_generation c)), (''policy_digest'', jopt (cf_policy_digest c)),
        (''envelope_digest'', jopt (cf_envelope_digest c)), (''command_digest'', jopt (cf_command_digest c)),
        (''effect_digest'', jopt (cf_effect_digest c)), (''input_digest'', jopt (cf_input_digest c)),
        (''output_digest'', jopt (cf_output_digest c)),
        (''aggregate_risk_decision_id'', jopt (cf_aggregate_risk_decision_id c)),
        (''aggregate_risk_decision_generation'', jint (cf_aggregate_risk_decision_generation c)),
        (''aggregate_risk_decision_digest'', jopt (cf_aggregate_risk_decision_digest c)),
        (''venue_admissibility_decision_digest'', jopt (cf_venue_admissibility_decision_digest c)),
        (''broker_capability_profile_digest'', jopt (cf_broker_capability_profile_digest c)),
        (''required_authority_scope'', JArr (map JStr (cf_required_authority_scope c))),
        (''conformance_result'', jopt (map_option conformance_result_str (cf_conformance_result c))),
        (''authority_effect'', construction_authority_json (cf_authority_effect c))]),
     acl_required = (\<lambda>c. [(''proof_generation'', jint (cf_proof_generation c))])\<rparr>"

subsection \<open>Axis values\<close>

definition axis_lookup :: "axis_binding list \<Rightarrow> conformance_axis \<Rightarrow> pystr option" where
  "axis_lookup bs axis = (case find (\<lambda>b. ab_axis b = Some axis) bs of None \<Rightarrow> None | Some b \<Rightarrow> ab_value b)"

definition intent_axis_value :: "approved_intent_contract \<Rightarrow> conformance_axis \<Rightarrow> pystr option" where
  "intent_axis_value i axis = axis_lookup (ic_authorized_axis_bindings (ar_content i)) axis"

definition command_axis_value :: "canonical_broker_command \<Rightarrow> conformance_axis \<Rightarrow> pystr option" where
  "command_axis_value c axis = axis_lookup (cm_axis_bindings (ar_content c)) axis"

definition authorized_axes ::
  "authorized_construction_envelope \<Rightarrow> (conformance_axis \<times> pystr option) list" where
  "authorized_axes e =
    foldl (\<lambda>d b. case ab_axis b of None \<Rightarrow> d | Some a \<Rightarrow> dict_put a (ab_value b) d) []
      (en_authorized_axis_bindings (ar_content e))"

section \<open>Conformance\<close>

fun duplicate_axis_from :: "conformance_axis list \<Rightarrow> axis_binding list \<Rightarrow> bool" where
  "duplicate_axis_from prior [] = False"
| "duplicate_axis_from prior (b # bs) =
    (case ab_axis b of
       None \<Rightarrow> duplicate_axis_from prior bs
     | Some a \<Rightarrow> if a \<in> set prior then True else duplicate_axis_from (a # prior) bs)"

definition has_duplicate_axis :: "axis_binding list \<Rightarrow> bool" where
  "has_duplicate_axis bs = duplicate_axis_from [] bs"

definition declared_axes :: "axis_binding list \<Rightarrow> conformance_axis list" where
  "declared_axes bs = List.map_filter ab_axis bs"

text \<open>The loop over the authorised axes, with what it has seen.\<close>

fun compare_axes ::
  "approved_intent_contract \<Rightarrow> canonical_broker_command \<Rightarrow> bool \<Rightarrow>
    (conformance_axis \<times> pystr option) list \<Rightarrow> conformance_result" where
  "compare_axes intent command saw_unknown [] = (if saw_unknown then CONFORMANCE_UNKNOWN else CONFORMANT)"
| "compare_axes intent command saw_unknown ((axis, authorized_value) # axes) =
    (case (authorized_value, intent_axis_value intent axis, command_axis_value command axis) of
       (Some a, Some i, Some c) \<Rightarrow>
         if c \<noteq> a \<or> c \<noteq> i then NON_CONFORMANT else compare_axes intent command saw_unknown axes
     | _ \<Rightarrow> compare_axes intent command True axes)"

definition command_conforms ::
  "approved_intent_contract option \<Rightarrow> canonical_broker_command option \<Rightarrow> order_construction_policy option \<Rightarrow>
    authorized_construction_envelope option \<Rightarrow> conformance_result" where
  "command_conforms intent command policy envelope =
    (case envelope of
       None \<Rightarrow> NON_CONFORMANT
     | Some e \<Rightarrow>
         if has_duplicate_axis (en_authorized_axis_bindings (ar_content e)) then NON_CONFORMANT
         else if authorized_axes e = [] then NON_CONFORMANT
         else (case (intent, command, policy) of
             (Some i, Some c, Some p) \<Rightarrow>
               if has_duplicate_axis (cm_axis_bindings (ar_content c)) \<or>
                 has_duplicate_axis (ic_authorized_axis_bindings (ar_content i)) then NON_CONFORMANT
               else if \<not> set (declared_axes (cm_axis_bindings (ar_content c))) \<subseteq> fst ` set (authorized_axes e)
               then NON_CONFORMANT
               else compare_axes i c False (authorized_axes e)
           | _ \<Rightarrow> CONFORMANCE_UNKNOWN))"

section \<open>The compiler\<close>

text \<open>The bindings of the command, axis by axis in the order of their names.\<close>

fun compile_axes ::
  "approved_intent_contract \<Rightarrow> (conformance_axis \<times> pystr option) list \<Rightarrow> (pystr, axis_binding list) result" where
  "compile_axes intent [] = Inr []"
| "compile_axes intent ((axis, authorized_value) # axes) =
    (case (authorized_value, intent_axis_value intent axis) of
       (Some a, Some i) \<Rightarrow>
         if i \<noteq> a then Inl ''ArtifactIntegrityError''
         else (case compile_axes intent axes of
             Inl e \<Rightarrow> Inl e
           | Inr bs \<Rightarrow> Inr (\<lparr>ab_axis = Some axis, ab_value = Some i\<rparr> # bs))
     | _ \<Rightarrow> Inl ''ArtifactIntegrityError'')"

definition compile_command ::
  "registry \<Rightarrow> approved_intent_contract option \<Rightarrow> order_construction_policy option \<Rightarrow>
    authorized_construction_envelope option \<Rightarrow> int \<Rightarrow> canonicalizer \<Rightarrow> pystr \<Rightarrow>
    (pystr, canonical_broker_command) result" where
  "compile_command reg intent policy envelope generation cz command_id =
    (case (intent, policy, envelope) of
       (Some i, Some p, Some e) \<Rightarrow>
         if has_duplicate_axis (en_authorized_axis_bindings (ar_content e)) then Inl ''ArtifactIntegrityError''
         else if has_duplicate_axis (ic_authorized_axis_bindings (ar_content i)) then Inl ''ArtifactIntegrityError''
         else if authorized_axes e = [] then Inl ''ArtifactIntegrityError''
         else (case compile_axes i (sort_key (axis_str \<circ> fst) (authorized_axes e)) of
             Inl err \<Rightarrow> Inl err
           | Inr bs \<Rightarrow>
               issue_checked reg command_class (\<lambda>_. True) cz
                 \<lparr>cm_command_generation = Some generation, cm_proposal_id = ic_proposal_id (ar_content i),
                  cm_proposal_digest = ic_proposal_digest (ar_content i), cm_axis_bindings = bs,
                  cm_authority_effect = no_construction_authority, cm_command_order = None\<rparr> (Some command_id))
     | _ \<Rightarrow> Inl ''ArtifactIntegrityError'')"

text \<open>A \<^verbatim>\<open>ValidationError\<close> of the issue is not an \<^verbatim>\<open>ArtifactIntegrityError\<close>: it passes the handlers.\<close>

definition compiler_deterministic ::
  "registry \<Rightarrow> approved_intent_contract option \<Rightarrow> order_construction_policy option \<Rightarrow>
    authorized_construction_envelope option \<Rightarrow> int \<Rightarrow> canonicalizer \<Rightarrow> (pystr, bool) result" where
  "compiler_deterministic reg intent policy envelope generation cz =
    (let compile = compile_command reg intent policy envelope generation cz
     in case compile ''ioc-cmp-a'' of
       Inl e \<Rightarrow>
         if e = ''ArtifactIntegrityError'' then
           (case compile ''ioc-cmp-b'' of
              Inl e' \<Rightarrow> if e' = ''ArtifactIntegrityError'' then Inr True else Inl e'
            | Inr _ \<Rightarrow> Inr False)
         else Inl e
     | Inr first \<Rightarrow>
         (case compile ''ioc-cmp-b'' of
            Inl e' \<Rightarrow> Inl e'
          | Inr second \<Rightarrow>
              Inr (ar_canonical_digest first \<noteq> None \<and> ar_canonical_digest first = ar_canonical_digest second)))"

section \<open>Guards\<close>

text \<open>Every magnitude of a canonical decimal is finite.\<close>

definition numerical_safety :: "pydec option list \<Rightarrow> bool option \<Rightarrow> conformance_result" where
  "numerical_safety magnitudes units_consistent =
    (if units_consistent = Some False then NON_CONFORMANT
     else if units_consistent = None then CONFORMANCE_UNKNOWN
     else if magnitudes = [] then CONFORMANCE_UNKNOWN
     else if list_ex (\<lambda>m. m = None) magnitudes then CONFORMANCE_UNKNOWN else CONFORMANT)"

definition economic_effect_dominated :: "capacity_vector \<Rightarrow> capacity_vector \<Rightarrow> bool" where
  "economic_effect_dominated envelope reserved =
    (if dimension_ids envelope = [] then False
     else list_all (\<lambda>dm. case (magnitude envelope dm, magnitude reserved dm) of
         (Some e, Some c) \<Rightarrow> \<not> dlt c e | _ \<Rightarrow> False) (dimension_ids envelope))"

definition no_silent_widening :: "bool option \<Rightarrow> bool option \<Rightarrow> bool" where
  "no_silent_widening exact_bounded every_gate = (exact_bounded = Some True \<and> every_gate = Some True)"

definition canonicalization_deterministic ::
  "registry \<Rightarrow> canonical_broker_command option \<Rightarrow> (pystr, bool) result" where
  "canonicalization_deterministic reg command =
    (case command of
       None \<Rightarrow> Inr False
     | Some c \<Rightarrow>
         if ar_canonical_digest c = None then Inr False
         else (case get_scheme reg (ar_canonicalization_version c) of
             Inl e \<Rightarrow> Inl ''ArtifactIntegrityError''
           | Inr s \<Rightarrow> Inr (Some (s (acl_covered command_class (ar_content c))) = ar_canonical_digest c)))"

definition mutation_fence_holds ::
  "canonical_broker_command option \<Rightarrow> order_conformance_proof option \<Rightarrow> bool" where
  "mutation_fence_holds command pf =
    (case (command, pf) of
       (Some c, Some p) \<Rightarrow>
         (case (ar_canonical_digest c, cf_command_digest (ar_content p)) of
            (Some d, Some e) \<Rightarrow> e = d | _ \<Rightarrow> False)
     | _ \<Rightarrow> False)"

definition derived_command_conformance ::
  "canonical_broker_command option \<Rightarrow> canonical_broker_command option \<Rightarrow> mutation_class option \<Rightarrow>
    bool option \<Rightarrow> bool option \<Rightarrow> conformance_result" where
  "derived_command_conformance parent derived mutation idempotency_proven permits_retry =
    (case (parent, derived, mutation) of
       (Some p, Some d, Some m) \<Rightarrow>
         if ar_id d = None \<or> ar_canonical_digest d = None then CONFORMANCE_UNKNOWN
         else if has_duplicate_axis (cm_axis_bindings (ar_content d)) \<or>
           has_duplicate_axis (cm_axis_bindings (ar_content p)) then NON_CONFORMANT
         else if m = MUT_AGGREGATE then NON_CONFORMANT
         else if m = MUT_RETRY then
           (if idempotency_proven = None \<or> permits_retry = None then CONFORMANCE_UNKNOWN
            else if idempotency_proven = Some True \<and> permits_retry = Some True then CONFORMANT
            else NON_CONFORMANT)
         else if ar_id d = ar_id p then NON_CONFORMANT else CONFORMANT
     | _ \<Rightarrow> CONFORMANCE_UNKNOWN)"

definition protective_creates_nothing ::
  "bool option \<Rightarrow> bool option \<Rightarrow> bool option \<Rightarrow> bool option \<Rightarrow> bool" where
  "protective_creates_nothing envelope admissible capacity egress =
    (envelope = Some False \<and> admissible = Some False \<and> capacity = Some False \<and> egress = Some False)"

definition construction_grants_no_authority :: "construction_authority \<Rightarrow> bool" where
  "construction_grants_no_authority c =
    (\<not> (ca_approves c \<or> ca_mutates_capacity c \<or> ca_issues_authority c \<or> ca_classifies_protection c \<or>
      ca_chooses_admissibility c \<or> ca_transmits c \<or> ca_clears_halt c \<or> ca_rearms c))"

definition economic_effect_outlives :: "bool option \<Rightarrow> bool" where
  "economic_effect_outlives terminal_release_proven = (terminal_release_proven \<noteq> Some True)"

definition construction_generation_fences :: "ordering_event \<Rightarrow> ordering_event \<Rightarrow> bool" where
  "construction_generation_fences older newer = (compare_order older newer = BEFORE)"

section \<open>Authorised axes\<close>

abbreviation axis_pairs :: "axis_binding list \<Rightarrow> (conformance_axis \<times> pystr option) list" where
  "axis_pairs bs \<equiv> List.map_filter (\<lambda>b. map_option (\<lambda>a. (a, ab_value b)) (ab_axis b)) bs"

lemma duplicate_axis_from_iff:
  "\<not> duplicate_axis_from prior bs \<longleftrightarrow>
    distinct (declared_axes bs) \<and> set prior \<inter> set (declared_axes bs) = {}"
proof (induction bs arbitrary: prior)
  case (Cons b bs)
  then show ?case
    by (cases "ab_axis b") (auto simp: declared_axes_def List.map_filter_def)
qed (simp add: declared_axes_def List.map_filter_def)

lemma duplicate_iff: "has_duplicate_axis bs \<longleftrightarrow> \<not> distinct (declared_axes bs)"
  using duplicate_axis_from_iff[of "[]" bs] by (auto simp: has_duplicate_axis_def)

lemma map_fst_axis_pairs: "map fst (axis_pairs bs) = declared_axes bs"
  by (induction bs) (auto simp: declared_axes_def List.map_filter_def split: option.splits)

lemma dict_put_new: "k \<notin> fst ` set d \<Longrightarrow> dict_put k v d = d @ [(k, v)]"
  by (induction d) auto

lemma authorized_fold:
  assumes "distinct (map fst d @ declared_axes bs)"
  shows "foldl (\<lambda>d b. case ab_axis b of None \<Rightarrow> d | Some a \<Rightarrow> dict_put a (ab_value b) d) d bs = d @ axis_pairs bs"
  using assms
proof (induction bs arbitrary: d)
  case (Cons b bs)
  show ?case
  proof (cases "ab_axis b")
    case None
    with Cons show ?thesis by (simp add: declared_axes_def List.map_filter_def)
  next
    case (Some a)
    then have new: "a \<notin> fst ` set d" using Cons.prems by (auto simp: declared_axes_def List.map_filter_def)
    have "distinct (map fst (d @ [(a, ab_value b)]) @ declared_axes bs)"
      using Cons.prems Some by (auto simp: declared_axes_def List.map_filter_def)
    from Cons.IH[OF this] Some new show ?thesis
      by (simp add: dict_put_new List.map_filter_def)
  qed
qed (simp add: List.map_filter_def)

lemma authorized_axes_eq:
  "\<not> has_duplicate_axis (en_authorized_axis_bindings (ar_content e)) \<Longrightarrow>
    authorized_axes e = axis_pairs (en_authorized_axis_bindings (ar_content e))"
  unfolding authorized_axes_def by (subst authorized_fold) (simp_all add: duplicate_iff)

lemma authorized_distinct:
  "\<not> has_duplicate_axis (en_authorized_axis_bindings (ar_content e)) \<Longrightarrow> distinct (map fst (authorized_axes e))"
  by (simp add: authorized_axes_eq map_fst_axis_pairs duplicate_iff)

lemma axis_lookup_member:
  "distinct (declared_axes bs) \<Longrightarrow> (a, v) \<in> set (axis_pairs bs) \<Longrightarrow> axis_lookup bs a = v"
proof (induction bs)
  case (Cons b bs)
  then show ?case
    by (cases "ab_axis b") (force simp: axis_lookup_def declared_axes_def List.map_filter_def)+
qed (simp add: List.map_filter_def)

section \<open>Conformance and the compiler\<close>

lemma compare_axes_conformant:
  "compare_axes i c u axes = CONFORMANT \<longleftrightarrow>
    \<not> u \<and> (\<forall>(axis, v) \<in> set axes. \<exists>x. v = Some x \<and> intent_axis_value i axis = Some x \<and>
      command_axis_value c axis = Some x)"
  by (induction i c u axes rule: compare_axes.induct) (auto split: option.splits)

text \<open>
  A command conforms exactly when no axis is declared twice, the envelope authorises something, the
  command declares no axis the envelope does not, and on every authorised axis envelope, intent and
  command carry one concrete value.
\<close>

lemma command_conforms_iff:
  "command_conforms (Some i) (Some c) (Some p) (Some e) = CONFORMANT \<longleftrightarrow>
    distinct (declared_axes (en_authorized_axis_bindings (ar_content e))) \<and>
    distinct (declared_axes (cm_axis_bindings (ar_content c))) \<and>
    distinct (declared_axes (ic_authorized_axis_bindings (ar_content i))) \<and> authorized_axes e \<noteq> [] \<and>
    set (declared_axes (cm_axis_bindings (ar_content c))) \<subseteq> fst ` set (authorized_axes e) \<and>
    (\<forall>(axis, v) \<in> set (authorized_axes e). \<exists>x. v = Some x \<and> intent_axis_value i axis = Some x \<and>
      command_axis_value c axis = Some x)"
  unfolding command_conforms_def option.case duplicate_iff by (simp add: compare_axes_conformant) blast

lemma conforms_needs_all:
  assumes "command_conforms intent command policy envelope = CONFORMANT"
  obtains i c p e where "intent = Some i" "command = Some c" "policy = Some p" "envelope = Some e"
  using assms by (auto simp: command_conforms_def split: option.splits if_splits)

definition bound_axis :: "conformance_axis \<times> pystr option \<Rightarrow> axis_binding" where
  "bound_axis av = \<lparr>ab_axis = Some (fst av), ab_value = snd av\<rparr>"

lemma compile_axes_Inr:
  "compile_axes i axes = Inr bs \<longleftrightarrow>
    bs = map bound_axis axes \<and> (\<forall>(axis, v) \<in> set axes. v \<noteq> None \<and> intent_axis_value i axis = v)"
proof (induction axes arbitrary: bs)
  case (Cons av axes)
  obtain axis v where av: "av = (axis, v)" by (cases av)
  show ?case
  proof (cases "v \<noteq> None \<and> intent_axis_value i axis = v")
    case True
    then obtain x where x: "v = Some x" "intent_axis_value i axis = Some x" by auto
    show ?thesis
    proof (cases "compile_axes i axes")
      case (Inr b)
      with Cons.IH[of b] x show ?thesis by (auto simp: av bound_axis_def)
    next
      case (Inl e)
      with Cons.IH[of "map bound_axis axes"] x show ?thesis by (auto simp: av)
    qed
  next
    case False
    then show ?thesis by (auto simp: av split: option.splits)
  qed
qed auto

lemma declared_bound: "declared_axes (map bound_axis axes) = map fst axes"
  by (induction axes) (auto simp: declared_axes_def List.map_filter_def bound_axis_def)

lemma axis_pairs_bound: "axis_pairs (map bound_axis axes) = axes"
  by (induction axes) (auto simp: List.map_filter_def bound_axis_def)

lemma issued_content: "ar_content (issued_artifact cls v sch st k i) = k"
  by (simp add: issued_artifact_def Let_def split: id_rule.splits)

lemma issued_digest: "ar_canonical_digest (issued_artifact cls v sch st k i) = Some (sch (acl_covered cls k))"
  by (simp add: issued_artifact_def Let_def split: id_rule.splits)

lemma command_issued:
  assumes "issue_checked reg command_class f cz k (Some cid) = Inr c"
  shows "ar_content c = k \<and> ar_id c = Some cid \<and>
    ar_canonical_digest c = Some (cz_compute_digest cz (acl_covered command_class k)) \<and>
    construct reg command_class c = Inr c"
  using issue_checked_Inr(4)[OF assms] issue_checked_Inr(3)[OF assms]
  by (simp add: issued_content issued_digest) (simp add: issued_artifact_def command_class_def)

lemma compile_command_Inr:
  assumes "compile_command reg intent policy envelope g cz cid = Inr c"
  obtains i p e where "intent = Some i" "policy = Some p" "envelope = Some e"
    "\<not> has_duplicate_axis (en_authorized_axis_bindings (ar_content e))"
    "\<not> has_duplicate_axis (ic_authorized_axis_bindings (ar_content i))" "authorized_axes e \<noteq> []"
    "\<forall>(axis, v) \<in> set (authorized_axes e). v \<noteq> None \<and> intent_axis_value i axis = v"
    "cm_axis_bindings (ar_content c) = map bound_axis (sort_key (axis_str \<circ> fst) (authorized_axes e))"
    "ar_id c = Some cid" "cm_proposal_digest (ar_content c) = ic_proposal_digest (ar_content i)"
    "ar_canonical_digest c = Some (cz_compute_digest cz (acl_covered command_class (ar_content c)))"
    "construct reg command_class c = Inr c"
  using assms
  by (auto simp: compile_command_def compile_axes_Inr
      split: option.splits if_splits sum.splits dest!: command_issued)

lemma independent_issue:
  assumes "bound_scheme reg cz" "i \<noteq> ''TBD''" "acl_id_rule cls = IndependentId" "missing_required_fields cls k = []"
  shows "issue_checked reg cls (\<lambda>_. True) cz k (Some i) =
      Inr (issued_artifact cls (cz_version cz) (cz_compute_digest cz) ISSUED k (Some i))"
    (is "_ = Inr ?a")
proof -
  have "construct reg cls ?a = Inr ?a"
    using assms by (subst construct_issued_iff) (auto simp: issued_artifact_def bound_scheme_def)
  then show ?thesis by (simp add: issue_checked_def issue_construct)
qed

lemma command_issue:
  assumes "bound_scheme reg cz" "cid \<noteq> ''TBD''" "cm_command_generation k = Some g"
  shows "issue_checked reg command_class (\<lambda>_. True) cz k (Some cid) =
      Inr (issued_artifact command_class (cz_version cz) (cz_compute_digest cz) ISSUED k (Some cid))"
  by (rule independent_issue[OF assms(1,2)]) (simp_all add: command_class_def missing_required_fields_def assms(3))

lemma compile_axes_error: "compile_axes i axes = Inl e \<Longrightarrow> e = ''ArtifactIntegrityError''"
  by (induction i axes rule: compile_axes.induct) (auto split: option.splits if_splits sum.splits)

lemma compile_error:
  assumes "bound_scheme reg cz" "compile_command reg intent policy envelope g cz cid = Inl e" "cid \<noteq> ''TBD''"
  shows "e = ''ArtifactIntegrityError''"
  using assms(2)
  by (auto simp: compile_command_def command_issue[OF assms(1,3)]
      split: option.splits if_splits sum.splits dest: compile_axes_error)

section \<open>A concrete compilation\<close>

abbreviation demo_artifact :: "'c \<Rightarrow> 'c artifact" where
  "demo_artifact c \<equiv> \<lparr>ar_content = c, ar_id = Some ''a1'', ar_canonical_digest = Some ''d1'', ar_status = ISSUED,
     ar_canonicalization_version = Some ''v1''\<rparr>"

definition demo_axis_bindings :: "axis_binding list" where
  "demo_axis_bindings =
    [\<lparr>ab_axis = Some AX_SIDE, ab_value = Some ''BUY''\<rparr>, \<lparr>ab_axis = Some AX_QUANTITY, ab_value = Some ''2''\<rparr>]"

definition demo_contract :: approved_intent_contract where
  "demo_contract = demo_artifact
    \<lparr>ic_intent_generation = Some 1, ic_intent_version = Some ''v1'', ic_proposal_id = Some ''p1'',
     ic_proposal_digest = Some ''pd'', ic_decision_context_capsule_id = None,
     ic_decision_context_capsule_digest = None, ic_critical_input_snapshot_digest = None,
     ic_orthostate_intent_identity = None, ic_authorized_axis_bindings = demo_axis_bindings,
     ic_issuer_identity = None, ic_approval_identity = None,
     ic_authority_effect = no_construction_authority, ic_intent_order = None\<rparr>"

definition demo_construction_envelope :: authorized_construction_envelope where
  "demo_construction_envelope = demo_artifact
    \<lparr>en_envelope_generation = Some 1, en_authorized_axis_bindings = demo_axis_bindings,
     en_policy_binding_id = None, en_envelope_order = None\<rparr>"

definition demo_construction_policy :: order_construction_policy where
  "demo_construction_policy = demo_artifact
    \<lparr>oc_policy_generation = Some 1, oc_policy_version = Some ''v1'', oc_signer_identity = None,
     oc_approval_identity = None, oc_evidence_package_ref = None, oc_policy_order = None\<rparr>"

lemma demo_authorized: "authorized_axes demo_construction_envelope = [(AX_SIDE, Some ''BUY''), (AX_QUANTITY, Some ''2'')]"
  by (simp add: authorized_axes_def demo_construction_envelope_def demo_axis_bindings_def)

lemma demo_compiles:
  assumes "bound_scheme reg cz"
  shows "\<exists>c. compile_command reg (Some demo_contract) (Some demo_construction_policy)
    (Some demo_construction_envelope) 1 cz ''c1'' = Inr c"
proof -
  have "\<exists>bs. compile_axes demo_contract (sort_key (axis_str \<circ> fst) (authorized_axes demo_construction_envelope)) = Inr bs"
    by (auto simp: compile_axes_Inr demo_authorized intent_axis_value_def axis_lookup_def demo_contract_def
        demo_axis_bindings_def)
  moreover have "distinct (declared_axes demo_axis_bindings)"
    by (simp add: demo_axis_bindings_def declared_axes_def List.map_filter_def)
  moreover have "en_authorized_axis_bindings (ar_content demo_construction_envelope) = demo_axis_bindings"
    "ic_authorized_axis_bindings (ar_content demo_contract) = demo_axis_bindings"
    by (simp_all add: demo_construction_envelope_def demo_contract_def)
  ultimately show ?thesis
    by (auto simp: compile_command_def command_issue[OF assms] duplicate_iff demo_authorized)
qed

lemma compiled_command_conforms:
  assumes "compile_command reg intent policy envelope g cz cid = Inr c"
  shows "command_conforms intent (Some c) policy envelope = CONFORMANT \<and>
    (\<exists>i e. intent = Some i \<and> envelope = Some e \<and>
      cm_proposal_digest (ar_content c) = ic_proposal_digest (ar_content i) \<and>
      sorted (map axis_str (declared_axes (cm_axis_bindings (ar_content c)))) \<and>
      set (declared_axes (cm_axis_bindings (ar_content c))) = fst ` set (authorized_axes e) \<and>
      (\<forall>(axis, v) \<in> set (authorized_axes e). v \<noteq> None \<and> intent_axis_value i axis = v \<and>
        command_axis_value c axis = v))"
proof -
  obtain i p e where ie: "intent = Some i" "policy = Some p" "envelope = Some e"
    and nodup: "\<not> has_duplicate_axis (en_authorized_axis_bindings (ar_content e))"
      "\<not> has_duplicate_axis (ic_authorized_axis_bindings (ar_content i))"
    and ne: "authorized_axes e \<noteq> []"
    and agree: "\<forall>(axis, v) \<in> set (authorized_axes e). v \<noteq> None \<and> intent_axis_value i axis = v"
    and bs: "cm_axis_bindings (ar_content c) = map bound_axis (sort_key (axis_str \<circ> fst) (authorized_axes e))"
    and lineage: "cm_proposal_digest (ar_content c) = ic_proposal_digest (ar_content i)"
    using assms by (rule compile_command_Inr) blast
  let ?axes = "sort_key (axis_str \<circ> fst) (authorized_axes e)"
  have dist: "distinct (map fst ?axes)"
    using authorized_distinct[OF nodup(1)] by (simp add: distinct_map)
  have lookup: "command_axis_value c axis = v" if "(axis, v) \<in> set (authorized_axes e)" for axis v
    unfolding command_axis_value_def bs
    by (rule axis_lookup_member) (use dist that in \<open>simp_all add: declared_bound axis_pairs_bound\<close>)
  have sorted: "sorted (map axis_str (map fst ?axes))"
    using sorted_sort_key[of "axis_str \<circ> fst" "authorized_axes e"] by (simp add: comp_def)
  have "command_conforms (Some i) (Some c) (Some p) (Some e) = CONFORMANT"
    unfolding command_conforms_iff bs declared_bound
    using nodup ne agree lookup dist by (fastforce simp: duplicate_iff)
  then show ?thesis
    using ie agree lookup lineage sorted by (auto simp: bs declared_bound)
qed

text \<open>
  C39: the compiler only yields conformant commands: the command it issues has the proposal's lineage,
  declares the authorised axes in the order of their names, each with the one value that intent and
  envelope agree on, and passes the conformance check against the very inputs it was compiled from.
\<close>

theorem compiled_commands_conform:
  assumes "compile_command reg intent policy envelope g cz cid = Inr c"
  shows "command_conforms intent (Some c) policy envelope = CONFORMANT \<and>
    (\<exists>i e. intent = Some i \<and> envelope = Some e \<and>
      cm_proposal_digest (ar_content c) = ic_proposal_digest (ar_content i) \<and>
      sorted (map axis_str (declared_axes (cm_axis_bindings (ar_content c)))) \<and>
      set (declared_axes (cm_axis_bindings (ar_content c))) = fst ` set (authorized_axes e) \<and>
      (\<forall>(axis, v) \<in> set (authorized_axes e). v \<noteq> None \<and> intent_axis_value i axis = v \<and>
        command_axis_value c axis = v))"
  by (rule compiled_command_conforms[OF assms])

theorem compiled_commands_conform_witness:
  "\<exists>c. compile_command demo_registry (Some demo_contract) (Some demo_construction_policy)
      (Some demo_construction_envelope) 1 demo_cz ''c1'' = Inr c \<and>
    command_conforms (Some demo_contract) (Some c) (Some demo_construction_policy)
      (Some demo_construction_envelope) = CONFORMANT"
  using demo_compiles[OF demo_bound] compiled_commands_conform by blast

lemma compile_digest_independent:
  assumes "bound_scheme reg cz" "compile_command reg intent policy envelope g cz cid = Inr c"
    "did \<noteq> ''TBD''"
  shows "\<exists>d. compile_command reg intent policy envelope g cz did = Inr d \<and>
    ar_canonical_digest d = ar_canonical_digest c \<and> ar_content d = ar_content c"
  using assms(2)
  by (auto simp: compile_command_def command_issue[OF assms(1,3)] issued_digest issued_content
      split: option.splits if_splits sum.splits dest!: command_issued)

text \<open>
  Compiling is deterministic: under a registered scheme the self-check of the compiler always
  returns, and always says yes, because the identity a command is given is no part of its digest.
\<close>

theorem compiler_is_deterministic:
  assumes "bound_scheme reg cz"
  shows "compiler_deterministic reg intent policy envelope g cz = Inr True"
proof (cases "compile_command reg intent policy envelope g cz ''ioc-cmp-a''")
  case (Inl e)
  have a: "e = ''ArtifactIntegrityError''" by (rule compile_error[OF assms Inl]) simp
  show ?thesis
  proof (cases "compile_command reg intent policy envelope g cz ''ioc-cmp-b''")
    case (Inl e')
    moreover have "e' = ''ArtifactIntegrityError''" by (rule compile_error[OF assms Inl]) simp
    ultimately show ?thesis using \<open>_ = Inl e\<close> a by (simp add: compiler_deterministic_def)
  next
    case (Inr c)
    from compile_digest_independent[OF assms Inr, of "''ioc-cmp-a''"] \<open>_ = Inl e\<close> show ?thesis by simp
  qed
next
  case (Inr c)
  from compile_digest_independent[OF assms Inr, of "''ioc-cmp-b''"] obtain d where
    "compile_command reg intent policy envelope g cz ''ioc-cmp-b'' = Inr d"
    "ar_canonical_digest d = ar_canonical_digest c" by auto
  moreover have "ar_canonical_digest c \<noteq> None" using Inr by (rule compile_command_Inr) simp
  ultimately show ?thesis using Inr by (simp add: compiler_deterministic_def)
qed

theorem compiler_is_deterministic_witness:
  "compiler_deterministic demo_registry (Some demo_contract) (Some demo_construction_policy)
    (Some demo_construction_envelope) 1 demo_cz = Inr True"
  by (rule compiler_is_deterministic[OF demo_bound])

end
