(* ===== verification/Currentness.thy ===== *)
theory Currentness
  imports Engine_Sequencer
begin

text \<open>
  Egress currentness: the vocabulary, states and artifacts of \<^verbatim>\<open>tos/cur/vocabulary.py\<close>, \<^verbatim>\<open>state.py\<close> and
  \<^verbatim>\<open>records.py\<close> and every predicate of \<^verbatim>\<open>tos/cur/predicates.py\<close>.  Sets of keys and scopes are lists
  that are searched.  The lemmas characterise a complete vector and an admissible proof, show that a
  complete vector cannot be had below the mandated floor, and that reconciling floors is conservative.
\<close>

section \<open>Vocabulary\<close>

datatype proof_result = CURRENT | RESTRICTED | RESULT_UNKNOWN

datatype dimension_key =
  DIM_ENVIRONMENT_SCOPE | DIM_CURRENTNESS_POLICY | DIM_COMMIT_LOG | DIM_SAFETY_AUTHORITY
| DIM_SAFETY_ENVELOPE_PROFILE | DIM_DEVIATION | DIM_INCIDENT | DIM_MONITORING | DIM_RELEASE
| DIM_POST_TRADE | DIM_TRUSTWORTHY_TIME | DIM_RECOVERY | DIM_CRITICAL_INPUT | DIM_CONTEXT
| DIM_CONSTRAINT | DIM_CONSTRUCTION | DIM_TRADING_APPROVAL | DIM_AGGREGATE_RISK | DIM_ACTION_FLOW
| DIM_DECISION_PROOF_INTENT | DIM_EGRESS_IDENTITY | DIM_RESTRICTED_LIVE_TRIAL

definition dimension_keys :: "dimension_key list" where
  "dimension_keys =
    [DIM_ENVIRONMENT_SCOPE, DIM_CURRENTNESS_POLICY, DIM_COMMIT_LOG, DIM_SAFETY_AUTHORITY,
     DIM_SAFETY_ENVELOPE_PROFILE, DIM_DEVIATION, DIM_INCIDENT, DIM_MONITORING, DIM_RELEASE,
     DIM_POST_TRADE, DIM_TRUSTWORTHY_TIME, DIM_RECOVERY, DIM_CRITICAL_INPUT, DIM_CONTEXT,
     DIM_CONSTRAINT, DIM_CONSTRUCTION, DIM_TRADING_APPROVAL, DIM_AGGREGATE_RISK, DIM_ACTION_FLOW,
     DIM_DECISION_PROOF_INTENT, DIM_EGRESS_IDENTITY, DIM_RESTRICTED_LIVE_TRIAL]"

definition conditional_dimension_keys :: "dimension_key list" where
  "conditional_dimension_keys = [DIM_RESTRICTED_LIVE_TRIAL]"

definition mandated_dimension_floor :: "dimension_key list" where
  "mandated_dimension_floor = filter (\<lambda>k. k \<notin> set conditional_dimension_keys) dimension_keys"

lemma dimension_keys_all [simp]: "k \<in> set dimension_keys"
  by (cases k) (simp_all add: dimension_keys_def)

lemma mandated_floor [simp]: "k \<in> set mandated_dimension_floor \<longleftrightarrow> k \<noteq> DIM_RESTRICTED_LIVE_TRIAL"
  by (simp add: mandated_dimension_floor_def conditional_dimension_keys_def)

section \<open>States\<close>

record currentness_revision =
  rv_revision_id :: "pystr option"
  rv_commit_index :: "int option"

record currentness_dimension =
  dm_dimension_key :: "dimension_key option"
  dm_owner_identity :: "pystr option"
  dm_bound_generation :: "int option"
  dm_bound_digest :: "pystr option"
  dm_restrictive_floor :: "int option"
  dm_positively_established :: "bool option"
  dm_at_revision :: "currentness_revision option"

record egress_proof_coordinate_set =
  ec_principal :: "pystr option"
  ec_deployment :: "pystr option"
  ec_credential :: "pystr option"
  ec_signer :: "pystr option"
  ec_route :: "pystr option"
  ec_endpoint :: "pystr option"
  ec_broker_session :: "pystr option"
  ec_local_latch_clear :: "bool option"

record owner_submission =
  ow_owner_identity :: "pystr option"
  ow_affected_scope :: "pystr list"
  ow_is_conflicting :: "bool option"
  ow_is_fork :: "bool option"
  ow_sequence_regression :: "bool option"
  ow_missing_predecessor :: "bool option"
  ow_unverifiable_scope :: "bool option"

record domain_proof =
  dp_domain :: "pystr option"
  dp_result :: "proof_result option"

definition event_at_commit :: "int \<Rightarrow> ordering_event" where
  "event_at_commit n =
    \<lparr>oe_event_id = None, oe_quorum_commit_index = Some n, oe_egress_journal_sequence = None,
     oe_source_continuity_id = None, oe_source_native_sequence = None, oe_local_monotonic_value = None,
     oe_causal_predecessor_ids = [], oe_time_lo = None, oe_time_hi = None\<rparr>"

definition floor_strictly_advances :: "int option \<Rightarrow> int option \<Rightarrow> bool" where
  "floor_strictly_advances predecessor advanced =
    (case (predecessor, advanced) of
       (Some p, Some a) \<Rightarrow> compare_order (event_at_commit p) (event_at_commit a) = BEFORE
     | _ \<Rightarrow> False)"

section \<open>Artifacts\<close>

record currentness_policy_content =
  cpo_policy_generation :: "int option"
  cpo_policy_digest :: "pystr option"
  cpo_required_dimensions :: "dimension_key list"
  cpo_compatibility_manifest_digest :: "pystr option"

type_synonym currentness_policy = "currentness_policy_content artifact"

text \<open>The trial claims of a vector are only dumped.\<close>

record currentness_vector_content =
  cv_currentness_revision :: "currentness_revision option"
  cv_vector_digest :: "pystr option"
  cv_policy_id :: "pystr option"
  cv_policy_generation :: "int option"
  cv_policy_digest :: "pystr option"
  cv_compatibility_manifest_digest :: "pystr option"
  cv_scope :: "(pystr \<times> pystr option) list"
  cv_dimensions :: "currentness_dimension list"
  cv_trial_claims :: json

type_synonym safety_currentness_vector = "currentness_vector_content artifact"

record currentness_proof_content =
  cpf_nonce :: "pystr option"
  cpf_single_use_consumed :: "bool option"
  cpf_issue_revision :: "currentness_revision option"
  cpf_expiry_evidence :: "pystr option"
  cpf_is_expired :: "bool option"
  cpf_vector_id :: "pystr option"
  cpf_vector_digest :: "pystr option"
  cpf_committed_revision :: "currentness_revision option"
  cpf_bound_generations :: "int list"
  cpf_restrictive_floors :: "int list"
  cpf_egress_coordinates :: egress_proof_coordinate_set
  cpf_trial_claims :: json
  cpf_capability_claim_command :: "pystr option"
  cpf_claim_committed_result :: "pystr option"
  cpf_send_started_revision :: "currentness_revision option"
  cpf_max_claim_to_send_bound_ms :: "int option"
  cpf_result :: "proof_result option"

type_synonym egress_currentness_proof = "currentness_proof_content artifact"

record restrictive_fence_content =
  rf_owner_identity :: "pystr option"
  rf_affected_scope :: "pystr list"
  rf_predecessor_floor :: "int option"
  rf_advanced_floor :: "int option"
  rf_terminal_denial :: "bool option"
  rf_fence_digest :: "pystr option"

type_synonym restrictive_fence_record = "restrictive_fence_content artifact"

definition revision_json :: "currentness_revision option \<Rightarrow> json" where
  "revision_json r =
    (case r of
       None \<Rightarrow> JNull
     | Some v \<Rightarrow> JObj [(''revision_id'', jopt (rv_revision_id v)), (''commit_index'', jint (rv_commit_index v))])"

definition currentness_authority_json :: json where
  "currentness_authority_json = JObj (map (\<lambda>f. (f, JBool False))
    [''approves'', ''mutates_capacity'', ''releases_capacity'', ''issues_authority'', ''issues_capability'',
     ''classifies_protection'', ''transmits'', ''clears_halt'', ''re_arms''])"

fun proof_result_json :: "proof_result option \<Rightarrow> json" where
  "proof_result_json None = JNull"
| "proof_result_json (Some CURRENT) = JStr ''CURRENT''"
| "proof_result_json (Some RESTRICTED) = JStr ''RESTRICTED''"
| "proof_result_json (Some RESULT_UNKNOWN) = JStr ''UNKNOWN''"

text \<open>
  The covered content leaves out what happens to a proof after its issue: its consumption, its expiry,
  and the coordinates of the egress.
\<close>

definition currentness_proof_class :: "currentness_proof_content artifact_class" where
  "currentness_proof_class =
    \<lparr>acl_id_rule = IndependentId,
     acl_covered = (\<lambda>c. JObj
       [(''nonce'', jopt (cpf_nonce c)), (''issue_revision'', revision_json (cpf_issue_revision c)),
        (''expiry_evidence'', jopt (cpf_expiry_evidence c)), (''vector_id'', jopt (cpf_vector_id c)),
        (''vector_digest'', jopt (cpf_vector_digest c)),
        (''committed_revision'', revision_json (cpf_committed_revision c)),
        (''bound_generations'', JArr (map (\<lambda>n. jint (Some n)) (cpf_bound_generations c))),
        (''restrictive_floors'', JArr (map (\<lambda>n. jint (Some n)) (cpf_restrictive_floors c))),
        (''capability_claim_command'', jopt (cpf_capability_claim_command c)),
        (''claim_committed_result'', jopt (cpf_claim_committed_result c)),
        (''send_started_revision'', revision_json (cpf_send_started_revision c)),
        (''max_claim_to_send_bound_ms'', jint (cpf_max_claim_to_send_bound_ms c)),
        (''result'', proof_result_json (cpf_result c)), (''trial_claims'', cpf_trial_claims c),
        (''authority_effect'', currentness_authority_json)]),
     acl_required = (\<lambda>c.
       [(''nonce'', jopt (cpf_nonce c)), (''vector_id'', jopt (cpf_vector_id c)),
        (''vector_digest'', jopt (cpf_vector_digest c)),
        (''committed_revision'', revision_json (cpf_committed_revision c))])\<rparr>"

text \<open>\<^verbatim>\<open>missing_required_fields\<close> of a proof, whose required paths include its own id.\<close>

definition proof_missing :: "egress_currentness_proof \<Rightarrow> pystr list" where
  "proof_missing p =
    map fst (filter (\<lambda>(path, v). v = JNull \<or> v = JStr ''TBD'')
      ((''proof_id'', jopt (ar_id p)) # acl_required currentness_proof_class (ar_content p)))"

section \<open>Completeness of a vector\<close>

definition forbidden_placeholders :: "pystr list" where
  "forbidden_placeholders =
    [''latest'', ''LATEST'', ''*'', ''?'', ''null-as-current'', ''NULL_AS_CURRENT'', ''current'', ''CURRENT'',
     ''@current'', ''inherit'', ''fallback'']"

definition dimension_positively_established :: "currentness_dimension option \<Rightarrow> bool" where
  "dimension_positively_established dimension =
    (case dimension of
       None \<Rightarrow> False
     | Some d \<Rightarrow>
         if dm_positively_established d \<noteq> Some True then False
         else \<not> (dm_dimension_key d = None \<or> dm_owner_identity d = None \<or> dm_bound_generation d = None \<or>
           dm_bound_digest d = None \<or> dm_at_revision d = None))"

definition single_revision_consistent :: "safety_currentness_vector option \<Rightarrow> bool" where
  "single_revision_consistent vector =
    (case vector of
       None \<Rightarrow> False
     | Some v \<Rightarrow>
         (case cv_currentness_revision (ar_content v) of
            None \<Rightarrow> False
          | Some r \<Rightarrow> list_all (\<lambda>d. dm_at_revision d = Some r) (cv_dimensions (ar_content v))))"

text \<open>A bound generation is an int, so only digests can be placeholders.\<close>

definition no_forbidden_placeholder :: "safety_currentness_vector option \<Rightarrow> bool" where
  "no_forbidden_placeholder vector =
    (case vector of
       None \<Rightarrow> False
     | Some v \<Rightarrow> list_all (\<lambda>d. dm_bound_digest d \<notin> Some ` set forbidden_placeholders)
         (cv_dimensions (ar_content v)))"

definition policy_covers_mandated_dimensions :: "currentness_policy option \<Rightarrow> dimension_key list \<Rightarrow> bool" where
  "policy_covers_mandated_dimensions policy mandated =
    (case policy of
       None \<Rightarrow> False
     | Some p \<Rightarrow>
         if mandated = [] then False
         else list_all (\<lambda>k. k \<in> set (cpo_required_dimensions (ar_content p))) mandated)"

definition established_keys :: "safety_currentness_vector \<Rightarrow> dimension_key option list" where
  "established_keys v =
    map dm_dimension_key (filter (\<lambda>d. dimension_positively_established (Some d)) (cv_dimensions (ar_content v)))"

definition vector_complete ::
  "safety_currentness_vector option \<Rightarrow> currentness_policy option \<Rightarrow> dimension_key list \<Rightarrow> bool" where
  "vector_complete vector policy mandated =
    (case (vector, policy) of
       (Some v, Some p) \<Rightarrow>
         (let effective_mandated = mandated_dimension_floor @ mandated;
              required = cpo_required_dimensions (ar_content p)
          in if required = [] then False
             else if cv_dimensions (ar_content v) = [] then False
             else if \<not> policy_covers_mandated_dimensions policy effective_mandated then False
             else if \<not> list_all (\<lambda>k. Some k \<in> set (established_keys v)) required then False
             else if \<not> single_revision_consistent vector then False
             else no_forbidden_placeholder vector)
     | _ \<Rightarrow> False)"

section \<open>Floors, owners and fences\<close>

definition restrictive_floor_reconciled :: "int option list \<Rightarrow> int option" where
  "restrictive_floor_reconciled floors =
    (if floors = [] then None
     else if list_ex (\<lambda>f. f = None) floors then None
     else Some (Max (set (map the floors))))"

definition all_floors_met :: "currentness_dimension list \<Rightarrow> bool" where
  "all_floors_met dimensions =
    (if dimensions = [] then False
     else list_all (\<lambda>d. case (dm_bound_generation d, dm_restrictive_floor d) of
         (Some g, Some f) \<Rightarrow> \<not> g < f | _ \<Rightarrow> False) dimensions)"

definition owner_doubtful :: "owner_submission \<Rightarrow> bool" where
  "owner_doubtful s =
    (ow_is_conflicting s \<noteq> Some False \<or> ow_is_fork s \<noteq> Some False \<or>
     ow_sequence_regression s \<noteq> Some False \<or> ow_missing_predecessor s \<noteq> Some False \<or>
     ow_unverifiable_scope s \<noteq> Some False)"

definition conflicting_owner_restricts :: "owner_submission list \<Rightarrow> bool" where
  "conflicting_owner_restricts submissions = list_ex owner_doubtful submissions"

definition restrictive_union_scope :: "owner_submission list \<Rightarrow> pystr list" where
  "restrictive_union_scope submissions =
    remdups (concat (map ow_affected_scope (filter owner_doubtful submissions)))"

definition fence_advances_floor :: "restrictive_fence_record option \<Rightarrow> bool" where
  "fence_advances_floor fence =
    (case fence of
       None \<Rightarrow> False
     | Some f \<Rightarrow>
         if rf_terminal_denial (ar_content f) = Some True then True
         else floor_strictly_advances (rf_predecessor_floor (ar_content f)) (rf_advanced_floor (ar_content f)))"

section \<open>Proofs\<close>

definition proof_structurally_complete :: "egress_currentness_proof option \<Rightarrow> bool" where
  "proof_structurally_complete pf =
    (case pf of
       None \<Rightarrow> False
     | Some p \<Rightarrow>
         if proof_missing p \<noteq> [] then False
         else if cpf_bound_generations (ar_content p) = [] then False
         else \<not> (cpf_capability_claim_command (ar_content p) = None \<or>
           cpf_send_started_revision (ar_content p) = None))"

definition proof_admissible :: "egress_currentness_proof option \<Rightarrow> bool" where
  "proof_admissible pf =
    (if \<not> proof_structurally_complete pf then False
     else case pf of
       None \<Rightarrow> False
     | Some p \<Rightarrow>
         (let c = ar_content p
          in if cpf_result c \<noteq> Some CURRENT then False
             else if cpf_single_use_consumed c \<noteq> Some False then False
             else if cpf_is_expired c \<noteq> Some False then False
             else ec_local_latch_clear (cpf_egress_coordinates c) = Some True))"

definition multi_domain_no_union :: "domain_proof list \<Rightarrow> bool" where
  "multi_domain_no_union domain_proofs =
    (if domain_proofs = [] then False
     else list_all (\<lambda>d. \<not> (dp_domain d = None \<or> dp_result d \<noteq> Some CURRENT)) domain_proofs)"

definition parent_child_floor_monotone :: "int option \<Rightarrow> int option \<Rightarrow> bool" where
  "parent_child_floor_monotone child_generation parent_floor =
    (case (child_generation, parent_floor) of (Some c, Some p) \<Rightarrow> p \<le> c | _ \<Rightarrow> False)"

definition protective_label_not_authority :: "pystr option \<Rightarrow> bool" where
  "protective_label_not_authority lbl = False"

definition expiry_denies_future_use_only :: "bool option \<Rightarrow> bool" where
  "expiry_denies_future_use_only is_expired = (is_expired \<noteq> Some False)"

definition unknown_preserves_capacity :: "bool option \<Rightarrow> int option \<Rightarrow> int option" where
  "unknown_preserves_capacity currentness_known worst_credible_capacity =
    (if currentness_known = Some True then None else worst_credible_capacity)"

definition currentness_recovery_revives_nothing :: "bool option \<Rightarrow> bool option \<Rightarrow> bool" where
  "currentness_recovery_revives_nothing is_recovery_event latch_clear =
    (if is_recovery_event = Some True then False else latch_clear = Some True)"

definition race_order_admissible :: "bool option \<Rightarrow> bool option \<Rightarrow> bool" where
  "race_order_admissible claim_before_fence fence_before_first_byte =
    (if claim_before_fence \<noteq> Some True then False else fence_before_first_byte = Some False)"

definition broker_reachable_not_authority :: "bool option \<Rightarrow> bool" where
  "broker_reachable_not_authority reachable = False"

definition obligation_preserved :: "int option \<Rightarrow> pystr option \<Rightarrow> pystr list \<Rightarrow> bool \<Rightarrow> bool" where
  "obligation_preserved obligation reservation_state capacity_consuming_states magnitude_unknown =
    (if magnitude_unknown then False
     else if obligation = None then True
     else case reservation_state of None \<Rightarrow> False | Some s \<Rightarrow> s \<in> set capacity_consuming_states)"

section \<open>What completeness means\<close>

lemma floor_advances_iff:
  "floor_strictly_advances p a \<longleftrightarrow> (\<exists>m n. p = Some m \<and> a = Some n \<and> m < n)"
  by (auto simp: floor_strictly_advances_def compare_order_def cmp_opt_def cmp_def event_at_commit_def
      same_continuity_def names_predecessor_def interval_order_def split: option.splits)

lemma established_iff:
  "Some k \<in> set (established_keys v) \<longleftrightarrow>
    (\<exists>d \<in> set (cv_dimensions (ar_content v)). dm_dimension_key d = Some k \<and>
      dimension_positively_established (Some d))"
  by (auto simp: established_keys_def image_iff)

lemma vector_complete_iff:
  "vector_complete (Some v) (Some p) mandated \<longleftrightarrow>
    set mandated \<union> (UNIV - {DIM_RESTRICTED_LIVE_TRIAL}) \<subseteq> set (cpo_required_dimensions (ar_content p)) \<and>
    (\<forall>k \<in> set (cpo_required_dimensions (ar_content p)). \<exists>d \<in> set (cv_dimensions (ar_content v)).
      dm_dimension_key d = Some k \<and> dimension_positively_established (Some d)) \<and>
    (\<exists>r. cv_currentness_revision (ar_content v) = Some r \<and>
      (\<forall>d \<in> set (cv_dimensions (ar_content v)). dm_at_revision d = Some r)) \<and>
    (\<forall>d \<in> set (cv_dimensions (ar_content v)). dm_bound_digest d \<notin> Some ` set forbidden_placeholders)"
    (is "?l \<longleftrightarrow> ?covers \<and> ?established \<and> ?one \<and> ?concrete")
proof -
  have covers: "policy_covers_mandated_dimensions (Some p) (mandated_dimension_floor @ mandated) \<longleftrightarrow> ?covers"
  proof -
    have "mandated_dimension_floor \<noteq> []"
      by (simp add: mandated_dimension_floor_def dimension_keys_def conditional_dimension_keys_def)
    then show ?thesis by (auto simp: policy_covers_mandated_dimensions_def list_all_iff subset_iff)
  qed
  have nonempty: "cpo_required_dimensions (ar_content p) \<noteq> []" if ?covers
  proof -
    have "DIM_CONTEXT \<in> set (cpo_required_dimensions (ar_content p))" using that by auto
    then show ?thesis by auto
  qed
  have dims: "cv_dimensions (ar_content v) \<noteq> []" if ?covers ?established
    using that(2) nonempty[OF that(1)] by (cases "cpo_required_dimensions (ar_content p)") auto
  have one: "single_revision_consistent (Some v) \<longleftrightarrow> ?one"
    by (auto simp: single_revision_consistent_def list_all_iff split: option.splits)
  have established: "list_all (\<lambda>k. Some k \<in> set (established_keys v)) (cpo_required_dimensions (ar_content p))
      \<longleftrightarrow> ?established"
    unfolding established_iff list_all_iff ..
  have concrete: "no_forbidden_placeholder (Some v) \<longleftrightarrow> ?concrete"
    by (simp add: no_forbidden_placeholder_def list_all_iff)
  show ?thesis
    unfolding vector_complete_def Let_def option.case prod.case covers one established concrete
    using nonempty dims by auto
qed

text \<open>
  A vector is complete exactly when the policy requires every unconditional dimension, and what the
  caller mandates on top, every required dimension has an established entry with owner, generation and
  digest, all entries are of the one revision of the vector, and no digest is a placeholder: the caller
  can ask for more than the floor but never for less.
\<close>

theorem complete_vector_has_every_dimension:
  "vector_complete vector policy mandated \<longleftrightarrow>
    (\<exists>v p r. vector = Some v \<and> policy = Some p \<and> cv_currentness_revision (ar_content v) = Some r \<and>
      set mandated \<union> (UNIV - {DIM_RESTRICTED_LIVE_TRIAL}) \<subseteq> set (cpo_required_dimensions (ar_content p)) \<and>
      (\<forall>k \<in> set (cpo_required_dimensions (ar_content p)). \<exists>d \<in> set (cv_dimensions (ar_content v)).
        dm_dimension_key d = Some k \<and> dm_positively_established d = Some True \<and> dm_owner_identity d \<noteq> None \<and>
        dm_bound_generation d \<noteq> None \<and> dm_bound_digest d \<noteq> None) \<and>
      (\<forall>d \<in> set (cv_dimensions (ar_content v)). dm_at_revision d = Some r \<and>
        dm_bound_digest d \<notin> Some ` set forbidden_placeholders))"
proof (cases "vector = None \<or> policy = None")
  case True
  then show ?thesis by (auto simp: vector_complete_def split: option.splits)
next
  case False
  then obtain v p where vp: "vector = Some v" "policy = Some p" by auto
  have est: "dimension_positively_established (Some d) \<longleftrightarrow>
      dm_positively_established d = Some True \<and> dm_dimension_key d \<noteq> None \<and> dm_owner_identity d \<noteq> None \<and>
      dm_bound_generation d \<noteq> None \<and> dm_bound_digest d \<noteq> None \<and> dm_at_revision d \<noteq> None" for d
    by (auto simp: dimension_positively_established_def)
  let ?D = "set (cv_dimensions (ar_content v))"
  have e: "(\<exists>d \<in> ?D. dm_dimension_key d = Some k \<and> dimension_positively_established (Some d)) \<longleftrightarrow>
      (\<exists>d \<in> ?D. dm_dimension_key d = Some k \<and> dm_positively_established d = Some True \<and>
        dm_owner_identity d \<noteq> None \<and> dm_bound_generation d \<noteq> None \<and> dm_bound_digest d \<noteq> None)"
    if "\<forall>d \<in> ?D. dm_at_revision d = Some r" for r k
    using that unfolding est by (intro bex_cong) auto
  show ?thesis (is "?L = ?R")
  proof (cases "\<exists>r. cv_currentness_revision (ar_content v) = Some r \<and> (\<forall>d \<in> ?D. dm_at_revision d = Some r)")
    case True
    then obtain r where r: "cv_currentness_revision (ar_content v) = Some r" "\<forall>d \<in> ?D. dm_at_revision d = Some r"
      by blast
    then show ?thesis unfolding vp vector_complete_iff e[OF r(2)] by (simp add: ball_conj_distrib)
  next
    case False
    then have "\<not> ?L" unfolding vp vector_complete_iff by blast
    moreover have "\<not> ?R"
    proof
      assume ?R
      then obtain r where "cv_currentness_revision (ar_content v) = Some r" "\<forall>d \<in> ?D. dm_at_revision d = Some r"
        unfolding vp by auto
      with False show False by blast
    qed
    ultimately show ?thesis by blast
  qed
qed

section \<open>Proofs and floors\<close>

lemma proof_missing_iff:
  "proof_missing p = [] \<longleftrightarrow>
    ar_id p \<notin> {None, Some ''TBD''} \<and> cpf_nonce (ar_content p) \<notin> {None, Some ''TBD''} \<and>
    cpf_vector_id (ar_content p) \<notin> {None, Some ''TBD''} \<and>
    cpf_vector_digest (ar_content p) \<notin> {None, Some ''TBD''} \<and> cpf_committed_revision (ar_content p) \<noteq> None"
proof -
  have str: "jopt x = JNull \<or> jopt x = JStr ''TBD'' \<longleftrightarrow> x \<in> {None, Some ''TBD''}" for x
    by (cases x) auto
  have revn: "revision_json x = JNull \<or> revision_json x = JStr ''TBD'' \<longleftrightarrow> x = None" for x
    by (cases x) (auto simp: revision_json_def)
  show ?thesis
    by (simp add: proof_missing_def currentness_proof_class_def str revn del: insert_iff)
qed

lemma proof_admissible_iff:
  "proof_admissible pf \<longleftrightarrow>
    (\<exists>p. pf = Some p \<and> proof_missing p = [] \<and> cpf_bound_generations (ar_content p) \<noteq> [] \<and>
      cpf_capability_claim_command (ar_content p) \<noteq> None \<and> cpf_send_started_revision (ar_content p) \<noteq> None \<and>
      cpf_result (ar_content p) = Some CURRENT \<and> cpf_single_use_consumed (ar_content p) = Some False \<and>
      cpf_is_expired (ar_content p) = Some False \<and>
      ec_local_latch_clear (cpf_egress_coordinates (ar_content p)) = Some True)"
  by (auto simp: proof_admissible_def proof_structurally_complete_def Let_def split: option.splits)

lemma reconciled_floor_iff:
  "restrictive_floor_reconciled floors = Some m \<longleftrightarrow>
    None \<notin> set floors \<and> Some m \<in> set floors \<and> (\<forall>f. Some f \<in> set floors \<longrightarrow> f \<le> m)"
proof (cases "floors = [] \<or> None \<in> set floors")
  case True
  then show ?thesis by (auto simp: restrictive_floor_reconciled_def list_ex_iff)
next
  case False
  then have "restrictive_floor_reconciled floors = Some (Max (set (map the floors)))"
    by (auto simp: restrictive_floor_reconciled_def list_ex_iff)
  moreover have "Max (set (map the floors)) = m \<longleftrightarrow>
      m \<in> set (map the floors) \<and> (\<forall>f \<in> set (map the floors). f \<le> m)"
    using False by (intro Max_eq_iff) auto
  moreover have "x \<in> set (map the floors) \<longleftrightarrow> Some x \<in> set floors" for x
  proof
    assume "x \<in> set (map the floors)"
    then obtain f where "f \<in> set floors" "x = the f" by auto
    with False show "Some x \<in> set floors" by (cases f) auto
  qed (auto intro: rev_image_eqI)
  ultimately show ?thesis using False by auto
qed

lemma union_scope_monotone:
  "set subs \<subseteq> set subs' \<Longrightarrow>
    set (restrictive_union_scope subs) \<subseteq> set (restrictive_union_scope subs') \<and>
    (conflicting_owner_restricts subs \<longrightarrow> conflicting_owner_restricts subs')"
  by (auto simp: restrictive_union_scope_def conflicting_owner_restricts_def list_ex_iff)

text \<open>
  A second entry of an established dimension that is not established, or is below its floor, does not
  make a vector incomplete.
\<close>

lemma doubtful_second_entry_is_ignored:
  assumes "vector_complete (Some v) (Some p) mandated" "dm_at_revision d = cv_currentness_revision (ar_content v)"
    "dm_bound_digest d = None"
  shows "vector_complete
    (Some (v\<lparr>ar_content := (ar_content v)\<lparr>cv_dimensions := cv_dimensions (ar_content v) @ [d]\<rparr>\<rparr>)) (Some p) mandated"
  using assms unfolding vector_complete_iff by (auto 0 3)

end
