(* ===== verification/Venue_Admissibility.thy ===== *)
theory Venue_Admissibility
  imports Engine_Sequencer
begin

text \<open>
  The venue constraint gate: the vocabulary, records and artifacts of \<^verbatim>\<open>tos/venue/\<close> and every
  predicate of its \<^verbatim>\<open>state.py\<close> and \<^verbatim>\<open>predicates.py\<close>.  A frozenset that is iterated is a list, one that
  is compared or searched is a set; a mapping is an association list whose later entry of a key
  replaces an earlier one.  The main lemmas: the worklist of the invalidation closure ends and yields
  exactly the reachable nodes, an admissible shape is on the tick grid and on the lot grid within the
  bounds, and every doubtful fact denies.
\<close>

section \<open>Vocabulary\<close>

datatype order_admissibility_result =
  OA_ADMISSIBLE | OA_RESTRICTED_PROTECTIVE_ONLY | OA_INADMISSIBLE | OA_UNKNOWN

datatype tradability_state = TS_TRADABLE | TS_NOT_TRADABLE | TS_RESTRICTED | TS_UNKNOWN

datatype action_class =
  AC_NEW_LONG | AC_NEW_SHORT | AC_INCREASE | AC_DECREASE | AC_CLOSE | AC_REVERSAL | AC_CANCEL
| AC_AMEND | AC_REPLACE | AC_REDUCE_ONLY | AC_PROTECTIVE | AC_EMERGENCY | AC_ROUTING_ALTERNATIVE

datatype constraint_class =
  CC_SESSION_PHASE | CC_INSTRUMENT_CONTRACT | CC_PRICE_TICK_LOT_QUANTITY | CC_ORDER_TYPE_TIF
| CC_ACCOUNT_MARGIN_BORROW_SETTLEMENT | CC_BROKER_CAPABILITY | CC_SOURCE_CONTINUITY

section \<open>Records\<close>

record venue_gate_authority =
  vg_approves :: bool
  vg_mutates_capacity :: bool
  vg_issues_authority :: bool
  vg_classifies_protection :: bool
  vg_transmits :: bool
  vg_clears_halt :: bool
  vg_rearms :: bool

text \<open>The validator of the record: every field must be false.\<close>

definition venue_gate_authority_ok :: "venue_gate_authority \<Rightarrow> bool" where
  "venue_gate_authority_ok v =
    (\<not> vg_approves v \<and> \<not> vg_mutates_capacity v \<and> \<not> vg_issues_authority v \<and> \<not> vg_classifies_protection v \<and>
     \<not> vg_transmits v \<and> \<not> vg_clears_halt v \<and> \<not> vg_rearms v)"

record instrument_route =
  ir_canonical_instrument_id :: "pystr option"
  ir_venue_listing :: "pystr option"
  ir_market_segment :: "pystr option"
  ir_contract_month :: "pystr option"
  ir_product_type :: "pystr option"
  ir_currency :: "pystr option"
  ir_multiplier :: "pystr option"
  ir_expiration :: "pystr option"
  ir_settlement_method :: "pystr option"
  ir_account_mapping :: "pystr option"
  ir_environment :: "pystr option"
  ir_broker :: "pystr option"
  ir_route :: "pystr option"
  ir_routing_relevant_aliases :: "pystr set"

record price_band_tick =
  pb_band_min :: int
  pb_band_max :: int
  pb_tick :: int

record venue_shape_constraints =
  vs_price_min :: "int option"
  vs_price_max :: "int option"
  vs_tick_size :: "int option"
  vs_price_band_ticks :: "price_band_tick list option"
  vs_lot_size :: "int option"
  vs_min_quantity :: "int option"
  vs_max_quantity :: "int option"
  vs_allowed_order_types :: "pystr list"
  vs_allowed_tifs :: "pystr list"
  vs_allowed_sides :: "pystr list"
  vs_allowed_position_effects :: "pystr list"

record order_shape =
  os_price :: "int option"
  os_quantity :: "int option"
  os_order_type :: "pystr option"
  os_tif :: "pystr option"
  os_side :: "pystr option"
  os_position_effect :: "pystr option"
  os_silently_rounded :: "bool option"

record stage_binding =
  sb_stage :: "pystr option"
  sb_bound_decision_id :: "pystr option"
  sb_bound_decision_digest :: "pystr option"

record binding_chain =
  bc_decision_id :: "pystr option"
  bc_decision_digest :: "pystr option"
  bc_stage_bindings :: "stage_binding list"

record source_observation =
  so_source_id :: "pystr option"
  so_state :: "pystr option"
  so_generation :: "int option"

record policy_resolution =
  pr_resolution_id :: "pystr option"
  pr_resolved_result :: "order_admissibility_result option"

record account_margin_facts =
  am_fresh :: "bool option"
  am_corroborated :: "bool option"
  am_inferred_from_stale_balance :: "bool option"
  am_inferred_from_prior_order :: "bool option"
  am_inferred_from_absence_of_error :: "bool option"

record source_continuity =
  sc_continuity_id :: "pystr option"
  sc_verifiable :: "bool option"
  sc_restarted :: "bool option"
  sc_reconnected :: "bool option"
  sc_sequence_reset :: "bool option"
  sc_rolled_back :: "bool option"
  sc_failed_over :: "bool option"

record action_phase_admission =
  ap_action :: "action_class option"
  ap_admitting_phases :: "pystr list"

record action_tradability =
  at_action :: "action_class option"
  at_state :: "tradability_state option"

record dependency_edge =
  de_node :: "pystr option"
  de_dependents :: "pystr list"

record constraint_dependency_closure =
  cd_edges :: "dependency_edge list"
  cd_unproven_edges :: "dependency_edge list"

record material_constraint_change =
  mc_change_id :: "pystr option"
  mc_constraint_class :: "constraint_class option"
  mc_material :: "bool option"

record venue_policy_content =
  vp_policy_generation :: "int option"
  vp_scope :: "pystr option"
  vp_admitting_phase_rules :: "action_phase_admission list"
  vp_required_constraint_classes :: "constraint_class list"
  vp_shape_constraints :: venue_shape_constraints
  vp_dependency_closure :: constraint_dependency_closure

record venue_snapshot_content =
  vn_constraint_generation :: "int option"
  vn_policy_id :: "pystr option"
  vn_policy_generation :: "int option"
  vn_policy_digest :: "pystr option"
  vn_observed_session_phase :: "pystr option"
  vn_action_tradability :: "action_tradability list"
  vn_critical_input_snapshot_digest :: "pystr option"
  vn_source_continuity_id :: "pystr option"
  vn_max_age :: "pystr option"

record admissibility_decision_content =
  ad_decision_generation :: "int option"
  ad_constraint_generation :: "int option"
  ad_policy_id :: "pystr option"
  ad_policy_generation :: "int option"
  ad_policy_digest :: "pystr option"
  ad_snapshot_id :: "pystr option"
  ad_snapshot_digest :: "pystr option"
  ad_decision_context_capsule_id :: "pystr option"
  ad_decision_context_capsule_digest :: "pystr option"
  ad_candidate_command_id :: "pystr option"
  ad_candidate_command_digest :: "pystr option"
  ad_broker_capability_profile_version :: "pystr option"
  ad_broker_capability_profile_digest :: "pystr option"
  ad_bound_instrument_route :: instrument_route
  ad_action_class :: "action_class option"
  ad_observed_session_phase :: "pystr option"
  ad_result :: "order_admissibility_result option"
  ad_failed_predicates :: "pystr list"
  ad_unknown_predicates :: "pystr list"
  ad_authority_effect :: venue_gate_authority

type_synonym venue_constraint_policy = "venue_policy_content artifact"
type_synonym venue_constraint_snapshot = "venue_snapshot_content artifact"
type_synonym order_admissibility_decision = "admissibility_decision_content artifact"

subsection \<open>Reading the records\<close>

definition edge_map :: "dependency_edge list \<Rightarrow> (pystr \<times> pystr list) list" where
  "edge_map es = foldl (\<lambda>d e. case de_node e of None \<Rightarrow> d | Some n \<Rightarrow> dict_put n (de_dependents e) d) [] es"

definition as_graph :: "constraint_dependency_closure \<Rightarrow> (pystr \<times> pystr list) list" where
  "as_graph c = edge_map (cd_edges c)"

definition as_unproven :: "constraint_dependency_closure \<Rightarrow> (pystr \<times> pystr list) list" where
  "as_unproven c = edge_map (cd_unproven_edges c)"

definition is_material :: "material_constraint_change \<Rightarrow> bool" where
  "is_material c = (mc_material c \<noteq> Some False)"

definition admitting_phases_for :: "venue_constraint_policy \<Rightarrow> action_class \<Rightarrow> pystr list option" where
  "admitting_phases_for p action =
    map_option ap_admitting_phases
      (find (\<lambda>r. ap_action r = Some action) (vp_admitting_phase_rules (ar_content p)))"

definition tradability_for :: "venue_constraint_snapshot \<Rightarrow> action_class \<Rightarrow> tradability_state option" where
  "tradability_for s action =
    (case find (\<lambda>e. at_action e = Some action) (vn_action_tradability (ar_content s)) of
       None \<Rightarrow> None | Some e \<Rightarrow> at_state e)"

section \<open>State\<close>

definition session_phase_admits ::
  "pystr option \<Rightarrow> action_class \<Rightarrow> venue_constraint_snapshot option \<Rightarrow> venue_constraint_policy option \<Rightarrow>
    order_admissibility_result" where
  "session_phase_admits observed_phase action snapshot policy =
    (case (snapshot, policy) of
       (Some s, Some p) \<Rightarrow>
         (case observed_phase of
            None \<Rightarrow> OA_UNKNOWN
          | Some phase \<Rightarrow>
              (case admitting_phases_for p action of
                 None \<Rightarrow> OA_INADMISSIBLE
               | Some phases \<Rightarrow>
                   if phases = [] then OA_INADMISSIBLE
                   else if phase \<notin> set phases then OA_INADMISSIBLE
                   else OA_ADMISSIBLE))
     | _ \<Rightarrow> OA_UNKNOWN)"

definition constraint_generation_monotone :: "ordering_event \<Rightarrow> ordering_event \<Rightarrow> bool" where
  "constraint_generation_monotone earlier later = (compare_order earlier later = BEFORE)"

definition venue_admissibility_decision_digest_of :: "order_admissibility_decision option \<Rightarrow> pystr option" where
  "venue_admissibility_decision_digest_of d = (case d of None \<Rightarrow> None | Some a \<Rightarrow> ar_canonical_digest a)"

definition venue_snapshot_digest_of :: "venue_constraint_snapshot option \<Rightarrow> pystr option" where
  "venue_snapshot_digest_of s = (case s of None \<Rightarrow> None | Some a \<Rightarrow> ar_canonical_digest a)"

definition venue_constraint_policy_ref_coordinates ::
  "venue_constraint_policy option \<Rightarrow> pystr option \<times> int option \<times> pystr option" where
  "venue_constraint_policy_ref_coordinates p =
    (case p of None \<Rightarrow> (None, None, None)
     | Some a \<Rightarrow> (ar_id a, vp_policy_generation (ar_content a), ar_canonical_digest a))"

definition venue_constraint_snapshot_ref_coordinates ::
  "venue_constraint_snapshot option \<Rightarrow> pystr option \<times> int option \<times> pystr option" where
  "venue_constraint_snapshot_ref_coordinates s =
    (case s of None \<Rightarrow> (None, None, None)
     | Some a \<Rightarrow> (ar_id a, vn_constraint_generation (ar_content a), ar_canonical_digest a))"

definition order_admissibility_decision_ref_coordinates ::
  "order_admissibility_decision option \<Rightarrow> pystr option \<times> pystr option" where
  "order_admissibility_decision_ref_coordinates d =
    (case d of None \<Rightarrow> (None, None) | Some a \<Rightarrow> (ar_id a, ar_canonical_digest a))"

section \<open>Predicates\<close>

definition route_scalars :: "instrument_route \<Rightarrow> pystr option list" where
  "route_scalars r =
    [ir_canonical_instrument_id r, ir_venue_listing r, ir_market_segment r, ir_contract_month r,
     ir_product_type r, ir_currency r, ir_multiplier r, ir_expiration r, ir_settlement_method r,
     ir_account_mapping r, ir_environment r, ir_broker r, ir_route r]"

definition exit_action_classes :: "action_class list" where
  "exit_action_classes =
    [AC_DECREASE, AC_CLOSE, AC_REVERSAL, AC_CANCEL, AC_AMEND, AC_REPLACE, AC_REDUCE_ONLY, AC_PROTECTIVE,
     AC_EMERGENCY]"

definition exact_instrument_route_bound ::
  "order_admissibility_decision option \<Rightarrow> instrument_route option \<Rightarrow> bool" where
  "exact_instrument_route_bound decision candidate =
    (case (decision, candidate) of
       (Some d, Some c) \<Rightarrow>
         (let bound = ad_bound_instrument_route (ar_content d)
          in list_all2 (\<lambda>b v. b \<noteq> None \<and> v \<noteq> None \<and> b = v) (route_scalars bound) (route_scalars c) \<and>
            ir_routing_relevant_aliases bound = ir_routing_relevant_aliases c)
     | _ \<Rightarrow> False)"

definition resolved_tick :: "int \<Rightarrow> venue_shape_constraints \<Rightarrow> int option" where
  "resolved_tick price constraints =
    (case vs_price_band_ticks constraints of
       Some (row # rows) \<Rightarrow>
         map_option pb_tick (find (\<lambda>r. pb_band_min r \<le> price \<and> price \<le> pb_band_max r) (row # rows))
     | _ \<Rightarrow> vs_tick_size constraints)"

definition has_bands :: "venue_shape_constraints \<Rightarrow> bool" where
  "has_bands c = (case vs_price_band_ticks c of Some (row # rows) \<Rightarrow> True | _ \<Rightarrow> False)"

definition in_allowed :: "pystr option \<Rightarrow> pystr list \<Rightarrow> bool" where
  "in_allowed v allowed = (case v of None \<Rightarrow> False | Some s \<Rightarrow> s \<in> set allowed)"

definition order_shape_admissible ::
  "order_shape option \<Rightarrow> venue_shape_constraints option \<Rightarrow> order_admissibility_result" where
  "order_shape_admissible shape constraints =
    (case (shape, constraints) of
       (Some s, Some c) \<Rightarrow>
         if os_silently_rounded s \<noteq> Some False then OA_INADMISSIBLE
         else (case (os_price s, vs_price_min c, vs_price_max c, os_quantity s, vs_lot_size c,
             vs_min_quantity c, vs_max_quantity c) of
             (Some price, Some pmin, Some pmax, Some quantity, Some lot, Some qmin, Some qmax) \<Rightarrow>
               (case resolved_tick price c of
                  None \<Rightarrow> OA_UNKNOWN
                | Some tick \<Rightarrow>
                    if tick = 0 \<or> lot = 0 then OA_UNKNOWN
                    else if vs_allowed_order_types c = [] \<or> vs_allowed_tifs c = [] \<or> vs_allowed_sides c = [] \<or>
                      vs_allowed_position_effects c = [] then OA_UNKNOWN
                    else if price < pmin \<or> price > pmax then OA_INADMISSIBLE
                    else if has_bands c \<and> price mod tick \<noteq> 0 then OA_INADMISSIBLE
                    else if \<not> has_bands c \<and> (price - pmin) mod tick \<noteq> 0 then OA_INADMISSIBLE
                    else if quantity < qmin \<or> quantity > qmax then OA_INADMISSIBLE
                    else if quantity mod lot \<noteq> 0 then OA_INADMISSIBLE
                    else if \<not> in_allowed (os_order_type s) (vs_allowed_order_types c) then OA_INADMISSIBLE
                    else if \<not> in_allowed (os_tif s) (vs_allowed_tifs c) then OA_INADMISSIBLE
                    else if \<not> in_allowed (os_side s) (vs_allowed_sides c) then OA_INADMISSIBLE
                    else if \<not> in_allowed (os_position_effect s) (vs_allowed_position_effects c)
                    then OA_INADMISSIBLE
                    else OA_ADMISSIBLE)
           | _ \<Rightarrow> OA_UNKNOWN)
     | _ \<Rightarrow> OA_UNKNOWN)"

definition decision_binding_exact :: "binding_chain option \<Rightarrow> bool" where
  "decision_binding_exact chain =
    (case chain of
       None \<Rightarrow> False
     | Some c \<Rightarrow>
         if bc_decision_id c = None \<or> bc_decision_digest c = None then False
         else if bc_stage_bindings c = [] then False
         else list_all (\<lambda>b. sb_bound_decision_id b = bc_decision_id c \<and>
           sb_bound_decision_digest b = bc_decision_digest c) (bc_stage_bindings c))"

definition no_decision_union :: "pystr set \<Rightarrow> bool" where
  "no_decision_union digests = (card digests = 1)"

definition tradability_conflict_unknown ::
  "source_observation list \<Rightarrow> policy_resolution option \<Rightarrow> order_admissibility_result" where
  "tradability_conflict_unknown observations resolution =
    (if observations = [] then OA_UNKNOWN
     else if card (set (map so_state observations)) > 1 then
       (case resolution of
          None \<Rightarrow> OA_UNKNOWN
        | Some r \<Rightarrow> (case pr_resolved_result r of None \<Rightarrow> OA_UNKNOWN | Some v \<Rightarrow> v))
     else
       (case resolution of
          None \<Rightarrow> OA_UNKNOWN
        | Some r \<Rightarrow> (case pr_resolved_result r of None \<Rightarrow> OA_UNKNOWN | Some v \<Rightarrow> v)))"

definition account_constraint_conservative ::
  "account_margin_facts option \<Rightarrow> account_margin_facts option \<Rightarrow> bool" where
  "account_constraint_conservative facts prior =
    (case facts of
       None \<Rightarrow> False
     | Some f \<Rightarrow>
         if am_inferred_from_stale_balance f = Some True then False
         else if am_inferred_from_prior_order f = Some True then False
         else if am_inferred_from_absence_of_error f = Some True then False
         else if am_fresh f \<noteq> Some True then False
         else am_corroborated f = Some True)"

definition venue_currentness_active :: "bool option \<Rightarrow> int option \<Rightarrow> int option \<Rightarrow> bool" where
  "venue_currentness_active established request current =
    (if established \<noteq> Some True then False
     else if request = None \<or> current = None then False
     else request = current)"

definition stale_decision_rejected_at_egress :: "bool option \<Rightarrow> int option \<Rightarrow> int option \<Rightarrow> bool" where
  "stale_decision_rejected_at_egress established request current =
    (\<not> venue_currentness_active established request current)"

definition exit_not_assumed_admissible :: "action_class \<Rightarrow> tradability_state \<Rightarrow> bool" where
  "exit_not_assumed_admissible action tradability =
    (if action \<notin> set exit_action_classes then False else tradability = TS_TRADABLE)"

definition protective_label_no_bypass ::
  "bool option \<Rightarrow> order_admissibility_result \<Rightarrow> bool option \<Rightarrow> bool option \<Rightarrow> bool" where
  "protective_label_no_bypass label exact authority covered =
    (if label \<noteq> Some True then False
     else if exact \<notin> {OA_ADMISSIBLE, OA_RESTRICTED_PROTECTIVE_ONLY} then False
     else if authority \<noteq> Some True then False
     else covered = Some True)"

definition common_mode_reduces_scope :: "pystr list \<Rightarrow> bool option \<Rightarrow> bool" where
  "common_mode_reduces_scope shared corroboration =
    (if shared \<noteq> [] then True else corroboration \<noteq> Some True)"

definition unknown_continuity_invalidates :: "source_continuity option \<Rightarrow> bool" where
  "unknown_continuity_invalidates continuity =
    (case continuity of
       None \<Rightarrow> True
     | Some c \<Rightarrow>
         if sc_continuity_id c = None then True
         else if sc_verifiable c \<noteq> Some True then True
         else sc_restarted c = Some True \<or> sc_reconnected c = Some True \<or> sc_sequence_reset c = Some True \<or>
           sc_rolled_back c = Some True \<or> sc_failed_over c = Some True)"

definition gate_authority_separated :: "venue_gate_authority option \<Rightarrow> bool option \<Rightarrow> bool" where
  "gate_authority_separated effect holds_live_credential =
    (case effect of
       None \<Rightarrow> False
     | Some e \<Rightarrow>
         if holds_live_credential \<noteq> Some False then False
         else \<not> (vg_approves e \<or> vg_mutates_capacity e \<or> vg_issues_authority e \<or>
           vg_classifies_protection e \<or> vg_transmits e \<or> vg_clears_halt e \<or> vg_rearms e))"

section \<open>The invalidation closure\<close>

definition adjacent :: "(pystr \<times> pystr list) list \<Rightarrow> pystr \<Rightarrow> pystr list" where
  "adjacent g n = (case map_of g n of None \<Rightarrow> [] | Some ds \<Rightarrow> ds)"

text \<open>
  The loop over the stack, whose top is the head of the list; the dependents of a node are pushed in
  their order, the unproven ones after the proven ones.
\<close>

definition pushed :: "(pystr \<times> pystr list) list \<Rightarrow> (pystr \<times> pystr list) list \<Rightarrow> pystr list \<Rightarrow> pystr \<Rightarrow> pystr list" where
  "pushed graph unproven closure node =
    rev (filter (\<lambda>d. d \<notin> set closure) (adjacent graph node) @
      filter (\<lambda>d. d \<notin> set closure) (adjacent unproven node))"

abbreviation graph_nodes :: "(pystr \<times> pystr list) list \<Rightarrow> pystr set" where
  "graph_nodes g \<equiv> \<Union> (set (map (set \<circ> snd) g))"

lemma adjacent_nodes: "set (adjacent g n) \<subseteq> graph_nodes g"
  by (cases "map_of g n") (force simp: adjacent_def dest: map_of_SomeD)+


abbreviation reach_nodes :: "(pystr \<times> pystr list) list \<Rightarrow> (pystr \<times> pystr list) list \<Rightarrow> pystr set" where
  "reach_nodes graph unproven \<equiv> graph_nodes graph \<union> graph_nodes unproven"

lemma set_pushed:
  "set (pushed graph unproven closure node) =
    (set (adjacent graph node) \<union> set (adjacent unproven node)) - set closure"
  by (auto simp: pushed_def)

lemma pushed_nodes: "set (pushed graph unproven closure node) \<subseteq> reach_nodes graph unproven"
  using adjacent_nodes[of graph node] adjacent_nodes[of unproven node] unfolding set_pushed by blast

lemma open_nodes_shrink:
  assumes "node \<notin> set closure"
  shows "card ((reach_nodes graph unproven \<union> set (pushed graph unproven (node # closure) node @ stack)) -
      set (node # closure)) <
    card ((reach_nodes graph unproven \<union> set (node # stack)) - set closure)"
proof (rule psubset_card_mono)
  show "finite ((reach_nodes graph unproven \<union> set (node # stack)) - set closure)" by simp
  show "(reach_nodes graph unproven \<union> set (pushed graph unproven (node # closure) node @ stack)) -
      set (node # closure) \<subset> (reach_nodes graph unproven \<union> set (node # stack)) - set closure"
    using assms pushed_nodes[of graph unproven "node # closure" node] by auto
qed

function reach_loop ::
  "(pystr \<times> pystr list) list \<Rightarrow> (pystr \<times> pystr list) list \<Rightarrow> pystr list \<Rightarrow> pystr list \<Rightarrow> pystr list" where
  "reach_loop graph unproven closure [] = closure"
| "reach_loop graph unproven closure (node # stack) =
    (if node \<in> set closure then reach_loop graph unproven closure stack
     else reach_loop graph unproven (node # closure) (pushed graph unproven (node # closure) node @ stack))"
  by pat_completeness auto

termination
proof (relation "measures
    [\<lambda>(g, u, closure, stack). card ((reach_nodes g u \<union> set stack) - set closure), \<lambda>(g, u, c, stack). length stack]")
  fix g u :: "(pystr \<times> pystr list) list" and closure :: "pystr list" and node stack
  show "((g, u, closure, stack), g, u, closure, node # stack) \<in> measures
      [\<lambda>(g, u, closure, stack). card ((reach_nodes g u \<union> set stack) - set closure), \<lambda>(g, u, c, stack). length stack]"
    if "node \<in> set closure"
  proof -
    have "(reach_nodes g u \<union> set (node # stack)) - set closure = (reach_nodes g u \<union> set stack) - set closure"
      using that by auto
    then show ?thesis by simp
  qed
  show "((g, u, node # closure, pushed g u (node # closure) node @ stack), g, u, closure, node # stack) \<in> measures
      [\<lambda>(g, u, closure, stack). card ((reach_nodes g u \<union> set stack) - set closure), \<lambda>(g, u, c, stack). length stack]"
    if "node \<notin> set closure"
    using open_nodes_shrink[OF that, of g u stack] by simp
qed simp

definition reachability_closure ::
  "(pystr \<times> pystr list) list \<Rightarrow> pystr \<Rightarrow> (pystr \<times> pystr list) list \<Rightarrow> pystr list" where
  "reachability_closure graph trigger unproven = reach_loop graph unproven [] [trigger]"

definition material_change_closure ::
  "(pystr \<times> pystr list) list \<Rightarrow> pystr list \<Rightarrow> (pystr \<times> pystr list) list \<Rightarrow> pystr set" where
  "material_change_closure graph triggers unproven =
    foldl (\<lambda>invalidated t. invalidated \<union> set (reachability_closure graph t unproven)) {} triggers"

text \<open>The specification: an edge of either graph, and what its closure reaches.\<close>

inductive reaches :: "(pystr \<times> pystr list) list \<Rightarrow> (pystr \<times> pystr list) list \<Rightarrow> pystr \<Rightarrow> pystr \<Rightarrow> bool"
  for graph unproven start where
  reach_start: "reaches graph unproven start start"
| reach_edge: "reaches graph unproven start n \<Longrightarrow>
    d \<in> set (adjacent graph n) \<union> set (adjacent unproven n) \<Longrightarrow> reaches graph unproven start d"

lemma reach_loop_sound:
  assumes "\<forall>n \<in> set closure \<union> set stack. reaches graph unproven start n"
  shows "\<forall>n \<in> set (reach_loop graph unproven closure stack). reaches graph unproven start n"
  using assms
proof (induction graph unproven closure stack rule: reach_loop.induct)
  case (2 graph unproven closure node stack)
  show ?case
  proof (cases "node \<in> set closure")
    case False
    have "\<forall>n \<in> set (pushed graph unproven (node # closure) node). reaches graph unproven start n"
    proof
      fix n assume "n \<in> set (pushed graph unproven (node # closure) node)"
      then have "n \<in> set (adjacent graph node) \<union> set (adjacent unproven node)" by (simp add: set_pushed)
      moreover have "reaches graph unproven start node" using "2.prems" by simp
      ultimately show "reaches graph unproven start n" by (rule reach_edge[rotated])
    qed
    then have "\<forall>n \<in> set (node # closure) \<union> set (pushed graph unproven (node # closure) node @ stack).
        reaches graph unproven start n"
      using "2.prems" by auto
    from "2.IH"(2)[OF False this] False show ?thesis by (simp only: reach_loop.simps if_False)
  next
    case True
    have "\<forall>n \<in> set closure \<union> set stack. reaches graph unproven start n" using "2.prems" by auto
    from "2.IH"(1)[OF True this] True show ?thesis by (simp only: reach_loop.simps if_True)
  qed
qed simp

text \<open>What is in the closure has all its dependents in the closure or still on the stack.\<close>

lemma reach_loop_closed:
  assumes "\<And>n. n \<in> set closure \<Longrightarrow>
    set (adjacent graph n) \<union> set (adjacent unproven n) \<subseteq> set closure \<union> set stack"
  shows "set closure \<union> set stack \<subseteq> set (reach_loop graph unproven closure stack) \<and>
    (\<forall>n \<in> set (reach_loop graph unproven closure stack).
      set (adjacent graph n) \<union> set (adjacent unproven n) \<subseteq> set (reach_loop graph unproven closure stack))"
  using assms
proof (induction graph unproven closure stack rule: reach_loop.induct)
  case (1 graph unproven closure)
  then show ?case by simp
next
  case (2 graph unproven closure node stack)
  show ?case
  proof (cases "node \<in> set closure")
    case True
    have "set closure \<union> set stack \<subseteq> set (reach_loop graph unproven closure stack) \<and>
        (\<forall>n \<in> set (reach_loop graph unproven closure stack).
          set (adjacent graph n) \<union> set (adjacent unproven n) \<subseteq> set (reach_loop graph unproven closure stack))"
      by (rule "2.IH"(1)[OF True]) (use "2.prems" True in fastforce)
    with True show ?thesis by auto
  next
    case False
    have "set (adjacent graph n) \<union> set (adjacent unproven n) \<subseteq>
        set (node # closure) \<union> set (pushed graph unproven (node # closure) node @ stack)"
      if "n \<in> set (node # closure)" for n
      using that "2.prems"[of n] set_pushed[of graph unproven "node # closure" node] by auto
    from "2.IH"(2)[OF False this] False show ?thesis by auto
  qed
qed

lemma reachability_closure_set:
  "set (reachability_closure graph trigger unproven) = {n. reaches graph unproven trigger n}"
proof (intro equalityI subsetI)
  fix n assume "n \<in> set (reachability_closure graph trigger unproven)"
  then show "n \<in> {n. reaches graph unproven trigger n}"
    using reach_loop_sound[of "[]" "[trigger]" graph unproven trigger]
    by (simp add: reachability_closure_def reach_start)
next
  fix n assume "n \<in> {n. reaches graph unproven trigger n}"
  then have "reaches graph unproven trigger n" by simp
  then show "n \<in> set (reachability_closure graph trigger unproven)"
  proof induction
    case reach_start
    then show ?case using reach_loop_closed[of "[]" graph unproven "[trigger]"] by (simp add: reachability_closure_def)
  next
    case (reach_edge n d)
    have "\<forall>n \<in> set (reach_loop graph unproven [] [trigger]). set (adjacent graph n) \<union> set (adjacent unproven n) \<subseteq>
        set (reach_loop graph unproven [] [trigger])"
      using reach_loop_closed[of "[]" graph unproven "[trigger]"] by simp
    with reach_edge show ?case unfolding reachability_closure_def by blast
  qed
qed

lemma closure_is_reachable:
  "material_change_closure graph triggers unproven =
    {n. \<exists>t. t \<in> set triggers \<and> reaches graph unproven t n}"
proof -
  have "foldl (\<lambda>inv t. inv \<union> set (reachability_closure graph t unproven)) acc ts =
      acc \<union> {n. \<exists>t. t \<in> set ts \<and> reaches graph unproven t n}" for acc ts
    by (induction ts arbitrary: acc) (auto simp: reachability_closure_set)
  then show ?thesis by (simp add: material_change_closure_def)
qed


text \<open>
  C40: the closure of a material change is exactly what the change can reach: a node is invalidated if
  and only if a chain of proven or unproven dependencies leads to it from one of the triggers; so no
  dependent escapes, nothing disconnected is blocked, and a cycle does not keep the loop running.
\<close>

theorem closure_is_exactly_the_reachable_nodes:
  "material_change_closure graph triggers unproven =
    {n. \<exists>t. t \<in> set triggers \<and> reaches graph unproven t n}"
  by (rule closure_is_reachable)

text \<open>
  A second edge entry of one node replaces the first: the dependents the first names are no longer
  invalidated.
\<close>

lemma second_edge_replaces_first:
  assumes "a \<noteq> n" "a \<noteq> b" "b \<noteq> n"
  shows "a \<notin> material_change_closure
    (as_graph \<lparr>cd_edges = [\<lparr>de_node = Some n, de_dependents = [a]\<rparr>, \<lparr>de_node = Some n, de_dependents = [b]\<rparr>],
       cd_unproven_edges = []\<rparr>) [n] []"
proof -
  let ?g = "[(n, [b])]"
  have "x \<in> {n, b}" if "reaches ?g [] n x" for x
    using that by induction (use assms in \<open>auto simp: adjacent_def split: if_splits\<close>)
  with assms have "\<not> reaches ?g [] n a" by blast
  then show ?thesis
    by (simp add: closure_is_reachable as_graph_def edge_map_def)
qed

section \<open>Shape, phase and doubtful facts\<close>

text \<open>An admissible shape is exactly on the grids and within the bounds of the constraints.\<close>

lemma shape_admissible_iff:
  "order_shape_admissible (Some s) (Some c) = OA_ADMISSIBLE \<longleftrightarrow>
    os_silently_rounded s = Some False \<and>
    (\<exists>price pmin pmax quantity lot qmin qmax tick.
      os_price s = Some price \<and> vs_price_min c = Some pmin \<and> vs_price_max c = Some pmax \<and>
      os_quantity s = Some quantity \<and> vs_lot_size c = Some lot \<and> vs_min_quantity c = Some qmin \<and>
      vs_max_quantity c = Some qmax \<and> resolved_tick price c = Some tick \<and> tick \<noteq> 0 \<and> lot \<noteq> 0 \<and>
      pmin \<le> price \<and> price \<le> pmax \<and> tick dvd (if has_bands c then price else price - pmin) \<and>
      qmin \<le> quantity \<and> quantity \<le> qmax \<and> lot dvd quantity) \<and>
    in_allowed (os_order_type s) (vs_allowed_order_types c) \<and> in_allowed (os_tif s) (vs_allowed_tifs c) \<and>
    in_allowed (os_side s) (vs_allowed_sides c) \<and>
    in_allowed (os_position_effect s) (vs_allowed_position_effects c)"
  (is "?lhs \<longleftrightarrow> ?rhs")
proof
  assume lhs: ?lhs
  have unrounded: "os_silently_rounded s = Some False"
    by (rule ccontr) (use lhs in \<open>simp add: order_shape_admissible_def\<close>)
  obtain price pmin pmax quantity lot qmin qmax where f:
    "os_price s = Some price" "vs_price_min c = Some pmin" "vs_price_max c = Some pmax"
    "os_quantity s = Some quantity" "vs_lot_size c = Some lot" "vs_min_quantity c = Some qmin"
    "vs_max_quantity c = Some qmax"
    using lhs unrounded unfolding order_shape_admissible_def by (simp split: option.splits)
  obtain tick where t: "resolved_tick price c = Some tick"
    using lhs unrounded f by (cases "resolved_tick price c") (simp_all add: order_shape_admissible_def)
  have *: "tick \<noteq> 0 \<and> lot \<noteq> 0 \<and> pmin \<le> price \<and> price \<le> pmax \<and>
      tick dvd (if has_bands c then price else price - pmin) \<and> qmin \<le> quantity \<and> quantity \<le> qmax \<and>
      lot dvd quantity \<and> in_allowed (os_order_type s) (vs_allowed_order_types c) \<and>
      in_allowed (os_tif s) (vs_allowed_tifs c) \<and> in_allowed (os_side s) (vs_allowed_sides c) \<and>
      in_allowed (os_position_effect s) (vs_allowed_position_effects c)"
    using lhs unrounded f t
    by (simp add: order_shape_admissible_def dvd_eq_mod_eq_0 not_less split: if_splits) auto
  show ?rhs
    by (intro conjI, rule unrounded, rule exI[of _ price], rule exI[of _ pmin], rule exI[of _ pmax],
        rule exI[of _ quantity], rule exI[of _ lot], rule exI[of _ qmin], rule exI[of _ qmax],
        rule exI[of _ tick]) (use f t * in simp_all)
next
  assume rhs: ?rhs
  have "vs_allowed_order_types c \<noteq> []" "vs_allowed_tifs c \<noteq> []" "vs_allowed_sides c \<noteq> []"
    "vs_allowed_position_effects c \<noteq> []"
    using rhs by (auto simp: in_allowed_def split: option.splits)
  moreover obtain price pmin pmax quantity lot qmin qmax tick where
    "os_price s = Some price" "vs_price_min c = Some pmin" "vs_price_max c = Some pmax"
    "os_quantity s = Some quantity" "vs_lot_size c = Some lot" "vs_min_quantity c = Some qmin"
    "vs_max_quantity c = Some qmax" "resolved_tick price c = Some tick" "tick \<noteq> 0" "lot \<noteq> 0"
    "pmin \<le> price" "price \<le> pmax" "tick dvd (if has_bands c then price else price - pmin)"
    "qmin \<le> quantity" "quantity \<le> qmax" "lot dvd quantity"
    using rhs by blast
  ultimately show ?lhs
    using rhs by (cases "has_bands c") (simp_all add: order_shape_admissible_def)
qed

lemma phase_admits_iff:
  "session_phase_admits observed action snapshot policy = OA_ADMISSIBLE \<longleftrightarrow>
    (\<exists>s p phase phases. snapshot = Some s \<and> policy = Some p \<and> observed = Some phase \<and>
      admitting_phases_for p action = Some phases \<and> phase \<in> set phases)"
  by (auto simp: session_phase_admits_def split: option.splits)

lemma present_equal_iff:
  "list_all2 (\<lambda>b v. b \<noteq> None \<and> v \<noteq> None \<and> b = v) bs vs \<longleftrightarrow> vs = bs \<and> None \<notin> set vs"
proof (induction bs vs rule: list_induct2')
  case (4 b bs v vs)
  then show ?case by (cases b) auto
qed auto

lemma route_bound_iff:
  "exact_instrument_route_bound (Some d) (Some c) \<longleftrightarrow>
    route_scalars c = route_scalars (ad_bound_instrument_route (ar_content d)) \<and>
    None \<notin> set (route_scalars c) \<and>
    ir_routing_relevant_aliases c = ir_routing_relevant_aliases (ad_bound_instrument_route (ar_content d))"
  unfolding exact_instrument_route_bound_def Let_def prod.case option.case present_equal_iff by auto

lemma doubtful_tradability_denies:
  "tradability_conflict_unknown observations resolution = OA_ADMISSIBLE \<longleftrightarrow>
    observations \<noteq> [] \<and> (\<exists>r. resolution = Some r \<and> pr_resolved_result r = Some OA_ADMISSIBLE)"
  by (auto simp: tradability_conflict_unknown_def split: option.splits)

lemma protective_label_iff:
  "protective_label_no_bypass label exact authority covered \<longleftrightarrow>
    label = Some True \<and> exact \<in> {OA_ADMISSIBLE, OA_RESTRICTED_PROTECTIVE_ONLY} \<and> authority = Some True \<and>
    covered = Some True"
  by (simp add: protective_label_no_bypass_def)

lemma separated_authority_ok:
  "gate_authority_separated (Some e) (Some False) \<longleftrightarrow> venue_gate_authority_ok e"
  by (auto simp: gate_authority_separated_def venue_gate_authority_ok_def)

end
