(* ===== verification/Engine_Adapters.thy ===== *)
theory Engine_Adapters
  imports Order_Conformance Currentness Venue_Admissibility Rcl_Guards
begin

text \<open>
  The verdict adapters \<^verbatim>\<open>tos/engine/adapters.py\<close>: from the result an owning package computed to the
  stage verdict the sequencer judges.  Of the two decisions and the permit whose packages are not
  modelled only the id and the digest are read, so their content is a type parameter.  A reason is the
  leading clause of the source's message.  The lemmas say that an adapter admits on one result only,
  and that what is absent is unknown, neither denied nor passed.
\<close>

datatype risk_decision_result = RISK_GRANT | RISK_DENY | RISK_UNKNOWN
datatype action_flow_result = FLOW_GRANT | FLOW_DENY | FLOW_UNKNOWN

fun admissibility_result_str :: "order_admissibility_result \<Rightarrow> pystr" where
  "admissibility_result_str OA_ADMISSIBLE = ''ADMISSIBLE''"
| "admissibility_result_str OA_RESTRICTED_PROTECTIVE_ONLY = ''RESTRICTED_PROTECTIVE_ONLY''"
| "admissibility_result_str OA_INADMISSIBLE = ''INADMISSIBLE''"
| "admissibility_result_str OA_UNKNOWN = ''UNKNOWN''"

fun risk_result_str :: "risk_decision_result \<Rightarrow> pystr" where
  "risk_result_str RISK_GRANT = ''GRANT''"
| "risk_result_str RISK_DENY = ''DENY''"
| "risk_result_str RISK_UNKNOWN = ''UNKNOWN''"

fun flow_result_str :: "action_flow_result \<Rightarrow> pystr" where
  "flow_result_str FLOW_GRANT = ''GRANT''"
| "flow_result_str FLOW_DENY = ''DENY''"
| "flow_result_str FLOW_UNKNOWN = ''UNKNOWN''"

fun proof_result_str :: "proof_result \<Rightarrow> pystr" where
  "proof_result_str CURRENT = ''CURRENT''"
| "proof_result_str RESTRICTED = ''RESTRICTED''"
| "proof_result_str RESULT_UNKNOWN = ''UNKNOWN''"

definition adapter_verdict ::
  "commitment_step \<Rightarrow> stage_outcome \<Rightarrow> stage_authority_class \<Rightarrow> pystr option \<Rightarrow> pystr option \<Rightarrow>
    pystr option \<Rightarrow> pystr option \<Rightarrow> pystr option \<Rightarrow> stage_verdict" where
  "adapter_verdict step outcome authority native native_value digest identity reason =
    \<lparr>sv_step = step, sv_outcome = outcome, sv_authority_class = authority, sv_native_verdict_type = native,
     sv_native_verdict_value = native_value, sv_bound_digest = digest, sv_bound_identity = identity,
     sv_reason = reason\<rparr>"

abbreviation digest_of :: "'c artifact option \<Rightarrow> pystr option" where
  "digest_of a \<equiv> (case a of None \<Rightarrow> None | Some d \<Rightarrow> ar_canonical_digest d)"

abbreviation identity_of :: "'c artifact option \<Rightarrow> pystr option" where
  "identity_of a \<equiv> (case a of None \<Rightarrow> None | Some d \<Rightarrow> ar_id d)"

abbreviation type_name_of :: "pystr \<Rightarrow> 'a option \<Rightarrow> pystr option" where
  "type_name_of name a \<equiv> (case a of None \<Rightarrow> None | Some _ \<Rightarrow> Some name)"

definition venue_admissibility_verdict ::
  "order_admissibility_result option \<Rightarrow> order_admissibility_decision option \<Rightarrow> stage_verdict" where
  "venue_admissibility_verdict result decision =
    (let verdict = adapter_verdict VENUE_ADMISSIBILITY_DECISION
     in case result of
       None \<Rightarrow>
         verdict OUTCOME_UNKNOWN AVAILABLE_PURE_PREDICATE (type_name_of ''OrderAdmissibilityDecision'' decision)
           None (digest_of decision) (identity_of decision) (Some ''no venue admissibility result was produced'')
     | Some r \<Rightarrow>
         (let (outcome, reason) =
            (case r of
               OA_ADMISSIBLE \<Rightarrow> (ADMIT, None)
             | OA_UNKNOWN \<Rightarrow> (OUTCOME_UNKNOWN, Some ''venue admissibility is UNKNOWN'')
             | OA_RESTRICTED_PROTECTIVE_ONLY \<Rightarrow>
                 (DENY, Some ''venue admissibility is RESTRICTED_PROTECTIVE_ONLY'')
             | OA_INADMISSIBLE \<Rightarrow> (DENY, Some ''venue admissibility is INADMISSIBLE''))
          in verdict outcome AVAILABLE_PURE_PREDICATE (Some ''OrderAdmissibilityResult'')
            (Some (admissibility_result_str r)) (digest_of decision) (identity_of decision) reason))"

definition conformance_proof_verdict ::
  "conformance_result option \<Rightarrow> order_conformance_proof option \<Rightarrow> stage_verdict" where
  "conformance_proof_verdict result pf =
    (let verdict = adapter_verdict ORDER_CONFORMANCE_PROOF
     in case result of
       None \<Rightarrow>
         verdict OUTCOME_UNKNOWN AVAILABLE_PURE_PREDICATE (type_name_of ''OrderConformanceProof'' pf) None
           (digest_of pf) (identity_of pf) (Some ''no conformance result was produced'')
     | Some r \<Rightarrow>
         (let (outcome, reason) =
            (case r of
               CONFORMANT \<Rightarrow> (ADMIT, None)
             | CONFORMANCE_UNKNOWN \<Rightarrow> (OUTCOME_UNKNOWN, Some ''order conformance is UNKNOWN'')
             | NON_CONFORMANT \<Rightarrow> (DENY, Some ''order conformance is NON_CONFORMANT''))
          in verdict outcome AVAILABLE_PURE_PREDICATE (Some ''ConformanceResult'')
            (Some (conformance_result_str r)) (digest_of pf) (identity_of pf) reason))"

definition aggregate_risk_decision_verdict ::
  "risk_decision_result option \<Rightarrow> 'c artifact option \<Rightarrow> stage_verdict" where
  "aggregate_risk_decision_verdict result decision =
    (let verdict = adapter_verdict AGGREGATE_RISK_DECISION
     in case result of
       None \<Rightarrow>
         verdict OUTCOME_UNKNOWN NON_AUTHORITATIVE_PROVISIONAL (type_name_of ''AggregateRiskDecision'' decision)
           None (digest_of decision) (identity_of decision) (Some ''no aggregate-risk result was produced'')
     | Some r \<Rightarrow>
         (let (outcome, reason) =
            (case r of
               RISK_GRANT \<Rightarrow> (ADMIT, None)
             | RISK_UNKNOWN \<Rightarrow> (OUTCOME_UNKNOWN, Some ''aggregate risk is UNKNOWN'')
             | RISK_DENY \<Rightarrow> (DENY, Some ''aggregate risk decision is DENY''))
          in verdict outcome NON_AUTHORITATIVE_PROVISIONAL (Some ''RiskDecisionResult'')
            (Some (risk_result_str r)) (digest_of decision) (identity_of decision) reason))"

definition action_flow_decision_verdict ::
  "action_flow_result option \<Rightarrow> 'c artifact option \<Rightarrow> stage_verdict" where
  "action_flow_decision_verdict result decision =
    (let verdict = adapter_verdict ACTION_FLOW_DECISION
     in case result of
       None \<Rightarrow>
         verdict OUTCOME_UNKNOWN NON_AUTHORITATIVE_PROVISIONAL (type_name_of ''ActionFlowDecision'' decision)
           None (digest_of decision) (identity_of decision) (Some ''no action-flow result was produced'')
     | Some r \<Rightarrow>
         (let (outcome, reason) =
            (case r of
               FLOW_GRANT \<Rightarrow> (ADMIT, None)
             | FLOW_UNKNOWN \<Rightarrow> (OUTCOME_UNKNOWN, Some ''action flow is UNKNOWN'')
             | FLOW_DENY \<Rightarrow> (DENY, Some ''action flow decision is DENY''))
          in verdict outcome NON_AUTHORITATIVE_PROVISIONAL (Some ''ActionFlowResult'')
            (Some (flow_result_str r)) (digest_of decision) (identity_of decision) reason))"

definition action_flow_permit_verdict :: "'c artifact option \<Rightarrow> stage_verdict" where
  "action_flow_permit_verdict permit =
    (case identity_of permit of
       None \<Rightarrow>
         adapter_verdict ATOMIC_COMMIT OUTCOME_UNKNOWN NON_AUTHORITATIVE_PROVISIONAL
           (type_name_of ''ActionFlowPermit'' permit) None None None
           (Some ''no Action Flow Permit identity was committed'')
     | Some i \<Rightarrow>
         adapter_verdict ATOMIC_COMMIT ADMIT NON_AUTHORITATIVE_PROVISIONAL (Some ''ActionFlowPermit'') None
           (digest_of permit) (Some i) None)"

definition economic_effect_envelope_verdict :: "capacity_vector option \<Rightarrow> stage_verdict" where
  "economic_effect_envelope_verdict envelope =
    (let verdict = adapter_verdict ECONOMIC_EFFECT_ENVELOPE
     in case envelope of
       None \<Rightarrow>
         verdict OUTCOME_UNKNOWN AVAILABLE_PURE_PREDICATE None None None None
           (Some ''no Economic Effect Envelope was derived'')
     | Some e \<Rightarrow>
         if components e = [] then
           verdict OUTCOME_UNKNOWN AVAILABLE_PURE_PREDICATE (Some ''CapacityVector'') None None None
             (Some ''the Economic Effect Envelope declares no dimension'')
         else if list_ex (\<lambda>c. cc_magnitude c = None) (components e) then
           verdict OUTCOME_UNKNOWN AVAILABLE_PURE_PREDICATE (Some ''CapacityVector'') None None None
             (Some ''Economic Effect Envelope dimensions are UNKNOWN'')
         else
           verdict ADMIT AVAILABLE_PURE_PREDICATE (Some ''CapacityVector'') None None None None)"

text \<open>The second argument is the digest of the capability.\<close>

definition transmission_capability_verdict ::
  "transmission_capability option \<Rightarrow> pystr option \<Rightarrow> stage_verdict" where
  "transmission_capability_verdict capability capability_digest =
    (case Option.bind capability tc_capability_id of
       None \<Rightarrow>
         adapter_verdict TRANSMISSION_CAPABILITY OUTCOME_UNKNOWN NON_AUTHORITATIVE_PROVISIONAL
           (type_name_of ''TransmissionCapability'' capability) None None None
           (Some ''no single-use Transmission Capability identity was issued'')
     | Some i \<Rightarrow>
         adapter_verdict TRANSMISSION_CAPABILITY ADMIT NON_AUTHORITATIVE_PROVISIONAL
           (Some ''TransmissionCapability'') None capability_digest (Some i) None)"

definition egress_currentness_verdict ::
  "proof_result option \<Rightarrow> egress_currentness_proof option \<Rightarrow> stage_verdict" where
  "egress_currentness_verdict result pf =
    (let verdict = adapter_verdict SEND_BOUNDARY_VERIFICATION
     in case result of
       None \<Rightarrow>
         verdict OUTCOME_UNKNOWN DEFERRED_SEND_BOUNDARY (type_name_of ''EgressCurrentnessProof'' pf) None
           (digest_of pf) (identity_of pf) (Some ''no egress currentness result was produced'')
     | Some r \<Rightarrow>
         (let (outcome, reason) =
            (case r of
               CURRENT \<Rightarrow> (ADMIT, None)
             | RESULT_UNKNOWN \<Rightarrow> (OUTCOME_UNKNOWN, Some ''egress currentness is UNKNOWN'')
             | RESTRICTED \<Rightarrow> (DENY, Some ''egress currentness is RESTRICTED''))
          in verdict outcome DEFERRED_SEND_BOUNDARY (Some ''ProofResult'') (Some (proof_result_str r))
            (digest_of pf) (identity_of pf) reason))"

section \<open>Admission\<close>

lemma adapter_verdict_sel [simp]:
  "sv_outcome (adapter_verdict st ou au na nv di idn re) = ou"
  "sv_step (adapter_verdict st ou au na nv di idn re) = st"
  "sv_bound_digest (adapter_verdict st ou au na nv di idn re) = di"
  "sv_bound_identity (adapter_verdict st ou au na nv di idn re) = idn"
  "sv_native_verdict_value (adapter_verdict st ou au na nv di idn re) = nv"
  by (simp_all add: adapter_verdict_def)

text \<open>Each adapter admits on one positive result only.\<close>

lemma adapters_admit_iff:
  "sv_outcome (venue_admissibility_verdict vr vd) = ADMIT \<longleftrightarrow> vr = Some OA_ADMISSIBLE"
  "sv_outcome (conformance_proof_verdict cr cp) = ADMIT \<longleftrightarrow> cr = Some CONFORMANT"
  "sv_outcome (aggregate_risk_decision_verdict rr rd) = ADMIT \<longleftrightarrow> rr = Some RISK_GRANT"
  "sv_outcome (action_flow_decision_verdict fr fd) = ADMIT \<longleftrightarrow> fr = Some FLOW_GRANT"
  "sv_outcome (action_flow_permit_verdict p) = ADMIT \<longleftrightarrow> identity_of p \<noteq> None"
  "sv_outcome (transmission_capability_verdict c cd) = ADMIT \<longleftrightarrow> Option.bind c tc_capability_id \<noteq> None"
  "sv_outcome (egress_currentness_verdict er ep) = ADMIT \<longleftrightarrow> er = Some CURRENT"
  by (auto simp: venue_admissibility_verdict_def conformance_proof_verdict_def Let_def
      aggregate_risk_decision_verdict_def action_flow_decision_verdict_def action_flow_permit_verdict_def
      transmission_capability_verdict_def egress_currentness_verdict_def
      split: option.splits order_admissibility_result.splits conformance_result.splits
        risk_decision_result.splits action_flow_result.splits proof_result.splits)

lemma envelope_admits_iff:
  "sv_outcome (economic_effect_envelope_verdict envelope) = ADMIT \<longleftrightarrow>
    (\<exists>e. envelope = Some e \<and> components e \<noteq> [] \<and> (\<forall>c \<in> set (components e). cc_magnitude c \<noteq> None))"
  by (auto simp: economic_effect_envelope_verdict_def Let_def list_ex_iff split: option.splits)

lemma absent_results_are_unknown:
  "sv_outcome (venue_admissibility_verdict None vd) = OUTCOME_UNKNOWN"
  "sv_outcome (conformance_proof_verdict None cp) = OUTCOME_UNKNOWN"
  "sv_outcome (aggregate_risk_decision_verdict None rd) = OUTCOME_UNKNOWN"
  "sv_outcome (action_flow_decision_verdict None fd) = OUTCOME_UNKNOWN"
  "sv_outcome (action_flow_permit_verdict None) = OUTCOME_UNKNOWN"
  "sv_outcome (economic_effect_envelope_verdict None) = OUTCOME_UNKNOWN"
  "sv_outcome (transmission_capability_verdict None cd) = OUTCOME_UNKNOWN"
  "sv_outcome (egress_currentness_verdict None ep) = OUTCOME_UNKNOWN"
  by (simp_all add: venue_admissibility_verdict_def conformance_proof_verdict_def Let_def
      aggregate_risk_decision_verdict_def action_flow_decision_verdict_def action_flow_permit_verdict_def
      economic_effect_envelope_verdict_def transmission_capability_verdict_def egress_currentness_verdict_def)

end
