(* ===== verification/Broker_Capability.thy ===== *)
theory Broker_Capability
  imports Strategy_Outcome
begin

text \<open>
  What the broker is known to support: the vocabulary, the profile and its companion records
  (\<^verbatim>\<open>tos/brokercap/vocabulary.py\<close>, \<^verbatim>\<open>records.py\<close>), the predicates on them
  (\<^verbatim>\<open>predicates.py\<close>) and the closed routing whitelist over capability tuples
  (\<^verbatim>\<open>routing.py\<close>).  A frozenset is a list that is only searched or iterated.  The lemmas say
  exactly when a profile authorises an action, that observed drift can only take authority away, and
  that no rule of the whitelist admits an order on a production account.
\<close>

section \<open>Vocabulary\<close>

datatype broker_environment = SYNTHETIC | BROKER_SIMULATION | BROKER_PRODUCTION

datatype capability_status =
  VERIFIED | VERIFIED_WITH_RESTRICTION | DOCUMENTED_NOT_VERIFIED | UNSUPPORTED | CONTRADICTORY
| STATUS_UNKNOWN | STATUS_EXPIRED

datatype capability_dimension =
  ORDER_IDENTITY | SUBMISSION_IDEMPOTENCY | ACKNOWLEDGEMENT_SEMANTICS | FILL_EVENTS | OPEN_ORDER_QUERY
| ORDER_HISTORY_QUERY | CANCELLATION | REPLACE_OR_AMEND | REDUCE_ONLY_ORDERS | POSITIONS_BALANCES_MARGIN
| ACCOUNT_EVENT_PUSH | CORPORATE_ADMINISTRATIVE_EVENTS | RATE_LIMITS | SESSION_CONNECTION_MODEL
| CREDENTIALS_AUTHORIZATION | BROKER_TIME | MARKET_INSTRUMENT_CONSTRAINTS

definition capability_dimensions :: "capability_dimension list" where
  "capability_dimensions =
    [ORDER_IDENTITY, SUBMISSION_IDEMPOTENCY, ACKNOWLEDGEMENT_SEMANTICS, FILL_EVENTS, OPEN_ORDER_QUERY,
     ORDER_HISTORY_QUERY, CANCELLATION, REPLACE_OR_AMEND, REDUCE_ONLY_ORDERS, POSITIONS_BALANCES_MARGIN,
     ACCOUNT_EVENT_PUSH, CORPORATE_ADMINISTRATIVE_EVENTS, RATE_LIMITS, SESSION_CONNECTION_MODEL,
     CREDENTIALS_AUTHORIZATION, BROKER_TIME, MARKET_INSTRUMENT_CONSTRAINTS]"

lemma capability_dimensions_all [simp]: "d \<in> set capability_dimensions"
  by (cases d) (simp_all add: capability_dimensions_def)

datatype assurance_level =
  LEVEL_0_UNKNOWN | LEVEL_1_DOCUMENTED | LEVEL_2_CONTROLLED_TEST_VERIFIED
| LEVEL_3_RESTRICTED_PRODUCTION | LEVEL_4_CONTINUOUSLY_MONITORED

fun assurance_level_rank :: "assurance_level \<Rightarrow> nat" where
  "assurance_level_rank LEVEL_0_UNKNOWN = 0"
| "assurance_level_rank LEVEL_1_DOCUMENTED = 1"
| "assurance_level_rank LEVEL_2_CONTROLLED_TEST_VERIFIED = 2"
| "assurance_level_rank LEVEL_3_RESTRICTED_PRODUCTION = 3"
| "assurance_level_rank LEVEL_4_CONTINUOUSLY_MONITORED = 4"

lemma assurance_level_rank_inj: "assurance_level_rank a = assurance_level_rank b \<Longrightarrow> a = b"
  by (cases a; cases b) simp_all

instantiation assurance_level :: linorder
begin

definition less_eq_assurance_level :: "assurance_level \<Rightarrow> assurance_level \<Rightarrow> bool" where
  "less_eq_assurance_level a b = (assurance_level_rank a \<le> assurance_level_rank b)"

definition less_assurance_level :: "assurance_level \<Rightarrow> assurance_level \<Rightarrow> bool" where
  "less_assurance_level a b = (assurance_level_rank a < assurance_level_rank b)"

instance
  by standard
    (auto simp: less_eq_assurance_level_def less_assurance_level_def dest: assurance_level_rank_inj)

end

datatype conformance_class =
  CLASS_A_DETERMINISTIC_LIVE | CLASS_B_RESTRICTED_SERIALIZED_LIVE | CLASS_C_PROTECTIVE_SUPERVISED_ONLY
| CLASS_D_NON_LIVE

definition non_live_or_supervised_classes :: "conformance_class list" where
  "non_live_or_supervised_classes = [CLASS_C_PROTECTIVE_SUPERVISED_ONLY, CLASS_D_NON_LIVE]"

datatype assurance_source =
  OFFICIAL_SPECIFICATION | BROKER_CONTRACTUAL_STATEMENT | CONTROLLED_SANDBOX_TEST
| CONTROLLED_PRODUCTION_PROBE | FAULT_INJECTION_RESULT | OBSERVED_LIVE_EVIDENCE
| BROKER_SUPPORT_CONFIRMATION | INDEPENDENT_OPERATIONAL_REVIEW

datatype admissibility = ADMISSIBLE | REDUCED | PROHIBITED

datatype prohibited_proof =
  CANCEL_ACKNOWLEDGEMENT | ONE_OPEN_ORDER_QUERY_OMISSION | LOCAL_TIMEOUT | STRATEGY_CANCELLATION_INTENT
| PROCESS_RESTART | ACCOUNT_POSITION_MATCHING_EXPECTED_VALUE | OPERATOR_ASSERTION_WITHOUT_BROKER_EVIDENCE

definition authorizing_statuses :: "capability_status list" where
  "authorizing_statuses = [VERIFIED, VERIFIED_WITH_RESTRICTION]"

section \<open>Records\<close>

record profile_key =
  pk_broker_id :: "pystr option"
  pk_api_product :: "pystr option"
  pk_api_version :: "pystr option"
  pk_environment :: "pystr option"
  pk_account_type :: "pystr option"
  pk_market :: "pystr option"
  pk_instrument_class :: "pystr option"
  pk_order_type :: "pystr option"
  pk_session_type :: "pystr option"
  pk_credential_scope :: "pystr option"

record profile_version =
  pfv_profile_version :: "pystr option"
  pfv_effective_date :: "pystr option"
  pfv_evidence_package_version :: "pystr option"
  pfv_approver_identity :: "pystr option"
  pfv_expiration_or_revalidation_date :: "pystr option"
  pfv_superseded_version_link :: "pystr option"
  pfv_change_reason :: "pystr option"

record capability_declaration =
  cd_dimension :: "capability_dimension option"
  cd_status :: "capability_status option"
  cd_assurance_level :: "assurance_level option"
  cd_evidence_reference :: "pystr option"
  cd_restriction :: "pystr option"
  cd_restriction_approved :: "bool option"
  cd_fallback_reference :: "pystr option"
  cd_assurance_sources :: "assurance_source list"

record live_scope =
  ls_account_scope :: "pystr option"
  ls_instrument_scope :: "pystr option"
  ls_order_type_scope :: "pystr option"
  ls_quantity_risk_limit :: "pydec option"
  ls_session_scope :: "pystr option"
  ls_action_classes :: "pystr list"
  ls_mode :: "pystr option"
  ls_reduced_off_unattended_partition_protection :: "bool option"

record final_quantity_proof_rule =
  fq_order_type :: "pystr option"
  fq_prohibited_proofs :: "prohibited_proof list"
  fq_no_later_change_asserted :: "bool option"
  fq_late_event_window_defined :: "bool option"

record required_capability_set =
  rq_required_dimensions :: "capability_dimension list"
  rq_required_level :: "assurance_level option"
  rq_minimum_live_gate_satisfied :: "bool option"
  rq_approved_fallback_dimensions :: "capability_dimension list"

record fallback_spec =
  fs_widens_capability :: "bool option"
  fs_conservative :: "bool option"
  fs_tied_to_authority_and_risk_scope :: "bool option"

record observed_behavior =
  ob_dimension :: "capability_dimension option"
  ob_duplicate_order_despite_idempotency :: bool
  ob_event_before_declared_impossible :: bool
  ob_missing_sequence :: bool
  ob_late_fill_beyond_window :: bool
  ob_query_omission_beyond_bound :: bool
  ob_unexpected_rate_limit :: bool
  ob_session_behavior_change :: bool
  ob_unknown_status_code :: bool
  ob_unit_multiplier_mismatch :: bool

record broker_evidence_ref =
  be_evidence_id :: "pystr option"
  be_generation :: "int option"
  be_digest :: "pystr option"
  be_environment :: "pystr option"

record final_quantity_evidence =
  fe_broker_order_identity_or_bounded_effect :: "bool option"
  fe_final_cumulative_filled_quantity :: "bool option"
  fe_zero_remaining_executable_quantity :: "bool option"
  fe_corrections_busts_late_events_handled :: "bool option"
  fe_evidence_source_provenance :: "bool option"
  fe_within_valid_window :: "bool option"
  fe_ordering_waiting_rule_satisfied :: "bool option"
  fe_sole_prohibited_basis :: "prohibited_proof option"

record uncertain_send_verdict =
  us_no_retry :: bool
  us_no_capacity_release :: bool
  us_no_assume_rejection :: bool
  us_no_new_conflicting_in_containment :: bool
  us_start_reconciliation :: bool
  us_enter_unknown_or_contained :: bool

text \<open>The fields of a profile that are its own; identity and digest are the artifact's.\<close>

record capability_profile_content =
  bp_profile_key :: "profile_key option"
  bp_profile_version :: "profile_version option"
  bp_declarations :: "capability_declaration list"
  bp_conformance_class :: "conformance_class option"
  bp_live_scope :: "live_scope option"
  bp_final_quantity_proof_rules :: "final_quantity_proof_rule list"
  bp_evidence_package_ref :: "pystr option"
  bp_environment_class :: "broker_environment option"

type_synonym broker_capability_profile = "capability_profile_content artifact"

text \<open>The validator \<^verbatim>\<open>_simulation_is_non_live\<close>.\<close>

definition simulation_is_non_live :: "capability_profile_content \<Rightarrow> bool" where
  "simulation_is_non_live c =
    (if bp_environment_class c \<noteq> Some BROKER_SIMULATION then True
     else case bp_live_scope c of
       None \<Rightarrow> False
     | Some scope \<Rightarrow> \<not> (ls_mode scope \<noteq> Some ''NON_LIVE'' \<or> ls_action_classes scope \<noteq> []))"

definition declaration_for ::
  "broker_capability_profile \<Rightarrow> capability_dimension \<Rightarrow> capability_declaration option" where
  "declaration_for p d = find (\<lambda>decl. cd_dimension decl = Some d) (bp_declarations (ar_content p))"

section \<open>Admissibility\<close>

definition declaration_authorizes ::
  "capability_declaration option \<Rightarrow> assurance_level option \<Rightarrow> bool" where
  "declaration_authorizes declaration required_level =
    (case declaration of
       None \<Rightarrow> False
     | Some decl \<Rightarrow>
         if cd_status decl \<notin> Some ` set authorizing_statuses then False
         else if cd_status decl = Some VERIFIED_WITH_RESTRICTION \<and> cd_restriction_approved decl \<noteq> Some True
         then False
         else case (required_level, cd_assurance_level decl) of
           (Some req, Some lvl) \<Rightarrow> assurance_level_rank req \<le> assurance_level_rank lvl
         | _ \<Rightarrow> False)"

definition deficient_dimensions ::
  "broker_capability_profile \<Rightarrow> capability_dimension list \<Rightarrow> assurance_level \<Rightarrow> capability_dimension list" where
  "deficient_dimensions p ds lvl =
    filter (\<lambda>d. \<not> declaration_authorizes (declaration_for p d) (Some lvl)) ds"

definition required_dimensions_and_level ::
  "required_capability_set \<Rightarrow> capability_dimension list \<times> assurance_level option" where
  "required_dimensions_and_level r =
    (if rq_required_dimensions r \<noteq> [] then (rq_required_dimensions r, rq_required_level r)
     else (capability_dimensions, Some LEVEL_4_CONTINUOUSLY_MONITORED))"

definition capability_admissible ::
  "broker_capability_profile option \<Rightarrow> pystr option \<Rightarrow> required_capability_set option \<Rightarrow> bool option \<Rightarrow>
    admissibility" where
  "capability_admissible profile action_class required version_current =
    (case (profile, required) of
       (Some p, Some r) \<Rightarrow>
         (case required_dimensions_and_level r of
            (_, None) \<Rightarrow> PROHIBITED
          | (ds, Some lvl) \<Rightarrow>
              if rq_minimum_live_gate_satisfied r \<noteq> Some True then PROHIBITED
              else if version_current \<noteq> Some True then PROHIBITED
              else
                (let deficient = deficient_dimensions p ds lvl
                 in if deficient = [] then ADMISSIBLE
                    else if set deficient \<subseteq> set (rq_approved_fallback_dimensions r) then REDUCED
                    else PROHIBITED))
     | _ \<Rightarrow> PROHIBITED)"

definition broker_capability_sufficient ::
  "broker_capability_profile option \<Rightarrow> required_capability_set option \<Rightarrow> bool option \<Rightarrow> bool" where
  "broker_capability_sufficient profile scope version_current =
    (capability_admissible profile None scope version_current = ADMISSIBLE)"

definition broker_capability_added ::
  "broker_capability_profile option \<Rightarrow> required_capability_set option \<Rightarrow> bool option \<Rightarrow> bool option \<Rightarrow> bool" where
  "broker_capability_added profile delta version_current envelope_not_expanded =
    (if envelope_not_expanded \<noteq> Some True then False
     else capability_admissible profile None delta version_current = ADMISSIBLE)"

definition active_profile_version :: "broker_capability_profile option \<Rightarrow> pystr option" where
  "active_profile_version profile =
    (case profile of
       None \<Rightarrow> None
     | Some p \<Rightarrow>
         (case bp_profile_version (ar_content p) of None \<Rightarrow> None | Some v \<Rightarrow> pfv_profile_version v))"

fun conformance_class_str :: "conformance_class \<Rightarrow> pystr" where
  "conformance_class_str CLASS_A_DETERMINISTIC_LIVE = ''CLASS_A_DETERMINISTIC_LIVE''"
| "conformance_class_str CLASS_B_RESTRICTED_SERIALIZED_LIVE = ''CLASS_B_RESTRICTED_SERIALIZED_LIVE''"
| "conformance_class_str CLASS_C_PROTECTIVE_SUPERVISED_ONLY = ''CLASS_C_PROTECTIVE_SUPERVISED_ONLY''"
| "conformance_class_str CLASS_D_NON_LIVE = ''CLASS_D_NON_LIVE''"

definition active_conformance_class :: "broker_capability_profile option \<Rightarrow> pystr option" where
  "active_conformance_class profile =
    (case profile of
       None \<Rightarrow> None
     | Some p \<Rightarrow> map_option conformance_class_str (bp_conformance_class (ar_content p)))"

definition fallback_admissible :: "fallback_spec option \<Rightarrow> bool" where
  "fallback_admissible fallback =
    (case fallback of
       None \<Rightarrow> False
     | Some f \<Rightarrow> fs_widens_capability f = Some False \<and> fs_conservative f = Some True \<and>
         fs_tied_to_authority_and_risk_scope f = Some True)"

section \<open>Uncertain sends\<close>

definition uncertain_send_policy :: "bool option \<Rightarrow> bool option \<Rightarrow> uncertain_send_verdict" where
  "uncertain_send_policy idempotency_proven timeout_elapsed =
    \<lparr>us_no_retry = True, us_no_capacity_release = True, us_no_assume_rejection = True,
     us_no_new_conflicting_in_containment = True, us_start_reconciliation = True,
     us_enter_unknown_or_contained = True\<rparr>"

definition same_order_retry_allowed :: "broker_capability_profile option \<Rightarrow> bool option \<Rightarrow> bool" where
  "same_order_retry_allowed profile idempotency_proven =
    (case profile of
       None \<Rightarrow> False
     | Some p \<Rightarrow>
         if idempotency_proven \<noteq> Some True then False
         else (case declaration_for p SUBMISSION_IDEMPOTENCY of
             None \<Rightarrow> False | Some decl \<Rightarrow> cd_status decl = Some VERIFIED))"

section \<open>Bounds and versions\<close>

definition external_detection_ok :: "int option \<Rightarrow> int option \<Rightarrow> int option \<Rightarrow> bool" where
  "external_detection_ok detect contain observed =
    (case (detect, contain, observed) of
       (Some d, Some c, Some l) \<Rightarrow> l \<le> d \<and> l \<le> c | _ \<Rightarrow> False)"

definition rate_admission_ok :: "bool option \<Rightarrow> bool option \<Rightarrow> bool" where
  "rate_admission_ok ordinary_below_ceiling protective_headroom_reserved =
    (ordinary_below_ceiling = Some True \<and> protective_headroom_reserved = Some True)"

definition profile_version_current ::
  "pystr option \<Rightarrow> pystr option \<Rightarrow> bool option \<Rightarrow> bool option \<Rightarrow> bool" where
  "profile_version_current active presented not_expired degraded =
    (case (active, presented) of
       (Some a, Some p) \<Rightarrow>
         if a \<noteq> p then False else if not_expired \<noteq> Some True then False else degraded = Some False
     | _ \<Rightarrow> False)"

section \<open>Drift\<close>

definition drift_observation_flags :: "observed_behavior \<Rightarrow> bool list" where
  "drift_observation_flags o1 =
    [ob_duplicate_order_despite_idempotency o1, ob_event_before_declared_impossible o1,
     ob_missing_sequence o1, ob_late_fill_beyond_window o1, ob_query_omission_beyond_bound o1,
     ob_unexpected_rate_limit o1, ob_session_behavior_change o1, ob_unknown_status_code o1,
     ob_unit_multiplier_mismatch o1]"

definition drift_detected :: "capability_declaration \<Rightarrow> observed_behavior \<Rightarrow> bool" where
  "drift_detected decl o1 =
    (if ob_dimension o1 \<noteq> None \<and> ob_dimension o1 \<noteq> cd_dimension decl then False
     else list_ex id (drift_observation_flags o1))"

definition apply_drift :: "capability_declaration \<Rightarrow> observed_behavior \<Rightarrow> capability_declaration" where
  "apply_drift decl o1 =
    (if \<not> drift_detected decl o1 then decl
     else decl\<lparr>cd_status := Some CONTRADICTORY, cd_assurance_level := Some LEVEL_0_UNKNOWN\<rparr>)"

section \<open>Final quantity, environment, partition\<close>

definition fqp_required_conjuncts :: "final_quantity_evidence \<Rightarrow> bool option list" where
  "fqp_required_conjuncts e =
    [fe_broker_order_identity_or_bounded_effect e, fe_final_cumulative_filled_quantity e,
     fe_zero_remaining_executable_quantity e, fe_corrections_busts_late_events_handled e,
     fe_evidence_source_provenance e, fe_within_valid_window e, fe_ordering_waiting_rule_satisfied e]"

definition fqp_adequate :: "final_quantity_proof_rule \<Rightarrow> final_quantity_evidence \<Rightarrow> bool" where
  "fqp_adequate rl e =
    (if fe_sole_prohibited_basis e \<noteq> None then False
     else if \<not> (fq_no_later_change_asserted rl = Some True \<or> fq_late_event_window_defined rl = Some True)
     then False
     else list_all (\<lambda>c. c = Some True) (fqp_required_conjuncts e))"

definition environment_binding_ok :: "pystr option \<Rightarrow> pystr option \<Rightarrow> bool option \<Rightarrow> bool" where
  "environment_binding_ok evidence scope inherited =
    (case (evidence, scope) of
       (Some e, Some s) \<Rightarrow> if e \<noteq> s then False else inherited = Some False
     | _ \<Rightarrow> False)"

definition credential_scope_declared_ok :: "broker_capability_profile option \<Rightarrow> pystr option \<Rightarrow> bool" where
  "credential_scope_declared_ok profile requested =
    (case (profile, requested) of
       (Some p, Some r) \<Rightarrow>
         (case bp_profile_key (ar_content p) of
            None \<Rightarrow> False | Some k \<Rightarrow> pk_credential_scope k = Some r)
     | _ \<Rightarrow> False)"

definition partition_protective_class :: "bool option \<Rightarrow> bool option \<Rightarrow> bool option \<Rightarrow> bool" where
  "partition_protective_class single_channel no_rapid_revocation shared_rate_limit =
    (single_channel = Some True \<and> no_rapid_revocation = Some True \<and> shared_rate_limit = Some True)"

definition partition_class_scope_ok ::
  "broker_capability_profile option \<Rightarrow> bool option \<Rightarrow> bool option \<Rightarrow> bool option \<Rightarrow> bool" where
  "partition_class_scope_ok profile single_channel no_rapid_revocation shared_rate_limit =
    (case profile of
       None \<Rightarrow> False
     | Some p \<Rightarrow>
         if \<not> partition_protective_class single_channel no_rapid_revocation shared_rate_limit then True
         else if bp_conformance_class (ar_content p) \<in> Some ` set non_live_or_supervised_classes then True
         else (case bp_live_scope (ar_content p) of
             None \<Rightarrow> False
           | Some s \<Rightarrow> ls_reduced_off_unattended_partition_protection s = Some True))"

definition broker_evidence_admissible_under_profile ::
  "broker_capability_profile option \<Rightarrow> broker_evidence_ref option \<Rightarrow> required_capability_set option \<Rightarrow>
    bool option \<Rightarrow> bool" where
  "broker_evidence_admissible_under_profile profile evidence required version_current =
    (case evidence of
       None \<Rightarrow> False
     | Some e \<Rightarrow>
         if be_evidence_id e = None \<and> be_digest e = None then False
         else capability_admissible profile None required version_current = ADMISSIBLE)"

section \<open>Capability tuples and the routing whitelist\<close>

datatype operation_class = MARKET_DATA_READ | ACCOUNT_READ | CAPABILITY_PROBE | ORDER_SEND | CANCEL_REPLACE
datatype economic_effect = NO_EFFECT | BROKER_RESOURCE_ONLY | POSITION_OR_CASH
datatype asset_scope = STOCK | FUTURES
datatype authorization_class = NON_AUTHORIZING_READ | MOCK_ORDER | REAL_ORDER | SYNTHETIC_ORDER

definition order_mutating_operations :: "operation_class list" where
  "order_mutating_operations = [ORDER_SEND, CANCEL_REPLACE]"

definition order_authorizations :: "authorization_class list" where
  "order_authorizations = [MOCK_ORDER, REAL_ORDER]"

record capability_tuple =
  ct_environment :: broker_environment
  ct_operation_class :: operation_class
  ct_economic_effect :: economic_effect
  ct_asset_scope :: asset_scope
  ct_authorization_class :: authorization_class

text \<open>What the validator of a tuple accepts.\<close>

definition no_axis_contradiction :: "capability_tuple \<Rightarrow> bool" where
  "no_axis_contradiction t =
    (let synthetic_order_exempt = (ct_environment t = SYNTHETIC \<and> ct_authorization_class t = SYNTHETIC_ORDER);
         mutating = (ct_operation_class t \<in> set order_mutating_operations)
     in if mutating \<and> ct_economic_effect t = NO_EFFECT \<and> \<not> synthetic_order_exempt then False
        else if ct_authorization_class t = NON_AUTHORIZING_READ \<and> mutating then False
        else if ct_environment t = SYNTHETIC \<and> ct_authorization_class t \<in> set order_authorizations then False
        else if ct_authorization_class t = SYNTHETIC_ORDER \<and> ct_environment t \<noteq> SYNTHETIC then False
        else \<not> (ct_environment t = BROKER_PRODUCTION \<and> mutating \<and> ct_asset_scope t = FUTURES))"

definition read_class_operations :: "operation_class list" where
  "read_class_operations = [MARKET_DATA_READ, ACCOUNT_READ, CAPABILITY_PROBE]"

definition tuple_of ::
  "broker_environment \<Rightarrow> operation_class \<Rightarrow> economic_effect \<Rightarrow> asset_scope \<Rightarrow> authorization_class \<Rightarrow>
    capability_tuple" where
  "tuple_of e operation f a z =
    \<lparr>ct_environment = e, ct_operation_class = operation, ct_economic_effect = f, ct_asset_scope = a,
     ct_authorization_class = z\<rparr>"

definition read_class_admissible :: "capability_tuple list" where
  "read_class_admissible =
    [tuple_of e operation NO_EFFECT a NON_AUTHORIZING_READ.
      e \<leftarrow> [SYNTHETIC, BROKER_SIMULATION, BROKER_PRODUCTION], operation \<leftarrow> read_class_operations,
      a \<leftarrow> [STOCK, FUTURES]]"

definition synthetic_order_admissible :: "capability_tuple list" where
  "synthetic_order_admissible =
    [tuple_of SYNTHETIC operation NO_EFFECT a SYNTHETIC_ORDER.
      operation \<leftarrow> [ORDER_SEND, CANCEL_REPLACE], a \<leftarrow> [STOCK, FUTURES]]"

definition admissible_whitelist :: "capability_tuple list" where
  "admissible_whitelist = read_class_admissible @ synthetic_order_admissible"

definition reduced_whitelist :: "capability_tuple list" where
  "reduced_whitelist =
    [tuple_of BROKER_SIMULATION operation BROKER_RESOURCE_ONLY STOCK MOCK_ORDER.
      operation \<leftarrow> [ORDER_SEND, CANCEL_REPLACE]]"

definition mock_scope_authorizations :: "authorization_class list" where
  "mock_scope_authorizations = [MOCK_ORDER, NON_AUTHORIZING_READ]"

definition no_position_or_cash_effects :: "economic_effect list" where
  "no_position_or_cash_effects = [NO_EFFECT, BROKER_RESOURCE_ONLY]"

definition mock_order_without_position_or_cash :: "capability_tuple list \<Rightarrow> bool" where
  "mock_order_without_position_or_cash ts =
    (if ts = [] then False
     else list_all (\<lambda>t. ct_environment t = BROKER_SIMULATION \<and>
       ct_authorization_class t \<in> set mock_scope_authorizations \<and>
       ct_economic_effect t \<in> set no_position_or_cash_effects) ts)"

definition routing_admissibility :: "capability_tuple \<Rightarrow> bool option \<Rightarrow> admissibility" where
  "routing_admissibility t profile_evidence_ok =
    (if t \<in> set admissible_whitelist then ADMISSIBLE
     else if t \<in> set reduced_whitelist
     then (if profile_evidence_ok = Some True then REDUCED else PROHIBITED)
     else PROHIBITED)"

definition endpoint_binding_from_profile_ok ::
  "capability_tuple \<Rightarrow> profile_key option \<Rightarrow> (broker_environment \<rightharpoonup> pystr) \<Rightarrow> (asset_scope \<rightharpoonup> pystr) \<Rightarrow> bool" where
  "endpoint_binding_from_profile_ok t key environment_binding asset_binding =
    (case key of
       None \<Rightarrow> False
     | Some k \<Rightarrow>
         (case (environment_binding (ct_environment t), asset_binding (ct_asset_scope t)) of
            (Some e, Some i) \<Rightarrow>
              if pk_environment k = None \<or> pk_instrument_class k = None then False
              else pk_environment k = Some e \<and> pk_instrument_class k = Some i
          | _ \<Rightarrow> False))"

definition credential_principal_separation_ok :: "pystr option \<Rightarrow> pystr option \<Rightarrow> bool" where
  "credential_principal_separation_ok read_principal order_principal =
    (case (read_principal, order_principal) of
       (Some r, Some w) \<Rightarrow> if r = [] \<or> w = [] then False else r \<noteq> w
     | _ \<Rightarrow> False)"

section \<open>Provenance of a capability claim\<close>

datatype provenance_class = OFFICIAL_SDK | OFFICIAL_DOCUMENT | INTERNAL_CLIENT | CONTROLLED_GET_PROBE
datatype claim_kind = MEASURED_BOUND | DOCUMENTED_LIMIT | REAL_ORDER_CAPABILITY

record probe_manifest =
  pm_allowed_methods :: "pystr list"
  pm_retention :: pystr
  pm_ttl :: pystr
  pm_provenance :: pystr

record capability_provenance =
  vp_provenance_class :: provenance_class
  vp_source_ref :: pystr
  vp_captured_at :: pystr
  vp_evidence_ref :: "broker_evidence_ref option"
  vp_probe_manifest :: "probe_manifest option"

definition probe_manifest_iff_controlled_probe :: "capability_provenance \<Rightarrow> bool" where
  "probe_manifest_iff_controlled_probe p =
    (let is_probe = (vp_provenance_class p = CONTROLLED_GET_PROBE); has_manifest = (vp_probe_manifest p \<noteq> None)
     in if is_probe \<and> \<not> has_manifest then False else \<not> (\<not> is_probe \<and> has_manifest))"

definition non_measuring_classes :: "provenance_class list" where
  "non_measuring_classes = [OFFICIAL_DOCUMENT, INTERNAL_CLIENT]"

definition provenance_admits_claim :: "capability_provenance option \<Rightarrow> claim_kind option \<Rightarrow> bool" where
  "provenance_admits_claim provenance kind =
    (case (provenance, kind) of
       (Some p, Some k) \<Rightarrow>
         if k = REAL_ORDER_CAPABILITY then False
         else if k = MEASURED_BOUND \<and> vp_provenance_class p \<in> set non_measuring_classes then False
         else vp_evidence_ref p \<noteq> None
     | _ \<Rightarrow> False)"

section \<open>What a profile authorises\<close>

text \<open>A declaration that authorises at a level.\<close>

definition authorizing_declaration :: "capability_declaration \<Rightarrow> assurance_level \<Rightarrow> bool" where
  "authorizing_declaration decl lvl =
    ((cd_status decl = Some VERIFIED \<or>
      cd_status decl = Some VERIFIED_WITH_RESTRICTION \<and> cd_restriction_approved decl = Some True) \<and>
     (\<exists>l. cd_assurance_level decl = Some l \<and> lvl \<le> l))"

lemma declaration_authorizes_iff:
  "declaration_authorizes d (Some lvl) \<longleftrightarrow> (\<exists>decl. d = Some decl \<and> authorizing_declaration decl lvl)"
  by (auto simp: declaration_authorizes_def authorizing_declaration_def authorizing_statuses_def
      less_eq_assurance_level_def split: option.splits)

lemma deficient_dimensions_empty:
  "deficient_dimensions p ds lvl = [] \<longleftrightarrow>
    (\<forall>d \<in> set ds. \<exists>decl. declaration_for p d = Some decl \<and> authorizing_declaration decl lvl)"
  by (simp add: deficient_dimensions_def filter_empty_conv declaration_authorizes_iff)

lemma capability_admissible_iff:
  "capability_admissible (Some p) a (Some r) vc = ADMISSIBLE \<longleftrightarrow>
    vc = Some True \<and> rq_minimum_live_gate_satisfied r = Some True \<and>
    (\<exists>lvl. snd (required_dimensions_and_level r) = Some lvl \<and>
      (\<forall>d \<in> set (fst (required_dimensions_and_level r)).
        \<exists>decl. declaration_for p d = Some decl \<and> authorizing_declaration decl lvl))"
  by (auto simp: capability_admissible_def deficient_dimensions_empty Let_def
      split: prod.splits option.splits)

lemma capability_admissible_cases:
  assumes "capability_admissible p a r vc \<noteq> PROHIBITED"
  obtains q s where "p = Some q" "r = Some s" "vc = Some True" "rq_minimum_live_gate_satisfied s = Some True"
  using assms by (auto simp: capability_admissible_def split: option.splits prod.splits if_splits)

text \<open>
  An action is admissible exactly when the profile version is current, the live gate is met and
  the first declaration of every required dimension is verified, or verified with an approved
  restriction, at no less than the required level; a requirement that names no dimension asks for all
  seventeen at the highest level.
\<close>

theorem admissible_means_verified:
  "capability_admissible profile action_class required version_current = ADMISSIBLE \<longleftrightarrow>
    (\<exists>p r. profile = Some p \<and> required = Some r \<and> version_current = Some True \<and>
      rq_minimum_live_gate_satisfied r = Some True \<and>
      (if rq_required_dimensions r = [] then
         \<forall>d. \<exists>decl. declaration_for p d = Some decl \<and>
           authorizing_declaration decl LEVEL_4_CONTINUOUSLY_MONITORED
       else \<exists>lvl. rq_required_level r = Some lvl \<and>
         (\<forall>d \<in> set (rq_required_dimensions r). \<exists>decl. declaration_for p d = Some decl \<and>
           authorizing_declaration decl lvl)))"
proof (cases "profile = None \<or> required = None")
  case True
  then show ?thesis by (auto simp: capability_admissible_def split: option.splits)
next
  case False
  then obtain p r where "profile = Some p" "required = Some r" by auto
  then show ?thesis
    by (auto simp: capability_admissible_iff required_dimensions_and_level_def)
qed

definition demo_declaration :: capability_declaration where
  "demo_declaration =
    \<lparr>cd_dimension = Some SUBMISSION_IDEMPOTENCY, cd_status = Some VERIFIED,
     cd_assurance_level = Some LEVEL_2_CONTROLLED_TEST_VERIFIED, cd_evidence_reference = Some ''e'',
     cd_restriction = None, cd_restriction_approved = None, cd_fallback_reference = None,
     cd_assurance_sources = [CONTROLLED_SANDBOX_TEST]\<rparr>"

definition demo_profile :: broker_capability_profile where
  "demo_profile =
    \<lparr>ar_content = \<lparr>bp_profile_key = None, bp_profile_version = None, bp_declarations = [demo_declaration],
       bp_conformance_class = Some CLASS_B_RESTRICTED_SERIALIZED_LIVE, bp_live_scope = None,
       bp_final_quantity_proof_rules = [], bp_evidence_package_ref = None, bp_environment_class = None\<rparr>,
     ar_id = Some ''p'', ar_canonical_digest = None, ar_status = DRAFT, ar_canonicalization_version = None\<rparr>"

definition demo_required :: "assurance_level \<Rightarrow> required_capability_set" where
  "demo_required lvl =
    \<lparr>rq_required_dimensions = [SUBMISSION_IDEMPOTENCY], rq_required_level = Some lvl,
     rq_minimum_live_gate_satisfied = Some True, rq_approved_fallback_dimensions = []\<rparr>"

lemmas demo_capability_defs = demo_declaration_def demo_profile_def demo_required_def declaration_for_def
  authorizing_declaration_def less_eq_assurance_level_def

theorem admissible_means_verified_witness:
  "capability_admissible (Some demo_profile) None (Some (demo_required LEVEL_1_DOCUMENTED)) (Some True) = ADMISSIBLE \<and>
   capability_admissible (Some demo_profile) None (Some (demo_required LEVEL_3_RESTRICTED_PRODUCTION)) (Some True)
    \<noteq> ADMISSIBLE"
  unfolding admissible_means_verified by (simp_all add: demo_capability_defs)

section \<open>Drift\<close>

definition drifted :: "broker_capability_profile \<Rightarrow> observed_behavior \<Rightarrow> broker_capability_profile" where
  "drifted p o1 = p\<lparr>ar_content := (ar_content p)
      \<lparr>bp_declarations := map (\<lambda>decl. apply_drift decl o1) (bp_declarations (ar_content p))\<rparr>\<rparr>"

lemma apply_drift_dimension [simp]: "cd_dimension (apply_drift decl o1) = cd_dimension decl"
  by (simp add: apply_drift_def)

lemma find_map: "find P (map f xs) = map_option f (find (P \<circ> f) xs)"
  by (induction xs) auto

lemma declaration_for_drifted:
  "declaration_for (drifted p o1) d = map_option (\<lambda>decl. apply_drift decl o1) (declaration_for p d)"
  by (simp add: declaration_for_def drifted_def find_map comp_def)

lemma authorizing_drift:
  "authorizing_declaration (apply_drift decl o1) lvl \<longleftrightarrow> authorizing_declaration decl lvl \<and> \<not> drift_detected decl o1"
  by (auto simp: apply_drift_def authorizing_declaration_def)

lemma deficient_drifted:
  "set (deficient_dimensions p ds lvl) \<subseteq> set (deficient_dimensions (drifted p o1) ds lvl)"
  by (auto simp: deficient_dimensions_def declaration_authorizes_iff declaration_for_drifted authorizing_drift)

lemma admissibility_cases:
  "capability_admissible (Some p) a (Some r) vc =
    (case snd (required_dimensions_and_level r) of
       None \<Rightarrow> PROHIBITED
     | Some lvl \<Rightarrow>
         if rq_minimum_live_gate_satisfied r \<noteq> Some True \<or> vc \<noteq> Some True then PROHIBITED
         else if deficient_dimensions p (fst (required_dimensions_and_level r)) lvl = [] then ADMISSIBLE
         else if set (deficient_dimensions p (fst (required_dimensions_and_level r)) lvl)
             \<subseteq> set (rq_approved_fallback_dimensions r) then REDUCED else PROHIBITED)"
  by (auto simp: capability_admissible_def Let_def split: prod.splits option.splits)

fun allowance :: "admissibility \<Rightarrow> nat" where
  "allowance PROHIBITED = 0" | "allowance REDUCED = 1" | "allowance ADMISSIBLE = 2"

lemma drifted_admissible_iff:
  "capability_admissible (Some (drifted p o1)) a (Some r) vc = ADMISSIBLE \<longleftrightarrow>
    capability_admissible (Some p) a (Some r) vc = ADMISSIBLE \<and>
    (\<forall>d \<in> set (fst (required_dimensions_and_level r)). \<forall>decl.
      declaration_for p d = Some decl \<longrightarrow> \<not> drift_detected decl o1)"
  by (fastforce simp: capability_admissible_iff declaration_for_drifted authorizing_drift)

lemma drifted_allowance:
  "allowance (capability_admissible (Some (drifted p o1)) a (Some r) vc)
    \<le> allowance (capability_admissible (Some p) a (Some r) vc)"
proof (cases "snd (required_dimensions_and_level r)")
  case (Some lvl)
  then show ?thesis
    using deficient_drifted[of p "fst (required_dimensions_and_level r)" lvl o1]
    by (auto simp: admissibility_cases)
qed (simp add: admissibility_cases)

text \<open>
  Observed drift takes authority away and never gives any: an observation never raises the verdict
  on an action, and an action is admissible after it exactly when it was before and no required
  dimension's declaration drifted.
\<close>

theorem drift_only_withdraws:
  "allowance (capability_admissible (Some (drifted p o1)) a (Some r) vc)
     \<le> allowance (capability_admissible (Some p) a (Some r) vc) \<and>
   (capability_admissible (Some (drifted p o1)) a (Some r) vc = ADMISSIBLE \<longleftrightarrow>
     capability_admissible (Some p) a (Some r) vc = ADMISSIBLE \<and>
     (\<forall>d \<in> set (fst (required_dimensions_and_level r)). \<forall>decl.
       declaration_for p d = Some decl \<longrightarrow> \<not> drift_detected decl o1))"
  using drifted_allowance drifted_admissible_iff by blast

definition demo_behavior :: observed_behavior where
  "demo_behavior =
    \<lparr>ob_dimension = Some SUBMISSION_IDEMPOTENCY, ob_duplicate_order_despite_idempotency = True,
     ob_event_before_declared_impossible = False, ob_missing_sequence = False,
     ob_late_fill_beyond_window = False, ob_query_omission_beyond_bound = False,
     ob_unexpected_rate_limit = False, ob_session_behavior_change = False,
     ob_unknown_status_code = False, ob_unit_multiplier_mismatch = False\<rparr>"

theorem drift_only_withdraws_witness:
  "capability_admissible (Some (drifted demo_profile demo_behavior)) None
     (Some (demo_required LEVEL_1_DOCUMENTED)) (Some True) \<noteq> ADMISSIBLE"
proof -
  have "drift_detected demo_declaration demo_behavior"
    by (simp add: drift_detected_def drift_observation_flags_def demo_declaration_def demo_behavior_def)
  moreover have "declaration_for demo_profile SUBMISSION_IDEMPOTENCY = Some demo_declaration"
    "SUBMISSION_IDEMPOTENCY \<in> set (fst (required_dimensions_and_level (demo_required LEVEL_1_DOCUMENTED)))"
    by (simp_all add: demo_capability_defs required_dimensions_and_level_def)
  ultimately show ?thesis
    using drift_only_withdraws[of demo_profile demo_behavior None "demo_required LEVEL_1_DOCUMENTED" "Some True"]
    by blast
qed

section \<open>The routing whitelist\<close>

lemmas routing_defs = admissible_whitelist_def read_class_admissible_def synthetic_order_admissible_def
  reduced_whitelist_def read_class_operations_def tuple_of_def

lemma routing_count:
  "distinct (admissible_whitelist @ reduced_whitelist)" "length admissible_whitelist = 22"
  "length reduced_whitelist = 2"
  by (simp_all add: routing_defs)

lemma whitelisted:
  assumes "t \<in> set (admissible_whitelist @ reduced_whitelist)"
  shows "ct_economic_effect t \<noteq> POSITION_OR_CASH" "ct_authorization_class t \<noteq> REAL_ORDER"
    "ct_operation_class t \<in> set order_mutating_operations \<Longrightarrow> ct_environment t \<noteq> BROKER_PRODUCTION"
    "no_axis_contradiction t"
  using assms
  by (auto simp: routing_defs order_mutating_operations_def no_axis_contradiction_def order_authorizations_def)

text \<open>
  The routing rules admit nothing that moves a position or cash, no real order and no order on a
  production account, whatever evidence is claimed; an order on a broker's simulation gets at most the
  reduced verdict, for stock and with evidence only; and every admitted tuple passes its validator.
\<close>

theorem no_real_order_is_routed:
  assumes "routing_admissibility t evidence \<noteq> PROHIBITED"
  shows "ct_economic_effect t \<noteq> POSITION_OR_CASH \<and> ct_authorization_class t \<noteq> REAL_ORDER \<and>
    no_axis_contradiction t \<and>
    (ct_operation_class t \<in> {ORDER_SEND, CANCEL_REPLACE} \<longrightarrow>
      ct_environment t = SYNTHETIC \<and> ct_authorization_class t = SYNTHETIC_ORDER \<or>
      ct_environment t = BROKER_SIMULATION \<and> ct_asset_scope t = STOCK \<and> ct_authorization_class t = MOCK_ORDER \<and>
      evidence = Some True \<and> routing_admissibility t evidence = REDUCED)"
  using assms unfolding routing_admissibility_def
  by (auto simp: routing_defs no_axis_contradiction_def order_mutating_operations_def
      order_authorizations_def split: if_splits)

theorem no_real_order_is_routed_witness:
  "\<exists>t. ct_operation_class t = ORDER_SEND \<and> routing_admissibility t (Some True) = REDUCED \<and>
    ct_environment t = BROKER_SIMULATION \<and> ct_asset_scope t = STOCK"
proof -
  let ?t = "tuple_of BROKER_SIMULATION ORDER_SEND BROKER_RESOURCE_ONLY STOCK MOCK_ORDER"
  have routed: "routing_admissibility ?t (Some True) = REDUCED" and "ct_operation_class ?t = ORDER_SEND"
    by (simp_all add: routing_admissibility_def routing_defs)
  then have "ct_environment ?t = SYNTHETIC \<and> ct_authorization_class ?t = SYNTHETIC_ORDER \<or>
      ct_environment ?t = BROKER_SIMULATION \<and> ct_asset_scope ?t = STOCK \<and> ct_authorization_class ?t = MOCK_ORDER"
    using no_real_order_is_routed[of ?t "Some True"] by simp
  with routed show ?thesis by (intro exI[of _ ?t]) (simp add: tuple_of_def)
qed

section \<open>Observations\<close>

text \<open>
  The rule that lets a simulated scope skip the profile check looks at environment, authorisation and
  effect but not at the asset: a simulated futures order passes it, which no routing rule admits.
\<close>

lemma mock_futures_order_skips_the_profile:
  "mock_order_without_position_or_cash
     [tuple_of BROKER_SIMULATION ORDER_SEND BROKER_RESOURCE_ONLY FUTURES MOCK_ORDER]"
  "routing_admissibility (tuple_of BROKER_SIMULATION ORDER_SEND BROKER_RESOURCE_ONLY FUTURES MOCK_ORDER) e
     = PROHIBITED"
  "no_axis_contradiction (tuple_of BROKER_SIMULATION ORDER_SEND BROKER_RESOURCE_ONLY FUTURES MOCK_ORDER)"
  by (simp_all add: mock_order_without_position_or_cash_def mock_scope_authorizations_def
      no_position_or_cash_effects_def routing_admissibility_def routing_defs no_axis_contradiction_def
      order_mutating_operations_def order_authorizations_def)

lemma mock_scope_never_real:
  "mock_order_without_position_or_cash ts \<Longrightarrow> t \<in> set ts \<Longrightarrow>
    ct_environment t = BROKER_SIMULATION \<and> ct_authorization_class t \<noteq> REAL_ORDER \<and>
    ct_economic_effect t \<noteq> POSITION_OR_CASH"
  by (auto simp: mock_order_without_position_or_cash_def mock_scope_authorizations_def
      no_position_or_cash_effects_def list_all_iff split: if_splits)

text \<open>
  Of two declarations of one dimension the first is read: a contradiction noted after a verification
  changes nothing.
\<close>

lemma later_contradiction_is_ignored:
  "declaration_for p d = Some decl \<Longrightarrow>
    declaration_for (p\<lparr>ar_content := (ar_content p)\<lparr>bp_declarations :=
      bp_declarations (ar_content p) @ [contradiction]\<rparr>\<rparr>) d = Some decl"
  by (simp add: declaration_for_def find_append)

lemma retry_needs_verified_idempotency:
  "same_order_retry_allowed profile proven \<longleftrightarrow>
    proven = Some True \<and>
    (\<exists>p decl. profile = Some p \<and> declaration_for p SUBMISSION_IDEMPOTENCY = Some decl \<and>
      cd_status decl = Some VERIFIED)"
  by (auto simp: same_order_retry_allowed_def split: option.splits)

end
