(* ===== verification/Egress_Guards.thy ===== *)
theory Egress_Guards
  imports Engine_Sequencer
begin

text \<open>
  The guards of the final egress: the records of \<^verbatim>\<open>tos/egress/records.py\<close>, the injected
  observations of \<^verbatim>\<open>tos/egress/state.py\<close> and every predicate of \<^verbatim>\<open>tos/egress/predicates.py\<close>.  A quorum
  commit certificate, an egress request and the others are digest-bound artifacts with an independent
  id, so each is a class over its content.  The lemmas give what an exact binding pins down, that a
  quorum counts distinct verified identities only, and that a latch never opens again.
\<close>

section \<open>Observations\<close>

datatype restrictive_latch_state = CLEAR | DENY_LATCHED
datatype signer_role = QUORUM_MEMBER | LEADER

record signer_coordinate =
  sg_signer_identity :: "pystr option"
  sg_signer_role :: "signer_role option"
  sg_eligible_verified :: "bool option"
  sg_signature_verified :: "bool option"

record egress_coordinate_set =
  xc_endpoint :: "pystr option"
  xc_account :: "pystr option"
  xc_environment :: "pystr option"
  xc_action :: "pystr option"
  xc_method :: "pystr option"
  xc_route_identity :: "pystr option"
  xc_credential_generation :: "int option"
  xc_broker_session_generation :: "int option"
  xc_egress_generation :: "int option"
  xc_active_principal :: "pystr option"

record credential_route_inventory_entry =
  ci_principal :: "pystr option"
  ci_usable_credential :: "bool option"
  ci_broker_route :: "bool option"
  ci_inside_boundary :: "bool option"

record commit_proof_coordinates =
  cx_cluster_identity :: "pystr option"
  cx_capacity_domain :: "pystr option"
  cx_membership_generation :: "int option"
  cx_restore_generation :: "int option"
  cx_writer_epoch :: "int option"
  cx_committed_revision :: "int option"
  cx_canonical_command_digest :: "pystr option"
  cx_resulting_state_digest :: "pystr option"
  cx_egress_generation :: "int option"
  cx_credential_generation :: "int option"
  cx_broker_session_generation :: "int option"
  cx_route_policy_generation :: "int option"
  cx_trust_bundle_generation :: "int option"

record trial_claims =
  tr_trial_policy_generation :: "int option"
  tr_trial_plan_generation :: "int option"
  tr_trial_run_generation :: "int option"
  tr_promotion_generation :: "int option"
  tr_remaining_envelope :: "pystr option"
  tr_abort_generation :: "int option"

definition trial_claims_complete :: "trial_claims \<Rightarrow> bool" where
  "trial_claims_complete t =
    (tr_trial_policy_generation t \<noteq> None \<and> tr_trial_plan_generation t \<noteq> None \<and>
     tr_trial_run_generation t \<noteq> None \<and> tr_promotion_generation t \<noteq> None \<and>
     tr_remaining_envelope t \<noteq> None \<and> tr_abort_generation t \<noteq> None)"

record egress_principal =
  ep_workload_identity :: "pystr option"
  ep_deployment_digest :: "pystr option"
  ep_artifact_digest :: "pystr option"
  ep_config_digest :: "pystr option"
  ep_env_digest :: "pystr option"
  ep_credential_generation :: "int option"
  ep_broker_session_generation :: "int option"
  ep_route_policy_generation :: "int option"
  ep_trust_bundle_generation :: "int option"
  ep_active :: "bool option"
  ep_expired :: "bool option"

record claim_observation =
  co_nonce :: "pystr option"
  co_principal :: "pystr option"
  co_request_digest :: "pystr option"

record latch_event =
  ev_event_kind :: "pystr option"
  ev_restrictive :: "bool option"

definition generation_monotone :: "ordering_event \<Rightarrow> ordering_event \<Rightarrow> bool" where
  "generation_monotone earlier later = (compare_order earlier later = BEFORE)"

section \<open>Artifacts\<close>

definition egress_authority_json :: json where
  "egress_authority_json = JObj (map (\<lambda>f. (f, JBool False))
    [''permits_transmission'', ''creates_route'', ''grants_credential'', ''arms_generation'', ''re_arms''])"

record egress_request_content =
  rx_request_bytes_digest :: "pystr option"
  rx_canonical_command_digest :: "pystr option"
  rx_coordinates :: egress_coordinate_set
  rx_side :: "pystr option"
  rx_quantity_digest :: "pystr option"

type_synonym egress_request_record = "egress_request_content artifact"

definition egress_coordinates_json :: "egress_coordinate_set \<Rightarrow> (pystr \<times> json) list" where
  "egress_coordinates_json c =
    [(''endpoint'', jopt (xc_endpoint c)), (''account'', jopt (xc_account c)),
     (''environment'', jopt (xc_environment c)), (''action'', jopt (xc_action c)),
     (''method'', jopt (xc_method c)), (''route_identity'', jopt (xc_route_identity c)),
     (''credential_generation'', jint (xc_credential_generation c)),
     (''broker_session_generation'', jint (xc_broker_session_generation c)),
     (''egress_generation'', jint (xc_egress_generation c)),
     (''active_principal'', jopt (xc_active_principal c))]"

definition egress_request_class :: "egress_request_content artifact_class" where
  "egress_request_class =
    \<lparr>acl_id_rule = IndependentId,
     acl_covered = (\<lambda>c. JObj
       ([(''request_bytes_digest'', jopt (rx_request_bytes_digest c)),
         (''canonical_command_digest'', jopt (rx_canonical_command_digest c))] @
        egress_coordinates_json (rx_coordinates c) @
        [(''side'', jopt (rx_side c)), (''quantity_digest'', jopt (rx_quantity_digest c)),
         (''authority_effect'', egress_authority_json)])),
     acl_required = (\<lambda>c.
       [(''request_bytes_digest'', jopt (rx_request_bytes_digest c)),
        (''endpoint'', jopt (xc_endpoint (rx_coordinates c))),
        (''account'', jopt (xc_account (rx_coordinates c)))])\<rparr>"

text \<open>The first thirteen fields are the coordinates a commit proof is compared on.\<close>

record qcc_content =
  qc_commit :: commit_proof_coordinates
  qc_safety_cell :: "pystr option"
  qc_parent_revision :: "int option"
  qc_command_identity :: "pystr option"
  qc_active_egress_principal :: "pystr option"
  qc_endpoint_policy_generation :: "int option"
  qc_recovery_evidence_package_digest :: "pystr option"
  qc_decision_context_capsule_digest :: "pystr option"
  qc_venue_admissibility_decision_digest :: "pystr option"
  qc_canonical_broker_command_digest :: "pystr option"
  qc_order_conformance_proof_digest :: "pystr option"
  qc_aggregate_risk_decision_digest :: "pystr option"
  qc_action_flow_decision_digest :: "pystr option"
  qc_action_flow_permit_id :: "pystr option"
  qc_approval_consumption_record_digest :: "pystr option"
  qc_egress_currentness_proof_id :: "pystr option"
  qc_release_artifact_attestation_digest :: "pystr option"
  qc_post_trade_obligation_generation :: "int option"
  qc_signer_coordinates :: "signer_coordinate list"
  qc_capability_nonce :: "pystr option"
  qc_action_flow_permit_nonce :: "pystr option"
  qc_is_restricted_live_trial :: bool
  qc_trial_claims :: "trial_claims option"

type_synonym quorum_commit_certificate = "qcc_content artifact"

text \<open>The validator \<^verbatim>\<open>_trial_claim_completeness\<close>.\<close>

definition trial_claim_completeness :: "qcc_content \<Rightarrow> bool" where
  "trial_claim_completeness c =
    (\<not> (qc_is_restricted_live_trial c \<and>
       (case qc_trial_claims c of None \<Rightarrow> True | Some t \<Rightarrow> \<not> trial_claims_complete t)))"

text \<open>The value at each path of \<^verbatim>\<open>_REQUIRED_COVERED\<close> of a certificate.\<close>

definition qcc_required :: "qcc_content \<Rightarrow> (pystr \<times> json) list" where
  "qcc_required c =
    (let k = qc_commit c
     in [(''cluster_identity'', jopt (cx_cluster_identity k)), (''capacity_domain'', jopt (cx_capacity_domain k)),
         (''membership_generation'', jint (cx_membership_generation k)),
         (''restore_generation'', jint (cx_restore_generation k)),
         (''writer_epoch'', jint (cx_writer_epoch k)), (''committed_revision'', jint (cx_committed_revision k)),
         (''canonical_command_digest'', jopt (cx_canonical_command_digest k)),
         (''resulting_state_digest'', jopt (cx_resulting_state_digest k)),
         (''egress_generation'', jint (cx_egress_generation k)),
         (''active_egress_principal'', jopt (qc_active_egress_principal c))])"

record egress_principal_set_content =
  ps_egress_generation :: "int option"
  ps_active_principals :: "egress_principal list"

type_synonym active_egress_principal_set = "egress_principal_set_content artifact"

record replay_observation_content =
  ro_subject_identity :: "pystr option"
  ro_bound_request_digest :: "pystr option"
  ro_principal :: "pystr option"
  ro_endpoint :: "pystr option"
  ro_egress_generation :: "int option"

type_synonym replay_observation = "replay_observation_content artifact"

definition replay_observation_class :: "replay_observation_content artifact_class" where
  "replay_observation_class =
    \<lparr>acl_id_rule = IndependentId,
     acl_covered = (\<lambda>c. JObj
       [(''subject_identity'', jopt (ro_subject_identity c)),
        (''bound_request_digest'', jopt (ro_bound_request_digest c)), (''principal'', jopt (ro_principal c)),
        (''endpoint'', jopt (ro_endpoint c)), (''egress_generation'', jint (ro_egress_generation c)),
        (''authority_effect'', egress_authority_json)]),
     acl_required = (\<lambda>c. [(''subject_identity'', jopt (ro_subject_identity c))])\<rparr>"

section \<open>Quorum\<close>

definition quorum_commit_certificate_structurally_complete :: "quorum_commit_certificate option \<Rightarrow> bool" where
  "quorum_commit_certificate_structurally_complete qcc =
    (case qcc of
       None \<Rightarrow> False
     | Some q \<Rightarrow>
         (let c = ar_content q
          in if list_ex (\<lambda>(_, v). v = JNull \<or> v = JStr ''TBD'') (qcc_required c) then False
             else if qc_capability_nonce c = None \<or> qc_action_flow_permit_nonce c = None then False
             else if qc_signer_coordinates c = [] then False
             else trial_claim_completeness c))"

definition commit_coordinates :: "commit_proof_coordinates \<Rightarrow> json list" where
  "commit_coordinates k =
    [jopt (cx_cluster_identity k), jopt (cx_capacity_domain k), jint (cx_membership_generation k),
     jint (cx_restore_generation k), jint (cx_writer_epoch k), jint (cx_committed_revision k),
     jopt (cx_canonical_command_digest k), jopt (cx_resulting_state_digest k), jint (cx_egress_generation k),
     jint (cx_credential_generation k), jint (cx_broker_session_generation k),
     jint (cx_route_policy_generation k), jint (cx_trust_bundle_generation k)]"

text \<open>Two lists of coordinates that are all present and equal.\<close>

definition all_present_equal :: "json list \<Rightarrow> json list \<Rightarrow> bool" where
  "all_present_equal xs ys = list_all (\<lambda>(x, y). \<not> (x = JNull \<or> y = JNull \<or> x \<noteq> y)) (zip xs ys)"

definition quorum_coordinates_current ::
  "quorum_commit_certificate option \<Rightarrow> commit_proof_coordinates option \<Rightarrow> bool" where
  "quorum_coordinates_current qcc injected_current =
    (case (qcc, injected_current) of
       (Some q, Some current) \<Rightarrow>
         all_present_equal (commit_coordinates (qc_commit (ar_content q))) (commit_coordinates current)
     | _ \<Rightarrow> False)"

text \<open>
  The entries grouped by identity, in order of first appearance; of each identity all of whose entries
  are verified, whether all of its roles are those of a member.
\<close>

definition signer_verified :: "signer_coordinate \<Rightarrow> bool" where
  "signer_verified s = (sg_eligible_verified s = Some True \<and> sg_signature_verified s = Some True)"

definition entries_of :: "signer_coordinate list \<Rightarrow> pystr \<Rightarrow> signer_coordinate list" where
  "entries_of signers i = filter (\<lambda>s. sg_signer_identity s = Some i) signers"

definition counted_identities :: "signer_coordinate list \<Rightarrow> pystr list" where
  "counted_identities signers =
    filter (\<lambda>i. list_all signer_verified (entries_of signers i))
      (first_seen (List.map_filter sg_signer_identity signers))"

definition counted_confirmed_members :: "signer_coordinate list \<Rightarrow> bool list" where
  "counted_confirmed_members signers =
    map (\<lambda>i. list_all (\<lambda>s. sg_signer_role s = Some QUORUM_MEMBER) (entries_of signers i))
      (counted_identities signers)"

definition quorum_threshold_structurally_met :: "signer_coordinate list \<Rightarrow> int option \<Rightarrow> bool" where
  "quorum_threshold_structurally_met signers quorum_n =
    (case quorum_n of
       None \<Rightarrow> False
     | Some n \<Rightarrow>
         if n < 1 then False
         else if signers = [] then False
         else (let confirmed = counted_confirmed_members signers
               in if int (length confirmed) < n then False
                  else \<not> (length confirmed = 1 \<and> \<not> confirmed ! 0)))"

definition evidence_receipt_is_not_quorum_proof :: "'a option \<Rightarrow> bool" where
  "evidence_receipt_is_not_quorum_proof candidate = True"

section \<open>Single use and exact binding\<close>

definition replay_or_substitution_detected ::
  "replay_observation option \<Rightarrow> replay_observation option \<Rightarrow> record_pair_kind" where
  "replay_or_substitution_detected a b =
    (case (a, b) of
       (Some x, Some y) \<Rightarrow>
         classify_record_pair (ro_subject_identity (ar_content x)) (ar_canonical_digest x)
           (ro_subject_identity (ar_content y)) (ar_canonical_digest y) None None
     | _ \<Rightarrow> NOT_COMPARABLE)"

definition capability_and_permit_single_use ::
  "pystr option \<Rightarrow> pystr option \<Rightarrow> claim_observation list \<Rightarrow> pystr option \<Rightarrow> pystr option \<Rightarrow> bool" where
  "capability_and_permit_single_use capability_nonce permit_nonce prior_claims who request_digest =
    (if capability_nonce = None \<or> permit_nonce = None then False
     else if who = None \<or> request_digest = None then False
     else \<not> list_ex (\<lambda>c. co_nonce c \<noteq> None \<and> (co_nonce c = capability_nonce \<or> co_nonce c = permit_nonce))
       prior_claims)"

definition coordinate_values :: "egress_coordinate_set \<Rightarrow> json list" where
  "coordinate_values c = map snd (egress_coordinates_json c)"

definition exact_binding_holds ::
  "egress_request_record option \<Rightarrow> quorum_commit_certificate option \<Rightarrow> egress_coordinate_set option \<Rightarrow>
    pystr option \<Rightarrow> pystr option \<Rightarrow> bool" where
  "exact_binding_holds request qcc injected_authorized ioc_verdict capsule_request_digest =
    (case (request, qcc, injected_authorized) of
       (Some r, Some q, Some authorized) \<Rightarrow>
         (let c = ar_content r; command = cx_canonical_command_digest (qc_commit (ar_content q))
          in if \<not> all_present_equal (coordinate_values (rx_coordinates c)) (coordinate_values authorized)
             then False
             else if rx_request_bytes_digest c = None \<or> capsule_request_digest = None \<or>
               rx_request_bytes_digest c \<noteq> capsule_request_digest then False
             else if command = None \<or> rx_canonical_command_digest c = None \<or>
               command \<noteq> rx_canonical_command_digest c then False
             else ioc_verdict = Some ''CONFORMANT'')
     | _ \<Rightarrow> False)"

section \<open>Credentials, principals, latch\<close>

definition credential_route_authority_disjoint :: "credential_route_inventory_entry list \<Rightarrow> bool" where
  "credential_route_authority_disjoint inventory =
    (if inventory = [] then False
     else \<not> list_ex (\<lambda>e. ci_inside_boundary e \<noteq> Some True \<and> ci_usable_credential e \<noteq> Some False \<and>
       ci_broker_route e \<noteq> Some False) inventory)"

definition egress_generation_monotonic :: "ordering_event \<Rightarrow> ordering_event \<Rightarrow> bool" where
  "egress_generation_monotonic prior new = generation_monotone prior new"

definition stale_principal_structurally_rejected ::
  "pystr option \<Rightarrow> active_egress_principal_set option \<Rightarrow> int option \<Rightarrow> bool" where
  "stale_principal_structurally_rejected who active_set expected_generation =
    (case (who, active_set) of
       (Some p, Some s) \<Rightarrow>
         (case (ps_egress_generation (ar_content s), expected_generation) of
            (Some g, Some e) \<Rightarrow>
              if g \<noteq> e then False
              else (case find (\<lambda>m. ep_workload_identity m = Some p) (ps_active_principals (ar_content s)) of
                  None \<Rightarrow> False
                | Some m \<Rightarrow> ep_active m = Some True \<and> ep_expired m = Some False)
          | _ \<Rightarrow> False)
     | _ \<Rightarrow> False)"

definition monotonic_denial_no_revival ::
  "restrictive_latch_state option \<Rightarrow> latch_event list \<Rightarrow> restrictive_latch_state" where
  "monotonic_denial_no_revival latch_state events =
    (if latch_state = Some DENY_LATCHED then DENY_LATCHED
     else if latch_state \<noteq> Some CLEAR then DENY_LATCHED
     else if list_ex (\<lambda>e. ev_restrictive e = Some True) events then DENY_LATCHED else CLEAR)"

section \<open>Exact bindings\<close>

lemma jopt_null [simp]: "jopt x = JNull \<longleftrightarrow> x = None"
  by (cases x) simp_all

lemma jint_null [simp]: "jint x = JNull \<longleftrightarrow> x = None"
  by (cases x) simp_all

lemma jopt_eq [simp]: "jopt x = jopt y \<longleftrightarrow> x = y"
  by (cases x; cases y) simp_all

lemma jint_eq [simp]: "jint x = jint y \<longleftrightarrow> x = y"
  by (cases x; cases y) simp_all

lemma coordinate_values_eval:
  "coordinate_values c =
    [jopt (xc_endpoint c), jopt (xc_account c), jopt (xc_environment c), jopt (xc_action c),
     jopt (xc_method c), jopt (xc_route_identity c), jint (xc_credential_generation c),
     jint (xc_broker_session_generation c), jint (xc_egress_generation c), jopt (xc_active_principal c)]"
  by (simp add: coordinate_values_def egress_coordinates_json_def)

lemma all_present_equal_iff:
  "length xs = length ys \<Longrightarrow> all_present_equal xs ys \<longleftrightarrow> xs = ys \<and> JNull \<notin> set xs"
  by (induction xs ys rule: list_induct2) (auto simp: all_present_equal_def)

lemma coordinate_values_inj: "coordinate_values a = coordinate_values b \<Longrightarrow> a = b"
  by (cases a; cases b) (simp add: coordinate_values_eval)

definition coordinates_concrete :: "egress_coordinate_set \<Rightarrow> bool" where
  "coordinates_concrete c = (JNull \<notin> set (coordinate_values c))"

lemma coordinates_match:
  "all_present_equal (coordinate_values a) (coordinate_values b) \<longleftrightarrow> a = b \<and> coordinates_concrete a"
  unfolding coordinates_concrete_def
  by (subst all_present_equal_iff) (auto simp: coordinate_values_eval[of a] coordinate_values_eval[of b]
      dest: coordinate_values_inj[unfolded coordinate_values_eval])

text \<open>
  An exact binding holds exactly when the request carries the authorised coordinates, all of them
  concrete, the bytes the capsule ends in, the command the certificate committed, and the conformance
  verdict is positive.
\<close>

lemma exact_binding_iff:
  "exact_binding_holds request qcc authorized verdict capsule \<longleftrightarrow>
    (\<exists>r q d c. request = Some r \<and> qcc = Some q \<and> authorized = Some (rx_coordinates (ar_content r)) \<and>
      coordinates_concrete (rx_coordinates (ar_content r)) \<and>
      capsule = Some d \<and> rx_request_bytes_digest (ar_content r) = Some d \<and>
      rx_canonical_command_digest (ar_content r) = Some c \<and>
      cx_canonical_command_digest (qc_commit (ar_content q)) = Some c \<and> verdict = Some ''CONFORMANT'')"
  by (auto simp: exact_binding_holds_def coordinates_match Let_def split: option.splits)

section \<open>Quorums\<close>

lemma set_counted:
  "i \<in> set (counted_identities signers) \<longleftrightarrow>
    (\<exists>s \<in> set signers. sg_signer_identity s = Some i) \<and>
    (\<forall>s \<in> set signers. sg_signer_identity s = Some i \<longrightarrow> signer_verified s)"
  by (auto simp: counted_identities_def entries_of_def list_all_iff List.map_filter_def image_iff)

lemma distinct_counted: "distinct (counted_identities signers)"
  by (simp add: counted_identities_def distinct_filter distinct_first_seen_from)

text \<open>The identities no entry of which is doubtful.\<close>

definition sound_identities :: "signer_coordinate list \<Rightarrow> pystr set" where
  "sound_identities signers =
    {i. (\<exists>s \<in> set signers. sg_signer_identity s = Some i) \<and>
        (\<forall>s \<in> set signers. sg_signer_identity s = Some i \<longrightarrow> signer_verified s)}"

lemma counted_card: "length (counted_confirmed_members signers) = card (sound_identities signers)"
proof -
  have "set (counted_identities signers) = sound_identities signers"
    by (auto simp: set_counted sound_identities_def)
  then show ?thesis
    using distinct_card[OF distinct_counted, of signers] by (simp add: counted_confirmed_members_def)
qed

lemma lone_counted:
  assumes "counted_identities signers = [i]"
  shows "counted_confirmed_members signers ! 0 \<longleftrightarrow>
    (\<forall>s \<in> set signers. sg_signer_identity s = Some i \<longrightarrow> sg_signer_role s = Some QUORUM_MEMBER)"
  using assms by (auto simp: counted_confirmed_members_def entries_of_def list_all_iff)

text \<open>
  A quorum is met exactly when the threshold is at least one, at least that many distinct identities
  are verified in every entry that names them, and a lone one is a member in every entry.
\<close>

lemma quorum_met_iff:
  "quorum_threshold_structurally_met signers quorum_n \<longleftrightarrow>
    (\<exists>n. quorum_n = Some n \<and> 1 \<le> n \<and> n \<le> int (card (sound_identities signers)) \<and>
      (card (sound_identities signers) = 1 \<longrightarrow>
        (\<forall>i \<in> sound_identities signers. \<forall>s \<in> set signers.
          sg_signer_identity s = Some i \<longrightarrow> sg_signer_role s = Some QUORUM_MEMBER)))"
proof -
  have sound: "set (counted_identities signers) = sound_identities signers"
    by (auto simp: set_counted sound_identities_def)
  have len: "length (counted_identities signers) = card (sound_identities signers)"
    using counted_card[of signers] by (simp add: counted_confirmed_members_def)
  have lone: "counted_confirmed_members signers ! 0 \<longleftrightarrow>
      (\<forall>i \<in> sound_identities signers. \<forall>s \<in> set signers.
        sg_signer_identity s = Some i \<longrightarrow> sg_signer_role s = Some QUORUM_MEMBER)"
    if "card (sound_identities signers) = 1"
  proof -
    have "length (counted_identities signers) = Suc 0" using that len by simp
    then obtain i where i: "counted_identities signers = [i]" by (auto simp: length_Suc_conv)
    with sound have "sound_identities signers = {i}" by simp
    with lone_counted[OF i] show ?thesis by simp
  qed
  have "sound_identities signers = {}" if "signers = []" using that by (simp add: sound_identities_def)
  then show ?thesis
    using lone counted_card[of signers]
    by (auto simp: quorum_threshold_structurally_met_def Let_def split: option.splits)
qed

section \<open>Latch and nonces\<close>

lemma latch_clear_iff:
  "monotonic_denial_no_revival latch events = CLEAR \<longleftrightarrow>
    latch = Some CLEAR \<and> (\<forall>e \<in> set events. ev_restrictive e \<noteq> Some True)"
  by (auto simp: monotonic_denial_no_revival_def list_ex_iff)

lemma latch_never_reopens:
  "monotonic_denial_no_revival latch events = DENY_LATCHED \<Longrightarrow>
    monotonic_denial_no_revival (Some (monotonic_denial_no_revival latch events)) later = DENY_LATCHED"
  by (simp add: monotonic_denial_no_revival_def)

lemma single_use_iff:
  "capability_and_permit_single_use n m claims p d \<longleftrightarrow>
    (\<exists>a b. n = Some a \<and> m = Some b \<and> p \<noteq> None \<and> d \<noteq> None \<and>
      (\<forall>c \<in> set claims. co_nonce c \<noteq> Some a \<and> co_nonce c \<noteq> Some b))"
  by (cases n; cases m) (auto simp: capability_and_permit_single_use_def list_ex_iff)

text \<open>One nonce may stand for both the capability and the permit.\<close>

lemma one_nonce_for_both: "capability_and_permit_single_use (Some n) (Some n) [] (Some p) (Some d)"
  by (simp add: single_use_iff)

lemma disjoint_iff:
  "credential_route_authority_disjoint inventory \<longleftrightarrow>
    inventory \<noteq> [] \<and> (\<forall>e \<in> set inventory. ci_inside_boundary e = Some True \<or>
      ci_usable_credential e = Some False \<or> ci_broker_route e = Some False)"
  by (auto simp: credential_route_authority_disjoint_def list_ex_iff)

end
