(* ===== verification/Send_Boundary.thy ===== *)
theory Send_Boundary
  imports Engine_Adapters Broker_Capability Egress_Guards
begin

text \<open>
  The verify list of the broker egress gateway: the vocabulary and records of \<^verbatim>\<open>tos/egressgw/\<close>
  (\<^verbatim>\<open>vocabulary.py\<close>, \<^verbatim>\<open>records.py\<close>), the applicability and the deferred items (\<^verbatim>\<open>mesh.py\<close>), the venue
  facts (\<^verbatim>\<open>venuefacts.py\<close>), and the item checks, the verdict over the list and the outbound binding of
  \<^verbatim>\<open>gateway.py\<close>.  A verdict keeps every field but its explanatory \<^verbatim>\<open>reason\<close> and the constant all-false
  authority block.  A decimal of a record is a canonical one, so its validator has normalised it.
\<close>

section \<open>Vocabulary\<close>

datatype send_verify_item =
  VI_TRANSMISSION_CAPABILITY | VI_INTENT_AND_RESERVATION_IDENTITIES | VI_COMMITMENT_EPOCH
| VI_SAFETY_AUTHORITY_EPOCH | VI_LIVE_SCOPE | VI_ALLOWANCE | VI_HARD_SAFETY_ENVELOPE_VERSIONS
| VI_SAFETY_DEVIATION | VI_SAFETY_INCIDENT | VI_SAFETY_MONITORING | VI_VENUE_DECISION
| VI_VENUE_GENERATION | VI_ORDER_CONSTRUCTION | VI_TRADING_APPROVAL | VI_ACTION_FLOW | VI_CURRENTNESS
| VI_ACTUAL_OUTBOUND_CONFORMANCE

definition send_verify_items :: "send_verify_item list" where
  "send_verify_items =
    [VI_TRANSMISSION_CAPABILITY, VI_INTENT_AND_RESERVATION_IDENTITIES, VI_COMMITMENT_EPOCH,
     VI_SAFETY_AUTHORITY_EPOCH, VI_LIVE_SCOPE, VI_ALLOWANCE, VI_HARD_SAFETY_ENVELOPE_VERSIONS,
     VI_SAFETY_DEVIATION, VI_SAFETY_INCIDENT, VI_SAFETY_MONITORING, VI_VENUE_DECISION,
     VI_VENUE_GENERATION, VI_ORDER_CONSTRUCTION, VI_TRADING_APPROVAL, VI_ACTION_FLOW, VI_CURRENTNESS,
     VI_ACTUAL_OUTBOUND_CONFORMANCE]"

datatype verify_disposition = REALIZED_STRUCTURAL | PROVISIONAL_STAND_IN | DEFERRED_APPLICABILITY

definition realized_items :: "send_verify_item list" where
  "realized_items =
    [VI_TRANSMISSION_CAPABILITY, VI_INTENT_AND_RESERVATION_IDENTITIES, VI_VENUE_DECISION,
     VI_ORDER_CONSTRUCTION, VI_CURRENTNESS, VI_ACTUAL_OUTBOUND_CONFORMANCE]"

definition provisional_items :: "send_verify_item list" where
  "provisional_items =
    [VI_COMMITMENT_EPOCH, VI_ALLOWANCE, VI_VENUE_GENERATION, VI_TRADING_APPROVAL, VI_ACTION_FLOW]"

definition deferred_items :: "send_verify_item list" where
  "deferred_items =
    [VI_SAFETY_AUTHORITY_EPOCH, VI_LIVE_SCOPE, VI_HARD_SAFETY_ENVELOPE_VERSIONS, VI_SAFETY_DEVIATION,
     VI_SAFETY_INCIDENT, VI_SAFETY_MONITORING]"

datatype verify_outcome = SATISFIED | NOT_APPLICABLE | VERIFY_UNKNOWN | VERIFY_DENIED

definition admitting_verify_outcomes :: "verify_outcome list" where
  "admitting_verify_outcomes = [SATISFIED, NOT_APPLICABLE]"

datatype broker_applicability = BROKER_RESOURCE_CONSUMING | NON_BROKER_SYNTHETIC | APPLICABILITY_UNKNOWN

datatype send_halt_reason =
  CONTEXT_MISSING | ATTEMPT_ALREADY_CONSUMED | OUTBOUND_NOT_BOUND_TO_CONSTRUCTION | VERIFY_ITEM_DENIED
| VERIFY_ITEM_UNKNOWN | VERIFY_LIST_INCOMPLETE | BROKER_APPLICABILITY_UNRESOLVED
| SINGLE_USE_CLAIM_REFUSED | TRANSPORT_UNAVAILABLE | TRANSPORT_RAISED
| OUTBOUND_COORDINATE_DERIVATION_RAISED | SEND_SEAL_UNCONSTRUCTABLE | RESULT_UNREADABLE
| RESULT_ATTEMPT_IDENTITY_MISMATCH

datatype derivation_outcome = DERIVED | DERIVATION_DENIED
datatype lot_rounding_policy = EXACT_MULTIPLE_REQUIRED | FLOOR_TO_LOT
datatype effect_basis = BASIS_QUANTITY | BASIS_NOTIONAL

fun applicability_str :: "broker_applicability \<Rightarrow> pystr" where
  "applicability_str BROKER_RESOURCE_CONSUMING = ''BROKER_RESOURCE_CONSUMING''"
| "applicability_str NON_BROKER_SYNTHETIC = ''NON_BROKER_SYNTHETIC''"
| "applicability_str APPLICABILITY_UNKNOWN = ''UNKNOWN''"

section \<open>Records\<close>

subsection \<open>What a construction hands over\<close>

record quantity_derivation =
  qd_outcome :: derivation_outcome
  qd_quantity :: "pydec option"
  qd_price :: "pydec option"
  qd_quantity_unit :: "quantity_unit_kind option"
  qd_rule :: "pystr option"
  qd_denial_reason :: "pystr option"

text \<open>The validator \<^verbatim>\<open>_outcome_shape_consistent\<close>.\<close>

definition derivation_shape_consistent :: "quantity_derivation \<Rightarrow> bool" where
  "derivation_shape_consistent d =
    (if qd_outcome d = DERIVED then
       (if qd_quantity d = None \<or> qd_price d = None \<or> qd_quantity_unit d = None \<or> qd_rule d = None then False
        else qd_denial_reason d = None)
     else if qd_quantity d \<noteq> None \<or> qd_price d \<noteq> None then False
     else \<not> blank (case qd_denial_reason d of None \<Rightarrow> [] | Some r \<Rightarrow> r))"

record candidate_construction =
  cn_derivation :: quantity_derivation
  cn_intent :: "approved_intent_contract option"
  cn_envelope :: "authorized_construction_envelope option"
  cn_policy :: "order_construction_policy option"
  cn_command :: "canonical_broker_command option"
  cn_conformance_result :: "conformance_result option"
  cn_numerical_result :: "conformance_result option"
  cn_no_silent_widening_ok :: "bool option"
  cn_denial_reason :: "pystr option"

text \<open>The validator \<^verbatim>\<open>_shape_is_one_of_the_sanctioned_bundles\<close>.\<close>

definition sanctioned_bundle :: "candidate_construction \<Rightarrow> bool" where
  "sanctioned_bundle c =
    (if cn_command c = None then
       (if blank (case cn_denial_reason c of None \<Rightarrow> [] | Some r \<Rightarrow> r) then False
        else \<not> (cn_conformance_result c \<noteq> None \<or> cn_numerical_result c \<noteq> None \<or>
          cn_no_silent_widening_ok c \<noteq> None))
     else if cn_denial_reason c \<noteq> None then False
     else cn_intent c \<noteq> None \<and> cn_envelope c \<noteq> None \<and> cn_policy c \<noteq> None \<and>
       cn_conformance_result c \<noteq> None \<and> cn_numerical_result c \<noteq> None \<and> cn_no_silent_widening_ok c \<noteq> None)"

definition positive_decimal :: "pydec option \<Rightarrow> bool" where
  "positive_decimal v = (case v of None \<Rightarrow> False | Some d \<Rightarrow> dlt dzero d)"

subsection \<open>Verdicts and the context\<close>

record transport_nature =
  tn_principal :: "pystr option"
  tn_reaches_broker :: "bool option"
  tn_credential_bearing :: "bool option"
  tn_route_bearing :: "bool option"
  tn_risk_relevant_live :: "bool option"

record verify_item_verdict =
  vv_item :: send_verify_item
  vv_disposition :: verify_disposition
  vv_outcome :: verify_outcome
  vv_native_verdict_type :: "pystr option"
  vv_native_verdict_value :: "pystr option"
  vv_preserved_worst_credible_capacity :: "int option"
  vv_preserved_obligation_magnitude_unknown :: bool

text \<open>The three validators of a verdict.\<close>

definition verdict_ok :: "verify_item_verdict \<Rightarrow> bool" where
  "verdict_ok v =
    (\<not> (vv_outcome v = NOT_APPLICABLE \<and> vv_disposition v \<noteq> DEFERRED_APPLICABILITY) \<and>
     \<not> (vv_preserved_worst_credible_capacity v \<noteq> None \<and> vv_item v \<noteq> VI_CURRENTNESS) \<and>
     \<not> (vv_preserved_obligation_magnitude_unknown v \<and>
        (vv_item v \<noteq> VI_CURRENTNESS \<or> vv_preserved_worst_credible_capacity v \<noteq> None)))"

definition disposition_of :: "send_verify_item \<Rightarrow> verify_disposition" where
  "disposition_of item =
    (if item \<in> set realized_items then REALIZED_STRUCTURAL
     else if item \<in> set provisional_items then PROVISIONAL_STAND_IN else DEFERRED_APPLICABILITY)"

definition item_verdict ::
  "send_verify_item \<Rightarrow> verify_outcome \<Rightarrow> pystr option \<Rightarrow> pystr option \<Rightarrow> int option \<Rightarrow> bool \<Rightarrow>
    verify_item_verdict" where
  "item_verdict item outcome native native_value preserved magnitude_unknown =
    \<lparr>vv_item = item, vv_disposition = disposition_of item, vv_outcome = outcome,
     vv_native_verdict_type = native, vv_native_verdict_value = native_value,
     vv_preserved_worst_credible_capacity = preserved,
     vv_preserved_obligation_magnitude_unknown = magnitude_unknown\<rparr>"

abbreviation plain_verdict :: "send_verify_item \<Rightarrow> verify_outcome \<Rightarrow> verify_item_verdict" where
  "plain_verdict item outcome \<equiv> item_verdict item outcome None None None False"

abbreviation native_verdict ::
  "send_verify_item \<Rightarrow> verify_outcome \<Rightarrow> pystr option \<Rightarrow> pystr option \<Rightarrow> verify_item_verdict" where
  "native_verdict item outcome native native_value \<equiv> item_verdict item outcome native native_value None False"

record send_boundary_verification =
  bv_attempt_id :: pystr
  bv_applicability :: broker_applicability
  bv_verdicts :: "verify_item_verdict list"
  bv_admitted :: "bool option"
  bv_halt_item :: "send_verify_item option"
  bv_halt_reason :: "send_halt_reason option"

record send_boundary_context =
  sx_instrument_key :: "scope_key option"
  sx_transport_nature :: "transport_nature option"
  sx_non_live_test_environment_token :: "pystr option"
  sx_scope_environment :: "pystr option"
  sx_evidence_environment :: "pystr option"
  sx_environment_inherited :: "bool option"
  sx_credential_route_inventory :: "credential_route_inventory_entry list"
  sx_transmission_capability :: "transmission_capability option"
  sx_capability_nonce :: "pystr option"
  sx_action_flow_permit_nonce :: "pystr option"
  sx_prior_claims :: "claim_observation list"
  sx_principal :: "pystr option"
  sx_request_digest :: "pystr option"
  sx_reservation_attempt_id :: "pystr option"
  sx_reservation_conformance_proof_digest :: "pystr option"
  sx_reservation_action_flow_permit_identity :: "pystr option"
  sx_commitment_epoch_current :: "bool option"
  sx_safety_authority_epoch_current :: "bool option"
  sx_live_scope_valid :: "bool option"
  sx_safety_profile_current :: "bool option"
  sx_deviation_clear :: "bool option"
  sx_incident_clear :: "bool option"
  sx_monitoring_clear :: "bool option"
  sx_broker_capability_profile :: "broker_capability_profile option"
  sx_required_capability_set :: "required_capability_set option"
  sx_broker_profile_version_current :: "bool option"
  sx_capability_tuples :: "capability_tuple list"
  sx_idempotency_proven :: "bool option"
  sx_account_instrument_action_allowed :: "bool option"
  sx_max_quantity_within_allowance :: "bool option"
  sx_session_facts_current :: "bool option"
  sx_tradability_facts_current :: "bool option"
  sx_account_facts_current :: "bool option"
  sx_broker_constraint_generation_current :: "bool option"
  sx_venue_snapshot :: "venue_constraint_snapshot option"
  sx_venue_policy :: "venue_constraint_policy option"
  sx_venue_decision :: "order_admissibility_decision option"
  sx_observed_session_phase :: "pystr option"
  sx_action_class :: "action_class option"
  sx_order_shape :: "order_shape option"
  sx_venue_shape_constraints :: "venue_shape_constraints option"
  sx_construction :: "candidate_construction option"
  sx_conformance_proof :: "order_conformance_proof option"
  sx_approval_consumed_for_this_intent :: "bool option"
  sx_approval_intent_binding_digest :: "pystr option"
  sx_action_flow_permit_identity :: "pystr option"
  sx_action_flow_commitment_current :: "bool option"
  sx_egress_currentness_proof :: "egress_currentness_proof option"
  sx_egress_currentness_result :: "proof_result option"
  sx_restrictive_latch_state :: "restrictive_latch_state option"
  sx_worst_credible_capacity :: "int option"
  sx_egress_request :: "egress_request_record option"
  sx_quorum_commit_certificate :: "quorum_commit_certificate option"
  sx_authorized_coordinates :: "egress_coordinate_set option"
  sx_capsule_egress_request_digest :: "pystr option"
  sx_outbound_quantity :: "pydec option"
  sx_outbound_price :: "pydec option"
  sx_outbound_side :: "pystr option"
  sx_reference :: ordering_event

section \<open>Applicability and the deferred items\<close>

text \<open>The loop over the inventory: an entry of the principal corroborates or settles the matter.\<close>

fun corroborate ::
  "pystr \<Rightarrow> credential_route_inventory_entry list \<Rightarrow> bool \<Rightarrow> bool option" where
  "corroborate who [] corroborated = Some corroborated"
| "corroborate who (entry # entries) corroborated =
    (if ci_principal entry = Some who then
       (if ci_usable_credential entry = Some False \<and> ci_broker_route entry = Some False
        then corroborate who entries True else None)
     else corroborate who entries corroborated)"

definition resolve_broker_applicability ::
  "transport_nature option \<Rightarrow> send_boundary_context \<Rightarrow> broker_applicability" where
  "resolve_broker_applicability nature context =
    (case nature of
       None \<Rightarrow> APPLICABILITY_UNKNOWN
     | Some n \<Rightarrow>
         if tn_reaches_broker n = Some True \<or> tn_credential_bearing n = Some True \<or>
           tn_route_bearing n = Some True \<or> tn_risk_relevant_live n = Some True
         then BROKER_RESOURCE_CONSUMING
         else if \<not> (tn_reaches_broker n = Some False \<and> tn_credential_bearing n = Some False \<and>
           tn_route_bearing n = Some False \<and> tn_risk_relevant_live n = Some False)
         then APPLICABILITY_UNKNOWN
         else (case tn_principal n of
             None \<Rightarrow> APPLICABILITY_UNKNOWN
           | Some who \<Rightarrow>
               if blank who then APPLICABILITY_UNKNOWN
               else if \<not> credential_route_authority_disjoint (sx_credential_route_inventory context)
               then APPLICABILITY_UNKNOWN
               else (case corroborate who (sx_credential_route_inventory context) False of
                   None \<Rightarrow> BROKER_RESOURCE_CONSUMING
                 | Some corroborated \<Rightarrow>
                     if \<not> corroborated then APPLICABILITY_UNKNOWN
                     else if sx_non_live_test_environment_token context = None then APPLICABILITY_UNKNOWN
                     else if sx_scope_environment context \<noteq> sx_non_live_test_environment_token context
                     then APPLICABILITY_UNKNOWN
                     else if \<not> environment_binding_ok (sx_evidence_environment context)
                       (sx_scope_environment context) (sx_environment_inherited context)
                     then APPLICABILITY_UNKNOWN
                     else NON_BROKER_SYNTHETIC)))"

fun deferred_item_flag :: "send_verify_item \<Rightarrow> send_boundary_context \<Rightarrow> bool option" where
  "deferred_item_flag VI_SAFETY_AUTHORITY_EPOCH c = sx_safety_authority_epoch_current c"
| "deferred_item_flag VI_LIVE_SCOPE c = sx_live_scope_valid c"
| "deferred_item_flag VI_HARD_SAFETY_ENVELOPE_VERSIONS c = sx_safety_profile_current c"
| "deferred_item_flag VI_SAFETY_DEVIATION c = sx_deviation_clear c"
| "deferred_item_flag VI_SAFETY_INCIDENT c = sx_incident_clear c"
| "deferred_item_flag VI_SAFETY_MONITORING c = sx_monitoring_clear c"
| "deferred_item_flag _ c = None"

text \<open>On a synthetic send the item is not looked up: the validator of the verdict refuses other items.\<close>

definition deferred_item_verdict ::
  "send_verify_item \<Rightarrow> broker_applicability \<Rightarrow> send_boundary_context \<Rightarrow> (pystr, verify_item_verdict) result" where
  "deferred_item_verdict item applicability context =
    (let native = Some (applicability_str applicability)
     in if applicability = NON_BROKER_SYNTHETIC then
          (let v = native_verdict item NOT_APPLICABLE None native
           in if verdict_ok v then Inr v else Inl ''ValidationError'')
        else if item \<notin> set deferred_items then Inl ''ArtifactIntegrityError''
        else (case deferred_item_flag item context of
            Some True \<Rightarrow> Inr (native_verdict item SATISFIED None native)
          | Some False \<Rightarrow> Inr (native_verdict item VERIFY_DENIED None native)
          | None \<Rightarrow> Inr (native_verdict item VERIFY_UNKNOWN None native)))"

section \<open>Venue facts\<close>

definition venue_session_account_facts_current ::
  "bool option \<Rightarrow> bool option \<Rightarrow> bool option \<Rightarrow> bool option" where
  "venue_session_account_facts_current session tradability account =
    (if list_ex (\<lambda>v. v = Some False) [session, tradability, account] then Some False
     else if list_ex (\<lambda>v. v = None) [session, tradability, account] then None
     else Some True)"

definition venue_generation_item_verdict :: "send_boundary_context \<Rightarrow> verify_item_verdict" where
  "venue_generation_item_verdict context =
    (let composite = venue_session_account_facts_current (sx_session_facts_current context)
           (sx_tradability_facts_current context) (sx_account_facts_current context);
         broker_current = sx_broker_constraint_generation_current context
     in if composite \<noteq> Some True then
          plain_verdict VI_VENUE_GENERATION (if composite = Some False then VERIFY_DENIED else VERIFY_UNKNOWN)
        else if broker_current = Some False then plain_verdict VI_VENUE_GENERATION VERIFY_DENIED
        else if broker_current \<noteq> Some True then plain_verdict VI_VENUE_GENERATION VERIFY_UNKNOWN
        else plain_verdict VI_VENUE_GENERATION SATISFIED)"

definition fold_venue_admissibility ::
  "pystr option \<Rightarrow> action_class option \<Rightarrow> venue_constraint_snapshot option \<Rightarrow> venue_constraint_policy option \<Rightarrow>
    order_shape option \<Rightarrow> venue_shape_constraints option \<Rightarrow> order_admissibility_result" where
  "fold_venue_admissibility phase action snapshot policy shape constraints =
    (case action of
       None \<Rightarrow> OA_UNKNOWN
     | Some a \<Rightarrow>
         (let results = [session_phase_admits phase a snapshot policy, order_shape_admissible shape constraints]
          in if OA_INADMISSIBLE \<in> set results then OA_INADMISSIBLE
             else if OA_RESTRICTED_PROTECTIVE_ONLY \<in> set results then OA_RESTRICTED_PROTECTIVE_ONLY
             else if list_ex (\<lambda>r. r \<noteq> OA_ADMISSIBLE) results then OA_UNKNOWN
             else OA_ADMISSIBLE))"

section \<open>The item checks\<close>

definition check_capability :: "send_boundary_context \<Rightarrow> verify_item_verdict" where
  "check_capability context =
    (if sv_outcome (transmission_capability_verdict (sx_transmission_capability context) None) \<noteq> ADMIT
     then plain_verdict VI_TRANSMISSION_CAPABILITY VERIFY_UNKNOWN
     else if \<not> capability_and_permit_single_use (sx_capability_nonce context)
         (sx_action_flow_permit_nonce context) (sx_prior_claims context) (sx_principal context)
         (sx_request_digest context)
     then plain_verdict VI_TRANSMISSION_CAPABILITY VERIFY_DENIED
     else plain_verdict VI_TRANSMISSION_CAPABILITY SATISFIED)"

text \<open>The loop over the pairs of identities.\<close>

fun match_identities :: "(pystr option \<times> pystr option) list \<Rightarrow> verify_outcome" where
  "match_identities [] = SATISFIED"
| "match_identities ((left, right) # pairs) =
    (case (left, right) of
       (Some l, Some r) \<Rightarrow>
         if blank r then VERIFY_UNKNOWN
         else if l \<noteq> r then VERIFY_DENIED else match_identities pairs
     | _ \<Rightarrow> VERIFY_UNKNOWN)"

definition check_identities :: "attempt_request \<Rightarrow> send_boundary_context \<Rightarrow> verify_item_verdict" where
  "check_identities attempt context =
    plain_verdict VI_INTENT_AND_RESERVATION_IDENTITIES
      (match_identities
        [(Some (at_attempt_id attempt), sx_reservation_attempt_id context),
         (Some (at_conformance_proof_digest attempt), sx_reservation_conformance_proof_digest context),
         (Some (at_action_flow_permit_identity attempt), sx_reservation_action_flow_permit_identity context)])"

definition check_commitment_epoch :: "send_boundary_context \<Rightarrow> verify_item_verdict" where
  "check_commitment_epoch context =
    plain_verdict VI_COMMITMENT_EPOCH
      (if sx_commitment_epoch_current context = Some True then SATISFIED else VERIFY_UNKNOWN)"

definition mock_class_bound_to_profile :: "send_boundary_context \<Rightarrow> bool" where
  "mock_class_bound_to_profile context =
    (case sx_broker_capability_profile context of
       None \<Rightarrow> False
     | Some p \<Rightarrow>
         if bp_environment_class (ar_content p) \<noteq> Some BROKER_SIMULATION then False
         else if \<not> mock_order_without_position_or_cash (sx_capability_tuples context) then False
         else list_all (\<lambda>t. Some (ct_environment t) = bp_environment_class (ar_content p))
           (sx_capability_tuples context))"

fun action_class_str :: "action_class \<Rightarrow> pystr" where
  "action_class_str AC_NEW_LONG = ''NEW_LONG''"
| "action_class_str AC_NEW_SHORT = ''NEW_SHORT''"
| "action_class_str AC_INCREASE = ''INCREASE''"
| "action_class_str AC_DECREASE = ''DECREASE''"
| "action_class_str AC_CLOSE = ''CLOSE''"
| "action_class_str AC_REVERSAL = ''REVERSAL''"
| "action_class_str AC_CANCEL = ''CANCEL''"
| "action_class_str AC_AMEND = ''AMEND''"
| "action_class_str AC_REPLACE = ''REPLACE''"
| "action_class_str AC_REDUCE_ONLY = ''REDUCE_ONLY''"
| "action_class_str AC_PROTECTIVE = ''PROTECTIVE''"
| "action_class_str AC_EMERGENCY = ''EMERGENCY''"
| "action_class_str AC_ROUTING_ALTERNATIVE = ''ROUTING_ALTERNATIVE''"

fun broker_admissibility_str :: "admissibility \<Rightarrow> pystr" where
  "broker_admissibility_str ADMISSIBLE = ''ADMISSIBLE''"
| "broker_admissibility_str REDUCED = ''REDUCED''"
| "broker_admissibility_str PROHIBITED = ''PROHIBITED''"

definition profile_admissibility :: "send_boundary_context \<Rightarrow> admissibility" where
  "profile_admissibility context =
    capability_admissible (sx_broker_capability_profile context)
      (map_option action_class_str (sx_action_class context)) (sx_required_capability_set context)
      (sx_broker_profile_version_current context)"

definition check_allowance ::
  "send_boundary_context \<Rightarrow> broker_applicability \<Rightarrow> verify_item_verdict" where
  "check_allowance context applicability =
    (let allowance =
       (if sx_account_instrument_action_allowed context \<noteq> Some True
        then plain_verdict VI_ALLOWANCE VERIFY_UNKNOWN
        else if sx_max_quantity_within_allowance context \<noteq> Some True
        then plain_verdict VI_ALLOWANCE VERIFY_UNKNOWN
        else plain_verdict VI_ALLOWANCE SATISFIED)
     in if applicability \<noteq> NON_BROKER_SYNTHETIC then
          (if \<not> mock_class_bound_to_profile context \<and> profile_admissibility context \<noteq> ADMISSIBLE then
             native_verdict VI_ALLOWANCE
               (if profile_admissibility context = REDUCED then VERIFY_UNKNOWN else VERIFY_DENIED)
               (Some ''Admissibility'') (Some (broker_admissibility_str (profile_admissibility context)))
           else allowance)
        else if \<not> environment_binding_ok (sx_evidence_environment context) (sx_scope_environment context)
          (sx_environment_inherited context)
        then plain_verdict VI_ALLOWANCE VERIFY_UNKNOWN
        else allowance)"

definition check_venue :: "send_boundary_context \<Rightarrow> verify_item_verdict" where
  "check_venue context =
    (case sx_venue_decision context of
       None \<Rightarrow> plain_verdict VI_VENUE_DECISION VERIFY_UNKNOWN
     | Some decision \<Rightarrow>
         (let current = fold_venue_admissibility (sx_observed_session_phase context) (sx_action_class context)
                (sx_venue_snapshot context) (sx_venue_policy context) (sx_order_shape context)
                (sx_venue_shape_constraints context);
              native = (\<lambda>ou. native_verdict VI_VENUE_DECISION ou (Some ''OrderAdmissibilityResult'')
                (Some (admissibility_result_str current)))
          in if current = OA_UNKNOWN then native VERIFY_UNKNOWN
             else if current \<noteq> OA_ADMISSIBLE then native VERIFY_DENIED
             else if ad_result (ar_content decision) \<noteq> Some OA_ADMISSIBLE
             then plain_verdict VI_VENUE_DECISION VERIFY_DENIED
             else native SATISFIED))"

definition result_native :: "conformance_result option \<Rightarrow> verify_outcome \<Rightarrow> verify_item_verdict" where
  "result_native r ou = native_verdict VI_ORDER_CONSTRUCTION ou (type_name_of ''ConformanceResult'' r)
    (map_option conformance_result_str r)"

definition check_construction :: "send_boundary_context \<Rightarrow> verify_item_verdict" where
  "check_construction context =
    (case sx_construction context of
       None \<Rightarrow> plain_verdict VI_ORDER_CONSTRUCTION VERIFY_UNKNOWN
     | Some c \<Rightarrow>
         if cn_command c = None then plain_verdict VI_ORDER_CONSTRUCTION VERIFY_UNKNOWN
         else if cn_conformance_result c = None \<or> cn_conformance_result c = Some CONFORMANCE_UNKNOWN
         then result_native (cn_conformance_result c) VERIFY_UNKNOWN
         else if cn_conformance_result c \<noteq> Some CONFORMANT
         then result_native (cn_conformance_result c) VERIFY_DENIED
         else if cn_numerical_result c = None \<or> cn_numerical_result c = Some CONFORMANCE_UNKNOWN
         then result_native (cn_numerical_result c) VERIFY_UNKNOWN
         else if cn_numerical_result c \<noteq> Some CONFORMANT
         then result_native (cn_numerical_result c) VERIFY_DENIED
         else if cn_no_silent_widening_ok c \<noteq> Some True
         then plain_verdict VI_ORDER_CONSTRUCTION VERIFY_DENIED
         else if \<not> mutation_fence_holds (cn_command c) (sx_conformance_proof context)
         then plain_verdict VI_ORDER_CONSTRUCTION VERIFY_DENIED
         else result_native (cn_conformance_result c) SATISFIED)"

definition check_approval :: "send_boundary_context \<Rightarrow> verify_item_verdict" where
  "check_approval context =
    (if sx_approval_consumed_for_this_intent context \<noteq> Some True
     then plain_verdict VI_TRADING_APPROVAL VERIFY_UNKNOWN
     else
       (let intent_digest = digest_of (Option.bind (sx_construction context) cn_intent)
        in if intent_digest = None \<or> sx_approval_intent_binding_digest context = None \<or>
             sx_approval_intent_binding_digest context \<noteq> intent_digest
           then plain_verdict VI_TRADING_APPROVAL VERIFY_DENIED
           else plain_verdict VI_TRADING_APPROVAL SATISFIED))"

definition check_action_flow :: "attempt_request \<Rightarrow> send_boundary_context \<Rightarrow> verify_item_verdict" where
  "check_action_flow attempt context =
    (case sx_action_flow_permit_identity context of
       None \<Rightarrow> plain_verdict VI_ACTION_FLOW VERIFY_UNKNOWN
     | Some permit \<Rightarrow>
         if blank permit then plain_verdict VI_ACTION_FLOW VERIFY_UNKNOWN
         else if permit \<noteq> at_action_flow_permit_identity attempt then plain_verdict VI_ACTION_FLOW VERIFY_DENIED
         else if sx_action_flow_commitment_current context \<noteq> Some True
         then plain_verdict VI_ACTION_FLOW VERIFY_UNKNOWN
         else plain_verdict VI_ACTION_FLOW SATISFIED)"

fun latch_str :: "restrictive_latch_state \<Rightarrow> pystr" where
  "latch_str CLEAR = ''CLEAR''"
| "latch_str DENY_LATCHED = ''DENY_LATCHED''"

definition check_currentness :: "send_boundary_context \<Rightarrow> verify_item_verdict" where
  "check_currentness context =
    (let latch = monotonic_denial_no_revival (sx_restrictive_latch_state context) [];
         pf = sx_egress_currentness_proof context;
         currentness = egress_currentness_verdict (sx_egress_currentness_result context) pf
     in if latch \<noteq> CLEAR then
          native_verdict VI_CURRENTNESS VERIFY_DENIED (Some ''RestrictiveLatchState'') (Some (latch_str latch))
        else if \<not> proof_structurally_complete pf then plain_verdict VI_CURRENTNESS VERIFY_UNKNOWN
        else if \<not> proof_admissible pf then plain_verdict VI_CURRENTNESS VERIFY_DENIED
        else if sv_outcome currentness \<noteq> ADMIT then
          item_verdict VI_CURRENTNESS
            (if sv_outcome currentness = OUTCOME_UNKNOWN then VERIFY_UNKNOWN else VERIFY_DENIED) None
            (sv_native_verdict_value currentness)
            (unknown_preserves_capacity (Some False) (sx_worst_credible_capacity context))
            (sx_worst_credible_capacity context = None)
        else native_verdict VI_CURRENTNESS SATISFIED None (sv_native_verdict_value currentness))"

definition check_actual_outbound :: "send_boundary_context \<Rightarrow> verify_item_verdict" where
  "check_actual_outbound context =
    (let token = map_option conformance_result_str (Option.bind (sx_construction context) cn_conformance_result)
     in plain_verdict VI_ACTUAL_OUTBOUND_CONFORMANCE
       (if exact_binding_holds (sx_egress_request context) (sx_quorum_commit_certificate context)
          (sx_authorized_coordinates context) token (sx_capsule_egress_request_digest context)
        then SATISFIED else VERIFY_DENIED))"

text \<open>The dispatch table; a deferred item has no entry.\<close>

fun item_check ::
  "send_verify_item \<Rightarrow> attempt_request \<Rightarrow> send_boundary_context \<Rightarrow> broker_applicability \<Rightarrow>
    verify_item_verdict option" where
  "item_check VI_TRANSMISSION_CAPABILITY a c z = Some (check_capability c)"
| "item_check VI_INTENT_AND_RESERVATION_IDENTITIES a c z = Some (check_identities a c)"
| "item_check VI_COMMITMENT_EPOCH a c z = Some (check_commitment_epoch c)"
| "item_check VI_ALLOWANCE a c z = Some (check_allowance c z)"
| "item_check VI_VENUE_DECISION a c z = Some (check_venue c)"
| "item_check VI_VENUE_GENERATION a c z = Some (venue_generation_item_verdict c)"
| "item_check VI_ORDER_CONSTRUCTION a c z = Some (check_construction c)"
| "item_check VI_TRADING_APPROVAL a c z = Some (check_approval c)"
| "item_check VI_ACTION_FLOW a c z = Some (check_action_flow a c)"
| "item_check VI_CURRENTNESS a c z = Some (check_currentness c)"
| "item_check VI_ACTUAL_OUTBOUND_CONFORMANCE a c z = Some (check_actual_outbound c)"
| "item_check _ a c z = None"

section \<open>The verify list\<close>

definition judge_item ::
  "attempt_request \<Rightarrow> send_boundary_context \<Rightarrow> broker_applicability \<Rightarrow> send_verify_item \<Rightarrow>
    (pystr, verify_item_verdict) result" where
  "judge_item attempt context applicability item =
    (if item \<in> set deferred_items then deferred_item_verdict item applicability context
     else case item_check item attempt context applicability of
       None \<Rightarrow> Inl ''KeyError'' | Some v \<Rightarrow> Inr v)"

fun judge_items ::
  "attempt_request \<Rightarrow> send_boundary_context \<Rightarrow> broker_applicability \<Rightarrow> send_verify_item list \<Rightarrow>
    (pystr, verify_item_verdict list) result" where
  "judge_items attempt context applicability [] = Inr []"
| "judge_items attempt context applicability (item # items) =
    (case judge_item attempt context applicability item of
       Inl e \<Rightarrow> Inl e
     | Inr v \<Rightarrow>
         (case judge_items attempt context applicability items of Inl e \<Rightarrow> Inl e | Inr vs \<Rightarrow> Inr (v # vs)))"

definition verification_of ::
  "attempt_request \<Rightarrow> broker_applicability \<Rightarrow> verify_item_verdict list \<Rightarrow> send_boundary_verification" where
  "verification_of attempt applicability judged =
    (let stopped = (\<lambda>item reason.
         \<lparr>bv_attempt_id = at_attempt_id attempt, bv_applicability = applicability, bv_verdicts = judged,
          bv_admitted = None, bv_halt_item = item, bv_halt_reason = Some reason\<rparr>)
     in if set (map vv_item judged) \<noteq> set send_verify_items \<or> length judged \<noteq> length send_verify_items
        then stopped None VERIFY_LIST_INCOMPLETE
        else case find (\<lambda>v. vv_outcome v \<notin> set admitting_verify_outcomes) judged of
          Some v \<Rightarrow>
            stopped (Some (vv_item v))
              (if vv_outcome v = VERIFY_UNKNOWN then VERIFY_ITEM_UNKNOWN else VERIFY_ITEM_DENIED)
        | None \<Rightarrow>
            if applicability = APPLICABILITY_UNKNOWN then stopped None BROKER_APPLICABILITY_UNRESOLVED
            else \<lparr>bv_attempt_id = at_attempt_id attempt, bv_applicability = applicability,
                   bv_verdicts = judged, bv_admitted = Some True, bv_halt_item = None,
                   bv_halt_reason = None\<rparr>)"

definition verify_send_boundary ::
  "attempt_request \<Rightarrow> send_boundary_context \<Rightarrow> (pystr, send_boundary_verification) result" where
  "verify_send_boundary attempt context =
    (let applicability = resolve_broker_applicability (sx_transport_nature context) context
     in case judge_items attempt context applicability send_verify_items of
       Inl e \<Rightarrow> Inl e
     | Inr judged \<Rightarrow> Inr (verification_of attempt applicability judged))"

text \<open>Whether the outbound scalars are those of the construction.\<close>

definition outbound_bound :: "send_boundary_context \<Rightarrow> bool" where
  "outbound_bound context =
    (case sx_construction context of
       None \<Rightarrow> False
     | Some c \<Rightarrow>
         (case cn_command c of
            None \<Rightarrow> False
          | Some command \<Rightarrow>
              (case (sx_outbound_quantity context, qd_quantity (cn_derivation c),
                  sx_outbound_price context, qd_price (cn_derivation c)) of
                 (Some q, Some dq, Some p, Some dp) \<Rightarrow>
                   if \<not> deq q dq then False
                   else if \<not> deq p dp then False
                   else (case (command_axis_value command AX_SIDE, sx_outbound_side context) of
                       (Some declared, Some side) \<Rightarrow>
                         if declared \<noteq> side then False
                         else (case (Option.bind (sx_egress_request context)
                               (\<lambda>r. rx_canonical_command_digest (ar_content r)), ar_canonical_digest command) of
                             (Some r, Some d) \<Rightarrow> r = d | _ \<Rightarrow> False)
                     | _ \<Rightarrow> False)
               | _ \<Rightarrow> False)))"

definition item16_obligation :: "send_boundary_verification \<Rightarrow> int option \<times> bool" where
  "item16_obligation verification =
    (case find (\<lambda>v. vv_item v = VI_CURRENTNESS) (bv_verdicts verification) of
       None \<Rightarrow> (None, False)
     | Some v \<Rightarrow> (vv_preserved_worst_credible_capacity v, vv_preserved_obligation_magnitude_unknown v))"

section \<open>Every item is judged\<close>

lemmas item_lists = realized_items_def provisional_items_def deferred_items_def

lemma item_verdict_sel [simp]:
  "vv_item (item_verdict i ou n nv p m) = i" "vv_outcome (item_verdict i ou n nv p m) = ou"
  "vv_disposition (item_verdict i ou n nv p m) = disposition_of i"
  "vv_preserved_worst_credible_capacity (item_verdict i ou n nv p m) = p"
  "vv_preserved_obligation_magnitude_unknown (item_verdict i ou n nv p m) = m"
  by (simp_all add: item_verdict_def)

lemma deferred_disposition [simp]: "disposition_of i = DEFERRED_APPLICABILITY \<longleftrightarrow> i \<in> set deferred_items"
  by (cases i) (simp_all add: disposition_of_def item_lists)

lemma all_items [simp]: "i \<in> set send_verify_items"
  by (cases i) (simp_all add: send_verify_items_def)

lemma plain_ok [simp]: "ou \<noteq> NOT_APPLICABLE \<Longrightarrow> verdict_ok (item_verdict i ou n nv None False)"
  by (simp add: verdict_ok_def)

lemma result_native_sel [simp]:
  "vv_item (result_native r ou) = VI_ORDER_CONSTRUCTION" "vv_outcome (result_native r ou) = ou"
  "ou \<noteq> NOT_APPLICABLE \<Longrightarrow> verdict_ok (result_native r ou)"
  by (simp_all add: result_native_def)

lemma match_identities_applicable [simp]: "match_identities ps \<noteq> NOT_APPLICABLE"
  by (induction ps rule: match_identities.induct) (auto split: option.splits)

lemmas check_defs =
  check_capability_def check_identities_def check_commitment_epoch_def check_allowance_def check_venue_def
  venue_generation_item_verdict_def check_construction_def check_approval_def check_action_flow_def
  check_actual_outbound_def

lemma check_currentness_ok: "vv_item (check_currentness c) = VI_CURRENTNESS \<and> verdict_ok (check_currentness c)"
  by (simp add: check_currentness_def Let_def verdict_ok_def unknown_preserves_capacity_def)

lemma item_check_ok:
  assumes "item_check i a c z = Some v"
  shows "vv_item v = i \<and> verdict_ok v"
  using assms check_currentness_ok[of c]
  by (cases i) (auto simp: check_defs Let_def split: option.splits)

lemma judge_item_total: "\<exists>v. judge_item a c z i = Inr v \<and> vv_item v = i \<and> verdict_ok v"
proof (cases "i \<in> set deferred_items")
  case True
  then show ?thesis
    by (auto simp: judge_item_def deferred_item_verdict_def Let_def verdict_ok_def
        split: option.splits bool.splits)
next
  case False
  then obtain v where v: "item_check i a c z = Some v" by (cases i) (simp_all add: deferred_items_def)
  with False item_check_ok[OF v] show ?thesis by (simp add: judge_item_def)
qed

lemma judge_items_total:
  "\<exists>vs. judge_items a c z is = Inr vs \<and> map vv_item vs = is \<and> list_all verdict_ok vs \<and>
    (\<forall>v \<in> set vs. judge_item a c z (vv_item v) = Inr v)"
proof (induction "is")
  case (Cons i "is")
  obtain v where "judge_item a c z i = Inr v" "vv_item v = i" "verdict_ok v"
    using judge_item_total[of a c z i] by auto
  with Cons show ?case by auto
qed simp

abbreviation applicability_of :: "send_boundary_context \<Rightarrow> broker_applicability" where
  "applicability_of c \<equiv> resolve_broker_applicability (sx_transport_nature c) c"

text \<open>
  The verify list is always judged whole: the verification of any attempt against any context
  returns, with one verdict for each of the seventeen items in their order, each of which its validator
  accepts; it admits exactly when every verdict admits and the applicability is established, and
  otherwise it names why it stopped.
\<close>

lemma verification_total:
  "\<exists>v. verify_send_boundary a c = Inr v \<and> map vv_item (bv_verdicts v) = send_verify_items \<and>
    list_all verdict_ok (bv_verdicts v) \<and> bv_attempt_id v = at_attempt_id a \<and>
    bv_applicability v = applicability_of c \<and>
    (\<forall>w \<in> set (bv_verdicts v). judge_item a c (applicability_of c) (vv_item w) = Inr w) \<and>
    (bv_admitted v = Some True \<longleftrightarrow> applicability_of c \<noteq> APPLICABILITY_UNKNOWN \<and>
      (\<forall>w \<in> set (bv_verdicts v). vv_outcome w \<in> {SATISFIED, NOT_APPLICABLE})) \<and>
    (bv_admitted v \<noteq> Some True \<longrightarrow> bv_halt_reason v \<noteq> None)"
proof -
  obtain vs where vs: "judge_items a c (applicability_of c) send_verify_items = Inr vs"
    "map vv_item vs = send_verify_items" "list_all verdict_ok vs"
    "\<forall>v \<in> set vs. judge_item a c (applicability_of c) (vv_item v) = Inr v"
    using judge_items_total[of a c "applicability_of c" send_verify_items] by auto
  have whole: "\<not> (set (map vv_item vs) \<noteq> set send_verify_items \<or> length vs \<noteq> length send_verify_items)"
    using vs(2) by (metis length_map)
  have inr: "verify_send_boundary a c = Inr (verification_of a (applicability_of c) vs)"
    by (simp add: verify_send_boundary_def vs(1))
  show ?thesis
  proof (cases "find (\<lambda>v. vv_outcome v \<notin> set admitting_verify_outcomes) vs")
    case None
    then have all: "\<forall>w \<in> set vs. vv_outcome w \<in> {SATISFIED, NOT_APPLICABLE}"
      by (auto simp: find_None_iff admitting_verify_outcomes_def)
    show ?thesis
      unfolding inr verification_of_def Let_def if_not_P[OF whole] None option.case
      using vs all by auto
  next
    case (Some w)
    then have "w \<in> set vs \<and> vv_outcome w \<notin> {SATISFIED, NOT_APPLICABLE}"
      by (auto simp: find_Some_iff admitting_verify_outcomes_def)
    then show ?thesis
      unfolding inr verification_of_def Let_def if_not_P[OF whole] Some option.case
      using vs by auto
  qed
qed

lemma admitted_iff:
  assumes "verify_send_boundary a c = Inr v"
  shows "bv_admitted v = Some True \<longleftrightarrow> applicability_of c \<noteq> APPLICABILITY_UNKNOWN \<and>
    (\<forall>i. \<exists>w. judge_item a c (applicability_of c) i = Inr w \<and> vv_outcome w \<in> {SATISFIED, NOT_APPLICABLE})"
proof -
  have v: "map vv_item (bv_verdicts v) = send_verify_items"
    "\<forall>w \<in> set (bv_verdicts v). judge_item a c (applicability_of c) (vv_item w) = Inr w"
    "bv_admitted v = Some True \<longleftrightarrow> applicability_of c \<noteq> APPLICABILITY_UNKNOWN \<and>
      (\<forall>w \<in> set (bv_verdicts v). vv_outcome w \<in> {SATISFIED, NOT_APPLICABLE})"
    using verification_total[of a c] assms by auto
  have items: "\<exists>w \<in> set (bv_verdicts v). vv_item w = i" for i
    using all_items[of i] unfolding v(1)[symmetric] by auto
  show ?thesis
    unfolding v(3)
  proof (intro conj_cong refl iffI allI ballI)
    fix i assume "\<forall>w \<in> set (bv_verdicts v). vv_outcome w \<in> {SATISFIED, NOT_APPLICABLE}"
    then show "\<exists>w. judge_item a c (applicability_of c) i = Inr w \<and> vv_outcome w \<in> {SATISFIED, NOT_APPLICABLE}"
      using items[of i] v(2) by blast
  next
    fix w assume "\<forall>i. \<exists>w. judge_item a c (applicability_of c) i = Inr w \<and> vv_outcome w \<in> {SATISFIED, NOT_APPLICABLE}"
      "w \<in> set (bv_verdicts v)"
    then show "vv_outcome w \<in> {SATISFIED, NOT_APPLICABLE}" using v(2) by (metis sum.inject(2))
  qed
qed

section \<open>What an admission rests on\<close>

abbreviation admits :: "verify_item_verdict \<Rightarrow> bool" where
  "admits v \<equiv> vv_outcome v \<in> {SATISFIED, NOT_APPLICABLE}"

text \<open>A nonce no prior claim carries.\<close>

definition unclaimed :: "pystr option \<Rightarrow> claim_observation list \<Rightarrow> bool" where
  "unclaimed nonce claims = (nonce \<noteq> None \<and> nonce \<notin> co_nonce ` set claims)"

lemma single_use_unclaimed:
  "capability_and_permit_single_use n p claims who d \<longleftrightarrow>
    unclaimed n claims \<and> unclaimed p claims \<and> who \<noteq> None \<and> d \<noteq> None"
  by (force simp: capability_and_permit_single_use_def unclaimed_def list_ex_iff)

lemma capability_admits:
  "admits (check_capability c) \<longleftrightarrow>
    Option.bind (sx_transmission_capability c) tc_capability_id \<noteq> None \<and>
    unclaimed (sx_capability_nonce c) (sx_prior_claims c) \<and>
    unclaimed (sx_action_flow_permit_nonce c) (sx_prior_claims c) \<and>
    sx_principal c \<noteq> None \<and> sx_request_digest c \<noteq> None"
  by (auto simp: check_capability_def adapters_admit_iff single_use_unclaimed)

text \<open>The first item reads nothing of a capability but its identity.\<close>

lemma capability_fields_unread:
  "tc_capability_id t' = tc_capability_id t \<Longrightarrow>
    check_capability (c\<lparr>sx_transmission_capability := Some t'\<rparr>) =
      check_capability (c\<lparr>sx_transmission_capability := Some t\<rparr>)"
  by (simp add: check_capability_def adapters_admit_iff)

lemma match_identities_iff:
  "match_identities ps = SATISFIED \<longleftrightarrow> (\<forall>(l, r) \<in> set ps. l = r \<and> (\<exists>s. r = Some s \<and> \<not> blank s))"
  by (induction ps rule: match_identities.induct) (auto split: option.splits)

lemma identities_admit:
  "admits (check_identities a c) \<longleftrightarrow>
    sx_reservation_attempt_id c = Some (at_attempt_id a) \<and>
    sx_reservation_conformance_proof_digest c = Some (at_conformance_proof_digest a) \<and>
    sx_reservation_action_flow_permit_identity c = Some (at_action_flow_permit_identity a) \<and>
    \<not> blank (at_attempt_id a) \<and> \<not> blank (at_conformance_proof_digest a) \<and>
    \<not> blank (at_action_flow_permit_identity a)"
  unfolding check_identities_def item_verdict_sel insert_iff match_identities_iff
  by (auto simp del: match_identities.simps)

lemma epoch_admits: "admits (check_commitment_epoch c) \<longleftrightarrow> sx_commitment_epoch_current c = Some True"
  by (simp add: check_commitment_epoch_def)

lemma allowance_admits:
  "admits (check_allowance c z) \<longleftrightarrow>
    sx_account_instrument_action_allowed c = Some True \<and> sx_max_quantity_within_allowance c = Some True \<and>
    (if z = NON_BROKER_SYNTHETIC
     then environment_binding_ok (sx_evidence_environment c) (sx_scope_environment c) (sx_environment_inherited c)
     else mock_class_bound_to_profile c \<or> profile_admissibility c = ADMISSIBLE)"
  by (simp add: check_allowance_def Let_def)

lemma fold_admissible:
  "fold_venue_admissibility phase action snapshot policy shape constraints = OA_ADMISSIBLE \<longleftrightarrow>
    (\<exists>a. action = Some a \<and> session_phase_admits phase a snapshot policy = OA_ADMISSIBLE \<and>
      order_shape_admissible shape constraints = OA_ADMISSIBLE)"
  by (auto simp: fold_venue_admissibility_def Let_def split: option.splits)

abbreviation venue_now :: "send_boundary_context \<Rightarrow> order_admissibility_result" where
  "venue_now c \<equiv> fold_venue_admissibility (sx_observed_session_phase c) (sx_action_class c) (sx_venue_snapshot c)
    (sx_venue_policy c) (sx_order_shape c) (sx_venue_shape_constraints c)"

lemma venue_admits:
  "admits (check_venue c) \<longleftrightarrow> venue_now c = OA_ADMISSIBLE \<and>
    (\<exists>d. sx_venue_decision c = Some d \<and> ad_result (ar_content d) = Some OA_ADMISSIBLE)"
  by (auto simp: check_venue_def Let_def split: option.splits)

lemma venue_generation_admits:
  "admits (venue_generation_item_verdict c) \<longleftrightarrow>
    sx_session_facts_current c = Some True \<and> sx_tradability_facts_current c = Some True \<and>
    sx_account_facts_current c = Some True \<and> sx_broker_constraint_generation_current c = Some True"
  by (auto simp: venue_generation_item_verdict_def venue_session_account_facts_current_def Let_def)

lemma construction_admits:
  "admits (check_construction c) \<longleftrightarrow>
    (\<exists>k. sx_construction c = Some k \<and> cn_command k \<noteq> None \<and> cn_conformance_result k = Some CONFORMANT \<and>
      cn_numerical_result k = Some CONFORMANT \<and> cn_no_silent_widening_ok k = Some True \<and>
      mutation_fence_holds (cn_command k) (sx_conformance_proof c))"
  by (auto simp: check_construction_def split: option.splits)

lemma approval_admits:
  "admits (check_approval c) \<longleftrightarrow> sx_approval_consumed_for_this_intent c = Some True \<and>
    (\<exists>k i d. sx_construction c = Some k \<and> cn_intent k = Some i \<and> ar_canonical_digest i = Some d \<and>
      sx_approval_intent_binding_digest c = Some d)"
  by (cases "sx_construction c"; cases "sx_approval_intent_binding_digest c")
    (auto simp: check_approval_def Let_def split: option.splits bind_split)

lemma action_flow_admits:
  "admits (check_action_flow a c) \<longleftrightarrow>
    sx_action_flow_permit_identity c = Some (at_action_flow_permit_identity a) \<and>
    \<not> blank (at_action_flow_permit_identity a) \<and> sx_action_flow_commitment_current c = Some True"
  by (auto simp: check_action_flow_def split: option.splits)

lemma currentness_admits:
  "admits (check_currentness c) \<longleftrightarrow> sx_restrictive_latch_state c = Some CLEAR \<and>
    proof_admissible (sx_egress_currentness_proof c) \<and> sx_egress_currentness_result c = Some CURRENT"
proof -
  have "proof_admissible p \<Longrightarrow> proof_structurally_complete p" for p
    by (simp add: proof_admissible_def split: if_splits)
  then show ?thesis
    by (auto simp: check_currentness_def Let_def adapters_admit_iff monotonic_denial_no_revival_def)
qed

lemma outbound_admits:
  "admits (check_actual_outbound c) \<longleftrightarrow>
    exact_binding_holds (sx_egress_request c) (sx_quorum_commit_certificate c) (sx_authorized_coordinates c)
      (map_option conformance_result_str (Option.bind (sx_construction c) cn_conformance_result))
      (sx_capsule_egress_request_digest c)"
  by (simp add: check_actual_outbound_def Let_def)

lemma deferred_admits:
  "(\<exists>w. deferred_item_verdict i z c = Inr w \<and> admits w) \<longleftrightarrow> i \<in> set deferred_items \<and>
    (z = NON_BROKER_SYNTHETIC \<or> deferred_item_flag i c = Some True)"
  by (auto simp: deferred_item_verdict_def Let_def verdict_ok_def split: option.splits bool.splits)

text \<open>The safety mesh: six facts of the services that own them.\<close>

definition mesh_clear :: "send_boundary_context \<Rightarrow> bool" where
  "mesh_clear c =
    (sx_safety_authority_epoch_current c = Some True \<and> sx_live_scope_valid c = Some True \<and>
     sx_safety_profile_current c = Some True \<and> sx_deviation_clear c = Some True \<and>
     sx_incident_clear c = Some True \<and> sx_monitoring_clear c = Some True)"

lemma judged_iff:
  "(\<exists>w. judge_item a c z i = Inr w \<and> admits w) \<longleftrightarrow>
    (if i \<in> set deferred_items then z = NON_BROKER_SYNTHETIC \<or> deferred_item_flag i c = Some True
     else (\<exists>w. item_check i a c z = Some w \<and> admits w))"
  using deferred_admits[of i z c] by (auto simp: judge_item_def split: option.splits)

lemma all_items_iff: "(\<forall>i. P i) \<longleftrightarrow>
  P VI_TRANSMISSION_CAPABILITY \<and> P VI_INTENT_AND_RESERVATION_IDENTITIES \<and> P VI_COMMITMENT_EPOCH \<and>
  P VI_SAFETY_AUTHORITY_EPOCH \<and> P VI_LIVE_SCOPE \<and> P VI_ALLOWANCE \<and> P VI_HARD_SAFETY_ENVELOPE_VERSIONS \<and>
  P VI_SAFETY_DEVIATION \<and> P VI_SAFETY_INCIDENT \<and> P VI_SAFETY_MONITORING \<and> P VI_VENUE_DECISION \<and>
  P VI_VENUE_GENERATION \<and> P VI_ORDER_CONSTRUCTION \<and> P VI_TRADING_APPROVAL \<and> P VI_ACTION_FLOW \<and>
  P VI_CURRENTNESS \<and> P VI_ACTUAL_OUTBOUND_CONFORMANCE"
proof (intro iffI allI)
  fix i assume "P VI_TRANSMISSION_CAPABILITY \<and> P VI_INTENT_AND_RESERVATION_IDENTITIES \<and> P VI_COMMITMENT_EPOCH \<and>
    P VI_SAFETY_AUTHORITY_EPOCH \<and> P VI_LIVE_SCOPE \<and> P VI_ALLOWANCE \<and> P VI_HARD_SAFETY_ENVELOPE_VERSIONS \<and>
    P VI_SAFETY_DEVIATION \<and> P VI_SAFETY_INCIDENT \<and> P VI_SAFETY_MONITORING \<and> P VI_VENUE_DECISION \<and>
    P VI_VENUE_GENERATION \<and> P VI_ORDER_CONSTRUCTION \<and> P VI_TRADING_APPROVAL \<and> P VI_ACTION_FLOW \<and>
    P VI_CURRENTNESS \<and> P VI_ACTUAL_OUTBOUND_CONFORMANCE"
  then show "P i" by (cases i) simp_all
qed simp

lemma all_judged_iff:
  "(\<forall>i. \<exists>w. judge_item a c z i = Inr w \<and> admits w) \<longleftrightarrow>
    (z = NON_BROKER_SYNTHETIC \<or> mesh_clear c) \<and> admits (check_capability c) \<and> admits (check_identities a c) \<and>
    admits (check_commitment_epoch c) \<and> admits (check_allowance c z) \<and> admits (check_venue c) \<and>
    admits (venue_generation_item_verdict c) \<and> admits (check_construction c) \<and> admits (check_approval c) \<and>
    admits (check_action_flow a c) \<and> admits (check_currentness c) \<and> admits (check_actual_outbound c)"
proof -
  have some: "(\<exists>w. Some v = Some w \<and> admits w) \<longleftrightarrow> admits v" for v :: verify_item_verdict by blast
  have mem: "i \<in> set deferred_items \<longleftrightarrow> i = VI_SAFETY_AUTHORITY_EPOCH \<or> i = VI_LIVE_SCOPE \<or>
      i = VI_HARD_SAFETY_ENVELOPE_VERSIONS \<or> i = VI_SAFETY_DEVIATION \<or> i = VI_SAFETY_INCIDENT \<or>
      i = VI_SAFETY_MONITORING" for i
    by (simp add: deferred_items_def)
  have shape: "p1 \<and> p2 \<and> p3 \<and> (n \<or> m1) \<and> (n \<or> m2) \<and> p4 \<and> (n \<or> m3) \<and> (n \<or> m4) \<and> (n \<or> m5) \<and>
      (n \<or> m6) \<and> r \<longleftrightarrow> (n \<or> m1 \<and> m2 \<and> m3 \<and> m4 \<and> m5 \<and> m6) \<and> p1 \<and> p2 \<and> p3 \<and> p4 \<and> r"
    for p1 p2 p3 p4 n m1 m2 m3 m4 m5 m6 r by (cases n) (simp_all add: conj_ac)
  show ?thesis
    unfolding judged_iff all_items_iff mesh_clear_def mem item_check.simps deferred_item_flag.simps some
    by (simp only: send_verify_item.distinct simp_thms if_True if_False) (rule shape)
qed


text \<open>
  C5: the send boundary admits an attempt exactly when every fact it names is positively established:
  the applicability of the transport, the safety mesh unless the transport reaches no broker, an issued
  capability with two unclaimed nonces, the identities of the reservation, the allowance, the venue's
  present answer and its decision, a conformant command fenced by its proof, the approval of this
  intent, the permit of this attempt, a current proof under an open latch, and the exact outbound
  binding.
\<close>

theorem admission_is_exact:
  "\<exists>v. verify_send_boundary a c = Inr v \<and>
    (bv_admitted v = Some True \<longleftrightarrow>
      applicability_of c \<noteq> APPLICABILITY_UNKNOWN \<and>
      (applicability_of c = NON_BROKER_SYNTHETIC \<or> mesh_clear c) \<and>
      Option.bind (sx_transmission_capability c) tc_capability_id \<noteq> None \<and>
      unclaimed (sx_capability_nonce c) (sx_prior_claims c) \<and>
      unclaimed (sx_action_flow_permit_nonce c) (sx_prior_claims c) \<and>
      sx_principal c \<noteq> None \<and> sx_request_digest c \<noteq> None \<and>
      sx_reservation_attempt_id c = Some (at_attempt_id a) \<and>
      sx_reservation_conformance_proof_digest c = Some (at_conformance_proof_digest a) \<and>
      sx_reservation_action_flow_permit_identity c = Some (at_action_flow_permit_identity a) \<and>
      \<not> blank (at_attempt_id a) \<and> \<not> blank (at_conformance_proof_digest a) \<and>
      \<not> blank (at_action_flow_permit_identity a) \<and>
      sx_commitment_epoch_current c = Some True \<and>
      sx_account_instrument_action_allowed c = Some True \<and> sx_max_quantity_within_allowance c = Some True \<and>
      (if applicability_of c = NON_BROKER_SYNTHETIC
       then environment_binding_ok (sx_evidence_environment c) (sx_scope_environment c) (sx_environment_inherited c)
       else mock_class_bound_to_profile c \<or> profile_admissibility c = ADMISSIBLE) \<and>
      venue_now c = OA_ADMISSIBLE \<and>
      (\<exists>d. sx_venue_decision c = Some d \<and> ad_result (ar_content d) = Some OA_ADMISSIBLE) \<and>
      sx_session_facts_current c = Some True \<and> sx_tradability_facts_current c = Some True \<and>
      sx_account_facts_current c = Some True \<and> sx_broker_constraint_generation_current c = Some True \<and>
      (\<exists>k. sx_construction c = Some k \<and> cn_command k \<noteq> None \<and> cn_conformance_result k = Some CONFORMANT \<and>
        cn_numerical_result k = Some CONFORMANT \<and> cn_no_silent_widening_ok k = Some True \<and>
        mutation_fence_holds (cn_command k) (sx_conformance_proof c)) \<and>
      sx_approval_consumed_for_this_intent c = Some True \<and>
      (\<exists>k i d. sx_construction c = Some k \<and> cn_intent k = Some i \<and> ar_canonical_digest i = Some d \<and>
        sx_approval_intent_binding_digest c = Some d) \<and>
      sx_action_flow_permit_identity c = Some (at_action_flow_permit_identity a) \<and>
      sx_action_flow_commitment_current c = Some True \<and> sx_restrictive_latch_state c = Some CLEAR \<and>
      proof_admissible (sx_egress_currentness_proof c) \<and> sx_egress_currentness_result c = Some CURRENT \<and>
      exact_binding_holds (sx_egress_request c) (sx_quorum_commit_certificate c) (sx_authorized_coordinates c)
        (map_option conformance_result_str (Option.bind (sx_construction c) cn_conformance_result))
        (sx_capsule_egress_request_digest c))"
  (is "\<exists>v. _ v \<and> (_ v \<longleftrightarrow> ?facts)")
proof -
  obtain v where v: "verify_send_boundary a c = Inr v" using verification_total[of a c] by blast
  show ?thesis
  proof (intro exI[of _ v] conjI v)
    show "bv_admitted v = Some True \<longleftrightarrow> ?facts"
      unfolding admitted_iff[OF v] all_judged_iff capability_admits identities_admit epoch_admits
        allowance_admits venue_admits venue_generation_admits construction_admits approval_admits
        action_flow_admits currentness_admits outbound_admits
      by (intro iffI; elim conjE; intro conjI; assumption)
  qed
qed

end
