(* ===== verification/Order_Sizing.thy ===== *)
theory Order_Sizing
  imports Py_Division Send_Boundary
begin

text \<open>
  The deterministic order size of \<^verbatim>\<open>tos/egressgw/construction.py\<close> and the records it reads
  (\<^verbatim>\<open>records.py\<close>): the sizing bound of a proposed envelope, the admitted price, the quantity
  constraint of the venue.  A denial carries the name of the check instead of its text; an exception of
  the decimal context is an error.  Every decimal is finite here, so the check of the raw size for
  infinities is void.  The main lemmas: a derived size is positive, a whole number of the venue's lots,
  inside both ranges, and exceeds neither the risk budget nor the notional ceiling by more than the
  rounding of 28 digits.
\<close>

section \<open>Records\<close>

record sizing_bound =
  sb_risk_budget :: "pydec option"
  sb_per_unit_risk :: "pydec option"
  sb_lot_size :: "pydec option"
  sb_lot_rounding :: "lot_rounding_policy option"
  sb_min_quantity :: "pydec option"
  sb_max_quantity :: "pydec option"
  sb_max_notional :: "pydec option"
  sb_quantity_unit :: "quantity_unit_kind option"
  sb_admitted_quantity_bases :: "pystr list"

record admitted_price_observation =
  po_source :: "pystr option"
  po_value :: "pydec option"
  po_snapshot_digest :: "pystr option"
  po_value_payload_digest :: "pystr option"

record venue_quantity_constraint =
  vq_lot_size :: "pydec option"
  vq_min_quantity :: "pydec option"
  vq_max_quantity :: "pydec option"
  vq_quantity_unit :: "quantity_unit_kind option"

record effect_dimension_spec =
  es_dimension_id :: "pystr option"
  es_basis :: "effect_basis option"
  es_unit :: "pystr option"
  es_scale :: "pystr option"

record proposed_construction_envelope =
  pe_envelope_generation :: "int option"
  pe_policy_binding_id :: "pystr option"
  pe_authorized_axis_bindings :: "axis_binding list"
  pe_sizing_bound :: "sizing_bound option"
  pe_effect_dimensions :: "effect_dimension_spec list"

definition derived_axes :: "conformance_axis list" where
  "derived_axes = [AX_QUANTITY, AX_PRICE, AX_UNIT]"

text \<open>The validator \<^verbatim>\<open>_no_derived_axis_is_pre_declared\<close>.\<close>

definition no_derived_axis_is_pre_declared :: "proposed_construction_envelope \<Rightarrow> bool" where
  "no_derived_axis_is_pre_declared e =
    list_all (\<lambda>b. case ab_axis b of None \<Rightarrow> True | Some a \<Rightarrow> a \<notin> set derived_axes) (pe_authorized_axis_bindings e)"

section \<open>The price\<close>

text \<open>\<^verbatim>\<open>_exact_admitted_int_value\<close>: the one value of the field, if it is an int and no bool.\<close>

definition exact_admitted_int_value ::
  "context_value_view \<Rightarrow> pystr \<Rightarrow> int option \<times> context_value option" where
  "exact_admitted_int_value view field_key =
    (if vv_values view = [] then (None, None)
     else (case filter (\<lambda>v. cv_field_key v = field_key) (vv_values view) of
         [admitted] \<Rightarrow> (case cv_value admitted of SInt n \<Rightarrow> (Some n, Some admitted) | _ \<Rightarrow> (None, None))
       | _ \<Rightarrow> (None, None)))"

definition admitted_price_from_view :: "context_value_view \<Rightarrow> pystr \<Rightarrow> admitted_price_observation" where
  "admitted_price_from_view view field_key =
    (if vv_values view = [] then
       \<lparr>po_source = None, po_value = None, po_snapshot_digest = None, po_value_payload_digest = None\<rparr>
     else
       (let lineage = \<lparr>po_source = Some CAPSULE_CONTEXT_SOURCE, po_value = None,
              po_snapshot_digest = Some (vv_snapshot_canonical_digest view), po_value_payload_digest = None\<rparr>
        in case exact_admitted_int_value view field_key of
             (Some n, Some admitted) \<Rightarrow>
               lineage\<lparr>po_value := Some (normalize_decimal (Dec n 0)),
                 po_value_payload_digest := Some (cv_payload_digest admitted)\<rparr>
           | _ \<Rightarrow> lineage))"

definition admitted_shape_price_from_view :: "context_value_view \<Rightarrow> pystr \<Rightarrow> int option" where
  "admitted_shape_price_from_view view field_key = fst (exact_admitted_int_value view field_key)"

section \<open>The size\<close>

definition DERIVATION_RULE :: pystr where
  "DERIVATION_RULE = ''risk_budget / per_unit_risk under the authored lot policy''"

definition FLAT_DERIVATION_RULE :: pystr where
  "FLAT_DERIVATION_RULE = ''observed held position under the authored lot policy''"

definition denied_derivation :: "pystr \<Rightarrow> quantity_derivation" where
  "denied_derivation reason =
    \<lparr>qd_outcome = DERIVATION_DENIED, qd_quantity = None, qd_price = None, qd_quantity_unit = None,
     qd_rule = None, qd_denial_reason = Some reason\<rparr>"

abbreviation size_denied :: "pystr \<Rightarrow> (pystr, quantity_derivation) result" where
  "size_denied reason \<equiv> Inr (denied_derivation reason)"

text \<open>What a derivation needs before it computes: the first check that fails, by name.\<close>

definition sizing_inputs_denial ::
  "pystr option \<Rightarrow> sizing_bound \<Rightarrow> admitted_price_observation option \<Rightarrow> pydec option \<Rightarrow> pystr option" where
  "sizing_inputs_denial quantity_basis bound price held_position =
    (case quantity_basis of
       None \<Rightarrow> Some ''no quantity_basis''
     | Some basis \<Rightarrow>
         if blank basis then Some ''no quantity_basis''
         else if sb_admitted_quantity_bases bound = [] then Some ''no quantity basis is admitted''
         else if basis \<notin> set (sb_admitted_quantity_bases bound) then Some ''quantity_basis not admitted''
         else (case price of
             None \<Rightarrow> Some ''no price observation''
           | Some p \<Rightarrow>
               if po_source p \<noteq> Some CAPSULE_CONTEXT_SOURCE then Some ''price source''
               else if blank (case po_snapshot_digest p of None \<Rightarrow> [] | Some d \<Rightarrow> d) then Some ''no snapshot lineage''
               else if \<not> positive_decimal (po_value p) then Some ''no positive price''
               else if basis = FLAT_QUANTITY_BASIS then
                 (if held_position = None then Some ''no held position''
                  else if \<not> positive_decimal held_position then Some ''nothing to close'' else None)
               else if \<not> positive_decimal (sb_risk_budget bound) then Some ''no positive risk budget''
               else if \<not> positive_decimal (sb_per_unit_risk bound) then Some ''no positive per-unit risk''
               else None))"

definition sizing_limits_denial ::
  "sizing_bound \<Rightarrow> venue_quantity_constraint option \<Rightarrow> pystr option" where
  "sizing_limits_denial bound venue =
    (if \<not> positive_decimal (sb_lot_size bound) then Some ''no positive lot size''
     else if sb_lot_rounding bound = None then Some ''no lot policy''
     else if sb_quantity_unit bound = None then Some ''no quantity unit''
     else if sb_min_quantity bound = None \<or> sb_max_quantity bound = None then Some ''no quantity floor or ceiling''
     else (case venue of
         None \<Rightarrow> Some ''no venue quantity constraint''
       | Some v \<Rightarrow>
           if \<not> positive_decimal (vq_lot_size v) \<or> vq_min_quantity v = None \<or> vq_max_quantity v = None \<or>
             vq_quantity_unit v = None then Some ''incomplete venue quantity constraint''
           else if vq_quantity_unit v \<noteq> sb_quantity_unit bound then Some ''quantity unit disagreement''
           else None))"

text \<open>The lot policy: the raw size itself when it is a multiple of the lot, or the whole lots below it.\<close>

definition lot_quantity :: "lot_rounding_policy \<Rightarrow> pydec \<Rightarrow> pydec \<Rightarrow> (pystr, pydec option) result" where
  "lot_quantity policy raw lot =
    (case policy of
       EXACT_MULTIPLE_REQUIRED \<Rightarrow>
         (case dmodulo raw lot of
            Inl e \<Rightarrow> Inl e | Inr m \<Rightarrow> if \<not> deq m dzero then Inr None else Inr (Some raw))
     | FLOOR_TO_LOT \<Rightarrow>
         (case dfloordiv raw lot of Inl e \<Rightarrow> Inl e | Inr n \<Rightarrow> Inr (Some (dmul n lot))))"

text \<open>The checks of a size, and the derivation that passes them.\<close>

definition bounded_size ::
  "sizing_bound \<Rightarrow> venue_quantity_constraint \<Rightarrow> pydec \<Rightarrow> pydec \<Rightarrow> pydec \<Rightarrow> pydec \<Rightarrow> pydec \<Rightarrow> pydec \<Rightarrow> bool \<Rightarrow> pydec \<Rightarrow>
    (pystr, quantity_derivation) result" where
  "bounded_size bound venue min_q max_q venue_lot venue_min venue_max price is_flat quantity =
    (if \<not> positive_decimal (Some quantity) then size_denied ''non-positive size''
     else if dlt quantity min_q \<or> dlt max_q quantity then size_denied ''outside the authorized envelope''
     else if dlt quantity venue_min \<or> dlt venue_max quantity then size_denied ''outside the venue constraint''
     else (case dmodulo quantity venue_lot of
         Inl e \<Rightarrow> Inl e
       | Inr m \<Rightarrow>
           if \<not> deq m dzero then size_denied ''outside the venue constraint''
           else if (case sb_max_notional bound of None \<Rightarrow> False | Some c \<Rightarrow> dlt c (dmul quantity price)) then
             size_denied ''notional ceiling''
           else Inr \<lparr>qd_outcome = DERIVED, qd_quantity = Some (normalize_decimal quantity),
             qd_price = Some (normalize_decimal price), qd_quantity_unit = sb_quantity_unit bound,
             qd_rule = Some (if is_flat then FLAT_DERIVATION_RULE else DERIVATION_RULE),
             qd_denial_reason = None\<rparr>))"

definition derive_order_size ::
  "pystr option \<Rightarrow> proposed_construction_envelope option \<Rightarrow> admitted_price_observation option \<Rightarrow>
    venue_quantity_constraint option \<Rightarrow> pydec option \<Rightarrow> (pystr, quantity_derivation) result" where
  "derive_order_size quantity_basis envelope price venue_constraint held_position =
    (case envelope of
       None \<Rightarrow> size_denied ''no envelope''
     | Some e \<Rightarrow>
         (case pe_sizing_bound e of
            None \<Rightarrow> size_denied ''no sizing bound''
          | Some bound \<Rightarrow>
              (case sizing_inputs_denial quantity_basis bound price held_position of
                 Some reason \<Rightarrow> size_denied reason
               | None \<Rightarrow>
                   (case sizing_limits_denial bound venue_constraint of
                      Some reason \<Rightarrow> size_denied reason
                    | None \<Rightarrow>
                        (let v = the venue_constraint; is_flat = (quantity_basis = Some FLAT_QUANTITY_BASIS);
                             lot = the (sb_lot_size bound)
                         in case (if is_flat then Inr (the held_position)
                              else ddiv (the (sb_risk_budget bound)) (the (sb_per_unit_risk bound))) of
                              Inl err \<Rightarrow> Inl err
                            | Inr raw \<Rightarrow>
                                (case lot_quantity (the (sb_lot_rounding bound)) raw lot of
                                   Inl err \<Rightarrow> Inl err
                                 | Inr None \<Rightarrow> size_denied ''not a multiple of the lot''
                                 | Inr (Some quantity) \<Rightarrow>
                                     bounded_size bound v (the (sb_min_quantity bound)) (the (sb_max_quantity bound))
                                       (the (vq_lot_size v)) (the (vq_min_quantity v)) (the (vq_max_quantity v))
                                       (the (po_value (the price))) is_flat quantity))))))"

section \<open>What a derived size is\<close>

definition fits_context :: "pydec \<Rightarrow> bool" where
  "fits_context d = (\<bar>dcoeff d\<bar> < 10 ^ dec_prec)"

lemma fits_dround [simp]: "fits_context (dround d)"
  by (simp add: fits_context_def dround_coeff)

lemma fits_dmul [simp]: "fits_context (dmul a b)"
  by (simp add: dmul_def)

lemma fits_normalized: "fits_context d \<Longrightarrow> dval (normalize_decimal d) = dval d"
  by (simp add: fits_context_def dval_normalize_decimal dround_exact)

lemma ddiv_fits:
  assumes "ddiv a b = Inr r"
  shows "fits_context r"
proof (cases "dcoeff b = 0 \<or> dcoeff a = 0")
  case True
  with assms have "dcoeff r = 0" by (auto simp: ddiv_def split: if_splits)
  then show ?thesis by (simp add: fits_context_def)
next
  case False
  then have "dcoeff b \<noteq> 0" "dcoeff a \<noteq> 0" by simp_all
  with assms have "\<exists>d. r = dround d"
    unfolding ddiv_def Let_def by (simp only: if_False sum.inject) blast
  then show ?thesis by auto
qed

lemma positive_decimal_iff: "positive_decimal v \<longleftrightarrow> (\<exists>d. v = Some d \<and> 0 < dval d)"
  by (cases v) (simp_all add: positive_decimal_def dlt_iff)

text \<open>A quantity in a range both ends of which are known, and a whole number of lots.\<close>

definition within_range :: "pydec option \<Rightarrow> pydec option \<Rightarrow> pydec \<Rightarrow> bool" where
  "within_range lo hi q = (\<exists>l h. lo = Some l \<and> hi = Some h \<and> dval l \<le> dval q \<and> dval q \<le> dval h)"

definition whole_lots :: "pydec option \<Rightarrow> pydec \<Rightarrow> bool" where
  "whole_lots lot q = (\<exists>l k. lot = Some l \<and> dval q = of_int k * dval l)"

lemma lot_quantity_bound:
  assumes "lot_quantity policy raw lot = Inr (Some q)" "0 < dval raw" "0 < dval lot" "fits_context raw"
  shows "dval q \<le> dval raw * (1 + dec_ulp) \<and> fits_context q"
proof (cases policy)
  case EXACT_MULTIPLE_REQUIRED
  with assms(1) have "q = raw" by (auto simp: lot_quantity_def split: sum.splits if_splits)
  with assms show ?thesis by (simp add: dec_ulp_def algebra_simps)
next
  case FLOOR_TO_LOT
  with assms(1) obtain n where n: "dfloordiv raw lot = Inr n" "q = dmul n lot"
    by (auto simp: lot_quantity_def split: sum.splits)
  obtain k :: int where k: "0 \<le> k" "n = Dec k 0" "of_int k * dval lot \<le> dval raw"
    using dfloordiv_positive[OF n(1) assms(2,3)] by blast
  then have v: "dval n = of_int k" by (simp add: dval_def)
  have "dval q \<le> dval n * dval lot * (1 + dec_ulp)"
    unfolding n(2) by (rule dmul_relative) (use k(1) assms(3) in \<open>simp_all add: v\<close>)
  also have "\<dots> \<le> dval raw * (1 + dec_ulp)"
    using k(3) by (intro mult_right_mono) (simp_all add: v dec_ulp_def)
  finally show ?thesis by (simp add: n(2))
qed

lemma denied_not_derived [simp]: "qd_outcome (denied_derivation r) = DERIVATION_DENIED"
  by (simp add: denied_derivation_def)

lemma bounded_size_checks:
  assumes "bounded_size bound v min_q max_q venue_lot venue_min venue_max price is_flat quantity = Inr d"
    "qd_outcome d = DERIVED"
  shows "positive_decimal (Some quantity)" "\<not> dlt quantity min_q" "\<not> dlt max_q quantity"
    "\<not> dlt quantity venue_min" "\<not> dlt venue_max quantity"
    "\<exists>m. dmodulo quantity venue_lot = Inr m \<and> deq m dzero"
    "\<And>c. sb_max_notional bound = Some c \<Longrightarrow> \<not> dlt c (dmul quantity price)"
    "qd_quantity d = Some (normalize_decimal quantity)" "qd_price d = Some (normalize_decimal price)"
    "qd_quantity_unit d = sb_quantity_unit bound"
  using assms unfolding bounded_size_def
  by (auto split: if_split_asm sum.split_asm option.split_asm)

lemma notional_slack:
  assumes "\<not> dlt c (dmul q p)" "0 < dval q" "0 < dval p"
  shows "dval q * dval p \<le> dval c * (1 + 6 / 10 ^ 28)"
proof -
  have "dval q * dval p * (1 - dec_ulp) \<le> dval c"
    using dmul_relative(2)[of q p] assms by (simp add: dcompare not_less)
  then have "dval q * dval p * ((1 - dec_ulp) * (1 + 6 / 10 ^ 28)) \<le> dval c * (1 + 6 / 10 ^ 28)"
    unfolding mult.assoc[symmetric] by (rule mult_right_mono) simp
  moreover have "dval q * dval p * 1 \<le> dval q * dval p * ((1 - dec_ulp) * (1 + 6 / 10 ^ 28))"
    using assms(2,3) by (intro mult_left_mono) (simp_all add: dec_ulp_def)
  ultimately show ?thesis by simp
qed

lemma sizing_inputs_admitted:
  assumes "sizing_inputs_denial (Some basis) bound price held = None"
  shows "basis \<in> set (sb_admitted_quantity_bases bound)"
    "\<exists>x p. price = Some x \<and> po_source x = Some CAPSULE_CONTEXT_SOURCE \<and> po_value x = Some p \<and> 0 < dval p"
    "basis = FLAT_QUANTITY_BASIS \<Longrightarrow> \<exists>h. held = Some h \<and> 0 < dval h"
    "basis \<noteq> FLAT_QUANTITY_BASIS \<Longrightarrow> \<exists>r u. sb_risk_budget bound = Some r \<and> sb_per_unit_risk bound = Some u \<and>
      0 < dval r \<and> 0 < dval u"
  using assms unfolding sizing_inputs_denial_def
  by (auto simp: positive_decimal_iff split: if_split_asm option.split_asm)

lemma sizing_limits_admitted:
  assumes "sizing_limits_denial bound venue = None"
  obtains v policy lot u where "venue = Some v" "sb_lot_rounding bound = Some policy" "sb_lot_size bound = Some lot"
    "0 < dval lot" "vq_quantity_unit v = sb_quantity_unit bound" "sb_quantity_unit bound = Some u"
    "positive_decimal (vq_lot_size v)" "sb_min_quantity bound \<noteq> None" "sb_max_quantity bound \<noteq> None"
    "vq_min_quantity v \<noteq> None" "vq_max_quantity v \<noteq> None"
  using assms unfolding sizing_limits_denial_def
  by (auto simp: positive_decimal_iff split: if_split_asm option.split_asm)

text \<open>The raw size a derivation starts from.\<close>

definition raw_size :: "pystr \<Rightarrow> sizing_bound \<Rightarrow> pydec option \<Rightarrow> (pystr, pydec) result" where
  "raw_size basis bound held =
    (if basis = FLAT_QUANTITY_BASIS then Inr (the held)
     else ddiv (the (sb_risk_budget bound)) (the (sb_per_unit_risk bound)))"

lemma derived_size_cases:
  assumes "derive_order_size basis envelope price venue held = Inr d" "qd_outcome d = DERIVED"
  obtains e b v k policy lot raw quantity where "envelope = Some e" "pe_sizing_bound e = Some b" "basis = Some k"
    "venue = Some v" "sizing_inputs_denial (Some k) b price held = None" "sizing_limits_denial b (Some v) = None"
    "sb_lot_rounding b = Some policy" "sb_lot_size b = Some lot" "raw_size k b held = Inr raw"
    "lot_quantity policy raw lot = Inr (Some quantity)"
    "bounded_size b v (the (sb_min_quantity b)) (the (sb_max_quantity b)) (the (vq_lot_size v))
      (the (vq_min_quantity v)) (the (vq_max_quantity v)) (the (po_value (the price))) (k = FLAT_QUANTITY_BASIS)
      quantity = Inr d"
proof -
  obtain e b where eb: "envelope = Some e" "pe_sizing_bound e = Some b"
    and inputs: "sizing_inputs_denial basis b price held = None" and limits: "sizing_limits_denial b venue = None"
    using assms by (auto simp: derive_order_size_def split: option.split_asm)
  obtain k where k: "basis = Some k" using inputs by (cases basis) (simp_all add: sizing_inputs_denial_def)
  obtain v policy lot where v: "venue = Some v" "sb_lot_rounding b = Some policy" "sb_lot_size b = Some lot"
    using limits by (rule sizing_limits_admitted)
  from assms obtain raw quantity where
    "raw_size k b held = Inr raw" "lot_quantity policy raw lot = Inr (Some quantity)"
    "bounded_size b v (the (sb_min_quantity b)) (the (sb_max_quantity b)) (the (vq_lot_size v))
      (the (vq_min_quantity v)) (the (vq_max_quantity v)) (the (po_value (the price))) (k = FLAT_QUANTITY_BASIS)
      quantity = Inr d"
    unfolding derive_order_size_def eb option.case inputs limits k v Let_def raw_size_def option.sel option.inject
    by (auto split: if_split_asm sum.split_asm option.split_asm)
  with eb k v inputs limits show thesis using that by blast
qed

text \<open>What the raw size may amount to.\<close>

lemma raw_size_bound:
  assumes "raw_size k b held = Inr raw" "sizing_inputs_denial (Some k) b price held = None"
    "\<And>h. held = Some h \<Longrightarrow> fits_context h"
  shows "0 < dval raw" "fits_context raw"
    "k = FLAT_QUANTITY_BASIS \<Longrightarrow> held = Some raw"
    "k \<noteq> FLAT_QUANTITY_BASIS \<Longrightarrow> \<exists>r u. sb_risk_budget b = Some r \<and> sb_per_unit_risk b = Some u \<and> 0 < dval u \<and>
      0 < dval r \<and> dval raw * dval u \<le> dval r * ((1 + 1 / 10 ^ 28) * (1 + dec_ulp))"
proof -
  note inputs = sizing_inputs_admitted[OF assms(2)]
  have flat: "held = Some raw \<and> 0 < dval raw \<and> fits_context raw" if "k = FLAT_QUANTITY_BASIS"
    using inputs(3)[OF that] assms(1,3) that by (auto simp: raw_size_def)
  have risk: "\<exists>r u. sb_risk_budget b = Some r \<and> sb_per_unit_risk b = Some u \<and> 0 < dval u \<and> 0 < dval r \<and>
      dval raw * dval u \<le> dval r * ((1 + 1 / 10 ^ 28) * (1 + dec_ulp)) \<and> 0 < dval raw \<and> fits_context raw"
    if sized: "k \<noteq> FLAT_QUANTITY_BASIS"
  proof -
    obtain r u where ru: "sb_risk_budget b = Some r" "sb_per_unit_risk b = Some u" "0 < dval r" "0 < dval u"
      using inputs(4)[OF sized] by blast
    with assms(1) sized have "ddiv r u = Inr raw" by (simp add: raw_size_def)
    from ddiv_relative[OF this ru(3,4)] ddiv_fits[OF this] ru show ?thesis by blast
  qed
  show "0 < dval raw" "fits_context raw" using flat risk by blast+
  show "k = FLAT_QUANTITY_BASIS \<Longrightarrow> held = Some raw" using flat by blast
  show "k \<noteq> FLAT_QUANTITY_BASIS \<Longrightarrow> \<exists>r u. sb_risk_budget b = Some r \<and> sb_per_unit_risk b = Some u \<and> 0 < dval u \<and>
      0 < dval r \<and> dval raw * dval u \<le> dval r * ((1 + 1 / 10 ^ 28) * (1 + dec_ulp))"
    using risk by blast
qed

lemma size_within_budget:
  assumes "dval q \<le> dval raw * (1 + dec_ulp)" "0 < dval u" "0 < dval r"
    "dval raw * dval u \<le> dval r * ((1 + 1 / 10 ^ 28) * (1 + dec_ulp))"
  shows "dval q * dval u \<le> dval r * (1 + 12 / 10 ^ 28)"
proof -
  have "dval q * dval u \<le> dval raw * (1 + dec_ulp) * dval u" using assms(1,2) by (simp add: mult_right_mono)
  also have "\<dots> = dval raw * dval u * (1 + dec_ulp)" by (simp only: mult_ac)
  also have "\<dots> \<le> dval r * ((1 + 1 / 10 ^ 28) * (1 + dec_ulp)) * (1 + dec_ulp)"
    using assms(4) by (rule mult_right_mono) (simp add: dec_ulp_def)
  also have "\<dots> \<le> dval r * (1 + 12 / 10 ^ 28)"
    unfolding mult.assoc using assms(3) by (intro mult_left_mono) (simp_all add: dec_ulp_def)
  finally show ?thesis .
qed

text \<open>
  C38: a derived size stays within its bounds: it is positive and a whole number of the venue's lots, in
  the unit both name, inside the authorised and the venue's range, for an admitted basis and an admitted
  capsule price; up to the rounding of 28 digits its notional does not exceed the ceiling, the risk it
  takes does not exceed the budget, and a closing order does not exceed the position that is held.
\<close>

theorem derived_size_stays_within_bounds:
  assumes "derive_order_size basis envelope price venue held = Inr d" "qd_outcome d = DERIVED"
    "\<And>h. held = Some h \<Longrightarrow> fits_context h" "\<And>x p. price = Some x \<Longrightarrow> po_value x = Some p \<Longrightarrow> fits_context p"
  shows "\<exists>k b v x q p. basis = Some k \<and> Option.bind envelope pe_sizing_bound = Some b \<and> venue = Some v \<and>
    price = Some x \<and> po_source x = Some CAPSULE_CONTEXT_SOURCE \<and> k \<in> set (sb_admitted_quantity_bases b) \<and>
    qd_quantity d = Some q \<and> qd_price d = Some p \<and> map_option dval (po_value x) = Some (dval p) \<and>
    0 < dval q \<and> whole_lots (vq_lot_size v) q \<and>
    within_range (sb_min_quantity b) (sb_max_quantity b) q \<and> within_range (vq_min_quantity v) (vq_max_quantity v) q \<and>
    qd_quantity_unit d = sb_quantity_unit b \<and> vq_quantity_unit v = sb_quantity_unit b \<and>
    (case sb_max_notional b of None \<Rightarrow> True | Some c \<Rightarrow> dval q * dval p \<le> dval c * (1 + 6 / 10 ^ 28)) \<and>
    (if k = FLAT_QUANTITY_BASIS
     then \<exists>h. held = Some h \<and> dval q \<le> dval h * (1 + 5 / 10 ^ 28)
     else \<exists>r u. sb_risk_budget b = Some r \<and> sb_per_unit_risk b = Some u \<and>
       dval q * dval u \<le> dval r * (1 + 12 / 10 ^ 28))"
  using assms(1,2)
proof (cases rule: derived_size_cases)
  case (1 e b v k policy lot raw quantity)
  obtain x p0 where x: "price = Some x" "po_source x = Some CAPSULE_CONTEXT_SOURCE" "po_value x = Some p0" "0 < dval p0"
    and admitted: "k \<in> set (sb_admitted_quantity_bases b)"
    using sizing_inputs_admitted(1,2)[OF 1(5)] by blast
  obtain u where limits: "0 < dval lot" "vq_quantity_unit v = sb_quantity_unit b" "sb_quantity_unit b = Some u"
    "positive_decimal (vq_lot_size v)" "sb_min_quantity b \<noteq> None" "sb_max_quantity b \<noteq> None"
    "vq_min_quantity v \<noteq> None" "vq_max_quantity v \<noteq> None"
    using 1(6,8) by (auto elim: sizing_limits_admitted)
  note raw = raw_size_bound[OF 1(9,5) assms(3)]
  have lots: "dval quantity \<le> dval raw * (1 + dec_ulp)" "fits_context quantity"
    using lot_quantity_bound[OF 1(10) raw(1) limits(1) raw(2)] by blast+
  note checks = bounded_size_checks[OF 1(11) assms(2)]
  let ?q = "normalize_decimal quantity" and ?p = "normalize_decimal p0"
  have v: "dval ?q = dval quantity" "dval ?p = dval p0"
    using lots(2) assms(4)[OF x(1,3)] by (simp_all add: fits_normalized)
  have pos: "0 < dval quantity" using checks(1) by (simp add: positive_decimal_iff)
  obtain vl where vl: "vq_lot_size v = Some vl" "0 < dval vl" using limits(4) by (auto simp: positive_decimal_iff)
  have "whole_lots (vq_lot_size v) ?q"
    using checks(6) vl dmodulo_positive[OF _ pos vl(2)] by (fastforce simp: whole_lots_def v deq_iff)
  moreover have "within_range (sb_min_quantity b) (sb_max_quantity b) ?q"
    "within_range (vq_min_quantity v) (vq_max_quantity v) ?q"
    using checks(2-5) limits(5-8) by (auto simp: within_range_def v dcompare not_less)
  moreover have "case sb_max_notional b of None \<Rightarrow> True | Some c \<Rightarrow> dval ?q * dval ?p \<le> dval c * (1 + 6 / 10 ^ 28)"
    using checks(7) notional_slack[OF _ pos x(4)] x by (auto simp: v split: option.split)
  moreover have "if k = FLAT_QUANTITY_BASIS then \<exists>h. held = Some h \<and> dval ?q \<le> dval h * (1 + 5 / 10 ^ 28)
     else \<exists>r u. sb_risk_budget b = Some r \<and> sb_per_unit_risk b = Some u \<and> dval ?q * dval u \<le> dval r * (1 + 12 / 10 ^ 28)"
    using raw(3,4) lots(1) size_within_budget[OF lots(1)] by (auto simp: v dec_ulp_def)
  ultimately show ?thesis
    using 1(1-4) x admitted checks(8-10) limits(2) pos v by simp
qed

section \<open>A derivation\<close>

definition demo_sizing_bound :: "pydec \<Rightarrow> pydec \<Rightarrow> sizing_bound" where
  "demo_sizing_bound budget per_unit =
    \<lparr>sb_risk_budget = Some budget, sb_per_unit_risk = Some per_unit, sb_lot_size = Some (Dec 1 0),
     sb_lot_rounding = Some FLOOR_TO_LOT, sb_min_quantity = Some (Dec 1 0), sb_max_quantity = Some (Dec 1 1),
     sb_max_notional = Some (Dec 1 3), sb_quantity_unit = Some UNIT_CONTRACTS,
     sb_admitted_quantity_bases = [''RISK'', ''ZERO_POSITION'']\<rparr>"

definition demo_proposed_envelope :: "sizing_bound \<Rightarrow> proposed_construction_envelope" where
  "demo_proposed_envelope b =
    \<lparr>pe_envelope_generation = Some 1, pe_policy_binding_id = None,
     pe_authorized_axis_bindings = [\<lparr>ab_axis = Some AX_SIDE, ab_value = Some ''BUY''\<rparr>],
     pe_sizing_bound = Some b,
     pe_effect_dimensions = [\<lparr>es_dimension_id = Some ''n'', es_basis = Some BASIS_NOTIONAL, es_unit = None,
       es_scale = None\<rparr>]\<rparr>"

definition demo_price :: admitted_price_observation where
  "demo_price = \<lparr>po_source = Some CAPSULE_CONTEXT_SOURCE, po_value = Some (Dec 1 2),
    po_snapshot_digest = Some ''s'', po_value_payload_digest = None\<rparr>"

definition demo_venue_quantity :: venue_quantity_constraint where
  "demo_venue_quantity = \<lparr>vq_lot_size = Some (Dec 1 0), vq_min_quantity = Some (Dec 1 0),
    vq_max_quantity = Some (Dec 5 1), vq_quantity_unit = Some UNIT_CONTRACTS\<rparr>"

definition derived_size :: "pydec \<Rightarrow> pydec \<Rightarrow> quantity_derivation" where
  "derived_size q p = \<lparr>qd_outcome = DERIVED, qd_quantity = Some q, qd_price = Some p,
    qd_quantity_unit = Some UNIT_CONTRACTS, qd_rule = Some DERIVATION_RULE, qd_denial_reason = None\<rparr>"

lemma demo_digits: "digit_count 7 = 1" "digit_count 2 = 1" "digit_count 6666666666666666666666666667 = 28"
  by (simp_all add: digit_count.simps)

lemma demo_quotient: "ddiv (Dec 7 0) (Dec 2 0) = Inr (Dec 35 (-1))"
proof -
  have "trim_zeros 0 350000000000000000000000000000 (-29) = Dec 35 (-1)" by (simp add: trim_zeros.simps)
  then show ?thesis by (simp add: ddiv_def dec_prec_def demo_digits sticky_def dround_exact)
qed

lemma rounded_quotient:
  "ddiv (Dec 2 0) (Dec 6666666666666666666666666667 (-28)) = Inr (Dec 3000000000000000000000000000 (-27))"
  apply (simp add: ddiv_def dec_prec_def demo_digits sticky_def)
  apply (simp add: dround_def dec_prec_def excess.simps half_even_def)
  done

lemma demo_lots:
  "lot_quantity FLOOR_TO_LOT (Dec 35 (-1)) (Dec 1 0) = Inr (Some (Dec 3 0))"
  "lot_quantity FLOOR_TO_LOT (Dec 3000000000000000000000000000 (-27)) (Dec 1 0) = Inr (Some (Dec 3 0))"
  by (simp_all add: lot_quantity_def dfloordiv_def ddivmod_def dscale_def dec_prec_def dmul_def dround_exact Let_def)

lemma demo_normal: "normalize_decimal (Dec 3 0) = Dec 3 0" "normalize_decimal (Dec 1 2) = Dec 1 2"
  by (simp_all add: normalize_decimal_def dnormalize_def dround_exact dec_prec_def strip_zeros.simps dzero_def deq_iff dval_def Let_def)

lemma demo_bounded:
  "bounded_size (demo_sizing_bound r u) demo_venue_quantity (Dec 1 0) (Dec 1 1) (Dec 1 0) (Dec 1 0) (Dec 5 1) (Dec 1 2) False
    (Dec 3 0) = Inr (derived_size (Dec 3 0) (Dec 1 2))"
  by (simp add: bounded_size_def demo_normal positive_decimal_def dcompare dzero_def dval_def dmodulo_def ddivmod_def
      dscale_def dec_prec_def dround_exact dmul_def demo_sizing_bound_def derived_size_def Let_def)

lemma demo_size:
  assumes "ddiv r u = Inr raw" "lot_quantity FLOOR_TO_LOT raw (Dec 1 0) = Inr (Some (Dec 3 0))" "0 < dval r" "0 < dval u"
  shows "derive_order_size (Some ''RISK'') (Some (demo_proposed_envelope (demo_sizing_bound r u))) (Some demo_price)
    (Some demo_venue_quantity) None = Inr (derived_size (Dec 3 0) (Dec 1 2))"
proof -
  let ?b = "demo_sizing_bound r u"
  have bound: "sb_lot_size ?b = Some (Dec 1 0)" "sb_lot_rounding ?b = Some FLOOR_TO_LOT"
    "sb_risk_budget ?b = Some r" "sb_per_unit_risk ?b = Some u"
    "sb_min_quantity ?b = Some (Dec 1 0)" "sb_max_quantity ?b = Some (Dec 1 1)"
    "sb_quantity_unit ?b = Some UNIT_CONTRACTS" "sb_admitted_quantity_bases ?b = [''RISK'', ''ZERO_POSITION'']"
    by (simp_all add: demo_sizing_bound_def)
  have "sizing_inputs_denial (Some ''RISK'') ?b (Some demo_price) None = None"
    using assms(3,4) by (simp add: sizing_inputs_denial_def bound blank_def white_space_def demo_price_def
        positive_decimal_iff FLAT_QUANTITY_BASIS_def dval_pos_iff[of "Dec 1 2"])
  moreover have "sizing_limits_denial ?b (Some demo_venue_quantity) = None"
    by (simp add: sizing_limits_denial_def bound demo_venue_quantity_def positive_decimal_iff dval_pos_iff[of "Dec 1 0"])
  moreover have "vq_lot_size demo_venue_quantity = Some (Dec 1 0)" "vq_min_quantity demo_venue_quantity = Some (Dec 1 0)"
    "vq_max_quantity demo_venue_quantity = Some (Dec 5 1)" "po_value demo_price = Some (Dec 1 2)"
    by (simp_all add: demo_venue_quantity_def demo_price_def)
  ultimately show ?thesis
    using demo_bounded[of r u] assms(1,2)
    by (simp add: derive_order_size_def demo_proposed_envelope_def bound FLAT_QUANTITY_BASIS_def)
qed

lemma demo_sized:
  "derive_order_size (Some ''RISK'') (Some (demo_proposed_envelope (demo_sizing_bound (Dec 7 0) (Dec 2 0))))
    (Some demo_price) (Some demo_venue_quantity) None = Inr (derived_size (Dec 3 0) (Dec 1 2))"
  by (rule demo_size[OF demo_quotient demo_lots(1)]) (simp_all add: dval_pos_iff)

theorem derived_size_stays_within_bounds_witness:
  "\<exists>q p. qd_quantity (derived_size (Dec 3 0) (Dec 1 2)) = Some q \<and> qd_price (derived_size (Dec 3 0) (Dec 1 2)) = Some p \<and>
    dval q * dval (Dec 2 0) \<le> dval (Dec 7 0) * (1 + 12 / 10 ^ 28) \<and> dval q * dval p \<le> dval (Dec 1 3) * (1 + 6 / 10 ^ 28)"
proof -
  have "qd_outcome (derived_size (Dec 3 0) (Dec 1 2)) = DERIVED" by (simp add: derived_size_def)
  moreover have "fits_context p" if "Some demo_price = Some x" "po_value x = Some p" for x p
    using that by (auto simp: demo_price_def fits_context_def dec_prec_def)
  ultimately show ?thesis
    using derived_size_stays_within_bounds[OF demo_sized]
    by (force simp: demo_proposed_envelope_def demo_sizing_bound_def FLAT_QUANTITY_BASIS_def)
qed

text \<open>
  The risk of a derived size may exceed the budget in the 28th digit: a quotient just below a whole
  number is rounded to it before the floor is taken.
\<close>

lemma floor_can_exceed_budget:
  "derive_order_size (Some ''RISK'')
      (Some (demo_proposed_envelope (demo_sizing_bound (Dec 2 0) (Dec 6666666666666666666666666667 (-28)))))
      (Some demo_price) (Some demo_venue_quantity) None = Inr (derived_size (Dec 3 0) (Dec 1 2))"
  "dval (Dec 2 0) < dval (Dec 3 0) * dval (Dec 6666666666666666666666666667 (-28))"
  by (rule demo_size[OF rounded_quotient demo_lots(2)]; simp add: dval_pos_iff)
    (simp add: dval_def power_int_minus)

end
