(* ===== verification/Order_Construction.thy ===== *)
theory Order_Construction
  imports Order_Sizing Engine_Core
begin

text \<open>
  The construction of a candidate command in \<^verbatim>\<open>tos/egressgw/construction.py\<close> and the four stages of the
  commitment flow it provides: the command with its conformance (step 2), the venue decision (step 3), the
  economic effect (step 5) and the conformance proof (step 11); and the factory of
  \<^verbatim>\<open>tos/egressgw/records.py\<close> that builds a send-boundary context from them.  A stage object is its
  configuration; what it keeps is a field of the world the stages share.  The lemmas say that step 2 admits
  exactly when it built a command, that such a command carries the derived order, and that its proof and its
  context pass the checks of the gateway that concern the construction.
\<close>

section \<open>The candidate command\<close>

definition derived_axis_bindings :: "quantity_derivation \<Rightarrow> (pystr, axis_binding list) result" where
  "derived_axis_bindings derivation =
    (case (qd_quantity derivation, qd_price derivation, qd_quantity_unit derivation) of
       (Some q, Some p, Some u) \<Rightarrow>
         Inr [\<lparr>ab_axis = Some AX_QUANTITY, ab_value = Some (dec_str q)\<rparr>,
           \<lparr>ab_axis = Some AX_PRICE, ab_value = Some (dec_str p)\<rparr>,
           \<lparr>ab_axis = Some AX_UNIT, ab_value = Some (unit_str u)\<rparr>]
     | _ \<Rightarrow> Inl ''AssertionError'')"

text \<open>The identities and versions a construction is given.\<close>

record construction_ids =
  ci_intent_id :: pystr
  ci_intent_version :: pystr
  ci_envelope_id :: pystr
  ci_policy_id :: pystr
  ci_policy_version :: pystr
  ci_policy_generation :: int
  ci_command_id :: pystr
  ci_generation :: int
  ci_signer_identity :: "pystr option"
  ci_approval_identity :: "pystr option"
  ci_evidence_package_ref :: "pystr option"

definition make_construction :: "candidate_construction \<Rightarrow> (pystr, candidate_construction) result" where
  "make_construction k = (if sanctioned_bundle k then Inr k else Inl ''ValidationError'')"

definition denied_construction ::
  "quantity_derivation \<Rightarrow> approved_intent_contract option \<Rightarrow> authorized_construction_envelope option \<Rightarrow>
    order_construction_policy option \<Rightarrow> pystr \<Rightarrow> (pystr, candidate_construction) result" where
  "denied_construction derivation intent envelope policy reason =
    make_construction \<lparr>cn_derivation = derivation, cn_intent = intent, cn_envelope = envelope, cn_policy = policy,
      cn_command = None, cn_conformance_result = None, cn_numerical_result = None,
      cn_no_silent_widening_ok = None, cn_denial_reason = Some reason\<rparr>"

text \<open>The handler around the compilation: one exception is a denial, the others pass.\<close>

definition compile_denied ::
  "quantity_derivation \<Rightarrow> approved_intent_contract option \<Rightarrow> authorized_construction_envelope option \<Rightarrow>
    order_construction_policy option \<Rightarrow> pystr \<Rightarrow> (pystr, candidate_construction) result" where
  "compile_denied derivation intent envelope policy err =
    (if err = ''ArtifactIntegrityError''
     then denied_construction derivation intent envelope policy ''ioc construction denied the candidate''
     else Inl err)"

definition candidate_intent ::
  "construction_ids \<Rightarrow> pystr option \<Rightarrow> pystr option \<Rightarrow> axis_binding list \<Rightarrow> intent_content" where
  "candidate_intent ids proposal_id proposal_digest bindings =
    \<lparr>ic_intent_generation = Some (ci_generation ids), ic_intent_version = Some (ci_intent_version ids),
     ic_proposal_id = proposal_id, ic_proposal_digest = proposal_digest,
     ic_decision_context_capsule_id = None, ic_decision_context_capsule_digest = None,
     ic_critical_input_snapshot_digest = None, ic_orthostate_intent_identity = None,
     ic_authorized_axis_bindings = bindings, ic_issuer_identity = None, ic_approval_identity = None,
     ic_authority_effect = no_construction_authority, ic_intent_order = None\<rparr>"

definition candidate_envelope :: "proposed_construction_envelope \<Rightarrow> axis_binding list \<Rightarrow> envelope_content" where
  "candidate_envelope envelope bindings =
    \<lparr>en_envelope_generation = pe_envelope_generation envelope, en_authorized_axis_bindings = bindings,
     en_policy_binding_id = pe_policy_binding_id envelope, en_envelope_order = None\<rparr>"

definition candidate_policy :: "construction_ids \<Rightarrow> construction_policy_content" where
  "candidate_policy ids =
    \<lparr>oc_policy_generation = Some (ci_policy_generation ids), oc_policy_version = Some (ci_policy_version ids),
     oc_signer_identity = ci_signer_identity ids, oc_approval_identity = ci_approval_identity ids,
     oc_evidence_package_ref = ci_evidence_package_ref ids, oc_policy_order = None\<rparr>"

definition decided_results :: "conformance_result list" where
  "decided_results = [CONFORMANT, NON_CONFORMANT]"

definition built_construction ::
  "quantity_derivation \<Rightarrow> approved_intent_contract \<Rightarrow> authorized_construction_envelope \<Rightarrow>
    order_construction_policy \<Rightarrow> canonical_broker_command \<Rightarrow> (pystr, candidate_construction) result" where
  "built_construction derivation intent envelope policy command =
    (let conformance = command_conforms (Some intent) (Some command) (Some policy) (Some envelope);
         numerical = numerical_safety [qd_quantity derivation, qd_price derivation]
           (Some (qd_quantity_unit derivation \<noteq> None));
         widening_ok = no_silent_widening (Some (qd_outcome derivation = DERIVED))
           (Some (conformance \<in> set decided_results \<and> numerical \<in> set decided_results))
     in make_construction \<lparr>cn_derivation = derivation, cn_intent = Some intent, cn_envelope = Some envelope,
       cn_policy = Some policy, cn_command = Some command, cn_conformance_result = Some conformance,
       cn_numerical_result = Some numerical, cn_no_silent_widening_ok = Some widening_ok,
       cn_denial_reason = None\<rparr>)"

definition construct_candidate_command ::
  "registry \<Rightarrow> canonicalizer \<Rightarrow> construction_ids \<Rightarrow> pystr option \<Rightarrow> pystr option \<Rightarrow> quantity_derivation \<Rightarrow>
    proposed_construction_envelope \<Rightarrow> (pystr, candidate_construction) result" where
  "construct_candidate_command reg cz ids proposal_id proposal_digest derivation envelope =
    (if qd_outcome derivation \<noteq> DERIVED then
       denied_construction derivation None None None
         (case qd_denial_reason derivation of
            None \<Rightarrow> ''the quantity derivation was denied''
          | Some r \<Rightarrow> if r = [] then ''the quantity derivation was denied'' else r)
     else (case derived_axis_bindings derivation of
         Inl err \<Rightarrow> Inl err
       | Inr derived \<Rightarrow>
           (let bindings = pe_authorized_axis_bindings envelope @ derived;
                denied = compile_denied derivation
            in case issue_checked reg intent_class (\<lambda>_. True) cz
                 (candidate_intent ids proposal_id proposal_digest bindings) (Some (ci_intent_id ids)) of
              Inl err \<Rightarrow> denied None None None err
            | Inr i \<Rightarrow>
                (case issue_checked reg envelope_class (\<lambda>_. True) cz (candidate_envelope envelope bindings)
                   (Some (ci_envelope_id ids)) of
                   Inl err \<Rightarrow> denied (Some i) None None err
                 | Inr e \<Rightarrow>
                     (case issue_checked reg construction_policy_class (\<lambda>_. True) cz (candidate_policy ids)
                        (Some (ci_policy_id ids)) of
                        Inl err \<Rightarrow> denied (Some i) (Some e) None err
                      | Inr p \<Rightarrow>
                          (case compile_command reg (Some i) (Some p) (Some e) (ci_generation ids) cz
                             (ci_command_id ids) of
                             Inl err \<Rightarrow> denied (Some i) (Some e) (Some p) err
                           | Inr c \<Rightarrow> built_construction derivation i e p c))))))"

section \<open>Verdict, effect and proof\<close>

definition candidate_command_verdict ::
  "candidate_construction option \<Rightarrow> commitment_step \<Rightarrow> stage_verdict" where
  "candidate_command_verdict construction step =
    (let verdict = adapter_verdict step
     in case construction of
       None \<Rightarrow>
         verdict OUTCOME_UNKNOWN AVAILABLE_PURE_PREDICATE None None None None
           (Some ''no candidate construction was produced'')
     | Some k \<Rightarrow>
         (case (cn_command k, cn_conformance_result k) of
            (Some command, Some conformance) \<Rightarrow>
              (let (outcome, reason) =
                 (if conformance = CONFORMANT \<and> cn_numerical_result k = Some CONFORMANT \<and>
                     cn_no_silent_widening_ok k = Some True
                  then (ADMIT, None)
                  else if conformance = CONFORMANCE_UNKNOWN \<or> cn_numerical_result k = Some CONFORMANCE_UNKNOWN
                  then (OUTCOME_UNKNOWN, Some ''candidate conformance or numerical safety is UNKNOWN'')
                  else (DENY, Some ''the candidate command is NON_CONFORMANT or silently widened''))
               in verdict outcome AVAILABLE_PURE_PREDICATE (Some ''ConformanceResult'')
                 (Some (conformance_result_str conformance)) (ar_canonical_digest command) (ar_id command) reason)
          | _ \<Rightarrow>
              verdict DENY AVAILABLE_PURE_PREDICATE (Some ''CandidateConstruction'') None None None
                (Some (case cn_denial_reason k of
                    None \<Rightarrow> ''the candidate command was not constructed''
                  | Some r \<Rightarrow> if r = [] then ''the candidate command was not constructed'' else r))))"






section \<open>The stages\<close>

text \<open>What the four stage objects keep from their last call.\<close>

record construction_world =
  kw_construction :: "candidate_construction option"
  kw_resolved_shape :: "order_shape option"
  kw_effect :: "capacity_vector option"
  kw_proof :: "order_conformance_proof option"

definition new_construction_world :: construction_world where
  "new_construction_world =
    \<lparr>kw_construction = None, kw_resolved_shape = None, kw_effect = None, kw_proof = None\<rparr>"

record construction_config = construction_ids +
  kc_envelope :: proposed_construction_envelope
  kc_price :: "admitted_price_observation option"
  kc_venue_constraint :: "venue_quantity_constraint option"
  kc_scheme :: canonicalizer
  kc_price_field_key :: "pystr option"

definition price_for :: "construction_config \<Rightarrow> stage_request \<Rightarrow> admitted_price_observation option" where
  "price_for cfg request =
    (case (kc_price_field_key cfg, sr_value_view request) of
       (Some key, Some view) \<Rightarrow> Some (admitted_price_from_view view key)
     | _ \<Rightarrow> kc_price cfg)"

text \<open>Step 2.  The stage passes no signer, approval or evidence reference on.\<close>

definition stage_ids :: "construction_config \<Rightarrow> construction_ids" where
  "stage_ids cfg = (construction_ids.truncate cfg)
    \<lparr>ci_signer_identity := None, ci_approval_identity := None, ci_evidence_package_ref := None\<rparr>"

definition order_construction_stage :: "registry \<Rightarrow> construction_config \<Rightarrow> construction_world stage" where
  "order_construction_stage reg cfg request w =
    (case derive_order_size (pc_quantity_basis (ar_content (sr_proposal request))) (Some (kc_envelope cfg))
        (price_for cfg request) (kc_venue_constraint cfg) (sr_held_position_magnitude request) of
       Inl err \<Rightarrow> (Inl err, w)
     | Inr derivation \<Rightarrow>
         (case construct_candidate_command reg (kc_scheme cfg) (stage_ids cfg) (ar_id (sr_proposal request))
             (ar_canonical_digest (sr_proposal request)) derivation (kc_envelope cfg) of
            Inl err \<Rightarrow> (Inl err, w)
          | Inr k \<Rightarrow>
              (Inr (Some (candidate_command_verdict (Some k) (sr_step request))), w\<lparr>kw_construction := Some k\<rparr>)))"






section \<open>The context of a send\<close>





section \<open>A built command\<close>

lemma make_construction_Inr [simp]: "make_construction k = Inr k' \<longleftrightarrow> k' = k \<and> sanctioned_bundle k"
  by (auto simp: make_construction_def)

text \<open>The two shapes a construction can have.\<close>

definition unbuilt :: "quantity_derivation \<Rightarrow> candidate_construction \<Rightarrow> bool" where
  "unbuilt d k = (cn_derivation k = d \<and> cn_command k = None \<and> sanctioned_bundle k)"

definition built_order ::
  "registry \<Rightarrow> canonicalizer \<Rightarrow> construction_ids \<Rightarrow> pystr option \<Rightarrow> pystr option \<Rightarrow> quantity_derivation \<Rightarrow>
    proposed_construction_envelope \<Rightarrow> candidate_construction \<Rightarrow> canonical_broker_command \<Rightarrow> bool" where
  "built_order reg cz ids proposal_id proposal_digest d envelope k c =
    (\<exists>derived i e p. derived_axis_bindings d = Inr derived \<and> qd_outcome d = DERIVED \<and>
      k = \<lparr>cn_derivation = d, cn_intent = Some i, cn_envelope = Some e, cn_policy = Some p, cn_command = Some c,
        cn_conformance_result = Some CONFORMANT, cn_numerical_result = Some CONFORMANT,
        cn_no_silent_widening_ok = Some True, cn_denial_reason = None\<rparr> \<and>
      ic_authorized_axis_bindings (ar_content i) = pe_authorized_axis_bindings envelope @ derived \<and>
      en_authorized_axis_bindings (ar_content e) = pe_authorized_axis_bindings envelope @ derived \<and>
      ic_proposal_id (ar_content i) = proposal_id \<and> ic_proposal_digest (ar_content i) = proposal_digest \<and>
      compile_command reg (Some i) (Some p) (Some e) (ci_generation ids) cz (ci_command_id ids) = Inr c)"

lemma denied_unbuilt: "denied_construction d i e p r = Inr k \<Longrightarrow> unbuilt d k"
  by (auto simp: denied_construction_def unbuilt_def)

lemma compile_denied_unbuilt: "compile_denied d i e p err = Inr k \<Longrightarrow> unbuilt d k"
  by (auto simp: compile_denied_def dest: denied_unbuilt split: if_splits)

lemma derived_axis_bindings_Inr:
  "derived_axis_bindings d = Inr bs \<longleftrightarrow>
    (\<exists>q p u. qd_quantity d = Some q \<and> qd_price d = Some p \<and> qd_quantity_unit d = Some u \<and>
      bs = [bound_axis (AX_QUANTITY, Some (dec_str q)), bound_axis (AX_PRICE, Some (dec_str p)),
        bound_axis (AX_UNIT, Some (unit_str u))])"
  by (auto simp: derived_axis_bindings_def bound_axis_def split: option.splits)

text \<open>Its gates always conform: the artifacts of a construction are compiled from one set of bindings.\<close>

lemma built_construction_Inr:
  assumes "built_construction d i e p c = Inr k" "derived_axis_bindings d = Inr derived" "qd_outcome d = DERIVED"
    "compile_command reg (Some i) (Some p) (Some e) g cz cid = Inr c"
  shows "k = \<lparr>cn_derivation = d, cn_intent = Some i, cn_envelope = Some e, cn_policy = Some p, cn_command = Some c,
    cn_conformance_result = Some CONFORMANT, cn_numerical_result = Some CONFORMANT,
    cn_no_silent_widening_ok = Some True, cn_denial_reason = None\<rparr>"
proof -
  have "command_conforms (Some i) (Some c) (Some p) (Some e) = CONFORMANT"
    using compiled_command_conforms[OF assms(4)] by blast
  moreover have "numerical_safety [qd_quantity d, qd_price d] (Some (qd_quantity_unit d \<noteq> None)) = CONFORMANT"
    using assms(2) by (auto simp: derived_axis_bindings_Inr numerical_safety_def)
  ultimately show ?thesis
    using assms(1,3) by (simp add: built_construction_def Let_def decided_results_def no_silent_widening_def)
qed

lemma construction_shapes:
  assumes "construct_candidate_command reg cz ids pid pd d envelope = Inr k"
  shows "unbuilt d k \<or> (\<exists>c. built_order reg cz ids pid pd d envelope k c)"
proof (cases "qd_outcome d = DERIVED")
  case False
  with assms show ?thesis by (simp add: construct_candidate_command_def denied_unbuilt)
next
  case True
  with assms obtain derived where derived: "derived_axis_bindings d = Inr derived"
    by (auto simp: construct_candidate_command_def split: sum.splits)
  let ?bs = "pe_authorized_axis_bindings envelope @ derived"
  show ?thesis
  proof (cases "unbuilt d k")
    case False
    with assms True derived obtain i e p c where
      i: "issue_checked reg intent_class (\<lambda>_. True) cz (candidate_intent ids pid pd ?bs) (Some (ci_intent_id ids)) = Inr i"
      and e: "issue_checked reg envelope_class (\<lambda>_. True) cz (candidate_envelope envelope ?bs)
        (Some (ci_envelope_id ids)) = Inr e"
      and c: "compile_command reg (Some i) (Some p) (Some e) (ci_generation ids) cz (ci_command_id ids) = Inr c"
      and k: "built_construction d i e p c = Inr k"
      by (auto simp: construct_candidate_command_def Let_def dest: compile_denied_unbuilt split: sum.splits)
    have "ar_content i = candidate_intent ids pid pd ?bs" "ar_content e = candidate_envelope envelope ?bs"
      using issue_checked_Inr(3)[OF i] issue_checked_Inr(3)[OF e] by (simp_all add: issued_content)
    then have "built_order reg cz ids pid pd d envelope k c"
      using built_construction_Inr[OF k derived True c] derived True c
      by (auto simp: built_order_def candidate_intent_def candidate_envelope_def)
    then show ?thesis by blast
  qed simp
qed

lemma candidate_verdict:
  "sv_step (candidate_command_verdict ko s) = s"
  "unbuilt d k \<Longrightarrow> sv_outcome (candidate_command_verdict (Some k) s) = DENY"
  "built_order reg cz ids pid pd d envelope k c \<Longrightarrow>
    sv_outcome (candidate_command_verdict (Some k) s) = ADMIT \<and>
    sv_bound_digest (candidate_command_verdict (Some k) s) = ar_canonical_digest c \<and>
    sv_bound_identity (candidate_command_verdict (Some k) s) = ar_id c \<and> cn_command k = Some c"
  by (auto simp: candidate_command_verdict_def unbuilt_def built_order_def Let_def split: option.splits)

lemma declared_append [simp]:
  "declared_axes (bs @ cs) = declared_axes bs @ declared_axes cs"
  "declared_axes (b # bs) = (case ab_axis b of None \<Rightarrow> [] | Some a \<Rightarrow> [a]) @ declared_axes bs"
  "declared_axes [] = []"
  by (auto simp: declared_axes_def List.map_filter_def split: option.split)

lemma declared_iff: "a \<in> set (declared_axes bs) \<longleftrightarrow> (\<exists>b \<in> set bs. ab_axis b = Some a)"
  by (induction bs) (auto split: option.splits)

lemma built_axes:
  assumes "built_order reg cz ids pid pd d envelope k c"
  shows "\<exists>q p u. qd_quantity d = Some q \<and> qd_price d = Some p \<and> qd_quantity_unit d = Some u \<and>
      command_axis_value c AX_QUANTITY = Some (dec_str q) \<and> command_axis_value c AX_PRICE = Some (dec_str p) \<and>
      command_axis_value c AX_UNIT = Some (unit_str u)"
    "\<And>b a. b \<in> set (pe_authorized_axis_bindings envelope) \<Longrightarrow> ab_axis b = Some a \<Longrightarrow>
      ab_value b \<noteq> None \<and> command_axis_value c a = ab_value b"
    "set (declared_axes (cm_axis_bindings (ar_content c))) =
      set (declared_axes (pe_authorized_axis_bindings envelope)) \<union> set derived_axes"
    "cm_proposal_digest (ar_content c) = pd"
proof -
  obtain derived i e p where k: "derived_axis_bindings d = Inr derived"
    "en_authorized_axis_bindings (ar_content e) = pe_authorized_axis_bindings envelope @ derived"
    "ic_proposal_digest (ar_content i) = pd"
    "compile_command reg (Some i) (Some p) (Some e) (ci_generation ids) cz (ci_command_id ids) = Inr c"
    using assms unfolding built_order_def by blast
  note compiled = compiled_command_conforms[OF k(4)]
  have nodup: "\<not> has_duplicate_axis (en_authorized_axis_bindings (ar_content e))"
    using k(4) by (rule compile_command_Inr) simp
  have pairs: "authorized_axes e = axis_pairs (pe_authorized_axis_bindings envelope @ derived)"
    using authorized_axes_eq[OF nodup] by (simp only: k(2))
  have "set (declared_axes (cm_axis_bindings (ar_content c))) = fst ` set (authorized_axes e)"
    using compiled by blast
  also have "\<dots> = set (declared_axes (pe_authorized_axis_bindings envelope @ derived))"
    unfolding pairs map_fst_axis_pairs[symmetric] by simp
  also have "\<dots> = set (declared_axes (pe_authorized_axis_bindings envelope)) \<union> set derived_axes"
    using k(1) by (auto simp: derived_axis_bindings_Inr declared_append bound_axis_def derived_axes_def)
  finally show "set (declared_axes (cm_axis_bindings (ar_content c))) =
      set (declared_axes (pe_authorized_axis_bindings envelope)) \<union> set derived_axes" .
  have bound: "ab_value b \<noteq> None \<and> command_axis_value c a = ab_value b"
    if "b \<in> set (pe_authorized_axis_bindings envelope @ derived)" "ab_axis b = Some a" for b a
  proof -
    have "(a, ab_value b) \<in> set (authorized_axes e)"
      unfolding pairs using that by (force simp: List.map_filter_def)
    with compiled show ?thesis by fastforce
  qed
  from bound show "\<And>b a. b \<in> set (pe_authorized_axis_bindings envelope) \<Longrightarrow> ab_axis b = Some a \<Longrightarrow>
      ab_value b \<noteq> None \<and> command_axis_value c a = ab_value b" by simp
  obtain q pr u where d: "qd_quantity d = Some q" "qd_price d = Some pr" "qd_quantity_unit d = Some u"
    "derived = [bound_axis (AX_QUANTITY, Some (dec_str q)), bound_axis (AX_PRICE, Some (dec_str pr)),
      bound_axis (AX_UNIT, Some (unit_str u))]"
    using k(1) unfolding derived_axis_bindings_Inr by blast
  show "\<exists>q p u. qd_quantity d = Some q \<and> qd_price d = Some p \<and> qd_quantity_unit d = Some u \<and>
      command_axis_value c AX_QUANTITY = Some (dec_str q) \<and> command_axis_value c AX_PRICE = Some (dec_str p) \<and>
      command_axis_value c AX_UNIT = Some (unit_str u)"
    using d bound[of "bound_axis (AX_QUANTITY, Some (dec_str q))"] bound[of "bound_axis (AX_PRICE, Some (dec_str pr))"]
      bound[of "bound_axis (AX_UNIT, Some (unit_str u))"]
    by (simp add: bound_axis_def)
  show "cm_proposal_digest (ar_content c) = pd" using compiled k(3) by blast
qed


section \<open>When a command is built\<close>

text \<open>Every axis of the bindings is named once, with a value.\<close>

definition unambiguous :: "axis_binding list \<Rightarrow> bool" where
  "unambiguous bs = (distinct (declared_axes bs) \<and> (\<forall>b \<in> set bs. ab_axis b \<noteq> None \<longrightarrow> ab_value b \<noteq> None))"

lemma compile_own_bindings:
  assumes "bound_scheme reg cz" "cid \<noteq> ''TBD''" "ic_authorized_axis_bindings (ar_content i) = bs"
    "en_authorized_axis_bindings (ar_content e) = bs" "declared_axes bs \<noteq> []"
  shows "(\<exists>c. compile_command reg (Some i) (Some p) (Some e) g cz cid = Inr c) \<longleftrightarrow> unambiguous bs"
proof (cases "distinct (declared_axes bs)")
  case True
  have nodup: "\<not> has_duplicate_axis bs" by (simp add: duplicate_iff True)
  then have axes: "authorized_axes e = axis_pairs bs" by (simp add: authorized_axes_eq assms(4))
  then have ne: "authorized_axes e \<noteq> []" using assms(5) map_fst_axis_pairs[of bs] by auto
  have agree: "intent_axis_value i axis = v" if "(axis, v) \<in> set (axis_pairs bs)" for axis v
    using axis_lookup_member[OF True that] by (simp add: intent_axis_value_def assms(3))
  have "(\<exists>bs'. compile_axes i (sort_key (axis_str \<circ> fst) (authorized_axes e)) = Inr bs') \<longleftrightarrow>
      (\<forall>(axis, v) \<in> set (axis_pairs bs). v \<noteq> None)"
    unfolding compile_axes_Inr axes using agree by auto
  also have "\<dots> \<longleftrightarrow> unambiguous bs"
    by (force simp: unambiguous_def True List.map_filter_def split: option.splits)
  finally show ?thesis
    using nodup ne
    by (auto simp: compile_command_def assms(3,4) command_issue[OF assms(1,2)] split: sum.split)
next
  case False
  then show ?thesis by (simp add: unambiguous_def compile_command_def assms(3,4) duplicate_iff)
qed

definition concrete_ids :: "construction_ids \<Rightarrow> bool" where
  "concrete_ids ids =
    (''TBD'' \<notin> {ci_intent_id ids, ci_intent_version ids, ci_envelope_id ids, ci_policy_id ids, ci_policy_version ids,
      ci_command_id ids})"

lemma artifacts_issue:
  assumes "bound_scheme reg cz" "concrete_ids ids" "pe_envelope_generation envelope \<noteq> None"
  shows "\<exists>i. issue_checked reg intent_class (\<lambda>_. True) cz (candidate_intent ids pid pd bs) (Some (ci_intent_id ids)) = Inr i \<and>
      ar_content i = candidate_intent ids pid pd bs"
    "\<exists>e. issue_checked reg envelope_class (\<lambda>_. True) cz (candidate_envelope envelope bs) (Some (ci_envelope_id ids)) = Inr e \<and>
      ar_content e = candidate_envelope envelope bs"
    "\<exists>p. issue_checked reg construction_policy_class (\<lambda>_. True) cz (candidate_policy ids) (Some (ci_policy_id ids)) = Inr p"
  using assms(2,3)
  by (auto simp: independent_issue[OF assms(1)] issued_content concrete_ids_def missing_required_fields_def
      intent_class_def envelope_class_def construction_policy_class_def candidate_intent_def candidate_envelope_def
      candidate_policy_def)

lemma construction_total:
  assumes "bound_scheme reg cz" "concrete_ids ids" "pe_envelope_generation envelope \<noteq> None"
    "derivation_shape_consistent d"
  shows "\<exists>k. construct_candidate_command reg cz ids pid pd d envelope = Inr k \<and>
    (cn_command k \<noteq> None \<longleftrightarrow> qd_outcome d = DERIVED \<and> no_derived_axis_is_pre_declared envelope \<and>
      unambiguous (pe_authorized_axis_bindings envelope))"
proof (cases "qd_outcome d = DERIVED")
  case False
  with assms(4) obtain r where r: "qd_denial_reason d = Some r" "\<not> blank r"
    by (cases "qd_denial_reason d") (auto simp: derivation_shape_consistent_def blank_def split: if_splits)
  then have "r \<noteq> []" by (auto simp: blank_def)
  with False r show ?thesis
    by (auto simp: construct_candidate_command_def denied_construction_def make_construction_def sanctioned_bundle_def)
next
  case True
  with assms(4) obtain derived where derived: "derived_axis_bindings d = Inr derived"
    by (auto simp: derivation_shape_consistent_def derived_axis_bindings_Inr split: if_splits)
  let ?own = "pe_authorized_axis_bindings envelope" and ?bs = "pe_authorized_axis_bindings envelope @ derived"
  obtain i e p where i: "issue_checked reg intent_class (\<lambda>_. True) cz (candidate_intent ids pid pd ?bs) (Some (ci_intent_id ids)) = Inr i"
      "ar_content i = candidate_intent ids pid pd ?bs"
    and e: "issue_checked reg envelope_class (\<lambda>_. True) cz (candidate_envelope envelope ?bs) (Some (ci_envelope_id ids)) = Inr e"
      "ar_content e = candidate_envelope envelope ?bs"
    and p: "issue_checked reg construction_policy_class (\<lambda>_. True) cz (candidate_policy ids) (Some (ci_policy_id ids)) = Inr p"
    using artifacts_issue[OF assms(1-3)] by blast
  have cid: "ci_command_id ids \<noteq> ''TBD''" using assms(2) by (auto simp: concrete_ids_def)
  let ?compiled = "compile_command reg (Some i) (Some p) (Some e) (ci_generation ids) cz (ci_command_id ids)"
  have run: "construct_candidate_command reg cz ids pid pd d envelope =
      (case ?compiled of Inl err \<Rightarrow> compile_denied d (Some i) (Some e) (Some p) err | Inr c \<Rightarrow> built_construction d i e p c)"
    by (simp add: construct_candidate_command_def True derived Let_def i(1) e(1) p)
  have axes: "declared_axes derived = [AX_QUANTITY, AX_PRICE, AX_UNIT]" "\<forall>b \<in> set derived. ab_value b \<noteq> None"
    using derived by (auto simp: derived_axis_bindings_Inr bound_axis_def)
  have "no_derived_axis_is_pre_declared envelope \<longleftrightarrow> set (declared_axes ?own) \<inter> set (declared_axes derived) = {}"
    unfolding axes(1)
    by (auto simp: no_derived_axis_is_pre_declared_def list_all_iff declared_iff derived_axes_def split: option.splits)
  then have clear: "unambiguous ?bs \<longleftrightarrow> no_derived_axis_is_pre_declared envelope \<and> unambiguous ?own"
    using axes by (auto simp: unambiguous_def)
  have built: "(\<exists>c. ?compiled = Inr c) \<longleftrightarrow> unambiguous ?bs"
    by (rule compile_own_bindings[OF assms(1) cid])
      (simp_all add: i(2) e(2) candidate_intent_def candidate_envelope_def axes(1))
  show ?thesis
  proof (cases ?compiled)
    case (Inl err)
    then have "err = ''ArtifactIntegrityError''" by (rule compile_error[OF assms(1) _ cid])
    with Inl True built clear show ?thesis
      unfolding run Inl sum.case
      by (auto simp: compile_denied_def denied_construction_def make_construction_def sanctioned_bundle_def blank_def
          white_space_def)
  next
    case (Inr c)
    have sane: "sanctioned_bundle \<lparr>cn_derivation = d, cn_intent = Some i, cn_envelope = Some e, cn_policy = Some p,
      cn_command = Some c, cn_conformance_result = Some cr, cn_numerical_result = Some nr,
      cn_no_silent_widening_ok = Some w, cn_denial_reason = None\<rparr>" for cr nr w
      by (simp add: sanctioned_bundle_def)
    show ?thesis
      using Inr True built clear unfolding run Inr sum.case
      by (auto simp: built_construction_def Let_def make_construction_def sane)
  qed
qed


section \<open>The stages\<close>

lemma order_stage_cases:
  assumes "order_construction_stage reg cfg request w = (Inr v, w')"
  obtains d k where "derive_order_size (pc_quantity_basis (ar_content (sr_proposal request))) (Some (kc_envelope cfg))
      (price_for cfg request) (kc_venue_constraint cfg) (sr_held_position_magnitude request) = Inr d"
    "construct_candidate_command reg (kc_scheme cfg) (stage_ids cfg) (ar_id (sr_proposal request))
      (ar_canonical_digest (sr_proposal request)) d (kc_envelope cfg) = Inr k"
    "v = Some (candidate_command_verdict (Some k) (sr_step request))" "w' = w\<lparr>kw_construction := Some k\<rparr>"
  using assms by (auto simp: order_construction_stage_def split: sum.splits)

text \<open>
  C8: step 2 admits exactly the command it built: whenever the construction stage returns, it has kept a
  construction that is its own and answers admit or deny, never unknown; it admits exactly when there is
  a command, the verdict then binds the digest of that command, and the command belongs to the proposal
  of the request, is sized by the deterministic derivation, declares the derived quantity, price and unit
  beside the axes the envelope authorises, and nothing else.
\<close>

theorem step_two_admits_exactly_built_commands:
  assumes "order_construction_stage reg cfg request w = (Inr v, w')"
  shows "\<exists>k ver. kw_construction w' = Some k \<and> v = Some ver \<and> sv_step ver = sr_step request \<and>
    derive_order_size (pc_quantity_basis (ar_content (sr_proposal request))) (Some (kc_envelope cfg))
      (price_for cfg request) (kc_venue_constraint cfg) (sr_held_position_magnitude request) = Inr (cn_derivation k) \<and>
    sv_outcome ver \<noteq> OUTCOME_UNKNOWN \<and> (sv_outcome ver = ADMIT \<longleftrightarrow> cn_command k \<noteq> None) \<and>
    (case cn_command k of
       None \<Rightarrow> True
     | Some c \<Rightarrow>
         sv_bound_digest ver = ar_canonical_digest c \<and>
         cm_proposal_digest (ar_content c) = ar_canonical_digest (sr_proposal request) \<and>
         qd_outcome (cn_derivation k) = DERIVED \<and>
         command_axis_value c AX_QUANTITY = map_option dec_str (qd_quantity (cn_derivation k)) \<and>
         command_axis_value c AX_PRICE = map_option dec_str (qd_price (cn_derivation k)) \<and>
         command_axis_value c AX_UNIT = map_option unit_str (qd_quantity_unit (cn_derivation k)) \<and>
         set (declared_axes (cm_axis_bindings (ar_content c))) =
           set (declared_axes (pe_authorized_axis_bindings (kc_envelope cfg))) \<union> set derived_axes \<and>
         (\<forall>b \<in> set (pe_authorized_axis_bindings (kc_envelope cfg)). ab_axis b \<noteq> None \<longrightarrow>
           command_axis_value c (the (ab_axis b)) = ab_value b))"
  using assms
proof (cases rule: order_stage_cases)
  case (1 d k)
  from construction_shapes[OF 1(2)] show ?thesis
  proof (elim disjE exE)
    assume u: "unbuilt d k"
    then have "cn_command k = None" "cn_derivation k = d" by (simp_all add: unbuilt_def)
    with 1 candidate_verdict(2)[OF u] show ?thesis by (simp add: candidate_verdict(1))
  next
    fix c assume b: "built_order reg (kc_scheme cfg) (stage_ids cfg) (ar_id (sr_proposal request))
      (ar_canonical_digest (sr_proposal request)) d (kc_envelope cfg) k c"
    then have k: "cn_derivation k = d" "qd_outcome d = DERIVED" by (auto simp: built_order_def)
    note axes = built_axes[OF b]
    from axes(1) have derived: "command_axis_value c AX_QUANTITY = map_option dec_str (qd_quantity d)"
      "command_axis_value c AX_PRICE = map_option dec_str (qd_price d)"
      "command_axis_value c AX_UNIT = map_option unit_str (qd_quantity_unit d)" by auto
    have own: "\<forall>b \<in> set (pe_authorized_axis_bindings (kc_envelope cfg)). ab_axis b \<noteq> None \<longrightarrow>
        command_axis_value c (the (ab_axis b)) = ab_value b"
      using axes(2) by auto
    from 1 candidate_verdict(3)[OF b] show ?thesis
      by (simp add: candidate_verdict(1) k axes(3,4) derived own)
  qed
qed








section \<open>A construction\<close>

definition demo_order_proposal :: proposal where
  "demo_order_proposal = demo_artifact
    \<lparr>pc_strategy_id = None, pc_strategy_version = None, pc_target_kind = TARGET_ACTION, pc_account = Some ''A'',
     pc_instrument = Some ''X'', pc_direction = Some ''BUY'', pc_position_effect = Some ''OPEN'',
     pc_quantity_basis = Some ''RISK'', pc_edge_or_confidence = None, pc_timing_and_execution_constraints = [],
     pc_rationale = None, pc_capsule = \<lparr>cr_capsule_id = None, cr_canonical_digest = None\<rparr>,
     pc_dsl_version = None, pc_config_version = None\<rparr>"

definition demo_order_config :: construction_config where
  "demo_order_config =
    \<lparr>ci_intent_id = ''i'', ci_intent_version = ''v'', ci_envelope_id = ''e'', ci_policy_id = ''p'',
     ci_policy_version = ''v'', ci_policy_generation = 1, ci_command_id = ''c'', ci_generation = 1,
     ci_signer_identity = None, ci_approval_identity = None, ci_evidence_package_ref = None,
     kc_envelope = demo_proposed_envelope (demo_sizing_bound (Dec 7 0) (Dec 2 0)), kc_price = Some demo_price,
     kc_venue_constraint = Some demo_venue_quantity, kc_scheme = demo_cz, kc_price_field_key = None\<rparr>"

definition demo_order_request :: "commitment_step \<Rightarrow> stage_request" where
  "demo_order_request step =
    \<lparr>sr_step = step, sr_instrument_key = (''A'', ''X''), sr_proposal = demo_order_proposal,
     sr_reference = demo_event 1, sr_prior_verdicts = [], sr_attempt = None, sr_value_view = None,
     sr_held_position_magnitude = None\<rparr>"




lemma demo_order_size:
  "derive_order_size (pc_quantity_basis (ar_content (sr_proposal (demo_order_request s))))
    (Some (kc_envelope demo_order_config)) (price_for demo_order_config (demo_order_request s))
    (kc_venue_constraint demo_order_config) (sr_held_position_magnitude (demo_order_request s)) =
    Inr (derived_size (Dec 3 0) (Dec 1 2))"
  using demo_sized
  by (simp add: demo_order_request_def demo_order_proposal_def demo_order_config_def price_for_def)

lemma demo_order_built:
  obtains k where "order_construction_stage demo_registry demo_order_config (demo_order_request s) w =
      (Inr (Some (candidate_command_verdict (Some k) s)), w\<lparr>kw_construction := Some k\<rparr>)"
    "cn_command k \<noteq> None" "sv_outcome (candidate_command_verdict (Some k) s) = ADMIT"
    "cn_derivation k = derived_size (Dec 3 0) (Dec 1 2)"
    "\<exists>c dg. cn_command k = Some c \<and> command_axis_value c AX_SIDE = Some ''BUY'' \<and> ar_canonical_digest c = Some dg"
proof -
  let ?cfg = demo_order_config and ?d = "derived_size (Dec 3 0) (Dec 1 2)"
  have "concrete_ids (stage_ids ?cfg)"
    by (simp add: concrete_ids_def stage_ids_def demo_order_config_def construction_ids.defs)
  moreover have "kc_envelope ?cfg = demo_proposed_envelope (demo_sizing_bound (Dec 7 0) (Dec 2 0))"
    "kc_scheme ?cfg = demo_cz"
    by (simp_all add: demo_order_config_def)
  moreover have "pe_envelope_generation (demo_proposed_envelope b) = Some 1"
    "no_derived_axis_is_pre_declared (demo_proposed_envelope b)"
    "unambiguous (pe_authorized_axis_bindings (demo_proposed_envelope b))" for b
    by (simp_all add: demo_proposed_envelope_def no_derived_axis_is_pre_declared_def derived_axes_def unambiguous_def)
  moreover have "derivation_shape_consistent ?d" "qd_outcome ?d = DERIVED"
    by (simp_all add: derived_size_def derivation_shape_consistent_def)
  ultimately obtain k where k: "construct_candidate_command demo_registry (kc_scheme ?cfg) (stage_ids ?cfg)
      (ar_id (sr_proposal (demo_order_request s))) (ar_canonical_digest (sr_proposal (demo_order_request s))) ?d
      (kc_envelope ?cfg) = Inr k" "cn_command k \<noteq> None"
    using construction_total[of demo_registry demo_cz "stage_ids ?cfg" "kc_envelope ?cfg" ?d
        "ar_id (sr_proposal (demo_order_request s))" "ar_canonical_digest (sr_proposal (demo_order_request s))"]
    by auto
  then have "\<not> unbuilt ?d k" by (simp add: unbuilt_def)
  with construction_shapes[OF k(1)] have "sv_outcome (candidate_command_verdict (Some k) s) = ADMIT"
    using candidate_verdict(3) by blast
  moreover have "cn_derivation k = ?d"
    using construction_shapes[OF k(1)] by (auto simp: unbuilt_def built_order_def)
  moreover have "sr_step (demo_order_request s) = s" by (simp add: demo_order_request_def)
  moreover obtain c where b: "built_order demo_registry (kc_scheme ?cfg) (stage_ids ?cfg)
      (ar_id (sr_proposal (demo_order_request s))) (ar_canonical_digest (sr_proposal (demo_order_request s))) ?d
      (kc_envelope ?cfg) k c"
    using construction_shapes[OF k(1)] \<open>\<not> unbuilt ?d k\<close> by blast
  have "command_axis_value c AX_SIDE = Some ''BUY''"
    using built_axes(2)[OF b, of "\<lparr>ab_axis = Some AX_SIDE, ab_value = Some ''BUY''\<rparr>" AX_SIDE]
    by (simp add: demo_order_config_def demo_proposed_envelope_def)
  moreover have "cn_command k = Some c" "\<exists>dg. ar_canonical_digest c = Some dg"
    using b by (auto simp: built_order_def elim!: compile_command_Inr)
  ultimately show thesis using that k by (simp add: order_construction_stage_def demo_order_size)
qed



theorem step_two_admits_exactly_built_commands_witness:
  "\<exists>k (ver :: stage_verdict) c. sv_outcome ver = ADMIT \<and> cn_command k = Some c \<and>
    order_construction_stage demo_registry demo_order_config (demo_order_request CANDIDATE_COMMAND_CONSTRUCTION)
      new_construction_world = (Inr (Some ver), new_construction_world\<lparr>kw_construction := Some k\<rparr>) \<and>
    cn_derivation k = derived_size (Dec 3 0) (Dec 1 2) \<and>
    command_axis_value c AX_QUANTITY = Some (dec_str (Dec 3 0)) \<and> command_axis_value c AX_SIDE = Some ''BUY''"
proof (rule demo_order_built)
  fix k
  let ?s = CANDIDATE_COMMAND_CONSTRUCTION and ?w = new_construction_world
  assume run: "order_construction_stage demo_registry demo_order_config (demo_order_request ?s) ?w =
      (Inr (Some (candidate_command_verdict (Some k) ?s)), ?w\<lparr>kw_construction := Some k\<rparr>)"
    and built: "cn_command k \<noteq> None" "sv_outcome (candidate_command_verdict (Some k) ?s) = ADMIT"
  obtain c where c: "cn_command k = Some c" using built by blast
  have side: "pe_authorized_axis_bindings (kc_envelope demo_order_config) = [\<lparr>ab_axis = Some AX_SIDE, ab_value = Some ''BUY''\<rparr>]"
    by (simp add: demo_order_config_def demo_proposed_envelope_def)
  from step_two_admits_exactly_built_commands[OF run] have
    "cn_derivation k = derived_size (Dec 3 0) (Dec 1 2)"
    "command_axis_value c AX_QUANTITY = map_option dec_str (qd_quantity (cn_derivation k))"
    "command_axis_value c AX_SIDE = Some ''BUY''"
    by (simp_all add: demo_order_size c side)
  then show ?thesis using run built(2) c by (auto simp: derived_size_def)
qed



end
