(* ===== verification/Actions.thy ===== *)
theory Actions
  imports Tos_Prelude
begin

text \<open>
  Operations that change a state and may raise, for the components whose exceptions leave a state behind:
  an operation takes the state and yields a value or an exception together with the state it leaves.  A
  durable write has a fate the environment chooses: it commits, it does not happen and raises, or it
  commits and raises all the same.  Two judgements carry the proofs: a triple, which says what holds after
  an operation when it returns and when it raises, and the agreement of an operation with one that has no
  failing writes.
\<close>

section \<open>Operations with exceptions\<close>

type_synonym ('s, 'a) act = "'s \<Rightarrow> (pystr, 'a) result \<times> 's"

definition ret :: "'a \<Rightarrow> ('s, 'a) act" where
  "ret x s = (Inr x, s)"

definition raising :: "pystr \<Rightarrow> ('s, 'a) act" where
  "raising err s = (Inl err, s)"

definition andthen :: "('s, 'a) act \<Rightarrow> ('a \<Rightarrow> ('s, 'b) act) \<Rightarrow> ('s, 'b) act" where
  "andthen m f s = (case m s of (Inl err, s') \<Rightarrow> (Inl err, s') | (Inr x, s') \<Rightarrow> f x s')"

definition reading :: "('s \<Rightarrow> 'a) \<Rightarrow> ('a \<Rightarrow> ('s, 'b) act) \<Rightarrow> ('s, 'b) act" where
  "reading g f s = f (g s) s"

definition update :: "('s \<Rightarrow> 's) \<Rightarrow> ('s, unit) act" where
  "update g s = (Inr (), g s)"

fun each :: "('a \<Rightarrow> ('s, unit) act) \<Rightarrow> 'a list \<Rightarrow> ('s, unit) act" where
  "each f [] = ret ()"
| "each f (x # xs) = andthen (f x) (\<lambda>_. each f xs)"

datatype fate = COMMITS | FAILS | COMMITS_AND_RAISES

section \<open>Triples\<close>

text \<open>What an operation does to states that satisfy \<open>P\<close>: \<open>Q\<close> when it returns, \<open>E\<close> when it raises.\<close>

definition upholds :: "('s \<Rightarrow> bool) \<Rightarrow> ('s, 'a) act \<Rightarrow> ('a \<Rightarrow> 's \<Rightarrow> bool) \<Rightarrow> ('s \<Rightarrow> bool) \<Rightarrow> bool" where
  "upholds P m Q E = (\<forall>s. P s \<longrightarrow> (case m s of (Inl _, s') \<Rightarrow> E s' | (Inr x, s') \<Rightarrow> Q x s'))"

lemma upholdsD:
  "upholds P m Q E \<Longrightarrow> P s \<Longrightarrow> m s = (Inr x, s') \<Longrightarrow> Q x s'"
  "upholds P m Q E \<Longrightarrow> P s \<Longrightarrow> m s = (Inl err, s') \<Longrightarrow> E s'"
  by (force simp: upholds_def)+

lemma upholdsI:
  "(\<And>s x s'. P s \<Longrightarrow> m s = (Inr x, s') \<Longrightarrow> Q x s') \<Longrightarrow> (\<And>s err s'. P s \<Longrightarrow> m s = (Inl err, s') \<Longrightarrow> E s') \<Longrightarrow>
    upholds P m Q E"
  by (auto simp: upholds_def split: prod.split sum.split)

lemma upholds_weaken:
  "upholds P m Q E \<Longrightarrow> (\<And>s. P' s \<Longrightarrow> P s) \<Longrightarrow> (\<And>x s. Q x s \<Longrightarrow> Q' x s) \<Longrightarrow> (\<And>s. E s \<Longrightarrow> E' s) \<Longrightarrow> upholds P' m Q' E'"
  by (rule upholdsI) (blast dest: upholdsD)+

lemma upholds_pre: "upholds P m Q E \<Longrightarrow> (\<And>s. P' s \<Longrightarrow> P s) \<Longrightarrow> upholds P' m Q E"
  by (rule upholds_weaken)

lemma upholds_ret: "(\<And>s. P s \<Longrightarrow> Q x s) \<Longrightarrow> upholds P (ret x) Q E"
  by (simp add: upholds_def ret_def)

lemma upholds_raising: "(\<And>s. P s \<Longrightarrow> E s) \<Longrightarrow> upholds P (raising err) Q E"
  by (simp add: upholds_def raising_def)

lemma upholds_andthen:
  "upholds P m Q E \<Longrightarrow> (\<And>x. upholds (Q x) (f x) R E) \<Longrightarrow> upholds P (andthen m f) R E"
  by (rule upholdsI) (auto simp: andthen_def dest: upholdsD split: prod.splits sum.splits)

lemma upholds_reading:
  "(\<And>x. upholds (\<lambda>s. P s \<and> g s = x) (f x) Q E) \<Longrightarrow> upholds P (reading g f) Q E"
  by (auto simp: upholds_def reading_def)

lemma upholds_update: "(\<And>s. P s \<Longrightarrow> Q () (g s)) \<Longrightarrow> upholds P (update g) Q E"
  by (simp add: upholds_def update_def)

lemma upholds_each:
  "(\<And>x. x \<in> set xs \<Longrightarrow> upholds P (f x) (\<lambda>_. P) E) \<Longrightarrow> upholds P (each f xs) (\<lambda>_. P) E"
  by (induction xs) (auto intro!: upholds_ret intro: upholds_andthen)

text \<open>An invariant, kept also by an exception.\<close>

definition keeps :: "('s \<Rightarrow> bool) \<Rightarrow> ('s, 'a) act \<Rightarrow> bool" where
  "keeps P m \<longleftrightarrow> upholds P m (\<lambda>_. P) P"

lemma keepsD: "keeps P m \<Longrightarrow> P s \<Longrightarrow> m s = (x, s') \<Longrightarrow> P s'"
  unfolding keeps_def by (cases x) (auto dest: upholdsD)

lemma keepsI: "(\<And>s x s'. P s \<Longrightarrow> m s = (x, s') \<Longrightarrow> P s') \<Longrightarrow> keeps P m"
  unfolding keeps_def by (rule upholdsI)

lemma keeps_ret [intro!]: "keeps P (ret x)"
  unfolding keeps_def by (rule upholds_ret)

lemma keeps_raising [intro!]: "keeps P (raising err)"
  unfolding keeps_def by (rule upholds_raising)

lemma keeps_andthen [intro!]: "keeps P m \<Longrightarrow> (\<And>x. keeps P (f x)) \<Longrightarrow> keeps P (andthen m f)"
  unfolding keeps_def by (rule upholds_andthen)

lemma keeps_reading [intro!]: "(\<And>x. keeps P (f x)) \<Longrightarrow> keeps P (reading g f)"
  by (rule keepsI) (auto simp: reading_def dest: keepsD)

lemma keeps_update [intro!]: "(\<And>s. P s \<Longrightarrow> P (g s)) \<Longrightarrow> keeps P (update g)"
  unfolding keeps_def by (rule upholds_update)

lemma keeps_each [intro!]: "(\<And>x. x \<in> set xs \<Longrightarrow> keeps P (f x)) \<Longrightarrow> keeps P (each f xs)"
  by (induction xs) auto

section \<open>Agreement\<close>

text \<open>
  \<open>follows v faults m f\<close>: \<open>m\<close> either does on the state seen through \<open>v\<close> what \<open>f\<close> does, without a fault, or one
  fault more is counted and the exception of the failed write escapes.
\<close>

definition follows ::
  "('s \<Rightarrow> 't) \<Rightarrow> ('s \<Rightarrow> nat) \<Rightarrow> ('s, 'a) act \<Rightarrow> ('t, 'a) act \<Rightarrow> bool" where
  "follows v faults m f = (\<forall>s. case m s of (x, s') \<Rightarrow>
    (faults s' = faults s \<and> f (v s) = (x, v s')) \<or> (faults s' = Suc (faults s) \<and> x = Inl ''OperationalError''))"

lemma followsD:
  assumes "follows v faults m f" "m s = (x, s')"
  obtains (same) "faults s' = faults s" "f (v s) = (x, v s')"
  | (fault) "faults s' = Suc (faults s)" "x = Inl ''OperationalError''"
proof -
  from assms(1) have "case m s of (x, s') \<Rightarrow> (faults s' = faults s \<and> f (v s) = (x, v s')) \<or>
      (faults s' = Suc (faults s) \<and> x = Inl ''OperationalError'')"
    unfolding follows_def by (rule spec)
  with assms(2) that show thesis by auto
qed

lemma followsI:
  "(\<And>s x s'. m s = (x, s') \<Longrightarrow> (faults s' = faults s \<and> f (v s) = (x, v s')) \<or>
      (faults s' = Suc (faults s) \<and> x = Inl ''OperationalError'')) \<Longrightarrow> follows v faults m f"
  by (auto simp: follows_def split: prod.split)

lemma follows_ret [intro!]: "follows v faults (ret x) (ret x)"
  by (rule followsI) (auto simp: ret_def)

lemma follows_raising [intro!]: "follows v faults (raising err) (raising err)"
  by (rule followsI) (auto simp: raising_def)

lemma follows_andthen [intro!]:
  assumes "follows v faults m f" "\<And>x. follows v faults (k x) (g x)"
  shows "follows v faults (andthen m k) (andthen f g)"
proof (rule followsI)
  fix s x s' assume eq: "andthen m k s = (x, s')"
  obtain y s1 where m: "m s = (y, s1)" by force
  from assms(1) m show "(faults s' = faults s \<and> andthen f g (v s) = (x, v s')) \<or>
      (faults s' = Suc (faults s) \<and> x = Inl ''OperationalError'')"
  proof (cases rule: followsD)
    case same
    show ?thesis
    proof (cases y)
      case (Inl err)
      with eq m same show ?thesis by (auto simp: andthen_def)
    next
      case (Inr z)
      with eq m have "k z s1 = (x, s')" by (simp add: andthen_def)
      from assms(2) this show ?thesis
        by (cases rule: followsD) (use Inr m same in \<open>auto simp: andthen_def\<close>)
    qed
  next
    case fault
    with eq m show ?thesis by (simp add: andthen_def)
  qed
qed

lemma follows_reading [intro!]:
  "(\<And>s. g s = h (v s)) \<Longrightarrow> (\<And>x. follows v faults (k x) (f x)) \<Longrightarrow> follows v faults (reading g k) (reading h f)"
  by (simp add: follows_def reading_def)

lemma follows_update [intro!]:
  "(\<And>s. v (g s) = h (v s)) \<Longrightarrow> (\<And>s. faults (g s) = faults s) \<Longrightarrow> follows v faults (update g) (update h)"
  by (simp add: follows_def update_def)

end
