(* ===== verification/Engine_Durable.thy ===== *)
theory Engine_Durable
  imports Engine_Core Actions
begin

text \<open>
  The core of \<^verbatim>\<open>tos/engine/core.py\<close> and the commitment flow of \<^verbatim>\<open>tos/engine/sequencer.py\<close> on the sink
  the runtime wires (\<^verbatim>\<open>tos_runtime/compose/_engine_wiring.py\<close>), the \<^verbatim>\<open>EngineEvidenceSinkAdapter\<close> of
  \<^verbatim>\<open>tos_runtime/evidence/sinks.py\<close>: its \<^verbatim>\<open>record\<close> returns only after the store has committed, and raises on
  any failure.  No caller in the core catches that exception, so it leaves the event where it stands: the
  ledger keeps what was changed before the record, and nothing after it happens.

  Engine_Pipeline, Engine_Sequencer and Engine_Core model the same code on the sink of the kernel,
  \<^verbatim>\<open>RecordingEvidenceSink\<close>, a list that never fails.  Every operation here either does what its counterpart
  there does or ends with the exception of one failed record (\<open>handle_follows\<close>), so what holds of an event
  there holds here of every event that returns.
\<close>

section \<open>The sink that may raise\<close>

text \<open>
  \<open>dc_raised\<close> is an observation nothing reads: the records whose recording raised, each with whether the
  store has it all the same.
\<close>

record 'w durable_core =
  dc_core :: "'w core"
  dc_fates :: "fate list"
  dc_raised :: "(engine_evidence_record \<times> bool) list"

abbreviation dc_engine :: "'w durable_core \<Rightarrow> 'w engine_state" where
  "dc_engine dc \<equiv> co_engine (dc_core dc)"

definition record_durably :: "engine_evidence_record \<Rightarrow> ('w durable_core, unit) act" where
  "record_durably d dc =
    (case dc_fates dc of
       [] \<Rightarrow> (Inr (), dc\<lparr>dc_core := core_record (dc_core dc) d\<rparr>)
     | fate # fates \<Rightarrow>
         (let dc1 = dc\<lparr>dc_fates := fates\<rparr>; written = dc1\<lparr>dc_core := core_record (dc_core dc) d\<rparr>
          in case fate of
               COMMITS \<Rightarrow> (Inr (), written)
             | FAILS \<Rightarrow> (Inl ''OperationalError'', dc1\<lparr>dc_raised := dc_raised dc @ [(d, False)]\<rparr>)
             | COMMITS_AND_RAISES \<Rightarrow>
                 (Inl ''OperationalError'', written\<lparr>dc_raised := dc_raised dc @ [(d, True)]\<rparr>)))"

text \<open>What does not record: the ledger and the injected calls.\<close>

definition on_core :: "('w core, 'a) act \<Rightarrow> ('w durable_core, 'a) act" where
  "on_core m dc = (let (x, co) = m (dc_core dc) in (x, dc\<lparr>dc_core := co\<rparr>))"

definition with_ledger :: "'w core \<Rightarrow> projection_ledger \<Rightarrow> 'w core" where
  "with_ledger co l = co\<lparr>co_engine := (co_engine co)\<lparr>es_ledger := l\<rparr>\<rparr>"

definition ledger_step :: "(projection_ledger \<Rightarrow> (pystr, projection_ledger) result) \<Rightarrow> ('w core, unit) act" where
  "ledger_step f co =
    (case f (es_ledger (co_engine co)) of Inl err \<Rightarrow> (Inl err, co) | Inr l \<Rightarrow> (Inr (), with_ledger co l))"

definition world_call :: "('w \<Rightarrow> 'r \<times> 'w) \<Rightarrow> ('w core, 'r) act" where
  "world_call f co = (let (r, w) = f (es_world (co_engine co)) in (Inr r, with_world co w))"

section \<open>The commitment flow\<close>

datatype walked = Stopped flow_result | Onward "stage_verdict list" "attempt_request option"

definition stopped_result ::
  "flow_context \<Rightarrow> stage_verdict list \<Rightarrow> commitment_step \<Rightarrow> halt_reason \<Rightarrow> flow_result" where
  "stopped_result fc vs step reason =
    \<lparr>fl_instrument_key = fc_instrument_key fc, fl_verdicts = vs, fl_attempt = None, fl_handed_off = False,
     fl_handoff = None, fl_halt_step = Some step, fl_halt_reason = Some reason\<rparr>"

definition stop_durably ::
  "flow_context \<Rightarrow> stage_verdict list \<Rightarrow> commitment_step \<Rightarrow> halt_reason \<Rightarrow> ('w durable_core, flow_result) act" where
  "stop_durably fc vs step reason =
    andthen (record_durably (halt_record fc step reason)) (\<lambda>_. ret (stopped_result fc vs step reason))"

definition halt_durably ::
  "flow_context \<Rightarrow> stage_verdict list \<Rightarrow> commitment_step \<Rightarrow> halt_reason \<Rightarrow> ('w durable_core, walked) act" where
  "halt_durably fc vs step reason = andthen (stop_durably fc vs step reason) (\<lambda>r. ret (Stopped r))"

definition created_record :: "flow_context \<Rightarrow> attempt_request \<Rightarrow> engine_evidence_record" where
  "created_record fc a =
    (evidence ATTEMPT_REQUEST_CREATED (fc_instrument_key fc))
      \<lparr>ee_step := Some ATTEMPT_REQUEST, ee_attempt_id := Some (at_attempt_id a), ee_event_id := fc_event_id fc\<rparr>"

definition attempt_durably ::
  "flow_context \<Rightarrow> stage_verdict list \<Rightarrow> ('w durable_core, walked) act" where
  "attempt_durably fc vs =
    (let (proof_digest, permit) = bindings_from vs
     in case build_attempt_request (fc_scheme fc) proof_digest permit (fc_reference fc) of
       Inl err \<Rightarrow>
         if err = ''ArtifactIntegrityError'' then halt_durably fc vs ATTEMPT_REQUEST ATTEMPT_BINDING_INCOMPLETE
         else raising err
     | Inr a \<Rightarrow>
         andthen (on_core (ledger_step (\<lambda>l. bind_attempt l (fc_instrument_key fc) (at_attempt_id a)))) (\<lambda>_.
         andthen (record_durably (created_record fc a)) (\<lambda>_.
           ret (Onward (vs @ [coordinator_verdict ATTEMPT_REQUEST ''AttemptRequest'' None (Some (at_attempt_id a))
             ''unique attempt request bound to the exact proof and permit'']) (Some a)))))"

definition judge_durably ::
  "flow_context \<Rightarrow> commitment_step \<Rightarrow> stage_verdict \<Rightarrow> stage_verdict list \<Rightarrow> attempt_request option \<Rightarrow>
    ('w durable_core, walked) act" where
  "judge_durably fc step v vs0 attempt =
    (if sv_step v \<noteq> step then halt_durably fc vs0 step STAGE_VERDICT_STEP_MISMATCH
     else
       (let vs = vs0 @ [v]
        in if sv_outcome v \<noteq> ADMIT
           then halt_durably fc vs step (if sv_outcome v = OUTCOME_UNKNOWN then STAGE_UNKNOWN else STAGE_DENIED)
           else
             andthen (record_durably (admitted_record fc v)) (\<lambda>_.
               if step = ATOMIC_COMMIT then
                 reading (\<lambda>dc. es_ledger (dc_engine dc)) (\<lambda>l.
                   case commit_unbound l (fc_instrument_key fc) (fc_proposal_id fc) of
                     Inl err \<Rightarrow> halt_durably fc vs step AT_MOST_ONE_EXPOSURE_HELD
                   | Inr l' \<Rightarrow> andthen (on_core (update (\<lambda>co. with_ledger co l'))) (\<lambda>_. ret (Onward vs attempt)))
               else ret (Onward vs attempt))))"

definition stage_durably ::
  "flow_context \<Rightarrow> 'w stage_map \<Rightarrow> commitment_step \<Rightarrow> stage_verdict list \<Rightarrow> attempt_request option \<Rightarrow>
    ('w durable_core, walked) act" where
  "stage_durably fc stages step vs attempt =
    (case map_of stages step of
       None \<Rightarrow> halt_durably fc vs step STAGE_MISSING
     | Some stage \<Rightarrow>
         reading (\<lambda>dc. stage_request_of fc step \<lparr>fs_verdicts = vs, fs_attempt = attempt, fs_engine = dc_engine dc\<rparr>)
           (\<lambda>request. andthen (on_core (world_call (stage request))) (\<lambda>r.
             case r of
               Inl err \<Rightarrow> halt_durably fc vs step STAGE_RAISED
             | Inr None \<Rightarrow> halt_durably fc vs step STAGE_VERDICT_ABSENT
             | Inr (Some v) \<Rightarrow> judge_durably fc step v vs attempt)))"

definition step_durably ::
  "flow_context \<Rightarrow> 'w stage_map \<Rightarrow> commitment_step \<Rightarrow> stage_verdict list \<Rightarrow> attempt_request option \<Rightarrow>
    ('w durable_core, walked) act" where
  "step_durably fc stages step vs attempt =
    (if step = DECISION_PROPOSAL then
       ret (Onward (vs @ [coordinator_verdict DECISION_PROPOSAL ''Proposal'' (ar_canonical_digest (fc_proposal fc))
         (fc_proposal_id fc) ''immutable Intent proposal emitted by the decision pipeline'']) attempt)
     else if step = ATTEMPT_REQUEST then attempt_durably fc vs
     else reading (\<lambda>dc. admits_new_exposure (es_ledger (dc_engine dc)) (fc_instrument_key fc)) (\<lambda>admits.
       if step = LEDGER_VERIFICATION \<and> \<not> admits then halt_durably fc vs step AT_MOST_ONE_EXPOSURE_HELD
       else stage_durably fc stages step vs attempt))"

fun walk_durably ::
  "flow_context \<Rightarrow> 'w stage_map \<Rightarrow> commitment_step list \<Rightarrow> stage_verdict list \<Rightarrow> attempt_request option \<Rightarrow>
    ('w durable_core, walked) act" where
  "walk_durably fc stages [] vs attempt = ret (Onward vs attempt)"
| "walk_durably fc stages (step # steps) vs attempt =
    andthen (step_durably fc stages step vs attempt) (\<lambda>z.
      case z of
        Stopped r \<Rightarrow> ret (Stopped r)
      | Onward vs' attempt' \<Rightarrow> walk_durably fc stages steps vs' attempt')"

definition handed_off_result ::
  "flow_context \<Rightarrow> stage_verdict list \<Rightarrow> attempt_request \<Rightarrow> send_handoff \<Rightarrow> flow_result" where
  "handed_off_result fc vs a h =
    \<lparr>fl_instrument_key = fc_instrument_key fc, fl_verdicts = vs, fl_attempt = Some a, fl_handed_off = True,
     fl_handoff = Some h, fl_halt_step = None, fl_halt_reason = None\<rparr>"

definition hand_off_durably ::
  "flow_context \<Rightarrow> 'w transmit option \<Rightarrow> stage_verdict list \<Rightarrow> attempt_request option \<Rightarrow>
    ('w durable_core, flow_result) act" where
  "hand_off_durably fc transmit vs attempt =
    (case attempt of
       None \<Rightarrow> stop_durably fc vs ATTEMPT_REQUEST ATTEMPT_BINDING_INCOMPLETE
     | Some a \<Rightarrow>
         (case transmit of
            None \<Rightarrow> stop_durably fc vs SEND_BOUNDARY_VERIFICATION TRANSMIT_UNAVAILABLE
          | Some send \<Rightarrow>
              andthen (on_core (ledger_step (\<lambda>l. mark_potentially_live l (fc_instrument_key fc)))) (\<lambda>_.
              andthen (on_core (world_call (send a))) (\<lambda>r.
                case r of
                  Inl err \<Rightarrow> stop_durably fc vs NETWORK_CALL TRANSMIT_RAISED
                | Inr h \<Rightarrow> andthen (record_durably (handed_off_record fc a)) (\<lambda>_. ret (handed_off_result fc vs a h))))))"

definition flow_durably ::
  "flow_context \<Rightarrow> 'w stage_map \<Rightarrow> 'w transmit option \<Rightarrow> ('w durable_core, flow_result) act" where
  "flow_durably fc stages transmit =
    (case validate_stage_map stages of
       Inl err \<Rightarrow> raising err
     | Inr _ \<Rightarrow>
         andthen (walk_durably fc stages SEQUENCED_STEPS [] None) (\<lambda>z.
           case z of
             Stopped r \<Rightarrow> ret r
           | Onward vs attempt \<Rightarrow> hand_off_durably fc transmit vs attempt))"

section \<open>Decision ticks\<close>

text \<open>The pipeline reads no record and records last, so its records are those it makes on an empty sink.\<close>

definition pipeline_durably ::
  "('w, 'c) wiring \<Rightarrow> registered_strategy \<Rightarrow> decision_tick_payload \<Rightarrow> ('w durable_core, pipeline_result) act" where
  "pipeline_durably wi entry payload =
    (let (run, records) = run_decision_pipeline (wi_schemes wi) (wi_scheme wi) (wi_configuration wi) entry payload []
     in andthen (each record_durably records) (\<lambda>_. case run of Inl err \<Rightarrow> raising err | Inr pipeline \<Rightarrow> ret pipeline))"

definition refused_durably ::
  "scope_key \<Rightarrow> order_admission \<Rightarrow> halt_reason \<Rightarrow> ('w durable_core, event_result option) act" where
  "refused_durably key admission reason =
    andthen (record_durably ((evidence COORDINATOR_PRECONDITION_REFUSED key)\<lparr>ee_halt_reason := Some reason\<rparr>)) (\<lambda>_.
      ret (Some ((event_result TICK_KIND key admission)\<lparr>ev_halt_reason := Some reason\<rparr>)))"

definition preconditions_durably ::
  "('w, 'c) wiring \<Rightarrow> scope_key \<Rightarrow> order_admission \<Rightarrow> ('w durable_core, event_result option) act" where
  "preconditions_durably wi key admission =
    andthen (on_core (world_call (wi_authority_epoch_current wi))) (\<lambda>current.
      if current = Some True then
        andthen (on_core (world_call (wi_live_scope_authorized wi (wi_transport_nature wi)))) (\<lambda>authorized.
          if authorized = Some True then ret None
          else refused_durably key admission LIVE_SCOPE_NOT_AUTHORIZED)
      else refused_durably key admission AUTHORITY_NOT_CURRENT)"

fun entries_durably ::
  "('w, 'c) wiring \<Rightarrow> decision_tick_payload \<Rightarrow> order_admission \<Rightarrow> pystr \<Rightarrow> registered_strategy list \<Rightarrow>
    pipeline_result option \<Rightarrow> ('w durable_core, event_result) act" where
  "entries_durably wi payload admission event_id [] last_pipeline =
    reading (\<lambda>dc. outstanding (es_ledger (dc_engine dc)) (dt_instrument_key payload)) (\<lambda>reservation.
      ret ((event_result TICK_KIND (dt_instrument_key payload) admission)
        \<lparr>ev_halt_reason := Option.bind last_pipeline pr_halt_reason, ev_pipeline := last_pipeline,
         ev_reservation := reservation\<rparr>))"
| "entries_durably wi payload admission event_id (entry # entries) last_pipeline =
    andthen (pipeline_durably wi entry payload) (\<lambda>pipeline.
      case pr_proposal pipeline of
        None \<Rightarrow> entries_durably wi payload admission event_id entries (Some pipeline)
      | Some a \<Rightarrow>
          andthen (flow_durably (flow_context_of wi payload event_id a) (wi_stages wi) (wi_transmit wi)) (\<lambda>f.
          reading (\<lambda>dc. outstanding (es_ledger (dc_engine dc)) (dt_instrument_key payload)) (\<lambda>reservation.
            ret ((event_result TICK_KIND (dt_instrument_key payload) admission)
              \<lparr>ev_halt_reason := fl_halt_reason f, ev_pipeline := Some pipeline, ev_flow := Some f,
               ev_reservation := reservation\<rparr>))))"

definition withhold_durably ::
  "decision_tick_payload \<Rightarrow> order_admission \<Rightarrow> halt_reason \<Rightarrow> ('w durable_core, event_result) act" where
  "withhold_durably payload admission reason =
    (let key = dt_instrument_key payload
     in andthen (record_durably ((evidence DECISION_WITHHELD key)\<lparr>ee_halt_reason := Some reason\<rparr>)) (\<lambda>_.
          ret ((event_result TICK_KIND key admission)\<lparr>ev_halt_reason := Some reason\<rparr>)))"

definition tick_durably ::
  "('w, 'c) wiring \<Rightarrow> decision_tick_payload \<Rightarrow> order_admission \<Rightarrow> ('w durable_core, event_result) act" where
  "tick_durably wi payload admission =
    (let key = dt_instrument_key payload;
         event_id = event_identity (wi_event_dump wi) (cz_compute_digest (wi_scheme wi)) (DECISION_TICK payload)
     in andthen (preconditions_durably wi key admission) (\<lambda>refusal.
          case refusal of
            Some r \<Rightarrow> ret r
          | None \<Rightarrow>
              (case resolve (wi_registry wi) key of
                 MISSING \<Rightarrow> withhold_durably payload admission REGISTRY_MISSING
               | EXPLICIT_EMPTY \<Rightarrow> withhold_durably payload admission REGISTRY_EXPLICIT_EMPTY
               | DISPATCHED entries \<Rightarrow> entries_durably wi payload admission event_id entries None)))"

section \<open>Results and corporate actions\<close>

definition unmatched_record :: "egress_event \<Rightarrow> result_disposition \<Rightarrow> engine_evidence_record" where
  "unmatched_record payload disposition =
    (evidence RESULT_UNMATCHED (eg_instrument_key payload))
      \<lparr>ee_halt_reason := Some HALT_RESULT_UNMATCHED, ee_egress_result_kind := Some (eg_kind payload),
       ee_result_disposition := Some disposition, ee_attempt_id := Some (eg_attempt_id payload),
       ee_filled_quantity := eg_filled_quantity payload, ee_remaining_quantity := eg_remaining_quantity payload,
       ee_broker_execution_id := eg_broker_execution_id payload, ee_trading_date := eg_trading_date payload\<rparr>"

definition consumed_result_record ::
  "egress_event \<Rightarrow> result_disposition \<Rightarrow> provisional_reservation \<Rightarrow> engine_evidence_record" where
  "consumed_result_record payload disposition r =
    (evidence EGRESS_RESULT_CONSUMED (eg_instrument_key payload))
      \<lparr>ee_egress_result_kind := Some (eg_kind payload), ee_result_disposition := Some disposition,
       ee_capacity_state := Some (pv_capacity_state r), ee_knowledge := Some (pv_knowledge r),
       ee_attempt_id := Some (eg_attempt_id payload), ee_filled_quantity := pv_filled_quantity r,
       ee_remaining_quantity := pv_remaining_quantity r, ee_broker_execution_id := eg_broker_execution_id payload,
       ee_trading_date := eg_trading_date payload\<rparr>"

definition result_durably ::
  "('w, 'c) wiring \<Rightarrow> egress_event \<Rightarrow> order_admission \<Rightarrow> ('w durable_core, event_result) act" where
  "result_durably wi payload admission =
    reading (\<lambda>dc. es_ledger (dc_engine dc)) (\<lambda>l0.
      case apply_egress_result l0 (egress_result_payload.truncate payload) of
        Inl err \<Rightarrow> raising err
      | Inr (l, disposition) \<Rightarrow>
          (let key = eg_instrument_key payload; projection = outstanding l key;
               result = (event_result RESULT_KIND key admission)
                 \<lparr>ev_reservation := projection, ev_result_disposition := Some disposition,
                  ev_result_outcome_digest := Some (egress_result_outcome_digest (cz_compute_digest (wi_scheme wi))
                    disposition projection)\<rparr>
           in andthen (on_core (update (\<lambda>co. with_ledger co l))) (\<lambda>_.
                if disposition \<noteq> APPLIED then
                  andthen (record_durably (unmatched_record payload disposition)) (\<lambda>_.
                    ret (result\<lparr>ev_halt_reason := Some HALT_RESULT_UNMATCHED\<rparr>))
                else case projection of
                  None \<Rightarrow> raising ''AssertionError''
                | Some r \<Rightarrow>
                    andthen (record_durably (consumed_result_record payload disposition r)) (\<lambda>_. ret result))))"

definition action_durably ::
  "('w, 'c) wiring \<Rightarrow> 'c corporate_action_payload \<Rightarrow> order_admission \<Rightarrow> ('w durable_core, event_result) act" where
  "action_durably wi payload admission =
    (let key = ca_instrument_key payload; oc = wi_handle_corporate_action wi payload
     in andthen (record_durably ((evidence CORPORATE_ACTION_CONSUMED key)
            \<lparr>ee_nontrade_disposition := Some (no_disposition oc), ee_outcome_digest := Some (no_outcome_digest oc)\<rparr>)) (\<lambda>_.
          ret ((event_result ACTION_KIND key admission)\<lparr>ev_nontrade_outcome := Some oc\<rparr>)))"

section \<open>Handling\<close>

definition handle_durably :: "('w, 'c) wiring \<Rightarrow> 'c engine_event \<Rightarrow> ('w durable_core, event_result) act" where
  "handle_durably wi event =
    (let kind = kind_of event; key = event_instrument_key event; reference = event_reference event
     in reading (\<lambda>dc. ordering_admission (co_last_reference (dc_core dc)) reference) (\<lambda>admission.
          if admission = REVERSED then
            andthen (record_durably ((evidence EVENT_REFUSED key)\<lparr>ee_halt_reason := Some EVENT_ORDER_REVERSED\<rparr>)) (\<lambda>_.
              ret ((event_result kind key admission)\<lparr>ev_halt_reason := Some EVENT_ORDER_REVERSED\<rparr>))
          else
            andthen (on_core (update (\<lambda>co. co\<lparr>co_last_reference := Some reference\<rparr>))) (\<lambda>_.
              case event of
                DECISION_TICK p \<Rightarrow> tick_durably wi p admission
              | EGRESS_RESULT p \<Rightarrow> result_durably wi p admission
              | CORPORATE_ACTION p \<Rightarrow> action_durably wi p admission)))"


section \<open>Agreement with the sink that never fails\<close>

abbreviation agrees :: "('w durable_core, 'a) act \<Rightarrow> ('w core, 'a) act \<Rightarrow> bool" where
  "agrees \<equiv> follows dc_core (\<lambda>dc. length (dc_raised dc))"

definition in_memory :: "engine_evidence_record \<Rightarrow> ('w core, unit) act" where
  "in_memory d = update (\<lambda>co. core_record co d)"

lemma record_agrees [intro!]: "agrees (record_durably d) (in_memory d)"
  by (rule followsI) (auto simp: record_durably_def in_memory_def update_def Let_def split: list.splits fate.splits)

lemma records_agree [intro!]: "agrees (each record_durably ds) (each in_memory ds)"
  by (induction ds) auto

lemma core_agrees [intro!]: "agrees (on_core m) m"
  by (rule followsI) (auto simp: on_core_def split: prod.splits)

text \<open>The operations of the kernel as operations on its core.\<close>

definition on_engine :: "('w engine_state \<Rightarrow> (pystr, 'a) result \<times> 'w engine_state) \<Rightarrow> ('w core, 'a) act" where
  "on_engine f co = (let (x, en) = f (co_engine co) in (x, co\<lparr>co_engine := en\<rparr>))"

fun walked_of :: "'w progress \<Rightarrow> (pystr, walked) result \<times> 'w engine_state" where
  "walked_of (Going st) = (Inr (Onward (fs_verdicts st) (fs_attempt st)), fs_engine st)"
| "walked_of (Halted r en) = (Inr (Stopped r), en)"
| "walked_of (Raised err en) = (Inl err, en)"

definition on_flow ::
  "('w flow_state \<Rightarrow> 'w progress) \<Rightarrow> stage_verdict list \<Rightarrow> attempt_request option \<Rightarrow> ('w core, walked) act" where
  "on_flow f vs attempt =
    on_engine (\<lambda>en. walked_of (f \<lparr>fs_verdicts = vs, fs_attempt = attempt, fs_engine = en\<rparr>))"

lemmas memory_defs = fun_eq_iff on_flow_def on_engine_def andthen_def ret_def raising_def reading_def update_def
  in_memory_def core_record_def record_evidence_def Let_def

lemma memory_stop:
  "on_engine (\<lambda>en. map_prod Inr id (stop_flow fc \<lparr>fs_verdicts = vs, fs_attempt = attempt, fs_engine = en\<rparr> step reason)) =
    andthen (in_memory (halt_record fc step reason)) (\<lambda>_. ret (stopped_result fc vs step reason))"
  by (simp add: memory_defs stop_flow_def stopped_result_def)

lemma memory_halt:
  "on_flow (\<lambda>st. halt fc st step reason) vs attempt =
    andthen (andthen (in_memory (halt_record fc step reason)) (\<lambda>_. ret (stopped_result fc vs step reason)))
      (\<lambda>r. ret (Stopped r))"
  by (simp add: memory_defs halt_def stop_flow_def stopped_result_def)

lemma stop_agrees:
  "agrees (stop_durably fc vs step reason)
    (on_engine (\<lambda>en. map_prod Inr id (stop_flow fc \<lparr>fs_verdicts = vs, fs_attempt = attempt, fs_engine = en\<rparr> step reason)))"
  unfolding memory_stop stop_durably_def by blast

lemma halt_agrees: "agrees (halt_durably fc vs step reason) (on_flow (\<lambda>st. halt fc st step reason) vs attempt)"
  unfolding memory_halt halt_durably_def stop_durably_def by blast

lemma memory_attempt:
  "on_flow (attempt_step fc) vs attempt =
    (let (proof_digest, permit) = bindings_from vs
     in case build_attempt_request (fc_scheme fc) proof_digest permit (fc_reference fc) of
       Inl err \<Rightarrow>
         if err = ''ArtifactIntegrityError'' then on_flow (\<lambda>st. halt fc st ATTEMPT_REQUEST ATTEMPT_BINDING_INCOMPLETE) vs attempt
         else raising err
     | Inr a \<Rightarrow>
         andthen (ledger_step (\<lambda>l. bind_attempt l (fc_instrument_key fc) (at_attempt_id a))) (\<lambda>_.
         andthen (in_memory (created_record fc a)) (\<lambda>_.
           ret (Onward (vs @ [coordinator_verdict ATTEMPT_REQUEST ''AttemptRequest'' None (Some (at_attempt_id a))
             ''unique attempt request bound to the exact proof and permit'']) (Some a)))))"
  by (auto simp: memory_defs attempt_step_def ledger_step_def with_ledger_def created_record_def
      split: prod.split sum.split)

lemma attempt_agrees: "agrees (attempt_durably fc vs) (on_flow (attempt_step fc) vs attempt)"
  unfolding memory_attempt attempt_durably_def Let_def
  by (auto intro!: halt_agrees split: prod.split sum.split)

lemma memory_judge:
  "on_flow (judge_verdict fc step v) vs0 attempt =
    (if sv_step v \<noteq> step then on_flow (\<lambda>st. halt fc st step STAGE_VERDICT_STEP_MISMATCH) vs0 attempt
     else
       (let vs = vs0 @ [v]
        in if sv_outcome v \<noteq> ADMIT
           then on_flow (\<lambda>st. halt fc st step (if sv_outcome v = OUTCOME_UNKNOWN then STAGE_UNKNOWN else STAGE_DENIED)) vs attempt
           else
             andthen (in_memory (admitted_record fc v)) (\<lambda>_.
               if step = ATOMIC_COMMIT then
                 reading (\<lambda>co. es_ledger (co_engine co)) (\<lambda>l.
                   case commit_unbound l (fc_instrument_key fc) (fc_proposal_id fc) of
                     Inl err \<Rightarrow> on_flow (\<lambda>st. halt fc st step AT_MOST_ONE_EXPOSURE_HELD) vs attempt
                   | Inr l' \<Rightarrow> andthen (update (\<lambda>co. with_ledger co l')) (\<lambda>_. ret (Onward vs attempt)))
               else ret (Onward vs attempt))))"
  by (auto simp: memory_defs judge_verdict_def with_ledger_def halt_def stop_flow_def split: sum.split)

lemma judge_agrees: "agrees (judge_durably fc step v vs attempt) (on_flow (judge_verdict fc step v) vs attempt)"
  unfolding memory_judge judge_durably_def Let_def
  by (auto intro!: halt_agrees split: sum.split)

lemma memory_stage:
  "on_flow (stage_step fc stages step) vs attempt =
    (case map_of stages step of
       None \<Rightarrow> on_flow (\<lambda>st. halt fc st step STAGE_MISSING) vs attempt
     | Some stage \<Rightarrow>
         reading (\<lambda>co. stage_request_of fc step \<lparr>fs_verdicts = vs, fs_attempt = attempt, fs_engine = co_engine co\<rparr>)
           (\<lambda>request. andthen (world_call (stage request)) (\<lambda>r.
             case r of
               Inl err \<Rightarrow> on_flow (\<lambda>st. halt fc st step STAGE_RAISED) vs attempt
             | Inr None \<Rightarrow> on_flow (\<lambda>st. halt fc st step STAGE_VERDICT_ABSENT) vs attempt
             | Inr (Some v) \<Rightarrow> on_flow (judge_verdict fc step v) vs attempt)))"
  by (auto simp: memory_defs stage_step_def world_call_def with_world_def split: prod.split sum.split option.split)

lemma stage_agrees: "agrees (stage_durably fc stages step vs attempt) (on_flow (stage_step fc stages step) vs attempt)"
  unfolding memory_stage stage_durably_def
  by (auto intro!: halt_agrees judge_agrees split: sum.split option.split)

lemma memory_step:
  "on_flow (flow_step fc stages step) vs attempt =
    (if step = DECISION_PROPOSAL then
       ret (Onward (vs @ [coordinator_verdict DECISION_PROPOSAL ''Proposal'' (ar_canonical_digest (fc_proposal fc))
         (fc_proposal_id fc) ''immutable Intent proposal emitted by the decision pipeline'']) attempt)
     else if step = ATTEMPT_REQUEST then on_flow (attempt_step fc) vs attempt
     else reading (\<lambda>co. admits_new_exposure (es_ledger (co_engine co)) (fc_instrument_key fc)) (\<lambda>admits.
       if step = LEDGER_VERIFICATION \<and> \<not> admits then on_flow (\<lambda>st. halt fc st step AT_MOST_ONE_EXPOSURE_HELD) vs attempt
       else on_flow (stage_step fc stages step) vs attempt))"
  by (auto simp: memory_defs flow_step_def)

lemma step_agrees: "agrees (step_durably fc stages step vs attempt) (on_flow (flow_step fc stages step) vs attempt)"
  unfolding memory_step step_durably_def
  by (auto intro!: halt_agrees attempt_agrees stage_agrees)

lemma flow_state_parts:
  "\<lparr>fs_verdicts = fs_verdicts st, fs_attempt = fs_attempt st, fs_engine = fs_engine st\<rparr> = (st::'w flow_state)"
  by simp

lemma memory_walk:
  "on_flow (walk_steps fc stages (step # steps)) vs attempt =
    andthen (on_flow (flow_step fc stages step) vs attempt) (\<lambda>z.
      case z of
        Stopped r \<Rightarrow> ret (Stopped r)
      | Onward vs' attempt' \<Rightarrow> on_flow (walk_steps fc stages steps) vs' attempt')"
  by (auto simp: memory_defs flow_state_parts split: progress.split)

lemma walk_agrees: "agrees (walk_durably fc stages steps vs attempt) (on_flow (walk_steps fc stages steps) vs attempt)"
proof (induction steps arbitrary: vs attempt)
  case Nil
  have "on_flow (walk_steps fc stages []) vs attempt = ret (Onward vs attempt)" by (simp add: memory_defs)
  then show ?case by (simp only: walk_durably.simps follows_ret)
next
  case (Cons step steps)
  then show ?case
    unfolding memory_walk walk_durably.simps by (auto intro!: step_agrees split: walked.split)
qed

lemma memory_hand_off:
  "on_engine (\<lambda>en. hand_off fc transmit \<lparr>fs_verdicts = vs, fs_attempt = attempt, fs_engine = en\<rparr>) =
    (case attempt of
       None \<Rightarrow> on_engine (\<lambda>en. map_prod Inr id (stop_flow fc \<lparr>fs_verdicts = vs, fs_attempt = attempt, fs_engine = en\<rparr>
         ATTEMPT_REQUEST ATTEMPT_BINDING_INCOMPLETE))
     | Some a \<Rightarrow>
         (case transmit of
            None \<Rightarrow> on_engine (\<lambda>en. map_prod Inr id (stop_flow fc \<lparr>fs_verdicts = vs, fs_attempt = attempt, fs_engine = en\<rparr>
              SEND_BOUNDARY_VERIFICATION TRANSMIT_UNAVAILABLE))
          | Some send \<Rightarrow>
              andthen (ledger_step (\<lambda>l. mark_potentially_live l (fc_instrument_key fc))) (\<lambda>_.
              andthen (world_call (send a)) (\<lambda>r.
                case r of
                  Inl err \<Rightarrow> on_engine (\<lambda>en. map_prod Inr id (stop_flow fc
                    \<lparr>fs_verdicts = vs, fs_attempt = attempt, fs_engine = en\<rparr> NETWORK_CALL TRANSMIT_RAISED))
                | Inr h \<Rightarrow> andthen (in_memory (handed_off_record fc a)) (\<lambda>_. ret (handed_off_result fc vs a h))))))"
  by (auto simp: memory_defs hand_off_def stop_flow_def ledger_step_def with_ledger_def world_call_def with_world_def
      handed_off_result_def split: option.split sum.split prod.split)

lemma hand_off_agrees:
  "agrees (hand_off_durably fc transmit vs attempt)
    (on_engine (\<lambda>en. hand_off fc transmit \<lparr>fs_verdicts = vs, fs_attempt = attempt, fs_engine = en\<rparr>))"
  unfolding memory_hand_off hand_off_durably_def
  by (auto intro!: stop_agrees split: option.split sum.split)

lemma memory_flow:
  "on_engine (run_commitment_flow fc stages transmit) =
    (case validate_stage_map stages of
       Inl err \<Rightarrow> raising err
     | Inr _ \<Rightarrow>
         andthen (on_flow (walk_steps fc stages SEQUENCED_STEPS) [] None) (\<lambda>z.
           case z of
             Stopped r \<Rightarrow> ret r
           | Onward vs attempt \<Rightarrow> on_engine (\<lambda>en. hand_off fc transmit
               \<lparr>fs_verdicts = vs, fs_attempt = attempt, fs_engine = en\<rparr>)))"
  by (auto simp: memory_defs run_commitment_flow_def flow_start_def flow_state_parts
      split: sum.split progress.split)

lemma flow_agrees: "agrees (flow_durably fc stages transmit) (on_engine (run_commitment_flow fc stages transmit))"
  unfolding memory_flow flow_durably_def
  by (auto intro!: walk_agrees hand_off_agrees split: sum.split walked.split)

lemma pipeline_on:
  "run_decision_pipeline reg cz cg entry payload sink =
    (fst (run_decision_pipeline reg cz cg entry payload []), sink @ snd (run_decision_pipeline reg cz cg entry payload []))"
  by (auto simp: run_decision_pipeline_def withheld_def emit_degraded_def emit_outcome_def record_evidence_def Let_def
      split: option.split sum.split prod.split outcome.split)

lemma memory_records:
  "each in_memory ds co = (Inr (), co\<lparr>co_engine := (co_engine co)\<lparr>es_sink := es_sink (co_engine co) @ ds\<rparr>\<rparr>)"
  by (induction ds arbitrary: co) (simp_all add: memory_defs)

definition pipeline_act ::
  "('w, 'c) wiring \<Rightarrow> registered_strategy \<Rightarrow> decision_tick_payload \<Rightarrow> 'w engine_state \<Rightarrow>
    (pystr, pipeline_result) result \<times> 'w engine_state" where
  "pipeline_act wi entry payload en =
    (let (run, sink) = run_decision_pipeline (wi_schemes wi) (wi_scheme wi) (wi_configuration wi) entry payload
       (es_sink en)
     in (run, en\<lparr>es_sink := sink\<rparr>))"

lemma memory_pipeline:
  "on_engine (pipeline_act wi entry payload) =
    (let (run, records) = run_decision_pipeline (wi_schemes wi) (wi_scheme wi) (wi_configuration wi) entry payload []
     in andthen (each in_memory records) (\<lambda>_. case run of Inl err \<Rightarrow> raising err | Inr pipeline \<Rightarrow> ret pipeline))"
proof (rule ext)
  fix co :: "'a core"
  obtain run records where r: "run_decision_pipeline (wi_schemes wi) (wi_scheme wi) (wi_configuration wi) entry payload [] =
      (run, records)" by force
  show "on_engine (pipeline_act wi entry payload) co =
    (let (run, records) = run_decision_pipeline (wi_schemes wi) (wi_scheme wi) (wi_configuration wi) entry payload []
     in andthen (each in_memory records) (\<lambda>_. case run of Inl err \<Rightarrow> raising err | Inr pipeline \<Rightarrow> ret pipeline)) co"
    using pipeline_on[of "wi_schemes wi" "wi_scheme wi" "wi_configuration wi" entry payload "es_sink (co_engine co)"]
    by (simp add: r pipeline_act_def on_engine_def andthen_def memory_records raising_def ret_def split: sum.split)
qed

lemma pipeline_agrees:
  "agrees (pipeline_durably wi entry payload)
    (on_engine (pipeline_act wi entry payload))"
  unfolding memory_pipeline pipeline_durably_def by (auto simp: Let_def split: prod.split sum.split)

lemma memory_entries:
  "run_entries wi payload admission event_id [] last_pipeline =
    reading (\<lambda>co. outstanding (es_ledger (co_engine co)) (dt_instrument_key payload)) (\<lambda>reservation.
      ret ((event_result TICK_KIND (dt_instrument_key payload) admission)
        \<lparr>ev_halt_reason := Option.bind last_pipeline pr_halt_reason, ev_pipeline := last_pipeline,
         ev_reservation := reservation\<rparr>))"
  "run_entries wi payload admission event_id (entry # entries) last_pipeline =
    andthen (on_engine (pipeline_act wi entry payload)) (\<lambda>pipeline.
      case pr_proposal pipeline of
        None \<Rightarrow> run_entries wi payload admission event_id entries (Some pipeline)
      | Some a \<Rightarrow>
          andthen (on_engine (run_commitment_flow (flow_context_of wi payload event_id a) (wi_stages wi)
              (wi_transmit wi))) (\<lambda>f.
          reading (\<lambda>co. outstanding (es_ledger (co_engine co)) (dt_instrument_key payload)) (\<lambda>reservation.
            ret ((event_result TICK_KIND (dt_instrument_key payload) admission)
              \<lparr>ev_halt_reason := fl_halt_reason f, ev_pipeline := Some pipeline, ev_flow := Some f,
               ev_reservation := reservation\<rparr>))))"
  by (auto simp: memory_defs pipeline_act_def split: prod.split sum.split option.split)

lemma entries_agree:
  "agrees (entries_durably wi payload admission event_id entries last_pipeline)
    (run_entries wi payload admission event_id entries last_pipeline)"
  by (induction entries arbitrary: last_pipeline)
    (unfold memory_entries entries_durably.simps; auto intro!: pipeline_agrees flow_agrees split: option.split)+

lemma memory_refused:
  "(\<lambda>co. map_prod Inr id (coordinator_precondition_refused key admission reason co)) =
    andthen (in_memory ((evidence COORDINATOR_PRECONDITION_REFUSED key)\<lparr>ee_halt_reason := Some reason\<rparr>)) (\<lambda>_.
      ret (Some ((event_result TICK_KIND key admission)\<lparr>ev_halt_reason := Some reason\<rparr>)))"
  by (simp add: memory_defs coordinator_precondition_refused_def)

lemma refused_agrees:
  "agrees (refused_durably key admission reason)
    (\<lambda>co. map_prod Inr id (coordinator_precondition_refused key admission reason co))"
  unfolding memory_refused refused_durably_def by blast

lemma memory_preconditions:
  "(\<lambda>co. map_prod Inr id (coordinator_precondition_refusal wi key admission co)) =
    andthen (world_call (wi_authority_epoch_current wi)) (\<lambda>current.
      if current = Some True then
        andthen (world_call (wi_live_scope_authorized wi (wi_transport_nature wi))) (\<lambda>authorized.
          if authorized = Some True then ret None
          else (\<lambda>co. map_prod Inr id (coordinator_precondition_refused key admission LIVE_SCOPE_NOT_AUTHORIZED co)))
      else (\<lambda>co. map_prod Inr id (coordinator_precondition_refused key admission AUTHORITY_NOT_CURRENT co)))"
  by (auto simp: fun_eq_iff andthen_def ret_def world_call_def with_world_def coordinator_precondition_refusal_def Let_def
      split: prod.split)

lemma preconditions_agree:
  "agrees (preconditions_durably wi key admission)
    (\<lambda>co. map_prod Inr id (coordinator_precondition_refusal wi key admission co))"
  unfolding memory_preconditions preconditions_durably_def by (auto intro!: refused_agrees)

lemma memory_withhold:
  "withhold payload admission reason =
    andthen (in_memory ((evidence DECISION_WITHHELD (dt_instrument_key payload))\<lparr>ee_halt_reason := Some reason\<rparr>)) (\<lambda>_.
      ret ((event_result TICK_KIND (dt_instrument_key payload) admission)\<lparr>ev_halt_reason := Some reason\<rparr>))"
  by (simp add: memory_defs withhold_def)

lemma withhold_agrees: "agrees (withhold_durably payload admission reason) (withhold payload admission reason)"
  unfolding memory_withhold withhold_durably_def Let_def by blast

lemma memory_tick:
  "handle_decision_tick wi payload admission =
    andthen (\<lambda>co. map_prod Inr id (coordinator_precondition_refusal wi (dt_instrument_key payload) admission co)) (\<lambda>refusal.
      case refusal of
        Some r \<Rightarrow> ret r
      | None \<Rightarrow>
          (case resolve (wi_registry wi) (dt_instrument_key payload) of
             MISSING \<Rightarrow> withhold payload admission REGISTRY_MISSING
           | EXPLICIT_EMPTY \<Rightarrow> withhold payload admission REGISTRY_EXPLICIT_EMPTY
           | DISPATCHED entries \<Rightarrow> run_entries wi payload admission
               (event_identity (wi_event_dump wi) (cz_compute_digest (wi_scheme wi)) (DECISION_TICK payload)) entries None))"
  by (auto simp: fun_eq_iff handle_decision_tick_def andthen_def ret_def Let_def
      split: prod.split option.split dispatch.split)

lemma tick_agrees: "agrees (tick_durably wi payload admission) (handle_decision_tick wi payload admission)"
  unfolding memory_tick tick_durably_def Let_def
  by (auto intro!: preconditions_agree withhold_agrees entries_agree split: option.split dispatch.split)

lemma memory_result:
  "handle_egress_result wi payload admission =
    reading (\<lambda>co. es_ledger (co_engine co)) (\<lambda>l0.
      case apply_egress_result l0 (egress_result_payload.truncate payload) of
        Inl err \<Rightarrow> raising err
      | Inr (l, disposition) \<Rightarrow>
          (let key = eg_instrument_key payload; projection = outstanding l key;
               result = (event_result RESULT_KIND key admission)
                 \<lparr>ev_reservation := projection, ev_result_disposition := Some disposition,
                  ev_result_outcome_digest := Some (egress_result_outcome_digest (cz_compute_digest (wi_scheme wi))
                    disposition projection)\<rparr>
           in andthen (update (\<lambda>co. with_ledger co l)) (\<lambda>_.
                if disposition \<noteq> APPLIED then
                  andthen (in_memory (unmatched_record payload disposition)) (\<lambda>_.
                    ret (result\<lparr>ev_halt_reason := Some HALT_RESULT_UNMATCHED\<rparr>))
                else case projection of
                  None \<Rightarrow> raising ''AssertionError''
                | Some r \<Rightarrow>
                    andthen (in_memory (consumed_result_record payload disposition r)) (\<lambda>_. ret result))))"
  by (auto simp: memory_defs handle_egress_result_def with_ledger_def unmatched_record_def consumed_result_record_def
      split: prod.split sum.split option.split)

lemma result_agrees: "agrees (result_durably wi payload admission) (handle_egress_result wi payload admission)"
  unfolding memory_result result_durably_def Let_def
  by (auto split: prod.split sum.split option.split)

lemma memory_action:
  "handle_corporate_action wi payload admission =
    (let key = ca_instrument_key payload; oc = wi_handle_corporate_action wi payload
     in andthen (in_memory ((evidence CORPORATE_ACTION_CONSUMED key)
            \<lparr>ee_nontrade_disposition := Some (no_disposition oc), ee_outcome_digest := Some (no_outcome_digest oc)\<rparr>)) (\<lambda>_.
          ret ((event_result ACTION_KIND key admission)\<lparr>ev_nontrade_outcome := Some oc\<rparr>)))"
  by (simp add: memory_defs handle_corporate_action_def)

lemma action_agrees: "agrees (action_durably wi payload admission) (handle_corporate_action wi payload admission)"
  unfolding memory_action action_durably_def Let_def by blast

lemma memory_handle:
  "handle wi event =
    reading (\<lambda>co. ordering_admission (co_last_reference co) (event_reference event)) (\<lambda>admission.
      if admission = REVERSED then
        andthen (in_memory ((evidence EVENT_REFUSED (event_instrument_key event))
            \<lparr>ee_halt_reason := Some EVENT_ORDER_REVERSED\<rparr>)) (\<lambda>_.
          ret ((event_result (kind_of event) (event_instrument_key event) admission)
            \<lparr>ev_halt_reason := Some EVENT_ORDER_REVERSED\<rparr>))
      else
        andthen (update (\<lambda>co. co\<lparr>co_last_reference := Some (event_reference event)\<rparr>)) (\<lambda>_.
          case event of
            DECISION_TICK p \<Rightarrow> handle_decision_tick wi p admission
          | EGRESS_RESULT p \<Rightarrow> handle_egress_result wi p admission
          | CORPORATE_ACTION p \<Rightarrow> handle_corporate_action wi p admission))"
  by (auto simp: memory_defs handle_def split: engine_event.split)

lemma handle_agrees: "agrees (handle_durably wi event) (handle wi event)"
  unfolding memory_handle handle_durably_def Let_def
  by (auto intro!: tick_agrees result_agrees action_agrees split: engine_event.split)

text \<open>
  An event on the raising sink ends in one of two ways: no record raised, and the result, the exception
  included, and the core are those of the sink that never fails; or exactly one record raised and its
  exception escaped.
\<close>

lemma handle_follows:
  assumes "handle_durably wi event dc = (x, dc')"
  shows "(length (dc_raised dc') = length (dc_raised dc) \<and> handle wi event (dc_core dc) = (x, dc_core dc')) \<or>
    (length (dc_raised dc') = Suc (length (dc_raised dc)) \<and> x = Inl ''OperationalError'')"
  using followsD[OF handle_agrees assms] by (metis (no_types))

lemma returned_events_agree:
  "handle_durably wi event dc = (Inr r, dc') \<Longrightarrow> handle wi event (dc_core dc) = (Inr r, dc_core dc')"
  using handle_follows by fastforce

section \<open>The fates\<close>

text \<open>What the records keep, and nothing else can change, every event keeps.\<close>

locale bookkeeping =
  fixes I :: "'w durable_core \<Rightarrow> bool"
  assumes recording: "keeps I (record_durably d)" and elsewhere: "I (dc\<lparr>dc_core := co\<rparr>) = I dc"
begin

lemma core_kept: "keeps I (on_core m)"
  by (rule keepsI) (auto simp: on_core_def elsewhere split: prod.splits)

lemma stops_kept: "keeps I (stop_durably fc vs step reason)" "keeps I (halt_durably fc vs step reason)"
  unfolding halt_durably_def stop_durably_def by (intro keeps_andthen keeps_ret recording)+

lemma steps_kept: "keeps I (step_durably fc stages step vs attempt)"
  unfolding step_durably_def attempt_durably_def stage_durably_def judge_durably_def Let_def
  by (auto intro!: stops_kept recording core_kept split: prod.split sum.split option.split)

lemma walk_kept: "keeps I (walk_durably fc stages steps vs attempt)"
  by (induction steps arbitrary: vs attempt) (auto intro!: steps_kept split: walked.split)

lemma flow_kept: "keeps I (flow_durably fc stages transmit)"
  unfolding flow_durably_def hand_off_durably_def
  by (auto intro!: walk_kept stops_kept recording core_kept split: sum.split walked.split option.split)

lemma entries_kept: "keeps I (entries_durably wi payload admission event_id entries last_pipeline)"
  by (induction entries arbitrary: last_pipeline)
    (auto simp: pipeline_durably_def Let_def intro!: recording flow_kept split: prod.split sum.split option.split)

lemma handle_kept: "keeps I (handle_durably wi event)"
  unfolding handle_durably_def tick_durably_def preconditions_durably_def refused_durably_def withhold_durably_def
    result_durably_def action_durably_def Let_def
  by (auto intro!: recording core_kept entries_kept
      split: engine_event.split option.split dispatch.split sum.split prod.split)

end

definition all_commit :: "(engine_evidence_record \<times> bool) list \<Rightarrow> 'w durable_core \<Rightarrow> bool" where
  "all_commit raised dc = (set (dc_fates dc) \<subseteq> {COMMITS} \<and> dc_raised dc = raised)"

interpretation committing: bookkeeping "all_commit raised" for raised
  by unfold_locales
    (auto simp: all_commit_def record_durably_def Let_def intro!: keepsI split: list.splits fate.splits)

text \<open>While every record commits, an event is the event of the sink that never fails.\<close>

lemma committed_events_agree:
  assumes "set (dc_fates dc) \<subseteq> {COMMITS}"
  shows "\<exists>dc'. handle_durably wi event dc = (fst (handle wi event (dc_core dc)), dc') \<and>
    dc_core dc' = snd (handle wi event (dc_core dc)) \<and> dc_raised dc' = dc_raised dc \<and> set (dc_fates dc') \<subseteq> {COMMITS}"
proof -
  obtain x dc' where h: "handle_durably wi event dc = (x, dc')" by force
  have "all_commit (dc_raised dc) dc" using assms by (simp add: all_commit_def)
  from keepsD[OF committing.handle_kept this h] have "dc_raised dc' = dc_raised dc" "set (dc_fates dc') \<subseteq> {COMMITS}"
    by (simp_all add: all_commit_def)
  with handle_follows[OF h] h show ?thesis by auto
qed

text \<open>A hand-off whose report does not reach the store: the transmit was called, and the exception is all that tells.\<close>

lemma unreported_hand_off:
  assumes "mark_potentially_live (es_ledger (dc_engine dc)) (fc_instrument_key fc) = Inr l"
    "send a (es_world (dc_engine dc)) = (Inr h, w)" "dc_fates dc = FAILS # fates"
  shows "hand_off_durably fc (Some send) vs (Some a) dc =
    (Inl ''OperationalError'',
     dc\<lparr>dc_core := with_world (with_ledger (dc_core dc) l) w, dc_fates := fates,
       dc_raised := dc_raised dc @ [(handed_off_record fc a, False)]\<rparr>)"
  using assms
  by (simp add: hand_off_durably_def andthen_def on_core_def ledger_step_def with_ledger_def world_call_def with_world_def
      record_durably_def)

end
