(* ===== verification/Egress_Gateway.thy ===== *)
theory Egress_Gateway
  imports Send_Boundary
begin

text \<open>
  The broker egress gateway: the send seal (\<^verbatim>\<open>tos/egressgw/seal.py\<close>), the attempt ledger and the
  gateway itself (\<^verbatim>\<open>tos/egressgw/gateway.py\<close>), from the verify list to the single call of the
  transport.  The transport, the evidence sink and a context factory are not the gateway's own: they
  act on a world and may raise; a transport's reply may raise when it is read.  An evidence record
  keeps every field but its \<^verbatim>\<open>detail\<close> text; of an uncertain send that text is the ladder and the retry
  verdict, which are kept.  The lemmas say what a call records before and after the transport is called,
  that the transport is called at most once for an attempt, and with nothing but what was sealed.
\<close>

section \<open>The seal\<close>

record send_seal =
  sl_attempt_id :: pystr
  sl_instrument_key :: scope_key
  sl_request_bytes_digest :: pystr
  sl_canonical_command_digest :: pystr
  sl_capsule_egress_request_digest :: pystr
  sl_claim_request_digest :: pystr
  sl_claim_principal :: pystr
  sl_active_principal :: pystr
  sl_endpoint :: pystr
  sl_account :: pystr
  sl_environment :: pystr
  sl_route_identity :: pystr
  sl_credential_generation :: int
  sl_broker_session_generation :: int
  sl_egress_generation :: int
  sl_action :: pystr
  sl_method :: pystr
  sl_capability_nonce :: pystr
  sl_action_flow_permit_nonce :: pystr
  sl_outbound_coordinates :: "(pystr \<times> pystr option) list"
  sl_outbound_quantity :: pydec
  sl_outbound_price :: pydec
  sl_outbound_side :: pystr
  sl_reference :: ordering_event
  sl_reference_digest :: pystr
  sl_outbound_request_digest :: pystr
  sl_seal_digest :: pystr

definition coordinates_of :: "egress_coordinate_set \<Rightarrow> (pystr \<times> pystr option) list" where
  "coordinates_of a =
    [(''endpoint'', xc_endpoint a), (''account'', xc_account a), (''environment'', xc_environment a),
     (''action'', xc_action a), (''method'', xc_method a), (''route_identity'', xc_route_identity a),
     (''credential_generation'', map_option int_str (xc_credential_generation a)),
     (''broker_session_generation'', map_option int_str (xc_broker_session_generation a)),
     (''egress_generation'', map_option int_str (xc_egress_generation a)),
     (''active_principal'', xc_active_principal a)]"

definition no_coordinates :: egress_coordinate_set where
  "no_coordinates =
    \<lparr>xc_endpoint = None, xc_account = None, xc_environment = None, xc_action = None, xc_method = None,
     xc_route_identity = None, xc_credential_generation = None, xc_broker_session_generation = None,
     xc_egress_generation = None, xc_active_principal = None\<rparr>"

definition outbound_coordinates :: "send_boundary_context \<Rightarrow> (pystr \<times> pystr option) list" where
  "outbound_coordinates context =
    (case sx_authorized_coordinates context of
       None \<Rightarrow> coordinates_of no_coordinates | Some a \<Rightarrow> coordinates_of a)"

text \<open>What the constructor of a seal and its two validators accept.\<close>

definition sealed_strings :: "send_seal \<Rightarrow> pystr list" where
  "sealed_strings s =
    [sl_attempt_id s, sl_request_bytes_digest s, sl_canonical_command_digest s,
     sl_capsule_egress_request_digest s, sl_claim_request_digest s, sl_claim_principal s,
     sl_active_principal s, sl_endpoint s, sl_account s, sl_environment s, sl_route_identity s,
     sl_action s, sl_method s, sl_capability_nonce s, sl_action_flow_permit_nonce s]"

definition sealed_coordinates :: "send_seal \<Rightarrow> (pystr \<times> pystr option) list" where
  "sealed_coordinates s =
    [(''endpoint'', Some (sl_endpoint s)), (''account'', Some (sl_account s)),
     (''environment'', Some (sl_environment s)), (''action'', Some (sl_action s)),
     (''method'', Some (sl_method s)), (''route_identity'', Some (sl_route_identity s)),
     (''credential_generation'', Some (int_str (sl_credential_generation s))),
     (''broker_session_generation'', Some (int_str (sl_broker_session_generation s))),
     (''egress_generation'', Some (int_str (sl_egress_generation s))),
     (''active_principal'', Some (sl_active_principal s))]"

definition send_seal_ok :: "send_seal \<Rightarrow> bool" where
  "send_seal_ok s =
    (list_all (\<lambda>x. x \<noteq> []) (sealed_strings s) \<and> sl_outbound_coordinates s = sealed_coordinates s \<and>
     sl_claim_principal s = sl_active_principal s)"

subsection \<open>Building it\<close>

definition scope_json :: "scope_key \<Rightarrow> json" where
  "scope_json k = JObj [(''account'', JStr (fst k)), (''instrument'', JStr (snd k))]"

definition coordinates_json :: "(pystr \<times> pystr option) list \<Rightarrow> json" where
  "coordinates_json cs = JArr (map (\<lambda>(n, v). JArr [JStr n, jopt v]) cs)"

definition outbound_preimage ::
  "(pystr \<times> pystr option) list \<Rightarrow> pydec \<Rightarrow> pydec \<Rightarrow> pystr \<Rightarrow> pystr \<Rightarrow> pystr \<Rightarrow> scope_key \<Rightarrow> json" where
  "outbound_preimage coordinates quantity price side reference_digest attempt_id key =
    JObj [(''outbound_coordinates'', coordinates_json coordinates), (''outbound_quantity'', JNum quantity),
      (''outbound_price'', JNum price), (''outbound_side'', JStr side),
      (''reference_digest'', JStr reference_digest), (''attempt_id'', JStr attempt_id),
      (''instrument_key'', scope_json key)]"

text \<open>What the digest of a seal covers.\<close>

definition seal_covered :: "send_seal \<Rightarrow> json" where
  "seal_covered s =
    JObj [(''attempt_id'', JStr (sl_attempt_id s)), (''instrument_key'', scope_json (sl_instrument_key s)),
      (''request_bytes_digest'', JStr (sl_request_bytes_digest s)),
      (''canonical_command_digest'', JStr (sl_canonical_command_digest s)),
      (''capsule_egress_request_digest'', JStr (sl_capsule_egress_request_digest s)),
      (''claim_request_digest'', JStr (sl_claim_request_digest s)),
      (''claim_principal'', JStr (sl_claim_principal s)), (''active_principal'', JStr (sl_active_principal s)),
      (''endpoint'', JStr (sl_endpoint s)), (''account'', JStr (sl_account s)),
      (''environment'', JStr (sl_environment s)), (''route_identity'', JStr (sl_route_identity s)),
      (''credential_generation'', jint (Some (sl_credential_generation s))),
      (''broker_session_generation'', jint (Some (sl_broker_session_generation s))),
      (''egress_generation'', jint (Some (sl_egress_generation s))), (''action'', JStr (sl_action s)),
      (''method'', JStr (sl_method s)), (''capability_nonce'', JStr (sl_capability_nonce s)),
      (''action_flow_permit_nonce'', JStr (sl_action_flow_permit_nonce s)),
      (''outbound_quantity'', JNum (sl_outbound_quantity s)), (''outbound_price'', JNum (sl_outbound_price s)),
      (''outbound_side'', JStr (sl_outbound_side s)), (''reference'', ordering_event_json (sl_reference s)),
      (''outbound_coordinates'', coordinates_json (sl_outbound_coordinates s)),
      (''reference_digest'', JStr (sl_reference_digest s)),
      (''outbound_request_digest'', JStr (sl_outbound_request_digest s))]"

text \<open>The fields of a seal that a context supplies; none when one of them is missing.\<close>

definition gather_seal_fields ::
  "send_boundary_context \<Rightarrow> pystr \<Rightarrow> (pystr \<times> pystr option) list \<Rightarrow> send_seal option" where
  "gather_seal_fields context attempt_id coordinates =
    (case (sx_instrument_key context, sx_egress_request context, sx_capsule_egress_request_digest context,
        sx_request_digest context, sx_principal context, sx_authorized_coordinates context) of
       (Some key, Some request, Some capsule, Some claim_digest, Some who, Some x) \<Rightarrow>
         (case (rx_request_bytes_digest (ar_content request), rx_canonical_command_digest (ar_content request),
             xc_active_principal x, xc_endpoint x, xc_account x, xc_environment x, xc_route_identity x) of
            (Some bytes, Some command, Some active, Some endpoint, Some account, Some environment, Some route) \<Rightarrow>
              (case (xc_credential_generation x, xc_broker_session_generation x, xc_egress_generation x,
                  xc_action x, xc_method x) of
                 (Some credential, Some session, Some egress, Some action, Some method) \<Rightarrow>
                   (case (sx_capability_nonce context, sx_action_flow_permit_nonce context,
                       sx_outbound_quantity context, sx_outbound_price context, sx_outbound_side context) of
                      (Some capability, Some permit, Some quantity, Some price, Some side) \<Rightarrow>
                        Some \<lparr>sl_attempt_id = attempt_id, sl_instrument_key = key,
                          sl_request_bytes_digest = bytes, sl_canonical_command_digest = command,
                          sl_capsule_egress_request_digest = capsule, sl_claim_request_digest = claim_digest,
                          sl_claim_principal = who, sl_active_principal = active, sl_endpoint = endpoint,
                          sl_account = account, sl_environment = environment, sl_route_identity = route,
                          sl_credential_generation = credential, sl_broker_session_generation = session,
                          sl_egress_generation = egress, sl_action = action, sl_method = method,
                          sl_capability_nonce = capability, sl_action_flow_permit_nonce = permit,
                          sl_outbound_coordinates = coordinates, sl_outbound_quantity = quantity,
                          sl_outbound_price = price, sl_outbound_side = side,
                          sl_reference = sx_reference context, sl_reference_digest = [],
                          sl_outbound_request_digest = [], sl_seal_digest = []\<rparr>
                    | _ \<Rightarrow> None)
               | _ \<Rightarrow> None)
          | _ \<Rightarrow> None)
     | _ \<Rightarrow> None)"

definition digested :: "scheme \<Rightarrow> send_seal \<Rightarrow> send_seal" where
  "digested s gathered =
    (let reference_digest = reference_coordinate_digest s (sl_reference gathered);
         outbound = s (outbound_preimage (sl_outbound_coordinates gathered) (sl_outbound_quantity gathered)
           (sl_outbound_price gathered) (sl_outbound_side gathered) reference_digest (sl_attempt_id gathered)
           (sl_instrument_key gathered));
         sealed = gathered\<lparr>sl_reference_digest := reference_digest, sl_outbound_request_digest := outbound\<rparr>
     in sealed\<lparr>sl_seal_digest := s (seal_covered sealed)\<rparr>)"

text \<open>A seal that cannot be built is an exception, which the gateway turns into a stop.\<close>

definition build_send_seal ::
  "send_boundary_context \<Rightarrow> attempt_request \<Rightarrow> (pystr \<times> pystr option) list \<Rightarrow> scheme \<Rightarrow>
    (pystr, send_seal) result" where
  "build_send_seal context attempt coordinates s =
    (case gather_seal_fields context (at_attempt_id attempt) coordinates of
       None \<Rightarrow> Inl ''SendSealUnconstructable''
     | Some gathered \<Rightarrow>
         if send_seal_ok (digested s gathered) then Inr (digested s gathered)
         else Inl ''SendSealUnconstructable'')"

definition seal_matches_outbound ::
  "send_seal \<Rightarrow> (pystr \<times> pystr option) list \<Rightarrow> pydec option \<Rightarrow> pydec option \<Rightarrow> pystr option \<Rightarrow>
    scope_key option \<Rightarrow> pystr option \<Rightarrow> pystr option \<Rightarrow> bool" where
  "seal_matches_outbound s coordinates quantity price side key attempt_id seal_digest =
    (sl_outbound_coordinates s = coordinates \<and>
     (case quantity of None \<Rightarrow> False | Some q \<Rightarrow> deq (sl_outbound_quantity s) q) \<and>
     (case price of None \<Rightarrow> False | Some p \<Rightarrow> deq (sl_outbound_price s) p) \<and>
     Some (sl_outbound_side s) = side \<and> Some (sl_instrument_key s) = key \<and>
     Some (sl_attempt_id s) = attempt_id \<and> Some (sl_seal_digest s) = seal_digest)"

section \<open>The attempt ledger\<close>

record send_ledger =
  lg_claims :: "claim_observation list"
  lg_consumed :: "pystr set"

definition new_send_ledger :: "claim_observation list \<Rightarrow> send_ledger" where
  "new_send_ledger prior_claims = \<lparr>lg_claims = prior_claims, lg_consumed = {}\<rparr>"

definition attempt_consumed :: "send_ledger \<Rightarrow> pystr \<Rightarrow> bool" where
  "attempt_consumed l attempt_id = (attempt_id \<in> lg_consumed l)"

definition claim_attempt ::
  "send_ledger \<Rightarrow> pystr \<Rightarrow> pystr option \<Rightarrow> pystr option \<Rightarrow> pystr option \<Rightarrow> pystr option \<Rightarrow> bool \<times> send_ledger" where
  "claim_attempt l attempt_id capability_nonce permit_nonce who request_digest =
    (if attempt_id \<in> lg_consumed l then (False, l)
     else if \<not> capability_and_permit_single_use capability_nonce permit_nonce (lg_claims l) who request_digest
     then (False, l)
     else (True, \<lparr>lg_claims = lg_claims l @
         [\<lparr>co_nonce = capability_nonce, co_principal = who, co_request_digest = request_digest\<rparr>,
          \<lparr>co_nonce = permit_nonce, co_principal = who, co_request_digest = request_digest\<rparr>],
       lg_consumed = insert attempt_id (lg_consumed l)\<rparr>))"

section \<open>The gateway\<close>

datatype gateway_kind =
  VERIFY_ITEM | SEND_REFUSED | SEND_SEALED | SEND_STARTED | POTENTIALLY_LIVE_OBSERVED | NETWORK_CALL_ENTERED
| EGRESS_RESULT_RECORDED | UNCERTAIN_SEND

record gateway_record =
  ge_kind :: gateway_kind
  ge_attempt_id :: "pystr option"
  ge_item :: "send_verify_item option"
  ge_outcome :: "verify_outcome option"
  ge_applicability :: "broker_applicability option"
  ge_halt_reason :: "send_halt_reason option"
  ge_preserved_worst_credible_capacity :: "int option"
  ge_preserved_obligation_magnitude_unknown :: bool
  ge_send_seal :: "send_seal option"
  ge_send_seal_digest :: "pystr option"
  ge_step :: commitment_step
  ge_ladder :: "(uncertain_send_verdict \<times> bool) option"

fun fixed_kind_step :: "gateway_kind \<Rightarrow> commitment_step option" where
  "fixed_kind_step VERIFY_ITEM = Some SEND_BOUNDARY_VERIFICATION"
| "fixed_kind_step SEND_SEALED = Some SEND_BOUNDARY_VERIFICATION"
| "fixed_kind_step SEND_STARTED = Some SEND_STARTED_DURABLE"
| "fixed_kind_step POTENTIALLY_LIVE_OBSERVED = Some POTENTIALLY_LIVE_TRANSITION"
| "fixed_kind_step NETWORK_CALL_ENTERED = Some NETWORK_CALL"
| "fixed_kind_step EGRESS_RESULT_RECORDED = Some EVIDENCE_RECORD"
| "fixed_kind_step UNCERTAIN_SEND = Some EVIDENCE_RECORD"
| "fixed_kind_step SEND_REFUSED = None"

definition send_seal_digest_kinds :: "gateway_kind list" where
  "send_seal_digest_kinds = [SEND_STARTED, NETWORK_CALL_ENTERED, EGRESS_RESULT_RECORDED]"

text \<open>The validators of a record.\<close>

definition gateway_record_ok :: "gateway_record \<Rightarrow> bool" where
  "gateway_record_ok r =
    (\<not> (ge_send_seal r \<noteq> None \<and> ge_kind r \<noteq> SEND_SEALED) \<and>
     \<not> (ge_send_seal_digest r \<noteq> None \<and> ge_kind r \<notin> set send_seal_digest_kinds) \<and>
     (case fixed_kind_step (ge_kind r) of None \<Rightarrow> True | Some s \<Rightarrow> ge_step r = s))"

definition gateway_evidence :: "gateway_kind \<Rightarrow> pystr \<Rightarrow> commitment_step \<Rightarrow> gateway_record" where
  "gateway_evidence kind attempt_id step =
    \<lparr>ge_kind = kind, ge_attempt_id = Some attempt_id, ge_item = None, ge_outcome = None,
     ge_applicability = None, ge_halt_reason = None, ge_preserved_worst_credible_capacity = None,
     ge_preserved_obligation_magnitude_unknown = False, ge_send_seal = None, ge_send_seal_digest = None,
     ge_step = step, ge_ladder = None\<rparr>"

text \<open>What the transport is called with, and what it returns.\<close>

record send_call =
  sc_attempt :: attempt_request
  sc_instrument_key :: scope_key
  sc_coordinates :: "(pystr \<times> pystr option) list"
  sc_quantity :: pydec
  sc_price :: pydec
  sc_side :: pystr
  sc_reference :: ordering_event
  sc_seal_digest :: pystr

text \<open>Reading the identity, or the other fields, of a reply may raise: then there is none.\<close>

record transport_reply =
  rp_attempt_id :: "pystr option"
  rp_payload :: "egress_result_payload option"

definition reply_of :: "egress_result_payload \<Rightarrow> transport_reply" where
  "reply_of p = \<lparr>rp_attempt_id = Some (eg_attempt_id p), rp_payload = Some p\<rparr>"

datatype 'w context_source =
  CONTEXT_MAP "(pystr \<times> send_boundary_context) list"
| CONTEXT_FACTORY "attempt_request \<Rightarrow> 'w \<Rightarrow> (pystr, send_boundary_context option) result \<times> 'w"
| NO_CONTEXTS

type_synonym 'w send_transport = "send_call \<Rightarrow> 'w \<Rightarrow> (pystr, transport_reply) result \<times> 'w"
type_synonym 'w gateway_sink = "gateway_record \<Rightarrow> 'w \<Rightarrow> pystr option \<times> 'w"

record 'w gateway =
  gw_contexts :: "'w context_source"
  gw_transport :: "'w send_transport option"
  gw_sink :: "'w gateway_sink"
  gw_scheme :: scheme

record 'w gateway_state =
  gs_ledger :: send_ledger
  gs_results :: "egress_result_payload list"
  gs_verifications :: "send_boundary_verification list"
  gs_world :: 'w

type_synonym 'w gateway_outcome = "(pystr, send_handoff) result \<times> 'w gateway_state"

definition bound_context ::
  "'w gateway \<Rightarrow> attempt_request \<Rightarrow> 'w \<Rightarrow> (pystr, send_boundary_context option) result \<times> 'w" where
  "bound_context gw attempt w =
    (case gw_contexts gw of
       CONTEXT_MAP m \<Rightarrow> (Inr (map_of m (at_attempt_id attempt)), w)
     | CONTEXT_FACTORY f \<Rightarrow> f attempt w
     | NO_CONTEXTS \<Rightarrow> (Inr None, w))"

text \<open>Records go to the sink one by one; an exception of the sink passes through.\<close>

fun sink_records ::
  "'w gateway \<Rightarrow> gateway_record list \<Rightarrow> 'w gateway_state \<Rightarrow> pystr option \<times> 'w gateway_state" where
  "sink_records gw [] st = (None, st)"
| "sink_records gw (r # rs) st =
    (case gw_sink gw r (gs_world st) of
       (Some e, w) \<Rightarrow> (Some e, st\<lparr>gs_world := w\<rparr>)
     | (None, w) \<Rightarrow> sink_records gw rs (st\<lparr>gs_world := w\<rparr>))"

definition recording ::
  "'w gateway \<Rightarrow> gateway_record list \<Rightarrow> 'w gateway_state \<Rightarrow> ('w gateway_state \<Rightarrow> 'w gateway_outcome) \<Rightarrow>
    'w gateway_outcome" where
  "recording gw rs st k = (case sink_records gw rs st of (Some e, st') \<Rightarrow> (Inl e, st') | (None, st') \<Rightarrow> k st')"

definition refusal ::
  "pystr \<Rightarrow> send_halt_reason \<Rightarrow> commitment_step \<Rightarrow> send_verify_item option \<Rightarrow> int option \<Rightarrow> bool \<Rightarrow> gateway_record" where
  "refusal attempt_id reason step item preserved magnitude_unknown =
    (gateway_evidence SEND_REFUSED attempt_id step)
      \<lparr>ge_item := item, ge_halt_reason := Some reason, ge_preserved_worst_credible_capacity := preserved,
       ge_preserved_obligation_magnitude_unknown := magnitude_unknown\<rparr>"

definition halt_send ::
  "'w gateway \<Rightarrow> pystr \<Rightarrow> send_halt_reason \<Rightarrow> commitment_step \<Rightarrow> send_verify_item option \<Rightarrow> int option \<Rightarrow> bool \<Rightarrow>
    'w gateway_state \<Rightarrow> 'w gateway_outcome" where
  "halt_send gw attempt_id reason step item preserved magnitude_unknown st =
    recording gw [refusal attempt_id reason step item preserved magnitude_unknown] st
      (\<lambda>st'. (Inr \<lparr>so_accepted_for_transmission = None, so_handoff_reference = None\<rparr>, st'))"

abbreviation stop_send ::
  "'w gateway \<Rightarrow> pystr \<Rightarrow> send_halt_reason \<Rightarrow> commitment_step \<Rightarrow> 'w gateway_state \<Rightarrow> 'w gateway_outcome" where
  "stop_send gw attempt_id reason step st \<equiv> halt_send gw attempt_id reason step None None False st"

subsection \<open>After the claim\<close>

definition uncertain_result_kinds :: "egress_result_kind list" where
  "uncertain_result_kinds = [UNKNOWN, TIMEOUT_RESULT]"

definition uncertain_record :: "pystr \<Rightarrow> send_boundary_context \<Rightarrow> gateway_record" where
  "uncertain_record attempt_id context =
    (gateway_evidence UNCERTAIN_SEND attempt_id EVIDENCE_RECORD)
      \<lparr>ge_ladder := Some (uncertain_send_policy None None,
        same_order_retry_allowed (sx_broker_capability_profile context) (sx_idempotency_proven context))\<rparr>"

text \<open>The reply of the transport: steps 19 and after.\<close>

definition consume_reply ::
  "'w gateway \<Rightarrow> pystr \<Rightarrow> send_boundary_context \<Rightarrow> send_seal \<Rightarrow> transport_reply \<Rightarrow> 'w gateway_state \<Rightarrow>
    'w gateway_outcome" where
  "consume_reply gw attempt_id context s reply st =
    (case rp_attempt_id reply of
       None \<Rightarrow> stop_send gw attempt_id RESULT_UNREADABLE EVIDENCE_RECORD st
     | Some i \<Rightarrow>
         if i \<noteq> attempt_id
         then stop_send gw attempt_id RESULT_ATTEMPT_IDENTITY_MISMATCH EVIDENCE_RECORD st
         else (case rp_payload reply of
             None \<Rightarrow> stop_send gw attempt_id RESULT_UNREADABLE EVIDENCE_RECORD st
           | Some p \<Rightarrow>
               recording gw
                 ((gateway_evidence EGRESS_RESULT_RECORDED attempt_id EVIDENCE_RECORD)
                    \<lparr>ge_send_seal_digest := Some (sl_seal_digest s)\<rparr> #
                  (if eg_kind p \<in> set uncertain_result_kinds then [uncertain_record attempt_id context] else []))
                 (st\<lparr>gs_results := gs_results st @ [p]\<rparr>)
                 (\<lambda>st'. (Inr \<lparr>so_accepted_for_transmission = Some True,
                    so_handoff_reference = Some attempt_id\<rparr>, st'))))"

definition call_of :: "attempt_request \<Rightarrow> send_seal \<Rightarrow> send_call" where
  "call_of attempt s =
    \<lparr>sc_attempt = attempt, sc_instrument_key = sl_instrument_key s,
     sc_coordinates = sl_outbound_coordinates s, sc_quantity = sl_outbound_quantity s,
     sc_price = sl_outbound_price s, sc_side = sl_outbound_side s, sc_reference = sl_reference s,
     sc_seal_digest = sl_seal_digest s\<rparr>"

definition sealed_records ::
  "pystr \<Rightarrow> broker_applicability \<Rightarrow> send_seal \<Rightarrow> gateway_record list" where
  "sealed_records attempt_id applicability s =
    [(gateway_evidence SEND_SEALED attempt_id SEND_BOUNDARY_VERIFICATION)
       \<lparr>ge_applicability := Some applicability, ge_send_seal := Some s\<rparr>,
     (gateway_evidence SEND_STARTED attempt_id SEND_STARTED_DURABLE)
       \<lparr>ge_applicability := Some applicability, ge_send_seal_digest := Some (sl_seal_digest s)\<rparr>,
     gateway_evidence POTENTIALLY_LIVE_OBSERVED attempt_id POTENTIALLY_LIVE_TRANSITION]"

definition entered_record :: "pystr \<Rightarrow> send_seal \<Rightarrow> gateway_record" where
  "entered_record attempt_id s =
    (gateway_evidence NETWORK_CALL_ENTERED attempt_id NETWORK_CALL)
      \<lparr>ge_send_seal_digest := Some (sl_seal_digest s)\<rparr>"

definition send_sealed ::
  "'w gateway \<Rightarrow> attempt_request \<Rightarrow> send_boundary_context \<Rightarrow> broker_applicability \<Rightarrow> send_seal \<Rightarrow>
    'w gateway_state \<Rightarrow> 'w gateway_outcome" where
  "send_sealed gw attempt context applicability s st =
    (let attempt_id = at_attempt_id attempt
     in recording gw (sealed_records attempt_id applicability s) st (\<lambda>st1.
       case gw_transport gw of
         None \<Rightarrow> stop_send gw attempt_id TRANSPORT_UNAVAILABLE NETWORK_CALL st1
       | Some send_once \<Rightarrow>
           recording gw [entered_record attempt_id s] st1 (\<lambda>st2.
             case send_once (call_of attempt s) (gs_world st2) of
               (Inl e, w) \<Rightarrow> stop_send gw attempt_id TRANSPORT_RAISED NETWORK_CALL (st2\<lparr>gs_world := w\<rparr>)
             | (Inr reply, w) \<Rightarrow> consume_reply gw attempt_id context s reply (st2\<lparr>gs_world := w\<rparr>))))"

subsection \<open>Before the claim\<close>

definition seal_and_claim ::
  "'w gateway \<Rightarrow> attempt_request \<Rightarrow> send_boundary_context \<Rightarrow> 'w gateway_state \<Rightarrow>
    (send_seal \<Rightarrow> 'w gateway_state \<Rightarrow> 'w gateway_outcome) \<Rightarrow> 'w gateway_outcome" where
  "seal_and_claim gw attempt context st k =
    (case build_send_seal context attempt (outbound_coordinates context) (gw_scheme gw) of
       Inl e \<Rightarrow> stop_send gw (at_attempt_id attempt) SEND_SEAL_UNCONSTRUCTABLE SEND_BOUNDARY_VERIFICATION st
     | Inr s \<Rightarrow>
         (let (claimed, l) = claim_attempt (gs_ledger st) (at_attempt_id attempt)
                (Some (sl_capability_nonce s)) (Some (sl_action_flow_permit_nonce s))
                (Some (sl_claim_principal s)) (Some (sl_claim_request_digest s))
          in if \<not> claimed
             then stop_send gw (at_attempt_id attempt) SINGLE_USE_CLAIM_REFUSED SEND_STARTED_DURABLE st
             else k s (st\<lparr>gs_ledger := l\<rparr>)))"

definition item_record :: "send_boundary_verification \<Rightarrow> verify_item_verdict \<Rightarrow> gateway_record" where
  "item_record v w =
    (gateway_evidence VERIFY_ITEM (bv_attempt_id v) SEND_BOUNDARY_VERIFICATION)
      \<lparr>ge_item := Some (vv_item w), ge_outcome := Some (vv_outcome w),
       ge_applicability := Some (bv_applicability v)\<rparr>"

definition judge_and_send ::
  "'w gateway \<Rightarrow> attempt_request \<Rightarrow> send_boundary_context \<Rightarrow> send_boundary_verification \<Rightarrow>
    'w gateway_state \<Rightarrow> 'w gateway_outcome" where
  "judge_and_send gw attempt context v st =
    (let attempt_id = at_attempt_id attempt
     in if bv_admitted v \<noteq> Some True then
          (let (preserved, magnitude_unknown) = item16_obligation v
           in halt_send gw attempt_id
             (case bv_halt_reason v of None \<Rightarrow> VERIFY_ITEM_UNKNOWN | Some r \<Rightarrow> r)
             SEND_BOUNDARY_VERIFICATION (bv_halt_item v) preserved magnitude_unknown st)
        else if \<not> outbound_bound context then
          stop_send gw attempt_id OUTBOUND_NOT_BOUND_TO_CONSTRUCTION SEND_BOUNDARY_VERIFICATION st
        else seal_and_claim gw attempt context st (\<lambda>s st'.
          send_sealed gw attempt context (bv_applicability v) s st'))"

definition gateway_call :: "'w gateway \<Rightarrow> attempt_request \<Rightarrow> 'w gateway_state \<Rightarrow> 'w gateway_outcome" where
  "gateway_call gw attempt st =
    (let attempt_id = at_attempt_id attempt
     in case bound_context gw attempt (gs_world st) of
       (Inl e, w) \<Rightarrow> (Inl e, st\<lparr>gs_world := w\<rparr>)
     | (Inr None, w) \<Rightarrow>
         stop_send gw attempt_id CONTEXT_MISSING SEND_BOUNDARY_VERIFICATION (st\<lparr>gs_world := w\<rparr>)
     | (Inr (Some context), w) \<Rightarrow>
         (let st0 = st\<lparr>gs_world := w\<rparr>
          in if sx_instrument_key context = None then
               stop_send gw attempt_id CONTEXT_MISSING SEND_BOUNDARY_VERIFICATION st0
             else if attempt_consumed (gs_ledger st0) attempt_id then
               stop_send gw attempt_id ATTEMPT_ALREADY_CONSUMED SEND_STARTED_DURABLE st0
             else (case verify_send_boundary attempt context of
                 Inl e \<Rightarrow> (Inl e, st0)
               | Inr v \<Rightarrow>
                   recording gw (map (item_record v) (bv_verdicts v))
                     (st0\<lparr>gs_verifications := gs_verifications st0 @ [v]\<rparr>)
                     (judge_and_send gw attempt context v))))"

fun run_gateway :: "'w gateway \<Rightarrow> attempt_request list \<Rightarrow> 'w gateway_state \<Rightarrow> 'w gateway_state" where
  "run_gateway gw [] st = st"
| "run_gateway gw (a # as) st = run_gateway gw as (snd (gateway_call gw a st))"

section \<open>Traces\<close>

text \<open>
  A gateway whose world also keeps what happened, in order: each record its sink took and each call of
  its transport.  Its calls are those of the gateway itself.
\<close>

datatype trace_event = Recorded gateway_record | Sent send_call

definition traced :: "'v gateway \<Rightarrow> (trace_event list \<times> 'v) gateway" where
  "traced gw =
    \<lparr>gw_contexts = (case gw_contexts gw of
       CONTEXT_MAP m \<Rightarrow> CONTEXT_MAP m
     | CONTEXT_FACTORY f \<Rightarrow> CONTEXT_FACTORY (\<lambda>a (t, w). case f a w of (r, w') \<Rightarrow> (r, (t, w')))
     | NO_CONTEXTS \<Rightarrow> NO_CONTEXTS),
     gw_transport = map_option (\<lambda>send c tw.
       (fst (send c (snd tw)), (fst tw @ [Sent c], snd (send c (snd tw))))) (gw_transport gw),
     gw_sink = (\<lambda>r tw. (fst (gw_sink gw r (snd tw)),
       (fst tw @ (if fst (gw_sink gw r (snd tw)) = None then [Recorded r] else []),
        snd (gw_sink gw r (snd tw))))),
     gw_scheme = gw_scheme gw\<rparr>"

abbreviation trace_of :: "(trace_event list \<times> 'v) gateway_state \<Rightarrow> trace_event list" where
  "trace_of st \<equiv> fst (gs_world st)"

definition untraced :: "(trace_event list \<times> 'v) gateway_state \<Rightarrow> 'v gateway_state" where
  "untraced st = \<lparr>gs_ledger = gs_ledger st, gs_results = gs_results st,
    gs_verifications = gs_verifications st, gs_world = snd (gs_world st)\<rparr>"

lemma untraced_sel [simp]:
  "gs_ledger (untraced st) = gs_ledger st" "gs_results (untraced st) = gs_results st"
  "gs_verifications (untraced st) = gs_verifications st" "gs_world (untraced st) = snd (gs_world st)"
  by (simp_all add: untraced_def)

lemma untraced_upd [simp]:
  "untraced (st\<lparr>gs_world := tw\<rparr>) = (untraced st)\<lparr>gs_world := snd tw\<rparr>"
  "untraced (st\<lparr>gs_ledger := l\<rparr>) = (untraced st)\<lparr>gs_ledger := l\<rparr>"
  "untraced (st\<lparr>gs_results := x\<rparr>) = (untraced st)\<lparr>gs_results := x\<rparr>"
  "untraced (st\<lparr>gs_verifications := y\<rparr>) = (untraced st)\<lparr>gs_verifications := y\<rparr>"
  by (simp_all add: untraced_def)

lemma traced_scheme [simp]: "gw_scheme (traced gw) = gw_scheme gw"
  by (simp add: traced_def)

lemma traced_context:
  "bound_context (traced gw) a tw =
    (fst (bound_context gw a (snd tw)), (fst tw, snd (bound_context gw a (snd tw))))"
  by (cases tw) (simp add: bound_context_def traced_def split: context_source.split prod.split)

lemma traced_sink:
  "gw_sink (traced gw) r tw =
    (fst (gw_sink gw r (snd tw)),
     (fst tw @ (if fst (gw_sink gw r (snd tw)) = None then [Recorded r] else []), snd (gw_sink gw r (snd tw))))"
  by (simp add: traced_def)

lemma traced_transport:
  "gw_transport (traced gw) =
    map_option (\<lambda>send c tw. (fst (send c (snd tw)), (fst tw @ [Sent c], snd (send c (snd tw))))) (gw_transport gw)"
  by (simp add: traced_def)

subsection \<open>Tracing changes nothing\<close>

definition same_outcome :: "(trace_event list \<times> 'v) gateway_outcome \<Rightarrow> 'v gateway_outcome \<Rightarrow> bool" where
  "same_outcome x y = (fst x = fst y \<and> untraced (snd x) = snd y)"

lemma same_sink_records:
  "fst (sink_records (traced gw) rs st) = fst (sink_records gw rs (untraced st)) \<and>
    untraced (snd (sink_records (traced gw) rs st)) = snd (sink_records gw rs (untraced st))"
proof (induction rs arbitrary: st)
  case (Cons r rs)
  show ?case
    by (cases "gw_sink gw r (snd (gs_world st))")
      (auto simp: traced_sink Cons.IH split: option.split)
qed simp

lemma same_recording:
  assumes "\<And>st. same_outcome (k st) (k' (untraced st))"
  shows "same_outcome (recording (traced gw) rs st k) (recording gw rs (untraced st) k')"
proof -
  obtain e st1 where t: "sink_records (traced gw) rs st = (e, st1)" by force
  then have "sink_records gw rs (untraced st) = (e, untraced st1)"
    using same_sink_records[of gw rs st] by (simp add: prod_eq_iff)
  with t assms[of st1] show ?thesis by (simp add: recording_def same_outcome_def split: option.split)
qed

lemma same_halt:
  "same_outcome (halt_send (traced gw) i reason step item p m st) (halt_send gw i reason step item p m (untraced st))"
  unfolding halt_send_def by (rule same_recording) (simp add: same_outcome_def)

lemma same_consume_reply:
  "same_outcome (consume_reply (traced gw) i c s reply st) (consume_reply gw i c s reply (untraced st))"
proof (cases "rp_attempt_id reply = Some i \<and> rp_payload reply \<noteq> None")
  case True
  then obtain p where "rp_attempt_id reply = Some i" "rp_payload reply = Some p" by auto
  then show ?thesis
    using same_recording[of _ _ gw _ "st\<lparr>gs_results := gs_results st @ [p]\<rparr>"]
    by (simp add: consume_reply_def same_outcome_def)
next
  case False
  then show ?thesis using same_halt[of gw i] by (auto simp: consume_reply_def split: option.splits)
qed

lemma same_send_sealed:
  "same_outcome (send_sealed (traced gw) a c z s st) (send_sealed gw a c z s (untraced st))"
proof -
  have called: "same_outcome
      (case fst (send x (snd (gs_world st))) of
         Inl e \<Rightarrow> stop_send (traced gw) i TRANSPORT_RAISED NETWORK_CALL
           (st\<lparr>gs_world := (trace_of st @ [Sent x], snd (send x (snd (gs_world st))))\<rparr>)
       | Inr reply \<Rightarrow> consume_reply (traced gw) i c s reply
           (st\<lparr>gs_world := (trace_of st @ [Sent x], snd (send x (snd (gs_world st))))\<rparr>))
      (case send x (snd (gs_world st)) of
         (Inl e, w) \<Rightarrow> stop_send gw i TRANSPORT_RAISED NETWORK_CALL (untraced st\<lparr>gs_world := w\<rparr>)
       | (Inr reply, w) \<Rightarrow> consume_reply gw i c s reply (untraced st\<lparr>gs_world := w\<rparr>))"
    for send x st i
  proof -
    obtain r w where sent: "send x (snd (gs_world st)) = (r, w)" by force
    show ?thesis
      using same_halt[of gw i TRANSPORT_RAISED NETWORK_CALL None None False
          "st\<lparr>gs_world := (trace_of st @ [Sent x], w)\<rparr>"]
        same_consume_reply[of gw i c s _ "st\<lparr>gs_world := (trace_of st @ [Sent x], w)\<rparr>"]
      by (cases r) (simp_all add: sent)
  qed
  show ?thesis
    unfolding send_sealed_def Let_def
  proof (rule same_recording)
    fix st1
    show "same_outcome
        (case gw_transport (traced gw) of
           None \<Rightarrow> stop_send (traced gw) (at_attempt_id a) TRANSPORT_UNAVAILABLE NETWORK_CALL st1
         | Some send_once \<Rightarrow> recording (traced gw) [entered_record (at_attempt_id a) s] st1 (\<lambda>st2.
             case send_once (call_of a s) (gs_world st2) of
               (Inl e, w) \<Rightarrow> stop_send (traced gw) (at_attempt_id a) TRANSPORT_RAISED NETWORK_CALL (st2\<lparr>gs_world := w\<rparr>)
             | (Inr reply, w) \<Rightarrow> consume_reply (traced gw) (at_attempt_id a) c s reply (st2\<lparr>gs_world := w\<rparr>)))
        (case gw_transport gw of
           None \<Rightarrow> stop_send gw (at_attempt_id a) TRANSPORT_UNAVAILABLE NETWORK_CALL (untraced st1)
         | Some send_once \<Rightarrow> recording gw [entered_record (at_attempt_id a) s] (untraced st1) (\<lambda>st2.
             case send_once (call_of a s) (gs_world st2) of
               (Inl e, w) \<Rightarrow> stop_send gw (at_attempt_id a) TRANSPORT_RAISED NETWORK_CALL (st2\<lparr>gs_world := w\<rparr>)
             | (Inr reply, w) \<Rightarrow> consume_reply gw (at_attempt_id a) c s reply (st2\<lparr>gs_world := w\<rparr>)))"
      by (cases "gw_transport gw")
        (auto simp: traced_transport same_halt intro!: same_recording called)
  qed
qed

lemma same_judge_and_send:
  "same_outcome (judge_and_send (traced gw) a c v st) (judge_and_send gw a c v (untraced st))"
proof -
  have sent: "same_outcome (send_sealed (traced gw) a c z s (st\<lparr>gs_ledger := l\<rparr>))
      (send_sealed gw a c z s (untraced st\<lparr>gs_ledger := l\<rparr>))" for z s l
    using same_send_sealed[of gw a c z s "st\<lparr>gs_ledger := l\<rparr>"] by simp
  show ?thesis
    by (auto simp: judge_and_send_def seal_and_claim_def Let_def same_halt sent split: sum.split prod.split)
qed

text \<open>The gateway with a trace returns what the gateway returns, in the same state.\<close>

lemma same_gateway_call:
  "same_outcome (gateway_call (traced gw) a st) (gateway_call gw a (untraced st))"
proof -
  obtain r w where b: "bound_context gw a (snd (gs_world st)) = (r, w)" by force
  let ?st = "st\<lparr>gs_world := (trace_of st, w)\<rparr>"
  have halt: "same_outcome (stop_send (traced gw) i reason step ?st)
      (stop_send gw i reason step (untraced st\<lparr>gs_world := w\<rparr>))" for i reason step
    using same_halt[of gw i reason step None None False ?st] by simp
  have judge: "same_outcome
      (recording (traced gw) rs (?st\<lparr>gs_verifications := gs_verifications st @ [v]\<rparr>) (judge_and_send (traced gw) a c v))
      (recording gw rs (untraced st\<lparr>gs_world := w, gs_verifications := gs_verifications st @ [v]\<rparr>)
        (judge_and_send gw a c v))" for rs v c
    using same_recording[of "judge_and_send (traced gw) a c v" "judge_and_send gw a c v" gw rs
        "?st\<lparr>gs_verifications := gs_verifications st @ [v]\<rparr>"] same_judge_and_send[of gw a c v]
    by simp
  show ?thesis
    using halt judge
    by (auto simp: gateway_call_def Let_def traced_context b same_outcome_def split: sum.split option.split)
qed

lemma same_run: "untraced (run_gateway (traced gw) as st) = run_gateway gw as (untraced st)"
proof (induction "as" arbitrary: st)
  case (Cons a "as")
  have "untraced (snd (gateway_call (traced gw) a st)) = snd (gateway_call gw a (untraced st))"
    using same_gateway_call[of gw a st] by (simp add: same_outcome_def)
  with Cons show ?case by simp
qed simp

section \<open>The shape of a call\<close>

abbreviation refused :: send_handoff where
  "refused \<equiv> \<lparr>so_accepted_for_transmission = None, so_handoff_reference = None\<rparr>"

lemma sink_records_trace:
  assumes "sink_records (traced gw) rs st = (e, st')"
  shows "gs_ledger st' = gs_ledger st \<and>
    (\<exists>n. trace_of st' = trace_of st @ map Recorded (take n rs) \<and>
      (if e = None then n = length rs else n < length rs))"
  using assms
proof (induction rs arbitrary: st)
  case (Cons r rs)
  show ?case
  proof (cases "fst (gw_sink gw r (snd (gs_world st)))")
    case None
    let ?w = "snd (gw_sink gw r (snd (gs_world st)))"
    from Cons.prems None have "sink_records (traced gw) rs (st\<lparr>gs_world := (trace_of st @ [Recorded r], ?w)\<rparr>) = (e, st')"
      by (simp add: traced_sink)
    from Cons.IH[OF this] obtain n where n: "gs_ledger st' = gs_ledger st"
      "trace_of st' = trace_of st @ Recorded r # map Recorded (take n rs)" "if e = None then n = length rs else n < length rs"
      by auto
    then show ?thesis by (intro conjI exI[of _ "Suc n"]) auto
  next
    case (Some x)
    with Cons.prems have "e = Some x" "gs_ledger st' = gs_ledger st" "trace_of st' = trace_of st"
      by (auto simp: traced_sink)
    then show ?thesis by (intro conjI exI[of _ 0]) auto
  qed
qed simp

text \<open>Either the sink raised on the way, or all records are kept and the rest follows.\<close>

lemma recording_trace:
  assumes "recording (traced gw) rs st k = (r, st')"
  obtains (raised) e n where "r = Inl e" "n < length rs" "gs_ledger st' = gs_ledger st"
      "trace_of st' = trace_of st @ map Recorded (take n rs)"
    | (kept) st1 where "k st1 = (r, st')" "gs_ledger st1 = gs_ledger st"
      "trace_of st1 = trace_of st @ map Recorded rs"
proof -
  obtain e st1 where s: "sink_records (traced gw) rs st = (e, st1)" by force
  with sink_records_trace[OF s] assms that show thesis
    by (cases e) (auto simp: recording_def)
qed

lemma halt_trace:
  assumes "halt_send (traced gw) i reason step item p m st = (r, st')"
  shows "gs_ledger st' = gs_ledger st \<and>
    ((\<exists>e. r = Inl e \<and> trace_of st' = trace_of st) \<or>
     (r = Inr refused \<and> trace_of st' = trace_of st @ [Recorded (refusal i reason step item p m)]))"
  using assms unfolding halt_send_def
  by (cases rule: recording_trace) auto

definition stop_record :: "pystr \<Rightarrow> gateway_record \<Rightarrow> bool" where
  "stop_record i r = (ge_kind r = SEND_REFUSED \<and> ge_attempt_id r = Some i \<and> ge_halt_reason r \<noteq> None)"

text \<open>A return without a call: refused, and the last record is the refusal.\<close>

definition stopped :: "pystr \<Rightarrow> (pystr, send_handoff) result \<Rightarrow> gateway_record list \<Rightarrow> bool" where
  "stopped i r rs = (\<forall>h. r = Inr h \<longrightarrow> h = refused \<and> rs \<noteq> [] \<and> stop_record i (last rs))"

abbreviation accepted :: "pystr \<Rightarrow> send_handoff" where
  "accepted i \<equiv> \<lparr>so_accepted_for_transmission = Some True, so_handoff_reference = Some i\<rparr>"

definition result_record :: "pystr \<Rightarrow> send_seal \<Rightarrow> gateway_record" where
  "result_record i s = (gateway_evidence EGRESS_RESULT_RECORDED i EVIDENCE_RECORD)
    \<lparr>ge_send_seal_digest := Some (sl_seal_digest s)\<rparr>"

text \<open>A return after a call: refused as above, or accepted with the result recorded first.\<close>

definition settled :: "pystr \<Rightarrow> send_seal \<Rightarrow> (pystr, send_handoff) result \<Rightarrow> gateway_record list \<Rightarrow> bool" where
  "settled i s r rs =
    (stopped i r rs \<or> (\<exists>rs'. rs = result_record i s # rs' \<and> r = Inr (accepted i)))"

lemma stop_refusal [simp]: "stop_record i (refusal i reason step item p m)"
  by (simp add: stop_record_def refusal_def gateway_evidence_def)

lemma stopped_Inl [simp]: "stopped i (Inl e) rs"
  by (simp add: stopped_def)

lemma halt_stopped:
  assumes "halt_send (traced gw) i reason step item p m st = (r, st')"
  shows "gs_ledger st' = gs_ledger st \<and> (\<exists>rs. trace_of st' = trace_of st @ map Recorded rs \<and> stopped i r rs)"
proof -
  from halt_trace[OF assms] consider (a) e where "r = Inl e" "trace_of st' = trace_of st" "gs_ledger st' = gs_ledger st"
    | (b) "r = Inr refused" "trace_of st' = trace_of st @ [Recorded (refusal i reason step item p m)]"
      "gs_ledger st' = gs_ledger st" by auto
  then show ?thesis
  proof cases
    case a
    then show ?thesis by (intro conjI exI[of _ "[]"]) simp_all
  next
    case b
    then show ?thesis by (intro conjI exI[of _ "[refusal i reason step item p m]"]) (simp_all add: stopped_def)
  qed
qed

lemma recording_stopped:
  assumes "recording (traced gw) rs st k = (r, st')"
    "\<And>st1. k st1 = (r, st') \<Longrightarrow> gs_ledger st1 = gs_ledger st \<Longrightarrow> trace_of st1 = trace_of st @ map Recorded rs \<Longrightarrow> P"
    "\<And>n e. r = Inl e \<Longrightarrow> gs_ledger st' = gs_ledger st \<Longrightarrow> trace_of st' = trace_of st @ map Recorded (take n rs) \<Longrightarrow> P"
  shows P
  using assms(1) by (cases rule: recording_trace) (use assms(2,3) in blast)+

lemma consume_reply_trace:
  assumes "consume_reply (traced gw) i c s reply st = (r, st')"
  shows "gs_ledger st' = gs_ledger st \<and> (\<exists>rs. trace_of st' = trace_of st @ map Recorded rs \<and> settled i s r rs)"
proof (cases "rp_attempt_id reply = Some i \<and> rp_payload reply \<noteq> None")
  case True
  then obtain p where p: "rp_attempt_id reply = Some i" "rp_payload reply = Some p" by auto
  have "recording (traced gw)
      (result_record i s # (if eg_kind p \<in> set uncertain_result_kinds then [uncertain_record i c] else []))
      (st\<lparr>gs_results := gs_results st @ [p]\<rparr>) (\<lambda>st'. (Inr (accepted i), st')) = (r, st')"
    using assms p by (simp add: consume_reply_def result_record_def)
  then show ?thesis
  proof (rule recording_stopped)
    fix n e
    let ?rs = "take n (result_record i s # (if eg_kind p \<in> set uncertain_result_kinds then [uncertain_record i c] else []))"
    assume "r = Inl e" "gs_ledger st' = gs_ledger (st\<lparr>gs_results := gs_results st @ [p]\<rparr>)"
      "trace_of st' = trace_of (st\<lparr>gs_results := gs_results st @ [p]\<rparr>) @ map Recorded ?rs"
    then show ?thesis by (intro conjI exI[of _ ?rs]) (simp_all add: settled_def)
  next
    fix st1
    let ?rs = "result_record i s # (if eg_kind p \<in> set uncertain_result_kinds then [uncertain_record i c] else [])"
    assume "(Inr (accepted i), st1) = (r, st')" "gs_ledger st1 = gs_ledger (st\<lparr>gs_results := gs_results st @ [p]\<rparr>)"
      "trace_of st1 = trace_of (st\<lparr>gs_results := gs_results st @ [p]\<rparr>) @ map Recorded ?rs"
    then show ?thesis by (intro conjI exI[of _ ?rs]) (auto simp: settled_def)
  qed
next
  case False
  then obtain reason where "stop_send (traced gw) i reason EVIDENCE_RECORD st = (r, st')"
    using assms by (auto simp: consume_reply_def split: option.splits if_splits)
  from halt_stopped[OF this] show ?thesis by (auto simp: settled_def)
qed

lemma append_records: "trace_of st1 = trace_of st @ map Recorded rs \<Longrightarrow>
    trace_of st2 = trace_of st1 @ map Recorded rs' \<Longrightarrow> trace_of st2 = trace_of st @ map Recorded (rs @ rs')"
  by simp

lemma stopped_append: "stopped i r rs' \<Longrightarrow> stopped i r (rs @ rs')"
  by (auto simp: stopped_def)

text \<open>What a call of the transport is preceded by.\<close>

definition before_send :: "pystr \<Rightarrow> broker_applicability \<Rightarrow> send_seal \<Rightarrow> gateway_record list" where
  "before_send i z s = sealed_records i z s @ [entered_record i s]"

lemma send_sealed_trace:
  assumes "send_sealed (traced gw) a c z s st = (r, st')"
  shows "gs_ledger st' = gs_ledger st \<and>
    ((\<exists>rs. trace_of st' = trace_of st @ map Recorded rs \<and> stopped (at_attempt_id a) r rs) \<or>
     (\<exists>rs. trace_of st' = trace_of st @ map Recorded (before_send (at_attempt_id a) z s) @
        Sent (call_of a s) # map Recorded rs \<and> settled (at_attempt_id a) s r rs))"
    (is "?L st' \<and> (?A st' \<or> ?B st')")
proof (rule recording_stopped[OF assms[unfolded send_sealed_def Let_def]])
  fix n e assume "r = Inl e" "gs_ledger st' = gs_ledger st"
    "trace_of st' = trace_of st @ map Recorded (take n (sealed_records (at_attempt_id a) z s))"
  then show ?thesis by auto
next
  fix st1
  assume st1: "gs_ledger st1 = gs_ledger st" "trace_of st1 = trace_of st @ map Recorded (sealed_records (at_attempt_id a) z s)"
    and k: "(case gw_transport (traced gw) of
         None \<Rightarrow> stop_send (traced gw) (at_attempt_id a) TRANSPORT_UNAVAILABLE NETWORK_CALL st1
       | Some send_once \<Rightarrow> recording (traced gw) [entered_record (at_attempt_id a) s] st1 (\<lambda>st2.
           case send_once (call_of a s) (gs_world st2) of
             (Inl e, w) \<Rightarrow> stop_send (traced gw) (at_attempt_id a) TRANSPORT_RAISED NETWORK_CALL (st2\<lparr>gs_world := w\<rparr>)
           | (Inr reply, w) \<Rightarrow> consume_reply (traced gw) (at_attempt_id a) c s reply (st2\<lparr>gs_world := w\<rparr>))) = (r, st')"
  show ?thesis
  proof (cases "gw_transport gw")
    case None
    with k have "stop_send (traced gw) (at_attempt_id a) TRANSPORT_UNAVAILABLE NETWORK_CALL st1 = (r, st')"
      by (simp add: traced_transport)
    from halt_stopped[OF this] st1 show ?thesis
      by (metis append_records stopped_append)
  next
    case (Some send)
    let ?e = "[entered_record (at_attempt_id a) s]"
    have "recording (traced gw) ?e st1 (\<lambda>st2.
        case fst (send (call_of a s) (snd (gs_world st2))) of
          Inl e \<Rightarrow> stop_send (traced gw) (at_attempt_id a) TRANSPORT_RAISED NETWORK_CALL
            (st2\<lparr>gs_world := (trace_of st2 @ [Sent (call_of a s)], snd (send (call_of a s) (snd (gs_world st2))))\<rparr>)
        | Inr reply \<Rightarrow> consume_reply (traced gw) (at_attempt_id a) c s reply
            (st2\<lparr>gs_world := (trace_of st2 @ [Sent (call_of a s)], snd (send (call_of a s) (snd (gs_world st2))))\<rparr>)) =
        (r, st')"
      using k Some by (simp add: traced_transport)
    then show ?thesis
    proof (rule recording_stopped)
      fix n e assume "r = Inl e" "gs_ledger st' = gs_ledger st1"
        "trace_of st' = trace_of st1 @ map Recorded (take n ?e)"
      with st1 show ?thesis by (metis append_records stopped_Inl)
    next
      fix st2
      let ?st = "st2\<lparr>gs_world := (trace_of st2 @ [Sent (call_of a s)], snd (send (call_of a s) (snd (gs_world st2))))\<rparr>"
      assume st2: "gs_ledger st2 = gs_ledger st1" "trace_of st2 = trace_of st1 @ map Recorded ?e"
        and k: "(case fst (send (call_of a s) (snd (gs_world st2))) of
            Inl e \<Rightarrow> stop_send (traced gw) (at_attempt_id a) TRANSPORT_RAISED NETWORK_CALL ?st
          | Inr reply \<Rightarrow> consume_reply (traced gw) (at_attempt_id a) c s reply ?st) = (r, st')"
      have "gs_ledger st' = gs_ledger ?st \<and>
          (\<exists>rs. trace_of st' = trace_of ?st @ map Recorded rs \<and> settled (at_attempt_id a) s r rs)"
        using k halt_stopped[of gw "at_attempt_id a" TRANSPORT_RAISED NETWORK_CALL None None False ?st r st']
          consume_reply_trace[of gw "at_attempt_id a" c s _ ?st r st']
        by (auto simp: settled_def split: sum.splits)
      with st1 st2 show ?thesis by (auto simp: before_send_def)
    qed
  qed
qed

abbreviation claim_of :: "send_ledger \<Rightarrow> attempt_request \<Rightarrow> send_seal \<Rightarrow> bool \<times> send_ledger" where
  "claim_of l a s \<equiv> claim_attempt l (at_attempt_id a) (Some (sl_capability_nonce s))
    (Some (sl_action_flow_permit_nonce s)) (Some (sl_claim_principal s)) (Some (sl_claim_request_digest s))"

text \<open>What holds of an attempt that is sealed and claimed against a ledger.\<close>

definition lawful_send ::
  "'v gateway \<Rightarrow> send_ledger \<Rightarrow> attempt_request \<Rightarrow> send_boundary_context \<Rightarrow> send_boundary_verification \<Rightarrow>
    send_seal \<Rightarrow> bool" where
  "lawful_send gw l a c v s =
    (verify_send_boundary a c = Inr v \<and> bv_admitted v = Some True \<and> outbound_bound c \<and>
     build_send_seal c a (outbound_coordinates c) (gw_scheme gw) = Inr s \<and> fst (claim_of l a s))"

lemma judge_and_send_trace:
  assumes "judge_and_send (traced gw) a c v st = (r, st')" "verify_send_boundary a c = Inr v"
  shows "(\<exists>rs. trace_of st' = trace_of st @ map Recorded rs \<and> stopped (at_attempt_id a) r rs \<and>
      (gs_ledger st' = gs_ledger st \<or>
       (\<exists>s. lawful_send gw (gs_ledger st) a c v s \<and> gs_ledger st' = snd (claim_of (gs_ledger st) a s)))) \<or>
    (\<exists>s rs. lawful_send gw (gs_ledger st) a c v s \<and> gs_ledger st' = snd (claim_of (gs_ledger st) a s) \<and>
      trace_of st' = trace_of st @ map Recorded (before_send (at_attempt_id a) (bv_applicability v) s) @
        Sent (call_of a s) # map Recorded rs \<and> settled (at_attempt_id a) s r rs)"
proof -
  have halt: ?thesis if "halt_send (traced gw) (at_attempt_id a) reason step item p m st = (r, st')"
    for reason step item p m
    using halt_stopped[OF that] by blast
  show ?thesis
  proof (cases "bv_admitted v = Some True \<and> outbound_bound c")
    case False
    then show ?thesis
      using assms(1) halt by (auto simp: judge_and_send_def Let_def split: prod.splits if_splits)
  next
    case True
    show ?thesis
    proof (cases "build_send_seal c a (outbound_coordinates c) (gw_scheme gw)")
      case (Inl e)
      with assms(1) True halt show ?thesis by (simp add: judge_and_send_def seal_and_claim_def Let_def)
    next
      case (Inr s)
      show ?thesis
      proof (cases "fst (claim_of (gs_ledger st) a s)")
        case False
        with assms(1) True Inr halt show ?thesis
          by (simp add: judge_and_send_def seal_and_claim_def Let_def split: prod.splits)
      next
        case claimed: True
        let ?st = "st\<lparr>gs_ledger := snd (claim_of (gs_ledger st) a s)\<rparr>"
        have "send_sealed (traced gw) a c (bv_applicability v) s ?st = (r, st')"
          using assms(1) True Inr claimed
          by (simp add: judge_and_send_def seal_and_claim_def Let_def split: prod.splits)
        moreover have "lawful_send gw (gs_ledger st) a c v s"
          using True Inr claimed assms(2) by (simp add: lawful_send_def)
        ultimately show ?thesis using send_sealed_trace[of gw a c "bv_applicability v" s ?st r st'] by auto
      qed
    qed
  qed
qed

abbreviation item_records :: "send_boundary_verification \<Rightarrow> gateway_record list" where
  "item_records v \<equiv> map (item_record v) (bv_verdicts v)"

text \<open>
  A call of the gateway either sends nothing and keeps its refusal last, or calls the transport once,
  after every item of an admitted verification, the seal, the start, the observation and the entry are
  on record, with the call the seal names; nothing but records follows.
\<close>

lemma gateway_call_trace:
  assumes "gateway_call (traced gw) a st = (r, st')"
  shows "(\<exists>rs. trace_of st' = trace_of st @ map Recorded rs \<and> stopped (at_attempt_id a) r rs \<and>
      (gs_ledger st' = gs_ledger st \<or>
       (\<exists>c v s. lawful_send gw (gs_ledger st) a c v s \<and> gs_ledger st' = snd (claim_of (gs_ledger st) a s)))) \<or>
    (\<exists>c v s rs. lawful_send gw (gs_ledger st) a c v s \<and> gs_ledger st' = snd (claim_of (gs_ledger st) a s) \<and>
      (\<exists>w. bound_context gw a (snd (gs_world st)) = (Inr (Some c), w)) \<and>
      trace_of st' = trace_of st @
        map Recorded (item_records v @ before_send (at_attempt_id a) (bv_applicability v) s) @
        Sent (call_of a s) # map Recorded rs \<and> settled (at_attempt_id a) s r rs)"
proof -
  obtain b w where b: "bound_context gw a (snd (gs_world st)) = (b, w)" by force
  let ?st = "st\<lparr>gs_world := (trace_of st, w)\<rparr>"
  have halt: ?thesis if "halt_send (traced gw) (at_attempt_id a) reason step item p m ?st = (r, st')"
    for reason step item p m
    using halt_stopped[OF that] by auto
  show ?thesis
  proof (cases "\<exists>c. b = Inr (Some c) \<and> sx_instrument_key c \<noteq> None \<and> \<not> attempt_consumed (gs_ledger st) (at_attempt_id a)")
    case False
    then show ?thesis
      using assms halt b by (auto simp: gateway_call_def Let_def traced_context stopped_def
          split: sum.splits option.splits if_splits)
  next
    case True
    then obtain c where c: "b = Inr (Some c)" "sx_instrument_key c \<noteq> None"
      "\<not> attempt_consumed (gs_ledger st) (at_attempt_id a)" by blast
    obtain v where v: "verify_send_boundary a c = Inr v" using verification_total[of a c] by blast
    have "recording (traced gw) (item_records v) (?st\<lparr>gs_verifications := gs_verifications st @ [v]\<rparr>)
        (judge_and_send (traced gw) a c v) = (r, st')"
      using assms b c v by (simp add: gateway_call_def Let_def traced_context)
    then show ?thesis
    proof (rule recording_stopped)
      fix n e assume "r = Inl e" "gs_ledger st' = gs_ledger (?st\<lparr>gs_verifications := gs_verifications st @ [v]\<rparr>)"
        "trace_of st' = trace_of (?st\<lparr>gs_verifications := gs_verifications st @ [v]\<rparr>) @ map Recorded (take n (item_records v))"
      then show ?thesis by (intro disjI1 exI[of _ "take n (item_records v)"]) simp
    next
      fix st1 assume st1: "judge_and_send (traced gw) a c v st1 = (r, st')"
        "gs_ledger st1 = gs_ledger (?st\<lparr>gs_verifications := gs_verifications st @ [v]\<rparr>)"
        "trace_of st1 = trace_of (?st\<lparr>gs_verifications := gs_verifications st @ [v]\<rparr>) @ map Recorded (item_records v)"
      from judge_and_send_trace[OF st1(1) v] show ?thesis
      proof (elim disjE exE conjE)
        fix rs assume "trace_of st' = trace_of st1 @ map Recorded rs" "stopped (at_attempt_id a) r rs"
          "gs_ledger st' = gs_ledger st1"
        then show ?thesis using st1
          by (intro disjI1 exI[of _ "item_records v @ rs"]) (simp add: stopped_append)
      next
        fix rs s assume "trace_of st' = trace_of st1 @ map Recorded rs" "stopped (at_attempt_id a) r rs"
          "lawful_send gw (gs_ledger st1) a c v s" "gs_ledger st' = snd (claim_of (gs_ledger st1) a s)"
        then show ?thesis using st1
          by (intro disjI1 exI[of _ "item_records v @ rs"]) (auto simp: stopped_append)
      next
        fix s rs assume "lawful_send gw (gs_ledger st1) a c v s" "gs_ledger st' = snd (claim_of (gs_ledger st1) a s)"
          "trace_of st' = trace_of st1 @ map Recorded (before_send (at_attempt_id a) (bv_applicability v) s) @
            Sent (call_of a s) # map Recorded rs" "settled (at_attempt_id a) s r rs"
        then show ?thesis using st1 b c
          by (intro disjI2 exI[of _ c] exI[of _ v] exI[of _ s] exI[of _ rs]) simp
      qed
    qed
  qed
qed

end
