(* ===== verification/Gateway_Properties.thy ===== *)
theory Gateway_Properties
  imports Egress_Gateway
begin

text \<open>
  What a run of the broker egress gateway does over any number of attempts, whatever the transport, the
  sink and the context factory do: the transport is called at most once for an attempt, only after the
  evidence of an admitted verification and of the seal is on record, with exactly the constructed order,
  and every stop is recorded.
\<close>

section \<open>Runs\<close>

definition sent_calls :: "trace_event list \<Rightarrow> send_call list" where
  "sent_calls t = List.map_filter (\<lambda>e. case e of Sent c \<Rightarrow> Some c | Recorded r \<Rightarrow> None) t"

lemma sent_calls_append [simp]: "sent_calls (t @ u) = sent_calls t @ sent_calls u"
  by (simp add: sent_calls_def List.map_filter_def)

lemma sent_calls_eval [simp]:
  "sent_calls [] = []" "sent_calls (Sent c # t) = c # sent_calls t" "sent_calls (Recorded r # t) = sent_calls t"
  "sent_calls (map Recorded rs) = []"
  by (simp_all add: sent_calls_def List.map_filter_def)

lemma no_send_recorded [simp]: "xs @ Sent call # ys \<noteq> map Recorded rs" "map Recorded rs \<noteq> xs @ Sent call # ys"
  by (auto simp: append_eq_map_conv map_eq_append_conv)

text \<open>A gateway at work: its ledger and its world, nothing recorded yet.\<close>

definition gateway_start :: "send_ledger \<Rightarrow> 'v \<Rightarrow> (trace_event list \<times> 'v) gateway_state" where
  "gateway_start l w = \<lparr>gs_ledger = l, gs_results = [], gs_verifications = [], gs_world = ([], w)\<rparr>"

lemma claimed_consumes:
  "fst (claim_of l a s) \<Longrightarrow> at_attempt_id a \<notin> lg_consumed l \<and>
    lg_consumed (snd (claim_of l a s)) = insert (at_attempt_id a) (lg_consumed l)"
  by (simp add: claim_attempt_def split: if_splits)

text \<open>What one call adds to the calls of the transport.\<close>

lemma call_sends:
  assumes "gateway_call (traced gw) a st = (r, st')"
  shows "(sent_calls (trace_of st') = sent_calls (trace_of st) \<and> lg_consumed (gs_ledger st) \<subseteq> lg_consumed (gs_ledger st')) \<or>
    (\<exists>s. sent_calls (trace_of st') = sent_calls (trace_of st) @ [call_of a s] \<and>
      at_attempt_id a \<notin> lg_consumed (gs_ledger st) \<and>
      lg_consumed (gs_ledger st') = insert (at_attempt_id a) (lg_consumed (gs_ledger st)))"
  using gateway_call_trace[OF assms]
proof (elim disjE exE conjE)
  fix rs assume "trace_of st' = trace_of st @ map Recorded rs" "gs_ledger st' = gs_ledger st"
  then show ?thesis by simp
next
  fix rs c v s assume "trace_of st' = trace_of st @ map Recorded rs" "lawful_send gw (gs_ledger st) a c v s"
    "gs_ledger st' = snd (claim_of (gs_ledger st) a s)"
  then show ?thesis using claimed_consumes[of "gs_ledger st" a s] by (auto simp: lawful_send_def)
next
  fix c v s rs w
  assume "lawful_send gw (gs_ledger st) a c v s" "gs_ledger st' = snd (claim_of (gs_ledger st) a s)"
    "trace_of st' = trace_of st @
      map Recorded (item_records v @ before_send (at_attempt_id a) (bv_applicability v) s) @
      Sent (call_of a s) # map Recorded rs"
  then show ?thesis using claimed_consumes[of "gs_ledger st" a s]
    by (intro disjI2 exI[of _ s]) (auto simp: lawful_send_def simp flip: map_append)
qed

abbreviation sent_ids :: "(trace_event list \<times> 'v) gateway_state \<Rightarrow> pystr list" where
  "sent_ids st \<equiv> map (\<lambda>c. at_attempt_id (sc_attempt c)) (sent_calls (trace_of st))"

definition once_inv :: "(trace_event list \<times> 'v) gateway_state \<Rightarrow> bool" where
  "once_inv st = (distinct (sent_ids st) \<and> set (sent_ids st) \<subseteq> lg_consumed (gs_ledger st))"

lemma once_inv_call: "once_inv st \<Longrightarrow> once_inv (snd (gateway_call (traced gw) a st))"
proof -
  assume inv: "once_inv st"
  obtain r st' where call: "gateway_call (traced gw) a st = (r, st')" by force
  have inv': "distinct (sent_ids st)" "set (sent_ids st) \<subseteq> lg_consumed (gs_ledger st)"
    using inv by (simp_all only: once_inv_def)
  show ?thesis
    unfolding once_inv_def call snd_conv using call_sends[OF call]
  proof (elim disjE exE conjE)
    assume "sent_calls (trace_of st') = sent_calls (trace_of st)"
      "lg_consumed (gs_ledger st) \<subseteq> lg_consumed (gs_ledger st')"
    then show "distinct (sent_ids st') \<and> set (sent_ids st') \<subseteq> lg_consumed (gs_ledger st')"
      using inv' by (simp only: subset_trans simp_thms)
  next
    fix s assume "sent_calls (trace_of st') = sent_calls (trace_of st) @ [call_of a s]"
      and new: "at_attempt_id a \<notin> lg_consumed (gs_ledger st)"
        "lg_consumed (gs_ledger st') = insert (at_attempt_id a) (lg_consumed (gs_ledger st))"
    then have "sent_ids st' = sent_ids st @ [at_attempt_id a]" by (simp add: call_of_def)
    then show "distinct (sent_ids st') \<and> set (sent_ids st') \<subseteq> lg_consumed (gs_ledger st')"
      using inv' new by (simp only: distinct_append set_append) auto
  qed
qed

lemma once_inv_run: "once_inv st \<Longrightarrow> once_inv (run_gateway (traced gw) as st)"
  by (induction "as" arbitrary: st) (auto intro: once_inv_call)

text \<open>
  C1: the transport is called at most once for an attempt: over any sequence of calls of the gateway,
  with any contexts, any transport, any sink and any prior claims, raising or not, the calls the
  transport received name pairwise different attempts; and the gateway whose calls are so observed ends
  in the very state of the gateway itself.
\<close>

theorem transport_called_once_per_attempt:
  "distinct (sent_ids (run_gateway (traced gw) as (gateway_start l w))) \<and>
    untraced (run_gateway (traced gw) as (gateway_start l w)) =
      run_gateway gw as (untraced (gateway_start l w))"
  using once_inv_run[of "gateway_start l w" gw "as"] by (simp add: once_inv_def gateway_start_def same_run)

section \<open>What stands before a call\<close>

text \<open>A call and the records right before it, in a trace.\<close>

definition evidenced_send ::
  "'v gateway \<Rightarrow> attempt_request list \<Rightarrow> trace_event list \<Rightarrow> send_call \<Rightarrow> bool" where
  "evidenced_send gw as before call =
    (\<exists>past l a c v s. a \<in> set as \<and> call = call_of a s \<and> lawful_send gw l a c v s \<and>
      before = past @ map Recorded (item_records v @ before_send (at_attempt_id a) (bv_applicability v) s))"

lemma split_before_records:
  assumes "xs @ Sent call # ys = t @ map Recorded rs"
  obtains zs where "t = xs @ Sent call # zs"
proof -
  from assms obtain us where "(xs = t @ us \<and> us @ Sent call # ys = map Recorded rs) \<or>
      (xs @ us = t \<and> Sent call # ys = us @ map Recorded rs)"
    unfolding append_eq_append_conv2 by blast
  then show thesis
    using that no_send_recorded(1)[of "[]" call ys rs] by (cases us) auto
qed

lemma split_at_send:
  assumes "xs @ Sent call # ys = t @ map Recorded rs @ Sent c # map Recorded rs'"
  shows "(\<exists>zs. t = xs @ Sent call # zs) \<or> (xs = t @ map Recorded rs \<and> call = c)"
proof -
  have no: "Sent call \<notin> set (map Recorded rs)" "Sent call \<notin> set (map Recorded rs')" by auto
  from assms obtain us where "(xs = t @ us \<and> us @ Sent call # ys = map Recorded rs @ Sent c # map Recorded rs') \<or>
      (xs @ us = t \<and> Sent call # ys = us @ map Recorded rs @ Sent c # map Recorded rs')"
    unfolding append_eq_append_conv2 by blast
  then show ?thesis
  proof (elim disjE conjE)
    assume xs: "xs = t @ us" and eq: "us @ Sent call # ys = map Recorded rs @ Sent c # map Recorded rs'"
    from eq obtain vs where "(us = map Recorded rs @ vs \<and> vs @ Sent call # ys = Sent c # map Recorded rs') \<or>
        (us @ vs = map Recorded rs \<and> Sent call # ys = vs @ Sent c # map Recorded rs')"
      unfolding append_eq_append_conv2 by blast
    then show ?thesis
    proof (elim disjE conjE)
      assume "us = map Recorded rs @ vs" "vs @ Sent call # ys = Sent c # map Recorded rs'"
      then show ?thesis using xs no(2) by (cases vs) auto
    next
      assume "us @ vs = map Recorded rs" "Sent call # ys = vs @ Sent c # map Recorded rs'"
      then show ?thesis using xs no(1) by (cases vs) auto
    qed
  next
    assume "xs @ us = t" "Sent call # ys = us @ map Recorded rs @ Sent c # map Recorded rs'"
    then show ?thesis using no(1) by (cases us) (auto simp: Cons_eq_append_conv)
  qed
qed

lemma evidenced_more: "evidenced_send gw as xs call \<Longrightarrow> set as \<subseteq> set bs \<Longrightarrow> evidenced_send gw bs xs call"
  unfolding evidenced_send_def by blast

lemma run_evidenced:
  assumes "\<And>xs call ys. trace_of st = xs @ Sent call # ys \<Longrightarrow> evidenced_send gw bs xs call"
    "trace_of (run_gateway (traced gw) as st) = xs @ Sent call # ys"
  shows "evidenced_send gw (bs @ as) xs call"
  using assms
proof (induction "as" arbitrary: st bs xs call ys)
  case (Cons a "as")
  obtain r st' where g: "gateway_call (traced gw) a st = (r, st')" by force
  have step: "evidenced_send gw (bs @ [a]) xs' call'"
    if "trace_of st' = xs' @ Sent call' # ys'" for xs' call' ys'
    using gateway_call_trace[OF g]
  proof (elim disjE exE conjE)
    fix rs assume t: "trace_of st' = trace_of st @ map Recorded rs"
    have "xs' @ Sent call' # ys' = trace_of st @ map Recorded rs" using t that by simp
    then obtain zs where "trace_of st = xs' @ Sent call' # zs" by (rule split_before_records)
    from Cons.prems(1)[OF this] show ?thesis by (rule evidenced_more) auto
  next
    fix rs assume t: "trace_of st' = trace_of st @ map Recorded rs"
    have "xs' @ Sent call' # ys' = trace_of st @ map Recorded rs" using t that by simp
    then obtain zs where "trace_of st = xs' @ Sent call' # zs" by (rule split_before_records)
    from Cons.prems(1)[OF this] show ?thesis by (rule evidenced_more) auto
  next
    fix c v s rs w
    let ?rs = "item_records v @ before_send (at_attempt_id a) (bv_applicability v) s"
    assume l: "lawful_send gw (gs_ledger st) a c v s"
      and t: "trace_of st' = trace_of st @ map Recorded ?rs @ Sent (call_of a s) # map Recorded rs"
    have "xs' @ Sent call' # ys' = trace_of st @ map Recorded ?rs @ Sent (call_of a s) # map Recorded rs"
      using t that by simp
    from split_at_send[OF this] show ?thesis
    proof (elim disjE exE conjE)
      fix zs assume "trace_of st = xs' @ Sent call' # zs"
      from Cons.prems(1)[OF this] show ?thesis by (rule evidenced_more) auto
    next
      assume "xs' = trace_of st @ map Recorded ?rs" "call' = call_of a s"
      then show ?thesis using l unfolding evidenced_send_def by fastforce
    qed
  qed
  have "trace_of (run_gateway (traced gw) as st') = xs @ Sent call # ys" using Cons.prems(2) g by simp
  from Cons.IH[OF step this] show ?case by simp
qed simp


lemma every_send_evidenced:
  assumes "trace_of (run_gateway (traced gw) as (gateway_start l w)) = xs @ Sent call # ys"
  shows "evidenced_send gw as xs call"
  using run_evidenced[of "gateway_start l w" gw "[]" "as" xs call ys] assms by (simp add: gateway_start_def)

text \<open>
  C2: no call without its evidence: in the trace of any run, right before a call of the transport stand
  the seventeen items of a verification that admitted this very attempt, the seal that was built for it
  and claimed, the start, the observation that it may be live, and the entry into the call; and the call
  is the one the seal names.
\<close>

theorem sends_are_evidenced:
  assumes "trace_of (run_gateway (traced gw) as (gateway_start l w)) = xs @ Sent call # ys"
  shows "evidenced_send gw as xs call"
  by (rule every_send_evidenced[OF assms])

section \<open>What is sent\<close>

lemma gathered:
  assumes "gather_seal_fields c i cs = Some g"
  shows "sx_instrument_key c = Some (sl_instrument_key g)" "sl_outbound_coordinates g = cs"
    "sx_outbound_quantity c = Some (sl_outbound_quantity g)" "sx_outbound_price c = Some (sl_outbound_price g)"
    "sx_outbound_side c = Some (sl_outbound_side g)"
  using assms by (auto simp: gather_seal_fields_def split: option.splits)

lemma digested_sel [simp]:
  "sl_instrument_key (digested s g) = sl_instrument_key g"
  "sl_outbound_coordinates (digested s g) = sl_outbound_coordinates g"
  "sl_outbound_quantity (digested s g) = sl_outbound_quantity g"
  "sl_outbound_price (digested s g) = sl_outbound_price g" "sl_outbound_side (digested s g) = sl_outbound_side g"
  by (simp_all add: digested_def Let_def)

lemma built_seal:
  assumes "build_send_seal c a cs h = Inr s"
  shows "send_seal_ok s" "sx_instrument_key c = Some (sl_instrument_key s)" "sl_outbound_coordinates s = cs"
    "sx_outbound_quantity c = Some (sl_outbound_quantity s)" "sx_outbound_price c = Some (sl_outbound_price s)"
    "sx_outbound_side c = Some (sl_outbound_side s)"
  using assms by (auto simp: build_send_seal_def dest: gathered split: option.splits if_splits)

lemma outbound_bound_iff:
  "outbound_bound c \<longleftrightarrow> (\<exists>k cmd q dq p dp side r d.
    sx_construction c = Some k \<and> cn_command k = Some cmd \<and> sx_outbound_quantity c = Some q \<and>
    qd_quantity (cn_derivation k) = Some dq \<and> deq q dq \<and> sx_outbound_price c = Some p \<and>
    qd_price (cn_derivation k) = Some dp \<and> deq p dp \<and> command_axis_value cmd AX_SIDE = Some side \<and>
    sx_outbound_side c = Some side \<and> sx_egress_request c = Some r \<and>
    rx_canonical_command_digest (ar_content r) = Some d \<and> ar_canonical_digest cmd = Some d)"
  unfolding outbound_bound_def by (auto split: option.splits bind_splits)

lemma lawful_order:
  assumes "lawful_send gw l a c v s"
  obtains k cmd q p x r where "sx_construction c = Some k" "cn_command k = Some cmd"
    "cn_conformance_result k = Some CONFORMANT" "qd_quantity (cn_derivation k) = Some q"
    "deq (sl_outbound_quantity s) q" "qd_price (cn_derivation k) = Some p" "deq (sl_outbound_price s) p"
    "command_axis_value cmd AX_SIDE = Some (sl_outbound_side s)" "sx_authorized_coordinates c = Some x"
    "sl_outbound_coordinates s = coordinates_of x" "sx_egress_request c = Some r"
    "rx_coordinates (ar_content r) = x" "rx_canonical_command_digest (ar_content r) = ar_canonical_digest cmd"
proof -
  have v: "verify_send_boundary a c = Inr v" "bv_admitted v = Some True" "outbound_bound c"
    "build_send_seal c a (outbound_coordinates c) (gw_scheme gw) = Inr s"
    using assms by (simp_all add: lawful_send_def)
  note seal = built_seal[OF v(4)]
  have facts: "admits (check_construction c)" "admits (check_actual_outbound c)"
    using admitted_iff[OF v(1)] v(2) all_judged_iff[of a c "applicability_of c"] by simp_all
  from v(3) obtain k cmd q p r where k: "sx_construction c = Some k" "cn_command k = Some cmd"
    "qd_quantity (cn_derivation k) = Some q" "deq (sl_outbound_quantity s) q"
    "qd_price (cn_derivation k) = Some p" "deq (sl_outbound_price s) p"
    "command_axis_value cmd AX_SIDE = Some (sl_outbound_side s)" "sx_egress_request c = Some r"
    "rx_canonical_command_digest (ar_content r) = ar_canonical_digest cmd"
    unfolding outbound_bound_iff seal by auto
  moreover have "cn_conformance_result k = Some CONFORMANT"
    using facts(1) k(1) unfolding construction_admits by simp
  moreover obtain x where "sx_authorized_coordinates c = Some x" "rx_coordinates (ar_content r) = x"
    using facts(2) k(8) unfolding outbound_admits exact_binding_iff by auto
  moreover from this(1) seal(3) have "sl_outbound_coordinates s = coordinates_of x"
    by (simp add: outbound_coordinates_def)
  ultimately show thesis using that by blast
qed

text \<open>
  A call in the trace of a run was made by one attempt of the run, on the context the gateway's own
  source gave for that attempt in the state the attempts before it left.
\<close>

lemma run_sent_at:
  assumes "trace_of (run_gateway (traced gw) as st) = xs @ Sent call # ys"
  shows "(\<exists>zs. trace_of st = xs @ Sent call # zs) \<or>
    (\<exists>pre a post l' c v s w'. as = pre @ a # post \<and>
      bound_context gw a (snd (gs_world (run_gateway (traced gw) pre st))) = (Inr (Some c), w') \<and>
      xs = trace_of (run_gateway (traced gw) pre st) @
        map Recorded (item_records v @ before_send (at_attempt_id a) (bv_applicability v) s) \<and>
      call = call_of a s \<and> lawful_send gw l' a c v s)"
  using assms
proof (induction "as" arbitrary: st)
  case (Cons a "as")
  obtain r st' where g: "gateway_call (traced gw) a st = (r, st')" by force
  have "trace_of (run_gateway (traced gw) as st') = xs @ Sent call # ys" using Cons.prems g by simp
  from Cons.IH[OF this] show ?case
  proof (elim disjE exE conjE)
    fix zs assume zs: "trace_of st' = xs @ Sent call # zs"
    show ?thesis
      using gateway_call_trace[OF g]
    proof (elim disjE exE conjE)
      fix rs assume "trace_of st' = trace_of st @ map Recorded rs"
      with zs split_before_records[of xs call zs "trace_of st" rs] show ?thesis by (metis (no_types))
    next
      fix rs assume "trace_of st' = trace_of st @ map Recorded rs"
      with zs split_before_records[of xs call zs "trace_of st" rs] show ?thesis by (metis (no_types))
    next
      fix c v s rs w
      let ?rs = "item_records v @ before_send (at_attempt_id a) (bv_applicability v) s"
      assume l: "lawful_send gw (gs_ledger st) a c v s"
        and b: "bound_context gw a (snd (gs_world st)) = (Inr (Some c), w)"
        and "trace_of st' = trace_of st @ map Recorded ?rs @ Sent (call_of a s) # map Recorded rs"
      with zs have "xs @ Sent call # zs = trace_of st @ map Recorded ?rs @ Sent (call_of a s) # map Recorded rs"
        by simp
      from split_at_send[OF this] show ?thesis
      proof (elim disjE conjE)
        assume "xs = trace_of st @ map Recorded ?rs" "call = call_of a s"
        with l b show ?thesis by (intro disjI2 exI[of _ "[]"]) auto
      qed simp
    qed
  next
    fix pre a' post l' c v s w'
    assume "as = pre @ a' # post"
      "bound_context gw a' (snd (gs_world (run_gateway (traced gw) pre st'))) = (Inr (Some c), w')"
      "xs = trace_of (run_gateway (traced gw) pre st') @
        map Recorded (item_records v @ before_send (at_attempt_id a') (bv_applicability v) s)"
      "call = call_of a' s" "lawful_send gw l' a' c v s"
    with g show ?thesis by (intro disjI2 exI[of _ "a # pre"]) auto
  qed
qed simp

text \<open>
  C3: only the constructed order is sent: a call of the transport in a run was made by one attempt of
  the run, in the state st the attempts before it left; with c the context the gateway's own
  source gives for that attempt in that state (an existing context, found without an exception), the
  call carries the quantity, the price and the side of the conformant command the construction of c
  names, and exactly the coordinates c authorises, which are those of the egress request c holds for
  that command.
\<close>

theorem only_the_constructed_order_is_sent:
  assumes "trace_of (run_gateway (traced gw) as (gateway_start l w)) = xs @ Sent call # ys"
  shows "\<exists>pre post st c w' rs. as = pre @ sc_attempt call # post \<and>
    st = run_gateway (traced gw) pre (gateway_start l w) \<and> xs = trace_of st @ map Recorded rs \<and>
    bound_context gw (sc_attempt call) (snd (gs_world st)) = (Inr (Some c), w') \<and>
    (\<exists>v k cmd q p x r. verify_send_boundary (sc_attempt call) c = Inr v \<and> bv_admitted v = Some True \<and>
      sx_construction c = Some k \<and> cn_command k = Some cmd \<and> cn_conformance_result k = Some CONFORMANT \<and>
      qd_quantity (cn_derivation k) = Some q \<and> deq (sc_quantity call) q \<and>
      qd_price (cn_derivation k) = Some p \<and> deq (sc_price call) p \<and>
      command_axis_value cmd AX_SIDE = Some (sc_side call) \<and> sx_authorized_coordinates c = Some x \<and>
      sc_coordinates call = coordinates_of x \<and> sx_egress_request c = Some r \<and>
      rx_coordinates (ar_content r) = x \<and> rx_canonical_command_digest (ar_content r) = ar_canonical_digest cmd)"
proof -
  have "trace_of (gateway_start l w) = []" by (simp add: gateway_start_def)
  with run_sent_at[OF assms] obtain pre a post l' c v s w' rs where
    s: "as = pre @ a # post" "call = call_of a s" "lawful_send gw l' a c v s"
      "bound_context gw a (snd (gs_world (run_gateway (traced gw) pre (gateway_start l w)))) = (Inr (Some c), w')"
      "xs = trace_of (run_gateway (traced gw) pre (gateway_start l w)) @ map Recorded rs"
    by (metis (no_types) append_is_Nil_conv list.distinct(1))
  have call: "sc_attempt call = a" "sc_quantity call = sl_outbound_quantity s" "sc_price call = sl_outbound_price s"
    "sc_side call = sl_outbound_side s" "sc_coordinates call = sl_outbound_coordinates s"
    by (simp_all add: s(2) call_of_def)
  have v: "verify_send_boundary a c = Inr v" "bv_admitted v = Some True"
    using s(3) by (simp_all add: lawful_send_def)
  show ?thesis
    using s(3)
  proof (cases rule: lawful_order)
    case (1 k cmd q p x r)
    show ?thesis
      unfolding call
      by (rule exI[of _ pre], rule exI[of _ post], rule exI, rule exI[of _ c], rule exI[of _ w'], rule exI[of _ rs],
          intro conjI, rule s(1), rule refl, rule s(5), rule s(4),
          rule exI[of _ v], rule exI[of _ k], rule exI[of _ cmd], rule exI[of _ q],
          rule exI[of _ p], rule exI[of _ x], rule exI[of _ r]) (use 1 v in simp)
  qed
qed

section \<open>Stops\<close>

lemma stop_recorded:
  assumes "gateway_call (traced gw) a st = (Inr h, st')"
  shows "(h = refused \<and> (\<exists>t r. trace_of st' = t @ [Recorded r] \<and> stop_record (at_attempt_id a) r)) \<or>
    (h = accepted (at_attempt_id a) \<and> (\<exists>t s rs. trace_of st' = trace_of st @ t @ Sent (call_of a s) #
      Recorded (result_record (at_attempt_id a) s) # map Recorded rs))"
proof -
  have refused: ?thesis if "trace_of st' = t @ map Recorded rs" "stopped (at_attempt_id a) (Inr h) rs" for t rs
  proof -
    from that(2) have "h = refused" "rs \<noteq> []" "stop_record (at_attempt_id a) (last rs)"
      by (simp_all add: stopped_def)
    then have "trace_of st' = (t @ map Recorded (butlast rs)) @ [Recorded (last rs)]"
      using that(1) by (metis append.assoc append_butlast_last_id list.simps(8,9) map_append)
    with \<open>h = refused\<close> \<open>stop_record _ _\<close> show ?thesis by blast
  qed
  from gateway_call_trace[OF assms] show ?thesis
  proof (elim disjE exE conjE)
    fix c v s rs w
    let ?new = "map Recorded (item_records v @ before_send (at_attempt_id a) (bv_applicability v) s)"
    assume t: "trace_of st' = trace_of st @ ?new @ Sent (call_of a s) # map Recorded rs"
      and "settled (at_attempt_id a) s (Inr h) rs"
    then consider "stopped (at_attempt_id a) (Inr h) rs"
      | rs' where "rs = result_record (at_attempt_id a) s # rs'" "h = accepted (at_attempt_id a)"
      by (auto simp: settled_def)
    then show ?thesis
    proof cases
      case 1
      with refused[of "trace_of st @ ?new @ [Sent (call_of a s)]" rs] t show ?thesis by simp
    next
      case 2
      with t show ?thesis by (intro disjI2 conjI exI[of _ ?new] exI[of _ s] exI[of _ rs']) simp_all
    qed
  qed (use refused in blast)+
qed

text \<open>
  C4: no stop without its record, no acceptance without a result: whenever a call of the gateway returns,
  it either refuses, and the last thing on record is a refusal of this attempt with its reason, or it
  accepts, and the transport was called for this attempt and its result recorded right after.
\<close>

theorem every_gateway_stop_is_recorded:
  assumes "gateway_call (traced gw) a st = (Inr h, st')"
  shows "(h = refused \<and> (\<exists>t r. trace_of st' = t @ [Recorded r] \<and> stop_record (at_attempt_id a) r)) \<or>
    (h = accepted (at_attempt_id a) \<and> (\<exists>t s rs. trace_of st' = trace_of st @ t @ Sent (call_of a s) #
      Recorded (result_record (at_attempt_id a) s) # map Recorded rs))"
  by (rule stop_recorded[OF assms])

section \<open>A synthetic send\<close>

definition demo_attempt :: attempt_request where
  "demo_attempt = \<lparr>at_attempt_id = ''at1'', at_conformance_proof_digest = ''pf'',
    at_action_flow_permit_identity = ''permit'', at_reference_coordinate_digest = ''rc''\<rparr>"

definition demo_coordinates :: egress_coordinate_set where
  "demo_coordinates = \<lparr>xc_endpoint = Some ''e'', xc_account = Some ''A'', xc_environment = Some ''sim'',
    xc_action = Some ''order'', xc_method = Some ''POST'', xc_route_identity = Some ''r'',
    xc_credential_generation = Some 1, xc_broker_session_generation = Some 1, xc_egress_generation = Some 1,
    xc_active_principal = Some ''p''\<rparr>"

definition demo_capability :: transmission_capability where
  "demo_capability = \<lparr>tc_capability_id = Some ''cap'', tc_nonce = Some ''n1'', tc_single_use = True,
    tc_reservation_identity = None, tc_attempt_identity = None, tc_account_scope = None,
    tc_instrument_scope = None, tc_side_action_scope = None, tc_maximum_quantity = None,
    tc_ledger_epoch = None, tc_live_authorization_binding = None, tc_protective_lease_binding = None,
    tc_hard_safety_envelope_version = None, tc_runtime_safety_profile_version = None,
    tc_worst_case_effect = CapacityVector [], tc_bound_reservation_revision = None, tc_fence = empty_fence,
    tc_dominating_restriction = False,
    tc_authority_effect = \<lparr>ra_creates_capacity = False, ra_may_mutate_live_state = False,
      ra_may_release_capacity = False, ra_permits_broker_transmission = False, ra_may_rearm = False\<rparr>\<rparr>"

definition demo_route :: instrument_route where
  "demo_route = \<lparr>ir_canonical_instrument_id = None, ir_venue_listing = None, ir_market_segment = None,
    ir_contract_month = None, ir_product_type = None, ir_currency = None, ir_multiplier = None,
    ir_expiration = None, ir_settlement_method = None, ir_account_mapping = None, ir_environment = None,
    ir_broker = None, ir_route = None, ir_routing_relevant_aliases = {}\<rparr>"

definition demo_shape :: order_shape where
  "demo_shape = \<lparr>os_price = Some 100, os_quantity = Some 2, os_order_type = Some ''LIMIT'', os_tif = Some ''DAY'',
    os_side = Some ''BUY'', os_position_effect = Some ''OPEN'', os_silently_rounded = Some False\<rparr>"

definition demo_shape_constraints :: venue_shape_constraints where
  "demo_shape_constraints = \<lparr>vs_price_min = Some 0, vs_price_max = Some 1000, vs_tick_size = Some 5,
    vs_price_band_ticks = None, vs_lot_size = Some 1, vs_min_quantity = Some 1, vs_max_quantity = Some 10,
    vs_allowed_order_types = [''LIMIT''], vs_allowed_tifs = [''DAY''], vs_allowed_sides = [''BUY''],
    vs_allowed_position_effects = [''OPEN'']\<rparr>"

definition demo_venue_policy :: venue_constraint_policy where
  "demo_venue_policy = demo_artifact \<lparr>vp_policy_generation = Some 1, vp_scope = None,
    vp_admitting_phase_rules = [\<lparr>ap_action = Some AC_NEW_LONG, ap_admitting_phases = [''OPEN'']\<rparr>],
    vp_required_constraint_classes = [], vp_shape_constraints = demo_shape_constraints,
    vp_dependency_closure = \<lparr>cd_edges = [], cd_unproven_edges = []\<rparr>\<rparr>"

definition demo_venue_snapshot :: venue_constraint_snapshot where
  "demo_venue_snapshot = demo_artifact \<lparr>vn_constraint_generation = Some 1, vn_policy_id = None,
    vn_policy_generation = None, vn_policy_digest = None, vn_observed_session_phase = Some ''OPEN'',
    vn_action_tradability = [], vn_critical_input_snapshot_digest = None, vn_source_continuity_id = None,
    vn_max_age = None\<rparr>"

definition demo_venue_decision :: order_admissibility_decision where
  "demo_venue_decision = demo_artifact \<lparr>ad_decision_generation = Some 1, ad_constraint_generation = None,
    ad_policy_id = None, ad_policy_generation = None, ad_policy_digest = None, ad_snapshot_id = None,
    ad_snapshot_digest = None, ad_decision_context_capsule_id = None, ad_decision_context_capsule_digest = None,
    ad_candidate_command_id = None, ad_candidate_command_digest = None,
    ad_broker_capability_profile_version = None, ad_broker_capability_profile_digest = None,
    ad_bound_instrument_route = demo_route, ad_action_class = Some AC_NEW_LONG,
    ad_observed_session_phase = Some ''OPEN'', ad_result = Some OA_ADMISSIBLE, ad_failed_predicates = [],
    ad_unknown_predicates = [],
    ad_authority_effect = \<lparr>vg_approves = False, vg_mutates_capacity = False, vg_issues_authority = False,
      vg_classifies_protection = False, vg_transmits = False, vg_clears_halt = False, vg_rearms = False\<rparr>\<rparr>"

definition demo_command :: canonical_broker_command where
  "demo_command = demo_artifact \<lparr>cm_command_generation = Some 1, cm_proposal_id = Some ''p1'',
    cm_proposal_digest = Some ''pd'', cm_axis_bindings = demo_axis_bindings,
    cm_authority_effect = no_construction_authority, cm_command_order = None\<rparr>"

definition demo_conformance_proof :: order_conformance_proof where
  "demo_conformance_proof = demo_artifact \<lparr>cf_proof_generation = Some 1, cf_policy_digest = None,
    cf_envelope_digest = None, cf_command_digest = Some ''d1'', cf_effect_digest = None, cf_input_digest = None,
    cf_output_digest = None, cf_aggregate_risk_decision_id = None, cf_aggregate_risk_decision_generation = None,
    cf_aggregate_risk_decision_digest = None, cf_venue_admissibility_decision_digest = None,
    cf_broker_capability_profile_digest = None, cf_required_authority_scope = [],
    cf_conformance_result = Some CONFORMANT, cf_authority_effect = no_construction_authority,
    cf_proof_order = None\<rparr>"

definition demo_construction :: candidate_construction where
  "demo_construction = \<lparr>cn_derivation = \<lparr>qd_outcome = DERIVED, qd_quantity = Some (Dec 2 0),
      qd_price = Some (Dec 1 2), qd_quantity_unit = Some UNIT_CONTRACTS, qd_rule = Some ''risk'',
      qd_denial_reason = None\<rparr>,
    cn_intent = Some demo_contract, cn_envelope = Some demo_construction_envelope,
    cn_policy = Some demo_construction_policy, cn_command = Some demo_command,
    cn_conformance_result = Some CONFORMANT, cn_numerical_result = Some CONFORMANT,
    cn_no_silent_widening_ok = Some True, cn_denial_reason = None\<rparr>"

definition demo_revision :: currentness_revision where
  "demo_revision = \<lparr>rv_revision_id = Some ''rev'', rv_commit_index = Some 1\<rparr>"

definition demo_currentness_proof :: egress_currentness_proof where
  "demo_currentness_proof = demo_artifact \<lparr>cpf_nonce = Some ''n'', cpf_single_use_consumed = Some False,
    cpf_issue_revision = Some demo_revision, cpf_expiry_evidence = None, cpf_is_expired = Some False,
    cpf_vector_id = Some ''v'', cpf_vector_digest = Some ''vd'', cpf_committed_revision = Some demo_revision,
    cpf_bound_generations = [1], cpf_restrictive_floors = [],
    cpf_egress_coordinates = \<lparr>ec_principal = None, ec_deployment = None, ec_credential = None, ec_signer = None,
      ec_route = None, ec_endpoint = None, ec_broker_session = None, ec_local_latch_clear = Some True\<rparr>,
    cpf_trial_claims = JNull, cpf_capability_claim_command = Some ''claim'', cpf_claim_committed_result = None,
    cpf_send_started_revision = Some demo_revision, cpf_max_claim_to_send_bound_ms = None,
    cpf_result = Some CURRENT\<rparr>"

definition demo_egress_request :: egress_request_record where
  "demo_egress_request = demo_artifact \<lparr>rx_request_bytes_digest = Some ''rb'',
    rx_canonical_command_digest = Some ''d1'', rx_coordinates = demo_coordinates, rx_side = Some ''BUY'',
    rx_quantity_digest = None\<rparr>"

definition demo_certificate :: quorum_commit_certificate where
  "demo_certificate = demo_artifact \<lparr>qc_commit = \<lparr>cx_cluster_identity = None, cx_capacity_domain = None,
      cx_membership_generation = None, cx_restore_generation = None, cx_writer_epoch = None,
      cx_committed_revision = None, cx_canonical_command_digest = Some ''d1'', cx_resulting_state_digest = None,
      cx_egress_generation = None, cx_credential_generation = None, cx_broker_session_generation = None,
      cx_route_policy_generation = None, cx_trust_bundle_generation = None\<rparr>,
    qc_safety_cell = None, qc_parent_revision = None, qc_command_identity = None,
    qc_active_egress_principal = None, qc_endpoint_policy_generation = None,
    qc_recovery_evidence_package_digest = None, qc_decision_context_capsule_digest = None,
    qc_venue_admissibility_decision_digest = None, qc_canonical_broker_command_digest = None,
    qc_order_conformance_proof_digest = None, qc_aggregate_risk_decision_digest = None,
    qc_action_flow_decision_digest = None, qc_action_flow_permit_id = None,
    qc_approval_consumption_record_digest = None, qc_egress_currentness_proof_id = None,
    qc_release_artifact_attestation_digest = None, qc_post_trade_obligation_generation = None,
    qc_signer_coordinates = [], qc_capability_nonce = None, qc_action_flow_permit_nonce = None,
    qc_is_restricted_live_trial = False, qc_trial_claims = None\<rparr>"

definition demo_send_context :: send_boundary_context where
  "demo_send_context = \<lparr>sx_instrument_key = Some (''A'', ''I''),
    sx_transport_nature = Some \<lparr>tn_principal = Some ''p'', tn_reaches_broker = Some False,
      tn_credential_bearing = Some False, tn_route_bearing = Some False, tn_risk_relevant_live = Some False\<rparr>,
    sx_non_live_test_environment_token = Some ''sim'', sx_scope_environment = Some ''sim'',
    sx_evidence_environment = Some ''sim'', sx_environment_inherited = Some False,
    sx_credential_route_inventory = [\<lparr>ci_principal = Some ''p'', ci_usable_credential = Some False,
      ci_broker_route = Some False, ci_inside_boundary = Some True\<rparr>],
    sx_transmission_capability = Some demo_capability, sx_capability_nonce = Some ''n1'',
    sx_action_flow_permit_nonce = Some ''n2'', sx_prior_claims = [], sx_principal = Some ''p'',
    sx_request_digest = Some ''rd'', sx_reservation_attempt_id = Some ''at1'',
    sx_reservation_conformance_proof_digest = Some ''pf'',
    sx_reservation_action_flow_permit_identity = Some ''permit'', sx_commitment_epoch_current = Some True,
    sx_safety_authority_epoch_current = None, sx_live_scope_valid = None, sx_safety_profile_current = None,
    sx_deviation_clear = None, sx_incident_clear = None, sx_monitoring_clear = None,
    sx_broker_capability_profile = None, sx_required_capability_set = None,
    sx_broker_profile_version_current = None, sx_capability_tuples = [], sx_idempotency_proven = None,
    sx_account_instrument_action_allowed = Some True, sx_max_quantity_within_allowance = Some True,
    sx_session_facts_current = Some True, sx_tradability_facts_current = Some True,
    sx_account_facts_current = Some True, sx_broker_constraint_generation_current = Some True,
    sx_venue_snapshot = Some demo_venue_snapshot, sx_venue_policy = Some demo_venue_policy,
    sx_venue_decision = Some demo_venue_decision, sx_observed_session_phase = Some ''OPEN'',
    sx_action_class = Some AC_NEW_LONG, sx_order_shape = Some demo_shape,
    sx_venue_shape_constraints = Some demo_shape_constraints, sx_construction = Some demo_construction,
    sx_conformance_proof = Some demo_conformance_proof, sx_approval_consumed_for_this_intent = Some True,
    sx_approval_intent_binding_digest = Some ''d1'', sx_action_flow_permit_identity = Some ''permit'',
    sx_action_flow_commitment_current = Some True, sx_egress_currentness_proof = Some demo_currentness_proof,
    sx_egress_currentness_result = Some CURRENT, sx_restrictive_latch_state = Some CLEAR,
    sx_worst_credible_capacity = None, sx_egress_request = Some demo_egress_request,
    sx_quorum_commit_certificate = Some demo_certificate, sx_authorized_coordinates = Some demo_coordinates,
    sx_capsule_egress_request_digest = Some ''rb'', sx_outbound_quantity = Some (Dec 2 0),
    sx_outbound_price = Some (Dec 1 2), sx_outbound_side = Some ''BUY'', sx_reference = event_at_commit 1\<rparr>"

lemmas demo_defs =
  demo_send_context_def demo_attempt_def demo_coordinates_def demo_capability_def demo_shape_def
  demo_shape_constraints_def demo_venue_policy_def demo_venue_snapshot_def demo_venue_decision_def
  demo_command_def demo_conformance_proof_def demo_construction_def demo_currentness_proof_def
  demo_egress_request_def demo_certificate_def

lemma not_blank_demo [simp]: "\<not> blank ''at1''" "\<not> blank ''pf''" "\<not> blank ''permit''" "\<not> blank ''p''"
  by (simp_all add: blank_def white_space_def)

lemma demo_applicability: "applicability_of demo_send_context = NON_BROKER_SYNTHETIC"
  by (simp add: demo_send_context_def resolve_broker_applicability_def credential_route_authority_disjoint_def
      environment_binding_ok_def)

lemma demo_venue_now: "venue_now demo_send_context = OA_ADMISSIBLE"
proof -
  have "session_phase_admits (Some ''OPEN'') AC_NEW_LONG (Some demo_venue_snapshot) (Some demo_venue_policy) = OA_ADMISSIBLE"
    by (simp add: session_phase_admits_def admitting_phases_for_def demo_venue_policy_def)
  moreover have "order_shape_admissible (Some demo_shape) (Some demo_shape_constraints) = OA_ADMISSIBLE"
    by (simp add: order_shape_admissible_def resolved_tick_def has_bands_def in_allowed_def demo_shape_def
        demo_shape_constraints_def)
  ultimately show ?thesis by (simp add: fold_admissible demo_send_context_def)
qed

lemma demo_binding:
  "exact_binding_holds (Some demo_egress_request) (Some demo_certificate) (Some demo_coordinates)
    (Some ''CONFORMANT'') (Some ''rb'')"
  by (simp add: exact_binding_iff coordinates_concrete_def coordinate_values_eval demo_egress_request_def demo_certificate_def demo_coordinates_def)

lemma demo_proof_admissible: "proof_admissible (Some demo_currentness_proof)"
  by (simp add: proof_admissible_iff proof_missing_def demo_currentness_proof_def currentness_proof_class_def
      demo_revision_def revision_json_def)

lemma demo_admitted:
  obtains v where "verify_send_boundary demo_attempt demo_send_context = Inr v" "bv_admitted v = Some True"
proof -
  obtain v where v: "verify_send_boundary demo_attempt demo_send_context = Inr v"
    using verification_total[of demo_attempt demo_send_context] by blast
  have "admits (check_capability demo_send_context)"
    unfolding capability_admits by (simp add: demo_send_context_def demo_capability_def unclaimed_def)
  moreover have "admits (check_identities demo_attempt demo_send_context)"
    unfolding identities_admit by (simp add: demo_send_context_def demo_attempt_def)
  moreover have "admits (check_commitment_epoch demo_send_context)"
    unfolding epoch_admits by (simp add: demo_send_context_def)
  moreover have "admits (check_allowance demo_send_context NON_BROKER_SYNTHETIC)"
    unfolding allowance_admits by (simp add: demo_send_context_def environment_binding_ok_def)
  moreover have "admits (check_venue demo_send_context)"
    unfolding venue_admits demo_venue_now by (simp add: demo_send_context_def demo_venue_decision_def)
  moreover have "admits (venue_generation_item_verdict demo_send_context)"
    unfolding venue_generation_admits by (simp add: demo_send_context_def)
  moreover have "admits (check_construction demo_send_context)"
    unfolding construction_admits
    by (simp add: demo_send_context_def demo_construction_def mutation_fence_holds_def demo_command_def
        demo_conformance_proof_def)
  moreover have "admits (check_approval demo_send_context)"
    unfolding approval_admits by (simp add: demo_send_context_def demo_construction_def demo_contract_def)
  moreover have "admits (check_action_flow demo_attempt demo_send_context)"
    unfolding action_flow_admits by (simp add: demo_send_context_def demo_attempt_def)
  moreover have "admits (check_currentness demo_send_context)"
    unfolding currentness_admits using demo_proof_admissible by (simp add: demo_send_context_def)
  moreover have "admits (check_actual_outbound demo_send_context)"
    unfolding outbound_admits using demo_binding by (simp add: demo_send_context_def demo_construction_def)
  ultimately have "bv_admitted v = Some True"
    unfolding admitted_iff[OF v] all_judged_iff demo_applicability by (simp del: insert_iff)
  with v that show thesis by blast
qed

lemma demo_outbound: "outbound_bound demo_send_context"
  by (simp add: outbound_bound_def demo_send_context_def demo_construction_def demo_egress_request_def demo_command_def
      command_axis_value_def axis_lookup_def demo_axis_bindings_def deq_iff)

lemma demo_seal: "\<exists>s. build_send_seal demo_send_context demo_attempt (outbound_coordinates demo_send_context) (\<lambda>_. ''h'') = Inr s \<and>
  sl_capability_nonce s = ''n1'' \<and> sl_action_flow_permit_nonce s = ''n2''"
  by (simp add: build_send_seal_def gather_seal_fields_def digested_def Let_def demo_send_context_def demo_attempt_def
      demo_egress_request_def demo_coordinates_def outbound_coordinates_def coordinates_of_def send_seal_ok_def
      sealed_strings_def sealed_coordinates_def reference_coordinate_digest_def)

definition demo_reply :: "send_call \<Rightarrow> transport_reply" where
  "demo_reply c = reply_of \<lparr>eg_instrument_key = sc_instrument_key c, eg_attempt_id = at_attempt_id (sc_attempt c),
    eg_kind = ACK, eg_filled_quantity = None, eg_remaining_quantity = None, eg_broker_execution_id = None,
    eg_resolution_generation = None\<rparr>"

definition demo_gateway :: "nat gateway" where
  "demo_gateway = \<lparr>gw_contexts = CONTEXT_MAP [(''at1'', demo_send_context)],
    gw_transport = Some (\<lambda>c w. (Inr (demo_reply c), w)), gw_sink = (\<lambda>r w. (None, w)), gw_scheme = (\<lambda>_. ''h'')\<rparr>"

lemma demo_sink:
  "sink_records (traced demo_gateway) rs st =
    (None, st\<lparr>gs_world := (trace_of st @ map Recorded rs, snd (gs_world st))\<rparr>)"
proof (induction rs arbitrary: st)
  case Nil
  show ?case by (cases st) simp
next
  case (Cons r rs)
  have "gw_sink demo_gateway r w = (None, w)" for w by (simp add: demo_gateway_def)
  with Cons show ?case by (simp add: traced_sink)
qed

lemma demo_context_bound: "bound_context demo_gateway demo_attempt w = (Inr (Some demo_send_context), w)"
  by (simp add: bound_context_def demo_gateway_def demo_attempt_def)

abbreviation demo_start :: "(trace_event list \<times> nat) gateway_state" where
  "demo_start \<equiv> gateway_start (new_send_ledger []) 0"

lemma demo_recording:
  "recording (traced demo_gateway) rs st k = k (st\<lparr>gs_world := (trace_of st @ map Recorded rs, snd (gs_world st))\<rparr>)"
  by (simp add: recording_def demo_sink)

lemma demo_transport:
  "gw_transport (traced demo_gateway) = Some (\<lambda>c tw. (Inr (demo_reply c), (fst tw @ [Sent c], snd tw)))"
  by (simp add: traced_transport demo_gateway_def)

lemma demo_sealed:
  "fst (send_sealed (traced demo_gateway) demo_attempt demo_send_context z s st) = Inr (accepted ''at1'')"
  by (simp add: send_sealed_def demo_recording demo_transport demo_reply_def consume_reply_def reply_of_def
      call_of_def demo_attempt_def Let_def)

lemma demo_judged:
  assumes "bv_admitted v = Some True" "gs_ledger st = new_send_ledger []"
  shows "fst (judge_and_send (traced demo_gateway) demo_attempt demo_send_context v st) = Inr (accepted ''at1'')"
proof -
  have "gw_scheme (traced demo_gateway) = (\<lambda>_. ''h'')" by (simp add: traced_def demo_gateway_def)
  moreover obtain s where "build_send_seal demo_send_context demo_attempt (outbound_coordinates demo_send_context)
      (\<lambda>_. ''h'') = Inr s" "sl_capability_nonce s = ''n1''" "sl_action_flow_permit_nonce s = ''n2''"
    using demo_seal by blast
  moreover from this have "fst (claim_of (new_send_ledger []) demo_attempt s)"
    by (simp add: claim_attempt_def new_send_ledger_def capability_and_permit_single_use_def unclaimed_def
        demo_attempt_def)
  ultimately show ?thesis
    using assms demo_outbound
    by (cases "claim_of (new_send_ledger []) demo_attempt s") (simp add: judge_and_send_def seal_and_claim_def demo_sealed)
qed

lemma demo_call: "fst (gateway_call (traced demo_gateway) demo_attempt demo_start) = Inr (accepted ''at1'')"
proof -
  obtain v where v: "verify_send_boundary demo_attempt demo_send_context = Inr v" "bv_admitted v = Some True"
    by (rule demo_admitted)
  have ctx: "bound_context (traced demo_gateway) demo_attempt w = (Inr (Some demo_send_context), w)" for w
    by (simp add: traced_context demo_context_bound)
  have "sx_instrument_key demo_send_context = Some (''A'', ''I'')" by (simp add: demo_send_context_def)
  moreover have "\<not> attempt_consumed (new_send_ledger []) (at_attempt_id demo_attempt)"
    by (simp add: attempt_consumed_def new_send_ledger_def)
  ultimately show ?thesis
    by (simp add: gateway_call_def ctx v(1) demo_recording demo_judged[OF v(2)] Let_def gateway_start_def)
qed


lemma demo_trace:
  "\<exists>t call ys. trace_of (run_gateway (traced demo_gateway) [demo_attempt] demo_start) = t @ Sent call # ys"
proof -
  obtain st' where c: "gateway_call (traced demo_gateway) demo_attempt demo_start = (Inr (accepted ''at1''), st')"
    using demo_call by (metis prod.collapse)
  from stop_recorded[OF c] have "\<exists>t call ys. trace_of st' = t @ Sent call # ys"
    by (auto simp: gateway_start_def)
  with c show ?thesis by simp
qed

section \<open>Witnesses\<close>

theorem sends_are_evidenced_witness:
  "\<exists>xs call. Sent call \<in> set (trace_of (run_gateway (traced demo_gateway) [demo_attempt] demo_start)) \<and>
    evidenced_send demo_gateway [demo_attempt] xs call"
proof -
  obtain t call ys where t: "trace_of (run_gateway (traced demo_gateway) [demo_attempt] demo_start) = t @ Sent call # ys"
    using demo_trace by blast
  from sends_are_evidenced[OF this] t show ?thesis by auto
qed

theorem only_the_constructed_order_is_sent_witness:
  "\<exists>call. Sent call \<in> set (trace_of (run_gateway (traced demo_gateway) [demo_attempt] demo_start)) \<and>
    sc_attempt call = demo_attempt \<and> deq (sc_quantity call) (Dec 2 0) \<and> deq (sc_price call) (Dec 1 2) \<and>
    sc_side call = ''BUY'' \<and> sc_coordinates call = coordinates_of demo_coordinates"
proof -
  obtain t call ys where t: "trace_of (run_gateway (traced demo_gateway) [demo_attempt] demo_start) = t @ Sent call # ys"
    using demo_trace by blast
  have "sc_attempt call = demo_attempt \<and> deq (sc_quantity call) (Dec 2 0) \<and> deq (sc_price call) (Dec 1 2) \<and>
    sc_side call = ''BUY'' \<and> sc_coordinates call = coordinates_of demo_coordinates"
    using only_the_constructed_order_is_sent[OF t]
  proof (elim exE conjE)
    fix pre post st c w' rs v k cmd q p x r
    assume "[demo_attempt] = pre @ sc_attempt call # post"
      and b: "bound_context demo_gateway (sc_attempt call) (snd (gs_world st)) = (Inr (Some c), w')"
      and k: "sx_construction c = Some k" "cn_command k = Some cmd" "qd_quantity (cn_derivation k) = Some q"
        "deq (sc_quantity call) q" "qd_price (cn_derivation k) = Some p" "deq (sc_price call) p"
        "command_axis_value cmd AX_SIDE = Some (sc_side call)" "sx_authorized_coordinates c = Some x"
        "sc_coordinates call = coordinates_of x"
    then have a: "sc_attempt call = demo_attempt" by (cases pre) auto
    with b have "c = demo_send_context" by (simp add: demo_context_bound)
    with k a show ?thesis
      by (auto simp: demo_send_context_def demo_construction_def demo_command_def command_axis_value_def
          axis_lookup_def demo_axis_bindings_def)
  qed
  moreover from t have "Sent call \<in> set (trace_of (run_gateway (traced demo_gateway) [demo_attempt] demo_start))"
    by simp
  ultimately show ?thesis by blast
qed

theorem every_gateway_stop_is_recorded_witness:
  "\<exists>st' t s rs. gateway_call (traced demo_gateway) demo_attempt demo_start = (Inr (accepted ''at1''), st') \<and>
    trace_of st' = t @ Sent (call_of demo_attempt s) # Recorded (result_record ''at1'' s) # map Recorded rs"
proof -
  obtain st' where c: "gateway_call (traced demo_gateway) demo_attempt demo_start = (Inr (accepted ''at1''), st')"
    using demo_call by (metis prod.collapse)
  have "at_attempt_id demo_attempt = ''at1''" by (simp add: demo_attempt_def)
  with every_gateway_stop_is_recorded[OF c] have "\<exists>t s rs. trace_of st' =
      t @ Sent (call_of demo_attempt s) # Recorded (result_record ''at1'' s) # map Recorded rs"
    by (auto simp: gateway_start_def)
  with c show ?thesis by blast
qed

end
