(* ===== verification/Engine_Gateway.thy ===== *)
theory Engine_Gateway
  imports Engine_Durable Gateway_Properties
begin

text \<open>
  The core with the gateway as its transmit, as \<^verbatim>\<open>tos_runtime/compose/_engine_wiring.py\<close> composes them
  (\<^verbatim>\<open>EngineCore(..., transmit=gateway)\<close>): the world of the core is the state of the gateway, whose own world
  the stages and the preconditions act on.  The lemmas say that over any run of the core the transport is
  called at most once for an attempt, and never but for an attempt the engine has on record, each call
  answered by a report of the engine.
\<close>

section \<open>The wiring\<close>

text \<open>What leaves the gateway alone.\<close>

definition on_world :: "('v \<Rightarrow> 'r \<times> 'v) \<Rightarrow> 'v gateway_state \<Rightarrow> 'r \<times> 'v gateway_state" where
  "on_world f st = (let (r, w) = f (gs_world st) in (r, st\<lparr>gs_world := w\<rparr>))"

definition gateway_wiring :: "'v gateway \<Rightarrow> ('v, 'c) wiring \<Rightarrow> ('v gateway_state, 'c) wiring" where
  "gateway_wiring gw wi =
    \<lparr>wi_schemes = wi_schemes wi, wi_scheme = wi_scheme wi, wi_registry = wi_registry wi,
     wi_stages = map (\<lambda>(s, stage). (s, \<lambda>rq. on_world (stage rq))) (wi_stages wi),
     wi_configuration = wi_configuration wi,
     wi_authority_epoch_current = on_world (wi_authority_epoch_current wi),
     wi_live_scope_authorized = (\<lambda>nature. on_world (wi_live_scope_authorized wi nature)),
     wi_transmit = Some (gateway_call gw), wi_transport_nature = wi_transport_nature wi,
     wi_event_dump = wi_event_dump wi, wi_handle_corporate_action = wi_handle_corporate_action wi\<rparr>"

text \<open>A wiring beside the trace of a gateway.\<close>

definition beside :: "('v \<Rightarrow> 'r \<times> 'v) \<Rightarrow> 't \<times> 'v \<Rightarrow> 'r \<times> 't \<times> 'v" where
  "beside f tw = (fst (f (snd tw)), (fst tw, snd (f (snd tw))))"

definition beside_wiring :: "('v, 'c) wiring \<Rightarrow> ('t \<times> 'v, 'c) wiring" where
  "beside_wiring wi =
    \<lparr>wi_schemes = wi_schemes wi, wi_scheme = wi_scheme wi, wi_registry = wi_registry wi,
     wi_stages = map (\<lambda>(s, stage). (s, \<lambda>rq. beside (stage rq))) (wi_stages wi),
     wi_configuration = wi_configuration wi,
     wi_authority_epoch_current = beside (wi_authority_epoch_current wi),
     wi_live_scope_authorized = (\<lambda>nature. beside (wi_live_scope_authorized wi nature)),
     wi_transmit = None, wi_transport_nature = wi_transport_nature wi,
     wi_event_dump = wi_event_dump wi, wi_handle_corporate_action = wi_handle_corporate_action wi\<rparr>"

abbreviation traced_wiring :: "'v gateway \<Rightarrow> ('v, 'c) wiring \<Rightarrow> ((trace_event list \<times> 'v) gateway_state, 'c) wiring" where
  "traced_wiring gw wi \<equiv> gateway_wiring (traced gw) (beside_wiring wi)"

section \<open>What the engine keeps of its world\<close>

definition created_ids :: "sink \<Rightarrow> pystr set" where
  "created_ids s = {i. \<exists>d \<in> set s. ee_kind d = ATTEMPT_REQUEST_CREATED \<and> ee_attempt_id d = Some i}"

lemma created_append [simp]: "created_ids (s @ t) = created_ids s \<union> created_ids t"
  by (auto simp: created_ids_def)

text \<open>The records whose append failed: the sink raised and the store does not have them.\<close>

definition lost_records :: "'w durable_core \<Rightarrow> sink" where
  "lost_records dc = map fst (filter (\<lambda>x. \<not> snd x) (dc_raised dc))"

lemma record_cases:
  assumes "record_durably d dc = (x, dc')"
  obtains (written) "dc_core dc' = core_record (dc_core dc) d" "lost_records dc' = lost_records dc"
  | (lost) "dc_core dc' = dc_core dc" "lost_records dc' = lost_records dc @ [d]" "\<exists>err. x = Inl err"
  using assms by (auto simp: record_durably_def lost_records_def Let_def split: list.splits fate.splits)

text \<open>
  A property of the engine state, and of the records it lost, that records, the ledger, the stages and the
  preconditions keep, and a transmit of an attempt on record keeps together with its report, whether the
  report is written or lost, is kept by every event, also by one that raises.
\<close>

locale send_invariant =
  fixes wi :: "('w, 'c) wiring" and P :: "'w engine_state \<Rightarrow> sink \<Rightarrow> bool"
  assumes recorded: "P en t \<Longrightarrow> P (en\<lparr>es_sink := es_sink en @ [d]\<rparr>) t"
    and lost: "P en t \<Longrightarrow> P en (t @ [d])"
    and ledgered: "P en t \<Longrightarrow> P (en\<lparr>es_ledger := l\<rparr>) t"
    and staged: "(s, stage) \<in> set (wi_stages wi) \<Longrightarrow> P en t \<Longrightarrow>
      P (en\<lparr>es_world := snd (stage rq (es_world en))\<rparr>) t"
    and current: "P en t \<Longrightarrow> P (en\<lparr>es_world := snd (wi_authority_epoch_current wi (es_world en))\<rparr>) t"
    and authorized: "P en t \<Longrightarrow> P (en\<lparr>es_world := snd (wi_live_scope_authorized wi n (es_world en))\<rparr>) t"
    and transmitted: "P en t \<Longrightarrow> wi_transmit wi = Some send \<Longrightarrow> at_attempt_id a \<in> created_ids (es_sink en) \<Longrightarrow>
      reports_send k d \<Longrightarrow>
      P (en\<lparr>es_world := snd (send a (es_world en)), es_sink := es_sink en @ [d]\<rparr>) t \<and>
      P (en\<lparr>es_world := snd (send a (es_world en))\<rparr>) (t @ [d])"
begin

definition inv :: "'w durable_core \<Rightarrow> bool" where
  "inv dc = P (dc_engine dc) (lost_records dc)"

definition going :: "attempt_request option \<Rightarrow> 'w durable_core \<Rightarrow> bool" where
  "going attempt dc =
    (inv dc \<and> (\<forall>a. attempt = Some a \<longrightarrow> at_attempt_id a \<in> created_ids (es_sink (dc_engine dc))))"

fun reached :: "walked \<Rightarrow> 'w durable_core \<Rightarrow> bool" where
  "reached (Stopped r) dc = inv dc"
| "reached (Onward vs attempt) dc = going attempt dc"

lemma going_inv: "going attempt dc \<Longrightarrow> inv dc"
  by (simp add: going_def)

lemma going_None: "going None = inv"
  by (simp add: fun_eq_iff going_def)

lemma on_core_sel [simp]: "lost_records (dc\<lparr>dc_core := co\<rparr>) = lost_records dc"
  by (simp add: lost_records_def)

lemma record_kept: "keeps inv (record_durably d)"
proof (rule keepsI)
  fix dc x dc' assume "inv dc" "record_durably d dc = (x, dc')"
  then show "inv dc'"
    by (elim record_cases) (simp_all add: inv_def core_record_def record_evidence_def recorded lost)
qed

lemma record_going: "keeps (going attempt) (record_durably d)"
proof (rule keepsI)
  fix dc x dc' assume dc: "going attempt dc" "record_durably d dc = (x, dc')"
  have "inv dc'" using keepsD[OF record_kept going_inv[OF dc(1)] dc(2)] .
  with dc(1) show "going attempt dc'"
    by - (rule record_cases[OF dc(2)]; auto simp: going_def core_record_def record_evidence_def)
qed

lemma records_kept: "keeps inv (each record_durably ds)"
  by (rule keeps_each) (rule record_kept)

lemma ledger_kept: "keeps (going attempt) (on_core (ledger_step f))"
  by (rule keepsI) (auto simp: on_core_def ledger_step_def with_ledger_def going_def inv_def ledgered split: sum.splits)

lemma stored_kept: "keeps (going attempt) (on_core (update (\<lambda>co. with_ledger co l)))"
  by (rule keepsI) (auto simp: on_core_def update_def with_ledger_def going_def inv_def ledgered)

lemma world_kept:
  assumes "\<And>en t. P en t \<Longrightarrow> P (en\<lparr>es_world := snd (f (es_world en))\<rparr>) t"
  shows "keeps (going attempt) (on_core (world_call f))"
  by (rule keepsI) (auto simp: on_core_def world_call_def with_world_def going_def inv_def split: prod.splits dest: assms)

lemma kept_then:
  assumes "keeps (going attempt) m" "\<And>z. upholds (going attempt) (k z) reached inv"
  shows "upholds (going attempt) (andthen m k) reached inv"
proof -
  have "upholds (going attempt) m (\<lambda>_. going attempt) inv"
    using assms(1) unfolding keeps_def by (rule upholds_weaken) (auto intro: going_inv)
  then show ?thesis using assms(2) by (rule upholds_andthen)
qed

lemma halt_reached: "upholds (going attempt) (halt_durably fc vs step reason) reached inv"
proof -
  have "keeps inv (stop_durably fc vs step reason)"
    unfolding stop_durably_def by (intro keeps_andthen keeps_ret record_kept)
  then have "upholds inv (halt_durably fc vs step reason) reached inv"
    unfolding halt_durably_def keeps_def by (rule upholds_andthen) (auto intro: upholds_ret)
  then show ?thesis by (rule upholds_pre) (rule going_inv)
qed

lemma onward_reached: "upholds (going attempt) (ret (Onward vs attempt)) reached inv"
  by (rule upholds_ret) simp

lemma attempt_reached: "upholds (going attempt) (attempt_durably fc vs) reached inv"
proof -
  have created: "upholds (going attempt) (record_durably (created_record fc a)) (\<lambda>_. going (Some a)) inv" for a
  proof (rule upholdsI)
    fix dc x dc' assume dc: "going attempt dc" "record_durably (created_record fc a) dc = (Inr x, dc')"
    have "inv dc'" using keepsD[OF record_kept going_inv[OF dc(1)] dc(2)] .
    with dc(1) show "going (Some a) dc'"
      by - (rule record_cases[OF dc(2)];
        auto simp: going_def core_record_def record_evidence_def created_record_def created_ids_def evidence_def)
  next
    fix dc err dc' assume dc: "going attempt dc" "record_durably (created_record fc a) dc = (Inl err, dc')"
    show "inv dc'" using keepsD[OF record_kept going_inv[OF dc(1)] dc(2)] .
  qed
  have bound: "upholds (going attempt) (andthen (record_durably (created_record fc a)) (\<lambda>_. ret (Onward us (Some a)))) reached inv" for a us
    by (rule upholds_andthen[OF created]) (rule onward_reached)
  show ?thesis
    unfolding attempt_durably_def Let_def
    by (auto intro!: halt_reached kept_then[OF ledger_kept] bound upholds_raising going_inv
        split: prod.split sum.split)
qed

lemma judge_reached: "upholds (going attempt) (judge_durably fc step v vs attempt) reached inv"
  unfolding judge_durably_def Let_def
  by (auto intro!: halt_reached onward_reached kept_then[OF record_going] kept_then[OF stored_kept] upholds_reading
      upholds_pre[OF halt_reached] upholds_pre[OF kept_then[OF stored_kept]] split: sum.split)

lemma stage_reached: "upholds (going attempt) (stage_durably fc (wi_stages wi) step vs attempt) reached inv"
proof (cases "map_of (wi_stages wi) step")
  case None
  then show ?thesis by (simp add: stage_durably_def halt_reached)
next
  case (Some stage)
  have called: "keeps (going attempt) (on_core (world_call (stage rq)))" for rq
    using staged[OF map_of_SomeD[OF Some]] by (rule world_kept)
  have "upholds (going attempt) (andthen (on_core (world_call (stage rq))) (\<lambda>r.
      case r of
        Inl err \<Rightarrow> halt_durably fc vs step STAGE_RAISED
      | Inr None \<Rightarrow> halt_durably fc vs step STAGE_VERDICT_ABSENT
      | Inr (Some v) \<Rightarrow> judge_durably fc step v vs attempt)) reached inv" for rq
    by (rule kept_then[OF called]) (auto intro: halt_reached judge_reached split: sum.split option.split)
  from upholds_pre[OF this] show ?thesis
    unfolding stage_durably_def Some option.case by (rule upholds_reading) simp
qed

lemma step_reached: "upholds (going attempt) (step_durably fc (wi_stages wi) step vs attempt) reached inv"
  unfolding step_durably_def
  by (auto intro!: onward_reached attempt_reached upholds_reading upholds_pre[OF halt_reached] upholds_pre[OF stage_reached])

lemma walk_reached: "upholds (going attempt) (walk_durably fc (wi_stages wi) steps vs attempt) reached inv"
proof (induction steps arbitrary: vs attempt)
  case (Cons step steps)
  show ?case
    unfolding walk_durably.simps
    by (rule upholds_andthen[OF step_reached])
      (auto intro: upholds_ret upholds_pre[OF Cons.IH] split: walked.split)
qed (simp add: onward_reached)

text \<open>After the call of the transmit a report is due.\<close>

definition due_report :: "'w durable_core \<Rightarrow> bool" where
  "due_report dc = (\<forall>k d. reports_send k d \<longrightarrow>
    P ((dc_engine dc)\<lparr>es_sink := es_sink (dc_engine dc) @ [d]\<rparr>) (lost_records dc) \<and>
    P (dc_engine dc) (lost_records dc @ [d]))"

lemma due_reportD:
  "due_report dc \<Longrightarrow> reports_send k d \<Longrightarrow> P ((dc_engine dc)\<lparr>es_sink := es_sink (dc_engine dc) @ [d]\<rparr>) (lost_records dc)"
  "due_report dc \<Longrightarrow> reports_send k d \<Longrightarrow> P (dc_engine dc) (lost_records dc @ [d])"
  unfolding due_report_def by blast+

lemma report_kept: "reports_send k d \<Longrightarrow> upholds due_report (record_durably d) (\<lambda>_. inv) inv"
  by (rule upholdsI; erule record_cases) (auto simp: inv_def core_record_def record_evidence_def dest: due_reportD)

lemma sent_due:
  assumes "wi_transmit wi = Some send"
  shows "upholds (going (Some a)) (on_core (world_call (send a))) (\<lambda>_. due_report) inv"
proof -
  have "due_report dc'" if "going (Some a) dc" "on_core (world_call (send a)) dc = (x, dc')" for dc x dc'
  proof -
    obtain r w where r: "send a (es_world (dc_engine dc)) = (r, w)" by force
    show ?thesis
      using that transmitted[OF _ assms, of "dc_engine dc" "lost_records dc" a]
      by (auto simp: due_report_def going_def inv_def on_core_def world_call_def with_world_def r)
  qed
  moreover have "on_core (world_call (send a)) dc \<noteq> (Inl err, dc')" for dc err dc'
    by (simp add: on_core_def world_call_def split: prod.split)
  ultimately show ?thesis by (auto intro!: upholdsI)
qed

lemma stop_kept: "keeps inv (stop_durably fc vs step reason)"
  unfolding stop_durably_def by (intro keeps_andthen keeps_ret record_kept)

lemma stop_done: "upholds (going attempt) (stop_durably fc vs step reason) (\<lambda>_. inv) inv"
  using stop_kept unfolding keeps_def by (rule upholds_pre) (rule going_inv)

lemma reported_kept: "reports_send k d \<Longrightarrow> upholds due_report (andthen (record_durably d) (\<lambda>_. ret y)) (\<lambda>_. inv) inv"
  by (rule upholds_andthen[OF report_kept]) (auto intro: upholds_ret)

lemma hand_off_kept: "upholds (going attempt) (hand_off_durably fc (wi_transmit wi) vs attempt) (\<lambda>_. inv) inv"
proof (cases attempt)
  case None
  then show ?thesis by (simp add: hand_off_durably_def stop_done)
next
  case (Some a)
  show ?thesis
  proof (cases "wi_transmit wi")
    case None
    with Some show ?thesis by (simp add: hand_off_durably_def stop_done)
  next
    case send: (Some send)
    have reports: "reports_send (fc_instrument_key fc) (halt_record fc NETWORK_CALL TRANSMIT_RAISED)"
      "reports_send (fc_instrument_key fc) (handed_off_record fc a)"
      by (simp_all add: reports_send_def halt_record_def handed_off_record_def evidence_def)
    have "upholds (going (Some a)) (on_core (ledger_step f)) (\<lambda>_. going (Some a)) inv" for f
      using ledger_kept unfolding keeps_def by (rule upholds_weaken) (auto intro: going_inv)
    then show ?thesis
      unfolding hand_off_durably_def Some send option.case
      by (rule upholds_andthen, intro upholds_andthen[OF sent_due[OF send]])
        (auto intro!: reported_kept[OF reports(2)] reported_kept[OF reports(1)] simp: stop_durably_def split: sum.split)
  qed
qed

lemma flow_kept: "keeps inv (flow_durably fc (wi_stages wi) (wi_transmit wi))"
proof (cases "validate_stage_map (wi_stages wi)")
  case (Inr u)
  have "upholds inv (walk_durably fc (wi_stages wi) SEQUENCED_STEPS [] None) reached inv"
    using walk_reached[of None] by (rule upholds_pre) (simp add: going_def)
  then show ?thesis
    unfolding flow_durably_def keeps_def Inr sum.case
    by (rule upholds_andthen) (auto intro: upholds_ret upholds_pre[OF hand_off_kept] split: walked.split)
qed (auto simp: flow_durably_def)

lemma called_kept:
  assumes "\<And>en t. P en t \<Longrightarrow> P (en\<lparr>es_world := snd (f (es_world en))\<rparr>) t"
  shows "keeps inv (on_core (world_call f))"
  using world_kept[OF assms, of None] by (simp add: going_None)

lemma entries_kept: "keeps inv (entries_durably wi payload admission event_id entries last_pipeline)"
  by (induction entries arbitrary: last_pipeline)
    (auto simp: pipeline_durably_def Let_def intro!: records_kept flow_kept split: prod.split sum.split option.split)

lemma tick_keeps: "keeps inv (tick_durably wi payload admission)"
  unfolding tick_durably_def preconditions_durably_def refused_durably_def withhold_durably_def Let_def
  by (auto intro!: record_kept entries_kept called_kept[OF current] called_kept[OF authorized]
      split: option.split dispatch.split)

lemma stored_inv: "keeps inv (on_core (update (\<lambda>co. with_ledger co l)))"
  using stored_kept[of None l] by (simp add: going_None)

lemma result_keeps: "keeps inv (result_durably wi p admission)"
  unfolding result_durably_def Let_def
  by (auto intro!: record_kept stored_inv split: sum.split prod.split option.split)

lemma event_keeps: "keeps inv (handle_durably wi event)"
proof -
  have "keeps inv (on_core (update (\<lambda>co. co\<lparr>co_last_reference := r\<rparr>)))" for r
    by (rule keepsI) (auto simp: on_core_def update_def inv_def)
  then show ?thesis
    unfolding handle_durably_def action_durably_def Let_def
    by (auto intro!: record_kept tick_keeps result_keeps split: engine_event.split)
qed

end

section \<open>The engine and the gateway\<close>

text \<open>
  A run: a core is made beside a gateway with any prior claims and any fates of the records to come; events
  are handled, returning or raising, attempts released and unsent reservations discarded, and the world
  around the gateway moves.
\<close>

definition world_moved :: "'v \<Rightarrow> ('t \<times> 'v) gateway_state core \<Rightarrow> ('t \<times> 'v) gateway_state core" where
  "world_moved v co =
    (let st = es_world (co_engine co) in with_world co (st\<lparr>gs_world := (fst (gs_world st), v)\<rparr>))"

inductive gateway_run ::
  "'v gateway \<Rightarrow> ('v, 'c) wiring \<Rightarrow> (trace_event list \<times> 'v) gateway_state durable_core \<Rightarrow> bool" for gw wi where
  gateway_made: "make_core (traced_wiring gw wi) None (gateway_start l w) = Inr co \<Longrightarrow>
    gateway_run gw wi \<lparr>dc_core = co, dc_fates = fates, dc_raised = []\<rparr>"
| gateway_handled: "gateway_run gw wi dc \<Longrightarrow> handle_durably (traced_wiring gw wi) event dc = (x, dc') \<Longrightarrow> gateway_run gw wi dc'"
| gateway_released: "gateway_run gw wi dc \<Longrightarrow> release (es_ledger (dc_engine dc)) a = Inr (l, b) \<Longrightarrow>
    gateway_run gw wi (dc\<lparr>dc_core := with_ledger (dc_core dc) l\<rparr>)"
| gateway_discarded: "gateway_run gw wi dc \<Longrightarrow> discard_unsent (es_ledger (dc_engine dc)) q = (l, b) \<Longrightarrow>
    gateway_run gw wi (dc\<lparr>dc_core := with_ledger (dc_core dc) l\<rparr>)"
| gateway_moved: "gateway_run gw wi dc \<Longrightarrow> gateway_run gw wi (dc\<lparr>dc_core := world_moved v (dc_core dc)\<rparr>)"

definition reports :: "sink \<Rightarrow> nat" where
  "reports s = length (filter (\<lambda>d. \<exists>k. reports_send k d) s)"

lemma reports_append [simp]: "reports (s @ t) = reports s + reports t"
  by (simp add: reports_def)

abbreviation broker_calls :: "(trace_event list \<times> 'v) gateway_state durable_core \<Rightarrow> pystr list" where
  "broker_calls dc \<equiv> sent_ids (es_world (dc_engine dc))"

definition answered_sends :: "(trace_event list \<times> 'v) gateway_state engine_state \<Rightarrow> sink \<Rightarrow> bool" where
  "answered_sends en t =
    (once_inv (es_world en) \<and> set (sent_ids (es_world en)) \<subseteq> created_ids (es_sink en) \<and>
     length (sent_ids (es_world en)) \<le> reports (es_sink en) + reports t)"

lemma answered_same:
  "answered_sends en t \<Longrightarrow> gs_ledger st = gs_ledger (es_world en) \<Longrightarrow> trace_of st = trace_of (es_world en) \<Longrightarrow>
    answered_sends (en\<lparr>es_world := st\<rparr>) t"
  by (simp add: answered_sends_def once_inv_def)

lemma on_beside [simp]:
  "gs_ledger (snd (on_world (beside f) st)) = gs_ledger st" "trace_of (snd (on_world (beside f) st)) = trace_of st"
  by (simp_all add: on_world_def beside_def)

interpretation composed: send_invariant "traced_wiring gw wi" answered_sends for gw wi
proof
  fix en :: "(trace_event list \<times> 'a) gateway_state engine_state" and send k d t and a :: attempt_request
  assume inv: "answered_sends en t" and "wi_transmit (traced_wiring gw wi) = Some send"
    and id: "at_attempt_id a \<in> created_ids (es_sink en)" and d: "reports_send k d"
  then have send: "send = gateway_call (traced gw)" by (simp add: gateway_wiring_def)
  obtain r st where call: "gateway_call (traced gw) a (es_world en) = (r, st)" by force
  have "once_inv st" using once_inv_call[of "es_world en" gw a] inv call by (simp add: answered_sends_def)
  moreover have "\<exists>k. reports_send k d" using d by blast
  then have "reports [d] = 1" by (simp only: reports_def) simp
  moreover have "set (sent_ids st) \<subseteq> created_ids (es_sink en) \<and>
      length (sent_ids st) \<le> Suc (length (sent_ids (es_world en)))"
    using call_sends[OF call] inv id by (auto simp: answered_sends_def call_of_def image_subset_iff)
  ultimately show "answered_sends (en\<lparr>es_world := snd (send a (es_world en)), es_sink := es_sink en @ [d]\<rparr>) t \<and>
      answered_sends (en\<lparr>es_world := snd (send a (es_world en))\<rparr>) (t @ [d])"
    using inv by (auto simp: answered_sends_def send call)
next
  fix en :: "(trace_event list \<times> 'a) gateway_state engine_state" and s stage rq t
  assume "(s, stage) \<in> set (wi_stages (traced_wiring gw wi))" "answered_sends en t"
  then show "answered_sends (en\<lparr>es_world := snd (stage rq (es_world en))\<rparr>) t"
    by (auto simp: gateway_wiring_def beside_wiring_def intro: answered_same)
next
  fix en :: "(trace_event list \<times> 'a) gateway_state engine_state" and n t
  assume inv: "answered_sends en t"
  show "answered_sends (en\<lparr>es_world := snd (wi_authority_epoch_current (traced_wiring gw wi) (es_world en))\<rparr>) t"
    "answered_sends (en\<lparr>es_world := snd (wi_live_scope_authorized (traced_wiring gw wi) n (es_world en))\<rparr>) t"
    by (simp_all add: gateway_wiring_def beside_wiring_def answered_same[OF inv])
qed (auto simp: answered_sends_def)

lemma gateway_run_answered: "gateway_run gw wi dc \<Longrightarrow> answered_sends (dc_engine dc) (lost_records dc)"
proof (induction rule: gateway_run.induct)
  case (gateway_made l w co fates)
  then have "es_sink (co_engine co) = []" "es_world (co_engine co) = gateway_start l w"
    by (auto simp: make_core_def split: sum.splits)
  then show ?case by (simp add: answered_sends_def once_inv_def gateway_start_def)
next
  case (gateway_handled dc event x dc')
  then show ?case using keepsD[OF composed.event_keeps, of dc gw wi event] by (simp add: composed.inv_def)
next
  case (gateway_moved dc v)
  then show ?case
    by (auto simp: world_moved_def with_world_def Let_def lost_records_def intro: answered_same)
qed (auto simp: answered_sends_def with_ledger_def lost_records_def)

text \<open>
  C6: the engine and the gateway together call the broker at most once per attempt: in every run of a
  core beside its gateway, whatever the events, the strategies, the stages, the contexts, the transport,
  the gateway's sink and the engine's sink do, raising or not, the calls the transport received name
  pairwise different attempts, each an attempt whose creation the evidence store has on record, and they
  are no more than the reports of a transmission in the store and those whose append failed.
\<close>

theorem broker_calls_are_answered:
  assumes "gateway_run gw wi dc"
  shows "distinct (broker_calls dc) \<and> set (broker_calls dc) \<subseteq> created_ids (es_sink (dc_engine dc)) \<and>
    length (broker_calls dc) \<le> reports (es_sink (dc_engine dc)) + reports (lost_records dc)"
  using gateway_run_answered[OF assms] by (simp add: answered_sends_def once_inv_def)


section \<open>A tick that reaches the broker\<close>

definition demo_context_for :: "attempt_request \<Rightarrow> send_boundary_context" where
  "demo_context_for a = demo_send_context\<lparr>sx_reservation_attempt_id := Some (at_attempt_id a)\<rparr>"

definition demo_live_gateway :: "nat gateway" where
  "demo_live_gateway = \<lparr>gw_contexts = CONTEXT_FACTORY (\<lambda>a w. (Inr (Some (demo_context_for a)), w)),
    gw_transport = Some (\<lambda>c w. (Inr (demo_reply c), w)), gw_sink = (\<lambda>r w. (None, w)), gw_scheme = (\<lambda>_. ''h'')\<rparr>"

definition demo_attempt_bound :: "attempt_request \<Rightarrow> bool" where
  "demo_attempt_bound a = (at_conformance_proof_digest a = ''pf'' \<and> at_action_flow_permit_identity a = ''permit'' \<and>
    \<not> blank (at_attempt_id a))"

lemma same_checks:
  assumes "d = c\<lparr>sx_reservation_attempt_id := x\<rparr>"
  shows "check_capability d = check_capability c" "check_commitment_epoch d = check_commitment_epoch c"
    "check_allowance d z = check_allowance c z" "check_venue d = check_venue c"
    "venue_generation_item_verdict d = venue_generation_item_verdict c" "check_construction d = check_construction c"
    "check_approval d = check_approval c" "check_action_flow a d = check_action_flow a c"
    "check_currentness d = check_currentness c" "check_actual_outbound d = check_actual_outbound c"
    "applicability_of d = applicability_of c" "outbound_coordinates d = outbound_coordinates c"
  by (simp_all add: assms check_capability_def check_commitment_epoch_def check_allowance_def
      mock_class_bound_to_profile_def profile_admissibility_def check_venue_def venue_generation_item_verdict_def
      check_construction_def check_approval_def check_action_flow_def check_currentness_def check_actual_outbound_def
      resolve_broker_applicability_def outbound_coordinates_def
      cong: option.case_cong if_cong)

lemma same_outbound: "outbound_bound (c\<lparr>sx_reservation_attempt_id := x\<rparr>) = outbound_bound c"
  unfolding outbound_bound_iff by simp

lemma demo_any_admitted:
  assumes "demo_attempt_bound a"
  obtains v where "verify_send_boundary a (demo_context_for a) = Inr v" "bv_admitted v = Some True"
proof -
  obtain v0 where v0: "verify_send_boundary demo_attempt demo_send_context = Inr v0" "bv_admitted v0 = Some True"
    by (rule demo_admitted)
  obtain v where v: "verify_send_boundary a (demo_context_for a) = Inr v"
    using verification_total[of a "demo_context_for a"] by blast
  have "at_action_flow_permit_identity a = at_action_flow_permit_identity demo_attempt"
    using assms by (simp add: demo_attempt_bound_def demo_attempt_def)
  then have "check_action_flow a demo_send_context = check_action_flow demo_attempt demo_send_context"
    by (simp only: check_action_flow_def)
  moreover have "admits (check_identities a (demo_context_for a))"
    unfolding identities_admit using assms by (simp add: demo_context_for_def demo_send_context_def demo_attempt_bound_def)
  ultimately have "bv_admitted v = Some True"
    using v0(2) unfolding admitted_iff[OF v] admitted_iff[OF v0(1)] all_judged_iff
    by (simp add: same_checks[OF demo_context_for_def] demo_applicability del: insert_iff)
  with v that show thesis by blast
qed

lemma demo_any_seal:
  "\<exists>s. build_send_seal (demo_context_for a) a (outbound_coordinates (demo_context_for a)) (\<lambda>_. ''h'') = Inr s \<and>
    sl_capability_nonce s = ''n1'' \<and> sl_action_flow_permit_nonce s = ''n2''" if "demo_attempt_bound a"
proof -
  have "at_attempt_id a \<noteq> []" using that by (auto simp: demo_attempt_bound_def blank_def)
  then show ?thesis
    by (simp add: build_send_seal_def gather_seal_fields_def digested_def Let_def demo_context_for_def demo_send_context_def
        demo_egress_request_def demo_coordinates_def outbound_coordinates_def coordinates_of_def send_seal_ok_def
        sealed_strings_def sealed_coordinates_def reference_coordinate_digest_def)
qed

lemma demo_live_sink:
  "recording (traced demo_live_gateway) rs st k = k (st\<lparr>gs_world := (trace_of st @ map Recorded rs, snd (gs_world st))\<rparr>)"
proof -
  have "gw_sink demo_live_gateway r w = (None, w)" for r w by (simp add: demo_live_gateway_def)
  then have "sink_records (traced demo_live_gateway) rs st =
      (None, st\<lparr>gs_world := (trace_of st @ map Recorded rs, snd (gs_world st))\<rparr>)" for st
    by (induction rs arbitrary: st) (simp_all add: traced_sink)
  then show ?thesis by (simp add: recording_def)
qed

lemma demo_live_call:
  assumes "demo_attempt_bound a"
  shows "\<exists>st. gateway_call (traced demo_live_gateway) a (gateway_start (new_send_ledger []) w) =
    (Inr (accepted (at_attempt_id a)), st)"
proof -
  obtain v where v: "verify_send_boundary a (demo_context_for a) = Inr v" "bv_admitted v = Some True"
    using assms by (rule demo_any_admitted)
  obtain s where s: "build_send_seal (demo_context_for a) a (outbound_coordinates (demo_context_for a)) (\<lambda>_. ''h'') = Inr s"
    "sl_capability_nonce s = ''n1''" "sl_action_flow_permit_nonce s = ''n2''"
    using demo_any_seal[OF assms] by blast
  have ctx: "bound_context (traced demo_live_gateway) a tw = (Inr (Some (demo_context_for a)), tw)" for tw
  proof -
    have "bound_context demo_live_gateway a w = (Inr (Some (demo_context_for a)), w)" for w
      by (simp add: bound_context_def demo_live_gateway_def)
    then show ?thesis by (cases tw) (simp add: traced_context)
  qed
  obtain l where claimed: "claim_attempt (new_send_ledger []) (at_attempt_id a) (Some ''n1'') (Some ''n2'')
      (Some (sl_claim_principal s)) (Some (sl_claim_request_digest s)) = (True, l)"
    by (simp add: claim_attempt_def new_send_ledger_def capability_and_permit_single_use_def)
  have transport: "gw_transport (traced demo_live_gateway) = Some (\<lambda>c tw. (Inr (demo_reply c), (fst tw @ [Sent c], snd tw)))"
    by (simp add: traced_transport demo_live_gateway_def)
  have sent: "\<exists>st'. send_sealed (traced demo_live_gateway) a c z s st = (Inr (accepted (at_attempt_id a)), st')" for c z st
    by (simp add: send_sealed_def demo_live_sink transport demo_reply_def consume_reply_def reply_of_def call_of_def Let_def)
  have "gw_scheme (traced demo_live_gateway) = (\<lambda>_. ''h'')" by (simp add: traced_def demo_live_gateway_def)
  moreover have "outbound_bound (demo_context_for a)" using demo_outbound by (simp add: demo_context_for_def same_outbound)
  moreover have "sx_instrument_key (demo_context_for a) = Some (''A'', ''I'')"
    by (simp add: demo_context_for_def demo_send_context_def)
  moreover have "\<not> attempt_consumed (new_send_ledger []) (at_attempt_id a)"
    by (simp add: attempt_consumed_def new_send_ledger_def)
  ultimately show ?thesis
    using sent
    by (simp add: gateway_call_def ctx v(1) demo_live_sink judge_and_send_def v(2) seal_and_claim_def s Let_def
        gateway_start_def claimed)
qed


definition demo_live_wiring :: "(nat, unit) wiring" where
  "demo_live_wiring =
    \<lparr>wi_schemes = demo_registry, wi_scheme = demo_cz, wi_registry = [(demo_key, [demo_entry])],
     wi_stages = admitting ''pf'' ''permit'', wi_configuration = demo_configuration,
     wi_authority_epoch_current = (\<lambda>w. (Some True, w)), wi_live_scope_authorized = (\<lambda>nature w. (Some True, w)),
     wi_transmit = None, wi_transport_nature = Some (Some False), wi_event_dump = (\<lambda>_. JNull),
     wi_handle_corporate_action = (\<lambda>_. \<lparr>no_disposition = ''NONTRADE_ADMISSIBLE'', no_outcome_digest = ''1''\<rparr>)\<rparr>"

abbreviation demo_engine_wiring :: "((trace_event list \<times> nat) gateway_state, unit) wiring" where
  "demo_engine_wiring \<equiv> traced_wiring demo_live_gateway demo_live_wiring"

lemma on_beside_pure [simp]: "on_world (beside (Pair r)) = Pair r"
  by (simp add: fun_eq_iff on_world_def beside_def)

lemma demo_engine_sel:
  "wi_schemes demo_engine_wiring = demo_registry" "wi_scheme demo_engine_wiring = demo_cz"
  "wi_registry demo_engine_wiring = [(demo_key, [demo_entry])]"
  "wi_stages demo_engine_wiring = admitting ''pf'' ''permit''"
  "wi_configuration demo_engine_wiring = demo_configuration"
  "wi_transmit demo_engine_wiring = Some (gateway_call (traced demo_live_gateway))"
  "wi_authority_epoch_current demo_engine_wiring st = (Some True, st)"
  "wi_live_scope_authorized demo_engine_wiring n st = (Some True, st)"
  by (simp_all add: gateway_wiring_def beside_wiring_def demo_live_wiring_def on_world_def beside_def admitting_def
      comp_def)

lemma live_walk:
  assumes "\<And>j. \<not> blank (fc_scheme fc j)" "es_ledger en = empty_projection 1"
  shows "\<exists>st a l. walk_steps fc (admitting ''pf'' ''permit'') SEQUENCED_STEPS (flow_start en) = Going st \<and>
    fs_attempt st = Some a \<and> demo_attempt_bound a \<and> es_world (fs_engine st) = es_world en \<and>
    mark_potentially_live (es_ledger (fs_engine st)) (fc_instrument_key fc) = Inr l"
proof -
  have "\<not> blank (''attempt-'' @ x)" for x by (simp add: blank_def white_space_def)
  then show ?thesis
    by (simp add: sequenced_steps admitting_lookup injected_steps admitting_verdict_def flow_step_def stage_step_def
        judge_verdict_def attempt_step_def Let_def bindings_from_def coordinator_verdict_def commit_unbound_def
        bind_attempt_def store_reservation_def mark_potentially_live_def admits_new_exposure_def outstanding_count_def
        outstanding_def released_ids_def empty_projection_def build_attempt_request_def bindings_concrete_def
        reference_coordinate_digest_def derive_id_def flow_start_def demo_attempt_bound_def assms)
qed

lemma live_flow:
  assumes "\<And>j. \<not> blank (fc_scheme fc j)" "es_ledger en = empty_projection 1"
    "\<And>a. demo_attempt_bound a \<Longrightarrow> \<exists>h st. send a (es_world en) = (Inr h, st) \<and> Q st"
  shows "\<exists>f en'. run_commitment_flow fc (admitting ''pf'' ''permit'') (Some send) en = (Inr f, en') \<and> Q (es_world en')"
proof -
  obtain st a l where st: "walk_steps fc (admitting ''pf'' ''permit'') SEQUENCED_STEPS (flow_start en) = Going st"
    "fs_attempt st = Some a" "demo_attempt_bound a" "es_world (fs_engine st) = es_world en"
    "mark_potentially_live (es_ledger (fs_engine st)) (fc_instrument_key fc) = Inr l"
    using live_walk[OF assms(1,2)] by blast
  obtain h w where "send a (es_world en) = (Inr h, w)" "Q w" using assms(3)[OF st(3)] by blast
  then show ?thesis
    by (simp add: run_commitment_flow_def admitting_valid st hand_off_def Let_def)
qed

lemma live_tick:
  "\<exists>co r co'. make_core demo_engine_wiring None (gateway_start (new_send_ledger []) 0) = Inr co \<and>
    handle demo_engine_wiring (DECISION_TICK (demo_payload 1)) co = (Inr r, co') \<and>
    sent_calls (trace_of (es_world (co_engine co'))) \<noteq> []"
proof -
  let ?p = "demo_payload 1" and ?w = "gateway_start (new_send_ledger []) 0"
  let ?i = "event_identity (wi_event_dump demo_engine_wiring) (cz_compute_digest (wi_scheme demo_engine_wiring)) (DECISION_TICK ?p)"
  obtain pr a sink where run:
    "run_decision_pipeline demo_registry demo_cz demo_configuration demo_entry ?p [] = (Inr pr, sink)"
    "pr_proposal pr = Some a" by (rule demo_run)
  have concrete: "\<not> blank (fc_scheme (flow_context_of demo_engine_wiring ?p ?i a) j)" for j
    by (cases j) (simp_all add: flow_context_of_def demo_engine_sel demo_cz_def compute_digest_def
        num_token_def str_token_def obj_token_def arr_token_def blank_def white_space_def)
  have "\<exists>h st. gateway_call (traced demo_live_gateway) t ?w = (Inr h, st) \<and> sent_calls (trace_of st) \<noteq> []"
    if bound: "demo_attempt_bound t" for t
  proof -
    obtain st where call: "gateway_call (traced demo_live_gateway) t ?w = (Inr (accepted (at_attempt_id t)), st)"
      using demo_live_call[OF bound] by blast
    from stop_recorded[OF this] have "sent_calls (trace_of st) \<noteq> []" by auto
    with call show ?thesis by blast
  qed
  then obtain f en where flow: "run_commitment_flow (flow_context_of demo_engine_wiring ?p ?i a) (admitting ''pf'' ''permit'')
      (Some (gateway_call (traced demo_live_gateway))) \<lparr>es_ledger = empty_projection 1, es_sink = sink, es_world = ?w\<rparr> = (Inr f, en)"
    "sent_calls (trace_of (es_world en)) \<noteq> []"
    using live_flow[OF concrete, of "\<lparr>es_ledger = empty_projection 1, es_sink = sink, es_world = ?w\<rparr>"
        "gateway_call (traced demo_live_gateway)" "\<lambda>st. sent_calls (trace_of st) \<noteq> []"] by auto
  have payload: "dt_instrument_key ?p = demo_key" "dt_reference ?p = demo_event 1" by (simp_all add: demo_payload_def)
  let ?co = "\<lparr>co_engine = \<lparr>es_ledger = empty_projection 1, es_sink = [], es_world = ?w\<rparr>, co_last_reference = None\<rparr>"
  have made: "make_core demo_engine_wiring None ?w = Inr ?co"
    by (simp add: make_core_def demo_engine_sel admitting_valid make_ledger_def demo_configuration_def empty_projection_def)
  have "\<exists>r co. handle demo_engine_wiring (DECISION_TICK ?p) ?co = (Inr r, co) \<and> co_engine co = en"
    using run flow(1)
    by (simp add: handle_def handle_decision_tick_def coordinator_precondition_refusal_def demo_engine_sel payload
        ordering_admission_def resolve_def with_world_def Let_def)
  with made flow(2) show ?thesis by blast
qed

theorem broker_calls_are_answered_witness:
  "\<exists>dc. gateway_run demo_live_gateway demo_live_wiring dc \<and> 0 < length (broker_calls dc) \<and>
    set (broker_calls dc) \<subseteq> created_ids (es_sink (dc_engine dc)) \<and> 0 < reports (es_sink (dc_engine dc)) \<and>
    lost_records dc = []"
proof -
  obtain co r co' where tick: "make_core demo_engine_wiring None (gateway_start (new_send_ledger []) 0) = Inr co"
    "handle demo_engine_wiring (DECISION_TICK (demo_payload 1)) co = (Inr r, co')"
    "sent_calls (trace_of (es_world (co_engine co'))) \<noteq> []"
    using live_tick by blast
  let ?dc = "\<lparr>dc_core = co, dc_fates = [], dc_raised = []\<rparr>"
  obtain dc' where dc': "handle_durably demo_engine_wiring (DECISION_TICK (demo_payload 1)) ?dc = (Inr r, dc')"
    "dc_core dc' = co'" "dc_raised dc' = []"
    using committed_events_agree[of ?dc demo_engine_wiring "DECISION_TICK (demo_payload 1)"] tick(2) by auto
  have "gateway_run demo_live_gateway demo_live_wiring dc'"
    using gateway_handled[OF gateway_made[OF tick(1)] dc'(1)] .
  with broker_calls_are_answered[OF this] tick(3) dc'(2,3) show ?thesis
    by (intro exI[of _ dc']) (auto simp: lost_records_def reports_def simp flip: length_greater_0_conv)
qed

end
