(* ===== verification/Event_Inbox.thy ===== *)
theory Event_Inbox
  imports Engine_Core
begin

text \<open>
  The durable event inbox \<^verbatim>\<open>SqliteEventInbox\<close> of \<^verbatim>\<open>tos_runtime/engine/inbox.py\<close>: the table of events
  with the receipt of their consumption and the marker of their handling, the composite state and the
  finality witness of an attempt, and the latch that halts new risk.  Each operation is what its one
  transaction does when it commits; whether it commits is decided where it is used.  The JSON an event is
  stored as is read back as that event, so a row holds the event itself.

  The lemmas: the sequence numbers grow strictly and an identity is stored once; the unconsumed events form a
  queue, first in first out, of which the driver relies on the laws of the locale \<open>durable_queue\<close>; the
  latch keeps its first cause until a clear names exactly that cause.
\<close>

section \<open>State\<close>

record 'c inbox_row =
  ir_seq :: int
  ir_event_id :: pystr
  ir_event :: "'c engine_event"
  ir_consumed :: "(int \<times> int) option"
  ir_started :: "(int \<times> int) option"

record risk_halt =
  rh_reason :: pystr
  rh_event_id :: "pystr option"
  rh_evidence_seq :: "int option"

record 'c event_inbox =
  ib_rows :: "'c inbox_row list"
  ib_composites :: "pystr \<rightharpoonup> json \<times> int"
  ib_witnesses :: "pystr \<rightharpoonup> bool option"
  ib_halt :: "risk_halt option"

record inbox_receipt =
  rc_seq :: int
  rc_event_id :: pystr
  rc_duplicate :: bool

datatype new_risk_halt_clear_outcome = CLEARED | NO_LATCH | EMPTY_ATTESTATION | SEQ_MISMATCH

definition new_inbox :: "'c event_inbox" where
  "new_inbox =
    \<lparr>ib_rows = [], ib_composites = (\<lambda>_. None), ib_witnesses = (\<lambda>_. None), ib_halt = None\<rparr>"

section \<open>Events\<close>

definition next_seq :: "'c event_inbox \<Rightarrow> int" where
  "next_seq ib = (case ib_rows ib of [] \<Rightarrow> 1 | r # rs \<Rightarrow> Max (set (map ir_seq (r # rs))) + 1)"

definition inbox_count :: "'c event_inbox \<Rightarrow> nat" where
  "inbox_count ib = length (ib_rows ib)"

definition unconsumed_rows :: "'c event_inbox \<Rightarrow> 'c inbox_row list" where
  "unconsumed_rows ib = filter (\<lambda>r. ir_consumed r = None) (ib_rows ib)"

definition unconsumed_count :: "'c event_inbox \<Rightarrow> nat" where
  "unconsumed_count ib = length (unconsumed_rows ib)"

definition enqueue ::
  "('c engine_event \<Rightarrow> json) \<Rightarrow> scheme \<Rightarrow> 'c engine_event \<Rightarrow> 'c event_inbox \<Rightarrow> inbox_receipt \<times> 'c event_inbox" where
  "enqueue dump s event ib =
    (let event_id = event_identity dump s event
     in case find (\<lambda>r. ir_event_id r = event_id) (ib_rows ib) of
          Some existing \<Rightarrow> (\<lparr>rc_seq = ir_seq existing, rc_event_id = event_id, rc_duplicate = True\<rparr>, ib)
        | None \<Rightarrow>
            (\<lparr>rc_seq = next_seq ib, rc_event_id = event_id, rc_duplicate = False\<rparr>,
             ib\<lparr>ib_rows := ib_rows ib @
               [\<lparr>ir_seq = next_seq ib, ir_event_id = event_id, ir_event = event, ir_consumed = None,
                 ir_started = None\<rparr>]\<rparr>))"

text \<open>The unconsumed row with the smallest sequence number.\<close>

definition next_unconsumed :: "'c event_inbox \<Rightarrow> (int \<times> 'c engine_event) option" where
  "next_unconsumed ib =
    (case sort_key ir_seq (unconsumed_rows ib) of [] \<Rightarrow> None | r # _ \<Rightarrow> Some (ir_seq r, ir_event r))"

definition update_row :: "int \<Rightarrow> ('c inbox_row \<Rightarrow> 'c inbox_row) \<Rightarrow> 'c event_inbox \<Rightarrow> 'c event_inbox" where
  "update_row seq f ib = ib\<lparr>ib_rows := map (\<lambda>r. if ir_seq r = seq then f r else r) (ib_rows ib)\<rparr>"

definition mark_consumed :: "int \<Rightarrow> int \<Rightarrow> int \<Rightarrow> 'c event_inbox \<Rightarrow> 'c event_inbox" where
  "mark_consumed seq evidence_seq generation =
    update_row seq (\<lambda>r. r\<lparr>ir_consumed := Some (evidence_seq, generation)\<rparr>)"

definition mark_handling_started :: "int \<Rightarrow> int \<Rightarrow> int \<Rightarrow> 'c event_inbox \<Rightarrow> 'c event_inbox" where
  "mark_handling_started seq evidence_seq generation =
    update_row seq (\<lambda>r. r\<lparr>ir_started := Some (evidence_seq, generation)\<rparr>)"

definition row_of :: "int \<Rightarrow> 'c event_inbox \<Rightarrow> 'c inbox_row option" where
  "row_of seq ib = find (\<lambda>r. ir_seq r = seq) (ib_rows ib)"

definition handling_started_receipt :: "int \<Rightarrow> 'c event_inbox \<Rightarrow> (int \<times> int) option" where
  "handling_started_receipt seq ib = Option.bind (row_of seq ib) ir_started"

definition is_consumed :: "int \<Rightarrow> 'c event_inbox \<Rightarrow> bool" where
  "is_consumed seq ib = (case row_of seq ib of None \<Rightarrow> False | Some r \<Rightarrow> ir_consumed r \<noteq> None)"

definition replay_events :: "'c event_inbox \<Rightarrow> (int \<times> 'c engine_event) list" where
  "replay_events ib = map (\<lambda>r. (ir_seq r, ir_event r)) (sort_key ir_seq (ib_rows ib))"

section \<open>Composites, witnesses and the latch\<close>

definition record_composite :: "pystr \<Rightarrow> json \<Rightarrow> int \<Rightarrow> 'c event_inbox \<Rightarrow> 'c event_inbox" where
  "record_composite attempt_id composite revision ib =
    ib\<lparr>ib_composites := (ib_composites ib)(attempt_id \<mapsto> (composite, revision))\<rparr>"

definition last_composite :: "pystr \<Rightarrow> 'c event_inbox \<Rightarrow> (json \<times> int) option" where
  "last_composite attempt_id ib = ib_composites ib attempt_id"

definition record_finality_witness :: "pystr \<Rightarrow> bool option \<Rightarrow> 'c event_inbox \<Rightarrow> 'c event_inbox" where
  "record_finality_witness attempt_id witness ib =
    ib\<lparr>ib_witnesses := (ib_witnesses ib)(attempt_id \<mapsto> witness)\<rparr>"

definition inbox_finality_witness :: "pystr \<Rightarrow> 'c event_inbox \<Rightarrow> bool option" where
  "inbox_finality_witness attempt_id ib = (case ib_witnesses ib attempt_id of None \<Rightarrow> None | Some w \<Rightarrow> w)"

definition record_new_risk_halt :: "pystr \<Rightarrow> pystr option \<Rightarrow> int option \<Rightarrow> 'c event_inbox \<Rightarrow> 'c event_inbox" where
  "record_new_risk_halt reason event_id evidence_seq ib =
    (case ib_halt ib of
       Some _ \<Rightarrow> ib
     | None \<Rightarrow> ib\<lparr>ib_halt :=
         Some \<lparr>rh_reason = reason, rh_event_id = event_id, rh_evidence_seq = evidence_seq\<rparr>\<rparr>)"

definition clear_new_risk_halt ::
  "int \<Rightarrow> pystr \<Rightarrow> 'c event_inbox \<Rightarrow> new_risk_halt_clear_outcome \<times> 'c event_inbox" where
  "clear_new_risk_halt latched_evidence_seq attestation ib =
    (if blank attestation then (EMPTY_ATTESTATION, ib)
     else (case ib_halt ib of
         None \<Rightarrow> (NO_LATCH, ib)
       | Some h \<Rightarrow>
           if rh_evidence_seq h \<noteq> Some latched_evidence_seq then (SEQ_MISMATCH, ib)
           else (CLEARED, ib\<lparr>ib_halt := None\<rparr>)))"

definition new_risk_halt :: "'c event_inbox \<Rightarrow> risk_halt option" where
  "new_risk_halt ib = ib_halt ib"


section \<open>Well-formed inboxes\<close>

definition inbox_ok :: "('c engine_event \<Rightarrow> pystr) \<Rightarrow> 'c event_inbox \<Rightarrow> bool" where
  "inbox_ok idf ib =
    (sorted_wrt (<) (map ir_seq (ib_rows ib)) \<and> distinct (map ir_event_id (ib_rows ib)) \<and>
     (\<forall>r \<in> set (ib_rows ib). 1 \<le> ir_seq r \<and> ir_event_id r = idf (ir_event r)))"

lemma new_inbox_ok [simp]: "inbox_ok idf new_inbox"
  by (simp add: inbox_ok_def new_inbox_def)

lemma next_seq_fresh: "r \<in> set (ib_rows ib) \<Longrightarrow> ir_seq r < next_seq ib"
proof -
  assume r: "r \<in> set (ib_rows ib)"
  then have "ir_seq r \<le> Max (set (map ir_seq (ib_rows ib)))" by (intro Max_ge) auto
  with r show ?thesis by (cases "ib_rows ib") (simp_all add: next_seq_def)
qed

lemma next_seq_positive: "inbox_ok idf ib \<Longrightarrow> 1 \<le> next_seq ib"
proof (cases "ib_rows ib")
  case (Cons r rs)
  assume "inbox_ok idf ib"
  with Cons have "1 \<le> ir_seq r" by (simp add: inbox_ok_def)
  also have "ir_seq r < next_seq ib" by (rule next_seq_fresh) (simp add: Cons)
  finally show ?thesis by simp
qed (simp add: next_seq_def)

lemma seqs_distinct: "inbox_ok idf ib \<Longrightarrow> distinct (map ir_seq (ib_rows ib))"
  by (simp add: inbox_ok_def strict_sorted_iff)

lemma rows_at:
  assumes "inbox_ok idf ib" "ib_rows ib = pre @ r # post"
  shows "x \<in> set pre \<Longrightarrow> ir_seq x < ir_seq r" "x \<in> set post \<Longrightarrow> ir_seq r < ir_seq x"
  using assms by (auto simp: inbox_ok_def sorted_wrt_append)

lemma row_of_member: "inbox_ok idf ib \<Longrightarrow> r \<in> set (ib_rows ib) \<Longrightarrow> row_of (ir_seq r) ib = Some r"
  unfolding row_of_def
  by (rule find_unique) (auto dest!: seqs_distinct simp: distinct_map inj_on_def)

lemma update_row_at:
  assumes "inbox_ok idf ib" "ib_rows ib = pre @ r # post"
  shows "update_row (ir_seq r) f ib = ib\<lparr>ib_rows := pre @ f r # post\<rparr>"
proof -
  have "map (\<lambda>x. if ir_seq x = ir_seq r then f x else x) pre = pre"
    "map (\<lambda>x. if ir_seq x = ir_seq r then f x else x) post = post"
    using rows_at[OF assms] by (fastforce intro: map_idI)+
  then show ?thesis by (simp add: update_row_def assms(2))
qed

lemma update_row_ok:
  assumes "inbox_ok idf ib"
    "\<And>r. ir_seq (f r) = ir_seq r \<and> ir_event_id (f r) = ir_event_id r \<and> ir_event (f r) = ir_event r"
  shows "inbox_ok idf (update_row q f ib)"
proof -
  have "map ir_seq (ib_rows (update_row q f ib)) = map ir_seq (ib_rows ib)"
    "map ir_event_id (ib_rows (update_row q f ib)) = map ir_event_id (ib_rows ib)"
    by (simp_all add: update_row_def assms(2))
  moreover have "\<forall>r \<in> set (ib_rows (update_row q f ib)). 1 \<le> ir_seq r \<and> ir_event_id r = idf (ir_event r)"
    using assms by (auto simp: inbox_ok_def update_row_def)
  ultimately show ?thesis using assms(1) by (simp only: inbox_ok_def)
qed

lemma marks_ok [simp]:
  "inbox_ok idf ib \<Longrightarrow> inbox_ok idf (mark_consumed q e g ib)"
  "inbox_ok idf ib \<Longrightarrow> inbox_ok idf (mark_handling_started q e g ib)"
  by (simp_all add: mark_consumed_def mark_handling_started_def update_row_ok)

lemma enqueue_cases:
  obtains (duplicate) r where "r \<in> set (ib_rows ib)" "ir_event_id r = event_identity dump s event"
      "enqueue dump s event ib =
        (\<lparr>rc_seq = ir_seq r, rc_event_id = event_identity dump s event, rc_duplicate = True\<rparr>, ib)"
  | (fresh) "event_identity dump s event \<notin> set (map ir_event_id (ib_rows ib))"
      "enqueue dump s event ib =
        (\<lparr>rc_seq = next_seq ib, rc_event_id = event_identity dump s event, rc_duplicate = False\<rparr>,
         ib\<lparr>ib_rows := ib_rows ib @
           [\<lparr>ir_seq = next_seq ib, ir_event_id = event_identity dump s event, ir_event = event,
             ir_consumed = None, ir_started = None\<rparr>]\<rparr>)"
proof (cases "find (\<lambda>r. ir_event_id r = event_identity dump s event) (ib_rows ib)")
  case None
  then show ?thesis
    using fresh by (fastforce simp: enqueue_def Let_def dest: find_None_D)
next
  case (Some r)
  then show ?thesis using duplicate[of r] by (auto simp: enqueue_def Let_def dest: find_Some_D)
qed

lemma enqueue_ok: "inbox_ok (event_identity dump s) ib \<Longrightarrow> inbox_ok (event_identity dump s) (snd (enqueue dump s event ib))"
proof (cases rule: enqueue_cases[of ib dump s event])
  case fresh
  assume ok: "inbox_ok (event_identity dump s) ib"
  with fresh next_seq_positive[OF ok] show ?thesis
    by (auto simp: inbox_ok_def sorted_wrt_append dest: next_seq_fresh)
qed simp

text \<open>The row that is pulled is the first one without a receipt.\<close>

lemma unconsumed_sorted: "inbox_ok idf ib \<Longrightarrow> sort_key ir_seq (unconsumed_rows ib) = unconsumed_rows ib"
proof (rule sort_key_id_if_sorted)
  assume "inbox_ok idf ib"
  then have "sorted_wrt (\<lambda>x y. ir_seq x < ir_seq y) (ib_rows ib)" by (simp add: inbox_ok_def sorted_wrt_map)
  then show "sorted (map ir_seq (unconsumed_rows ib))"
    unfolding unconsumed_rows_def sorted_wrt_map
    by (intro sorted_wrt_filter) (auto elim: sorted_wrt_mono_rel[rotated])
qed

lemma next_unconsumed_row:
  assumes "inbox_ok idf ib" "next_unconsumed ib = Some (q, event)"
  obtains pre r post where "ib_rows ib = pre @ r # post" "\<forall>x \<in> set pre. ir_consumed x \<noteq> None"
    "ir_consumed r = None" "ir_seq r = q" "ir_event r = event" "ir_event_id r = idf event"
proof -
  obtain r rs where rs: "unconsumed_rows ib = r # rs" "ir_seq r = q" "ir_event r = event"
    using assms by (auto simp: next_unconsumed_def unconsumed_sorted split: list.splits)
  then obtain pre post where "ib_rows ib = pre @ r # post" "\<forall>x \<in> set pre. ir_consumed x \<noteq> None" "ir_consumed r = None"
    unfolding unconsumed_rows_def filter_eq_Cons_iff by blast
  moreover from this have "ir_event_id r = idf event" using assms(1) rs(3) by (auto simp: inbox_ok_def)
  ultimately show thesis using that rs by blast
qed

lemma next_unconsumed_None:
  "inbox_ok idf ib \<Longrightarrow> next_unconsumed ib = None \<longleftrightarrow> (\<forall>r \<in> set (ib_rows ib). ir_consumed r \<noteq> None)"
proof -
  assume "inbox_ok idf ib"
  then have "next_unconsumed ib = None \<longleftrightarrow> unconsumed_rows ib = []"
    by (simp add: next_unconsumed_def unconsumed_sorted split: list.split)
  then show ?thesis by (simp only: unconsumed_rows_def filter_empty_conv)
qed


text \<open>A mark of the pulled row leaves fewer without a receipt, with or without well-formedness.\<close>

lemma pulled_member:
  "next_unconsumed ib = Some (q, event) \<Longrightarrow>
    \<exists>r \<in> set (ib_rows ib). ir_seq r = q \<and> ir_event r = event \<and> ir_consumed r = None"
proof -
  assume "next_unconsumed ib = Some (q, event)"
  then obtain r rs where r: "sort_key ir_seq (unconsumed_rows ib) = r # rs" "ir_seq r = q" "ir_event r = event"
    by (auto simp: next_unconsumed_def split: list.splits)
  have "r \<in> set (sort_key ir_seq (unconsumed_rows ib))" by (simp add: r(1))
  then show ?thesis using r by (auto simp: unconsumed_rows_def)
qed

lemma marked_rows:
  "filter (\<lambda>r. ir_consumed r = None) (ib_rows (mark_consumed q e g ib)) =
    filter (\<lambda>r. ir_consumed r = None \<and> ir_seq r \<noteq> q) (ib_rows ib)"
proof -
  have "filter (\<lambda>r. ir_consumed r = None) (map (\<lambda>r. if ir_seq r = q then r\<lparr>ir_consumed := Some (e, g)\<rparr> else r) rs) =
      filter (\<lambda>r. ir_consumed r = None \<and> ir_seq r \<noteq> q) rs" for rs :: "'a inbox_row list"
    by (induction rs) auto
  then show ?thesis by (simp add: mark_consumed_def update_row_def)
qed

section \<open>The queue of events\<close>

text \<open>Serving a queue, with events arriving before each service.\<close>

fun serve ::
  "('e \<Rightarrow> 's \<Rightarrow> 's) \<Rightarrow> ('s \<Rightarrow> (int \<times> 'e) option) \<Rightarrow> (int \<Rightarrow> 's \<Rightarrow> 's) \<Rightarrow> 'e list list \<Rightarrow> 's \<Rightarrow> (int \<times> 'e) list \<times> 's" where
  "serve put front finish [] s = ([], s)"
| "serve put front finish (es # ess) s =
    (let s1 = fold put es s
     in case front s1 of
          None \<Rightarrow> serve put front finish ess s1
        | Some (q, e) \<Rightarrow> (let (xs, s2) = serve put front finish ess (finish q s1) in ((q, e) # xs, s2)))"

text \<open>
  The ideal queue: a list of events, to which the arrivals whose identity is new are appended, and from
  whose front each service takes one.
\<close>

fun news :: "('e \<Rightarrow> 'i) \<Rightarrow> 'i set \<Rightarrow> 'e list \<Rightarrow> 'e list" where
  "news ident K [] = []"
| "news ident K (e # es) = (if ident e \<in> K then news ident K es else e # news ident (insert (ident e) K) es)"

fun ideal_queue :: "('e \<Rightarrow> 'i) \<Rightarrow> 'i set \<Rightarrow> 'e list \<Rightarrow> 'e list list \<Rightarrow> 'e list \<times> 'e list" where
  "ideal_queue ident K queue [] = ([], queue)"
| "ideal_queue ident K queue (es # ess) =
    (case queue @ news ident K es of
       [] \<Rightarrow> ideal_queue ident (K \<union> ident ` set es) [] ess
     | e # queue' \<Rightarrow> map_prod (Cons e) id (ideal_queue ident (K \<union> ident ` set es) queue' ess))"

lemma news_append: "news ident K (es @ fs) = news ident K es @ news ident (K \<union> ident ` set es) fs"
  by (induction es arbitrary: K) (auto simp: insert_absorb)

text \<open>What the driver relies on: a queue of numbered events, served from its front.\<close>

locale durable_queue =
  fixes valid :: "'s \<Rightarrow> bool"
    and pending :: "'s \<Rightarrow> (int \<times> 'e) list"
    and ident :: "'e \<Rightarrow> 'i"
    and known :: "'s \<Rightarrow> 'i set"
    and put :: "'e \<Rightarrow> 's \<Rightarrow> 's"
    and front :: "'s \<Rightarrow> (int \<times> 'e) option"
    and finish :: "int \<Rightarrow> 's \<Rightarrow> 's"
  assumes front_pending: "valid s \<Longrightarrow> front s = (case pending s of [] \<Rightarrow> None | x # _ \<Rightarrow> Some x)"
    and finish_pending: "valid s \<Longrightarrow> front s = Some (q, e) \<Longrightarrow>
      valid (finish q s) \<and> pending (finish q s) = tl (pending s) \<and> known (finish q s) = known s"
    and put_valid: "valid s \<Longrightarrow> valid (put e s) \<and> known (put e s) = insert (ident e) (known s)"
    and put_pending: "valid s \<Longrightarrow> if ident e \<in> known s then pending (put e s) = pending s
      else \<exists>q. pending (put e s) = pending s @ [(q, e)]"
begin

lemma put_all:
  "valid s \<Longrightarrow> valid (fold put es s) \<and> known (fold put es s) = known s \<union> ident ` set es \<and>
    (\<exists>added. pending (fold put es s) = pending s @ added \<and> map snd added = news ident (known s) es)"
proof (induction es arbitrary: s)
  case (Cons e es)
  have put: "valid (put e s)" "known (put e s) = insert (ident e) (known s)" using put_valid[OF Cons.prems] by blast+
  obtain added where added: "pending (put e s) = pending s @ added"
    "map snd added = (if ident e \<in> known s then [] else [e])"
    using put_pending[OF Cons.prems, of e] by (cases "ident e \<in> known s") fastforce+
  obtain added2 where "valid (fold put es (put e s))" "known (fold put es (put e s)) = known (put e s) \<union> ident ` set es"
    "pending (fold put es (put e s)) = pending (put e s) @ added2" "map snd added2 = news ident (known (put e s)) es"
    using Cons.IH[OF put(1)] by blast
  with added put(2) show ?case by (intro conjI exI[of _ "added @ added2"]) (auto simp: insert_absorb)
qed simp

lemma served_in_order:
  assumes "valid s" "serve put front finish ess s = (xs, s')"
  shows "valid s' \<and> known s' = known s \<union> ident ` set (concat ess) \<and>
    (map snd xs, map snd (pending s')) = ideal_queue ident (known s) (map snd (pending s)) ess \<and>
    (\<exists>added. pending s @ added = xs @ pending s' \<and> map snd added = news ident (known s) (concat ess))"
  using assms
proof (induction ess arbitrary: s xs)
  case (Cons es ess)
  let ?s = "fold put es s"
  obtain added where s1: "valid ?s" "known ?s = known s \<union> ident ` set es" "pending ?s = pending s @ added"
    "map snd added = news ident (known s) es"
    using put_all[OF Cons.prems(1)] by blast
  have queue: "map snd (pending ?s) = map snd (pending s) @ news ident (known s) es" using s1(3,4) by simp
  have join: "\<exists>added. pending s @ added = xs @ pending s' \<and> map snd added = news ident (known s) (concat (es # ess))"
    if "pending ?s @ added2 = xs @ pending s'" "map snd added2 = news ident (known ?s) (concat ess)" for added2
    using that s1 by (intro exI[of _ "added @ added2"]) (simp add: news_append)
  show ?case
  proof (cases "front ?s")
    case None
    then have run: "serve put front finish ess ?s = (xs, s')" using Cons.prems(2) by (simp add: Let_def)
    have "pending ?s = []" using front_pending[OF s1(1)] None by (simp split: list.splits)
    with queue Cons.IH[OF s1(1) run] join s1(2) show ?thesis by (auto simp: Un_assoc image_Un)
  next
    case (Some x)
    obtain q e where x: "x = (q, e)" by fastforce
    obtain ys where ys: "serve put front finish ess (finish q ?s) = (ys, s')" "xs = (q, e) # ys"
      using Cons.prems(2) Some x by (auto simp: Let_def split: prod.splits)
    obtain rest where rest: "pending ?s = (q, e) # rest"
      using front_pending[OF s1(1)] Some x by (auto split: list.splits)
    have f: "valid (finish q ?s)" "pending (finish q ?s) = rest" "known (finish q ?s) = known ?s"
      using finish_pending[OF s1(1), of q e] Some x rest by auto
    note IH = Cons.IH[OF f(1) ys(1), unfolded f(2,3)]
    then obtain added2 where a: "rest @ added2 = ys @ pending s'" "map snd added2 = news ident (known ?s) (concat ess)" by blast
    have "map snd (pending s) @ news ident (known s) es = e # map snd rest" using queue rest by simp
    moreover have "ideal_queue ident (known ?s) (map snd rest) ess = (map snd ys, map snd (pending s'))" using IH by simp
    ultimately have "(map snd xs, map snd (pending s')) = ideal_queue ident (known s) (map snd (pending s)) (es # ess)"
      by (simp add: ys(2) s1(2))
    with IH join[of added2] a rest ys(2) s1(2) show ?thesis by (auto simp: Un_assoc image_Un)
  qed
qed simp

end

definition pending_events :: "'c event_inbox \<Rightarrow> (int \<times> 'c engine_event) list" where
  "pending_events ib = map (\<lambda>r. (ir_seq r, ir_event r)) (unconsumed_rows ib)"

lemma pending_finish:
  assumes "inbox_ok idf ib" "next_unconsumed ib = Some (q, event)"
  shows "pending_events (mark_consumed q e g ib) = tl (pending_events ib)"
proof -
  obtain pre r post where r: "ib_rows ib = pre @ r # post" "\<forall>x \<in> set pre. ir_consumed x \<noteq> None"
    "ir_consumed r = None" "ir_seq r = q"
    using next_unconsumed_row[OF assms] by metis
  have "filter (\<lambda>r. ir_consumed r = None) pre = []" using r(2) by (simp add: filter_empty_conv)
  with r(3) show ?thesis
    by (simp add: pending_events_def unconsumed_rows_def mark_consumed_def update_row_at[OF assms(1) r(1), unfolded r(4)] r(1))
qed

definition known_ids :: "'c event_inbox \<Rightarrow> pystr set" where
  "known_ids ib = set (map ir_event_id (ib_rows ib))"

interpretation inbox: durable_queue "inbox_ok (event_identity dump s)" pending_events "event_identity dump s"
  known_ids "\<lambda>event ib. snd (enqueue dump s event ib)" next_unconsumed "\<lambda>q. mark_consumed q e g" for dump s e g
proof
  fix ib :: "'a event_inbox" and q and event event'
  assume ok: "inbox_ok (event_identity dump s) ib"
  show "next_unconsumed ib = (case pending_events ib of [] \<Rightarrow> None | x # _ \<Rightarrow> Some x)"
    by (simp add: next_unconsumed_def unconsumed_sorted[OF ok] pending_events_def split: list.split)
  have "map ir_event_id (ib_rows (mark_consumed q e g ib)) = map ir_event_id (ib_rows ib)"
    by (simp add: mark_consumed_def update_row_def)
  then show "inbox_ok (event_identity dump s) (mark_consumed q e g ib) \<and>
      pending_events (mark_consumed q e g ib) = tl (pending_events ib) \<and>
      known_ids (mark_consumed q e g ib) = known_ids ib"
    if "next_unconsumed ib = Some (q, event')"
    using pending_finish[OF ok that] ok by (simp add: known_ids_def)
  show "inbox_ok (event_identity dump s) (snd (enqueue dump s event ib)) \<and>
      known_ids (snd (enqueue dump s event ib)) = insert (event_identity dump s event) (known_ids ib)"
    using enqueue_ok[OF ok, of event]
    by (cases rule: enqueue_cases[of ib dump s event]) (auto simp: known_ids_def intro: rev_image_eqI)
  show "if event_identity dump s event \<in> known_ids ib
      then pending_events (snd (enqueue dump s event ib)) = pending_events ib
      else \<exists>q. pending_events (snd (enqueue dump s event ib)) = pending_events ib @ [(q, event)]"
    by (cases rule: enqueue_cases[of ib dump s event])
      (auto simp: pending_events_def unconsumed_rows_def known_ids_def intro: rev_image_eqI)
qed

text \<open>
  C37: the inbox is a first-in first-out queue without repetition: whatever events arrive before each service,
  the services take exactly the events, in exactly the order, that they take from the ideal queue (a list to
  which every arrival with a new identity is appended, the front of which each service takes while there is
  one), and what then waits in the inbox is what waits in that list.  So no arrival is lost: those that were
  pending and, in the order of their arrival, all those with a new identity are the ones served followed by
  the ones still pending, with the numbers they were admitted under; an event whose identity is stored is not
  queued again; and the stored identities are the earlier ones and those of all the arrivals.
\<close>

theorem inbox_refines_queue:
  assumes "inbox_ok (event_identity dump s) ib"
    "serve (\<lambda>event ib. snd (enqueue dump s event ib)) next_unconsumed (\<lambda>q. mark_consumed q e g)
      arrivals ib = (served, ib')"
  shows "inbox_ok (event_identity dump s) ib' \<and>
    known_ids ib' = known_ids ib \<union> event_identity dump s ` set (concat arrivals) \<and>
    (map snd served, map snd (pending_events ib')) =
      ideal_queue (event_identity dump s) (known_ids ib) (map snd (pending_events ib)) arrivals \<and>
    (\<exists>added. pending_events ib @ added = served @ pending_events ib' \<and>
      map snd added = news (event_identity dump s) (known_ids ib) (concat arrivals))"
  using assms by (rule inbox.served_in_order)

text \<open>Three arrivals of two events, served twice.\<close>

definition demo_arrival_dump :: "unit engine_event \<Rightarrow> json" where
  "demo_arrival_dump event =
    (case oe_quorum_commit_index (event_reference event) of None \<Rightarrow> JNull | Some n \<Rightarrow> JNum (Dec n 0))"

definition demo_arrival_scheme :: scheme where
  "demo_arrival_scheme j = (if j = JNum (Dec 1 0) then ''a'' else ''b'')"

lemma inbox_refines_queue_witness:
  "\<exists>served ib'. serve (\<lambda>event ib. snd (enqueue demo_arrival_dump demo_arrival_scheme event ib)) next_unconsumed
      (\<lambda>q. mark_consumed q 0 1) [[demo_action_event 1, demo_action_event 2], [demo_action_event 1]] new_inbox = (served, ib') \<and>
    served = [(1, demo_action_event 1), (2, demo_action_event 2)] \<and>
    inbox_ok (event_identity demo_arrival_dump demo_arrival_scheme) ib'"
proof -
  have ids: "event_identity demo_arrival_dump demo_arrival_scheme (demo_action_event 1) \<noteq>
      event_identity demo_arrival_dump demo_arrival_scheme (demo_action_event 2)"
    by (simp add: event_identity_def derive_id_def demo_arrival_dump_def demo_arrival_scheme_def demo_action_event_def
        demo_event_def)
  obtain ib' where run: "serve (\<lambda>event ib. snd (enqueue demo_arrival_dump demo_arrival_scheme event ib)) next_unconsumed
      (\<lambda>q. mark_consumed q 0 1) [[demo_action_event 1, demo_action_event 2], [demo_action_event 1]] new_inbox =
      ([(1, demo_action_event 1), (2, demo_action_event 2)], ib')"
    using ids ids[symmetric]
    by (simp add: enqueue_def Let_def new_inbox_def next_seq_def next_unconsumed_def unconsumed_rows_def
        mark_consumed_def update_row_def)
  show ?thesis
    using inbox_refines_queue[OF new_inbox_ok run] run by blast
qed

section \<open>The latch\<close>

definition halt_steps :: "(pystr \<times> pystr option \<times> int option) list \<Rightarrow> 'c event_inbox \<Rightarrow> 'c event_inbox" where
  "halt_steps = fold (\<lambda>(reason, event_id, evidence_seq). record_new_risk_halt reason event_id evidence_seq)"

lemma halt_steps_keep: "ib_halt ib = Some h \<Longrightarrow> halt_steps hs ib = ib"
  unfolding halt_steps_def by (induction hs) (auto simp: record_new_risk_halt_def)

text \<open>
  The latch holds the first cause, however many follow, and is cleared exactly by an attestation that is not
  blank and names the evidence of that cause.
\<close>

lemma latch_holds_first_cause:
  assumes "ib_halt ib = None"
    "ib' = halt_steps ((reason, event_id, evidence_seq) # hs) ib"
  shows "new_risk_halt ib' = Some \<lparr>rh_reason = reason, rh_event_id = event_id, rh_evidence_seq = evidence_seq\<rparr>"
    "fst (clear_new_risk_halt q attestation ib') = CLEARED \<longleftrightarrow> \<not> blank attestation \<and> evidence_seq = Some q"
    "new_risk_halt (snd (clear_new_risk_halt q attestation ib')) =
      (if \<not> blank attestation \<and> evidence_seq = Some q then None else new_risk_halt ib')"
proof -
  have "ib' = record_new_risk_halt reason event_id evidence_seq ib"
    using assms halt_steps_keep[of "record_new_risk_halt reason event_id evidence_seq ib" _ hs]
    by (simp add: halt_steps_def record_new_risk_halt_def)
  with assms(1) show "new_risk_halt ib' = Some \<lparr>rh_reason = reason, rh_event_id = event_id, rh_evidence_seq = evidence_seq\<rparr>"
    "fst (clear_new_risk_halt q attestation ib') = CLEARED \<longleftrightarrow> \<not> blank attestation \<and> evidence_seq = Some q"
    "new_risk_halt (snd (clear_new_risk_halt q attestation ib')) =
      (if \<not> blank attestation \<and> evidence_seq = Some q then None else new_risk_halt ib')"
    by (simp_all add: record_new_risk_halt_def new_risk_halt_def clear_new_risk_halt_def)
qed

text \<open>A cause latched without an evidence number is never cleared.\<close>

lemma halt_without_evidence_stays:
  "ib_halt ib = None \<Longrightarrow>
    fst (clear_new_risk_halt q attestation (record_new_risk_halt reason event_id None ib)) \<noteq> CLEARED"
  by (simp add: record_new_risk_halt_def clear_new_risk_halt_def)

end
