(* ===== verification/Spec2Isabelle.thy ===== *)
theory Spec2Isabelle
  imports Rcl_Guards Canonical Reservation_Identity Evidence_Chain Position Time_Service Engine_Core
    Order_Construction Engine_Gateway Event_Inbox
begin

text \<open>
  A verification development for the trading operating system of this repository: the kernel
  \<^verbatim>\<open>src/tos/src/tos/\<close> (abbreviated \<^verbatim>\<open>tos/\<close> below) and the part of its runtime
  \<^verbatim>\<open>src/tos/runtime/src/tos_runtime/\<close> (\<^verbatim>\<open>tos_runtime/\<close>) that keeps durable state.

  \<^bold>\<open>The program.\<close>  A market event enters the engine core, which checks its preconditions, finds the
  one strategy registered for the instrument, runs the decision pipeline and, when a proposal to act
  comes out, the commitment flow: capacity is reserved, an attempt is bound, the reservation is
  marked as possibly sent, and only then a transmit is asked for.  The transmit is the broker egress
  gateway: it judges seventeen items about the attempt, seals what is to be sent, consumes the attempt
  and calls the transport once.  A result of the outside world is an event as well and moves the
  reservation.  Four rules run through all parts: what is unknown is
  treated as the worst case; nothing is retried once it may have been sent; every refusal leaves
  evidence; every artifact is bound to the digest of its content.

  \<^bold>\<open>Theories and code.\<close>  Each theory models the files in parentheses, in the order the code has them;
  each opens with a text that says how its state corresponds to the code.

  \<^item> \<^verbatim>\<open>Tos_Prelude\<close>: strings, raising operations (\<open>result\<close>), dicts; the shared lemmas.
  \<^item> \<^verbatim>\<open>Py_Decimal\<close> (the part of Python's \<^verbatim>\<open>decimal\<close> that is used): finite decimals, rounding to 28 digits.
  \<^item> \<^verbatim>\<open>Canonical\<close> (\<^verbatim>\<open>tos/canonical/\<close>): canonical encoding of values as token strings, digest-bound
    artifacts.  The encoding is injective up to the normalisation of decimals, so one digest for two
    contents is a collision of the digest function.
  \<^item> \<^verbatim>\<open>Ordering\<close> (\<^verbatim>\<open>tos/ordering/\<close>, \<^verbatim>\<open>tos/canonical/record_pair.py\<close>): classification of record pairs, causal order.
  \<^item> \<^verbatim>\<open>Rcl_Vector\<close>, \<^verbatim>\<open>Rcl_Ledger\<close>, \<^verbatim>\<open>Rcl_Guards\<close> (\<^verbatim>\<open>tos/rcl/\<close>): capacity vectors, the deterministic
    reducer of the capacity ledger, the guards around it.  The reducer never spends a unit of
    capacity twice, decides a command once, and admits exactly when the headroom suffices.
  \<^item> \<^verbatim>\<open>Commit_Log\<close> (\<^verbatim>\<open>tos/rcl/commitlog.py\<close>): the port of the Safety Commit Log as two locales.
  \<^item> \<^verbatim>\<open>Sqlite_Log\<close>, \<^verbatim>\<open>Sqlite_Invariants\<close>, \<^verbatim>\<open>Sqlite_Properties\<close> (\<^verbatim>\<open>tos_runtime/rcl/log.py\<close>,
    \<^verbatim>\<open>gates.py\<close>, \<^verbatim>\<open>schema.py\<close>, \<^verbatim>\<open>projection.py\<close>): the log on SQLite, every operation one
    transaction under faults; its invariant; it interprets the port.
  \<^item> \<^verbatim>\<open>Reservation_Identity\<close> (\<^verbatim>\<open>tos_runtime/rcl/reservation_identity.py\<close>, \<^verbatim>\<open>reservation_lookup.py\<close>,
    \<^verbatim>\<open>finality_witness.py\<close>): the name of an attempt's reservation and the way back.
  \<^item> \<^verbatim>\<open>Evidence_Chain\<close> (\<^verbatim>\<open>tos/evidence/\<close>): hash chains over evidence segments, keyed and not, across key
    rotations; the commitment scheme is a locale with both schemes as interpretations.
  \<^item> \<^verbatim>\<open>Position\<close> (\<^verbatim>\<open>tos/position/\<close>): the conservative union of position observations.
  \<^item> \<^verbatim>\<open>Trusted_Time\<close> (\<^verbatim>\<open>tos/time/\<close>) and \<^verbatim>\<open>Time_Service\<close> (\<^verbatim>\<open>tos_runtime/time/\<close>): the predicates on
    trusted time and the state machine of the time service.
  \<^item> \<^verbatim>\<open>Strategy_Dsl\<close>, \<^verbatim>\<open>Strategy_Outcome\<close>, \<^verbatim>\<open>Strategy_Admission\<close> (\<^verbatim>\<open>tos/dsl/\<close>,
    \<^verbatim>\<open>tos/engine/admission.py\<close>, \<^verbatim>\<open>registry.py\<close>): the strategy language, its escape checker and
    evaluation, the outcomes, admission and the registry.
  \<^item> \<^verbatim>\<open>Engine_Ledger\<close> (\<^verbatim>\<open>tos/engine/state.py\<close>), \<^verbatim>\<open>Engine_Records\<close> (\<^verbatim>\<open>records.py\<close>, \<^verbatim>\<open>vocabulary.py\<close>),
    \<^verbatim>\<open>Engine_Pipeline\<close> (\<^verbatim>\<open>pipeline.py\<close>), \<^verbatim>\<open>Engine_Sequencer\<close> (\<^verbatim>\<open>sequencer.py\<close>), \<^verbatim>\<open>Engine_Core\<close>
    (\<^verbatim>\<open>core.py\<close>): the engine.  Its runs are the step relation \<open>core_run\<close>; the locale
    \<open>engine_invariant\<close> lifts a property of single ledger operations to whole runs.

  \<^item> \<^verbatim>\<open>Broker_Capability\<close> (\<^verbatim>\<open>tos/brokercap/\<close>): broker capability profiles, what they admit, drift, and
    the axes by which a call to the broker is routed or refused.
  \<^item> \<^verbatim>\<open>Egress_Guards\<close> (\<^verbatim>\<open>tos/egress/\<close>), \<^verbatim>\<open>Currentness\<close> (\<^verbatim>\<open>tos/cur/\<close>), \<^verbatim>\<open>Order_Conformance\<close>
    (\<^verbatim>\<open>tos/ioc/\<close>), \<^verbatim>\<open>Venue_Admissibility\<close> (\<^verbatim>\<open>tos/venue/\<close>): the records and predicates the send
    boundary rests on.  The compiler of broker commands only yields conformant ones; the closure of a
    change in the dependency graph of constraints is reachability.
  \<^item> \<^verbatim>\<open>Engine_Adapters\<close> (\<^verbatim>\<open>tos/engine/adapters.py\<close>): the results of those packages as verdicts of stages.
  \<^item> \<^verbatim>\<open>Send_Boundary\<close>, \<^verbatim>\<open>Egress_Gateway\<close>, \<^verbatim>\<open>Gateway_Properties\<close> (\<^verbatim>\<open>tos/egressgw/\<close>): the seventeen
    items, the seal and the gateway's call, with its context source, transport and sink as parameters
    over a world of their own.  \<open>traced\<close> is the same gateway with a log of what its sink and its
    transport saw, in order; \<open>same_run\<close> shows that observing changes nothing, and the properties
    speak of that log.
  \<^item> \<^verbatim>\<open>Py_Division\<close> (the division of Python's \<^verbatim>\<open>decimal\<close>), \<^verbatim>\<open>Order_Sizing\<close> and
    \<^verbatim>\<open>Order_Construction\<close> (\<^verbatim>\<open>tos/egressgw/construction.py\<close>, \<^verbatim>\<open>records.py\<close>): the order size, the candidate
    command, the stages that construct, price and prove it, and the context they hand to the gateway.
    The lemmas link the three: what is sized within bounds is built, what is built passes the gateway.
  \<^item> \<^verbatim>\<open>Engine_Gateway\<close> (\<^verbatim>\<open>tos_runtime/compose/_engine_wiring.py\<close>): the core with the gateway as its
    transmit.  An invariant of the engine that sends keep is lifted to runs of the two together.
  \<^item> \<^verbatim>\<open>Event_Inbox\<close> (\<^verbatim>\<open>tos_runtime/engine/inbox.py\<close>): the durable inbox of events with the latch that
    halts new risk.  It implements a first-in first-out queue, stated as the locale \<open>durable_queue\<close>.

  \<^bold>\<open>How code becomes definitions.\<close>  A class is a record with the code's fields, an enum a datatype, an
  operation a function that takes the state and returns it.  A Python exception is the left injection
  of \<open>result\<close>; where an operation changes state before it raises, the state after the raise is
  returned as well.  A validator is a predicate on the record: what the constructor accepts.  Python's
  int is \<open>int\<close>, so no overflow occurs; \<open>Decimal\<close> is \<open>pydec\<close> with the rounding of the context written
  out; a float leaf enters as the decimal of its repr or as the rational it denotes.  A set is a list
  without duplicates where its order is observable.  Explanatory texts (\<^verbatim>\<open>detail\<close>) are left out
  of evidence records.

  \<^bold>\<open>Loops.\<close>  All loops but two are recursions over a list or a tree.  The traversal of a dependency graph
  (\<open>reach_loop\<close>) terminates by the unvisited nodes and the pending ones.  The walk of the escape checker
  over an open tree keeps its own stack, so it is a \<open>partial_function\<close> whose value \<open>None\<close> is a run
  that does not end; \<open>checker_terminates\<close> shows that it always returns.  No definition uses fuel.

  \<^bold>\<open>What is a parameter.\<close>  The digest function and HMAC (third-party code); what a cycle of the time
  service reads from clocks and from its evidence port; what goes wrong around a SQLite transaction;
  for the engine core its preconditions, the stages of the commitment flow, the transmit, the JSON
  dump of an event (only the identity derived from it is used) and the judgement of a corporate
  action, which the core records without acting on it.  A theorem that needs more than the type of
  such a parameter says so as a hypothesis and has a witness with a concrete function.

  \<^bold>\<open>Not modelled.\<close>  Text-level JSON (duplicate or unknown keys, wrongly typed values), file locks,
  threads (operations are serialised by the code's locks), the database triggers that forbid
  mutation, the exponent limits of the decimal context.  Of the kernel the packages that only judge
  records for stages not realised in the tree, and of the runtime the adapters that connect it to
  broker, custody and market data.  The repository's older trading services (\<^verbatim>\<open>shared/\<close>,
  \<^verbatim>\<open>services/\<close>, \<^verbatim>\<open>cli/\<close>), its tools and probes, the front end, deployment and configuration are
  outside of the trading operating system and are left aside.
\<close>

end
